(* ===== verification/Soroban.thy ===== *)
theory Soroban
  imports Main "HOL-Library.Word" "HOL-Library.Signed_Division"
begin

text \<open>
  The prelude of the development: what every contract of the workspace uses of Rust and of the
  Soroban host, and the lemmas and rule collections the component theories share.

  A contract entry point is a function from the invocation's environment, its arguments and the
  contract's state to a \<^emph>\<open>fault\<close> or to its result and the new state.  The host discards every
  storage write and every event of an invocation that returns an error or traps, so a fault
  carries no state.  Integers are mathematical integers with the width written out: the workspace
  is built with \<open>overflow-checks = true\<close> (Cargo.toml), so \<open>+\<close>, \<open>-\<close> and \<open>*\<close> on \<open>i128\<close>, \<open>u64\<close> and
  \<open>u32\<close> trap when the result leaves the type.
\<close>

named_theorems outcome_simps \<open>when a faulting computation returns a given result\<close>
named_theorems host_simps \<open>the host operations of the model, unfolded\<close>

section \<open>Addresses, values and events\<close>

datatype address = Address nat

text \<open>\<open>BytesN<32>\<close>: contract code hashes, transaction identifiers.\<close>

type_synonym bytes32 = "256 word"

text \<open>
  The values a contract hands to the host: event topics and event data, and the argument vectors
  of cross-contract calls.  A Rust tuple or \<open>Vec\<close> is the list of its components, a
  \<open>Map<Symbol, String>\<close> the list of its entries in key order.
\<close>

datatype val =
    VAddr address
  | VInt int
  | VNat nat
  | VSym string
  | VStr string
  | VBytes bytes32
  | VMap "(string \<times> string) list"
  | VVec "val list"
  | VBool bool
  | VVoid

type_synonym event = "val list \<times> val list"

fun opt_val :: "('a \<Rightarrow> val) \<Rightarrow> 'a option \<Rightarrow> val" where
  "opt_val f None = VVoid"
| "opt_val f (Some x) = f x"

section \<open>Faults and the question mark operator\<close>

text \<open>
  A trap ends the invocation without a contract error: a failed \<open>require_auth\<close>, an arithmetic
  overflow, an \<open>expect\<close>/\<open>unwrap\<close> on a missing storage entry, a stored value of another type, a
  failed call of another contract, an explicit \<open>panic!\<close>.
\<close>

datatype trap =
    AuthTrap address
  | OverflowTrap
  | MissingTrap string
  | ConversionTrap
  | CallTrap
  | PanicTrap string

datatype 'e fault = Err 'e | Trap trap

definition bindE :: "'f + 'a \<Rightarrow> ('a \<Rightarrow> 'f + 'b) \<Rightarrow> 'f + 'b" where
  "bindE r f = (case r of Inl e \<Rightarrow> Inl e | Inr x \<Rightarrow> f x)"

definition ensure :: "bool \<Rightarrow> 'f \<Rightarrow> 'f + unit" where
  "ensure c e = (if c then Inr () else Inl e)"

definition map_err :: "('e \<Rightarrow> 'g) \<Rightarrow> 'e fault + 'a \<Rightarrow> 'g fault + 'a" where
  "map_err f r = (case r of Inl (Err e) \<Rightarrow> Inl (Err (f e)) | Inl (Trap t) \<Rightarrow> Inl (Trap t) | Inr x \<Rightarrow> Inr x)"

text \<open>\<open>ok_or\<close>: the value of an option, or the given contract error.\<close>

fun ok_or :: "'a option \<Rightarrow> 'e \<Rightarrow> 'e fault + 'a" where
  "ok_or None e = Inl (Err e)"
| "ok_or (Some x) e = Inr x"

text \<open>\<open>expect\<close>/\<open>unwrap\<close>: the value of an option, or a trap.\<close>

fun expect :: "'a option \<Rightarrow> string \<Rightarrow> 'e fault + 'a" where
  "expect None m = Inl (Trap (MissingTrap m))"
| "expect (Some x) m = Inr x"

text \<open>\<open>unwrap_or\<close>.\<close>

fun unwrap_or :: "'a option \<Rightarrow> 'a \<Rightarrow> 'a" where
  "unwrap_or None d = d"
| "unwrap_or (Some x) d = x"

lemma unwrap_or_False_iff: "unwrap_or x False \<longleftrightarrow> x = Some True"
  by (cases x) auto

lemma bindE_simps [simp]:
  "bindE (Inl e) f = Inl e"
  "bindE (Inr x) f = f x"
  by (simp_all add: bindE_def)

lemma bindE_Inr_iff [outcome_simps]: "bindE r f = Inr y \<longleftrightarrow> (\<exists>x. r = Inr x \<and> f x = Inr y)"
  by (cases r) auto

lemma bindE_Inl_iff: "bindE r f = Inl e \<longleftrightarrow> r = Inl e \<or> (\<exists>x. r = Inr x \<and> f x = Inl e)"
  by (cases r) auto

lemma bindE_assoc: "bindE (bindE r f) g = bindE r (\<lambda>x. bindE (f x) g)"
  by (cases r) auto

lemma ensure_Inr_iff [outcome_simps]: "ensure c e = Inr u \<longleftrightarrow> c"
  by (simp add: ensure_def)

lemma fail_if_Inr_iff: "(if c then Inl f else r) = Inr x \<longleftrightarrow> \<not> c \<and> r = Inr x"
  by simp

lemma ensure_Inl_iff: "ensure c e = Inl e' \<longleftrightarrow> \<not> c \<and> e' = e"
  by (auto simp: ensure_def)

lemma ensure_simps [simp]: "c \<Longrightarrow> ensure c e = Inr ()" "\<not> c \<Longrightarrow> ensure c e = Inl e"
  by (simp_all add: ensure_def)

lemma map_err_Inr_iff [outcome_simps]: "map_err f r = Inr x \<longleftrightarrow> r = Inr x"
  by (auto simp: map_err_def split: sum.splits fault.splits)

lemma map_err_simps [simp]:
  "map_err f (Inr x) = Inr x"
  "map_err f (Inl (Err e)) = Inl (Err (f e))"
  "map_err f (Inl (Trap t)) = Inl (Trap t)"
  by (simp_all add: map_err_def)

lemma ok_or_Inr_iff [outcome_simps]: "ok_or x e = Inr y \<longleftrightarrow> x = Some y"
  by (cases x) auto

lemma expect_Inr_iff [outcome_simps]: "expect x m = Inr y \<longleftrightarrow> x = Some y"
  by (cases x) auto

text \<open>The state a call with a result leaves.\<close>

definition drop_result :: "'f + 'r \<times> 's \<Rightarrow> 'f + 's" where
  "drop_result r = bindE r (\<lambda>(_, s). Inr s)"

lemma drop_result_Inr_iff [outcome_simps]: "drop_result r = Inr s \<longleftrightarrow> (\<exists>x. r = Inr (x, s))"
  by (auto simp: drop_result_def outcome_simps)

section \<open>Machine arithmetic with overflow checks\<close>

definition i128_ok :: "int \<Rightarrow> bool" where
  "i128_ok x \<longleftrightarrow> - (2 ^ 127) \<le> x \<and> x < 2 ^ 127"

definition ck_i128 :: "int \<Rightarrow> 'e fault + int" where
  "ck_i128 x = (if i128_ok x then Inr x else Inl (Trap OverflowTrap))"

definition ck_u64 :: "nat \<Rightarrow> 'e fault + nat" where
  "ck_u64 x = (if x < 2 ^ 64 then Inr x else Inl (Trap OverflowTrap))"

definition ck_u32 :: "nat \<Rightarrow> 'e fault + nat" where
  "ck_u32 x = (if x < 2 ^ 32 then Inr x else Inl (Trap OverflowTrap))"

text \<open>\<open>u64\<close> subtraction: traps below zero.\<close>

definition sub_u64 :: "nat \<Rightarrow> nat \<Rightarrow> 'e fault + nat" where
  "sub_u64 a b = (if b \<le> a then Inr (a - b) else Inl (Trap OverflowTrap))"

text \<open>\<open>i128\<close> division: truncates towards zero; a zero divisor and \<open>MIN / -1\<close> trap.\<close>

definition div_i128 :: "int \<Rightarrow> int \<Rightarrow> 'e fault + int" where
  "div_i128 a b = (if b = 0 then Inl (Trap OverflowTrap) else ck_i128 (a sdiv b))"

text \<open>\<open>i128::saturating_sub\<close>.\<close>

definition saturating_sub :: "int \<Rightarrow> int \<Rightarrow> int" where
  "saturating_sub a b = max (- (2 ^ 127)) (min (2 ^ 127 - 1) (a - b))"

lemma ck_i128_Inr_iff [outcome_simps]: "ck_i128 x = Inr y \<longleftrightarrow> y = x \<and> i128_ok x"
  by (auto simp: ck_i128_def)

lemma ck_u64_Inr_iff [outcome_simps]: "ck_u64 x = Inr y \<longleftrightarrow> y = x \<and> x < 2 ^ 64"
  by (auto simp: ck_u64_def)

lemma ck_u32_Inr_iff [outcome_simps]: "ck_u32 x = Inr y \<longleftrightarrow> y = x \<and> x < 2 ^ 32"
  by (auto simp: ck_u32_def)

lemma sub_u64_Inr_iff [outcome_simps]: "sub_u64 a b = Inr y \<longleftrightarrow> y = a - b \<and> b \<le> a"
  by (auto simp: sub_u64_def)

lemma div_i128_Inr_iff [outcome_simps]:
  "div_i128 a b = Inr y \<longleftrightarrow> y = a sdiv b \<and> b \<noteq> 0 \<and> i128_ok (a sdiv b)"
  by (auto simp: div_i128_def ck_i128_def)

lemma sdiv_nonneg: "0 \<le> a \<Longrightarrow> 0 \<le> b \<Longrightarrow> a sdiv b = a div (b :: int)"
  by (cases "a = 0"; cases "b = 0") (auto simp: signed_divide_int_def)

lemma mult_div_le_int: "0 < b \<Longrightarrow> b * (a div b) \<le> (a :: int)"
  using pos_mod_sign [of b a] mult_div_mod_eq [of b a] by linarith

lemma saturating_sub_exact: "i128_ok (a - b) \<Longrightarrow> saturating_sub a b = a - b"
  by (simp add: saturating_sub_def i128_ok_def)

section \<open>The invocation and the host state\<close>

text \<open>
  What the host tells a contract about the running invocation: the ledger's closing time, the
  contract's own address, and for which addresses \<open>require_auth\<close> succeeds.
\<close>

record env =
  timestamp :: nat
  contract_addr :: address
  authorized :: "address \<Rightarrow> bool"

text \<open>
  The part of the state the host keeps outside the contract's storage: the events published so
  far and the world of the other contracts (\<open>'w\<close>, a parameter of the model), which a contract
  reaches only through cross-contract calls.  A contract's state extends this record with the
  entries of its storage.
\<close>

record 'w host =
  events :: "event list"
  world :: 'w

definition publish :: "val list \<Rightarrow> val list \<Rightarrow> ('w, 'x) host_scheme \<Rightarrow> ('w, 'x) host_scheme" where
  [host_simps]: "publish topics data s = s\<lparr>events := events s @ [(topics, data)]\<rparr>"

definition require_auth :: "env \<Rightarrow> address \<Rightarrow> 'e fault + unit" where
  "require_auth e a = ensure (authorized e a) (Trap (AuthTrap a))"

lemma require_auth_Inr_iff [outcome_simps]: "require_auth e a = Inr u \<longleftrightarrow> authorized e a"
  by (simp add: require_auth_def outcome_simps)

lemma require_auth_simps [simp]:
  "authorized e a \<Longrightarrow> require_auth e a = Inr ()"
  "\<not> authorized e a \<Longrightarrow> require_auth e a = Inl (Trap (AuthTrap a))"
  by (simp_all add: require_auth_def)

text \<open>
  Two facts about the host that the safety properties use: a contract's own address never
  authorises an invocation of that contract (the host refuses re-entry, so no frame of the
  contract can be the invoker).
\<close>

definition host_env :: "address \<Rightarrow> env \<Rightarrow> bool" where
  "host_env self e \<longleftrightarrow> contract_addr e = self \<and> \<not> authorized e self"

text \<open>An invocation at a given time that one address has authorised.\<close>

definition call_at :: "nat \<Rightarrow> address \<Rightarrow> address \<Rightarrow> env" where
  "call_at t self who = \<lparr>timestamp = t, contract_addr = self, authorized = (\<lambda>a. a = who)\<rparr>"

lemma call_at_simps [simp]:
  "timestamp (call_at t self who) = t"
  "contract_addr (call_at t self who) = self"
  "authorized (call_at t self who) a \<longleftrightarrow> a = who"
  "host_env self (call_at t self' who) \<longleftrightarrow> self' = self \<and> who \<noteq> self"
  by (auto simp: call_at_def host_env_def)

text \<open>The state after an invocation: unchanged when it failed.\<close>

definition after :: "'f + 's \<Rightarrow> 's \<Rightarrow> 's" where
  "after r s = (case r of Inl _ \<Rightarrow> s | Inr s' \<Rightarrow> s')"

lemma after_simps [simp]: "after (Inl f) s = s" "after (Inr s') s = s'"
  by (simp_all add: after_def)

section \<open>Token contracts\<close>

text \<open>
  The token (USDC, a Stellar asset contract) is not part of the repository.  The model takes its
  interface as a parameter: \<open>transfer token from to amount\<close> in a world gives the new world, or
  \<open>None\<close> when the token call traps; \<open>balance\<close> reads an account.
\<close>

record 'w token_if =
  tk_transfer :: "address \<Rightarrow> address \<Rightarrow> address \<Rightarrow> int \<Rightarrow> 'w \<Rightarrow> 'w option"
  tk_balance :: "address \<Rightarrow> address \<Rightarrow> 'w \<Rightarrow> int"

definition token_transfer ::
  "'w token_if \<Rightarrow> address \<Rightarrow> address \<Rightarrow> address \<Rightarrow> int \<Rightarrow> ('w, 'x) host_scheme \<Rightarrow>
   'e fault + ('w, 'x) host_scheme" where
  "token_transfer tk token from to amount s =
     (case tk_transfer tk token from to amount (world s) of
        None \<Rightarrow> Inl (Trap CallTrap)
      | Some w \<Rightarrow> Inr (s\<lparr>world := w\<rparr>))"

lemma token_transfer_Inr_iff [outcome_simps]:
  "token_transfer tk token from to amount s = Inr s' \<longleftrightarrow>
     (\<exists>w. tk_transfer tk token from to amount (world s) = Some w \<and> s' = s\<lparr>world := w\<rparr>)"
  by (auto simp: token_transfer_def split: option.splits)

text \<open>
  The documented contract of \<open>transfer\<close> in SEP-41 (the Stellar token interface): a transfer that
  succeeds moves exactly the amount between the two accounts of that token and changes no other
  balance; a transfer to oneself changes nothing.
\<close>

definition moved :: "int \<Rightarrow> address \<Rightarrow> address \<Rightarrow> address \<Rightarrow> int" where
  "moved amount from to a =
     (if a = to then amount else 0) - (if a = from then amount else 0)"

definition sep41 :: "'w token_if \<Rightarrow> bool" where
  "sep41 tk \<longleftrightarrow>
     (\<forall>token from to amount w w'. tk_transfer tk token from to amount w = Some w' \<longrightarrow>
        (\<forall>t a. tk_balance tk t a w' =
           tk_balance tk t a w + (if t = token then moved amount from to a else 0)))"

lemma sep41D:
  assumes "sep41 tk" and "tk_transfer tk token from to amount w = Some w'"
  shows "tk_balance tk token a w' = tk_balance tk token a w + moved amount from to a"
  using assms by (auto simp: sep41_def)

lemma moved_simps:
  "from \<noteq> to \<Longrightarrow> moved n from to to = n"
  "from \<noteq> to \<Longrightarrow> moved n from to from = - n"
  "moved n a a b = 0"
  "a \<noteq> from \<Longrightarrow> a \<noteq> to \<Longrightarrow> moved n from to a = 0"
  by (auto simp: moved_def)

text \<open>
  A concrete token for the witnesses: one balance per token and account, transfers refused when
  negative or not covered.
\<close>

type_synonym ledger = "address \<Rightarrow> address \<Rightarrow> int"

definition ledger_token :: "ledger token_if" where
  "ledger_token = \<lparr>
     tk_transfer = (\<lambda>token from to amount w.
        if 0 \<le> amount \<and> amount \<le> w token from
        then Some (w(token := (\<lambda>a. w token a + moved amount from to a)))
        else None),
     tk_balance = (\<lambda>token a w. w token a)\<rparr>"

lemma sep41_ledger_token: "sep41 ledger_token"
  by (auto simp: sep41_def ledger_token_def split: if_splits)

section \<open>Serialisation and hashing\<close>

text \<open>
  The host's XDR serialisation and SHA-256 are not part of the repository; the model takes them as
  a parameter.
\<close>

type_synonym bytes = "8 word list"

record host_crypto =
  to_xdr :: "val \<Rightarrow> bytes"
  sha256 :: "bytes \<Rightarrow> bytes32"

text \<open>A digest as a byte string, most significant byte first.\<close>

definition digest_bytes :: "bytes32 \<Rightarrow> bytes" where
  "digest_bytes h = map (\<lambda>i. ucast (drop_bit (8 * (31 - i)) h)) [0..<32]"

section \<open>Storage entries\<close>

text \<open>
  An entry written with an \<open>Option\<close> value can be absent, hold the host's \<open>Void\<close> (what \<open>None\<close>
  converts to), or hold a value.  \<open>Storage::get::<_, V>\<close> of the SDK returns \<open>None\<close> for an absent
  entry and otherwise converts the stored value to \<open>V\<close>, trapping when it is of another type: a
  stored \<open>Void\<close> is not an \<open>Address\<close>.
\<close>

datatype 'a slot = Absent | Void | Stored 'a

fun slot_get :: "'a slot \<Rightarrow> 'e fault + 'a option" where
  "slot_get Absent = Inr None"
| "slot_get Void = Inl (Trap ConversionTrap)"
| "slot_get (Stored x) = Inr (Some x)"

fun slot_of :: "'a option \<Rightarrow> 'a slot" where
  "slot_of None = Void"
| "slot_of (Some x) = Stored x"

lemma slot_get_Inr_iff [outcome_simps]:
  "slot_get x = Inr y \<longleftrightarrow> (x = Absent \<and> y = None) \<or> (\<exists>v. x = Stored v \<and> y = Some v)"
  by (cases x) auto

section \<open>Totals over maps\<close>

text \<open>
  The sum a map's values contribute, with the weight \<open>f\<close>: the aggregates (total staked, total
  escrowed) of per-account entries.
\<close>

definition msum :: "('k \<Rightarrow> 'v \<Rightarrow> int) \<Rightarrow> ('k \<rightharpoonup> 'v) \<Rightarrow> int" where
  "msum f m = (\<Sum>k\<in>dom m. f k (the (m k)))"

lemma msum_empty [simp]: "msum f Map.empty = 0"
  by (simp add: msum_def)

lemma msum_upd:
  assumes "finite (dom m)"
  shows "msum f (m(k \<mapsto> v)) = msum f m - (case m k of None \<Rightarrow> 0 | Some u \<Rightarrow> f k u) + f k v"
proof -
  have rest: "(\<Sum>x\<in>dom m - {k}. f x (the ((m(k \<mapsto> v)) x))) = (\<Sum>x\<in>dom m - {k}. f x (the (m x)))"
    by (rule sum.cong) auto
  have new: "msum f (m(k \<mapsto> v)) = f k v + (\<Sum>x\<in>dom m - {k}. f x (the (m x)))"
    using assms rest by (simp add: msum_def sum.insert_remove)
  show ?thesis
  proof (cases "m k")
    case None
    then have "dom m - {k} = dom m" by auto
    with new None show ?thesis by (simp add: msum_def)
  next
    case (Some u)
    then have "k \<in> dom m" by auto
    with assms have "msum f m = f k u + (\<Sum>x\<in>dom m - {k}. f x (the (m x)))"
      using Some by (simp add: msum_def sum.remove)
    with new Some show ?thesis by simp
  qed
qed

lemma msum_delete:
  assumes "finite (dom m)"
  shows "msum f (m(k := None)) = msum f m - (case m k of None \<Rightarrow> 0 | Some u \<Rightarrow> f k u)"
proof (cases "m k")
  case None
  then have "m(k := None) = m" by auto
  with None show ?thesis by simp
next
  case (Some u)
  have "msum f (m(k := None)) = (\<Sum>x\<in>dom m - {k}. f x (the (m x)))"
    unfolding msum_def by (rule sum.cong) auto
  moreover from Some have "k \<in> dom m" by auto
  with assms have "msum f m = f k u + (\<Sum>x\<in>dom m - {k}. f x (the (m x)))"
    using Some by (simp add: msum_def sum.remove)
  ultimately show ?thesis using Some by simp
qed

lemma msum_upd_default:
  assumes "finite (dom m)" and "f k d = 0"
  shows "msum f (m(k \<mapsto> v)) = msum f m - f k (unwrap_or (m k) d) + f k v"
  using assms by (cases "m k") (simp_all add: msum_upd)

lemma msum_mono:
  assumes "\<And>k v. m k = Some v \<Longrightarrow> f k v \<le> g k v"
  shows "msum f m \<le> msum g m"
  unfolding msum_def using assms by (intro sum_mono) auto

lemma msum_nonneg:
  assumes "\<And>k v. m k = Some v \<Longrightarrow> 0 \<le> f k v"
  shows "0 \<le> msum f m"
  unfolding msum_def using assms by (intro sum_nonneg) auto

lemma msum_linear: "msum (\<lambda>k v. c * f k v) m = c * msum f m"
  by (simp add: msum_def sum_distrib_left)

lemma msum_add: "msum (\<lambda>k v. f k v + g k v) m = msum f m + msum g m"
  by (simp add: msum_def sum.distrib)

lemma msum_member_le:
  assumes "finite (dom m)" and "m k = Some v" and "\<And>k v. m k = Some v \<Longrightarrow> 0 \<le> f k v"
  shows "f k v \<le> msum f m"
proof -
  have "f k (the (m k)) \<le> (\<Sum>x\<in>dom m. f x (the (m x)))"
    using assms by (intro member_le_sum) auto
  then show ?thesis using assms(2) by (simp add: msum_def)
qed

end
