(* ===== verification/Machines.thy ===== *)
theory Machines
  imports Soroban
begin

text \<open>
  Contracts as state machines, and the interfaces the component theories share.

  A contract is a function \<open>exec\<close> from the invocation and a call of one of its entry points to a
  fault or a new state.  \<open>run_calls\<close> is a sequence of invocations (a failed one leaves the state
  as it was), \<open>reach\<close> the states a history of successful calls interleaved with other activity on
  the ledger can lead to.  The locales state what a component's theory has to supply (an invariant
  its calls keep, a liability its token balance covers, a pause switch) and prove once what follows
  for every history; each contract's theory interprets them on its own definitions.
\<close>

section \<open>Histories\<close>

definition apply_call :: "(env \<Rightarrow> 'op \<Rightarrow> 's \<Rightarrow> 'f + 's) \<Rightarrow> env \<times> 'op \<Rightarrow> 's \<Rightarrow> 's" where
  "apply_call exec c s = (case exec (fst c) (snd c) s of Inl _ \<Rightarrow> s | Inr s' \<Rightarrow> s')"

fun run_calls :: "(env \<Rightarrow> 'op \<Rightarrow> 's \<Rightarrow> 'f + 's) \<Rightarrow> (env \<times> 'op) list \<Rightarrow> 's \<Rightarrow> 's" where
  "run_calls exec [] s = s"
| "run_calls exec (c # cs) s = run_calls exec cs (apply_call exec c s)"

lemma run_calls_append: "run_calls exec (cs @ ds) s = run_calls exec ds (run_calls exec cs s)"
  by (induction cs arbitrary: s) auto

lemma apply_call_cases:
  obtains (rejected) "apply_call exec c s = s"
  | (accepted) s' where "exec (fst c) (snd c) s = Inr s'" and "apply_call exec c s = s'"
  by (cases "exec (fst c) (snd c) s") (auto simp: apply_call_def)

text \<open>Induction over a history, for facts that relate the state to the calls made so far.\<close>

lemma run_calls_history:
  assumes "P [] s0"
    and "\<And>cs e c s s'. P cs s \<Longrightarrow> exec e c s = Inr s' \<Longrightarrow> P (cs @ [(e, c)]) s'"
    and "\<And>cs x s. P cs s \<Longrightarrow> P (cs @ [x]) s"
  shows "P cs (run_calls exec cs s0)"
proof (induction cs rule: rev_induct)
  case Nil
  show ?case using assms(1) by simp
next
  case (snoc x cs)
  obtain e c where x: "x = (e, c)" by (cases x)
  show ?case
    using snoc assms(2,3) by (cases "exec e c (run_calls exec cs s0)")
      (auto simp: run_calls_append apply_call_def x)
qed

inductive reach ::
  "(env \<Rightarrow> 'op \<Rightarrow> 's \<Rightarrow> 'f + 's) \<Rightarrow> (env \<Rightarrow> 'op \<Rightarrow> bool) \<Rightarrow> ('s \<Rightarrow> 's \<Rightarrow> bool) \<Rightarrow> 's \<Rightarrow> 's \<Rightarrow> bool"
  for exec and ok and others and s0
where
  reach_start: "reach exec ok others s0 s0"
| reach_call: "reach exec ok others s0 s \<Longrightarrow> ok e c \<Longrightarrow> exec e c s = Inr s' \<Longrightarrow> reach exec ok others s0 s'"
| reach_other: "reach exec ok others s0 s \<Longrightarrow> others s s' \<Longrightarrow> reach exec ok others s0 s'"

lemma reach_trans:
  assumes "reach exec ok others s1 s2" and "reach exec ok others s0 s1"
  shows "reach exec ok others s0 s2"
  using assms by (induction rule: reach.induct) (auto intro: reach.intros)

lemma run_calls_reach:
  assumes "\<forall>(e, c) \<in> set cs. ok e c"
  shows "reach exec ok others s (run_calls exec cs s)"
  using assms
proof (induction cs arbitrary: s)
  case Nil
  show ?case by (simp add: reach_start)
next
  case (Cons x xs)
  have "reach exec ok others s (apply_call exec x s)"
    using Cons.prems by (cases x; cases rule: apply_call_cases[of exec x s])
      (auto intro: reach_start reach_call)
  with Cons show ?case by (auto intro: reach_trans)
qed

text \<open>No activity outside the contract that the contract's state could see.\<close>

definition no_others :: "'s \<Rightarrow> 's \<Rightarrow> bool" where
  "no_others s s' \<longleftrightarrow> s' = s"

definition any_call :: "env \<Rightarrow> 'op \<Rightarrow> bool" where
  "any_call e c \<longleftrightarrow> True"

section \<open>Invariants\<close>

locale invariant_machine =
  fixes exec :: "env \<Rightarrow> 'op \<Rightarrow> 's \<Rightarrow> 'f + 's"
    and ok :: "env \<Rightarrow> 'op \<Rightarrow> bool"
    and others :: "'s \<Rightarrow> 's \<Rightarrow> bool"
    and inv :: "'s \<Rightarrow> bool"
  assumes call_inv: "inv s \<Longrightarrow> ok e c \<Longrightarrow> exec e c s = Inr s' \<Longrightarrow> inv s'"
    and other_inv: "inv s \<Longrightarrow> others s s' \<Longrightarrow> inv s'"
begin

lemma reach_inv: "reach exec ok others s0 s \<Longrightarrow> inv s0 \<Longrightarrow> inv s"
  by (induction rule: reach.induct) (auto intro: call_inv other_inv)

lemma run_inv: "inv s \<Longrightarrow> \<forall>(e, c) \<in> set cs. ok e c \<Longrightarrow> inv (run_calls exec cs s)"
  by (rule reach_inv [OF run_calls_reach])

end

text \<open>
  A history with the amount it pays out: \<open>pay e c s\<close> is what the accepted call \<open>c\<close> of invocation
  \<open>e\<close> hands over in state \<open>s\<close>.
\<close>

fun tally ::
  "(env \<Rightarrow> 'op \<Rightarrow> 's \<Rightarrow> 'f + 's) \<Rightarrow> (env \<Rightarrow> 'op \<Rightarrow> 's \<Rightarrow> int) \<Rightarrow> (env \<times> 'op) list \<Rightarrow> int \<Rightarrow> 's \<Rightarrow>
   int \<times> 's" where
  "tally exec pay [] acc s = (acc, s)"
| "tally exec pay ((e, c) # cs) acc s =
     (case exec e c s of
        Inl _ \<Rightarrow> tally exec pay cs acc s
      | Inr s' \<Rightarrow> tally exec pay cs (acc + pay e c s) s')"

lemma tally_inv:
  assumes "tally exec pay cs acc s = (acc', s')" and "P acc s"
    and "\<And>e c acc s s'. (e, c) \<in> set cs \<Longrightarrow> P acc s \<Longrightarrow> exec e c s = Inr s' \<Longrightarrow> P (acc + pay e c s) s'"
  shows "P acc' s'"
  using assms
proof (induction cs arbitrary: acc s)
  case (Cons x cs)
  obtain e c where x: "x = (e, c)" by (cases x)
  show ?case
  proof (cases "exec e c s")
    case (Inl f)
    then show ?thesis using Cons.prems Cons.IH [of acc s] by (simp add: x)
  next
    case (Inr s1)
    then have "P (acc + pay e c s) s1" using Cons.prems(2,3) by (simp add: x)
    then show ?thesis using Cons.prems Cons.IH [of "acc + pay e c s" s1] Inr by (simp add: x)
  qed
qed simp

section \<open>Refinement\<close>

text \<open>
  An abstract specification is a partial step function on an abstract state; a contract refines it
  through \<open>abs\<close> when each accepted call is a step of the specification.  \<open>accepted\<close> are the calls of
  a history the contract accepts, \<open>spec_run\<close> the run of the specification over them.
\<close>

fun accepted :: "(env \<Rightarrow> 'op \<Rightarrow> 's \<Rightarrow> 'f + 's) \<Rightarrow> (env \<times> 'op) list \<Rightarrow> 's \<Rightarrow> (env \<times> 'op) list" where
  "accepted exec [] s = []"
| "accepted exec ((e, c) # cs) s =
     (case exec e c s of
        Inl _ \<Rightarrow> accepted exec cs s
      | Inr s' \<Rightarrow> (e, c) # accepted exec cs s')"

fun spec_run :: "(env \<Rightarrow> 'op \<Rightarrow> 'a \<Rightarrow> 'a option) \<Rightarrow> (env \<times> 'op) list \<Rightarrow> 'a \<Rightarrow> 'a option" where
  "spec_run step [] a = Some a"
| "spec_run step ((e, c) # cs) a =
     (case step e c a of None \<Rightarrow> None | Some a' \<Rightarrow> spec_run step cs a')"

lemma accepted_append:
  "accepted exec (cs @ ds) s = accepted exec cs s @ accepted exec ds (run_calls exec cs s)"
  by (induction cs arbitrary: s) (auto simp: apply_call_def split: sum.splits)

locale refinement =
  fixes exec :: "env \<Rightarrow> 'op \<Rightarrow> 's \<Rightarrow> 'f + 's"
    and step :: "env \<Rightarrow> 'op \<Rightarrow> 'a \<Rightarrow> 'a option"
    and abs :: "'s \<Rightarrow> 'a"
    and inv :: "'s \<Rightarrow> bool"
  assumes sim: "inv s \<Longrightarrow> exec e c s = Inr s' \<Longrightarrow> step e c (abs s) = Some (abs s')"
    and sim_inv: "inv s \<Longrightarrow> exec e c s = Inr s' \<Longrightarrow> inv s'"
begin

lemma run_refines:
  "inv s \<Longrightarrow> spec_run step (accepted exec cs s) (abs s) = Some (abs (run_calls exec cs s))"
proof (induction cs arbitrary: s)
  case (Cons x cs)
  obtain e c where x: "x = (e, c)" by (cases x)
  show ?case
    using Cons sim [of s e c] sim_inv [of s e c]
    by (cases "exec e c s") (auto simp: x apply_call_def)
qed simp

end

section \<open>Custody of tokens\<close>

text \<open>
  Other accounts of the ledger move tokens between a contract's calls; none of them can spend the
  contract's balance, since a transfer needs the sender's authorisation.
\<close>

definition token_others ::
  "'w token_if \<Rightarrow> address \<Rightarrow> address \<Rightarrow> ('w, 'x) host_scheme \<Rightarrow> ('w, 'x) host_scheme \<Rightarrow> bool" where
  "token_others tk token self s s' \<longleftrightarrow>
     (\<exists>w. s' = s\<lparr>world := w\<rparr> \<and> tk_balance tk token self (world s) \<le> tk_balance tk token self w)"

text \<open>Any change of the world outside the contract.\<close>

definition world_moves :: "('w, 'x) host_scheme \<Rightarrow> ('w, 'x) host_scheme \<Rightarrow> bool" where
  "world_moves s s' \<longleftrightarrow> (\<exists>w. s' = s\<lparr>world := w\<rparr>)"

definition holding :: "'w token_if \<Rightarrow> address \<Rightarrow> address \<Rightarrow> ('w, 'x) host_scheme \<Rightarrow> int" where
  "holding tk token self s = tk_balance tk token self (world s)"

text \<open>
  A contract that keeps a book of what it owes (\<open>owed\<close>) in a token, in a unit of its own (1, or the
  scale of a reward index): no call may change its balance by less than the book, and nobody else's
  activity changes the book.
\<close>

locale custodian =
  fixes exec :: "env \<Rightarrow> 'op \<Rightarrow> ('w, 'x) host_scheme \<Rightarrow> 'f + ('w, 'x) host_scheme"
    and ok :: "env \<Rightarrow> 'op \<Rightarrow> bool"
    and tk :: "'w token_if"
    and token :: address
    and self :: address
    and scale :: int
    and books :: "('w, 'x) host_scheme \<Rightarrow> bool"
    and owed :: "('w, 'x) host_scheme \<Rightarrow> int"
  assumes scale_pos: "0 < scale"
    and call_books: "books s \<Longrightarrow> ok e c \<Longrightarrow> exec e c s = Inr s' \<Longrightarrow> books s'"
    and call_covers: "books s \<Longrightarrow> ok e c \<Longrightarrow> exec e c s = Inr s' \<Longrightarrow>
          owed s' - owed s \<le> scale * (holding tk token self s' - holding tk token self s)"
    and world_books: "books (s\<lparr>world := w\<rparr>) = books s"
    and world_owed: "owed (s\<lparr>world := w\<rparr>) = owed s"
begin

definition covered :: "('w, 'x) host_scheme \<Rightarrow> bool" where
  "covered s \<longleftrightarrow> books s \<and> owed s \<le> scale * holding tk token self s"

lemma covered_call: "covered s \<Longrightarrow> ok e c \<Longrightarrow> exec e c s = Inr s' \<Longrightarrow> covered s'"
  unfolding covered_def using call_books call_covers by (force simp: algebra_simps)

lemma covered_other:
  assumes "covered s" and "token_others tk token self s s'"
  shows "covered s'"
proof -
  from assms(2) obtain w where s': "s' = s\<lparr>world := w\<rparr>"
    and le: "tk_balance tk token self (world s) \<le> tk_balance tk token self w"
    by (auto simp: token_others_def)
  have "scale * tk_balance tk token self (world s) \<le> scale * tk_balance tk token self w"
    using le scale_pos by (simp add: mult_left_mono)
  with assms(1) show ?thesis
    by (simp add: covered_def s' holding_def world_books world_owed)
qed

end

sublocale custodian \<subseteq> custody: invariant_machine exec ok "token_others tk token self" covered
  by unfold_locales (auto intro: covered_call covered_other)

context custodian
begin

lemma solvent:
  assumes "reach exec ok (token_others tk token self) s0 s"
    and "books s0" and "owed s0 \<le> scale * holding tk token self s0"
  shows "books s \<and> owed s \<le> scale * holding tk token self s"
  using custody.reach_inv[OF assms(1)] assms(2,3) by (auto simp: covered_def)

end

end
