(* ===== verification/AccessControl.thy ===== *)
theory AccessControl
  imports Machines
begin

text \<open>
  The shared admin and operator gates (\<open>soroban_access_control_core/src/lib.rs\<close>) and the deployable
  reference contract that exposes them (\<open>soroban_access_control/src/lib.rs\<close>).
\<close>

section \<open>The gates\<close>

text \<open>
  \<open>deny\<close> publishes the unauthorized event and hands the contract's error back.  Its callers return
  that error, and the host drops the event with the rest of the failed invocation.
\<close>

definition deny ::
  "address \<Rightarrow> string \<Rightarrow> 'e \<Rightarrow> ('w, 'x) host_scheme \<Rightarrow> 'e \<times> ('w, 'x) host_scheme" where
  "deny caller operation err s =
     (err, publish [VSym ''access_control'', VSym ''unauthorized'', VAddr caller] [VSym operation] s)"

definition require_admin_permission ::
  "env \<Rightarrow> address \<Rightarrow> address \<Rightarrow> string \<Rightarrow> 'e \<Rightarrow> ('w, 'x) host_scheme \<Rightarrow> 'e fault + unit" where
  "require_admin_permission e admin caller operation not_authorized s =
     bindE (require_auth e caller) (\<lambda>_.
     if caller \<noteq> admin then Inl (Err (fst (deny caller operation not_authorized s)))
     else Inr ())"

definition require_admin_or_operator_permission ::
  "env \<Rightarrow> address \<Rightarrow> address option \<Rightarrow> address \<Rightarrow> string \<Rightarrow> 'e \<Rightarrow> ('w, 'x) host_scheme \<Rightarrow>
   'e fault + unit" where
  "require_admin_or_operator_permission e admin operator caller operation not_authorized s =
     bindE (require_auth e caller) (\<lambda>_.
     if caller = admin then Inr ()
     else (case operator of
         Some op \<Rightarrow>
           if caller = op then Inr ()
           else Inl (Err (fst (deny caller operation not_authorized s)))
       | None \<Rightarrow> Inl (Err (fst (deny caller operation not_authorized s)))))"

definition require_admin_auth :: "env \<Rightarrow> address \<Rightarrow> 'e fault + unit" where
  "require_admin_auth e admin = require_auth e admin"

lemma require_admin_permission_Inr_iff [outcome_simps]:
  "require_admin_permission e admin caller operation err s = Inr u \<longleftrightarrow>
     authorized e caller \<and> caller = admin"
  by (auto simp: require_admin_permission_def outcome_simps split: if_splits)

lemma require_admin_permission_denied:
  "authorized e caller \<Longrightarrow> caller \<noteq> admin \<Longrightarrow>
     require_admin_permission e admin caller operation err s = Inl (Err err)"
  by (simp add: require_admin_permission_def deny_def)

lemma require_admin_or_operator_permission_Inr_iff [outcome_simps]:
  "require_admin_or_operator_permission e admin operator caller operation err s = Inr u \<longleftrightarrow>
     authorized e caller \<and> (caller = admin \<or> operator = Some caller)"
  by (auto simp: require_admin_or_operator_permission_def outcome_simps
      split: if_splits option.splits)

lemma require_admin_auth_Inr_iff [outcome_simps]:
  "require_admin_auth e admin = Inr u \<longleftrightarrow> authorized e admin"
  by (simp add: require_admin_auth_def outcome_simps)

section \<open>The reference contract\<close>

datatype ac_error = AC_NotAuthorized

record 'w ac_state = "'w host" +
  ac_admin :: "address option"
  ac_operator :: "address option"

definition ac_init :: "address \<Rightarrow> 'w ac_state \<Rightarrow> ac_error fault + 'w ac_state" where
  "ac_init admin s =
     (if ac_admin s \<noteq> None then Inl (Trap (PanicTrap ''already initialized''))
      else Inr (s\<lparr>ac_admin := Some admin\<rparr>))"

definition ac_get_admin :: "'w ac_state \<Rightarrow> ac_error fault + address" where
  "ac_get_admin s = expect (ac_admin s) ''admin not set''"

definition ac_set_operator ::
  "env \<Rightarrow> address \<Rightarrow> address \<Rightarrow> 'w ac_state \<Rightarrow> ac_error fault + 'w ac_state" where
  "ac_set_operator e caller operator s =
     bindE (ac_get_admin s) (\<lambda>admin.
     bindE (require_admin_permission e admin caller ''set_operator'' AC_NotAuthorized s) (\<lambda>_.
     Inr (s\<lparr>ac_operator := Some operator\<rparr>)))"

definition admin_only_operation ::
  "env \<Rightarrow> address \<Rightarrow> 'w ac_state \<Rightarrow> ac_error fault + 'w ac_state" where
  "admin_only_operation e caller s =
     bindE (ac_get_admin s) (\<lambda>admin.
     bindE (require_admin_permission e admin caller ''admin_only_operation'' AC_NotAuthorized s) (\<lambda>_.
     Inr s))"

definition admin_or_operator_operation ::
  "env \<Rightarrow> address \<Rightarrow> 'w ac_state \<Rightarrow> ac_error fault + 'w ac_state" where
  "admin_or_operator_operation e caller s =
     bindE (ac_get_admin s) (\<lambda>admin.
     bindE (require_admin_or_operator_permission e admin (ac_operator s) caller
              ''admin_or_operator_operation'' AC_NotAuthorized s) (\<lambda>_.
     Inr s))"

datatype ac_call =
    AC_Init address
  | AC_SetOperator address address
  | AC_AdminOnly address
  | AC_AdminOrOperator address

fun ac_exec :: "env \<Rightarrow> ac_call \<Rightarrow> 'w ac_state \<Rightarrow> ac_error fault + 'w ac_state" where
  "ac_exec e (AC_Init a) s = ac_init a s"
| "ac_exec e (AC_SetOperator c a) s = ac_set_operator e c a s"
| "ac_exec e (AC_AdminOnly c) s = admin_only_operation e c s"
| "ac_exec e (AC_AdminOrOperator c) s = admin_or_operator_operation e c s"

lemmas ac_defs = ac_init_def ac_get_admin_def ac_set_operator_def admin_only_operation_def
  admin_or_operator_operation_def

text \<open>The admin of the reference contract is fixed once it is set.\<close>

interpretation ac_machine: invariant_machine ac_exec any_call no_others "\<lambda>s. ac_admin s = Some a" for a
proof
  fix s s' :: "'w ac_state" and e c
  assume "ac_admin s = Some a" and "ac_exec e c s = Inr s'"
  then show "ac_admin s' = Some a"
    by (cases c) (auto simp: ac_defs outcome_simps)
qed (simp add: no_others_def)

end
