(* ===== verification/ReentrancyGuard.thy ===== *)
theory ReentrancyGuard
  imports Machines
begin

text \<open>
  The shared reentrancy lock (\<open>soroban_reentrancy_guard/src/lib.rs\<close>): a boolean entry of the
  calling contract's instance storage.  The library is generic over the storage key; here it is
  generic over how the entry is read and written (\<open>get\<close>, \<open>put\<close>), and the locale \<open>lock_cell\<close> states
  what that needs.  Each contract with a lock interprets it on its own entry.
\<close>

definition enter ::
  "('s \<Rightarrow> bool option) \<Rightarrow> (bool \<Rightarrow> 's \<Rightarrow> 's) \<Rightarrow> 'e \<Rightarrow> 's \<Rightarrow> 'e fault + 's" where
  "enter get put on_reentry s =
     (if unwrap_or (get s) False then Inl (Err on_reentry) else Inr (put True s))"

definition exit_lock :: "(bool \<Rightarrow> 's \<Rightarrow> 's) \<Rightarrow> 's \<Rightarrow> 's" where
  "exit_lock put s = put False s"

text \<open>
  \<open>Scoped\<close>: the lock is taken when the guard is constructed and released when it is dropped, at
  the end of the body.  A body that returns an error is rolled back by the host together with the
  lock.
\<close>

definition scoped ::
  "('s \<Rightarrow> bool option) \<Rightarrow> (bool \<Rightarrow> 's \<Rightarrow> 's) \<Rightarrow> 'e \<Rightarrow> ('s \<Rightarrow> 'e fault + 'r \<times> 's) \<Rightarrow> 's \<Rightarrow>
   'e fault + 'r \<times> 's" where
  "scoped get put on_reentry body s =
     bindE (enter get put on_reentry s) (\<lambda>s1.
     bindE (body s1) (\<lambda>(r, s2). Inr (r, exit_lock put s2)))"

lemma enter_Inr_iff [outcome_simps]:
  "enter get put err s = Inr s' \<longleftrightarrow> \<not> unwrap_or (get s) False \<and> s' = put True s"
  by (auto simp: enter_def)

lemma enter_unlocked: "\<not> unwrap_or (get s) False \<Longrightarrow> enter get put err s = Inr (put True s)"
  by (simp add: enter_def)

locale lock_cell =
  fixes get :: "'s \<Rightarrow> bool option"
    and put :: "bool \<Rightarrow> 's \<Rightarrow> 's"
  assumes get_put: "get (put b s) = Some b"
    and put_put: "put b (put c s) = put b s"
    and put_get: "get s = Some b \<Longrightarrow> put b s = s"
begin

lemma held_rejects: "enter get put err s = Inr s' \<Longrightarrow> enter get put err' s' = Inl (Err err')"
  by (auto simp: enter_def get_put split: if_splits)

lemma exit_releases: "enter get put err (exit_lock put s) = Inr (put True s)"
  by (simp add: enter_def exit_lock_def get_put put_put)

lemma enter_exit: "enter get put err s = Inr s1 \<Longrightarrow> get s = Some False \<Longrightarrow> exit_lock put s1 = s"
  by (auto simp: enter_def exit_lock_def put_put put_get split: if_splits)

lemma scoped_unlocked:
  assumes "scoped get put err body s = Inr (r, s')"
  shows "\<not> unwrap_or (get s) False \<and> get s' = Some False"
  using assms by (auto simp: scoped_def outcome_simps exit_lock_def get_put)

text \<open>A nested section of the same contract is refused, whatever the inner body does.\<close>

lemma scoped_nested:
  "scoped get put err (\<lambda>s1. scoped get put err' body s1) s =
     (if unwrap_or (get s) False then Inl (Err err) else Inl (Err err'))"
  by (simp add: scoped_def enter_def get_put)

end

end
