(* ===== verification/Pausable.thy ===== *)
theory Pausable
  imports Machines
begin

text \<open>
  The pause switch: the trait and error type of \<open>soroban_pausable_core/src/lib.rs\<close>, as a locale that
  every contract with an \<open>impl Pausable\<close> interprets, and the deployable reference contract
  (\<open>soroban_pausable/src/lib.rs\<close>).
\<close>

datatype pausable_error = PE_Paused | PE_NotAuthorized

section \<open>The interface\<close>

text \<open>
  What the trait promises: \<open>pause\<close> and \<open>unpause\<close> succeed only when the stored admin has authorised
  the invocation, they set the switch, and they leave the admin in place.
\<close>

locale pausable =
  fixes pause :: "env \<Rightarrow> address \<Rightarrow> 's \<Rightarrow> 'f + 's"
    and unpause :: "env \<Rightarrow> address \<Rightarrow> 's \<Rightarrow> 'f + 's"
    and is_paused :: "'s \<Rightarrow> bool"
    and admin_of :: "'s \<Rightarrow> address option"
  assumes pause_sets: "pause e a s = Inr s' \<Longrightarrow> is_paused s'"
    and unpause_clears: "unpause e a s = Inr s' \<Longrightarrow> \<not> is_paused s'"
    and pause_admin: "pause e a s = Inr s' \<Longrightarrow>
          (\<exists>adm. admin_of s = Some adm \<and> authorized e adm) \<and> admin_of s' = admin_of s"
    and unpause_admin: "unpause e a s = Inr s' \<Longrightarrow>
          (\<exists>adm. admin_of s = Some adm \<and> authorized e adm) \<and> admin_of s' = admin_of s"
begin

text \<open>A sequence of switch calls: \<open>True\<close> for \<open>pause\<close>, \<open>False\<close> for \<open>unpause\<close>.\<close>

definition switch :: "env \<Rightarrow> address \<times> bool \<Rightarrow> 's \<Rightarrow> 'f + 's" where
  "switch e c s = (if snd c then pause e (fst c) s else unpause e (fst c) s)"

lemma switch_is_paused: "switch e c s = Inr s' \<Longrightarrow> is_paused s' = snd c"
  by (auto simp: switch_def dest: pause_sets unpause_clears split: if_splits)

lemma switch_unauthorized:
  assumes "admin_of s = Some adm" and "\<not> authorized e adm"
  shows "\<exists>f. switch e c s = Inl f"
  using assms pause_admin[of e "fst c" s] unpause_admin[of e "fst c" s]
  by (cases "switch e c s") (auto simp: switch_def split: if_splits)

lemma switch_admin: "switch e c s = Inr s' \<Longrightarrow> admin_of s' = admin_of s"
  by (auto simp: switch_def dest: pause_admin unpause_admin split: if_splits)

lemma apply_switch_admin: "admin_of (apply_call switch x s) = admin_of s"
  by (cases rule: apply_call_cases [of switch x s]) (auto dest: switch_admin)

text \<open>Calls the admin has not authorised never move the switch.\<close>

lemma apply_switch_unauthorized:
  assumes "admin_of s = Some adm" and "\<not> authorized (fst x) adm"
  shows "apply_call switch x s = s"
  using switch_unauthorized[OF assms, of "snd x"] by (auto simp: apply_call_def)

lemma run_switch_unauthorized:
  assumes "admin_of s = Some adm" and "\<forall>x \<in> set cs. \<not> authorized (fst x) adm"
  shows "run_calls switch cs s = s"
  using assms by (induction cs arbitrary: s) (auto simp: apply_switch_unauthorized)

text \<open>After any history the switch is where the last successful call put it.\<close>

lemma run_switch_last:
  assumes "switch e c (run_calls switch cs s) = Inr s'"
  shows "is_paused (run_calls switch (cs @ [(e, c)]) s) = snd c"
  using assms by (auto simp: run_calls_append apply_call_def dest: switch_is_paused)

end

section \<open>The reference contract\<close>

record 'w tp_state = "'w host" +
  tp_admin :: "address option"
  tp_paused :: "bool option"

definition tp_init :: "address \<Rightarrow> 'w tp_state \<Rightarrow> pausable_error fault + 'w tp_state" where
  "tp_init admin s =
     (if tp_admin s \<noteq> None then Inl (Trap (PanicTrap ''already initialized''))
      else Inr (s\<lparr>tp_admin := Some admin, tp_paused := Some False\<rparr>))"

definition tp_is_paused :: "'w tp_state \<Rightarrow> bool" where
  "tp_is_paused s = unwrap_or (tp_paused s) False"

definition tp_guarded_operation :: "'w tp_state \<Rightarrow> pausable_error fault + 'w tp_state" where
  "tp_guarded_operation s = (if tp_is_paused s then Inl (Err PE_Paused) else Inr s)"

definition tp_get_admin :: "'w tp_state \<Rightarrow> pausable_error fault + address" where
  "tp_get_admin s = expect (tp_admin s) ''admin not set''"

definition tp_pause :: "env \<Rightarrow> address \<Rightarrow> 'w tp_state \<Rightarrow> pausable_error fault + 'w tp_state" where
  "tp_pause e admin s =
     bindE (tp_get_admin s) (\<lambda>stored_admin.
     bindE (require_auth e admin) (\<lambda>_.
     if admin \<noteq> stored_admin then Inl (Err PE_NotAuthorized)
     else Inr (publish [VSym ''Pausable'', VSym ''pause''] [] (s\<lparr>tp_paused := Some True\<rparr>))))"

definition tp_unpause :: "env \<Rightarrow> address \<Rightarrow> 'w tp_state \<Rightarrow> pausable_error fault + 'w tp_state" where
  "tp_unpause e admin s =
     bindE (tp_get_admin s) (\<lambda>stored_admin.
     bindE (require_auth e admin) (\<lambda>_.
     if admin \<noteq> stored_admin then Inl (Err PE_NotAuthorized)
     else Inr (publish [VSym ''Pausable'', VSym ''unpause''] [] (s\<lparr>tp_paused := Some False\<rparr>))))"

lemmas tp_defs = tp_init_def tp_is_paused_def tp_guarded_operation_def tp_get_admin_def tp_pause_def
  tp_unpause_def

interpretation tp_pausable: pausable tp_pause tp_unpause tp_is_paused tp_admin
  by unfold_locales (auto simp: tp_defs outcome_simps host_simps split: if_splits)

end
