(* ===== verification/UpgradeGovernance.thy ===== *)
theory UpgradeGovernance
  imports Machines
begin

text \<open>
  The shared upgrade governance (\<open>soroban_upgrade_governance_core/src/lib.rs\<close>): propose a code hash,
  wait for the delay, execute; or an emergency upgrade with the guardian.  Its storage entries are
  fields of \<open>ug_host\<close>, which the state of every contract that links the library extends, as the
  library's keys share the contract's instance storage.
\<close>

datatype ug_error =
    UG_NotAuthorized
  | UG_UpgradeAlreadyPending
  | UG_NoPendingUpgrade
  | UG_UpgradeDelayNotElapsed
  | UG_GuardianNotConfigured
  | UG_InvalidUpgradeVersion
  | UG_IncompatibleSchemaVersion

text \<open>
  \<open>ug_wasm\<close> is the code the contract runs after \<open>update_current_contract_wasm\<close>: the hash last
  installed, \<open>None\<close> for the code it was deployed with.
\<close>

record 'w ug_host = "'w host" +
  ug_admin :: "address option"
  ug_guardian :: "address option"
  ug_pending_hash :: "bytes32 option"
  ug_pending_at :: "nat option"
  ug_pending_version :: "nat option"
  ug_version :: "nat option"
  ug_delay :: "nat option"
  ug_schema :: "nat option"
  ug_wasm :: "bytes32 option"

section \<open>Operations\<close>

definition ug_get_admin :: "('w, 'x) ug_host_scheme \<Rightarrow> 'e fault + address" where
  "ug_get_admin s = expect (ug_admin s) ''Admin must be initialized''"

definition get_contract_version :: "('w, 'x) ug_host_scheme \<Rightarrow> nat" where
  "get_contract_version s = unwrap_or (ug_version s) 0"

definition get_storage_schema_version :: "('w, 'x) ug_host_scheme \<Rightarrow> nat" where
  "get_storage_schema_version s = unwrap_or (ug_schema s) 1"

definition validate_upgrade_safety ::
  "nat \<Rightarrow> nat option \<Rightarrow> ('w, 'x) ug_host_scheme \<Rightarrow> ug_error fault + unit" where
  "validate_upgrade_safety new_version new_schema_version s =
     bindE (ck_u32 (get_contract_version s + 1)) (\<lambda>next_version.
     if new_version \<noteq> next_version then Inl (Err UG_InvalidUpgradeVersion)
     else (case new_schema_version of
         Some new_schema \<Rightarrow>
           if new_schema < get_storage_schema_version s
           then Inl (Err UG_IncompatibleSchemaVersion) else Inr ()
       | None \<Rightarrow> Inr ()))"

definition propose_upgrade ::
  "env \<Rightarrow> address \<Rightarrow> bytes32 \<Rightarrow> nat \<Rightarrow> nat option \<Rightarrow> string \<Rightarrow> ('w, 'x) ug_host_scheme \<Rightarrow>
   ug_error fault + ('w, 'x) ug_host_scheme" where
  "propose_upgrade e admin new_wasm_hash new_version new_schema_version contract_name s =
     bindE (ug_get_admin s) (\<lambda>current_admin.
     if admin \<noteq> current_admin then Inl (Err UG_NotAuthorized)
     else bindE (require_auth e admin) (\<lambda>_.
     if ug_pending_hash s \<noteq> None then Inl (Err UG_UpgradeAlreadyPending)
     else bindE (validate_upgrade_safety new_version new_schema_version s) (\<lambda>_.
     Inr (publish [VSym contract_name, VSym ''propose_upgrade'']
            [VBytes new_wasm_hash, VNat new_version, VNat (timestamp e)]
          (s\<lparr>ug_pending_hash := Some new_wasm_hash,
             ug_pending_at := Some (timestamp e),
             ug_pending_version := Some new_version\<rparr>)))))"

definition clear_pending :: "('w, 'x) ug_host_scheme \<Rightarrow> ('w, 'x) ug_host_scheme" where
  "clear_pending s = s\<lparr>ug_pending_hash := None, ug_pending_at := None, ug_pending_version := None\<rparr>"

definition execute_upgrade ::
  "env \<Rightarrow> address \<Rightarrow> bytes32 \<Rightarrow> string \<Rightarrow> ('w, 'x) ug_host_scheme \<Rightarrow>
   ug_error fault + ('w, 'x) ug_host_scheme" where
  "execute_upgrade e admin new_wasm_hash contract_name s =
     bindE (ug_get_admin s) (\<lambda>current_admin.
     if admin \<noteq> current_admin then Inl (Err UG_NotAuthorized)
     else bindE (require_auth e admin) (\<lambda>_.
     bindE (ok_or (ug_pending_hash s) UG_NoPendingUpgrade) (\<lambda>pending_hash.
     bindE (ok_or (ug_pending_at s) UG_NoPendingUpgrade) (\<lambda>pending_at.
     bindE (ok_or (ug_pending_version s) UG_NoPendingUpgrade) (\<lambda>pending_version.
     if pending_hash \<noteq> new_wasm_hash then Inl (Err UG_NoPendingUpgrade)
     else bindE (ck_u64 (pending_at + unwrap_or (ug_delay s) 0)) (\<lambda>ready_at.
     if timestamp e < ready_at then Inl (Err UG_UpgradeDelayNotElapsed)
     else Inr (publish [VSym contract_name, VSym ''execute_upgrade'']
                 [VAddr admin, VBytes new_wasm_hash, VNat pending_version, VNat (timestamp e)]
               ((clear_pending s)\<lparr>ug_version := Some pending_version\<rparr>)
                 \<lparr>ug_wasm := Some new_wasm_hash\<rparr>)))))))"

definition emergency_upgrade ::
  "env \<Rightarrow> address \<Rightarrow> bytes32 \<Rightarrow> nat \<Rightarrow> nat option \<Rightarrow> string \<Rightarrow> bool \<Rightarrow>
   ('w, 'x) ug_host_scheme \<Rightarrow> ug_error fault + ('w, 'x) ug_host_scheme" where
  "emergency_upgrade e admin new_wasm_hash new_version new_schema_version contract_name
     require_guardian s =
     bindE (ug_get_admin s) (\<lambda>current_admin.
     if admin \<noteq> current_admin then Inl (Err UG_NotAuthorized)
     else bindE (require_auth e admin) (\<lambda>_.
     bindE (validate_upgrade_safety new_version new_schema_version s) (\<lambda>_.
     bindE (if require_guardian
            then bindE (ok_or (ug_guardian s) UG_GuardianNotConfigured) (require_auth e)
            else (case ug_guardian s of Some g \<Rightarrow> require_auth e g | None \<Rightarrow> Inr ())) (\<lambda>_.
     Inr (publish [VSym contract_name, VSym ''emergency_upgrade'']
            [VAddr admin, VBytes new_wasm_hash, VNat new_version, VNat (timestamp e)]
          ((clear_pending s)\<lparr>ug_version := Some new_version\<rparr>)
            \<lparr>ug_wasm := Some new_wasm_hash\<rparr>)))))"

definition set_upgrade_delay ::
  "env \<Rightarrow> address \<Rightarrow> nat \<Rightarrow> string \<Rightarrow> ('w, 'x) ug_host_scheme \<Rightarrow>
   ug_error fault + ('w, 'x) ug_host_scheme" where
  "set_upgrade_delay e admin delay_seconds contract_name s =
     bindE (ug_get_admin s) (\<lambda>current_admin.
     bindE (require_auth e admin) (\<lambda>_.
     if admin \<noteq> current_admin then Inl (Err UG_NotAuthorized)
     else Inr (publish [VSym contract_name, VSym ''set_upgrade_delay''] [VNat delay_seconds]
                 (s\<lparr>ug_delay := Some delay_seconds\<rparr>))))"

definition set_guardian ::
  "env \<Rightarrow> address \<Rightarrow> address option \<Rightarrow> string \<Rightarrow> ('w, 'x) ug_host_scheme \<Rightarrow>
   ug_error fault + ('w, 'x) ug_host_scheme" where
  "set_guardian e admin guardian contract_name s =
     bindE (ug_get_admin s) (\<lambda>current_admin.
     bindE (require_auth e admin) (\<lambda>_.
     if admin \<noteq> current_admin then Inl (Err UG_NotAuthorized)
     else Inr (publish [VSym contract_name, VSym ''set_guardian''] [opt_val VAddr guardian]
                 (s\<lparr>ug_guardian := guardian\<rparr>))))"

definition initialize_upgrade_governance ::
  "address \<Rightarrow> address option \<Rightarrow> nat \<Rightarrow> nat \<Rightarrow> nat \<Rightarrow> ('w, 'x) ug_host_scheme \<Rightarrow>
   ('w, 'x) ug_host_scheme" where
  "initialize_upgrade_governance admin guardian initial_version initial_schema_version
     upgrade_delay s =
     s\<lparr>ug_admin := Some admin,
       ug_guardian := (case guardian of Some g \<Rightarrow> Some g | None \<Rightarrow> ug_guardian s),
       ug_version := Some initial_version,
       ug_schema := Some initial_schema_version,
       ug_delay := Some upgrade_delay\<rparr>"

section \<open>What a successful operation did\<close>

lemma ug_get_admin_Inr_iff [outcome_simps]: "ug_get_admin s = Inr a \<longleftrightarrow> ug_admin s = Some a"
  by (simp add: ug_get_admin_def outcome_simps)

lemma validate_upgrade_safety_Inr_iff [outcome_simps]:
  "validate_upgrade_safety v sch s = Inr u \<longleftrightarrow>
     v = get_contract_version s + 1 \<and> v < 2 ^ 32 \<and>
     (\<forall>n. sch = Some n \<longrightarrow> get_storage_schema_version s \<le> n)"
  by (auto simp: validate_upgrade_safety_def outcome_simps split: if_splits option.splits)

lemma propose_upgrade_Inr_iff [outcome_simps]:
  "propose_upgrade e admin h v sch nm s = Inr s' \<longleftrightarrow>
     ug_admin s = Some admin \<and> authorized e admin \<and> ug_pending_hash s = None \<and>
     v = get_contract_version s + 1 \<and> v < 2 ^ 32 \<and>
     (\<forall>n. sch = Some n \<longrightarrow> get_storage_schema_version s \<le> n) \<and>
     s' = publish [VSym nm, VSym ''propose_upgrade''] [VBytes h, VNat v, VNat (timestamp e)]
            (s\<lparr>ug_pending_hash := Some h, ug_pending_at := Some (timestamp e),
               ug_pending_version := Some v\<rparr>)"
  by (auto simp: propose_upgrade_def outcome_simps split: if_splits)

lemma execute_upgrade_Inr_iff [outcome_simps]:
  "execute_upgrade e admin h nm s = Inr s' \<longleftrightarrow>
     ug_admin s = Some admin \<and> authorized e admin \<and> ug_pending_hash s = Some h \<and>
     (\<exists>at v. ug_pending_at s = Some at \<and> ug_pending_version s = Some v \<and>
        at + unwrap_or (ug_delay s) 0 < 2 ^ 64 \<and> at + unwrap_or (ug_delay s) 0 \<le> timestamp e \<and>
        s' = publish [VSym nm, VSym ''execute_upgrade'']
               [VAddr admin, VBytes h, VNat v, VNat (timestamp e)]
             ((clear_pending s)\<lparr>ug_version := Some v\<rparr>)\<lparr>ug_wasm := Some h\<rparr>)"
  by (auto simp: execute_upgrade_def outcome_simps not_less split: if_splits)

lemma emergency_upgrade_Inr_iff [outcome_simps]:
  "emergency_upgrade e admin h v sch nm req s = Inr s' \<longleftrightarrow>
     ug_admin s = Some admin \<and> authorized e admin \<and>
     v = get_contract_version s + 1 \<and> v < 2 ^ 32 \<and>
     (\<forall>n. sch = Some n \<longrightarrow> get_storage_schema_version s \<le> n) \<and>
     (req \<longrightarrow> ug_guardian s \<noteq> None) \<and>
     (\<forall>g. ug_guardian s = Some g \<longrightarrow> authorized e g) \<and>
     s' = publish [VSym nm, VSym ''emergency_upgrade'']
            [VAddr admin, VBytes h, VNat v, VNat (timestamp e)]
          ((clear_pending s)\<lparr>ug_version := Some v\<rparr>)\<lparr>ug_wasm := Some h\<rparr>"
  by (auto simp: emergency_upgrade_def outcome_simps split: if_splits option.splits)

lemma set_upgrade_delay_Inr_iff [outcome_simps]:
  "set_upgrade_delay e admin d nm s = Inr s' \<longleftrightarrow>
     ug_admin s = Some admin \<and> authorized e admin \<and>
     s' = publish [VSym nm, VSym ''set_upgrade_delay''] [VNat d] (s\<lparr>ug_delay := Some d\<rparr>)"
  by (auto simp: set_upgrade_delay_def outcome_simps split: if_splits)

lemma set_guardian_Inr_iff [outcome_simps]:
  "set_guardian e admin g nm s = Inr s' \<longleftrightarrow>
     ug_admin s = Some admin \<and> authorized e admin \<and>
     s' = publish [VSym nm, VSym ''set_guardian''] [opt_val VAddr g] (s\<lparr>ug_guardian := g\<rparr>)"
  by (auto simp: set_guardian_def outcome_simps split: if_splits)

section \<open>Histories of governance calls\<close>

datatype ug_call =
    UG_Propose address bytes32 nat "nat option"
  | UG_Execute address bytes32
  | UG_Emergency address bytes32 nat "nat option" bool
  | UG_SetDelay address nat
  | UG_SetGuardian address "address option"

fun ug_exec ::
  "string \<Rightarrow> env \<Rightarrow> ug_call \<Rightarrow> ('w, 'x) ug_host_scheme \<Rightarrow> ug_error fault + ('w, 'x) ug_host_scheme" where
  "ug_exec nm e (UG_Propose a h v sch) s = propose_upgrade e a h v sch nm s"
| "ug_exec nm e (UG_Execute a h) s = execute_upgrade e a h nm s"
| "ug_exec nm e (UG_Emergency a h v sch req) s = emergency_upgrade e a h v sch nm req s"
| "ug_exec nm e (UG_SetDelay a d) s = set_upgrade_delay e a d nm s"
| "ug_exec nm e (UG_SetGuardian a g) s = set_guardian e a g nm s"

text \<open>
  What every call keeps: a pending hash has its proposal time and the next version with it.  The
  contracts' own \<open>cancel_upgrade\<close> may leave the version of a cancelled proposal behind, so
  nothing is said of the other entries when no hash is pending.
\<close>

definition pending_ok :: "('w, 'x) ug_host_scheme \<Rightarrow> bool" where
  "pending_ok s \<longleftrightarrow> (ug_pending_hash s \<noteq> None \<longrightarrow>
     ug_pending_at s \<noteq> None \<and> ug_pending_version s = Some (get_contract_version s + 1))"

lemma pending_ok_fields:
  "ug_pending_hash s' = ug_pending_hash s \<Longrightarrow> ug_pending_at s' = ug_pending_at s \<Longrightarrow>
   ug_pending_version s' = ug_pending_version s \<Longrightarrow> ug_version s' = ug_version s \<Longrightarrow>
   pending_ok s' = pending_ok s"
  by (simp add: pending_ok_def get_contract_version_def)

lemma ug_exec_pending_ok:
  assumes "pending_ok s" and "ug_exec nm e c s = Inr s'"
  shows "pending_ok s'"
  using assms
  by (cases c) (auto simp: outcome_simps host_simps pending_ok_def clear_pending_def
      get_contract_version_def)

lemma ug_exec_admin: "ug_exec nm e c s = Inr s' \<Longrightarrow> ug_admin s' = ug_admin s"
  by (cases c) (auto simp: outcome_simps host_simps clear_pending_def)

interpretation ug_machine: invariant_machine "ug_exec nm" any_call no_others pending_ok for nm
  by unfold_locales (auto simp: no_others_def intro: ug_exec_pending_ok)

lemma run_ug_admin: "ug_admin (run_calls (ug_exec nm) cs s) = ug_admin s"
proof (induction cs arbitrary: s)
  case (Cons c cs)
  then show ?case
    by (cases rule: apply_call_cases [of "ug_exec nm" c s]) (auto dest: ug_exec_admin)
qed simp

text \<open>A pending hash was put there by a successful proposal of the admin, at the recorded time.\<close>

definition proposed_in :: "(env \<times> ug_call) list \<Rightarrow> address \<Rightarrow> bytes32 \<Rightarrow> nat \<Rightarrow> bool" where
  "proposed_in cs admin h at \<longleftrightarrow>
     (\<exists>e v sch. (e, UG_Propose admin h v sch) \<in> set cs \<and> authorized e admin \<and> timestamp e = at)"

lemma proposed_in_snoc: "proposed_in cs a h at \<Longrightarrow> proposed_in (cs @ [c]) a h at"
  by (auto simp: proposed_in_def)

lemma ug_exec_pending_source:
  assumes "ug_exec nm e c s = Inr s'" and "ug_pending_hash s' = Some h" and "ug_pending_at s' = Some at"
  shows "ug_pending_hash s = Some h \<and> ug_pending_at s = Some at \<or>
    (\<exists>a v sch. c = UG_Propose a h v sch \<and> authorized e a \<and> timestamp e = at \<and> ug_admin s = Some a)"
  using assms by (cases c) (auto simp: outcome_simps host_simps clear_pending_def)

lemma pending_was_proposed:
  assumes "ug_pending_hash s0 = None" and "ug_admin s0 = Some admin"
    and "ug_pending_hash (run_calls (ug_exec nm) cs s0) = Some h"
    and "ug_pending_at (run_calls (ug_exec nm) cs s0) = Some at"
  shows "proposed_in cs admin h at"
  using assms(3,4)
proof (induction cs rule: rev_induct)
  case Nil
  with assms(1) show ?case by simp
next
  case (snoc x xs)
  let ?s = "run_calls (ug_exec nm) xs s0"
  have adm: "ug_admin ?s = Some admin" using assms(2) by (simp add: run_ug_admin)
  show ?case
  proof (cases rule: apply_call_cases [of "ug_exec nm" x ?s])
    case rejected
    with snoc show ?thesis by (auto simp: run_calls_append intro: proposed_in_snoc)
  next
    case (accepted s')
    with snoc.prems have s': "ug_pending_hash s' = Some h" "ug_pending_at s' = Some at"
      by (auto simp: run_calls_append)
    from ug_exec_pending_source [OF accepted(1) s'] show ?thesis
    proof
      assume "ug_pending_hash ?s = Some h \<and> ug_pending_at ?s = Some at"
      with snoc.IH show ?thesis by (auto intro: proposed_in_snoc)
    next
      assume "\<exists>a v sch. snd x = UG_Propose a h v sch \<and> authorized (fst x) a \<and>
        timestamp (fst x) = at \<and> ug_admin ?s = Some a"
      with adm show ?thesis by (cases x) (auto simp: proposed_in_def)
    qed
  qed
qed

section \<open>Properties\<close>

text \<open>C9. Upgrade timelock. From a state with no pending upgrade, after any history of governance
  calls, an execution of code hash \<open>h\<close> succeeds only if the stored admin authorised it and the
  same admin had authorised a proposal of that very hash earlier in the history, at least the
  upgrade delay in force at execution before it.
\<close>

theorem upgrade_timelock:
  assumes "ug_pending_hash s0 = None"
    and "execute_upgrade e admin h nm (run_calls (ug_exec nm) cs s0) = Inr s'"
  shows "authorized e admin \<and> ug_admin s0 = Some admin \<and> ug_wasm s' = Some h \<and>
    (\<exists>at. proposed_in cs admin h at \<and>
       at + unwrap_or (ug_delay (run_calls (ug_exec nm) cs s0)) 0 \<le> timestamp e)"
proof -
  let ?s = "run_calls (ug_exec nm) cs s0"
  from assms(2) obtain at where run: "ug_admin ?s = Some admin" "authorized e admin"
    "ug_pending_hash ?s = Some h" "ug_pending_at ?s = Some at"
    "at + unwrap_or (ug_delay ?s) 0 \<le> timestamp e" "ug_wasm s' = Some h"
    by (auto simp: outcome_simps host_simps)
  then have adm: "ug_admin s0 = Some admin" by (simp add: run_ug_admin)
  with run pending_was_proposed [OF assms(1) adm run(3,4)] show ?thesis by blast
qed

text \<open>Sequential versions. After any history from a consistent state, a successful execution or
  emergency upgrade installs the hash it names and raises the contract version by exactly one, and
  no other governance call changes the version or the installed code.
\<close>

theorem upgrade_versions_sequential:
  assumes "pending_ok s0" and "s = run_calls (ug_exec nm) cs s0" and "ug_exec nm e c s = Inr s'"
  shows "case c of
      UG_Execute a h \<Rightarrow> get_contract_version s' = get_contract_version s + 1 \<and> ug_wasm s' = Some h
    | UG_Emergency a h v sch req \<Rightarrow>
        get_contract_version s' = get_contract_version s + 1 \<and> ug_wasm s' = Some h
    | _ \<Rightarrow> get_contract_version s' = get_contract_version s \<and> ug_wasm s' = ug_wasm s"
proof -
  have "pending_ok s"
    unfolding assms(2) by (rule ug_machine.run_inv) (auto simp: assms(1) any_call_def)
  with assms(3) show ?thesis
    by (cases c) (auto simp: outcome_simps host_simps clear_pending_def get_contract_version_def
        pending_ok_def)
qed

text \<open>The delay is the one in force at execution. With an upgrade pending, the admin who proposed
  it can set the delay to zero and execute it in the same ledger: the delay configured when it was
  proposed does not bind the admin.
\<close>

theorem upgrade_delay_not_binding:
  assumes "pending_ok s" and "ug_pending_hash s = Some h" and "ug_pending_at s = Some at"
    and "ug_admin s = Some admin" and "authorized e admin"
    and "at \<le> timestamp e" and "timestamp e < 2 ^ 64"
  shows "\<exists>s1 s2. set_upgrade_delay e admin 0 nm s = Inr s1 \<and>
    execute_upgrade e admin h nm s1 = Inr s2 \<and> ug_wasm s2 = Some h"
  using assms by (auto simp: outcome_simps host_simps pending_ok_def)

text \<open>Concrete states for the witnesses.\<close>

definition ug_sample :: "unit ug_host" where
  "ug_sample = \<lparr>events = [], world = (), ug_admin = Some (Address 1), ug_guardian = None,
     ug_pending_hash = None, ug_pending_at = None, ug_pending_version = None, ug_version = Some 1,
     ug_delay = Some 100, ug_schema = Some 1, ug_wasm = None\<rparr>"

definition env_at :: "nat \<Rightarrow> env" where
  "env_at t = \<lparr>timestamp = t, contract_addr = Address 0, authorized = (\<lambda>a. a \<noteq> Address 0)\<rparr>"

lemmas ug_sample_defs = ug_sample_def env_at_def clear_pending_def get_contract_version_def
  get_storage_schema_version_def validate_upgrade_safety_def ug_get_admin_def
  propose_upgrade_def execute_upgrade_def set_upgrade_delay_def emergency_upgrade_def host_simps
  ck_u32_def ck_u64_def

lemma upgrade_timelock_witness:
  "\<exists>s'. execute_upgrade (env_at 150) (Address 1) 7 ''pool''
      (run_calls (ug_exec ''pool'') [(env_at 40, UG_Propose (Address 1) 7 2 None)] ug_sample) = Inr s' \<and>
    ug_wasm s' = Some 7 \<and>
    (\<exists>at. proposed_in [(env_at 40, UG_Propose (Address 1) 7 2 None)] (Address 1) 7 at)"
proof -
  let ?cs = "[(env_at 40, UG_Propose (Address 1) 7 2 None)]"
  have "\<exists>s'. execute_upgrade (env_at 150) (Address 1) 7 ''pool''
      (run_calls (ug_exec ''pool'') ?cs ug_sample) = Inr s'"
    by (simp add: ug_sample_defs apply_call_def)
  then obtain s' where s': "execute_upgrade (env_at 150) (Address 1) 7 ''pool''
      (run_calls (ug_exec ''pool'') ?cs ug_sample) = Inr s'" by blast
  have "ug_pending_hash ug_sample = None" by (simp add: ug_sample_def)
  from upgrade_timelock [OF this s'] s' show ?thesis by blast
qed

lemma upgrade_versions_sequential_witness:
  "\<exists>s'. ug_exec ''pool'' (env_at 150) (UG_Execute (Address 1) 7)
      (run_calls (ug_exec ''pool'') [(env_at 40, UG_Propose (Address 1) 7 2 None)] ug_sample) = Inr s' \<and>
    get_contract_version s' = 2"
proof -
  let ?s = "run_calls (ug_exec ''pool'') [(env_at 40, UG_Propose (Address 1) 7 2 None)] ug_sample"
  have "\<exists>s'. ug_exec ''pool'' (env_at 150) (UG_Execute (Address 1) 7) ?s = Inr s'"
    by (simp add: ug_sample_defs apply_call_def)
  then obtain s' where s': "ug_exec ''pool'' (env_at 150) (UG_Execute (Address 1) 7) ?s = Inr s'"
    by blast
  have "pending_ok ug_sample" by (simp add: pending_ok_def ug_sample_def)
  from upgrade_versions_sequential [OF this refl s'] have "get_contract_version s' = get_contract_version ?s + 1"
    by simp
  moreover have "get_contract_version ?s = 1" by (simp add: ug_sample_defs apply_call_def)
  ultimately show ?thesis using s' by auto
qed

lemma upgrade_delay_not_binding_witness:
  "\<exists>s1 s2. set_upgrade_delay (env_at 41) (Address 1) 0 ''pool''
        (ug_sample\<lparr>ug_pending_hash := Some 7, ug_pending_at := Some 40, ug_pending_version := Some 2\<rparr>) = Inr s1 \<and>
      execute_upgrade (env_at 41) (Address 1) 7 ''pool'' s1 = Inr s2 \<and> ug_wasm s2 = Some 7"
  by (rule upgrade_delay_not_binding [where at = 40])
    (simp_all add: pending_ok_def ug_sample_def env_at_def get_contract_version_def)

end
