(* ===== verification/StakingPool.thy ===== *)
theory StakingPool
  imports AccessControl ReentrancyGuard Pausable UpgradeGovernance
begin

text \<open>
  The staking pool (\<open>staking_pool/src/lib.rs\<close>, \<open>staking_pool/src/validation.rs\<close>): stakers deposit
  tokens, each deposit is locked for the lock period, unstaking consumes unlocked deposits in the
  order they were made.  State, entry points, and the history machine over all entry points that
  change state.  \<open>StakingPoolProps\<close> holds the invariants and properties.
\<close>

section \<open>State and errors\<close>

record deposit =
  dep_amount :: int
  dep_timestamp :: nat

datatype sp_error =
    SP_AlreadyInitialized
  | SP_NotAuthorized
  | SP_Paused
  | SP_InvalidAmount
  | SP_InvalidLockPeriod
  | SP_InsufficientBalance
  | SP_TokensLocked
  | SP_NoStakeTimestamp
  | SP_ReentrancyDetected
  | SP_UpgradeAlreadyPending
  | SP_NoUpgradePending
  | SP_UpgradeDelayNotMet
  | SP_InvalidUpgradeVersion
  | SP_IncompatibleStateSchema

text \<open>
  One field per \<open>DataKey\<close>; the admin, guardian and upgrade entries are the fields of \<open>ug_host\<close>.
  \<open>set_operator\<close> stores an \<open>Option<Address>\<close>, so the operator entry is a \<open>slot\<close>.
\<close>

record 'w sp_state = "'w ug_host" +
  sp_operator :: "address slot"
  sp_token :: "address option"
  sp_staked :: "address \<rightharpoonup> int"
  sp_total :: "int option"
  sp_paused :: "bool option"
  sp_lock_period :: "nat option"
  sp_deposit_count :: "address \<rightharpoonup> nat"
  sp_deposits :: "address \<times> nat \<rightharpoonup> deposit"
  sp_reentrancy :: "bool option"

section \<open>Storage helpers\<close>

definition get_state_schema_version :: "'w sp_state \<Rightarrow> nat" where
  "get_state_schema_version s = unwrap_or (ug_schema s) 0"

definition sp_get_admin :: "'w sp_state \<Rightarrow> 'e fault + address" where
  "sp_get_admin s = expect (ug_admin s) ''admin not set''"

definition sp_get_token :: "'w sp_state \<Rightarrow> 'e fault + address" where
  "sp_get_token s = expect (sp_token s) ''token not set''"

definition sp_get_operator :: "'w sp_state \<Rightarrow> 'e fault + address option" where
  "sp_get_operator s = slot_get (sp_operator s)"

definition sp_is_operator :: "address \<Rightarrow> 'w sp_state \<Rightarrow> 'e fault + bool" where
  "sp_is_operator addr s =
     bindE (sp_get_operator s) (\<lambda>op. Inr (case op of Some a \<Rightarrow> a = addr | None \<Rightarrow> False))"

definition get_staked_balance :: "address \<Rightarrow> 'w sp_state \<Rightarrow> int" where
  "get_staked_balance user s = unwrap_or (sp_staked s user) 0"

definition put_staked_balance :: "address \<Rightarrow> int \<Rightarrow> 'w sp_state \<Rightarrow> 'w sp_state" where
  "put_staked_balance user balance s = s\<lparr>sp_staked := (sp_staked s)(user \<mapsto> balance)\<rparr>"

definition get_total_staked :: "'w sp_state \<Rightarrow> int" where
  "get_total_staked s = unwrap_or (sp_total s) 0"

definition put_total_staked :: "int \<Rightarrow> 'w sp_state \<Rightarrow> 'w sp_state" where
  "put_total_staked n s = s\<lparr>sp_total := Some n\<rparr>"

definition get_lock_period :: "'w sp_state \<Rightarrow> nat" where
  "get_lock_period s = unwrap_or (sp_lock_period s) 0"

definition put_lock_period :: "nat \<Rightarrow> 'w sp_state \<Rightarrow> 'w sp_state" where
  "put_lock_period period s = s\<lparr>sp_lock_period := Some period\<rparr>"

definition get_deposit_count :: "address \<Rightarrow> 'w sp_state \<Rightarrow> nat" where
  "get_deposit_count user s = unwrap_or (sp_deposit_count s user) 0"

definition put_deposit_count :: "address \<Rightarrow> nat \<Rightarrow> 'w sp_state \<Rightarrow> 'w sp_state" where
  "put_deposit_count user count s = s\<lparr>sp_deposit_count := (sp_deposit_count s)(user \<mapsto> count)\<rparr>"

definition get_deposit :: "address \<Rightarrow> nat \<Rightarrow> 'w sp_state \<Rightarrow> deposit option" where
  "get_deposit user index s = sp_deposits s (user, index)"

definition put_deposit :: "address \<Rightarrow> nat \<Rightarrow> deposit \<Rightarrow> 'w sp_state \<Rightarrow> 'w sp_state" where
  "put_deposit user index d s = s\<lparr>sp_deposits := (sp_deposits s)((user, index) \<mapsto> d)\<rparr>"

definition remove_deposit :: "address \<Rightarrow> nat \<Rightarrow> 'w sp_state \<Rightarrow> 'w sp_state" where
  "remove_deposit user index s = s\<lparr>sp_deposits := (sp_deposits s)((user, index) := None)\<rparr>"

definition sp_put_lock :: "bool \<Rightarrow> 'w sp_state \<Rightarrow> 'w sp_state" where
  "sp_put_lock b s = s\<lparr>sp_reentrancy := Some b\<rparr>"

definition sp_enter :: "'w sp_state \<Rightarrow> sp_error fault + 'w sp_state" where
  "sp_enter s = enter sp_reentrancy sp_put_lock SP_ReentrancyDetected s"

definition sp_exit :: "'w sp_state \<Rightarrow> 'w sp_state" where
  "sp_exit s = exit_lock sp_put_lock s"

definition sp_is_paused :: "'w sp_state \<Rightarrow> bool" where
  "sp_is_paused s = unwrap_or (sp_paused s) False"

text \<open>
  With an operator configured only the operator authorises; otherwise the user does, and the
  caller has to be the user.
\<close>

definition require_user_or_operator ::
  "env \<Rightarrow> address \<Rightarrow> address \<Rightarrow> 'w sp_state \<Rightarrow> sp_error fault + address" where
  "require_user_or_operator e user caller s =
     bindE (sp_get_operator s) (\<lambda>operator. case operator of
         Some op \<Rightarrow> bindE (require_auth e op) (\<lambda>_. Inr op)
       | None \<Rightarrow> bindE (require_auth e user) (\<lambda>_.
           if caller \<noteq> user then Inl (Err SP_NotAuthorized) else Inr user))"

definition sp_require_not_paused :: "'w sp_state \<Rightarrow> sp_error fault + unit" where
  "sp_require_not_paused s = ensure (\<not> sp_is_paused s) (Err SP_Paused)"

text \<open>\<open>validation.rs\<close>\<close>

definition sp_require_valid_amount :: "int \<Rightarrow> sp_error fault + unit" where
  "sp_require_valid_amount amount = (if amount \<le> 0 then Inl (Err SP_InvalidAmount) else Inr ())"

definition require_valid_lock_period :: "nat \<Rightarrow> sp_error fault + unit" where
  "require_valid_lock_period lock_period =
     (if lock_period > 31536000 then Inl (Err SP_InvalidLockPeriod) else Inr ())"

lemmas sp_helper_defs = get_state_schema_version_def sp_get_admin_def sp_get_token_def
  sp_get_operator_def get_staked_balance_def put_staked_balance_def get_total_staked_def
  put_total_staked_def get_lock_period_def put_lock_period_def get_deposit_count_def
  put_deposit_count_def get_deposit_def put_deposit_def remove_deposit_def sp_put_lock_def
  sp_enter_def sp_exit_def exit_lock_def sp_is_paused_def sp_require_not_paused_def
  sp_require_valid_amount_def require_valid_lock_period_def require_user_or_operator_def

interpretation sp_lock: lock_cell sp_reentrancy sp_put_lock
  by unfold_locales (auto simp: sp_put_lock_def)

section \<open>Administration\<close>

definition sp_init :: "address \<Rightarrow> address \<Rightarrow> 'w sp_state \<Rightarrow> sp_error fault + 'w sp_state" where
  "sp_init admin token s =
     (if ug_admin s \<noteq> None then Inl (Err SP_AlreadyInitialized)
      else Inr (publish [VSym ''staking_pool'', VSym ''init''] [VAddr admin]
             (s\<lparr>ug_admin := Some admin, sp_token := Some token, ug_version := Some 1,
                ug_schema := Some 1, sp_total := Some 0, sp_lock_period := Some 0,
                sp_paused := Some False\<rparr>)))"

definition sp_contract_version :: "'w sp_state \<Rightarrow> nat" where
  "sp_contract_version s = unwrap_or (ug_version s) 0"

definition sp_set_operator ::
  "env \<Rightarrow> address \<Rightarrow> address option \<Rightarrow> 'w sp_state \<Rightarrow> sp_error fault + 'w sp_state" where
  "sp_set_operator e admin new_operator s =
     bindE (sp_get_admin s) (\<lambda>current_admin.
     bindE (require_admin_permission e current_admin admin ''set_operator'' SP_NotAuthorized s) (\<lambda>_.
     bindE (sp_get_operator s) (\<lambda>old_operator.
     Inr (publish [VSym ''staking_pool'', VSym ''set_operator'']
            [opt_val VAddr old_operator, opt_val VAddr new_operator]
          (s\<lparr>sp_operator := slot_of new_operator\<rparr>)))))"

definition sp_set_admin ::
  "env \<Rightarrow> address \<Rightarrow> address \<Rightarrow> 'w sp_state \<Rightarrow> sp_error fault + 'w sp_state" where
  "sp_set_admin e admin new_admin s =
     bindE (sp_get_admin s) (\<lambda>current_admin.
     bindE (require_admin_permission e current_admin admin ''set_admin'' SP_NotAuthorized s) (\<lambda>_.
     Inr (publish [VSym ''staking_pool'', VSym ''set_admin''] [VAddr admin, VAddr new_admin]
          (s\<lparr>ug_admin := Some new_admin\<rparr>))))"

definition sp_set_lock_period ::
  "env \<Rightarrow> address \<Rightarrow> nat \<Rightarrow> 'w sp_state \<Rightarrow> sp_error fault + 'w sp_state" where
  "sp_set_lock_period e admin seconds s =
     bindE (sp_get_admin s) (\<lambda>current_admin.
     bindE (require_admin_permission e current_admin admin ''set_lock_period'' SP_NotAuthorized s) (\<lambda>_.
     bindE (require_valid_lock_period seconds) (\<lambda>_.
     Inr (publish [VSym ''staking_pool'', VSym ''set_lock_period''] [VNat seconds]
          (put_lock_period seconds s)))))"

section \<open>Staking\<close>

definition sp_stake ::
  "'w token_if \<Rightarrow> env \<Rightarrow> address \<Rightarrow> int \<Rightarrow> 'w sp_state \<Rightarrow> sp_error fault + 'w sp_state" where
  "sp_stake tk e from amount s =
     bindE (sp_require_not_paused s) (\<lambda>_.
     bindE (require_user_or_operator e from from s) (\<lambda>spender.
     bindE (sp_require_valid_amount amount) (\<lambda>_.
     bindE (sp_enter s) (\<lambda>s.
     bindE (sp_get_token s) (\<lambda>token_address.
     bindE (token_transfer tk token_address from (contract_addr e) amount s) (\<lambda>s.
     let s = sp_exit s in
     bindE (ck_i128 (get_staked_balance from s + amount)) (\<lambda>new_user_balance.
     let s = put_staked_balance from new_user_balance s in
     bindE (ck_i128 (get_total_staked s + amount)) (\<lambda>new_total.
     let s = put_total_staked new_total s;
         count = get_deposit_count from s;
         s = put_deposit from count \<lparr>dep_amount = amount, dep_timestamp = timestamp e\<rparr> s in
     bindE (ck_u32 (count + 1)) (\<lambda>count'.
     let s = put_deposit_count from count' s in
     Inr (publish [VSym ''staking_pool'', VSym ''stake'', VAddr from]
            [VInt amount, VInt new_user_balance, VInt new_total] s))))))))))"

text \<open>The unlock test of a deposit: \<open>lock_period == 0 || now >= timestamp + lock_period\<close>.\<close>

definition deposit_unlocked :: "nat \<Rightarrow> nat \<Rightarrow> deposit \<Rightarrow> sp_error fault + bool" where
  "deposit_unlocked lock_period current_time d =
     (if lock_period = 0 then Inr True
      else bindE (ck_u64 (dep_timestamp d + lock_period)) (\<lambda>unlock_at. Inr (unlock_at \<le> current_time)))"

text \<open>The first loop of \<open>unstake\<close>: the unlocked balance over the deposit indices.\<close>

fun unlocked_loop ::
  "nat \<Rightarrow> nat \<Rightarrow> (nat \<rightharpoonup> deposit) \<Rightarrow> nat list \<Rightarrow> int \<Rightarrow> sp_error fault + int" where
  "unlocked_loop lock_period current_time deposits [] unlocked_balance = Inr unlocked_balance"
| "unlocked_loop lock_period current_time deposits (i # is) unlocked_balance =
     (case deposits i of
        None \<Rightarrow> unlocked_loop lock_period current_time deposits is unlocked_balance
      | Some d \<Rightarrow>
          bindE (deposit_unlocked lock_period current_time d) (\<lambda>unlocked.
          if unlocked
          then bindE (ck_i128 (unlocked_balance + dep_amount d))
                 (unlocked_loop lock_period current_time deposits is)
          else unlocked_loop lock_period current_time deposits is unlocked_balance))"

text \<open>
  The second loop: consume unlocked deposits in index order until the amount is covered, removing
  a deposit that is used up and shrinking the last one.
\<close>

fun consume_loop ::
  "nat \<Rightarrow> nat \<Rightarrow> address \<Rightarrow> nat list \<Rightarrow> int \<Rightarrow> 'w sp_state \<Rightarrow> sp_error fault + 'w sp_state" where
  "consume_loop lock_period current_time to [] remaining s = Inr s"
| "consume_loop lock_period current_time to (i # is) remaining s =
     (if remaining = 0 then Inr s
      else (case get_deposit to i s of
         None \<Rightarrow> consume_loop lock_period current_time to is remaining s
       | Some d \<Rightarrow>
           bindE (deposit_unlocked lock_period current_time d) (\<lambda>unlocked.
           if unlocked then
             (if dep_amount d \<le> remaining then
                bindE (ck_i128 (remaining - dep_amount d)) (\<lambda>remaining'.
                consume_loop lock_period current_time to is remaining' (remove_deposit to i s))
              else
                bindE (ck_i128 (dep_amount d - remaining)) (\<lambda>left.
                consume_loop lock_period current_time to is 0
                  (put_deposit to i (d\<lparr>dep_amount := left\<rparr>) s)))
           else consume_loop lock_period current_time to is remaining s)))"

definition sp_unstake ::
  "'w token_if \<Rightarrow> env \<Rightarrow> address \<Rightarrow> int \<Rightarrow> 'w sp_state \<Rightarrow> sp_error fault + 'w sp_state" where
  "sp_unstake tk e to amount s =
     bindE (sp_require_not_paused s) (\<lambda>_.
     bindE (require_user_or_operator e to to s) (\<lambda>spender.
     bindE (sp_require_valid_amount amount) (\<lambda>_.
     let current_balance = get_staked_balance to s in
     if current_balance < amount then Inl (Err SP_InsufficientBalance)
     else
     let lock_period = get_lock_period s;
         current_time = timestamp e;
         count = get_deposit_count to s in
     bindE (unlocked_loop lock_period current_time (\<lambda>i. get_deposit to i s) [0..<count] 0) (\<lambda>unlocked.
     if unlocked < amount
     then Inl (Err SP_TokensLocked)
     else bindE (consume_loop lock_period current_time to [0..<count] amount s) (\<lambda>s.
     bindE (ck_i128 (current_balance - amount)) (\<lambda>new_balance.
     let s = put_staked_balance to new_balance s in
     bindE (ck_i128 (get_total_staked s - amount)) (\<lambda>new_total.
     let s = put_total_staked new_total s in
     bindE (sp_get_token s) (\<lambda>token_address.
     bindE (sp_enter s) (\<lambda>s.
     bindE (token_transfer tk token_address (contract_addr e) to amount s) (\<lambda>s.
     let s = sp_exit s in
     Inr (publish [VSym ''staking_pool'', VSym ''unstake'', VAddr to]
            [VInt amount, VInt new_balance, VInt new_total] s)))))))))))"

section \<open>Upgrade governance\<close>

definition sp_set_guardian ::
  "env \<Rightarrow> address \<Rightarrow> address \<Rightarrow> 'w sp_state \<Rightarrow> sp_error fault + 'w sp_state" where
  "sp_set_guardian e admin guardian s =
     map_err (\<lambda>_. SP_NotAuthorized) (set_guardian e admin (Some guardian) ''staking_pool'' s)"

definition sp_set_upgrade_delay ::
  "env \<Rightarrow> address \<Rightarrow> nat \<Rightarrow> 'w sp_state \<Rightarrow> sp_error fault + 'w sp_state" where
  "sp_set_upgrade_delay e admin delay_seconds s =
     map_err (\<lambda>_. SP_NotAuthorized) (set_upgrade_delay e admin delay_seconds ''staking_pool'' s)"

fun sp_propose_error :: "ug_error \<Rightarrow> sp_error" where
  "sp_propose_error UG_NotAuthorized = SP_NotAuthorized"
| "sp_propose_error UG_UpgradeAlreadyPending = SP_UpgradeAlreadyPending"
| "sp_propose_error UG_InvalidUpgradeVersion = SP_InvalidUpgradeVersion"
| "sp_propose_error UG_IncompatibleSchemaVersion = SP_IncompatibleStateSchema"
| "sp_propose_error _ = SP_NotAuthorized"

definition sp_propose_upgrade ::
  "env \<Rightarrow> address \<Rightarrow> bytes32 \<Rightarrow> nat \<Rightarrow> 'w sp_state \<Rightarrow> sp_error fault + 'w sp_state" where
  "sp_propose_upgrade e admin new_wasm_hash new_version s =
     (let current_version = sp_contract_version s; schema_version = get_state_schema_version s in
      if schema_version \<noteq> current_version then Inl (Err SP_IncompatibleStateSchema)
      else map_err sp_propose_error
             (propose_upgrade e admin new_wasm_hash new_version (Some schema_version)
                ''staking_pool'' s))"

fun sp_execute_error :: "ug_error \<Rightarrow> sp_error" where
  "sp_execute_error UG_NotAuthorized = SP_NotAuthorized"
| "sp_execute_error UG_NoPendingUpgrade = SP_NoUpgradePending"
| "sp_execute_error UG_UpgradeDelayNotElapsed = SP_UpgradeDelayNotMet"
| "sp_execute_error _ = SP_NotAuthorized"

definition sp_execute_upgrade ::
  "env \<Rightarrow> address \<Rightarrow> bytes32 \<Rightarrow> 'w sp_state \<Rightarrow> sp_error fault + 'w sp_state" where
  "sp_execute_upgrade e admin new_wasm_hash s =
     map_err sp_execute_error (execute_upgrade e admin new_wasm_hash ''staking_pool'' s)"

definition sp_emergency_upgrade ::
  "env \<Rightarrow> address \<Rightarrow> bytes32 \<Rightarrow> nat \<Rightarrow> 'w sp_state \<Rightarrow> sp_error fault + 'w sp_state" where
  "sp_emergency_upgrade e admin new_wasm_hash new_version s =
     (let current_version = sp_contract_version s; schema_version = get_state_schema_version s in
      if schema_version \<noteq> current_version then Inl (Err SP_IncompatibleStateSchema)
      else map_err (\<lambda>_. SP_NotAuthorized)
             (emergency_upgrade e admin new_wasm_hash new_version (Some schema_version)
                ''staking_pool'' True s))"

definition sp_cancel_upgrade ::
  "env \<Rightarrow> address \<Rightarrow> 'w sp_state \<Rightarrow> sp_error fault + 'w sp_state" where
  "sp_cancel_upgrade e admin s =
     bindE (sp_get_admin s) (\<lambda>current_admin.
     bindE (require_admin_permission e current_admin admin ''cancel_upgrade'' SP_NotAuthorized s) (\<lambda>_.
     bindE (ok_or (ug_pending_hash s) SP_NoUpgradePending) (\<lambda>hash.
     Inr (publish [VSym ''staking_pool'', VSym ''cancel_upgrade''] [VAddr admin, VBytes hash]
          (s\<lparr>ug_pending_hash := None, ug_pending_at := None, ug_pending_version := None\<rparr>)))))"

section \<open>Pausing\<close>

definition sp_pause :: "env \<Rightarrow> address \<Rightarrow> 'w sp_state \<Rightarrow> pausable_error fault + 'w sp_state" where
  "sp_pause e admin s =
     bindE (sp_get_admin s) (\<lambda>current_admin.
     bindE (map_err (\<lambda>_. PE_NotAuthorized)
        (require_admin_permission e current_admin admin ''pause'' SP_NotAuthorized s)) (\<lambda>_.
     Inr (publish [VSym ''Pausable'', VSym ''pause''] [] (s\<lparr>sp_paused := Some True\<rparr>))))"

definition sp_unpause :: "env \<Rightarrow> address \<Rightarrow> 'w sp_state \<Rightarrow> pausable_error fault + 'w sp_state" where
  "sp_unpause e admin s =
     bindE (sp_get_admin s) (\<lambda>current_admin.
     bindE (map_err (\<lambda>_. PE_NotAuthorized)
        (require_admin_permission e current_admin admin ''unpause'' SP_NotAuthorized s)) (\<lambda>_.
     Inr (publish [VSym ''Pausable'', VSym ''unpause''] [] (s\<lparr>sp_paused := Some False\<rparr>))))"

interpretation sp_pausable: pausable sp_pause sp_unpause sp_is_paused ug_admin
  by unfold_locales
    (auto simp: sp_pause_def sp_unpause_def sp_get_admin_def sp_is_paused_def outcome_simps host_simps)

section \<open>All entry points\<close>

datatype sp_call =
    SP_Init address address
  | SP_SetOperator address "address option"
  | SP_SetAdmin address address
  | SP_Stake address int
  | SP_Unstake address int
  | SP_SetLockPeriod address nat
  | SP_SetGuardian address address
  | SP_SetUpgradeDelay address nat
  | SP_ProposeUpgrade address bytes32 nat
  | SP_ExecuteUpgrade address bytes32
  | SP_EmergencyUpgrade address bytes32 nat
  | SP_CancelUpgrade address
  | SP_Pause address
  | SP_Unpause address

text \<open>The two error enums a call of the pool can return.\<close>

datatype sp_any_error = SP_Contract sp_error | SP_Pausable pausable_error

fun sp_exec ::
  "'w token_if \<Rightarrow> env \<Rightarrow> sp_call \<Rightarrow> 'w sp_state \<Rightarrow> sp_any_error fault + 'w sp_state" where
  "sp_exec tk e (SP_Init a t) s = map_err SP_Contract (sp_init a t s)"
| "sp_exec tk e (SP_SetOperator a op) s = map_err SP_Contract (sp_set_operator e a op s)"
| "sp_exec tk e (SP_SetAdmin a b) s = map_err SP_Contract (sp_set_admin e a b s)"
| "sp_exec tk e (SP_Stake u n) s = map_err SP_Contract (sp_stake tk e u n s)"
| "sp_exec tk e (SP_Unstake u n) s = map_err SP_Contract (sp_unstake tk e u n s)"
| "sp_exec tk e (SP_SetLockPeriod a t) s = map_err SP_Contract (sp_set_lock_period e a t s)"
| "sp_exec tk e (SP_SetGuardian a g) s = map_err SP_Contract (sp_set_guardian e a g s)"
| "sp_exec tk e (SP_SetUpgradeDelay a d) s = map_err SP_Contract (sp_set_upgrade_delay e a d s)"
| "sp_exec tk e (SP_ProposeUpgrade a h v) s = map_err SP_Contract (sp_propose_upgrade e a h v s)"
| "sp_exec tk e (SP_ExecuteUpgrade a h) s = map_err SP_Contract (sp_execute_upgrade e a h s)"
| "sp_exec tk e (SP_EmergencyUpgrade a h v) s = map_err SP_Contract (sp_emergency_upgrade e a h v s)"
| "sp_exec tk e (SP_CancelUpgrade a) s = map_err SP_Contract (sp_cancel_upgrade e a s)"
| "sp_exec tk e (SP_Pause a) s = map_err SP_Pausable (sp_pause e a s)"
| "sp_exec tk e (SP_Unpause a) s = map_err SP_Pausable (sp_unpause e a s)"

end
