(* ===== verification/ReceiptHash.thy ===== *)
theory ReceiptHash
  imports StakingPool
begin

text \<open>
  The receipt hashing of the staking pool (\<open>staking_pool/src/lib.rs\<close>): the canonical payload of a
  receipt, its SHA-256 hash and the comparison with an expected hash.  Bytes are 8-bit words, the
  two decimal conversion loops write into the fixed-size arrays of the code.
\<close>

section \<open>The payload\<close>

record receipt_input =
  ri_tx_type :: string
  ri_amount_usdc :: int
  ri_token :: address
  ri_user :: address
  ri_timestamp :: "nat option"
  ri_deal_id :: "string option"
  ri_listing_id :: "string option"
  ri_metadata :: "(string \<times> string) list option"

text \<open>
  \<open>while n > 0 { digits[pos] = (n % 10) as u8 + b'0'; n /= 10; pos += 1; }\<close> over an array of
  \<open>cap\<close> bytes, of which \<open>xs\<close> are the first \<open>pos\<close>; writing past the end panics.
\<close>

fun digit_loop :: "nat \<Rightarrow> nat \<Rightarrow> bytes \<Rightarrow> 'e fault + bytes" where
  "digit_loop cap n xs =
     (if n = 0 then Inr xs
      else if cap \<le> length xs then Inl (Trap (PanicTrap ''index out of bounds''))
      else digit_loop cap (n div 10) (xs @ [word_of_nat (n mod 10) + 48]))"

declare digit_loop.simps [simp del]

definition timestamp_bytes :: "nat \<Rightarrow> sp_error fault + bytes" where
  "timestamp_bytes ts =
     bindE (digit_loop 20 ts []) (\<lambda>digits.
     let digits = (if digits = [] then [48] else digits) in Inr (rev digits))"

definition amount_bytes :: "int \<Rightarrow> sp_error fault + bytes" where
  "amount_bytes amount =
     (if amount = 0 then Inr [48]
      else
      bindE (if amount < 0 then ck_i128 (- amount) else Inr amount) (\<lambda>magnitude.
      bindE (digit_loop 40 (nat magnitude) []) (\<lambda>digits.
      Inr ((if amount < 0 then [45] else []) @ rev digits))))"

definition create_canonical_payload_v1 ::
  "host_crypto \<Rightarrow> env \<Rightarrow> receipt_input \<Rightarrow> sp_error fault + bytes" where
  "create_canonical_payload_v1 hc e input =
     (let ts = unwrap_or (ri_timestamp input) (timestamp e);
          deal_id = unwrap_or (ri_deal_id input) [];
          listing_id = unwrap_or (ri_listing_id input) [];
          token_bytes = to_xdr hc (VAddr (ri_token input));
          user_bytes = to_xdr hc (VAddr (ri_user input));
          deal_id_bytes = to_xdr hc (VStr deal_id);
          listing_id_bytes = to_xdr hc (VStr listing_id);
          tx_type_bytes = to_xdr hc (VSym (ri_tx_type input)) in
      bindE (timestamp_bytes ts) (\<lambda>ts_bytes.
      let metadata_bytes = (case ri_metadata input of
            Some m \<Rightarrow> to_xdr hc (VMap m) | None \<Rightarrow> []) in
      bindE (amount_bytes (ri_amount_usdc input)) (\<lambda>amt_bytes.
      Inr (tx_type_bytes @ token_bytes @ user_bytes @ deal_id_bytes @ listing_id_bytes @
           ts_bytes @ metadata_bytes @ amt_bytes))))"

definition compute_canonical_hash :: "host_crypto \<Rightarrow> bytes \<Rightarrow> bytes32" where
  "compute_canonical_hash hc payload = sha256 hc payload"

definition compute_metadata_hash ::
  "host_crypto \<Rightarrow> env \<Rightarrow> receipt_input \<Rightarrow> sp_error fault + bytes32" where
  "compute_metadata_hash hc e input =
     bindE (sp_require_valid_amount (ri_amount_usdc input)) (\<lambda>_.
     bindE (create_canonical_payload_v1 hc e input) (\<lambda>payload.
     Inr (compute_canonical_hash hc payload)))"

definition verify_metadata_hash ::
  "host_crypto \<Rightarrow> env \<Rightarrow> receipt_input \<Rightarrow> bytes32 \<Rightarrow> sp_error fault + bool" where
  "verify_metadata_hash hc e input expected_hash =
     bindE (compute_metadata_hash hc e input) (\<lambda>computed_hash. Inr (computed_hash = expected_hash))"

section \<open>The decimal loops\<close>

text \<open>The digits the loop produces, least significant first, and the number digits stand for.\<close>

fun digs :: "nat \<Rightarrow> bytes" where
  "digs n = (if n = 0 then [] else (word_of_nat (n mod 10) + 48) # digs (n div 10))"

declare digs.simps [simp del]

fun dec_value :: "bytes \<Rightarrow> nat" where
  "dec_value [] = 0"
| "dec_value (b # bs) = unat (b - 48) + 10 * dec_value bs"

lemma digs_zero [simp]: "digs 0 = []"
  by (simp add: digs.simps)

lemma digs_step: "0 < n \<Longrightarrow> digs n = (word_of_nat (n mod 10) + 48) # digs (n div 10)"
  by (simp add: digs.simps [of n])

lemma digs_eq_Nil_iff [simp]: "digs n = [] \<longleftrightarrow> n = 0"
  by (auto simp: digs.simps [of n])

text \<open>The loop never runs past the array when the number has at most as many digits as are free.\<close>

lemma digit_loop_digs:
  "n < 10 ^ (cap - length xs) \<Longrightarrow> digit_loop cap n xs = Inr (xs @ digs n)"
proof (induction n arbitrary: xs rule: less_induct)
  case (less n)
  show ?case
  proof (cases "n = 0")
    case True
    then show ?thesis by (simp add: digit_loop.simps)
  next
    case False
    with less.prems have free: "length xs < cap" by (cases "cap \<le> length xs") auto
    then have "cap - length xs = Suc (cap - Suc (length xs))" by simp
    with less.prems have "n div 10 < 10 ^ (cap - Suc (length xs))"
      by (simp add: less_mult_imp_div_less mult.commute)
    with False less.IH [of "n div 10" "xs @ [word_of_nat (n mod 10) + 48]"] free show ?thesis
      by (simp add: digit_loop.simps [of cap n] digs_step)
  qed
qed

lemma dec_value_digs: "dec_value (digs n) = n"
proof (induction n rule: less_induct)
  case (less n)
  show ?case
  proof (cases "n = 0")
    case False
    then have "unat (word_of_nat (n mod 10) :: 8 word) = n mod 10"
      by (simp add: unat_of_nat)
    with False less.IH [of "n div 10"] show ?thesis by (simp add: digs_step)
  qed simp
qed

lemma digs_inj: "digs m = digs n \<Longrightarrow> m = n"
  by (metis dec_value_digs)

lemma digs_digit: "0 < d \<Longrightarrow> d < 10 \<Longrightarrow> digs d = [word_of_nat d + 48]"
  by (simp add: digs_step)

lemma digs_last: "0 < t \<Longrightarrow> d < 10 \<Longrightarrow> digs (10 * t + d) = (word_of_nat d + 48) # digs t"
  by (simp add: digs_step)

lemma digs_first:
  "10 ^ k \<le> a \<Longrightarrow> a < 10 ^ Suc k \<Longrightarrow> 0 < d \<Longrightarrow> d < 10 \<Longrightarrow>
   digs (d * 10 ^ Suc k + a) = digs a @ [word_of_nat d + 48]"
proof (induction k arbitrary: a)
  case 0
  then have "digs (10 * d + a) = (word_of_nat a + 48) # digs d" by (intro digs_last) auto
  with 0 show ?case by (simp add: digs_digit mult.commute)
next
  case (Suc k)
  have split: "d * 10 ^ Suc (Suc k) + a = a + 10 * (d * 10 ^ Suc k)" by simp
  have "(d * 10 ^ Suc (Suc k) + a) div 10 = d * 10 ^ Suc k + a div 10"
    and "(d * 10 ^ Suc (Suc k) + a) mod 10 = a mod 10"
    unfolding split by (simp, simp only: mod_mult_self2)
  moreover have "10 ^ k \<le> a div 10" "a div 10 < 10 ^ Suc k" using Suc.prems(1,2) by auto
  moreover have "0 < a" by (rule less_le_trans [OF _ Suc.prems(1)]) simp
  ultimately show ?case using Suc.IH [of "a div 10"] Suc.prems(3,4) by (simp add: digs_step)
qed

section \<open>What the hash fixes\<close>

lemma timestamp_bytes_eq:
  "ts < 2 ^ 64 \<Longrightarrow> 0 < ts \<Longrightarrow> timestamp_bytes ts = Inr (rev (digs ts))"
  by (simp add: timestamp_bytes_def digit_loop_digs outcome_simps)

lemma amount_bytes_eq:
  "i128_ok n \<Longrightarrow> 0 < n \<Longrightarrow> amount_bytes n = Inr (rev (digs (nat n)))"
  by (simp add: amount_bytes_def digit_loop_digs outcome_simps i128_ok_def nat_less_iff)

lemma timestamp_bytes_Inr: "ts < 2 ^ 64 \<Longrightarrow> \<exists>bs. timestamp_bytes ts = Inr bs"
  by (simp add: timestamp_bytes_def digit_loop_digs outcome_simps Let_def)

lemma length_digs: "n < 10 ^ k \<Longrightarrow> length (digs n) \<le> k"
proof (induction k arbitrary: n)
  case (Suc k)
  then have "n div 10 < 10 ^ k" by (simp add: less_mult_imp_div_less mult.commute)
  with Suc.IH show ?case by (cases "n = 0") (simp_all add: digs_step)
qed simp

text \<open>The two decimal loops of the payload end inside their arrays and write the number they
  were given: for every 64-bit timestamp there are between 1 and 20 digits that read back as the
  timestamp, and for every 128-bit amount but the least one a sign and at most 39 digits that read
  back as its absolute value; the least amount traps when it is negated.\<close>

theorem payload_digits_exact:
  assumes "ts < 2 ^ 64" and "i128_ok n"
  shows "(\<exists>bs. timestamp_bytes ts = Inr bs \<and> bs \<noteq> [] \<and> length bs \<le> 20 \<and> dec_value (rev bs) = ts)
    \<and> (if n = - (2 ^ 127) then amount_bytes n = Inl (Trap OverflowTrap)
       else \<exists>bs. amount_bytes n = Inr ((if n < 0 then [45] else []) @ bs)
         \<and> bs \<noteq> [] \<and> length bs \<le> 39 \<and> int (dec_value (rev bs)) = \<bar>n\<bar>)"
proof
  have "length (digs ts) \<le> 20" using assms(1) by (intro length_digs) simp
  with assms(1) show "\<exists>bs. timestamp_bytes ts = Inr bs \<and> bs \<noteq> [] \<and> length bs \<le> 20 \<and> dec_value (rev bs) = ts"
    by (cases "ts = 0") (simp_all add: timestamp_bytes_def digit_loop_digs dec_value_digs Let_def)
next
  show "if n = - (2 ^ 127) then amount_bytes n = Inl (Trap OverflowTrap)
    else \<exists>bs. amount_bytes n = Inr ((if n < 0 then [45] else []) @ bs)
      \<and> bs \<noteq> [] \<and> length bs \<le> 39 \<and> int (dec_value (rev bs)) = \<bar>n\<bar>"
  proof (cases "n = 0 \<or> n = - (2 ^ 127)")
    case True
    then show ?thesis by (auto simp: amount_bytes_def ck_i128_def i128_ok_def intro: exI [of _ "[48]"])
  next
    case False
    then have fits: "nat \<bar>n\<bar> < 2 ^ 127" and pos: "0 < nat \<bar>n\<bar>" using assms(2) by (auto simp: i128_ok_def nat_less_iff)
    have short: "length (digs (nat \<bar>n\<bar>)) \<le> 39" by (rule length_digs) (rule less_trans [OF fits], simp)
    have "amount_bytes n = Inr ((if n < 0 then [45] else []) @ rev (digs (nat \<bar>n\<bar>)))"
      using False fits assms(2) by (auto simp: amount_bytes_def digit_loop_digs ck_i128_def i128_ok_def)
    with False pos short show ?thesis by (auto simp: dec_value_digs)
  qed
qed

text \<open>Receipts that agree on everything but the amount have different payloads, so the hashed
  bytes bind the amount; and the hash of a receipt with a positive amount always exists, the digit
  arrays of the code being long enough.\<close>

theorem payload_binds_amount:
  assumes "unwrap_or (ri_timestamp r) (timestamp e) < 2 ^ 64"
    and "i128_ok a" and "0 < a" and "i128_ok b" and "0 < b" and "a \<noteq> b"
  shows "\<exists>p q. create_canonical_payload_v1 hc e (r\<lparr>ri_amount_usdc := a\<rparr>) = Inr p \<and>
    create_canonical_payload_v1 hc e (r\<lparr>ri_amount_usdc := b\<rparr>) = Inr q \<and> p \<noteq> q \<and>
    compute_metadata_hash hc e (r\<lparr>ri_amount_usdc := a\<rparr>) = Inr (sha256 hc p)"
proof -
  have "digs (nat a) \<noteq> digs (nat b)" using assms(3,5,6) digs_inj [of "nat a" "nat b"] by auto
  then show ?thesis
    using assms timestamp_bytes_Inr [OF assms(1)]
    by (auto simp: create_canonical_payload_v1_def compute_metadata_hash_def
        compute_canonical_hash_def sp_require_valid_amount_def amount_bytes_eq outcome_simps Let_def)
qed

text \<open>The payload puts the digits of the timestamp and of the amount next to each other with
  nothing between them when there is no metadata: moving the last digit \<open>d\<close> of the timestamp to
  the front of the amount gives another receipt with the same hash, which \<open>verify_metadata_hash\<close>
  accepts for the first receipt's hash, whatever the hash function.\<close>

theorem receipt_hash_collision:
  assumes "ri_metadata r = None" and "0 < t" and "10 * t + d < 2 ^ 64" and "0 < d" and "d < 10"
    and "10 ^ k \<le> a" and "a < 10 ^ Suc k" and "i128_ok (int (d * 10 ^ Suc k + a))"
  shows "\<exists>h. compute_metadata_hash hc e
        (r\<lparr>ri_timestamp := Some (10 * t + d), ri_amount_usdc := int a\<rparr>) = Inr h \<and>
    verify_metadata_hash hc e
        (r\<lparr>ri_timestamp := Some t, ri_amount_usdc := int (d * 10 ^ Suc k + a)\<rparr>) h = Inr True"
proof -
  have pos: "0 < a" by (rule less_le_trans [OF _ assms(6)]) simp
  have "int a \<le> int (d * 10 ^ Suc k + a)" by (rule zle_int [THEN iffD2]) simp
  then have fits: "i128_ok (int a)" using assms(8) unfolding i128_ok_def by linarith
  have "rev (digs (10 * t + d)) @ rev (digs a) = rev (digs t) @ rev (digs (d * 10 ^ Suc k + a))"
    using assms by (simp only: digs_last digs_first) simp
  then have same: "rev (digs (10 * t + d)) @ rev (digs a) @ xs =
      rev (digs t) @ rev (digs (d * 10 ^ Suc k + a)) @ xs" for xs
    by (metis append.assoc)
  have ts: "timestamp_bytes (10 * t + d) = Inr (rev (digs (10 * t + d)))"
    "timestamp_bytes t = Inr (rev (digs t))"
    using assms(2,3) by (auto intro!: timestamp_bytes_eq)
  have amt: "amount_bytes (int a) = Inr (rev (digs a))"
    "amount_bytes (int (d * 10 ^ Suc k + a)) = Inr (rev (digs (d * 10 ^ Suc k + a)))"
    using amount_bytes_eq [OF fits] amount_bytes_eq [OF assms(8)] pos by (auto simp del: of_nat_add)
  show ?thesis
    using assms(1) pos same [of "[]"]
    by (simp add: verify_metadata_hash_def compute_metadata_hash_def create_canonical_payload_v1_def
        compute_canonical_hash_def sp_require_valid_amount_def outcome_simps Let_def ts amt
        del: of_nat_add power_Suc)
qed

definition sample_crypto :: host_crypto where
  "sample_crypto = \<lparr>to_xdr = (\<lambda>_. [0]), sha256 = (\<lambda>bs. word_of_nat (dec_value (rev bs)))\<rparr>"

definition sample_receipt :: receipt_input where
  "sample_receipt = \<lparr>ri_tx_type = ''stake'', ri_amount_usdc = 5, ri_token = Address 7,
     ri_user = Address 2, ri_timestamp = Some 1700000012, ri_deal_id = None, ri_listing_id = None,
     ri_metadata = None\<rparr>"

lemma payload_binds_amount_witness:
  "\<exists>p q. create_canonical_payload_v1 sample_crypto (call_at 9 (Address 8) (Address 2))
        (sample_receipt\<lparr>ri_amount_usdc := 5\<rparr>) = Inr p \<and>
    create_canonical_payload_v1 sample_crypto (call_at 9 (Address 8) (Address 2))
        (sample_receipt\<lparr>ri_amount_usdc := 6\<rparr>) = Inr q \<and> p \<noteq> q \<and>
    compute_metadata_hash sample_crypto (call_at 9 (Address 8) (Address 2))
        (sample_receipt\<lparr>ri_amount_usdc := 5\<rparr>) = Inr (sha256 sample_crypto p)"
  by (rule payload_binds_amount) (simp_all add: sample_receipt_def i128_ok_def)

lemma payload_digits_exact_witness:
  "\<exists>bs. amount_bytes (- 1250) = Inr (45 # bs) \<and> length bs \<le> 39 \<and> dec_value (rev bs) = 1250"
  using payload_digits_exact [of 1700000012 "- 1250"] by (auto simp: i128_ok_def)

lemma receipt_hash_collision_witness:
  "\<exists>h. compute_metadata_hash sample_crypto (call_at 9 (Address 8) (Address 2))
        (sample_receipt\<lparr>ri_timestamp := Some (10 * 170000001 + 2), ri_amount_usdc := int 5\<rparr>) = Inr h \<and>
    verify_metadata_hash sample_crypto (call_at 9 (Address 8) (Address 2))
        (sample_receipt\<lparr>ri_timestamp := Some 170000001, ri_amount_usdc := int (2 * 10 ^ Suc 0 + 5)\<rparr>) h =
      Inr True"
  by (rule receipt_hash_collision) (simp_all add: sample_receipt_def i128_ok_def)

end
