(* ===== verification/StakingPoolProps.thy ===== *)
theory StakingPoolProps
  imports StakingPool
begin

text \<open>
  The staking pool's books and properties: every user's staked balance is the sum of its deposits,
  the total is the sum of the balances, the token balance covers what is owed, unstaking is
  first-in first-out over unlocked deposits, and the behaviour of the operator and upgrade paths.
\<close>

section \<open>The loops of unstake, abstractly\<close>

definition is_unlocked :: "nat \<Rightarrow> nat \<Rightarrow> deposit \<Rightarrow> bool" where
  "is_unlocked lock_period current_time d \<longleftrightarrow>
     lock_period = 0 \<or> dep_timestamp d + lock_period \<le> current_time"

text \<open>A user's deposits, oldest first.\<close>

definition deposits_at :: "(nat \<rightharpoonup> 'a) \<Rightarrow> nat list \<Rightarrow> 'a list" where
  "deposits_at m is = List.map_filter m is"

definition user_deposits :: "address \<Rightarrow> 'w sp_state \<Rightarrow> deposit list" where
  "user_deposits u s = deposits_at (\<lambda>i. get_deposit u i s) [0..<get_deposit_count u s]"

definition amounts :: "deposit list \<Rightarrow> int" where
  "amounts ds = sum_list (map dep_amount ds)"

text \<open>First-in first-out withdrawal over the deposits that satisfy \<open>p\<close>.\<close>

fun fifo :: "(deposit \<Rightarrow> bool) \<Rightarrow> int \<Rightarrow> deposit list \<Rightarrow> deposit list" where
  "fifo p r [] = []"
| "fifo p r (d # ds) =
     (if r = 0 then d # ds
      else if \<not> p d then d # fifo p r ds
      else if dep_amount d \<le> r then fifo p (r - dep_amount d) ds
      else d\<lparr>dep_amount := dep_amount d - r\<rparr> # ds)"

lemma deposits_at_simps [simp]:
  "deposits_at m [] = []"
  "deposits_at m (i # is) = (case m i of None \<Rightarrow> deposits_at m is | Some d \<Rightarrow> d # deposits_at m is)"
  "deposits_at m (is @ js) = deposits_at m is @ deposits_at m js"
  by (simp_all add: deposits_at_def List.map_filter_def split: option.splits)

lemma deposits_at_cong:
  "(\<And>i. i \<in> set is \<Longrightarrow> m i = m' i) \<Longrightarrow> deposits_at m is = deposits_at m' is"
  by (induction "is") (auto split: option.splits)

lemma amounts_simps [simp]:
  "amounts [] = 0"
  "amounts (d # ds) = dep_amount d + amounts ds"
  "amounts (ds @ es) = amounts ds + amounts es"
  by (simp_all add: amounts_def)

lemma amounts_nonneg: "\<forall>d \<in> set ds. 0 < dep_amount d \<Longrightarrow> 0 \<le> amounts ds"
  by (induction ds) auto

lemma deposit_unlocked_Inr_iff [outcome_simps]:
  "deposit_unlocked lp t d = Inr b \<longleftrightarrow>
     b = is_unlocked lp t d \<and> (lp = 0 \<or> dep_timestamp d + lp < 2 ^ 64)"
  by (auto simp: deposit_unlocked_def is_unlocked_def outcome_simps)

lemma is_unlocked_amount [simp]: "is_unlocked lp t (d\<lparr>dep_amount := n\<rparr>) = is_unlocked lp t d"
  by (simp add: is_unlocked_def)

lemma unlocked_loop_Inr:
  assumes "unlocked_loop lp t m is acc = Inr r"
  shows "r = acc + amounts (filter (is_unlocked lp t) (deposits_at m is))"
  using assms
proof (induction "is" arbitrary: acc)
  case (Cons i "is")
  show ?case
    using Cons.prems by (auto simp: outcome_simps split: option.splits if_splits dest!: Cons.IH)
qed simp

lemma fifo_zero [simp]: "fifo p 0 ds = ds"
  by (cases ds) auto

lemma fifo_amounts:
  assumes "\<forall>d \<in> set ds. 0 < dep_amount d" and "0 \<le> r" and "r \<le> amounts (filter p ds)"
  shows "amounts (fifo p r ds) = amounts ds - r"
  using assms by (induction p r ds rule: fifo.induct) auto

lemma fifo_positive:
  assumes "\<forall>d \<in> set ds. 0 < dep_amount d" and "0 \<le> r"
  shows "\<forall>d \<in> set (fifo p r ds). 0 < dep_amount d"
  using assms by (induction p r ds rule: fifo.induct) auto

lemma fifo_locked:
  assumes "\<And>d n. p (d\<lparr>dep_amount := n\<rparr>) = p d"
  shows "filter (\<lambda>d. \<not> p d) (fifo p r ds) = filter (\<lambda>d. \<not> p d) ds"
  using assms by (induction p r ds rule: fifo.induct) auto

text \<open>
  The consuming loop refines \<open>fifo\<close>: over distinct indices it turns the user's deposits at those
  indices into their first-in first-out remainder, and touches nothing else.
\<close>

lemma consume_loop_Inr:
  assumes "consume_loop lp t to is r s = Inr s'" and "distinct is"
  shows "deposits_at (\<lambda>i. sp_deposits s' (to, i)) is =
           fifo (is_unlocked lp t) r (deposits_at (\<lambda>i. sp_deposits s (to, i)) is) \<and>
         (\<forall>u j. u \<noteq> to \<or> j \<notin> set is \<longrightarrow> sp_deposits s' (u, j) = sp_deposits s (u, j)) \<and>
         s' = s\<lparr>sp_deposits := sp_deposits s'\<rparr>"
  using assms
proof (induction "is" arbitrary: r s)
  case Nil
  then show ?case by simp
next
  case (Cons i "is")
  have upd: "deposits_at (\<lambda>j. ((sp_deposits s)((to, i) := x)) (to, j)) is =
      deposits_at (\<lambda>j. sp_deposits s (to, j)) is" for x
    using Cons.prems(2) by (intro deposits_at_cong) auto
  show ?case
  proof (cases "r = 0")
    case True
    with Cons.prems show ?thesis by (auto split: option.splits)
  next
    case r: False
    show ?thesis
    proof (cases "sp_deposits s (to, i)")
      case None
      with r Cons.prems Cons.IH [of r s] show ?thesis by (auto simp: get_deposit_def)
    next
      case (Some d)
      show ?thesis
      proof (cases "is_unlocked lp t d")
        case False
        with r Some Cons.prems Cons.IH [of r s] show ?thesis
          by (auto simp: get_deposit_def outcome_simps)
      next
        case unlocked: True
        show ?thesis
        proof (cases "dep_amount d \<le> r")
          case True
          with r Some unlocked Cons.prems
          have "consume_loop lp t to is (r - dep_amount d) (remove_deposit to i s) = Inr s'"
            by (auto simp: get_deposit_def outcome_simps)
          from Cons.IH [OF this] Cons.prems(2) r Some unlocked True upd show ?thesis
            by (auto simp: remove_deposit_def)
        next
          case False
          with r Some unlocked Cons.prems
          have "consume_loop lp t to is 0
              (put_deposit to i (d\<lparr>dep_amount := dep_amount d - r\<rparr>) s) = Inr s'"
            by (auto simp: get_deposit_def outcome_simps)
          then show ?thesis
            using Cons.IH [of 0 "put_deposit to i (d\<lparr>dep_amount := dep_amount d - r\<rparr>) s"]
              Cons.prems(2) r Some unlocked False upd
            by (auto simp: put_deposit_def)
        qed
      qed
    qed
  qed
qed

section \<open>The books\<close>

definition staked_sum :: "(address \<rightharpoonup> int) \<Rightarrow> int" where
  "staked_sum m = msum (\<lambda>_ v. v) m"

text \<open>
  The invariant: balances and deposits agree per user, the total is the sum of the balances, and
  nothing is staked before the pool is initialised.
\<close>

definition sp_books :: "'w sp_state \<Rightarrow> bool" where
  "sp_books s \<longleftrightarrow>
     finite (dom (sp_staked s)) \<and>
     (\<forall>u. get_staked_balance u s = amounts (user_deposits u s)) \<and>
     (\<forall>u. \<forall>d \<in> set (user_deposits u s). 0 < dep_amount d) \<and>
     get_total_staked s = staked_sum (sp_staked s) \<and>
     (ug_admin s = None \<longleftrightarrow> sp_token s = None) \<and>
     (sp_token s = None \<longrightarrow> sp_staked s = Map.empty)"

text \<open>What a successful stake and a successful unstake did.\<close>

lemma sp_stake_Inr:
  assumes "sp_stake tk e from n s = Inr s'"
  obtains token w where
    "\<not> sp_is_paused s" and "0 < n" and "sp_token s = Some token"
    and "sp_operator s = Absent \<Longrightarrow> authorized e from"
    and "\<And>op. sp_operator s = Stored op \<Longrightarrow> authorized e op"
    and "tk_transfer tk token from (contract_addr e) n (world s) = Some w"
    and "s' = s\<lparr>world := w, sp_reentrancy := Some False,
        sp_staked := (sp_staked s)(from \<mapsto> get_staked_balance from s + n),
        sp_total := Some (get_total_staked s + n),
        sp_deposits := (sp_deposits s)((from, get_deposit_count from s) \<mapsto>
          \<lparr>dep_amount = n, dep_timestamp = timestamp e\<rparr>),
        sp_deposit_count := (sp_deposit_count s)(from \<mapsto> get_deposit_count from s + 1),
        events := events s @ [([VSym ''staking_pool'', VSym ''stake'', VAddr from],
          [VInt n, VInt (get_staked_balance from s + n), VInt (get_total_staked s + n)])]\<rparr>"
    and "i128_ok (get_staked_balance from s + n)" and "i128_ok (get_total_staked s + n)"
  using assms
  by (auto simp: sp_stake_def sp_helper_defs outcome_simps Let_def host_simps not_le
      split: if_splits option.splits)

lemma sp_unstake_Inr:
  assumes "sp_unstake tk e to n s = Inr s'"
  obtains token w unlocked s1 where
    "\<not> sp_is_paused s" and "0 < n" and "n \<le> get_staked_balance to s" and "sp_token s = Some token"
    and "sp_operator s = Absent \<Longrightarrow> authorized e to"
    and "\<And>op. sp_operator s = Stored op \<Longrightarrow> authorized e op"
    and "unlocked_loop (get_lock_period s) (timestamp e) (\<lambda>i. get_deposit to i s)
        [0..<get_deposit_count to s] 0 = Inr unlocked" and "n \<le> unlocked"
    and "consume_loop (get_lock_period s) (timestamp e) to [0..<get_deposit_count to s] n s = Inr s1"
    and "tk_transfer tk token (contract_addr e) to n (world s) = Some w"
    and "s' = s\<lparr>world := w, sp_reentrancy := Some False, sp_deposits := sp_deposits s1,
        sp_staked := (sp_staked s)(to \<mapsto> get_staked_balance to s - n),
        sp_total := Some (get_total_staked s - n),
        events := events s @ [([VSym ''staking_pool'', VSym ''unstake'', VAddr to],
          [VInt n, VInt (get_staked_balance to s - n), VInt (get_total_staked s - n)])]\<rparr>"
proof -
  from assms have "\<exists>s1 unlocked.
      consume_loop (get_lock_period s) (timestamp e) to [0..<get_deposit_count to s] n s = Inr s1 \<and>
      unlocked_loop (get_lock_period s) (timestamp e) (\<lambda>i. get_deposit to i s)
        [0..<get_deposit_count to s] 0 = Inr unlocked \<and> n \<le> unlocked"
    by (auto simp: sp_unstake_def outcome_simps Let_def not_less split: if_splits)
  then obtain s1 unlocked where
    c: "consume_loop (get_lock_period s) (timestamp e) to [0..<get_deposit_count to s] n s = Inr s1"
    and rest: "unlocked_loop (get_lock_period s) (timestamp e) (\<lambda>i. get_deposit to i s)
        [0..<get_deposit_count to s] 0 = Inr unlocked" "n \<le> unlocked"
    by blast
  from consume_loop_Inr [OF c] have s1: "s1 = s\<lparr>sp_deposits := sp_deposits s1\<rparr>" by simp
  have fields: "sp_staked s1 = sp_staked s" "sp_total s1 = sp_total s" "sp_token s1 = sp_token s"
    "world s1 = world s" "events s1 = events s"
    by (subst s1, simp)+
  let ?bal = "get_staked_balance to s - n" and ?tot = "get_total_staked s - n"
  let ?s2 = "put_total_staked ?tot (put_staked_balance to ?bal s1)"
  have tot: "get_total_staked (put_staked_balance to ?bal s1) = get_total_staked s"
    by (simp add: get_total_staked_def put_staked_balance_def fields)
  from assms c rest have "\<exists>u token s3 w.
      sp_require_not_paused s = Inr () \<and> require_user_or_operator e to to s = Inr u \<and>
      sp_require_valid_amount n = Inr () \<and> n \<le> get_staked_balance to s \<and>
      (sp_get_token ?s2 :: sp_error fault + address) = Inr token \<and> sp_enter ?s2 = Inr s3 \<and>
      tk_transfer tk token (contract_addr e) to n (world s3) = Some w \<and>
      s' = publish [VSym ''staking_pool'', VSym ''unstake'', VAddr to]
             [VInt n, VInt ?bal, VInt ?tot] (sp_exit (s3\<lparr>world := w\<rparr>))"
    by (auto simp: sp_unstake_def outcome_simps Let_def not_less tot split: if_splits)
  then obtain u token s3 w where h:
      "sp_require_not_paused s = Inr ()" "require_user_or_operator e to to s = Inr u"
      "sp_require_valid_amount n = Inr ()" "n \<le> get_staked_balance to s"
      "(sp_get_token ?s2 :: sp_error fault + address) = Inr token" "sp_enter ?s2 = Inr s3"
      "tk_transfer tk token (contract_addr e) to n (world s3) = Some w"
      "s' = publish [VSym ''staking_pool'', VSym ''unstake'', VAddr to]
             [VInt n, VInt ?bal, VInt ?tot] (sp_exit (s3\<lparr>world := w\<rparr>))"
    by blast
  show thesis
  proof (rule that [OF _ _ h(4) _ _ _ rest c])
    show "\<not> sp_is_paused s" using h(1) by (simp add: sp_require_not_paused_def outcome_simps)
    show "0 < n" using h(3) by (simp add: sp_require_valid_amount_def split: if_splits)
    show "sp_token s = Some token"
      using h(5) by (simp add: sp_helper_defs outcome_simps fields)
    show "sp_operator s = Absent \<Longrightarrow> authorized e to"
      "\<And>op. sp_operator s = Stored op \<Longrightarrow> authorized e op"
      using h(2) by (auto simp: require_user_or_operator_def sp_get_operator_def outcome_simps)
    show "tk_transfer tk token (contract_addr e) to n (world s) = Some w"
      using h(6,7) by (auto simp: sp_helper_defs outcome_simps fields)
    show "s' = s\<lparr>world := w, sp_reentrancy := Some False, sp_deposits := sp_deposits s1,
        sp_staked := (sp_staked s)(to \<mapsto> ?bal), sp_total := Some ?tot,
        events := events s @ [([VSym ''staking_pool'', VSym ''unstake'', VAddr to],
          [VInt n, VInt ?bal, VInt ?tot])]\<rparr>"
      using h(6) unfolding h(8)
      by (subst (asm) s1) (auto simp: sp_helper_defs outcome_simps host_simps fields)
  qed
qed

text \<open>Staking appends a deposit to the user's list and leaves the other users' lists alone.\<close>

lemma user_deposits_stake:
  assumes "s' = s\<lparr>world := w, sp_reentrancy := r,
      sp_staked := m, sp_total := t,
      sp_deposits := (sp_deposits s)((from, get_deposit_count from s) \<mapsto> d),
      sp_deposit_count := (sp_deposit_count s)(from \<mapsto> get_deposit_count from s + 1),
      events := ev\<rparr>"
  shows "user_deposits u s' = (if u = from then user_deposits u s @ [d] else user_deposits u s)"
proof -
  have "deposits_at (\<lambda>i. ((sp_deposits s)((from, get_deposit_count from s) \<mapsto> d)) (from, i))
      [0..<get_deposit_count from s] =
    deposits_at (\<lambda>i. sp_deposits s (from, i)) [0..<get_deposit_count from s]"
    by (rule deposits_at_cong) auto
  then show ?thesis
    unfolding assms by (auto simp: user_deposits_def get_deposit_def get_deposit_count_def)
qed

text \<open>Unstaking leaves the first-in first-out remainder, and the other users' lists alone.\<close>

lemma user_deposits_unstake:
  assumes "consume_loop lp t to [0..<get_deposit_count to s] n s = Inr s1"
    and "s' = s\<lparr>world := w, sp_reentrancy := r, sp_deposits := sp_deposits s1,
        sp_staked := m, sp_total := tot, events := ev\<rparr>"
  shows "user_deposits u s' =
    (if u = to then fifo (is_unlocked lp t) n (user_deposits u s) else user_deposits u s)"
proof -
  note c = consume_loop_Inr [OF assms(1) distinct_upt]
  then have "u \<noteq> to \<Longrightarrow> deposits_at (\<lambda>i. sp_deposits s1 (u, i)) js =
      deposits_at (\<lambda>i. sp_deposits s (u, i)) js" for js
    by (intro deposits_at_cong) simp
  with c show ?thesis
    unfolding assms(2) by (auto simp: user_deposits_def get_deposit_def get_deposit_count_def)
qed

lemma staked_sum_upd:
  assumes "finite (dom m)"
  shows "staked_sum (m(u \<mapsto> n)) = staked_sum m - unwrap_or (m u) 0 + n"
  using assms by (simp add: staked_sum_def msum_upd_default)

lemma sp_stake_books:
  assumes "sp_books s" and "sp_stake tk e from n s = Inr s'"
  shows "sp_books s'"
  using assms(2)
proof (cases rule: sp_stake_Inr)
  case (1 token w)
  note ud = user_deposits_stake [OF 1(7)]
  show ?thesis
    using assms(1) 1(2,3) unfolding sp_books_def ud
    by (auto simp: 1(7) get_staked_balance_def get_total_staked_def staked_sum_upd)
qed

lemma unstake_covered:
  assumes "sp_books s" and "unlocked_loop lp t (\<lambda>i. get_deposit to i s) [0..<get_deposit_count to s] 0 = Inr r"
  shows "r = amounts (filter (is_unlocked lp t) (user_deposits to s))"
  using unlocked_loop_Inr [OF assms(2)] by (simp add: user_deposits_def)

lemma sp_unstake_books:
  assumes "sp_books s" and "sp_unstake tk e to n s = Inr s'"
  shows "sp_books s'"
  using assms(2)
proof (cases rule: sp_unstake_Inr)
  case (1 token w unlocked s1)
  let ?p = "is_unlocked (get_lock_period s) (timestamp e)"
  note ud = user_deposits_unstake [OF 1(9,11)]
  have pos: "\<forall>d \<in> set (user_deposits to s). 0 < dep_amount d"
    and bal: "\<And>u. get_staked_balance u s = amounts (user_deposits u s)"
    using assms(1) by (auto simp: sp_books_def)
  have n: "0 \<le> n" "n \<le> amounts (filter ?p (user_deposits to s))"
    using 1(2,8) unstake_covered [OF assms(1) 1(7)] by auto
  show ?thesis
    using assms(1) fifo_amounts [OF pos n] fifo_positive [OF pos n(1), of ?p] 1(4) bal
    unfolding sp_books_def ud
    by (auto simp: 1(11) get_staked_balance_def get_total_staked_def staked_sum_upd)
qed

text \<open>Every other entry point leaves the books and the tokens alone.\<close>

definition sp_same_books :: "'w sp_state \<Rightarrow> 'w sp_state \<Rightarrow> bool" where
  "sp_same_books s s' \<longleftrightarrow>
     sp_staked s' = sp_staked s \<and> sp_total s' = sp_total s \<and> sp_deposits s' = sp_deposits s \<and>
     sp_deposit_count s' = sp_deposit_count s \<and> sp_token s' = sp_token s \<and>
     (ug_admin s' = None \<longleftrightarrow> ug_admin s = None) \<and> world s' = world s"

fun sp_moves_stake :: "sp_call \<Rightarrow> bool" where
  "sp_moves_stake (SP_Init a t) = True"
| "sp_moves_stake (SP_Stake u n) = True"
| "sp_moves_stake (SP_Unstake u n) = True"
| "sp_moves_stake _ = False"

lemmas sp_admin_defs = sp_init_def sp_set_operator_def sp_set_admin_def sp_set_lock_period_def
  sp_set_guardian_def sp_set_upgrade_delay_def sp_propose_upgrade_def sp_execute_upgrade_def
  sp_emergency_upgrade_def sp_cancel_upgrade_def sp_pause_def sp_unpause_def clear_pending_def
  put_lock_period_def sp_get_admin_def sp_contract_version_def

lemma sp_admin_same_books:
  assumes "sp_exec tk e c s = Inr s'" and "\<not> sp_moves_stake c"
  shows "sp_same_books s s'"
  using assms by (cases c) (auto simp: sp_admin_defs sp_same_books_def outcome_simps host_simps
      Let_def split: if_splits)

lemma sp_same_books_eq: "sp_same_books s s' \<Longrightarrow> sp_books s' = sp_books s"
  by (simp add: sp_same_books_def sp_books_def get_staked_balance_def user_deposits_def
      get_deposit_def get_deposit_count_def get_total_staked_def)

lemma sp_init_books:
  assumes "sp_books s" and "sp_init a t s = Inr s'"
  shows "sp_books s'"
  using assms
  by (auto simp: sp_init_def sp_books_def host_simps staked_sum_def get_staked_balance_def
      user_deposits_def get_deposit_def get_deposit_count_def get_total_staked_def split: if_splits)

lemma sp_exec_books:
  assumes "sp_books s" and "sp_exec tk e c s = Inr s'"
  shows "sp_books s'"
proof (cases "sp_moves_stake c")
  case True
  with assms show ?thesis
    by (cases c) (auto simp: outcome_simps intro: sp_init_books sp_stake_books sp_unstake_books)
next
  case False
  with assms sp_same_books_eq [OF sp_admin_same_books] show ?thesis by blast
qed

lemma sp_books_world [simp]: "sp_books (s\<lparr>world := w\<rparr>) = sp_books s"
  by (simp add: sp_books_def get_staked_balance_def user_deposits_def
      get_deposit_def get_deposit_count_def get_total_staked_def)

definition sp_fresh :: "'w \<Rightarrow> 'w sp_state" where
  "sp_fresh w = \<lparr>events = [], world = w, ug_admin = None, ug_guardian = None,
     ug_pending_hash = None, ug_pending_at = None, ug_pending_version = None, ug_version = None,
     ug_delay = None, ug_schema = None, ug_wasm = None, sp_operator = Absent, sp_token = None,
     sp_staked = Map.empty, sp_total = None, sp_paused = None, sp_lock_period = None,
     sp_deposit_count = Map.empty, sp_deposits = Map.empty, sp_reentrancy = None\<rparr>"

lemma sp_fresh_books: "sp_books (sp_fresh w)"
  by (simp add: sp_books_def sp_fresh_def get_staked_balance_def user_deposits_def
      get_deposit_count_def get_total_staked_def staked_sum_def)

interpretation sp_machine: invariant_machine "sp_exec tk" any_call world_moves sp_books for tk
  by unfold_locales (auto simp: world_moves_def intro: sp_exec_books)


text \<open>In every state a history of calls can lead to from a fresh deployment, whatever the
  token and the other contracts do, each user's staked balance is the sum of its deposits, every
  deposit is positive and \<open>TotalStaked\<close> is the sum of the balances.\<close>

theorem pool_books:
  assumes "reach (sp_exec tk) any_call world_moves (sp_fresh w) s"
  shows "get_staked_balance u s = sum_list (map dep_amount (user_deposits u s)) \<and>
    (\<forall>d \<in> set (user_deposits u s). 0 < dep_amount d) \<and>
    get_total_staked s = (\<Sum>v \<in> dom (sp_staked s). get_staked_balance v s)"
proof -
  have books: "sp_books s"
    by (rule sp_machine.reach_inv [OF assms sp_fresh_books])
  have "staked_sum (sp_staked s) = (\<Sum>v \<in> dom (sp_staked s). get_staked_balance v s)"
    unfolding staked_sum_def msum_def by (rule sum.cong) (auto simp: get_staked_balance_def)
  with books show ?thesis by (simp add: sp_books_def amounts_def)
qed

section \<open>Custody\<close>

text \<open>
  What the pool owes: the staked balances of every account but the pool itself (which the operator
  path can credit, see below).
\<close>

definition sp_owed :: "address \<Rightarrow> 'w sp_state \<Rightarrow> int" where
  "sp_owed self s = msum (\<lambda>u n. if u = self then 0 else n) (sp_staked s)"

definition sp_custody :: "'w token_if \<Rightarrow> address \<Rightarrow> 'w sp_state \<Rightarrow> bool" where
  "sp_custody tk token s \<longleftrightarrow> sep41 tk \<and> sp_books s \<and> sp_token s = Some token \<and> ug_admin s \<noteq> None"

definition at_pool :: "address \<Rightarrow> env \<Rightarrow> 'op \<Rightarrow> bool" where
  "at_pool self e c \<longleftrightarrow> host_env self e"

lemma owed_upd:
  "finite (dom (sp_staked s)) \<Longrightarrow>
   msum (\<lambda>u n. if u = self then 0 else n) ((sp_staked s)(u \<mapsto> n)) =
     sp_owed self s + (if u = self then 0 else n - get_staked_balance u s)"
  by (simp add: sp_owed_def msum_upd_default [where d = 0] get_staked_balance_def)

lemma sp_stake_covers:
  assumes "sp_custody tk token s" and "contract_addr e = self" and "sp_stake tk e u n s = Inr s'"
  shows "sp_owed self s' - sp_owed self s \<le> holding tk token self s' - holding tk token self s \<and>
    sp_custody tk token s'"
  using assms(3)
proof (cases rule: sp_stake_Inr)
  case (1 tok w)
  from assms(1) have "sp_books s" by (simp add: sp_custody_def)
  from sp_stake_books [OF this assms(3)] assms(1,2) 1 show ?thesis
    using sep41D [of tk token u self n "world s" w] owed_upd [of s self u]
    by (auto simp: sp_custody_def sp_books_def sp_owed_def holding_def moved_def)
qed

lemma sp_unstake_covers:
  assumes "sp_custody tk token s" and "contract_addr e = self" and "sp_unstake tk e u n s = Inr s'"
  shows "sp_owed self s' - sp_owed self s \<le> holding tk token self s' - holding tk token self s \<and>
    sp_custody tk token s'"
  using assms(3)
proof (cases rule: sp_unstake_Inr)
  case (1 tok w unlocked s1)
  from assms(1) have "sp_books s" by (simp add: sp_custody_def)
  from sp_unstake_books [OF this assms(3)] assms(1,2) 1(2,4,10,11) show ?thesis
    using sep41D [of tk token self u n "world s" w] owed_upd [of s self u]
    by (auto simp: sp_custody_def sp_books_def sp_owed_def holding_def moved_def)
qed

lemma sp_exec_covers:
  assumes "sp_custody tk token s" and "at_pool self e c" and "sp_exec tk e c s = Inr s'"
  shows "sp_owed self s' - sp_owed self s \<le> holding tk token self s' - holding tk token self s \<and>
    sp_custody tk token s'"
proof (cases "sp_moves_stake c")
  case True
  have self: "contract_addr e = self"
    using assms(2) by (simp add: at_pool_def host_env_def)
  from True show ?thesis
  proof (cases c)
    case (SP_Init a t)
    with assms(1,3) show ?thesis by (auto simp: sp_init_def sp_custody_def outcome_simps)
  next
    case (SP_Stake u n)
    with assms(3) have "sp_stake tk e u n s = Inr s'" by (simp add: outcome_simps)
    from sp_stake_covers [OF assms(1) self this] show ?thesis .
  next
    case (SP_Unstake u n)
    with assms(3) have "sp_unstake tk e u n s = Inr s'" by (simp add: outcome_simps)
    from sp_unstake_covers [OF assms(1) self this] show ?thesis .
  qed simp_all
next
  case False
  from sp_admin_same_books [OF assms(3) this] assms(1) show ?thesis
    using sp_same_books_eq [of s s']
    by (auto simp: sp_same_books_def sp_custody_def sp_owed_def holding_def)
qed

lemma sp_custody_world [simp]: "sp_custody tk token (s\<lparr>world := w\<rparr>) = sp_custody tk token s"
  by (simp add: sp_custody_def)

lemma sp_owed_world [simp]: "sp_owed self (s\<lparr>world := w\<rparr>) = sp_owed self s"
  by (simp add: sp_owed_def)

interpretation sp_custodian:
  custodian "sp_exec tk" "at_pool self" tk token self 1 "sp_custody tk token" "sp_owed self"
  for tk token self
  by unfold_locales (auto dest: sp_exec_covers)

text \<open>C1. After initialisation, in every history of calls interleaved with other accounts' token
  transfers, the pool's token balance covers the staked balances of all accounts other than the
  pool itself, given a token that keeps the SEP-41 transfer contract.\<close>

theorem pool_solvent:
  assumes "sep41 tk" and "sp_init admin token (sp_fresh w) = Inr s0"
    and "0 \<le> tk_balance tk token self w"
    and "reach (sp_exec tk) (at_pool self) (token_others tk token self) s0 s"
  shows "(\<Sum>u \<in> dom (sp_staked s) - {self}. get_staked_balance u s) \<le> holding tk token self s"
proof -
  have "sp_books s0" by (rule sp_init_books [OF sp_fresh_books assms(2)])
  then have "sp_custody tk token s0" and "sp_owed self s0 \<le> holding tk token self s0"
    using assms(1,2,3) by (auto simp: sp_init_def sp_fresh_def host_simps sp_custody_def
        sp_owed_def holding_def)
  note final = this
  have "sp_custody tk token s \<and> sp_owed self s \<le> 1 * holding tk token self s"
    by (rule sp_custodian.solvent [OF assms(4)]) (use final in simp_all)
  then have "sp_owed self s \<le> holding tk token self s" and "finite (dom (sp_staked s))"
    by (auto simp: sp_custody_def sp_books_def)
  moreover from this(2) have "sp_owed self s = (\<Sum>u \<in> dom (sp_staked s) - {self}. get_staked_balance u s)"
    unfolding sp_owed_def msum_def
    by (intro sum.mono_neutral_cong_right) (auto simp: get_staked_balance_def)
  ultimately show ?thesis by simp
qed


section \<open>Unstaking\<close>

text \<open>C5. A successful unstake consumes the user's unlocked deposits first-in first-out, leaves the
  locked ones and every other user's deposits as they were, never pays more than what is unlocked,
  and pays the user through the token.\<close>

theorem unstake_fifo:
  assumes "sp_unstake tk e u n s = Inr s'"
  defines "unlocked \<equiv> is_unlocked (get_lock_period s) (timestamp e)"
  shows "user_deposits u s' = fifo unlocked n (user_deposits u s) \<and>
    filter (\<lambda>d. \<not> unlocked d) (user_deposits u s') = filter (\<lambda>d. \<not> unlocked d) (user_deposits u s) \<and>
    (\<forall>v. v \<noteq> u \<longrightarrow> user_deposits v s' = user_deposits v s) \<and>
    n \<le> sum_list (map dep_amount (filter unlocked (user_deposits u s))) \<and>
    (\<exists>token. sp_token s = Some token \<and>
       tk_transfer tk token (contract_addr e) u n (world s) = Some (world s'))"
  using assms(1)
proof (cases rule: sp_unstake_Inr)
  case (1 token w r s1)
  note ud = user_deposits_unstake [OF 1(9,11)]
  have "filter (\<lambda>d. \<not> unlocked d) (fifo unlocked n ds) = filter (\<lambda>d. \<not> unlocked d) ds" for ds
    unfolding unlocked_def by (rule fifo_locked) simp
  moreover have "n \<le> amounts (filter unlocked (user_deposits u s))"
    using 1(8) unlocked_loop_Inr [OF 1(7)] by (simp add: unlocked_def user_deposits_def)
  moreover have "world s' = w" by (simp add: 1(11))
  ultimately show ?thesis
    using 1(4,10) by (auto simp: ud unlocked_def amounts_def)
qed

text \<open>The loops end with a result when the amounts and the unlock times are in range.\<close>

definition dep_in_range :: "nat \<Rightarrow> deposit \<Rightarrow> bool" where
  "dep_in_range lp d \<longleftrightarrow> 0 < dep_amount d \<and> dep_timestamp d + lp < 2 ^ 64"

lemma deposit_unlocked_ok:
  "dep_in_range lp d \<Longrightarrow> deposit_unlocked lp t d = Inr (is_unlocked lp t d)"
  by (auto simp: dep_in_range_def deposit_unlocked_def is_unlocked_def ck_u64_def)

lemma unlocked_loop_ok:
  assumes "\<forall>d \<in> set (deposits_at m is). dep_in_range lp d"
    and "0 \<le> acc" and "acc + amounts (deposits_at m is) < 2 ^ 127"
  shows "\<exists>r. unlocked_loop lp t m is acc = Inr r"
  using assms
proof (induction "is" arbitrary: acc)
  case (Cons i "is")
  show ?case
  proof (cases "m i")
    case None
    with Cons show ?thesis by simp
  next
    case (Some d)
    have pos: "0 < dep_amount d" "0 \<le> amounts (deposits_at m is)"
      using Cons.prems(1) Some by (auto simp: dep_in_range_def intro!: amounts_nonneg)
    have "unlocked_loop lp t m (i # is) acc =
        (if is_unlocked lp t d then bindE (ck_i128 (acc + dep_amount d)) (unlocked_loop lp t m is)
         else unlocked_loop lp t m is acc)"
      using Cons.prems(1) Some by (simp add: deposit_unlocked_ok)
    moreover have "i128_ok (acc + dep_amount d)"
      using Cons.prems pos Some by (simp add: i128_ok_def)
    ultimately show ?thesis
      using Cons.prems pos Some Cons.IH [of acc] Cons.IH [of "acc + dep_amount d"]
      by (simp add: ck_i128_def)
  qed
qed simp

lemma consume_loop_ok:
  fixes s :: "'w sp_state"
  assumes "\<And>i d. i \<in> set is \<Longrightarrow> sp_deposits s (to, i) = Some d \<Longrightarrow>
      dep_in_range lp d \<and> dep_amount d < 2 ^ 127"
    and "distinct is" and "0 \<le> r" and "r < 2 ^ 127"
  shows "\<exists>s'. consume_loop lp t to is r s = Inr s'"
  using assms
proof (induction "is" arbitrary: r s)
  case (Cons i "is")
  have rest: "\<exists>s'. consume_loop lp t to is r' s'' = Inr s'"
    if "0 \<le> r'" "r' < 2 ^ 127" "\<And>j. j \<in> set is \<Longrightarrow> sp_deposits s'' (to, j) = sp_deposits s (to, j)"
    for r' and s'' :: "'w sp_state"
    by (rule Cons.IH) (use Cons.prems(1,2) that in auto)
  show ?case
  proof (cases "r = 0 \<or> sp_deposits s (to, i) = None")
    case True
    with rest [of r s] Cons.prems(3,4) show ?thesis by (auto simp: get_deposit_def)
  next
    case False
    then obtain d where d: "sp_deposits s (to, i) = Some d" and r: "0 < r"
      using Cons.prems(3) by auto
    have range: "dep_in_range lp d" "0 < dep_amount d" "dep_amount d < 2 ^ 127"
      using Cons.prems(1) [of i d] d by (auto simp: dep_in_range_def)
    have less: "\<exists>s'. consume_loop lp t to is (r - dep_amount d) (remove_deposit to i s) = Inr s'"
      if "dep_amount d \<le> r"
      by (rule rest) (use that range Cons.prems(2,4) in \<open>auto simp: remove_deposit_def\<close>)
    have split: "\<exists>s'. consume_loop lp t to is 0
        (put_deposit to i (d\<lparr>dep_amount := dep_amount d - r\<rparr>) s) = Inr s'"
      by (rule rest) (use Cons.prems(2) in \<open>auto simp: put_deposit_def\<close>)
    have skip: "\<exists>s'. consume_loop lp t to is r s = Inr s'"
      by (rule rest) (use r Cons.prems(4) in auto)
    show ?thesis
      using r d range less split skip Cons.prems(4)
      by (auto simp: get_deposit_def deposit_unlocked_ok ck_i128_def i128_ok_def)
  qed
qed simp

lemma deposit_le_balance:
  assumes "\<forall>d \<in> set ds. 0 < dep_amount d" and "d \<in> set ds"
  shows "dep_amount d \<le> amounts ds"
  using assms by (induction ds) (auto dest: amounts_nonneg)

lemma unlocked_le_balance:
  "\<forall>d \<in> set ds. 0 < dep_amount d \<Longrightarrow> amounts (filter p ds) \<le> amounts ds"
  by (induction ds) auto

lemma deposits_at_member: "i \<in> set is \<Longrightarrow> m i = Some d \<Longrightarrow> d \<in> set (deposits_at m is)"
  by (induction "is") (auto split: option.splits)

lemma sp_books_balance_le_total:
  assumes "sp_books s"
  shows "get_staked_balance u s \<le> get_total_staked s"
proof -
  have nonneg: "0 \<le> get_staked_balance v s" for v
    using assms by (auto simp: sp_books_def intro!: amounts_nonneg)
  have total: "get_total_staked s = staked_sum (sp_staked s)" "finite (dom (sp_staked s))"
    using assms by (auto simp: sp_books_def)
  show ?thesis
  proof (cases "sp_staked s u")
    case None
    have "0 \<le> staked_sum (sp_staked s)" unfolding staked_sum_def
      by (rule msum_nonneg) (use nonneg in \<open>metis get_staked_balance_def unwrap_or.simps(2)\<close>)
    with None total show ?thesis by (simp add: get_staked_balance_def)
  next
    case (Some n)
    have "n \<le> staked_sum (sp_staked s)" unfolding staked_sum_def
      by (rule msum_member_le [OF total(2) Some])
        (use nonneg in \<open>metis get_staked_balance_def unwrap_or.simps(2)\<close>)
    with Some total show ?thesis by (simp add: get_staked_balance_def)
  qed
qed


text \<open>Both loops of an unstake come to an end when the unlocked deposits cover the amount.\<close>

lemma unstake_loops_ok:
  assumes "sp_books s" and "get_total_staked s < 2 ^ 127" and "0 < n"
    and "n \<le> amounts (filter (is_unlocked (get_lock_period s) (timestamp e)) (user_deposits u s))"
    and "\<forall>d \<in> set (user_deposits u s). dep_timestamp d + get_lock_period s < 2 ^ 64"
  shows "\<exists>r m. unlocked_loop (get_lock_period s) (timestamp e) (\<lambda>i. get_deposit u i s) [0..<get_deposit_count u s] 0 = Inr r
    \<and> consume_loop (get_lock_period s) (timestamp e) u [0..<get_deposit_count u s] n s = Inr (s\<lparr>sp_deposits := m\<rparr>)
    \<and> n \<le> r \<and> n \<le> get_staked_balance u s \<and> get_staked_balance u s \<le> get_total_staked s"
proof -
  let ?lp = "get_lock_period s" and ?is = "[0..<get_deposit_count u s]"
  let ?ds = "user_deposits u s" and ?un = "is_unlocked ?lp (timestamp e)"
  have pos: "\<forall>d \<in> set ?ds. 0 < dep_amount d" and bal: "get_staked_balance u s = amounts ?ds"
    using assms(1) by (auto simp: sp_books_def)
  have range: "\<forall>d \<in> set ?ds. dep_in_range ?lp d"
    using pos assms(5) by (auto simp: dep_in_range_def)
  have total: "amounts ?ds \<le> get_total_staked s"
    using sp_books_balance_le_total [OF assms(1), of u] bal by simp
  have n: "amounts (filter ?un ?ds) \<le> amounts ?ds" by (rule unlocked_le_balance [OF pos])
  obtain r where r: "unlocked_loop ?lp (timestamp e) (\<lambda>i. get_deposit u i s) ?is 0 = Inr r"
    using unlocked_loop_ok [of "\<lambda>i. get_deposit u i s" ?is ?lp 0] range total assms(2)
    by (auto simp: user_deposits_def)
  then have r_eq: "r = amounts (filter ?un ?ds)"
    using unlocked_loop_Inr [OF r] by (simp add: user_deposits_def)
  have each: "dep_in_range ?lp d \<and> dep_amount d < 2 ^ 127"
    if "i \<in> set ?is" "sp_deposits s (u, i) = Some d" for i d
  proof -
    have "d \<in> set ?ds"
      unfolding user_deposits_def by (rule deposits_at_member [OF that(1)])
        (simp add: that(2) get_deposit_def)
    with range deposit_le_balance [OF pos] total assms(2) show ?thesis by force
  qed
  have "\<exists>s1. consume_loop ?lp (timestamp e) u ?is n s = Inr s1"
    by (rule consume_loop_ok [OF each distinct_upt]) (use assms(2,3,4) n total in auto)
  then obtain s1 where s1: "consume_loop ?lp (timestamp e) u ?is n s = Inr s1" by blast
  then have "s1 = s\<lparr>sp_deposits := sp_deposits s1\<rparr>" using consume_loop_Inr [OF s1 distinct_upt] by blast
  then obtain m where "s1 = s\<lparr>sp_deposits := m\<rparr>" by blast
  with r s1 r_eq assms(4) n bal total show ?thesis by auto
qed

text \<open>C10. A user can always take unlocked tokens out: in a pool with consistent books that is not
  paused and has no operator, unstaking any positive amount up to the sum of the user's unlocked
  deposits succeeds and lowers the user's balance by that amount, when the token pays, the total
  fits \<open>i128\<close> and the unlock times fit \<open>u64\<close>.\<close>

theorem unstake_succeeds:
  assumes "sp_books s" and "get_total_staked s < 2 ^ 127"
    and "\<not> sp_is_paused s" and "sp_operator s = Absent" and "sp_reentrancy s \<noteq> Some True"
    and "authorized e u" and "0 < n"
    and "n \<le> sum_list (map dep_amount
          (filter (is_unlocked (get_lock_period s) (timestamp e)) (user_deposits u s)))"
    and "\<forall>d \<in> set (user_deposits u s). dep_timestamp d + get_lock_period s < 2 ^ 64"
    and "sp_token s = Some token" and "tk_transfer tk token (contract_addr e) u n (world s) = Some w"
  shows "\<exists>s'. sp_unstake tk e u n s = Inr s' \<and>
    get_staked_balance u s' = get_staked_balance u s - n \<and> get_total_staked s' = get_total_staked s - n"
proof -
  have amount: "n \<le> amounts (filter (is_unlocked (get_lock_period s) (timestamp e)) (user_deposits u s))"
    using assms(8) by (simp add: amounts_def)
  from unstake_loops_ok [OF assms(1,2,7) amount assms(9)] obtain r m where
    r: "unlocked_loop (get_lock_period s) (timestamp e) (\<lambda>i. get_deposit u i s) [0..<get_deposit_count u s] 0 = Inr r"
    and s1: "consume_loop (get_lock_period s) (timestamp e) u [0..<get_deposit_count u s] n s = Inr (s\<lparr>sp_deposits := m\<rparr>)"
    and n: "n \<le> r" "n \<le> get_staked_balance u s" "get_staked_balance u s \<le> get_total_staked s"
    by blast
  have num: "i128_ok (get_staked_balance u s - n)" "i128_ok (get_total_staked s - n)"
    "\<not> get_staked_balance u s < n" "\<not> r < n"
    using assms(2,7) n by (auto simp: i128_ok_def)
  have gates: "sp_require_not_paused s = Inr ()" "require_user_or_operator e u u s = Inr u"
    "sp_require_valid_amount n = Inr ()"
    using assms(3,4,6,7) by (simp_all add: sp_require_not_paused_def require_user_or_operator_def
        sp_get_operator_def sp_require_valid_amount_def)
  let ?s2 = "put_total_staked (get_total_staked s - n)
      (put_staked_balance u (get_staked_balance u s - n) (s\<lparr>sp_deposits := m\<rparr>))"
  have pay: "(sp_get_token ?s2 :: sp_error fault + address) = Inr token"
    "sp_enter ?s2 = Inr (sp_put_lock True ?s2)"
    "token_transfer tk token (contract_addr e) u n (sp_put_lock True ?s2) =
       Inr ((sp_put_lock True ?s2)\<lparr>world := w\<rparr>)"
    "get_total_staked (put_staked_balance u (get_staked_balance u s - n) (s\<lparr>sp_deposits := m\<rparr>)) = get_total_staked s"
    using assms(5,10,11)
    by (simp_all add: sp_get_token_def sp_enter_def enter_def put_total_staked_def
        put_staked_balance_def sp_put_lock_def token_transfer_def get_total_staked_def
        unwrap_or_False_iff)
  have "sp_unstake tk e u n s = Inr (publish [VSym ''staking_pool'', VSym ''unstake'', VAddr u]
      [VInt n, VInt (get_staked_balance u s - n), VInt (get_total_staked s - n)]
      (sp_exit ((sp_put_lock True ?s2)\<lparr>world := w\<rparr>)))"
    unfolding sp_unstake_def Let_def gates bindE_simps if_not_P [OF num(3)] r
      if_not_P [OF num(4)] s1 by (simp add: num(1,2) ck_i128_def pay)
  then show ?thesis
    by (simp add: host_simps sp_exit_def exit_lock_def sp_put_lock_def put_total_staked_def
        put_staked_balance_def get_staked_balance_def get_total_staked_def)
qed

section \<open>The operator paths\<close>

text \<open>
  \<open>set_operator(None)\<close> stores \<open>Void\<close>; from then on every read of the entry traps.
\<close>

lemma sp_void_operator: "sp_operator s = Void \<Longrightarrow> sp_exec tk e c s = Inr s' \<Longrightarrow>
    sp_operator s' = Void \<and> \<not> sp_moves_stake c \<and> (\<forall>a op. c \<noteq> SP_SetOperator a op) \<or>
    sp_operator s' = Void \<and> (\<exists>a t. c = SP_Init a t)"
  by (cases c) (auto simp: sp_admin_defs sp_stake_def sp_unstake_def require_user_or_operator_def
      sp_get_operator_def outcome_simps host_simps Let_def split: if_splits)

interpretation sp_void: invariant_machine "sp_exec tk" any_call world_moves "\<lambda>s. sp_operator s = Void" for tk
  by unfold_locales (auto simp: world_moves_def dest: sp_void_operator)

text \<open>Clearing the operator with \<open>set_operator(admin, None)\<close> disables the pool for good: in every
  later state no stake, no unstake and no further \<open>set_operator\<close> succeeds, for any caller, so
  staked tokens stay locked until the code is replaced.\<close>

theorem clearing_operator_locks_pool:
  assumes "sp_set_operator e0 admin None s = Inr s0"
    and "reach (sp_exec tk) any_call world_moves s0 s1"
    and "c = SP_Stake u n \<or> c = SP_Unstake u n \<or> c = SP_SetOperator a op"
  shows "\<exists>f. sp_exec tk e c s1 = Inl f"
proof -
  have "sp_operator s0 = Void"
    using assms(1) by (auto simp: sp_set_operator_def outcome_simps host_simps)
  then have void: "sp_operator s1 = Void"
    by (rule sp_void.reach_inv [OF assms(2)])
  show ?thesis
  proof (cases "sp_exec tk e c s1")
    case (Inr s')
    from sp_void_operator [OF void this] assms(3) show ?thesis by auto
  qed blast
qed

text \<open>With an operator configured, that operator can stake in the name of the pool's own
  address: the transfer from the pool to itself moves nothing, yet \<open>TotalStaked\<close> grows by the
  amount, so the total stops counting the tokens the pool holds.\<close>

theorem operator_inflates_total:
  assumes "sep41 tk" and "sp_operator s = Stored op" and "authorized e op"
    and "\<not> sp_is_paused s" and "sp_reentrancy s \<noteq> Some True" and "0 < n"
    and "sp_token s = Some token"
    and "tk_transfer tk token (contract_addr e) (contract_addr e) n (world s) = Some w"
    and "i128_ok (get_total_staked s + n)" and "i128_ok (get_staked_balance (contract_addr e) s + n)"
    and "get_deposit_count (contract_addr e) s + 1 < 2 ^ 32"
  shows "\<exists>s'. sp_stake tk e (contract_addr e) n s = Inr s' \<and>
    get_total_staked s' = get_total_staked s + n \<and>
    holding tk token a s' = holding tk token a s"
proof -
  have "tk_balance tk token a w = tk_balance tk token a (world s)"
    using sep41D [OF assms(1,8)] by (simp add: moved_simps)
  then show ?thesis
    using assms(2-11)
    by (simp add: sp_stake_def sp_helper_defs Let_def host_simps ck_i128_def ck_u32_def enter_def
        holding_def token_transfer_def unwrap_or_False_iff)
qed


section \<open>A concrete pool\<close>

text \<open>
  The inputs of the witnesses: the pool at address 9 with token 11, admin 10 and the user 2, who
  stakes 6 of 10 tokens at time 5 and 3 more at time 7.
\<close>

definition demo_ledger :: ledger where
  "demo_ledger = (\<lambda>t a. if t = Address 11 \<and> a = Address 2 then 10 else 0)"

definition demo_calls :: "(env \<times> sp_call) list" where
  "demo_calls =
     [(call_at 5 (Address 9) (Address 2), SP_Stake (Address 2) 6),
      (call_at 7 (Address 9) (Address 2), SP_Stake (Address 2) 3)]"

definition demo_start :: "ledger sp_state" where
  "demo_start = after (sp_init (Address 10) (Address 11) (sp_fresh demo_ledger)) (sp_fresh demo_ledger)"

definition demo_pool :: "ledger sp_state" where
  "demo_pool = run_calls (sp_exec ledger_token) demo_calls demo_start"

lemma demo_init: "sp_init (Address 10) (Address 11) (sp_fresh demo_ledger) = Inr demo_start"
  by (simp add: demo_start_def sp_init_def sp_fresh_def)

lemmas sp_eval = sp_stake_def sp_helper_defs Let_def host_simps ck_i128_def ck_u32_def enter_def
  token_transfer_def ledger_token_def i128_ok_def moved_def

lemma demo_pool_eq:
  "sp_staked demo_pool = [Address 2 \<mapsto> 9]"
  "sp_total demo_pool = Some 9"
  "sp_deposit_count demo_pool = [Address 2 \<mapsto> 2]"
  "sp_deposits demo_pool = [(Address 2, 0) \<mapsto> \<lparr>dep_amount = 6, dep_timestamp = 5\<rparr>,
     (Address 2, 1) \<mapsto> \<lparr>dep_amount = 3, dep_timestamp = 7\<rparr>]"
  "sp_lock_period demo_pool = Some 0" "sp_paused demo_pool = Some False"
  "sp_operator demo_pool = Absent" "sp_reentrancy demo_pool = Some False"
  "sp_token demo_pool = Some (Address 11)" "ug_admin demo_pool = Some (Address 10)"
  "world demo_pool (Address 11) (Address 9) = 9" "world demo_pool (Address 11) (Address 2) = 1"
  by (simp_all add: demo_pool_def demo_calls_def apply_call_def demo_start_def sp_init_def
      sp_fresh_def sp_eval demo_ledger_def fun_eq_iff del: One_nat_def)

lemma demo_pool_from_start:
  "reach (sp_exec ledger_token) (at_pool (Address 9)) others demo_start demo_pool"
  unfolding demo_pool_def
  by (rule run_calls_reach) (auto simp: demo_calls_def at_pool_def)

lemma demo_pool_from_fresh:
  "reach (sp_exec ledger_token) any_call others (sp_fresh demo_ledger) demo_pool"
proof (rule reach_trans)
  show "reach (sp_exec ledger_token) any_call others demo_start demo_pool"
    unfolding demo_pool_def by (rule run_calls_reach) (auto simp: any_call_def)
  have "sp_exec ledger_token e (SP_Init (Address 10) (Address 11)) (sp_fresh demo_ledger) =
      Inr demo_start" for e
    using demo_init by simp
  then show "reach (sp_exec ledger_token) any_call others (sp_fresh demo_ledger) demo_start"
    by (rule reach_call [OF reach_start, rotated]) (simp add: any_call_def)
qed

lemma pool_books_witness:
  "get_staked_balance (Address 2) demo_pool =
     sum_list (map dep_amount (user_deposits (Address 2) demo_pool)) \<and>
   get_staked_balance (Address 2) demo_pool = 9"
  using pool_books [OF demo_pool_from_fresh, of "Address 2"]
  by (simp add: get_staked_balance_def demo_pool_eq)

lemma pool_solvent_witness:
  "(\<Sum>u \<in> {Address 2}. get_staked_balance u demo_pool) \<le>
     holding ledger_token (Address 11) (Address 9) demo_pool \<and>
   get_staked_balance (Address 2) demo_pool = 9"
  using pool_solvent [OF sep41_ledger_token demo_init _ demo_pool_from_start]
  by (simp add: demo_pool_eq get_staked_balance_def ledger_token_def demo_ledger_def)

lemma demo_deposits: "user_deposits (Address 2) demo_pool =
    [\<lparr>dep_amount = 6, dep_timestamp = 5\<rparr>, \<lparr>dep_amount = 3, dep_timestamp = 7\<rparr>]"
  by (simp add: user_deposits_def get_deposit_def get_deposit_count_def demo_pool_eq
      upt_rec [of _ 2] del: One_nat_def)

lemma unstake_succeeds_witness:
  "\<exists>s'. sp_unstake ledger_token (call_at 8 (Address 9) (Address 2)) (Address 2) 7 demo_pool = Inr s' \<and>
    get_staked_balance (Address 2) s' = 2"
proof -
  have books: "sp_books demo_pool"
    by (rule sp_machine.reach_inv [OF demo_pool_from_fresh sp_fresh_books])
  have pay: "\<exists>w. tk_transfer ledger_token (Address 11) (Address 9) (Address 2) 7
      (world demo_pool) = Some w"
    by (simp add: ledger_token_def demo_pool_eq)
  then obtain w where w: "tk_transfer ledger_token (Address 11) (Address 9) (Address 2) 7
      (world demo_pool) = Some w" by blast
  show ?thesis
    using unstake_succeeds [OF books, of "call_at 8 (Address 9) (Address 2)" "Address 2" 7
        "Address 11" ledger_token w] w
    by (auto simp: demo_pool_eq demo_deposits is_unlocked_def get_lock_period_def sp_is_paused_def
        get_total_staked_def get_staked_balance_def)
qed

lemma unstake_fifo_witness:
  "\<exists>s'. sp_unstake ledger_token (call_at 8 (Address 9) (Address 2)) (Address 2) 7 demo_pool = Inr s' \<and>
    user_deposits (Address 2) s' = [\<lparr>dep_amount = 2, dep_timestamp = 7\<rparr>]"
proof -
  have "\<exists>s'. sp_unstake ledger_token (call_at 8 (Address 9) (Address 2)) (Address 2) 7 demo_pool
      = Inr s'"
    by (simp add: sp_unstake_def sp_eval demo_pool_eq upt_rec [of _ 2] deposit_unlocked_def del: One_nat_def)
  then obtain s' where s': "sp_unstake ledger_token (call_at 8 (Address 9) (Address 2))
      (Address 2) 7 demo_pool = Inr s'" by blast
  show ?thesis
    using unstake_fifo [OF s'] s'
    by (simp add: demo_deposits is_unlocked_def get_lock_period_def demo_pool_eq)
qed

lemma clearing_operator_locks_pool_witness:
  "\<exists>s0 f. sp_set_operator (call_at 8 (Address 9) (Address 10)) (Address 10) None demo_pool = Inr s0 \<and>
    sp_exec ledger_token (call_at 9 (Address 9) (Address 2)) (SP_Unstake (Address 2) 1) s0 = Inl f"
proof -
  have "\<exists>s0. sp_set_operator (call_at 8 (Address 9) (Address 10)) (Address 10) None demo_pool = Inr s0"
    by (simp add: sp_set_operator_def outcome_simps sp_get_admin_def sp_get_operator_def demo_pool_eq)
  then obtain s0 where s0:
    "sp_set_operator (call_at 8 (Address 9) (Address 10)) (Address 10) None demo_pool = Inr s0" by blast
  from clearing_operator_locks_pool [OF s0 reach_start, of "SP_Unstake (Address 2) 1"] s0
  show ?thesis by blast
qed

lemma operator_inflates_total_witness:
  "\<exists>s'. sp_stake ledger_token (call_at 8 (Address 9) (Address 3)) (Address 9) 4
      (demo_pool\<lparr>sp_operator := Stored (Address 3)\<rparr>) = Inr s' \<and> get_total_staked s' = 13 \<and>
    holding ledger_token (Address 11) (Address 9) s' = 9"
proof -
  let ?s = "demo_pool\<lparr>sp_operator := Stored (Address 3)\<rparr>"
  have "\<exists>w. tk_transfer ledger_token (Address 11) (Address 9) (Address 9) 4 (world ?s) = Some w"
    by (simp add: ledger_token_def demo_pool_eq)
  then obtain w where
    w: "tk_transfer ledger_token (Address 11) (Address 9) (Address 9) 4 (world ?s) = Some w" by blast
  have "holding ledger_token (Address 11) (Address 9) ?s = 9"
    by (simp add: holding_def ledger_token_def demo_pool_eq)
  then show ?thesis
    using operator_inflates_total [OF sep41_ledger_token, of ?s "Address 3"
        "call_at 8 (Address 9) (Address 3)" 4 "Address 11" w "Address 9"] w
    by (simp add: demo_pool_eq sp_is_paused_def get_total_staked_def get_staked_balance_def
        get_deposit_count_def i128_ok_def)
qed

end
