(* ===== verification/DealEscrow.thy ===== *)
theory DealEscrow
  imports AccessControl ReentrancyGuard Pausable UpgradeGovernance
begin

text \<open>
  The deal escrow (\<open>deal_escrow/src/lib.rs\<close>, \<open>deal_escrow/src/validation.rs\<close>): tenants deposit rent
  per deal; the operator releases it at once or requests a release that the parties can challenge
  within a window and a resolver (or a timeout) settles; a circuit breaker, the deal lifecycle, a
  storage migration and the upgrade governance.  \<open>DealEscrowProps\<close> holds the properties.
\<close>

section \<open>State and errors\<close>

datatype de_error =
    DE_AlreadyInitialized
  | DE_NotAuthorized
  | DE_Paused
  | DE_InvalidAmount
  | DE_InsufficientBalance
  | DE_EmptyString
  | DE_ReentrancyDetected
  | DE_UpgradeAlreadyPending
  | DE_NoUpgradePending
  | DE_UpgradeDelayNotMet
  | DE_InvalidSplit
  | DE_Frozen
  | DE_RecoveryDelayNotMet
  | DE_InvalidReleaseWindow
  | DE_InvalidSchemaVersion
  | DE_PendingReleaseExists
  | DE_NoPendingRelease
  | DE_DisputeNotAllowed
  | DE_NoOpenDispute
  | DE_InvalidSettlement
  | DE_InvalidGovernanceDrain
  | DE_MigrationInvariantViolation
  | DE_InvalidDealTransition

datatype deal_lifecycle = Draft | Active | Completed | Defaulted

text \<open>The order of the discriminants (\<open>#[repr(u32)]\<close>).\<close>

primrec lifecycle_rank :: "deal_lifecycle \<Rightarrow> nat" where
  "lifecycle_rank Draft = 0"
| "lifecycle_rank Active = 1"
| "lifecycle_rank Completed = 2"
| "lifecycle_rank Defaulted = 3"

lemma lifecycle_rank_inject: "lifecycle_rank a = lifecycle_rank b \<longleftrightarrow> a = b"
  by (cases a; cases b) simp_all

instantiation deal_lifecycle :: linorder
begin

definition less_eq_deal_lifecycle :: "deal_lifecycle \<Rightarrow> deal_lifecycle \<Rightarrow> bool" where
  "less_eq_deal_lifecycle a b \<longleftrightarrow> lifecycle_rank a \<le> lifecycle_rank b"

definition less_deal_lifecycle :: "deal_lifecycle \<Rightarrow> deal_lifecycle \<Rightarrow> bool" where
  "less_deal_lifecycle a b \<longleftrightarrow> lifecycle_rank a < lifecycle_rank b"

instance
  by standard (auto simp: less_eq_deal_lifecycle_def less_deal_lifecycle_def lifecycle_rank_inject)

end

record deal_state =
  total_balance :: int
  locked_amount :: int
  pending_payout :: int

record rent_release =
  rr_to :: address
  rr_amount :: int
  rr_requested_by :: address
  rr_requested_at :: nat
  rr_challenge_end_at :: nat
  rr_external_ref_source :: string
  rr_external_ref :: string

record rent_dispute =
  rd_opened_by :: address
  rd_opened_at :: nat
  rd_evidence_ref :: string
  rd_challenge_evidence_ref :: string
  rd_resolved :: bool

datatype settlement_outcome = ReleaseToRecipient | RefundToDepositor

primrec outcome_code :: "settlement_outcome \<Rightarrow> nat" where
  "outcome_code ReleaseToRecipient = 1"
| "outcome_code RefundToDepositor = 2"

datatype breaker = Unfrozen | Frozen | RecoveryAwaiting

primrec breaker_code :: "breaker \<Rightarrow> nat" where
  "breaker_code Unfrozen = 0"
| "breaker_code Frozen = 1"
| "breaker_code RecoveryAwaiting = 2"

text \<open>One field per \<open>DataKey\<close>; the admin, guardian and upgrade entries are those of \<open>ug_host\<close>.\<close>

record 'w de_state = "'w ug_host" +
  de_operator :: "address option"
  de_resolver :: "address option"
  de_challenge_window :: "nat option"
  de_dispute_timeout :: "nat option"
  de_token :: "address option"
  de_receipt_contract :: "address option"
  de_paused :: "bool option"
  de_balance :: "string \<rightharpoonup> int"
  de_depositor :: "string \<rightharpoonup> address"
  de_deal_state :: "string \<rightharpoonup> deal_state"
  de_lifecycle :: "string \<rightharpoonup> deal_lifecycle"
  de_pending :: "string \<rightharpoonup> rent_release"
  de_dispute :: "string \<rightharpoonup> rent_dispute"
  de_legacy_locked :: "string \<rightharpoonup> int"
  de_legacy_payout :: "string \<rightharpoonup> int"
  de_reentrancy :: "bool option"
  de_breaker :: "breaker option"
  de_drain_hash :: "bytes32 option"
  de_drain_at :: "nat option"
  de_recovery_delay :: "nat option"

section \<open>Storage helpers\<close>

definition de_get_admin :: "'w de_state \<Rightarrow> de_error fault + address" where
  "de_get_admin s = expect (ug_admin s) ''admin not set''"

definition de_schema_version :: "'w de_state \<Rightarrow> nat" where
  "de_schema_version s = unwrap_or (ug_schema s) 1"

definition de_get_operator :: "'w de_state \<Rightarrow> de_error fault + address" where
  "de_get_operator s = expect (de_operator s) ''operator not set''"

definition get_challenge_window_seconds :: "'w de_state \<Rightarrow> nat" where
  "get_challenge_window_seconds s = unwrap_or (de_challenge_window s) 86400"

definition get_dispute_timeout_seconds :: "'w de_state \<Rightarrow> nat" where
  "get_dispute_timeout_seconds s = unwrap_or (de_dispute_timeout s) 172800"

definition de_get_token :: "'w de_state \<Rightarrow> de_error fault + address" where
  "de_get_token s = expect (de_token s) ''token not set''"

definition get_paused :: "'w de_state \<Rightarrow> bool" where
  "get_paused s = unwrap_or (de_paused s) False"

definition get_circuit_breaker :: "'w de_state \<Rightarrow> breaker" where
  "get_circuit_breaker s = unwrap_or (de_breaker s) Unfrozen"

definition get_recovery_delay_seconds :: "'w de_state \<Rightarrow> nat" where
  "get_recovery_delay_seconds s = unwrap_or (de_recovery_delay s) 86400"

definition require_not_frozen :: "bool \<Rightarrow> 'w de_state \<Rightarrow> de_error fault + unit" where
  "require_not_frozen is_governance_drain s =
     (case get_circuit_breaker s of
        Unfrozen \<Rightarrow> Inr ()
      | Frozen \<Rightarrow> if is_governance_drain then Inr () else Inl (Err DE_Frozen)
      | RecoveryAwaiting \<Rightarrow> Inl (Err DE_RecoveryDelayNotMet))"

definition de_require_not_paused :: "'w de_state \<Rightarrow> de_error fault + unit" where
  "de_require_not_paused s = (if get_paused s then Inl (Err DE_Paused) else Inr ())"

definition get_deal_balance :: "string \<Rightarrow> 'w de_state \<Rightarrow> int" where
  "get_deal_balance d s = unwrap_or (de_balance s d) 0"

definition put_deal_balance :: "string \<Rightarrow> int \<Rightarrow> 'w de_state \<Rightarrow> 'w de_state" where
  "put_deal_balance d amount s = s\<lparr>de_balance := (de_balance s)(d \<mapsto> amount)\<rparr>"

definition set_deal_depositor_if_missing :: "string \<Rightarrow> address \<Rightarrow> 'w de_state \<Rightarrow> 'w de_state" where
  "set_deal_depositor_if_missing d depositor s =
     (if de_depositor s d = None then s\<lparr>de_depositor := (de_depositor s)(d \<mapsto> depositor)\<rparr> else s)"

definition get_deal_state :: "string \<Rightarrow> 'w de_state \<Rightarrow> deal_state" where
  "get_deal_state d s =
     (case de_deal_state s d of
        Some st \<Rightarrow> st
      | None \<Rightarrow> \<lparr>total_balance = get_deal_balance d s, locked_amount = 0, pending_payout = 0\<rparr>)"

definition set_deal_state :: "string \<Rightarrow> deal_state \<Rightarrow> 'w de_state \<Rightarrow> 'w de_state" where
  "set_deal_state d st s = s\<lparr>de_deal_state := (de_deal_state s)(d \<mapsto> st)\<rparr>"

definition assert_deal_invariants :: "deal_state \<Rightarrow> de_error fault + unit" where
  "assert_deal_invariants st =
     (if total_balance st < 0 \<or> locked_amount st < 0 \<or> pending_payout st < 0
      then Inl (Err DE_MigrationInvariantViolation)
      else if locked_amount st \<noteq> pending_payout st then Inl (Err DE_MigrationInvariantViolation)
      else if total_balance st < locked_amount st then Inl (Err DE_MigrationInvariantViolation)
      else Inr ())"

definition set_pending_release :: "string \<Rightarrow> rent_release \<Rightarrow> 'w de_state \<Rightarrow> 'w de_state" where
  "set_pending_release d r s = s\<lparr>de_pending := (de_pending s)(d \<mapsto> r)\<rparr>"

definition clear_pending_release :: "string \<Rightarrow> 'w de_state \<Rightarrow> 'w de_state" where
  "clear_pending_release d s = s\<lparr>de_pending := (de_pending s)(d := None)\<rparr>"

definition set_dispute :: "string \<Rightarrow> rent_dispute \<Rightarrow> 'w de_state \<Rightarrow> 'w de_state" where
  "set_dispute d r s = s\<lparr>de_dispute := (de_dispute s)(d \<mapsto> r)\<rparr>"

definition clear_dispute :: "string \<Rightarrow> 'w de_state \<Rightarrow> 'w de_state" where
  "clear_dispute d s = s\<lparr>de_dispute := (de_dispute s)(d := None)\<rparr>"

definition de_put_lock :: "bool \<Rightarrow> 'w de_state \<Rightarrow> 'w de_state" where
  "de_put_lock b s = s\<lparr>de_reentrancy := Some b\<rparr>"

definition enter_nonreentrant :: "'w de_state \<Rightarrow> de_error fault + 'w de_state" where
  "enter_nonreentrant s = enter de_reentrancy de_put_lock DE_ReentrancyDetected s"

definition exit_nonreentrant :: "'w de_state \<Rightarrow> 'w de_state" where
  "exit_nonreentrant s = exit_lock de_put_lock s"

text \<open>The transaction id: the hash of the two serialised references.\<close>

definition generate_tx_id :: "host_crypto \<Rightarrow> string \<Rightarrow> string \<Rightarrow> bytes32" where
  "generate_tx_id hc external_ref_source external_ref =
     sha256 hc (to_xdr hc (VSym external_ref_source) @ to_xdr hc (VStr external_ref))"

text \<open>\<open>validation.rs\<close>\<close>

definition de_require_valid_amount :: "int \<Rightarrow> de_error fault + unit" where
  "de_require_valid_amount amount = (if amount \<le> 0 then Inl (Err DE_InvalidAmount) else Inr ())"

definition require_non_empty_string :: "string \<Rightarrow> de_error fault + unit" where
  "require_non_empty_string str = (if length str = 0 then Inl (Err DE_EmptyString) else Inr ())"

lemmas de_helper_defs = de_get_admin_def de_get_operator_def de_get_token_def
  get_challenge_window_seconds_def get_dispute_timeout_seconds_def get_paused_def
  get_circuit_breaker_def get_recovery_delay_seconds_def
  get_deal_balance_def put_deal_balance_def set_deal_depositor_if_missing_def set_deal_state_def
  set_pending_release_def clear_pending_release_def set_dispute_def clear_dispute_def
  de_put_lock_def enter_nonreentrant_def exit_nonreentrant_def exit_lock_def

interpretation de_lock: lock_cell de_reentrancy de_put_lock
  by unfold_locales (auto simp: de_put_lock_def)

section \<open>Initialisation and configuration\<close>

definition de_init ::
  "address \<Rightarrow> address \<Rightarrow> address \<Rightarrow> address \<Rightarrow> 'w de_state \<Rightarrow> de_error fault + 'w de_state" where
  "de_init admin operator token receipt_contract s =
     (if ug_admin s \<noteq> None then Inl (Err DE_AlreadyInitialized)
      else Inr (publish [VSym ''deal_escrow'', VSym ''init'']
             [VAddr admin, VAddr operator, VAddr token, VAddr receipt_contract, VNat 1]
             (s\<lparr>ug_admin := Some admin, de_operator := Some operator, de_token := Some token,
                ug_version := Some 1, ug_schema := Some 3,
                de_receipt_contract := Some receipt_contract, de_paused := Some False\<rparr>)))"

definition configure_dispute_windows ::
  "env \<Rightarrow> address \<Rightarrow> nat \<Rightarrow> nat \<Rightarrow> 'w de_state \<Rightarrow> de_error fault + 'w de_state" where
  "configure_dispute_windows e admin challenge_window_seconds dispute_timeout_seconds s =
     bindE (de_get_admin s) (\<lambda>current_admin.
     bindE (require_admin_permission e current_admin admin ''configure_dispute_windows''
              DE_NotAuthorized s) (\<lambda>_.
     if challenge_window_seconds = 0 \<or> dispute_timeout_seconds = 0
     then Inl (Err DE_InvalidReleaseWindow)
     else Inr (publish [VSym ''deal_escrow'', VSym ''configure_dispute_windows'']
            [VNat challenge_window_seconds, VNat dispute_timeout_seconds]
            (s\<lparr>de_challenge_window := Some challenge_window_seconds,
               de_dispute_timeout := Some dispute_timeout_seconds\<rparr>))))"

definition set_resolver ::
  "env \<Rightarrow> address \<Rightarrow> address \<Rightarrow> 'w de_state \<Rightarrow> de_error fault + 'w de_state" where
  "set_resolver e admin resolver s =
     bindE (de_get_admin s) (\<lambda>current_admin.
     bindE (require_admin_permission e current_admin admin ''set_resolver'' DE_NotAuthorized s) (\<lambda>_.
     Inr (publish [VSym ''deal_escrow'', VSym ''set_resolver''] [VAddr resolver]
            (s\<lparr>de_resolver := Some resolver\<rparr>))))"

section \<open>Deposit and direct release\<close>

definition de_deposit ::
  "'w token_if \<Rightarrow> env \<Rightarrow> address \<Rightarrow> string \<Rightarrow> int \<Rightarrow> 'w de_state \<Rightarrow> de_error fault + 'w de_state" where
  "de_deposit tk e from deal_id amount s =
     bindE (de_require_not_paused s) (\<lambda>_.
     bindE (de_require_valid_amount amount) (\<lambda>_.
     bindE (require_non_empty_string deal_id) (\<lambda>_.
     bindE (require_auth e from) (\<lambda>_.
     bindE (de_get_token s) (\<lambda>token_addr.
     bindE (enter_nonreentrant s) (\<lambda>s.
     bindE (token_transfer tk token_addr from (contract_addr e) amount s) (\<lambda>s.
     let s = exit_nonreentrant s;
         cur = get_deal_balance deal_id s in
     bindE (ck_i128 (cur + amount)) (\<lambda>new_balance.
     let s = put_deal_balance deal_id new_balance s;
         s = set_deal_depositor_if_missing deal_id from s;
         st = (get_deal_state deal_id s)\<lparr>total_balance := new_balance\<rparr> in
     bindE (assert_deal_invariants st) (\<lambda>_.
     let s = set_deal_state deal_id st s in
     Inr (publish [VSym ''deal_escrow'', VSym ''deposit'']
            [VStr deal_id, VAddr from, VInt amount] s))))))))))"

text \<open>A payout leg: \<open>if amount > 0 { token.transfer(..) }\<close>.\<close>

definition pay_if_positive ::
  "'w token_if \<Rightarrow> address \<Rightarrow> address \<Rightarrow> address \<Rightarrow> int \<Rightarrow> 'w de_state \<Rightarrow> de_error fault + 'w de_state" where
  "pay_if_positive tk token from to amount s =
     (if 0 < amount then token_transfer tk token from to amount s else Inr s)"

definition de_release ::
  "'w token_if \<Rightarrow> host_crypto \<Rightarrow> env \<Rightarrow> address \<Rightarrow> string \<Rightarrow> address \<Rightarrow> int \<Rightarrow> address \<Rightarrow> int \<Rightarrow>
   address \<Rightarrow> int \<Rightarrow> string \<Rightarrow> string \<Rightarrow> 'w de_state \<Rightarrow> de_error fault + int \<times> 'w de_state" where
  "de_release tk hc e caller deal_id to principal_amount platform_addr platform_amount reporter_addr
     reporter_amount external_ref_source external_ref s =
     bindE (de_require_not_paused s) (\<lambda>_.
     bindE (require_not_frozen False s) (\<lambda>_.
     bindE (require_non_empty_string deal_id) (\<lambda>_.
     bindE (require_non_empty_string external_ref) (\<lambda>_.
     bindE (de_get_admin s) (\<lambda>admin.
     bindE (de_get_operator s) (\<lambda>operator.
     bindE (require_admin_or_operator_permission e admin (Some operator) caller ''release''
              DE_NotAuthorized s) (\<lambda>_.
     if principal_amount < 0 \<or> platform_amount < 0 \<or> reporter_amount < 0
     then Inl (Err DE_InvalidAmount)
     else
     let cur = get_deal_balance deal_id s in
     if cur \<le> 0 then Inl (Err DE_InsufficientBalance)
     else
     bindE (ck_i128 (principal_amount + platform_amount)) (\<lambda>two.
     bindE (ck_i128 (two + reporter_amount)) (\<lambda>split.
     if split \<noteq> cur then Inl (Err DE_InvalidSplit)
     else
     bindE (de_get_token s) (\<lambda>token_addr.
     let s = put_deal_balance deal_id 0 s;
         st = (get_deal_state deal_id s)
                \<lparr>total_balance := 0, locked_amount := 0, pending_payout := 0\<rparr> in
     bindE (assert_deal_invariants st) (\<lambda>_.
     let s = set_deal_state deal_id st s;
         tx_id = generate_tx_id hc external_ref_source external_ref in
     bindE (enter_nonreentrant s) (\<lambda>s.
     bindE (pay_if_positive tk token_addr (contract_addr e) to principal_amount s) (\<lambda>s.
     bindE (pay_if_positive tk token_addr (contract_addr e) platform_addr platform_amount s) (\<lambda>s.
     bindE (pay_if_positive tk token_addr (contract_addr e) reporter_addr reporter_amount s) (\<lambda>s.
     let s = exit_nonreentrant s in
     Inr (cur, publish [VSym ''deal_escrow'', VSym ''release'']
            [VStr deal_id, VAddr to, VInt principal_amount, VAddr platform_addr,
             VInt platform_amount, VAddr reporter_addr, VInt reporter_amount,
             VSym external_ref_source, VBytes tx_id] s))))))))))))))))"

section \<open>Storage migration\<close>

text \<open>The loop over the deals of \<open>migrate_storage_schema\<close>.\<close>

fun migrate_loop :: "nat \<Rightarrow> string list \<Rightarrow> 'w de_state \<Rightarrow> de_error fault + 'w de_state" where
  "migrate_loop from_version [] s = Inr s"
| "migrate_loop from_version (deal_id # ids) s =
     (let balance = get_deal_balance deal_id s;
          locked = (if from_version = 2 then unwrap_or (de_legacy_locked s deal_id) 0 else 0);
          pending = (if from_version = 2 then unwrap_or (de_legacy_payout s deal_id) 0 else 0);
          st = \<lparr>total_balance = balance, locked_amount = locked, pending_payout = pending\<rparr> in
      bindE (assert_deal_invariants st) (\<lambda>_.
      migrate_loop from_version ids (set_deal_state deal_id st s)))"

definition migrate_storage_schema ::
  "env \<Rightarrow> address \<Rightarrow> nat \<Rightarrow> string list \<Rightarrow> 'w de_state \<Rightarrow> de_error fault + 'w de_state" where
  "migrate_storage_schema e admin from_version deal_ids s =
     bindE (de_get_admin s) (\<lambda>current_admin.
     bindE (require_admin_permission e current_admin admin ''migrate_storage_schema''
              DE_NotAuthorized s) (\<lambda>_.
     let current = de_schema_version s in
     if current = 3
     then Inr (publish [VSym ''deal_escrow'', VSym ''migration_noop''] [VNat current, VNat 3] s)
     else if current \<noteq> from_version \<or> \<not> (from_version = 1 \<or> from_version = 2)
     then Inl (Err DE_InvalidSchemaVersion)
     else
     let s = publish [VSym ''deal_escrow'', VSym ''migration_started'']
               [VNat from_version, VNat 3, VNat (length deal_ids)] s in
     bindE (migrate_loop from_version deal_ids s) (\<lambda>s.
     Inr (publish [VSym ''deal_escrow'', VSym ''migration_completed''] [VNat from_version, VNat 3]
            (s\<lparr>ug_schema := Some 3\<rparr>)))))"

section \<open>Rent release, challenge and settlement\<close>

definition request_rent_release ::
  "env \<Rightarrow> address \<Rightarrow> string \<Rightarrow> address \<Rightarrow> int \<Rightarrow> string \<Rightarrow> string \<Rightarrow> 'w de_state \<Rightarrow>
   de_error fault + 'w de_state" where
  "request_rent_release e caller deal_id to amount external_ref_source external_ref s =
     bindE (de_require_not_paused s) (\<lambda>_.
     bindE (de_require_valid_amount amount) (\<lambda>_.
     bindE (require_non_empty_string deal_id) (\<lambda>_.
     bindE (require_non_empty_string external_ref) (\<lambda>_.
     bindE (de_get_admin s) (\<lambda>admin.
     bindE (de_get_operator s) (\<lambda>operator.
     bindE (require_admin_or_operator_permission e admin (Some operator) caller
              ''request_rent_release'' DE_NotAuthorized s) (\<lambda>_.
     if de_pending s deal_id \<noteq> None then Inl (Err DE_PendingReleaseExists)
     else
     let st = get_deal_state deal_id s in
     if total_balance st < amount then Inl (Err DE_InsufficientBalance)
     else
     let st = st\<lparr>locked_amount := amount, pending_payout := amount\<rparr> in
     bindE (assert_deal_invariants st) (\<lambda>_.
     let s = set_deal_state deal_id st s; now = timestamp e in
     bindE (ck_u64 (now + get_challenge_window_seconds s)) (\<lambda>challenge_end.
     let s = set_pending_release deal_id
               \<lparr>rr_to = to, rr_amount = amount, rr_requested_by = caller, rr_requested_at = now,
                rr_challenge_end_at = challenge_end, rr_external_ref_source = external_ref_source,
                rr_external_ref = external_ref\<rparr> s in
     Inr (publish [VSym ''deal_escrow'', VSym ''rent_release_requested'']
            [VStr deal_id, VAddr caller, VInt amount, VNat challenge_end] s))))))))))"

definition challenge_rent_release ::
  "env \<Rightarrow> address \<Rightarrow> string \<Rightarrow> string \<Rightarrow> 'w de_state \<Rightarrow> de_error fault + 'w de_state" where
  "challenge_rent_release e caller deal_id challenge_evidence_ref s =
     bindE (de_require_not_paused s) (\<lambda>_.
     bindE (require_non_empty_string deal_id) (\<lambda>_.
     bindE (require_non_empty_string challenge_evidence_ref) (\<lambda>_.
     bindE (require_auth e caller) (\<lambda>_.
     bindE (ok_or (de_pending s deal_id) DE_NoPendingRelease) (\<lambda>pending.
     let now = timestamp e in
     if rr_challenge_end_at pending < now then Inl (Err DE_DisputeNotAllowed)
     else
     bindE (ok_or (de_depositor s deal_id) DE_DisputeNotAllowed) (\<lambda>depositor.
     if caller \<noteq> depositor \<and> caller \<noteq> rr_to pending then Inl (Err DE_NotAuthorized)
     else
     Inr (publish [VSym ''deal_escrow'', VSym ''rent_release_challenged'']
            [VStr deal_id, VAddr caller, VNat now]
          (set_dispute deal_id
            \<lparr>rd_opened_by = caller, rd_opened_at = now, rd_evidence_ref = rr_external_ref pending,
             rd_challenge_evidence_ref = challenge_evidence_ref, rd_resolved = False\<rparr> s))))))))"

definition settle_release_inner ::
  "'w token_if \<Rightarrow> host_crypto \<Rightarrow> env \<Rightarrow> string \<Rightarrow> settlement_outcome \<Rightarrow> string \<Rightarrow> bool \<Rightarrow>
   'w de_state \<Rightarrow> de_error fault + 'w de_state" where
  "settle_release_inner tk hc e deal_id outcome resolution_evidence_ref resolved_by_resolver s =
     bindE (ok_or (de_pending s deal_id) DE_NoPendingRelease) (\<lambda>pending.
     bindE (ok_or (de_depositor s deal_id) DE_InvalidSettlement) (\<lambda>depositor.
     let st = get_deal_state deal_id s in
     if locked_amount st \<noteq> rr_amount pending \<or> pending_payout st \<noteq> rr_amount pending
     then Inl (Err DE_MigrationInvariantViolation)
     else
     let recipient = (case outcome of
             ReleaseToRecipient \<Rightarrow> rr_to pending
           | RefundToDepositor \<Rightarrow> depositor) in
     bindE (de_get_token s) (\<lambda>token_addr.
     bindE (enter_nonreentrant s) (\<lambda>s.
     bindE (token_transfer tk token_addr (contract_addr e) recipient (rr_amount pending) s) (\<lambda>s.
     let s = exit_nonreentrant s in
     bindE (ck_i128 (total_balance st - rr_amount pending)) (\<lambda>total.
     let st = st\<lparr>total_balance := total, locked_amount := 0, pending_payout := 0\<rparr> in
     bindE (assert_deal_invariants st) (\<lambda>_.
     let s = set_deal_state deal_id st s;
         s = put_deal_balance deal_id total s;
         s = clear_pending_release deal_id s;
         s = (case de_dispute s deal_id of
                Some dispute \<Rightarrow>
                  clear_dispute deal_id (set_dispute deal_id (dispute\<lparr>rd_resolved := True\<rparr>) s)
              | None \<Rightarrow> s);
         tx_id = generate_tx_id hc (rr_external_ref_source pending) resolution_evidence_ref in
     Inr (publish [VSym ''deal_escrow'', VSym ''rent_release_settled'']
            [VStr deal_id, VAddr recipient, VInt (rr_amount pending), VNat (outcome_code outcome),
             VBytes tx_id, VBool resolved_by_resolver] s))))))))"

definition resolve_rent_dispute ::
  "'w token_if \<Rightarrow> host_crypto \<Rightarrow> env \<Rightarrow> address \<Rightarrow> string \<Rightarrow> settlement_outcome \<Rightarrow> string \<Rightarrow>
   'w de_state \<Rightarrow> de_error fault + 'w de_state" where
  "resolve_rent_dispute tk hc e caller deal_id outcome resolution_evidence_ref s =
     bindE (de_require_not_paused s) (\<lambda>_.
     bindE (require_non_empty_string deal_id) (\<lambda>_.
     bindE (require_non_empty_string resolution_evidence_ref) (\<lambda>_.
     bindE (ok_or (de_resolver s) DE_NotAuthorized) (\<lambda>resolver.
     if caller \<noteq> resolver then Inl (Err DE_NotAuthorized)
     else
     bindE (require_auth e caller) (\<lambda>_.
     bindE (ok_or (de_dispute s deal_id) DE_NoOpenDispute) (\<lambda>dispute.
     if rd_resolved dispute then Inl (Err DE_InvalidSettlement)
     else settle_release_inner tk hc e deal_id outcome resolution_evidence_ref True s))))))"

definition settle_rent_release_timeout ::
  "'w token_if \<Rightarrow> host_crypto \<Rightarrow> env \<Rightarrow> string \<Rightarrow> 'w de_state \<Rightarrow> de_error fault + 'w de_state" where
  "settle_rent_release_timeout tk hc e deal_id s =
     bindE (de_require_not_paused s) (\<lambda>_.
     bindE (require_non_empty_string deal_id) (\<lambda>_.
     if de_dispute s deal_id \<noteq> None then Inl (Err DE_DisputeNotAllowed)
     else
     bindE (ok_or (de_pending s deal_id) DE_NoPendingRelease) (\<lambda>pending.
     if timestamp e < rr_challenge_end_at pending then Inl (Err DE_InvalidReleaseWindow)
     else settle_release_inner tk hc e deal_id ReleaseToRecipient ''timeout_auto_release'' False s)))"

definition settle_dispute_timeout ::
  "'w token_if \<Rightarrow> host_crypto \<Rightarrow> env \<Rightarrow> string \<Rightarrow> 'w de_state \<Rightarrow> de_error fault + 'w de_state" where
  "settle_dispute_timeout tk hc e deal_id s =
     bindE (de_require_not_paused s) (\<lambda>_.
     bindE (require_non_empty_string deal_id) (\<lambda>_.
     bindE (ok_or (de_dispute s deal_id) DE_NoOpenDispute) (\<lambda>dispute.
     if rd_resolved dispute then Inl (Err DE_InvalidSettlement)
     else
     bindE (ck_u64 (rd_opened_at dispute + get_dispute_timeout_seconds s)) (\<lambda>expires.
     if timestamp e < expires then Inl (Err DE_InvalidReleaseWindow)
     else settle_release_inner tk hc e deal_id RefundToDepositor ''dispute_timeout_refund'' False s))))"

section \<open>Pausing\<close>

definition de_pause :: "env \<Rightarrow> address \<Rightarrow> 'w de_state \<Rightarrow> pausable_error fault + 'w de_state" where
  "de_pause e admin s =
     bindE (expect (ug_admin s) ''admin not set'') (\<lambda>stored.
     bindE (map_err (\<lambda>_. PE_NotAuthorized)
        (require_admin_permission e stored admin ''pause'' DE_NotAuthorized s)) (\<lambda>_.
     Inr (publish [VSym ''Pausable'', VSym ''pause''] [] (s\<lparr>de_paused := Some True\<rparr>))))"

definition de_unpause :: "env \<Rightarrow> address \<Rightarrow> 'w de_state \<Rightarrow> pausable_error fault + 'w de_state" where
  "de_unpause e admin s =
     bindE (expect (ug_admin s) ''admin not set'') (\<lambda>stored.
     bindE (map_err (\<lambda>_. PE_NotAuthorized)
        (require_admin_permission e stored admin ''unpause'' DE_NotAuthorized s)) (\<lambda>_.
     Inr (publish [VSym ''deal_escrow'', VSym ''unpause''] [VAddr admin]
            (s\<lparr>de_paused := Some False\<rparr>))))"

interpretation de_pausable: pausable de_pause de_unpause get_paused ug_admin
  by unfold_locales
    (auto simp: de_pause_def de_unpause_def get_paused_def outcome_simps host_simps)

section \<open>Upgrade governance\<close>

definition de_set_guardian ::
  "env \<Rightarrow> address \<Rightarrow> address \<Rightarrow> 'w de_state \<Rightarrow> de_error fault + 'w de_state" where
  "de_set_guardian e admin guardian s =
     map_err (\<lambda>_. DE_NotAuthorized) (set_guardian e admin (Some guardian) ''deal_escrow'' s)"

definition de_set_upgrade_delay ::
  "env \<Rightarrow> address \<Rightarrow> nat \<Rightarrow> 'w de_state \<Rightarrow> de_error fault + 'w de_state" where
  "de_set_upgrade_delay e admin delay_seconds s =
     map_err (\<lambda>_. DE_NotAuthorized) (set_upgrade_delay e admin delay_seconds ''deal_escrow'' s)"

fun de_propose_error :: "ug_error \<Rightarrow> de_error" where
  "de_propose_error UG_NotAuthorized = DE_NotAuthorized"
| "de_propose_error UG_UpgradeAlreadyPending = DE_UpgradeAlreadyPending"
| "de_propose_error _ = DE_NotAuthorized"

definition de_propose_upgrade ::
  "env \<Rightarrow> address \<Rightarrow> bytes32 \<Rightarrow> 'w de_state \<Rightarrow> de_error fault + 'w de_state" where
  "de_propose_upgrade e admin new_wasm_hash s =
     map_err de_propose_error (propose_upgrade e admin new_wasm_hash 0 None ''deal_escrow'' s)"

fun de_execute_error :: "ug_error \<Rightarrow> de_error" where
  "de_execute_error UG_NotAuthorized = DE_NotAuthorized"
| "de_execute_error UG_NoPendingUpgrade = DE_NoUpgradePending"
| "de_execute_error UG_UpgradeDelayNotElapsed = DE_UpgradeDelayNotMet"
| "de_execute_error _ = DE_NotAuthorized"

definition de_execute_upgrade ::
  "env \<Rightarrow> address \<Rightarrow> bytes32 \<Rightarrow> 'w de_state \<Rightarrow> de_error fault + 'w de_state" where
  "de_execute_upgrade e admin new_wasm_hash s =
     map_err de_execute_error (execute_upgrade e admin new_wasm_hash ''deal_escrow'' s)"

definition de_emergency_upgrade ::
  "env \<Rightarrow> address \<Rightarrow> bytes32 \<Rightarrow> 'w de_state \<Rightarrow> de_error fault + 'w de_state" where
  "de_emergency_upgrade e admin new_wasm_hash s =
     map_err (\<lambda>_. DE_NotAuthorized)
       (emergency_upgrade e admin new_wasm_hash 0 None ''deal_escrow'' True s)"

text \<open>Unlike the staking pool's, this \<open>cancel_upgrade\<close> leaves \<open>PendingUpgradeVersion\<close> in place.\<close>

definition de_cancel_upgrade :: "env \<Rightarrow> address \<Rightarrow> 'w de_state \<Rightarrow> de_error fault + 'w de_state" where
  "de_cancel_upgrade e admin s =
     bindE (de_get_admin s) (\<lambda>current_admin.
     bindE (require_admin_permission e current_admin admin ''cancel_upgrade'' DE_NotAuthorized s) (\<lambda>_.
     bindE (ok_or (ug_pending_hash s) DE_NoUpgradePending) (\<lambda>hash.
     Inr (publish [VSym ''deal_escrow'', VSym ''cancel_upgrade''] [VAddr admin, VBytes hash]
            (s\<lparr>ug_pending_hash := None, ug_pending_at := None\<rparr>)))))"

section \<open>Circuit breaker\<close>

definition freeze :: "env \<Rightarrow> address \<Rightarrow> 'w de_state \<Rightarrow> de_error fault + 'w de_state" where
  "freeze e admin s =
     bindE (de_get_admin s) (\<lambda>current_admin.
     bindE (require_admin_permission e current_admin admin ''freeze'' DE_NotAuthorized s) (\<lambda>_.
     if get_circuit_breaker s = Frozen then Inl (Err DE_Frozen)
     else Inr (publish [VSym ''deal_escrow'', VSym ''freeze''] [VAddr admin, VNat (timestamp e)]
                 (s\<lparr>de_breaker := Some Frozen\<rparr>))))"

definition is_frozen :: "'w de_state \<Rightarrow> bool" where
  "is_frozen s \<longleftrightarrow> get_circuit_breaker s = Frozen"

definition propose_drain ::
  "env \<Rightarrow> address \<Rightarrow> bytes32 \<Rightarrow> 'w de_state \<Rightarrow> de_error fault + 'w de_state" where
  "propose_drain e admin drain_hash s =
     bindE (de_get_admin s) (\<lambda>current_admin.
     bindE (require_admin_permission e current_admin admin ''propose_drain'' DE_NotAuthorized s) (\<lambda>_.
     if get_circuit_breaker s \<noteq> Frozen then Inl (Err DE_InvalidGovernanceDrain)
     else Inr (publish [VSym ''deal_escrow'', VSym ''propose_drain'']
                 [VBytes drain_hash, VNat (timestamp e)]
                 (s\<lparr>de_drain_hash := Some drain_hash, de_drain_at := Some (timestamp e)\<rparr>))))"

definition execute_drain ::
  "env \<Rightarrow> address \<Rightarrow> bytes32 \<Rightarrow> 'w de_state \<Rightarrow> de_error fault + 'w de_state" where
  "execute_drain e admin drain_hash s =
     bindE (de_get_admin s) (\<lambda>current_admin.
     bindE (require_admin_permission e current_admin admin ''execute_drain'' DE_NotAuthorized s) (\<lambda>_.
     bindE (ok_or (de_drain_hash s) DE_NoPendingRelease) (\<lambda>pending_hash.
     if pending_hash \<noteq> drain_hash then Inl (Err DE_NoPendingRelease)
     else
     bindE (ok_or (de_drain_at s) DE_NoPendingRelease) (\<lambda>proposed_at.
     bindE (ck_u64 (proposed_at + get_recovery_delay_seconds s)) (\<lambda>ready_at.
     if timestamp e < ready_at then Inl (Err DE_RecoveryDelayNotMet)
     else if get_circuit_breaker s \<noteq> Frozen then Inl (Err DE_InvalidGovernanceDrain)
     else Inr (publish [VSym ''deal_escrow'', VSym ''execute_drain'']
                 [VAddr admin, VBytes drain_hash, VNat (timestamp e)]
                 (s\<lparr>de_drain_hash := None, de_drain_at := None, de_breaker := Some Unfrozen\<rparr>)))))))"

definition set_recovery_delay ::
  "env \<Rightarrow> address \<Rightarrow> nat \<Rightarrow> 'w de_state \<Rightarrow> de_error fault + 'w de_state" where
  "set_recovery_delay e admin delay_seconds s =
     bindE (de_get_admin s) (\<lambda>current_admin.
     bindE (require_admin_permission e current_admin admin ''set_recovery_delay'' DE_NotAuthorized s) (\<lambda>_.
     Inr (publish [VSym ''deal_escrow'', VSym ''set_recovery_delay''] [VNat delay_seconds]
            (s\<lparr>de_recovery_delay := Some delay_seconds\<rparr>))))"

definition get_circuit_breaker_state :: "'w de_state \<Rightarrow> nat" where
  "get_circuit_breaker_state s = breaker_code (get_circuit_breaker s)"

section \<open>Deal lifecycle\<close>

definition get_deal_lifecycle :: "string \<Rightarrow> 'w de_state \<Rightarrow> deal_lifecycle" where
  "get_deal_lifecycle d s = unwrap_or (de_lifecycle s d) Draft"

definition set_deal_lifecycle :: "string \<Rightarrow> deal_lifecycle \<Rightarrow> 'w de_state \<Rightarrow> 'w de_state" where
  "set_deal_lifecycle d status s = s\<lparr>de_lifecycle := (de_lifecycle s)(d \<mapsto> status)\<rparr>"

definition activate_deal ::
  "env \<Rightarrow> address \<Rightarrow> string \<Rightarrow> 'w de_state \<Rightarrow> de_error fault + 'w de_state" where
  "activate_deal e admin deal_id s =
     bindE (de_require_not_paused s) (\<lambda>_.
     bindE (require_non_empty_string deal_id) (\<lambda>_.
     bindE (de_get_admin s) (\<lambda>current_admin.
     bindE (require_admin_permission e current_admin admin ''activate_deal'' DE_NotAuthorized s) (\<lambda>_.
     if get_deal_lifecycle deal_id s \<noteq> Draft then Inl (Err DE_InvalidDealTransition)
     else Inr (publish [VSym ''deal_escrow'', VSym ''activate_deal''] [VStr deal_id, VAddr admin]
                 (set_deal_lifecycle deal_id Active s))))))"

definition complete_deal ::
  "env \<Rightarrow> address \<Rightarrow> string \<Rightarrow> 'w de_state \<Rightarrow> de_error fault + 'w de_state" where
  "complete_deal e admin deal_id s =
     bindE (de_require_not_paused s) (\<lambda>_.
     bindE (require_non_empty_string deal_id) (\<lambda>_.
     bindE (de_get_admin s) (\<lambda>current_admin.
     bindE (require_admin_permission e current_admin admin ''complete_deal'' DE_NotAuthorized s) (\<lambda>_.
     if get_deal_lifecycle deal_id s \<noteq> Active then Inl (Err DE_InvalidDealTransition)
     else Inr (publish [VSym ''deal_escrow'', VSym ''complete_deal''] [VStr deal_id, VAddr admin]
                 (set_deal_lifecycle deal_id Completed s))))))"

definition default_deal ::
  "env \<Rightarrow> address \<Rightarrow> string \<Rightarrow> 'w de_state \<Rightarrow> de_error fault + 'w de_state" where
  "default_deal e admin deal_id s =
     bindE (de_require_not_paused s) (\<lambda>_.
     bindE (require_non_empty_string deal_id) (\<lambda>_.
     bindE (de_get_admin s) (\<lambda>current_admin.
     bindE (require_admin_permission e current_admin admin ''default_deal'' DE_NotAuthorized s) (\<lambda>_.
     if get_deal_lifecycle deal_id s \<noteq> Active then Inl (Err DE_InvalidDealTransition)
     else Inr (publish [VSym ''deal_escrow'', VSym ''default_deal''] [VStr deal_id, VAddr admin]
                 (set_deal_lifecycle deal_id Defaulted s))))))"

section \<open>All entry points\<close>

datatype de_call =
    DE_Init address address address address
  | DE_Deposit address string int
  | DE_Release address string address int address int address int string string
  | DE_ConfigureWindows address nat nat
  | DE_SetResolver address address
  | DE_Migrate address nat "string list"
  | DE_Request address string address int string string
  | DE_Challenge address string string
  | DE_Resolve address string settlement_outcome string
  | DE_SettleTimeout string
  | DE_DisputeTimeout string
  | DE_Pause address
  | DE_Unpause address
  | DE_SetGuardian address address
  | DE_SetUpgradeDelay address nat
  | DE_ProposeUpgrade address bytes32
  | DE_ExecuteUpgrade address bytes32
  | DE_EmergencyUpgrade address bytes32
  | DE_CancelUpgrade address
  | DE_Freeze address
  | DE_ProposeDrain address bytes32
  | DE_ExecuteDrain address bytes32
  | DE_SetRecoveryDelay address nat
  | DE_Activate address string
  | DE_Complete address string
  | DE_Default address string

datatype de_any_error = DE_Contract de_error | DE_Pausable pausable_error

fun de_exec ::
  "'w token_if \<Rightarrow> host_crypto \<Rightarrow> env \<Rightarrow> de_call \<Rightarrow> 'w de_state \<Rightarrow> de_any_error fault + 'w de_state" where
  "de_exec tk hc e (DE_Init a p t r) s = map_err DE_Contract (de_init a p t r s)"
| "de_exec tk hc e (DE_Deposit f d n) s = map_err DE_Contract (de_deposit tk e f d n s)"
| "de_exec tk hc e (DE_Release c d to n1 a2 n2 a3 n3 src ref) s =
     map_err DE_Contract (drop_result (de_release tk hc e c d to n1 a2 n2 a3 n3 src ref s))"
| "de_exec tk hc e (DE_ConfigureWindows a c d) s = map_err DE_Contract (configure_dispute_windows e a c d s)"
| "de_exec tk hc e (DE_SetResolver a r) s = map_err DE_Contract (set_resolver e a r s)"
| "de_exec tk hc e (DE_Migrate a v ds) s = map_err DE_Contract (migrate_storage_schema e a v ds s)"
| "de_exec tk hc e (DE_Request c d to n src ref) s = map_err DE_Contract (request_rent_release e c d to n src ref s)"
| "de_exec tk hc e (DE_Challenge c d ref) s = map_err DE_Contract (challenge_rent_release e c d ref s)"
| "de_exec tk hc e (DE_Resolve c d out ref) s = map_err DE_Contract (resolve_rent_dispute tk hc e c d out ref s)"
| "de_exec tk hc e (DE_SettleTimeout d) s = map_err DE_Contract (settle_rent_release_timeout tk hc e d s)"
| "de_exec tk hc e (DE_DisputeTimeout d) s = map_err DE_Contract (settle_dispute_timeout tk hc e d s)"
| "de_exec tk hc e (DE_SetGuardian a g) s = map_err DE_Contract (de_set_guardian e a g s)"
| "de_exec tk hc e (DE_SetUpgradeDelay a d) s = map_err DE_Contract (de_set_upgrade_delay e a d s)"
| "de_exec tk hc e (DE_ProposeUpgrade a h) s = map_err DE_Contract (de_propose_upgrade e a h s)"
| "de_exec tk hc e (DE_ExecuteUpgrade a h) s = map_err DE_Contract (de_execute_upgrade e a h s)"
| "de_exec tk hc e (DE_EmergencyUpgrade a h) s = map_err DE_Contract (de_emergency_upgrade e a h s)"
| "de_exec tk hc e (DE_CancelUpgrade a) s = map_err DE_Contract (de_cancel_upgrade e a s)"
| "de_exec tk hc e (DE_Freeze a) s = map_err DE_Contract (freeze e a s)"
| "de_exec tk hc e (DE_ProposeDrain a h) s = map_err DE_Contract (propose_drain e a h s)"
| "de_exec tk hc e (DE_ExecuteDrain a h) s = map_err DE_Contract (execute_drain e a h s)"
| "de_exec tk hc e (DE_SetRecoveryDelay a d) s = map_err DE_Contract (set_recovery_delay e a d s)"
| "de_exec tk hc e (DE_Activate a d) s = map_err DE_Contract (activate_deal e a d s)"
| "de_exec tk hc e (DE_Complete a d) s = map_err DE_Contract (complete_deal e a d s)"
| "de_exec tk hc e (DE_Default a d) s = map_err DE_Contract (default_deal e a d s)"
| "de_exec tk hc e (DE_Pause a) s = map_err DE_Pausable (de_pause e a s)"
| "de_exec tk hc e (DE_Unpause a) s = map_err DE_Pausable (de_unpause e a s)"

end
