(* ===== verification/DealEscrowProps.thy ===== *)
theory DealEscrowProps
  imports DealEscrow
begin

text \<open>
  The deal escrow's books and properties: per-deal accounting, custody of the token, who is paid
  when a release settles, the circuit breaker, the deal lifecycle, and the paths that get stuck.
\<close>

section \<open>What a successful operation did\<close>

definition deal_ok :: "deal_state \<Rightarrow> bool" where
  "deal_ok st \<longleftrightarrow> 0 \<le> locked_amount st \<and> pending_payout st = locked_amount st \<and>
     locked_amount st \<le> total_balance st"

lemma assert_deal_invariants_Inr_iff [outcome_simps]:
  "assert_deal_invariants st = Inr u \<longleftrightarrow> deal_ok st"
  by (auto simp: assert_deal_invariants_def deal_ok_def)

lemma de_gates_Inr_iff [outcome_simps]:
  "de_require_not_paused s = Inr u \<longleftrightarrow> \<not> get_paused s"
  "de_require_valid_amount n = Inr u \<longleftrightarrow> 0 < n"
  "require_non_empty_string d = Inr u \<longleftrightarrow> d \<noteq> []"
  "de_get_admin s = Inr a \<longleftrightarrow> ug_admin s = Some a"
  "de_get_operator s = Inr a \<longleftrightarrow> de_operator s = Some a"
  "de_get_token s = Inr a \<longleftrightarrow> de_token s = Some a"
  by (auto simp: de_require_not_paused_def de_require_valid_amount_def
      require_non_empty_string_def de_get_admin_def de_get_operator_def de_get_token_def
      outcome_simps)

lemma require_not_frozen_Inr_iff [outcome_simps]:
  "require_not_frozen b s = Inr u \<longleftrightarrow>
     get_circuit_breaker s = Unfrozen \<or> b \<and> get_circuit_breaker s = Frozen"
  by (cases "get_circuit_breaker s") (auto simp: require_not_frozen_def)

lemma enter_nonreentrant_Inr_iff [outcome_simps]:
  "enter_nonreentrant s = Inr s' \<longleftrightarrow>
     de_reentrancy s \<noteq> Some True \<and> s' = s\<lparr>de_reentrancy := Some True\<rparr>"
  by (auto simp: enter_nonreentrant_def outcome_simps de_put_lock_def unwrap_or_False_iff)

lemma de_deposit_Inr:
  fixes s :: "'w de_state"
  assumes "de_deposit tk e from d n s = Inr s'"
  obtains token w where
    "\<not> get_paused s" and "0 < n" and "authorized e from" and "de_token s = Some token"
    and "tk_transfer tk token from (contract_addr e) n (world s) = Some w"
    and "deal_ok ((get_deal_state d s)\<lparr>total_balance := get_deal_balance d s + n\<rparr>)"
    and "s' = s\<lparr>world := w, de_reentrancy := Some False,
        de_balance := (de_balance s)(d \<mapsto> get_deal_balance d s + n),
        de_depositor := (de_depositor s)(d \<mapsto> unwrap_or (de_depositor s d) from),
        de_deal_state := (de_deal_state s)(d \<mapsto>
          (get_deal_state d s)\<lparr>total_balance := get_deal_balance d s + n\<rparr>),
        events := events s @ [([VSym ''deal_escrow'', VSym ''deposit''],
          [VStr d, VAddr from, VInt n])]\<rparr>"
proof -
  let ?b = "get_deal_balance d s + n"
  have same:
    "(get_deal_state d (s\<lparr>world := w, de_reentrancy := r, de_balance := m\<rparr>))\<lparr>total_balance := b\<rparr> =
       (get_deal_state d s)\<lparr>total_balance := b\<rparr>"
    "(get_deal_state d (s\<lparr>world := w, de_reentrancy := r, de_balance := m, de_depositor := q\<rparr>))
       \<lparr>total_balance := b\<rparr> = (get_deal_state d s)\<lparr>total_balance := b\<rparr>"
    for w r m q b
    by (simp_all add: get_deal_state_def split: option.splits)
  from assms have "\<exists>token w.
    \<not> get_paused s \<and> 0 < n \<and> authorized e from \<and> de_token s = Some token \<and>
    tk_transfer tk token from (contract_addr e) n (world s) = Some w \<and>
    deal_ok ((get_deal_state d s)\<lparr>total_balance := ?b\<rparr>) \<and>
    s' = s\<lparr>world := w, de_reentrancy := Some False,
        de_balance := (de_balance s)(d \<mapsto> ?b),
        de_depositor := (de_depositor s)(d \<mapsto> unwrap_or (de_depositor s d) from),
        de_deal_state := (de_deal_state s)(d \<mapsto> (get_deal_state d s)\<lparr>total_balance := ?b\<rparr>),
        events := events s @ [([VSym ''deal_escrow'', VSym ''deposit''],
          [VStr d, VAddr from, VInt n])]\<rparr>"
    by (cases "de_depositor s d")
      (auto simp: de_deposit_def outcome_simps Let_def same host_simps get_deal_balance_def
        put_deal_balance_def set_deal_depositor_if_missing_def set_deal_state_def
        exit_nonreentrant_def exit_lock_def de_put_lock_def fun_upd_idem)
  then obtain token w where h: "\<not> get_paused s" "0 < n" "authorized e from" "de_token s = Some token"
    "tk_transfer tk token from (contract_addr e) n (world s) = Some w"
    "deal_ok ((get_deal_state d s)\<lparr>total_balance := ?b\<rparr>)"
    "s' = s\<lparr>world := w, de_reentrancy := Some False,
        de_balance := (de_balance s)(d \<mapsto> ?b),
        de_depositor := (de_depositor s)(d \<mapsto> unwrap_or (de_depositor s d) from),
        de_deal_state := (de_deal_state s)(d \<mapsto> (get_deal_state d s)\<lparr>total_balance := ?b\<rparr>),
        events := events s @ [([VSym ''deal_escrow'', VSym ''deposit''],
          [VStr d, VAddr from, VInt n])]\<rparr>" by blast
  show thesis by (rule that [OF h])
qed

lemma pay_if_positive_Inr_iff [outcome_simps]:
  "pay_if_positive tk token from to n s = Inr s' \<longleftrightarrow>
     (if 0 < n then \<exists>w. tk_transfer tk token from to n (world s) = Some w \<and> s' = s\<lparr>world := w\<rparr>
      else s' = s)"
  by (auto simp: pay_if_positive_def outcome_simps)

text \<open>A successful payout leg changes the world only, and costs the payer at most the amount.\<close>

lemma pay_if_positive_cost:
  assumes "pay_if_positive tk token self to n s = Inr s'" and "0 \<le> n"
  shows "s' = s\<lparr>world := world s'\<rparr> \<and>
    (sep41 tk \<longrightarrow> holding tk token self s - n \<le> holding tk token self s')"
  using assms sep41D [of tk token self to n "world s" "world s'"]
  by (auto simp: outcome_simps holding_def moved_def split: if_splits)

lemma de_release_Inr:
  assumes "de_release tk hc e c d to n1 a2 n2 a3 n3 src ref s = Inr (r, s')"
  shows "\<not> get_paused s \<and> get_circuit_breaker s = Unfrozen \<and> r = get_deal_balance d s \<and> 0 < r \<and>
    r = n1 + n2 + n3 \<and> 0 \<le> n1 \<and> 0 \<le> n2 \<and> 0 \<le> n3 \<and>
    authorized e c \<and> (ug_admin s = Some c \<or> de_operator s = Some c) \<and>
    (\<exists>token w. de_token s = Some token \<and>
       (sep41 tk \<longrightarrow> tk_balance tk token (contract_addr e) (world s) - r \<le>
          tk_balance tk token (contract_addr e) w) \<and>
       s' = s\<lparr>world := w, de_reentrancy := Some False,
          de_balance := (de_balance s)(d \<mapsto> 0),
          de_deal_state := (de_deal_state s)(d \<mapsto>
            \<lparr>total_balance = 0, locked_amount = 0, pending_payout = 0\<rparr>),
          events := events s @ [([VSym ''deal_escrow'', VSym ''release''],
            [VStr d, VAddr to, VInt n1, VAddr a2, VInt n2, VAddr a3, VInt n3, VSym src,
             VBytes (generate_tx_id hc src ref)])]\<rparr>)"
proof -
  let ?st = "\<lparr>total_balance = 0, locked_amount = 0, pending_payout = 0\<rparr>"
  let ?s0 = "s\<lparr>de_balance := (de_balance s)(d \<mapsto> 0), de_deal_state := (de_deal_state s)(d \<mapsto> ?st),
    de_reentrancy := Some True\<rparr>"
  have zero: "st\<lparr>total_balance := 0, locked_amount := 0, pending_payout := 0\<rparr> = ?st" for st :: deal_state
    by (cases st) simp
  from assms have "\<not> get_paused s \<and> get_circuit_breaker s = Unfrozen \<and> r = get_deal_balance d s \<and>
      0 < r \<and> r = n1 + n2 + n3 \<and> 0 \<le> n1 \<and> 0 \<le> n2 \<and> 0 \<le> n3 \<and>
      authorized e c \<and> (ug_admin s = Some c \<or> de_operator s = Some c) \<and>
      (\<exists>token s1 s2 s3. de_token s = Some token \<and>
        pay_if_positive tk token (contract_addr e) to n1 ?s0 = Inr s1 \<and>
        pay_if_positive tk token (contract_addr e) a2 n2 s1 = Inr s2 \<and>
        pay_if_positive tk token (contract_addr e) a3 n3 s2 = Inr s3 \<and>
        s' = publish [VSym ''deal_escrow'', VSym ''release'']
          [VStr d, VAddr to, VInt n1, VAddr a2, VInt n2, VAddr a3, VInt n3, VSym src,
           VBytes (generate_tx_id hc src ref)] (exit_nonreentrant s3))"
    unfolding de_release_def Let_def bindE_Inr_iff
    by (auto simp: zero put_deal_balance_def set_deal_state_def outcome_simps not_less not_le
        simp del: pay_if_positive_Inr_iff split: if_splits)
  then obtain token s1 s2 s3 where r: "\<not> get_paused s" "get_circuit_breaker s = Unfrozen"
      "r = get_deal_balance d s" "0 < r" "r = n1 + n2 + n3" "0 \<le> n1" "0 \<le> n2" "0 \<le> n3"
      "authorized e c" "ug_admin s = Some c \<or> de_operator s = Some c" "de_token s = Some token"
    and p: "pay_if_positive tk token (contract_addr e) to n1 ?s0 = Inr s1"
      "pay_if_positive tk token (contract_addr e) a2 n2 s1 = Inr s2"
      "pay_if_positive tk token (contract_addr e) a3 n3 s2 = Inr s3"
    and s': "s' = publish [VSym ''deal_escrow'', VSym ''release'']
          [VStr d, VAddr to, VInt n1, VAddr a2, VInt n2, VAddr a3, VInt n3, VSym src,
           VBytes (generate_tx_id hc src ref)] (exit_nonreentrant s3)" by blast
  note c = pay_if_positive_cost [OF p(1) r(6)] pay_if_positive_cost [OF p(2) r(7)]
    pay_if_positive_cost [OF p(3) r(8)]
  have s3: "s3 = ?s0\<lparr>world := world s3\<rparr>"
    using c by (metis (no_types, lifting) host.fold_congs(2) host.surjective host.update_convs(2))
  have cost: "sep41 tk \<longrightarrow> tk_balance tk token (contract_addr e) (world s) - r \<le>
      tk_balance tk token (contract_addr e) (world s3)"
    using c r(5) by (auto simp: holding_def)
  obtain w where w: "s3 = ?s0\<lparr>world := w\<rparr>" using s3 by blast
  show ?thesis
    using r cost unfolding s' w
    by (intro conjI exI [of _ token] exI [of _ w])
      (simp_all add: host_simps exit_nonreentrant_def exit_lock_def de_put_lock_def)
qed


text \<open>The settlement pays the requested amount to the party the outcome names.\<close>

definition settle_recipient :: "settlement_outcome \<Rightarrow> string \<Rightarrow> 'w de_state \<Rightarrow> address option" where
  "settle_recipient outcome d s = (case outcome of
      ReleaseToRecipient \<Rightarrow> map_option rr_to (de_pending s d)
    | RefundToDepositor \<Rightarrow> de_depositor s d)"

definition settled_event ::
  "host_crypto \<Rightarrow> string \<Rightarrow> rent_release \<Rightarrow> address \<Rightarrow> settlement_outcome \<Rightarrow> string \<Rightarrow> bool \<Rightarrow> event" where
  "settled_event hc d p rcp outcome ref byr =
     ([VSym ''deal_escrow'', VSym ''rent_release_settled''],
      [VStr d, VAddr rcp, VInt (rr_amount p), VNat (outcome_code outcome),
       VBytes (generate_tx_id hc (rr_external_ref_source p) ref), VBool byr])"

lemma settle_release_inner_Inr:
  assumes "settle_release_inner tk hc e d outcome ref byr s = Inr s'"
  obtains p rcp token w where
    "de_pending s d = Some p" and "settle_recipient outcome d s = Some rcp"
    and "de_depositor s d \<noteq> None" and "de_token s = Some token"
    and "locked_amount (get_deal_state d s) = rr_amount p"
    and "tk_transfer tk token (contract_addr e) rcp (rr_amount p) (world s) = Some w"
    and "deal_ok \<lparr>total_balance = total_balance (get_deal_state d s) - rr_amount p,
        locked_amount = 0, pending_payout = 0\<rparr>"
    and "s' = s\<lparr>world := w, de_reentrancy := Some False,
        de_deal_state := (de_deal_state s)(d \<mapsto>
          \<lparr>total_balance = total_balance (get_deal_state d s) - rr_amount p,
           locked_amount = 0, pending_payout = 0\<rparr>),
        de_balance := (de_balance s)(d \<mapsto> total_balance (get_deal_state d s) - rr_amount p),
        de_pending := (de_pending s)(d := None),
        de_dispute := (de_dispute s)(d := None),
        events := events s @ [settled_event hc d p rcp outcome ref byr]\<rparr>"
proof -
  let ?t = "\<lambda>p. total_balance (get_deal_state d s) - rr_amount p"
  have zero: "st\<lparr>total_balance := t, locked_amount := 0, pending_payout := 0\<rparr> =
      \<lparr>total_balance = t, locked_amount = 0, pending_payout = 0\<rparr>" for st :: deal_state and t
    by (cases st) simp
  from assms have "\<exists>p rcp token w. de_pending s d = Some p \<and>
    settle_recipient outcome d s = Some rcp \<and> de_depositor s d \<noteq> None \<and> de_token s = Some token \<and>
    locked_amount (get_deal_state d s) = rr_amount p \<and>
    tk_transfer tk token (contract_addr e) rcp (rr_amount p) (world s) = Some w \<and>
    deal_ok \<lparr>total_balance = ?t p, locked_amount = 0, pending_payout = 0\<rparr> \<and>
    s' = s\<lparr>world := w, de_reentrancy := Some False,
        de_deal_state := (de_deal_state s)(d \<mapsto>
          \<lparr>total_balance = ?t p, locked_amount = 0, pending_payout = 0\<rparr>),
        de_balance := (de_balance s)(d \<mapsto> ?t p),
        de_pending := (de_pending s)(d := None),
        de_dispute := (de_dispute s)(d := None),
        events := events s @ [settled_event hc d p rcp outcome ref byr]\<rparr>"
    by (cases outcome; cases "de_dispute s d")
      (auto simp: settle_release_inner_def outcome_simps Let_def zero host_simps
        settle_recipient_def settled_event_def put_deal_balance_def set_deal_state_def clear_pending_release_def
        set_dispute_def clear_dispute_def exit_nonreentrant_def exit_lock_def de_put_lock_def
        fun_upd_idem split: if_splits)
  then obtain p rcp token w where h: "de_pending s d = Some p"
    "settle_recipient outcome d s = Some rcp" "de_depositor s d \<noteq> None" "de_token s = Some token"
    "locked_amount (get_deal_state d s) = rr_amount p"
    "tk_transfer tk token (contract_addr e) rcp (rr_amount p) (world s) = Some w"
    "deal_ok \<lparr>total_balance = ?t p, locked_amount = 0, pending_payout = 0\<rparr>"
    "s' = s\<lparr>world := w, de_reentrancy := Some False,
        de_deal_state := (de_deal_state s)(d \<mapsto>
          \<lparr>total_balance = ?t p, locked_amount = 0, pending_payout = 0\<rparr>),
        de_balance := (de_balance s)(d \<mapsto> ?t p),
        de_pending := (de_pending s)(d := None),
        de_dispute := (de_dispute s)(d := None),
        events := events s @ [settled_event hc d p rcp outcome ref byr]\<rparr>" by blast
  show thesis by (rule that [OF h])
qed

lemma request_rent_release_Inr:
  assumes "request_rent_release e c d to n src ref s = Inr s'"
  shows "0 < n \<and> de_pending s d = None \<and> deal_ok ((get_deal_state d s)
        \<lparr>locked_amount := n, pending_payout := n\<rparr>) \<and>
    s' = s\<lparr>de_deal_state := (de_deal_state s)(d \<mapsto>
          (get_deal_state d s)\<lparr>locked_amount := n, pending_payout := n\<rparr>),
        de_pending := (de_pending s)(d \<mapsto>
          \<lparr>rr_to = to, rr_amount = n, rr_requested_by = c, rr_requested_at = timestamp e,
           rr_challenge_end_at = timestamp e + get_challenge_window_seconds s,
           rr_external_ref_source = src, rr_external_ref = ref\<rparr>),
        events := events s @ [([VSym ''deal_escrow'', VSym ''rent_release_requested''],
          [VStr d, VAddr c, VInt n, VNat (timestamp e + get_challenge_window_seconds s)])]\<rparr>"
proof -
  have win: "get_challenge_window_seconds (s\<lparr>de_deal_state := m\<rparr>) = get_challenge_window_seconds s"
    for m by (simp add: get_challenge_window_seconds_def)
  from assms show ?thesis
    by (auto simp: request_rent_release_def outcome_simps Let_def host_simps
        set_deal_state_def set_pending_release_def win split: if_splits)
qed

section \<open>The books\<close>

text \<open>
  Every deal record is well formed and agrees with the deal's balance, balances are not negative,
  and a pending release has a positive amount.
\<close>

definition de_books :: "'w de_state \<Rightarrow> bool" where
  "de_books s \<longleftrightarrow> finite (dom (de_balance s)) \<and>
     (\<forall>d n. de_balance s d = Some n \<longrightarrow> 0 \<le> n) \<and>
     (\<forall>d st. de_deal_state s d = Some st \<longrightarrow> deal_ok st \<and> total_balance st = get_deal_balance d s) \<and>
     (\<forall>d p. de_pending s d = Some p \<longrightarrow> 0 < rr_amount p)"

lemma de_books_deal:
  assumes "de_books s"
  shows "deal_ok (get_deal_state d s) \<and> total_balance (get_deal_state d s) = get_deal_balance d s"
proof (cases "de_deal_state s d")
  case None
  then show ?thesis
    using assms by (cases "de_balance s d")
      (auto simp: get_deal_state_def de_books_def deal_ok_def get_deal_balance_def)
next
  case (Some st)
  with assms show ?thesis by (auto simp: get_deal_state_def de_books_def)
qed

lemma de_books_host [simp]:
  "de_books (s\<lparr>events := ev\<rparr>) = de_books s"
  "de_books (s\<lparr>world := w\<rparr>) = de_books s"
  "de_books (s\<lparr>ug_schema := v\<rparr>) = de_books s"
  "de_books (s\<lparr>events := ev, de_deal_state := m\<rparr>) = de_books (s\<lparr>de_deal_state := m\<rparr>)"
  by (simp_all add: de_books_def get_deal_balance_def)

text \<open>The calls that touch the accounting; all others leave it, the token and the world alone.\<close>

fun de_moves_money :: "de_call \<Rightarrow> bool" where
  "de_moves_money (DE_Init a p t r) = True"
| "de_moves_money (DE_Deposit f d n) = True"
| "de_moves_money (DE_Release c d to n1 a2 n2 a3 n3 src ref) = True"
| "de_moves_money (DE_Migrate a v ds) = True"
| "de_moves_money (DE_Request c d to n src ref) = True"
| "de_moves_money (DE_Resolve c d out ref) = True"
| "de_moves_money (DE_SettleTimeout d) = True"
| "de_moves_money (DE_DisputeTimeout d) = True"
| "de_moves_money _ = False"

definition de_same_money :: "'w de_state \<Rightarrow> 'w de_state \<Rightarrow> bool" where
  "de_same_money s s' \<longleftrightarrow>
     de_balance s' = de_balance s \<and> de_deal_state s' = de_deal_state s \<and>
     de_pending s' = de_pending s \<and> de_depositor s' = de_depositor s \<and>
     de_token s' = de_token s \<and> world s' = world s \<and> ug_schema s' = ug_schema s \<and>
     (ug_admin s' = None \<longleftrightarrow> ug_admin s = None)"

lemmas de_admin_defs = configure_dispute_windows_def set_resolver_def challenge_rent_release_def
  de_pause_def de_unpause_def de_set_guardian_def de_set_upgrade_delay_def de_propose_upgrade_def
  de_execute_upgrade_def de_emergency_upgrade_def de_cancel_upgrade_def freeze_def
  propose_drain_def execute_drain_def set_recovery_delay_def activate_deal_def complete_deal_def
  default_deal_def set_deal_lifecycle_def set_dispute_def clear_pending_def

lemma de_admin_same_money:
  assumes "de_exec tk hc e c s = Inr s'" and "\<not> de_moves_money c"
  shows "de_same_money s s'"
  using assms by (cases c) (auto simp: de_admin_defs de_same_money_def outcome_simps host_simps
      Let_def split: if_splits)

lemma de_same_money_books: "de_same_money s s' \<Longrightarrow> de_books s' = de_books s"
  by (simp add: de_same_money_def de_books_def get_deal_balance_def)

lemma de_init_books: "de_books s \<Longrightarrow> de_init a p t r s = Inr s' \<Longrightarrow> de_books s'"
  by (auto simp: de_init_def de_books_def get_deal_balance_def host_simps split: if_splits)

text \<open>Writing one deal's record, with or without its balance.\<close>

lemma de_books_upd:
  assumes "de_books s" and "deal_ok st"
    and "de_balance s' = (de_balance s)(d \<mapsto> total_balance st) \<or>
      de_balance s' = de_balance s \<and> total_balance st = get_deal_balance d s"
    and "de_deal_state s' = (de_deal_state s)(d \<mapsto> st)"
    and "\<And>d p. de_pending s' d = Some p \<Longrightarrow> 0 < rr_amount p"
  shows "de_books s'"
proof -
  have nonneg: "0 \<le> total_balance st" using assms(2) by (auto simp: deal_ok_def)
  have "finite (dom (de_balance s'))" and "\<forall>d n. de_balance s' d = Some n \<longrightarrow> 0 \<le> n"
    using assms(1,3) nonneg by (auto simp: de_books_def split: if_splits)
  moreover have "deal_ok st' \<and> total_balance st' = get_deal_balance d' s'"
    if "de_deal_state s' d' = Some st'" for d' st'
    using assms(1-4) that by (cases "d' = d") (auto simp: de_books_def get_deal_balance_def)
  ultimately show ?thesis using assms(5) by (simp add: de_books_def)
qed

lemma de_books_pending: "de_books s \<Longrightarrow> de_pending s d = Some p \<Longrightarrow> 0 < rr_amount p"
  by (simp add: de_books_def)

lemma de_deposit_books:
  assumes "de_books s" and "de_deposit tk e f d n s = Inr s'"
  shows "de_books s'"
  using assms(2)
proof (cases rule: de_deposit_Inr)
  case (1 token w)
  show ?thesis
    by (rule de_books_upd [OF assms(1) 1(6)]) (use assms(1) in \<open>auto simp: 1(7) dest: de_books_pending\<close>)
qed

lemma de_release_books:
  assumes "de_books s" and "de_release tk hc e c d to n1 a2 n2 a3 n3 src ref s = Inr (r, s')"
  shows "de_books s'"
proof -
  from de_release_Inr [OF assms(2)] obtain w ev where
    s': "s' = s\<lparr>world := w, de_reentrancy := Some False, de_balance := (de_balance s)(d \<mapsto> 0),
          de_deal_state := (de_deal_state s)(d \<mapsto>
            \<lparr>total_balance = 0, locked_amount = 0, pending_payout = 0\<rparr>), events := ev\<rparr>"
    by blast
  show ?thesis
    by (rule de_books_upd [OF assms(1), where d = d and
          st = "\<lparr>total_balance = 0, locked_amount = 0, pending_payout = 0\<rparr>"])
      (use assms(1) in \<open>auto simp: s' deal_ok_def dest: de_books_pending\<close>)
qed

lemma request_rent_release_books:
  assumes "de_books s" and "request_rent_release e c d to n src ref s = Inr s'"
  shows "de_books s'"
proof -
  let ?st = "(get_deal_state d s)\<lparr>locked_amount := n, pending_payout := n\<rparr>"
  note r = request_rent_release_Inr [OF assms(2)]
  have ok: "deal_ok ?st" using r by simp
  have fields: "de_balance s' = de_balance s" "de_deal_state s' = (de_deal_state s)(d \<mapsto> ?st)"
    using r by auto
  have "0 < rr_amount p" if "de_pending s' d' = Some p" for d' p
    using r that assms(1) by (auto dest: de_books_pending split: if_splits)
  then show ?thesis
    using de_books_upd [OF assms(1) ok, of s' d] fields de_books_deal [OF assms(1), of d] by simp
qed

lemma settle_release_inner_books:
  assumes "de_books s" and "settle_release_inner tk hc e d out ref byr s = Inr s'"
  shows "de_books s'"
  using assms(2)
proof (cases rule: settle_release_inner_Inr)
  case (1 p rcp token w)
  show ?thesis
    by (rule de_books_upd [OF assms(1) 1(7)])
      (use assms(1) in \<open>auto simp: 1(8) dest: de_books_pending split: if_splits\<close>)
qed

lemma migrate_loop_Inr:
  assumes "migrate_loop v ds s = Inr s'"
  shows "(de_books s \<longrightarrow> de_books s') \<and> s' = s\<lparr>de_deal_state := de_deal_state s'\<rparr>"
  using assms
proof (induction ds arbitrary: s)
  case (Cons d ds)
  let ?st = "\<lparr>total_balance = get_deal_balance d s,
      locked_amount = (if v = 2 then unwrap_or (de_legacy_locked s d) 0 else 0),
      pending_payout = (if v = 2 then unwrap_or (de_legacy_payout s d) 0 else 0)\<rparr>"
  from Cons.prems have ok: "deal_ok ?st"
    and rest: "migrate_loop v ds (set_deal_state d ?st s) = Inr s'"
    by (auto simp: outcome_simps Let_def)
  have "de_books s \<longrightarrow> de_books (set_deal_state d ?st s)"
    using ok by (auto simp: de_books_def set_deal_state_def get_deal_balance_def)
  with Cons.IH [OF rest] show ?case by (simp add: set_deal_state_def)
qed simp

lemma migrate_storage_schema_Inr:
  assumes "migrate_storage_schema e a v ds s = Inr s'"
  shows "(de_books s \<longrightarrow> de_books s') \<and> world s' = world s \<and> de_balance s' = de_balance s \<and>
    de_token s' = de_token s \<and> ug_admin s' = ug_admin s \<and> de_pending s' = de_pending s \<and>
    (ug_schema s = Some 3 \<longrightarrow> ug_schema s' = Some 3 \<and> de_deal_state s' = de_deal_state s)"
proof (cases "de_schema_version s = 3")
  case True
  with assms show ?thesis
    by (auto simp: migrate_storage_schema_def outcome_simps Let_def host_simps)
next
  case False
  then have schema: "ug_schema s \<noteq> Some 3" by (auto simp: de_schema_version_def)
  let ?ev = "events s @ [([VSym ''deal_escrow'', VSym ''migration_started''],
      [VNat v, VNat 3, VNat (length ds)])]"
  from assms False have "\<exists>s1. migrate_loop v ds (s\<lparr>events := ?ev\<rparr>) = Inr s1 \<and>
      s' = publish [VSym ''deal_escrow'', VSym ''migration_completed''] [VNat v, VNat 3]
        (s1\<lparr>ug_schema := Some 3\<rparr>)"
    by (auto simp: migrate_storage_schema_def outcome_simps Let_def publish_def split: if_splits)
  then obtain s1 where loop: "migrate_loop v ds (s\<lparr>events := ?ev\<rparr>) = Inr s1"
    and s': "s' = publish [VSym ''deal_escrow'', VSym ''migration_completed''] [VNat v, VNat 3]
        (s1\<lparr>ug_schema := Some 3\<rparr>)" by blast
  note l = migrate_loop_Inr [OF loop]
  obtain m where m: "s1 = s\<lparr>events := ?ev, de_deal_state := m\<rparr>"
    using l by blast
  have "de_books s \<longrightarrow> de_books (s\<lparr>de_deal_state := m\<rparr>)"
    using conjunct1 [OF l] by (simp add: m)
  then show ?thesis
    using schema unfolding s' m publish_def by simp
qed

lemma de_exec_books:
  assumes "de_books s" and "de_exec tk hc e c s = Inr s'"
  shows "de_books s'"
proof (cases "de_moves_money c")
  case True
  with assms show ?thesis
    by (cases c) (auto simp: outcome_simps resolve_rent_dispute_def settle_rent_release_timeout_def
        settle_dispute_timeout_def intro: de_init_books de_deposit_books de_release_books
        request_rent_release_books settle_release_inner_books
        dest: migrate_storage_schema_Inr split: if_splits)
next
  case False
  with assms de_same_money_books [OF de_admin_same_money] show ?thesis by blast
qed

definition de_fresh :: "'w \<Rightarrow> 'w de_state" where
  "de_fresh w = \<lparr>events = [], world = w, ug_admin = None, ug_guardian = None,
     ug_pending_hash = None, ug_pending_at = None, ug_pending_version = None, ug_version = None,
     ug_delay = None, ug_schema = None, ug_wasm = None, de_operator = None, de_resolver = None,
     de_challenge_window = None, de_dispute_timeout = None, de_token = None,
     de_receipt_contract = None, de_paused = None, de_balance = Map.empty,
     de_depositor = Map.empty, de_deal_state = Map.empty, de_lifecycle = Map.empty,
     de_pending = Map.empty, de_dispute = Map.empty, de_legacy_locked = Map.empty,
     de_legacy_payout = Map.empty, de_reentrancy = None, de_breaker = None, de_drain_hash = None,
     de_drain_at = None, de_recovery_delay = None\<rparr>"

lemma de_fresh_books: "de_books (de_fresh w)"
  by (simp add: de_books_def de_fresh_def)


interpretation de_machine: invariant_machine "de_exec tk hc" any_call world_moves de_books for tk hc
  by unfold_locales (auto simp: world_moves_def intro: de_exec_books)

text \<open>C6. In every state a history of calls can lead to from a fresh deployment, whatever the token
  does, each recorded deal has \<open>0 \<le> locked = pending \<le> total\<close>, its total is the deal's balance, and a
  pending release asks for a positive amount.\<close>

theorem escrow_books:
  assumes "reach (de_exec tk hc) any_call world_moves (de_fresh w) s"
    and "de_deal_state s d = Some st"
  shows "0 \<le> locked_amount st \<and> pending_payout st = locked_amount st \<and>
    locked_amount st \<le> total_balance st \<and> total_balance st = get_deal_balance d s \<and>
    (\<forall>p. de_pending s d = Some p \<longrightarrow> 0 < rr_amount p)"
proof -
  have books: "de_books s" by (rule de_machine.reach_inv [OF assms(1) de_fresh_books])
  then have "deal_ok st \<and> total_balance st = get_deal_balance d s"
    using de_books_deal [OF books, of d] assms(2) by (simp add: get_deal_state_def)
  with de_books_pending [OF books] show ?thesis by (auto simp: deal_ok_def)
qed

section \<open>Custody\<close>

definition de_owed :: "'w de_state \<Rightarrow> int" where
  "de_owed s = msum (\<lambda>_ n. n) (de_balance s)"

definition de_custody :: "'w token_if \<Rightarrow> address \<Rightarrow> 'w de_state \<Rightarrow> bool" where
  "de_custody tk token s \<longleftrightarrow> sep41 tk \<and> de_books s \<and> de_token s = Some token \<and> ug_admin s \<noteq> None"

lemma de_custody_world [simp]: "de_custody tk token (s\<lparr>world := w\<rparr>) = de_custody tk token s"
  by (simp add: de_custody_def)

lemma de_owed_world [simp]: "de_owed (s\<lparr>world := w\<rparr>) = de_owed s"
  by (simp add: de_owed_def)

definition de_covers :: "'w token_if \<Rightarrow> address \<Rightarrow> address \<Rightarrow> 'w de_state \<Rightarrow> 'w de_state \<Rightarrow> bool" where
  "de_covers tk token self s s' \<longleftrightarrow>
     de_owed s' - de_owed s \<le> holding tk token self s' - holding tk token self s \<and>
     de_token s' = Some token \<and> ug_admin s' \<noteq> None"

lemma de_owed_upd:
  assumes "de_books s" and "de_balance s' = (de_balance s)(d \<mapsto> n)"
  shows "de_owed s' = de_owed s + n - get_deal_balance d s"
  using assms by (simp add: de_owed_def de_books_def get_deal_balance_def msum_upd_default [where d = 0])

lemma de_deposit_covers:
  assumes "de_custody tk token s" and "host_env self e" and "de_deposit tk e f d n s = Inr s'"
  shows "de_covers tk token self s s'"
  using assms(3)
proof (cases rule: de_deposit_Inr)
  case (1 tok w)
  have c: "sep41 tk" "de_books s" "tok = token" "ug_admin s \<noteq> None" "contract_addr e = self" "f \<noteq> self"
    using assms(1,2) 1(3,4) by (auto simp: de_custody_def host_env_def)
  have "de_owed s' = de_owed s + n"
    using de_owed_upd [OF c(2), of s' d "get_deal_balance d s + n"] by (simp add: 1(7))
  moreover have "tk_balance tk token self w = tk_balance tk token self (world s) + n"
    using sep41D [OF c(1) 1(5), of self] c by (simp add: moved_simps)
  ultimately show ?thesis
    using c 1(4) by (simp add: de_covers_def holding_def 1(7))
qed

lemma de_release_covers:
  assumes "de_custody tk token s" and "host_env self e"
    and "de_release tk hc e c d to n1 a2 n2 a3 n3 src ref s = Inr (r, s')"
  shows "de_covers tk token self s s'"
proof -
  have c: "sep41 tk" "de_books s" "de_token s = Some token" "ug_admin s \<noteq> None" "contract_addr e = self"
    using assms(1,2) by (auto simp: de_custody_def host_env_def)
  from de_release_Inr [OF assms(3)] c obtain w ev st where
    r: "r = get_deal_balance d s"
    and cost: "tk_balance tk token self (world s) - r \<le> tk_balance tk token self w"
    and s': "s' = s\<lparr>world := w, de_reentrancy := Some False, de_balance := (de_balance s)(d \<mapsto> 0),
          de_deal_state := (de_deal_state s)(d \<mapsto> st), events := ev\<rparr>"
    by auto
  have "de_owed s' = de_owed s - r"
    using de_owed_upd [OF c(2), of s' d 0] by (simp add: s' r)
  then show ?thesis using cost c by (simp add: de_covers_def holding_def s')
qed

lemma settle_release_inner_covers:
  assumes "de_custody tk token s" and "host_env self e"
    and "settle_release_inner tk hc e d out ref byr s = Inr s'"
  shows "de_covers tk token self s s'"
  using assms(3)
proof (cases rule: settle_release_inner_Inr)
  case (1 p rcp tok w)
  have c: "sep41 tk" "de_books s" "tok = token" "ug_admin s \<noteq> None" "contract_addr e = self"
    using assms(1,2) 1(4) by (auto simp: de_custody_def host_env_def)
  have "0 < rr_amount p" by (rule de_books_pending [OF c(2) 1(1)])
  moreover have "de_owed s' = de_owed s - rr_amount p"
    using de_owed_upd [OF c(2), of s' d "total_balance (get_deal_state d s) - rr_amount p"]
      de_books_deal [OF c(2), of d] by (simp add: 1(8))
  moreover have "tk_balance tk token self (world s) - rr_amount p \<le> tk_balance tk token self w"
    using sep41D [OF c(1) 1(6), of self] c \<open>0 < rr_amount p\<close> by (simp add: moved_def)
  ultimately show ?thesis
    using c 1(4) by (simp add: de_covers_def holding_def 1(8))
qed

lemma de_exec_covers:
  assumes "de_custody tk token s" and "host_env self e" and "de_exec tk hc e c s = Inr s'"
  shows "de_covers tk token self s s'"
proof (cases "de_moves_money c")
  case False
  from de_admin_same_money [OF assms(3) this] assms(1) show ?thesis
    by (auto simp: de_same_money_def de_covers_def de_custody_def de_owed_def holding_def)
next
  case True
  then show ?thesis
  proof (cases c)
    case (DE_Migrate a v ds)
    with assms(3) have "migrate_storage_schema e a v ds s = Inr s'" by (simp add: outcome_simps)
    from migrate_storage_schema_Inr [OF this] assms(1) show ?thesis
      by (simp add: de_covers_def de_custody_def de_owed_def holding_def)
  next
    case (DE_Request cl d to n src ref)
    with assms(3) have "request_rent_release e cl d to n src ref s = Inr s'"
      by (simp add: outcome_simps)
    from request_rent_release_Inr [OF this] assms(1) show ?thesis
      by (auto simp: de_covers_def de_custody_def de_owed_def holding_def)
  next
    case (DE_Init a p t r)
    with assms show ?thesis by (auto simp: de_init_def de_custody_def outcome_simps)
  qed (use assms in \<open>auto simp: outcome_simps resolve_rent_dispute_def
      settle_rent_release_timeout_def settle_dispute_timeout_def intro: de_deposit_covers
      de_release_covers settle_release_inner_covers split: if_splits\<close>)
qed

definition at_escrow :: "address \<Rightarrow> env \<Rightarrow> 'op \<Rightarrow> bool" where
  "at_escrow self e c \<longleftrightarrow> host_env self e"

interpretation de_custodian:
  custodian "de_exec tk hc" "at_escrow self" tk token self 1 "de_custody tk token" de_owed
  for tk hc token self
proof
  fix s s' :: "'a de_state" and e c
  assume a: "de_custody tk token s" "at_escrow self e c" "de_exec tk hc e c s = Inr s'"
  then have cov: "de_covers tk token self s s'"
    by (intro de_exec_covers) (auto simp: at_escrow_def)
  then show "de_owed s' - de_owed s \<le> 1 * (holding tk token self s' - holding tk token self s)"
    by (simp add: de_covers_def)
  show "de_custody tk token s'"
    using cov a(1) de_exec_books [OF _ a(3)] by (simp add: de_covers_def de_custody_def)
qed simp_all

text \<open>C2. After initialisation, in every history of calls interleaved with other accounts' token
  transfers, the escrow's token balance covers the sum of all deal balances.\<close>

theorem escrow_solvent:
  assumes "sep41 tk" and "de_init admin operator token receipt (de_fresh w) = Inr s0"
    and "0 \<le> tk_balance tk token self w"
    and "reach (de_exec tk hc) (at_escrow self) (token_others tk token self) s0 s"
  shows "(\<Sum>d \<in> dom (de_balance s). get_deal_balance d s) \<le> holding tk token self s"
proof -
  have "de_books s0" by (rule de_init_books [OF de_fresh_books assms(2)])
  then have start: "de_custody tk token s0" "de_owed s0 \<le> holding tk token self s0"
    using assms(1,2,3) by (auto simp: de_init_def de_fresh_def host_simps de_custody_def
        de_owed_def holding_def)
  have "de_custody tk token s \<and> de_owed s \<le> 1 * holding tk token self s"
    by (rule de_custodian.solvent [OF assms(4)]) (use start in simp_all)
  then have "de_owed s \<le> holding tk token self s" by simp
  moreover have "de_owed s = (\<Sum>d \<in> dom (de_balance s). get_deal_balance d s)"
    unfolding de_owed_def msum_def by (rule sum.cong) (auto simp: get_deal_balance_def)
  ultimately show ?thesis by simp
qed


section \<open>Settlement\<close>

text \<open>Who may settle a pending release, when, and who is paid.\<close>

fun settle_rule :: "de_call \<Rightarrow> env \<Rightarrow> 'w de_state \<Rightarrow> rent_release \<Rightarrow> address \<Rightarrow> bool" where
  "settle_rule (DE_SettleTimeout d) e s p rcp \<longleftrightarrow>
     rcp = rr_to p \<and> de_dispute s d = None \<and> rr_challenge_end_at p \<le> timestamp e"
| "settle_rule (DE_DisputeTimeout d) e s p rcp \<longleftrightarrow>
     de_depositor s d = Some rcp \<and>
     (\<exists>r. de_dispute s d = Some r \<and> rd_opened_at r + get_dispute_timeout_seconds s \<le> timestamp e)"
| "settle_rule (DE_Resolve cl d out ref) e s p rcp \<longleftrightarrow>
     de_resolver s = Some cl \<and> authorized e cl \<and> de_dispute s d \<noteq> None \<and>
     (case out of ReleaseToRecipient \<Rightarrow> rcp = rr_to p
                | RefundToDepositor \<Rightarrow> de_depositor s d = Some rcp)"
| "settle_rule _ e s p rcp \<longleftrightarrow> False"

text \<open>The three settlement calls run the settlement under their rule.\<close>

definition settle_calls :: "string \<Rightarrow> address \<Rightarrow> settlement_outcome \<Rightarrow> string \<Rightarrow> de_call set" where
  "settle_calls d cl out ref = {DE_SettleTimeout d, DE_DisputeTimeout d, DE_Resolve cl d out ref}"

lemma settle_call_inner:
  assumes "c \<in> settle_calls d cl out ref" and "de_exec tk hc e c s = Inr s'"
  shows "\<exists>outcome r byr. settle_release_inner tk hc e d outcome r byr s = Inr s' \<and>
      (\<forall>p rcp. de_pending s d = Some p \<longrightarrow> settle_recipient outcome d s = Some rcp \<longrightarrow>
         settle_rule c e s p rcp)"
proof -
  from assms(1) consider "c = DE_SettleTimeout d" | "c = DE_DisputeTimeout d" | "c = DE_Resolve cl d out ref"
    by (auto simp: settle_calls_def)
  then show ?thesis
  proof cases
    case 1
    with assms(2) show ?thesis
      by (intro exI [of _ ReleaseToRecipient]) (auto simp: outcome_simps not_less
          settle_rent_release_timeout_def settle_recipient_def split: if_splits)
  next
    case 2
    with assms(2) show ?thesis
      by (intro exI [of _ RefundToDepositor]) (auto simp: outcome_simps not_less
          settle_dispute_timeout_def settle_recipient_def split: if_splits)
  next
    case 3
    with assms(2) show ?thesis
      by (intro exI [of _ out] exI [of _ ref] exI [of _ True])
        (auto simp: outcome_simps resolve_rent_dispute_def settle_recipient_def
          split: if_splits settlement_outcome.splits)
  qed
qed

text \<open>C4. A settlement pays exactly the amount of the pending release: to the recipient after an
  unchallenged window, to the depositor after an unresolved dispute has timed out, or as the
  resolver decides an open dispute; it lowers the deal's balance by that amount, clears the request
  and the dispute, and touches no other deal.\<close>

theorem settlement_pays:
  assumes "c \<in> settle_calls d cl out ref"
    and "de_exec tk hc e c s = Inr s'"
  shows "\<exists>p rcp token. de_pending s d = Some p \<and> de_token s = Some token \<and>
    settle_rule c e s p rcp \<and>
    tk_transfer tk token (contract_addr e) rcp (rr_amount p) (world s) = Some (world s') \<and>
    get_deal_balance d s' = total_balance (get_deal_state d s) - rr_amount p \<and>
    de_pending s' d = None \<and> de_dispute s' d = None \<and>
    (\<forall>d'. d' \<noteq> d \<longrightarrow> get_deal_balance d' s' = get_deal_balance d' s \<and>
       de_pending s' d' = de_pending s d' \<and> de_dispute s' d' = de_dispute s d')"
proof -
  from settle_call_inner [OF assms] obtain outcome r byr where inner: "settle_release_inner tk hc e d outcome r byr s = Inr s'"
    and rule: "\<And>p rcp. de_pending s d = Some p \<Longrightarrow> settle_recipient outcome d s = Some rcp \<Longrightarrow>
         settle_rule c e s p rcp" by blast
  from inner show ?thesis
  proof (cases rule: settle_release_inner_Inr)
    case (1 p rcp token w)
    show ?thesis
      using 1(1,4,6) rule [OF 1(1,2)]
      by (intro exI [of _ p] exI [of _ rcp] exI [of _ token]) (auto simp: 1(8) get_deal_balance_def)
  qed
qed

text \<open>Anybody can return the deposit of a challenged release once the dispute has timed out:
  in a well-formed escrow that is not paused, with the request still locked, the refund succeeds
  when the token pays.\<close>

theorem challenged_release_refundable:
  assumes "de_books s" and "\<not> get_paused s" and "de_reentrancy s \<noteq> Some True"
    and "d \<noteq> []" and "de_pending s d = Some p" and "locked_amount (get_deal_state d s) = rr_amount p"
    and "de_dispute s d = Some r" and "\<not> rd_resolved r" and "de_depositor s d = Some dep"
    and "rd_opened_at r + get_dispute_timeout_seconds s < 2 ^ 64"
    and "rd_opened_at r + get_dispute_timeout_seconds s \<le> timestamp e"
    and "get_deal_balance d s < 2 ^ 127" and "de_token s = Some token"
    and "tk_transfer tk token (contract_addr e) dep (rr_amount p) (world s) = Some w"
  shows "\<exists>s'. settle_dispute_timeout tk hc e d s = Inr s' \<and> world s' = w \<and>
    get_deal_balance d s' = get_deal_balance d s - rr_amount p"
proof -
  let ?st = "get_deal_state d s"
  have st: "deal_ok ?st" "total_balance ?st = get_deal_balance d s"
    using de_books_deal [OF assms(1)] by auto
  have amount: "0 < rr_amount p" by (rule de_books_pending [OF assms(1,5)])
  have num: "i128_ok (total_balance ?st - rr_amount p)"
    using st assms(6,12) amount by (auto simp: deal_ok_def i128_ok_def)
  have ok: "assert_deal_invariants (?st\<lparr>total_balance := total_balance ?st - rr_amount p,
      locked_amount := 0, pending_payout := 0\<rparr>) = Inr ()"
    using st assms(6) by (auto simp: outcome_simps deal_ok_def)
  have pend: "pending_payout ?st = rr_amount p" using st assms(6) by (simp add: deal_ok_def)
  have enter: "enter_nonreentrant s = Inr (s\<lparr>de_reentrancy := Some True\<rparr>)"
    using assms(3) by (simp add: outcome_simps)
  have bal: "total_balance ?st = get_deal_balance d s" by (rule st(2))
  have "\<exists>s'. settle_release_inner tk hc e d RefundToDepositor ref False s = Inr s' \<and>
      world s' = w \<and> get_deal_balance d s' = get_deal_balance d s - rr_amount p" for ref
    unfolding settle_release_inner_def Let_def
    using ok num
    by (simp add: assms(5,6,7,9,13,14) pend enter de_get_token_def token_transfer_def ck_i128_def
        exit_nonreentrant_def exit_lock_def de_put_lock_def set_deal_state_def put_deal_balance_def
        clear_pending_release_def set_dispute_def clear_dispute_def host_simps
        get_deal_balance_def [of _ "_\<lparr>events := _\<rparr>"] bal)
  then show ?thesis
    using assms(2,4,7,8,10,11)
    by (simp add: settle_dispute_timeout_def de_require_not_paused_def require_non_empty_string_def
        ck_u64_def)
qed

section \<open>Stuck releases\<close>

definition wedged :: "string \<Rightarrow> rent_release \<Rightarrow> 'w de_state \<Rightarrow> bool" where
  "wedged d p s \<longleftrightarrow> ug_schema s = Some 3 \<and> ug_admin s \<noteq> None \<and> de_pending s d = Some p \<and>
     0 < rr_amount p \<and> (\<exists>st. de_deal_state s d = Some st \<and> locked_amount st = 0)"

lemma wedged_settle: "wedged d p s \<Longrightarrow> settle_release_inner tk hc e d out ref byr s \<noteq> Inr s'"
  by (auto simp: wedged_def get_deal_state_def elim!: settle_release_inner_Inr)

lemma wedged_keep:
  assumes "wedged d p s" and "de_exec tk hc e c s = Inr s'"
  shows "wedged d p s'"
proof (cases "de_moves_money c")
  case False
  from de_admin_same_money [OF assms(2) this] assms(1) show ?thesis
    by (auto simp: de_same_money_def wedged_def)
next
  case True
  have settle: "wedged d p s'" if "settle_release_inner tk hc e d' out ref byr s = Inr s'" for d' out ref byr
  proof (cases "d' = d")
    case True
    with that wedged_settle [OF assms(1)] show ?thesis by blast
  next
    case False
    from that show ?thesis
    proof (cases rule: settle_release_inner_Inr)
      case (1 p' rcp token w)
      show ?thesis using assms(1) False by (simp add: wedged_def 1(8))
    qed
  qed
  from True show ?thesis
  proof (cases c)
    case (DE_Init a p' t r)
    with assms show ?thesis by (auto simp: de_init_def wedged_def outcome_simps)
  next
    case (DE_Deposit f d' n)
    with assms(2) have "de_deposit tk e f d' n s = Inr s'" by (simp add: outcome_simps)
    then show ?thesis
    proof (cases rule: de_deposit_Inr)
      case (1 token w)
      show ?thesis using assms(1) by (auto simp: wedged_def 1(7) get_deal_state_def)
    qed
  next
    case (DE_Release cl d' to n1 a2 n2 a3 n3 src ref)
    with assms(2) obtain r where
      "de_release tk hc e cl d' to n1 a2 n2 a3 n3 src ref s = Inr (r, s')"
      by (auto simp: outcome_simps)
    from de_release_Inr [OF this] assms(1) show ?thesis by (auto simp: wedged_def)
  next
    case (DE_Migrate a v ds)
    with assms(2) have "migrate_storage_schema e a v ds s = Inr s'" by (simp add: outcome_simps)
    from migrate_storage_schema_Inr [OF this] assms(1) show ?thesis by (simp add: wedged_def)
  next
    case (DE_Request cl d' to n src ref)
    with assms(2) have "request_rent_release e cl d' to n src ref s = Inr s'"
      by (simp add: outcome_simps)
    from request_rent_release_Inr [OF this] assms(1) show ?thesis by (auto simp: wedged_def)
  qed (use assms(2) settle in \<open>auto simp: outcome_simps resolve_rent_dispute_def
      settle_rent_release_timeout_def settle_dispute_timeout_def split: if_splits\<close>)
qed

interpretation de_wedged: invariant_machine "de_exec tk hc" any_call world_moves "wedged d p" for tk hc d p
proof
  fix s s' :: "'a de_state"
  show "wedged d p s \<Longrightarrow> world_moves s s' \<Longrightarrow> wedged d p s'"
    by (auto simp: world_moves_def wedged_def)
qed (rule wedged_keep)

text \<open>A direct \<open>release\<close> of a deal that has a pending rent release leaves the pending release
  behind with nothing locked for it; in every later state that request can neither be settled, by
  any of the three settlement paths, nor replaced by a new one.\<close>

theorem release_strands_pending:
  assumes "de_release tk hc e0 c0 d to n1 a2 n2 a3 n3 src ref s = Inr (r, s0)"
    and "de_pending s d = Some p" and "0 < rr_amount p" and "ug_schema s = Some 3" and "ug_admin s \<noteq> None"
    and "reach (de_exec tk hc) any_call world_moves s0 s1"
    and "c \<in> settle_calls d cl out ref' \<or> c = DE_Request cl d to' n src' ref'"
  shows "de_pending s1 d = Some p \<and> (\<exists>f. de_exec tk hc e c s1 = Inl f)"
proof -
  from de_release_Inr [OF assms(1)] assms(2-5) have "wedged d p s0" by (auto simp: wedged_def)
  then have w: "wedged d p s1" by (rule de_wedged.reach_inv [OF assms(6)])
  have "de_exec tk hc e c s1 \<noteq> Inr s'" for s'
  proof
    assume run: "de_exec tk hc e c s1 = Inr s'"
    from assms(7) show False
    proof
      assume "c \<in> settle_calls d cl out ref'"
      from settle_call_inner [OF this run] wedged_settle [OF w] show False by blast
    next
      assume "c = DE_Request cl d to' n src' ref'"
      with run have "request_rent_release e cl d to' n src' ref' s1 = Inr s'"
        by (simp add: outcome_simps)
      from request_rent_release_Inr [OF this] w show False by (simp add: wedged_def)
    qed
  qed
  then show ?thesis
    using w by (cases "de_exec tk hc e c s1") (auto simp: wedged_def)
qed


section \<open>What the accounting calls leave alone\<close>

definition de_same_rest :: "'w de_state \<Rightarrow> 'w de_state \<Rightarrow> bool" where
  "de_same_rest s s' \<longleftrightarrow> de_breaker s' = de_breaker s \<and> de_lifecycle s' = de_lifecycle s \<and>
     ug_pending_hash s' = ug_pending_hash s \<and> ug_wasm s' = ug_wasm s"

lemma settle_release_inner_rest:
  "settle_release_inner tk hc e d out ref byr s = Inr s' \<Longrightarrow> de_same_rest s s'"
  by (auto simp: de_same_rest_def elim!: settle_release_inner_Inr)

lemma migrate_loop_rest: "migrate_loop v ds s = Inr s' \<Longrightarrow> de_same_rest s s'"
  by (induction ds arbitrary: s)
    (auto simp: de_same_rest_def outcome_simps Let_def set_deal_state_def)

lemma de_money_same_rest:
  assumes "de_exec tk hc e c s = Inr s'" and "de_moves_money c"
  shows "de_same_rest s s'"
  using assms(2)
proof (cases c)
  case (DE_Deposit f d n)
  with assms(1) have "de_deposit tk e f d n s = Inr s'" by (simp add: outcome_simps)
  then show ?thesis by (auto simp: de_same_rest_def elim!: de_deposit_Inr)
next
  case (DE_Release cl d to n1 a2 n2 a3 n3 src ref)
  with assms(1) obtain r where
    "de_release tk hc e cl d to n1 a2 n2 a3 n3 src ref s = Inr (r, s')"
    by (auto simp: outcome_simps)
  from de_release_Inr [OF this] show ?thesis by (auto simp: de_same_rest_def)
next
  case (DE_Request cl d to n src ref)
  with assms(1) have "request_rent_release e cl d to n src ref s = Inr s'"
    by (simp add: outcome_simps)
  from request_rent_release_Inr [OF this] show ?thesis by (auto simp: de_same_rest_def)
next
  case (DE_Migrate a v ds)
  with assms(1) have "migrate_storage_schema e a v ds s = Inr s'" by (simp add: outcome_simps)
  then show ?thesis
    by (auto simp: migrate_storage_schema_def outcome_simps host_simps Let_def de_same_rest_def
        split: if_splits dest!: migrate_loop_rest)
next
  case (DE_Init a p t r)
  with assms(1) show ?thesis
    by (auto simp: de_init_def outcome_simps host_simps de_same_rest_def split: if_splits)
qed (use assms(1) in \<open>auto simp: outcome_simps resolve_rent_dispute_def
    settle_rent_release_timeout_def settle_dispute_timeout_def
    intro: settle_release_inner_rest split: if_splits\<close>)

section \<open>Circuit breaker\<close>

text \<open>While the escrow is frozen no direct release succeeds, and the only call that unfreezes
  it is an \<open>execute_drain\<close> of the admin, for the proposed hash, no earlier than the recovery delay
  after the proposal.\<close>

theorem frozen_until_recovery:
  assumes "is_frozen s" and "de_exec tk hc e c s = Inr s'"
  shows "(\<forall>cl d to n1 a2 n2 a3 n3 src ref. c \<noteq> DE_Release cl d to n1 a2 n2 a3 n3 src ref) \<and>
    (is_frozen s' \<or> (\<exists>a h at. c = DE_ExecuteDrain a h \<and> ug_admin s = Some a \<and> authorized e a \<and>
       de_drain_hash s = Some h \<and> de_drain_at s = Some at \<and>
       at + get_recovery_delay_seconds s \<le> timestamp e))"
proof (cases "de_moves_money c")
  case False
  show ?thesis
    using assms False by (cases c) (auto simp: de_admin_defs is_frozen_def get_circuit_breaker_def
        outcome_simps host_simps Let_def not_less split: if_splits)
next
  case True
  from de_money_same_rest [OF assms(2) True] assms(1) have "is_frozen s'"
    by (simp add: de_same_rest_def is_frozen_def get_circuit_breaker_def)
  moreover have "\<not> is_frozen s" if "c = DE_Release cl d to n1 a2 n2 a3 n3 src ref"
    for cl d to n1 a2 n2 a3 n3 src ref
  proof -
    from assms(2) that obtain r where
      "de_release tk hc e cl d to n1 a2 n2 a3 n3 src ref s = Inr (r, s')"
      by (auto simp: outcome_simps)
    from de_release_Inr [OF this] show ?thesis by (simp add: is_frozen_def)
  qed
  ultimately show ?thesis using assms(1) by blast
qed

lemma settle_inner_breaker:
  "settle_release_inner tk hc e d out ref byr (s\<lparr>de_breaker := b\<rparr>) =
     map_sum id (\<lambda>s'. s'\<lparr>de_breaker := b\<rparr>) (settle_release_inner tk hc e d out ref byr s)"
proof (cases "de_pending s d")
  case None
  then show ?thesis by (simp add: settle_release_inner_def)
next
  case pending: (Some p)
  show ?thesis
  proof (cases "de_depositor s d")
    case None
    with pending show ?thesis by (simp add: settle_release_inner_def)
  next
    case (Some dep)
    have st: "get_deal_state d (s\<lparr>de_breaker := b\<rparr>) = get_deal_state d s"
      by (simp add: get_deal_state_def get_deal_balance_def split: option.splits)
    show ?thesis
      using pending Some
      by (cases "de_token s"; cases "de_reentrancy s = Some True";
          cases "tk_transfer tk (the (de_token s)) (contract_addr e)
            (case out of ReleaseToRecipient \<Rightarrow> rr_to p | RefundToDepositor \<Rightarrow> dep) (rr_amount p) (world s)";
          cases "de_dispute s d")
        (simp_all add: settle_release_inner_def Let_def st de_get_token_def enter_nonreentrant_def
          enter_def de_put_lock_def token_transfer_def exit_nonreentrant_def exit_lock_def
          ck_i128_def assert_deal_invariants_def set_deal_state_def put_deal_balance_def
          clear_pending_release_def set_dispute_def clear_dispute_def host_simps
          unwrap_or_False_iff)
  qed
qed

text \<open>The settlement paths do not look at the circuit breaker: whatever its state, each of them
  fails or pays out exactly as it would in any other state of the breaker.  Freezing does not stop
  rent releases from being paid.\<close>

theorem settlement_ignores_breaker:
  "settle_rent_release_timeout tk hc e d (s\<lparr>de_breaker := b\<rparr>) =
     map_sum id (\<lambda>s'. s'\<lparr>de_breaker := b\<rparr>) (settle_rent_release_timeout tk hc e d s) \<and>
   settle_dispute_timeout tk hc e d (s\<lparr>de_breaker := b\<rparr>) =
     map_sum id (\<lambda>s'. s'\<lparr>de_breaker := b\<rparr>) (settle_dispute_timeout tk hc e d s) \<and>
   resolve_rent_dispute tk hc e c d out ref (s\<lparr>de_breaker := b\<rparr>) =
     map_sum id (\<lambda>s'. s'\<lparr>de_breaker := b\<rparr>) (resolve_rent_dispute tk hc e c d out ref s)"
proof -
  note defs = de_require_not_paused_def get_paused_def require_non_empty_string_def
    get_dispute_timeout_seconds_def ck_u64_def require_auth_def ensure_def
  have "settle_rent_release_timeout tk hc e d (s\<lparr>de_breaker := b\<rparr>) =
     map_sum id (\<lambda>s'. s'\<lparr>de_breaker := b\<rparr>) (settle_rent_release_timeout tk hc e d s)"
    by (cases "de_pending s d")
      (simp_all add: settle_rent_release_timeout_def settle_inner_breaker defs)
  moreover have "settle_dispute_timeout tk hc e d (s\<lparr>de_breaker := b\<rparr>) =
     map_sum id (\<lambda>s'. s'\<lparr>de_breaker := b\<rparr>) (settle_dispute_timeout tk hc e d s)"
    by (cases "de_dispute s d") (simp_all add: settle_dispute_timeout_def settle_inner_breaker defs)
  moreover have "resolve_rent_dispute tk hc e c d out ref (s\<lparr>de_breaker := b\<rparr>) =
     map_sum id (\<lambda>s'. s'\<lparr>de_breaker := b\<rparr>) (resolve_rent_dispute tk hc e c d out ref s)"
    by (cases "de_dispute s d"; cases "de_resolver s")
      (simp_all add: resolve_rent_dispute_def settle_inner_breaker defs)
  ultimately show ?thesis by blast
qed

section \<open>Lifecycle\<close>

lemma de_exec_lifecycle:
  assumes "de_exec tk hc e c s = Inr s'"
  shows "get_deal_lifecycle d s \<le> get_deal_lifecycle d s' \<and>
    (get_deal_lifecycle d s \<in> {Completed, Defaulted} \<longrightarrow>
       get_deal_lifecycle d s' = get_deal_lifecycle d s)"
proof -
  have "de_lifecycle s' = de_lifecycle s" if "de_moves_money c"
    using de_money_same_rest [OF assms that] by (simp add: de_same_rest_def)
  moreover have ?thesis if "\<not> de_moves_money c"
    using assms that
    by (cases c) (auto simp: de_admin_defs get_deal_lifecycle_def less_eq_deal_lifecycle_def
        outcome_simps host_simps Let_def split: if_splits)
  ultimately show ?thesis by (cases "de_moves_money c") (auto simp: get_deal_lifecycle_def)
qed

interpretation de_lifecycle: invariant_machine "de_exec tk hc" any_call world_moves
  "\<lambda>s. get_deal_lifecycle d s0 \<le> get_deal_lifecycle d s \<and>
     (get_deal_lifecycle d s0 \<in> {Completed, Defaulted} \<longrightarrow>
        get_deal_lifecycle d s = get_deal_lifecycle d s0)" for tk hc d s0
proof
  fix s s' :: "'a de_state" and e c
  assume "get_deal_lifecycle d s0 \<le> get_deal_lifecycle d s \<and>
     (get_deal_lifecycle d s0 \<in> {Completed, Defaulted} \<longrightarrow>
        get_deal_lifecycle d s = get_deal_lifecycle d s0)"
    and "de_exec tk hc e c s = Inr s'"
  with de_exec_lifecycle [of tk hc e c s s' d]
  show "get_deal_lifecycle d s0 \<le> get_deal_lifecycle d s' \<and>
     (get_deal_lifecycle d s0 \<in> {Completed, Defaulted} \<longrightarrow>
        get_deal_lifecycle d s' = get_deal_lifecycle d s0)" by auto
qed (auto simp: world_moves_def get_deal_lifecycle_def)

text \<open>A deal's lifecycle status only moves forward (draft, active, completed or defaulted), and a
  completed or defaulted deal keeps its status in every later state.\<close>

theorem lifecycle_moves_forward:
  assumes "reach (de_exec tk hc) any_call world_moves s0 s"
  shows "get_deal_lifecycle d s0 \<le> get_deal_lifecycle d s \<and>
    (get_deal_lifecycle d s0 \<in> {Completed, Defaulted} \<longrightarrow>
      get_deal_lifecycle d s = get_deal_lifecycle d s0)"
  using de_lifecycle.reach_inv [OF assms, of d s0] by auto

section \<open>Upgrades\<close>

lemma de_exec_wasm:
  assumes "de_exec tk hc e c s = Inr s'" and "ug_pending_hash s = None" and "ug_wasm s = None"
  shows "ug_pending_hash s' = None \<and> ug_wasm s' = None"
proof (cases "de_moves_money c")
  case True
  from de_money_same_rest [OF assms(1) this] assms(2,3) show ?thesis by (simp add: de_same_rest_def)
next
  case False
  with assms show ?thesis
    by (cases c) (auto simp: de_admin_defs outcome_simps host_simps Let_def split: if_splits)
qed

interpretation de_wasm: invariant_machine "de_exec tk hc" any_call world_moves
  "\<lambda>s. ug_pending_hash s = None \<and> ug_wasm s = None" for tk hc
  by unfold_locales (auto simp: world_moves_def dest: de_exec_wasm)

text \<open>The escrow proposes every upgrade with version 0, which the governance library rejects,
  as it demands the current version plus one: in every reachable state no proposal, execution or
  emergency upgrade succeeds and the contract still runs the code it was deployed with.\<close>

theorem escrow_never_upgrades:
  assumes "reach (de_exec tk hc) any_call world_moves (de_fresh w) s"
    and "c \<in> {DE_ProposeUpgrade a h, DE_ExecuteUpgrade a h, DE_EmergencyUpgrade a h}"
  shows "ug_wasm s = None \<and> (\<exists>f. de_exec tk hc e c s = Inl f)"
proof -
  have inv: "ug_pending_hash s = None \<and> ug_wasm s = None"
    by (rule de_wasm.reach_inv [OF assms(1)]) (simp add: de_fresh_def)
  then have "de_exec tk hc e c s \<noteq> Inr s'" for s'
    using assms(2) by (auto simp: de_admin_defs outcome_simps)
  with inv show ?thesis by (cases "de_exec tk hc e c s") auto
qed

section \<open>A concrete escrow\<close>

text \<open>
  The inputs of the witnesses: the escrow at address 9 with token 11, admin 10 and operator 12; the
  tenant 2 deposits 100 for a deal, the operator requests 40 of it for the landlord 3 at time 50,
  and the tenant challenges at time 60.
\<close>

definition demo_crypto :: host_crypto where
  "demo_crypto = \<lparr>to_xdr = (\<lambda>_. []), sha256 = (\<lambda>_. 0)\<rparr>"

definition rent_ledger :: ledger where
  "rent_ledger = (\<lambda>t a. if t = Address 11 \<and> a = Address 2 then 100 else 0)"

definition rent_calls :: "(env \<times> de_call) list" where
  "rent_calls =
     [(call_at 5 (Address 9) (Address 2), DE_Deposit (Address 2) ''d'' 100),
      (call_at 50 (Address 9) (Address 12), DE_Request (Address 12) ''d'' (Address 3) 40 ''src'' ''ref'')]"

definition rent_start :: "ledger de_state" where
  "rent_start = after (de_init (Address 10) (Address 12) (Address 11) (Address 13)
     (de_fresh rent_ledger)) (de_fresh rent_ledger)"

definition rent_requested :: "ledger de_state" where
  "rent_requested = run_calls (de_exec ledger_token demo_crypto) rent_calls rent_start"

definition rent_challenged :: "ledger de_state" where
  "rent_challenged = run_calls (de_exec ledger_token demo_crypto)
     [(call_at 60 (Address 9) (Address 2), DE_Challenge (Address 2) ''d'' ''why'')] rent_requested"

lemma rent_init: "de_init (Address 10) (Address 12) (Address 11) (Address 13) (de_fresh rent_ledger) =
    Inr rent_start"
  by (simp add: rent_start_def de_init_def de_fresh_def)

lemmas de_eval = de_helper_defs Let_def host_simps ck_i128_def ck_u64_def enter_def
  token_transfer_def ledger_token_def i128_ok_def moved_def de_require_not_paused_def
  de_require_valid_amount_def require_non_empty_string_def get_deal_state_def
  assert_deal_invariants_def require_admin_or_operator_permission_def

definition rent_pending :: rent_release where
  "rent_pending = \<lparr>rr_to = Address 3, rr_amount = 40, rr_requested_by = Address 12,
     rr_requested_at = 50, rr_challenge_end_at = 86450, rr_external_ref_source = ''src'',
     rr_external_ref = ''ref''\<rparr>"

lemma rent_requested_eq:
  "de_balance rent_requested = [''d'' \<mapsto> 100]"
  "de_deal_state rent_requested =
     [''d'' \<mapsto> \<lparr>total_balance = 100, locked_amount = 40, pending_payout = 40\<rparr>]"
  "de_pending rent_requested = [''d'' \<mapsto> rent_pending]"
  "de_depositor rent_requested = [''d'' \<mapsto> Address 2]"
  "de_dispute rent_requested = Map.empty" "de_lifecycle rent_requested = Map.empty"
  "de_token rent_requested = Some (Address 11)" "ug_admin rent_requested = Some (Address 10)"
  "de_operator rent_requested = Some (Address 12)" "ug_schema rent_requested = Some 3"
  "de_paused rent_requested = Some False" "de_reentrancy rent_requested = Some False"
  "de_breaker rent_requested = None" "de_dispute_timeout rent_requested = None"
  "world rent_requested (Address 11) (Address 9) = 100"
  by (simp_all add: rent_requested_def rent_calls_def apply_call_def rent_start_def de_init_def
      de_fresh_def de_deposit_def request_rent_release_def de_eval rent_ledger_def rent_pending_def)

lemma rent_challenged_eq:
  "rent_challenged = rent_requested\<lparr>
     de_dispute := [''d'' \<mapsto> \<lparr>rd_opened_by = Address 2, rd_opened_at = 60, rd_evidence_ref = ''ref'',
       rd_challenge_evidence_ref = ''why'', rd_resolved = False\<rparr>],
     events := events rent_requested @ [([VSym ''deal_escrow'', VSym ''rent_release_challenged''],
       [VStr ''d'', VAddr (Address 2), VNat 60])]\<rparr>"
  by (simp add: rent_challenged_def apply_call_def challenge_rent_release_def de_eval
      rent_requested_eq rent_pending_def)

lemma rent_requested_from_start:
  "reach (de_exec ledger_token demo_crypto) (at_escrow (Address 9)) others rent_start rent_requested"
  unfolding rent_requested_def
  by (rule run_calls_reach) (auto simp: rent_calls_def at_escrow_def)

lemma rent_requested_from_fresh:
  "reach (de_exec ledger_token demo_crypto) any_call others (de_fresh rent_ledger) rent_requested"
proof (rule reach_trans)
  show "reach (de_exec ledger_token demo_crypto) any_call others rent_start rent_requested"
    unfolding rent_requested_def by (rule run_calls_reach) (auto simp: any_call_def)
  have "de_exec ledger_token demo_crypto e
      (DE_Init (Address 10) (Address 12) (Address 11) (Address 13)) (de_fresh rent_ledger) =
      Inr rent_start" for e
    using rent_init by simp
  then show "reach (de_exec ledger_token demo_crypto) any_call others (de_fresh rent_ledger) rent_start"
    by (rule reach_call [OF reach_start, rotated]) (simp add: any_call_def)
qed

lemma rent_requested_books: "de_books rent_requested"
  by (rule de_machine.reach_inv [OF rent_requested_from_fresh de_fresh_books])

lemma escrow_books_witness:
  "\<exists>st. de_deal_state rent_requested ''d'' = Some st \<and> locked_amount st = 40 \<and>
    total_balance st = get_deal_balance ''d'' rent_requested"
  using escrow_books [OF rent_requested_from_fresh, of "''d''"] by (simp add: rent_requested_eq)

lemma escrow_solvent_witness:
  "(\<Sum>d \<in> {''d''}. get_deal_balance d rent_requested) \<le>
     holding ledger_token (Address 11) (Address 9) rent_requested \<and>
   get_deal_balance ''d'' rent_requested = 100"
  using escrow_solvent [OF sep41_ledger_token rent_init _ rent_requested_from_start]
  by (simp add: rent_requested_eq get_deal_balance_def ledger_token_def rent_ledger_def)

lemma settlement_pays_witness:
  "\<exists>s'. de_exec ledger_token demo_crypto (call_at 86450 (Address 9) (Address 5))
      (DE_SettleTimeout ''d'') rent_requested = Inr s' \<and>
    get_deal_balance ''d'' s' = 60 \<and> de_pending s' ''d'' = None"
proof -
  have "\<exists>s'. de_exec ledger_token demo_crypto (call_at 86450 (Address 9) (Address 5))
      (DE_SettleTimeout ''d'') rent_requested = Inr s'"
    by (simp add: settle_rent_release_timeout_def settle_release_inner_def de_eval
        rent_requested_eq rent_pending_def)
  then obtain s' where s': "de_exec ledger_token demo_crypto (call_at 86450 (Address 9) (Address 5))
      (DE_SettleTimeout ''d'') rent_requested = Inr s'" by blast
  have "DE_SettleTimeout ''d'' \<in> settle_calls ''d'' (Address 0) ReleaseToRecipient []"
    by (simp add: settle_calls_def)
  from settlement_pays [OF this s'] s' show ?thesis
    by (auto simp: rent_requested_eq get_deal_state_def rent_pending_def)
qed

lemma challenged_release_refundable_witness:
  "\<exists>s'. settle_dispute_timeout ledger_token demo_crypto (call_at 172860 (Address 9) (Address 5))
      ''d'' rent_challenged = Inr s' \<and> get_deal_balance ''d'' s' = 60"
proof -
  have books: "de_books rent_challenged"
    using rent_requested_books by (simp add: rent_challenged_eq de_books_def get_deal_balance_def)
  have "\<exists>w. tk_transfer ledger_token (Address 11) (Address 9) (Address 2) 40 (world rent_requested) = Some w"
    by (simp add: ledger_token_def rent_requested_eq)
  then obtain w where w:
    "tk_transfer ledger_token (Address 11) (Address 9) (Address 2) 40 (world rent_requested) = Some w"
    by blast
  show ?thesis
    using challenged_release_refundable [OF books, of "''d''" rent_pending _ "Address 2"
        "call_at 172860 (Address 9) (Address 5)" "Address 11" ledger_token w demo_crypto] w
    by (auto simp: rent_challenged_eq rent_requested_eq get_paused_def get_deal_state_def
        rent_pending_def get_dispute_timeout_seconds_def get_deal_balance_def)
qed

lemma release_strands_pending_witness:
  "\<exists>r s0 f. de_release ledger_token demo_crypto (call_at 70 (Address 9) (Address 12)) (Address 12)
      ''d'' (Address 3) 100 (Address 4) 0 (Address 5) 0 ''src'' ''ref'' rent_requested = Inr (r, s0) \<and>
    de_exec ledger_token demo_crypto (call_at 86450 (Address 9) (Address 5)) (DE_SettleTimeout ''d'') s0
      = Inl f"
proof -
  have "\<exists>r s0. de_release ledger_token demo_crypto (call_at 70 (Address 9) (Address 12)) (Address 12)
      ''d'' (Address 3) 100 (Address 4) 0 (Address 5) 0 ''src'' ''ref'' rent_requested = Inr (r, s0)"
    by (simp add: de_release_def de_eval rent_requested_eq require_not_frozen_def pay_if_positive_def)
  then obtain r s0 where r: "de_release ledger_token demo_crypto (call_at 70 (Address 9) (Address 12))
      (Address 12) ''d'' (Address 3) 100 (Address 4) 0 (Address 5) 0 ''src'' ''ref'' rent_requested
      = Inr (r, s0)" by blast
  have "de_pending rent_requested ''d'' = Some rent_pending" "0 < rr_amount rent_pending"
    "ug_schema rent_requested = Some 3" "ug_admin rent_requested \<noteq> None"
    "DE_SettleTimeout ''d'' \<in> settle_calls ''d'' (Address 0) ReleaseToRecipient [] \<or>
     DE_SettleTimeout ''d'' = DE_Request (Address 0) ''d'' (Address 0) 0 [] []"
    by (simp_all add: rent_requested_eq rent_pending_def settle_calls_def)
  from release_strands_pending [OF r this(1-4) reach_start this(5)] r show ?thesis by blast
qed

lemma frozen_until_recovery_witness:
  "\<exists>s'. de_exec ledger_token demo_crypto (call_at 86450 (Address 9) (Address 5)) (DE_SettleTimeout ''d'')
      (rent_requested\<lparr>de_breaker := Some Frozen\<rparr>) = Inr s' \<and> is_frozen s'"
proof -
  have frozen: "is_frozen (rent_requested\<lparr>de_breaker := Some Frozen\<rparr>)"
    by (simp add: is_frozen_def get_circuit_breaker_def)
  have "\<exists>s'. de_exec ledger_token demo_crypto (call_at 86450 (Address 9) (Address 5))
      (DE_SettleTimeout ''d'') (rent_requested\<lparr>de_breaker := Some Frozen\<rparr>) = Inr s'"
    by (simp add: settle_rent_release_timeout_def settle_release_inner_def de_eval
        rent_requested_eq rent_pending_def)
  then obtain s' where s': "de_exec ledger_token demo_crypto (call_at 86450 (Address 9) (Address 5))
      (DE_SettleTimeout ''d'') (rent_requested\<lparr>de_breaker := Some Frozen\<rparr>) = Inr s'" by blast
  from frozen_until_recovery [OF frozen s'] s' show ?thesis by simp
qed

lemma lifecycle_moves_forward_witness:
  "\<exists>s s'. de_exec ledger_token demo_crypto (call_at 70 (Address 9) (Address 10))
      (DE_Activate (Address 10) ''d'') rent_requested = Inr s \<and>
    de_exec ledger_token demo_crypto (call_at 71 (Address 9) (Address 10))
      (DE_Complete (Address 10) ''d'') s = Inr s' \<and>
    get_deal_lifecycle ''d'' rent_requested \<le> get_deal_lifecycle ''d'' s' \<and>
    get_deal_lifecycle ''d'' s' = Completed"
proof -
  let ?x = "de_exec ledger_token demo_crypto"
  let ?cs = "[(call_at 70 (Address 9) (Address 10), DE_Activate (Address 10) ''d''),
    (call_at 71 (Address 9) (Address 10), DE_Complete (Address 10) ''d'')]"
  have r: "reach ?x any_call world_moves rent_requested (run_calls ?x ?cs rent_requested)"
    by (rule run_calls_reach) (simp add: any_call_def)
  show ?thesis
    using lifecycle_moves_forward [OF r, of "''d''"]
    by (simp add: apply_call_def activate_deal_def complete_deal_def de_eval rent_requested_eq
        get_deal_lifecycle_def set_deal_lifecycle_def require_admin_permission_def)
qed

lemma escrow_never_upgrades_witness:
  "\<exists>f. de_exec ledger_token demo_crypto (call_at 70 (Address 9) (Address 10))
      (DE_ProposeUpgrade (Address 10) 7) rent_requested = Inl f"
  using escrow_never_upgrades [OF rent_requested_from_fresh,
      of "DE_ProposeUpgrade (Address 10) 7" "Address 10" 7] by simp

end
