(* ===== verification/MvpStakingPool.thy ===== *)
theory MvpStakingPool
  imports AccessControl ReentrancyGuard Pausable UpgradeGovernance
begin

text \<open>
  The reward-bearing staking pool (\<open>mvp_staking_pool/src/lib.rs\<close>): a global reward index grows with
  every funding, each user accrues by the difference to the index last seen, and the admin can mark
  stake as used, which locks it.  State, operations and the history machine;
  \<open>MvpStakingPoolProps\<close> holds the properties.
\<close>

section \<open>State and errors\<close>

datatype mv_error =
    MV_UpgradeAlreadyPending
  | MV_NoUpgradePending
  | MV_UpgradeDelayNotMet
  | MV_NotAuthorized
  | MV_InsufficientUnusedStake
  | MV_UtilizationExceedsUnused
  | MV_ReentrancyDetected

record 'w mv_state = "'w ug_host" +
  mv_token :: "address option"
  mv_total_staked :: "int option"
  mv_paused :: "bool option"
  mv_global_index :: "int option"
  mv_staked :: "address \<rightharpoonup> int"
  mv_used :: "address \<rightharpoonup> int"
  mv_user_index :: "address \<rightharpoonup> int"
  mv_claimable :: "address \<rightharpoonup> int"
  mv_reentrancy :: "bool option"

definition REWARD_INDEX_SCALE :: int where
  "REWARD_INDEX_SCALE = 1000000000000"

section \<open>Storage helpers\<close>

definition mv_get_admin :: "'w mv_state \<Rightarrow> mv_error fault + address" where
  "mv_get_admin s = expect (ug_admin s) ''admin not set''"

definition mv_get_token :: "'w mv_state \<Rightarrow> mv_error fault + address" where
  "mv_get_token s = expect (mv_token s) ''token not set''"

definition mv_get_total_staked :: "'w mv_state \<Rightarrow> int" where
  "mv_get_total_staked s = unwrap_or (mv_total_staked s) 0"

definition mv_put_total_staked :: "int \<Rightarrow> 'w mv_state \<Rightarrow> 'w mv_state" where
  "mv_put_total_staked n s = s\<lparr>mv_total_staked := Some n\<rparr>"

definition get_global_reward_index :: "'w mv_state \<Rightarrow> int" where
  "get_global_reward_index s = unwrap_or (mv_global_index s) 0"

definition put_global_reward_index :: "int \<Rightarrow> 'w mv_state \<Rightarrow> 'w mv_state" where
  "put_global_reward_index idx s = s\<lparr>mv_global_index := Some idx\<rparr>"

definition mv_is_paused :: "'w mv_state \<Rightarrow> bool" where
  "mv_is_paused s = unwrap_or (mv_paused s) False"

definition mv_require_admin :: "env \<Rightarrow> 'w mv_state \<Rightarrow> mv_error fault + unit" where
  "mv_require_admin e s = bindE (mv_get_admin s) (require_admin_auth e)"

definition mv_require_not_paused :: "'w mv_state \<Rightarrow> mv_error fault + unit" where
  "mv_require_not_paused s =
     (if mv_is_paused s then Inl (Trap (PanicTrap ''contract is paused'')) else Inr ())"

definition require_positive_amount :: "int \<Rightarrow> mv_error fault + unit" where
  "require_positive_amount amount =
     (if amount \<le> 0 then Inl (Trap (PanicTrap ''amount must be positive'')) else Inr ())"

definition mv_get_staked :: "address \<Rightarrow> 'w mv_state \<Rightarrow> int" where
  "mv_get_staked user s = unwrap_or (mv_staked s user) 0"

definition mv_put_staked :: "address \<Rightarrow> int \<Rightarrow> 'w mv_state \<Rightarrow> 'w mv_state" where
  "mv_put_staked user n s = s\<lparr>mv_staked := (mv_staked s)(user \<mapsto> n)\<rparr>"

definition get_used_stake :: "address \<Rightarrow> 'w mv_state \<Rightarrow> int" where
  "get_used_stake user s = unwrap_or (mv_used s user) 0"

definition put_used_stake :: "address \<Rightarrow> int \<Rightarrow> 'w mv_state \<Rightarrow> 'w mv_state" where
  "put_used_stake user used s =
     (if used \<le> 0 then s\<lparr>mv_used := (mv_used s)(user := None)\<rparr>
      else s\<lparr>mv_used := (mv_used s)(user \<mapsto> used)\<rparr>)"

definition get_unused_stake :: "address \<Rightarrow> 'w mv_state \<Rightarrow> int" where
  "get_unused_stake user s = saturating_sub (mv_get_staked user s) (get_used_stake user s)"

definition get_user_reward_index :: "address \<Rightarrow> 'w mv_state \<Rightarrow> int" where
  "get_user_reward_index user s = unwrap_or (mv_user_index s user) 0"

definition get_claimable_reward :: "address \<Rightarrow> 'w mv_state \<Rightarrow> int" where
  "get_claimable_reward user s = unwrap_or (mv_claimable s user) 0"

definition put_claimable :: "address \<Rightarrow> int \<Rightarrow> 'w mv_state \<Rightarrow> 'w mv_state" where
  "put_claimable user n s = s\<lparr>mv_claimable := (mv_claimable s)(user \<mapsto> n)\<rparr>"

definition put_user_index :: "address \<Rightarrow> int \<Rightarrow> 'w mv_state \<Rightarrow> 'w mv_state" where
  "put_user_index user idx s = s\<lparr>mv_user_index := (mv_user_index s)(user \<mapsto> idx)\<rparr>"

definition accrue_user_rewards :: "address \<Rightarrow> 'w mv_state \<Rightarrow> mv_error fault + 'w mv_state" where
  "accrue_user_rewards user s =
     (let global_idx = get_global_reward_index s; user_idx = get_user_reward_index user s in
      if global_idx \<le> user_idx then Inr s
      else
      let staked = mv_get_staked user s in
      bindE (if 0 < staked
             then bindE (ck_i128 (global_idx - user_idx)) (\<lambda>delta.
                  bindE (ck_i128 (staked * delta)) (\<lambda>product.
                  bindE (div_i128 product REWARD_INDEX_SCALE) (\<lambda>accrued.
                  if 0 < accrued
                  then bindE (ck_i128 (get_claimable_reward user s + accrued)) (\<lambda>n.
                       Inr (put_claimable user n s))
                  else Inr s)))
             else Inr s) (\<lambda>s.
      Inr (put_user_index user global_idx s)))"

definition mv_put_lock :: "bool \<Rightarrow> 'w mv_state \<Rightarrow> 'w mv_state" where
  "mv_put_lock b s = s\<lparr>mv_reentrancy := Some b\<rparr>"

definition mv_enter :: "'w mv_state \<Rightarrow> mv_error fault + 'w mv_state" where
  "mv_enter s = enter mv_reentrancy mv_put_lock MV_ReentrancyDetected s"

text \<open>\<open>if enter_nonreentrant(&env).is_err() { panic!(..) }\<close>\<close>

definition mv_enter_or_panic :: "'w mv_state \<Rightarrow> mv_error fault + 'w mv_state" where
  "mv_enter_or_panic s =
     (case mv_enter s of Inl _ \<Rightarrow> Inl (Trap (PanicTrap ''reentrancy detected'')) | Inr s \<Rightarrow> Inr s)"

definition mv_exit :: "'w mv_state \<Rightarrow> 'w mv_state" where
  "mv_exit s = exit_lock mv_put_lock s"

interpretation mv_lock: lock_cell mv_reentrancy mv_put_lock
  by unfold_locales (auto simp: mv_put_lock_def)

section \<open>Staking and rewards\<close>

definition mv_init :: "address \<Rightarrow> address \<Rightarrow> 'w mv_state \<Rightarrow> mv_error fault + 'w mv_state" where
  "mv_init admin token s =
     (if ug_admin s \<noteq> None then Inl (Trap (PanicTrap ''already initialized''))
      else Inr (publish [VSym ''mvp_staking_pool'', VSym ''init''] [VAddr admin, VAddr token, VNat 2]
             (s\<lparr>ug_admin := Some admin, mv_token := Some token, ug_version := Some 2,
                mv_total_staked := Some 0, mv_global_index := Some 0\<rparr>)))"

definition mv_stake ::
  "'w token_if \<Rightarrow> env \<Rightarrow> address \<Rightarrow> int \<Rightarrow> 'w mv_state \<Rightarrow> mv_error fault + 'w mv_state" where
  "mv_stake tk e user amount s =
     bindE (mv_enter_or_panic s) (\<lambda>s.
     bindE (require_auth e user) (\<lambda>_.
     bindE (mv_require_not_paused s) (\<lambda>_.
     bindE (require_positive_amount amount) (\<lambda>_.
     bindE (accrue_user_rewards user s) (\<lambda>s.
     bindE (ck_i128 (mv_get_staked user s + amount)) (\<lambda>new_balance.
     let s = mv_put_staked user new_balance s in
     bindE (ck_i128 (mv_get_total_staked s + amount)) (\<lambda>new_total.
     let s = mv_put_total_staked new_total s in
     bindE (mv_get_token s) (\<lambda>token_address.
     bindE (token_transfer tk token_address user (contract_addr e) amount s) (\<lambda>s.
     Inr (publish [VSym ''stake'', VAddr user] [VInt amount] (mv_exit s)))))))))))"

definition mv_unstake ::
  "'w token_if \<Rightarrow> env \<Rightarrow> address \<Rightarrow> int \<Rightarrow> 'w mv_state \<Rightarrow> mv_error fault + 'w mv_state" where
  "mv_unstake tk e user amount s =
     bindE (mv_enter s) (\<lambda>s.
     bindE (require_auth e user) (\<lambda>_.
     bindE (mv_require_not_paused s) (\<lambda>_.
     bindE (require_positive_amount amount) (\<lambda>_.
     bindE (accrue_user_rewards user s) (\<lambda>s.
     let current_balance = mv_get_staked user s; unused = get_unused_stake user s in
     if unused < amount then Inl (Err MV_InsufficientUnusedStake)
     else
     bindE (mv_get_token s) (\<lambda>token_address.
     bindE (ck_i128 (current_balance - amount)) (\<lambda>new_balance.
     let s = mv_put_staked user new_balance s in
     bindE (ck_i128 (mv_get_total_staked s - amount)) (\<lambda>new_total.
     let s = mv_put_total_staked new_total s in
     bindE (token_transfer tk token_address (contract_addr e) user amount s) (\<lambda>s.
     Inr (publish [VSym ''unstake'', VAddr user] [VInt amount] (mv_exit s)))))))))))"

definition utilize_stake ::
  "env \<Rightarrow> address \<Rightarrow> address \<Rightarrow> int \<Rightarrow> 'w mv_state \<Rightarrow> mv_error fault + 'w mv_state" where
  "utilize_stake e admin user amount s =
     bindE (mv_get_admin s) (\<lambda>stored.
     bindE (require_admin_permission e stored admin ''utilize_stake'' MV_NotAuthorized s) (\<lambda>_.
     bindE (mv_require_not_paused s) (\<lambda>_.
     bindE (require_positive_amount amount) (\<lambda>_.
     bindE (accrue_user_rewards user s) (\<lambda>s.
     let total = mv_get_staked user s; unused = get_unused_stake user s in
     if unused < amount then Inl (Err MV_UtilizationExceedsUnused)
     else
     bindE (ck_i128 (get_used_stake user s + amount)) (\<lambda>new_used.
     let s = put_used_stake user new_used s; new_unused = saturating_sub total new_used in
     Inr (publish [VSym ''mvp_staking_pool'', VSym ''stake_utilized'']
            [VAddr user, VInt amount, VInt new_used, VInt new_unused] s)))))))"

definition mv_fund_rewards ::
  "'w token_if \<Rightarrow> env \<Rightarrow> address \<Rightarrow> int \<Rightarrow> 'w mv_state \<Rightarrow> mv_error fault + 'w mv_state" where
  "mv_fund_rewards tk e from amount s =
     bindE (mv_enter_or_panic s) (\<lambda>s.
     bindE (mv_require_admin e s) (\<lambda>_.
     bindE (mv_require_not_paused s) (\<lambda>_.
     bindE (require_positive_amount amount) (\<lambda>_.
     bindE (mv_get_admin s) (\<lambda>admin.
     if from \<noteq> admin then Inl (Trap (PanicTrap ''from must be admin''))
     else
     let total = mv_get_total_staked s in
     if total \<le> 0 then Inl (Trap (PanicTrap ''no stakers''))
     else
     bindE (mv_get_token s) (\<lambda>token_address.
     bindE (token_transfer tk token_address from (contract_addr e) amount s) (\<lambda>s.
     let s = mv_exit s in
     bindE (ck_i128 (amount * REWARD_INDEX_SCALE)) (\<lambda>scaled.
     bindE (div_i128 scaled total) (\<lambda>increment.
     bindE (ck_i128 (get_global_reward_index s + increment)) (\<lambda>new_idx.
     Inr (publish [VSym ''fund_rewards'', VAddr from] [VInt amount]
            (put_global_reward_index new_idx s))))))))))))"

definition claimable :: "address \<Rightarrow> 'w mv_state \<Rightarrow> mv_error fault + int \<times> 'w mv_state" where
  "claimable user s =
     bindE (accrue_user_rewards user s) (\<lambda>s. Inr (get_claimable_reward user s, s))"

definition mv_claim ::
  "'w token_if \<Rightarrow> env \<Rightarrow> address \<Rightarrow> 'w mv_state \<Rightarrow> mv_error fault + int \<times> 'w mv_state" where
  "mv_claim tk e to s =
     bindE (mv_enter_or_panic s) (\<lambda>s.
     bindE (require_auth e to) (\<lambda>_.
     bindE (mv_require_not_paused s) (\<lambda>_.
     bindE (accrue_user_rewards to s) (\<lambda>s.
     let amount = get_claimable_reward to s in
     if amount \<le> 0 then Inr (0, mv_exit s)
     else
     let s = put_claimable to 0 s in
     bindE (mv_get_token s) (\<lambda>token_address.
     bindE (token_transfer tk token_address (contract_addr e) to amount s) (\<lambda>s.
     Inr (amount, publish [VSym ''claim'', VAddr to] [VInt amount] (mv_exit s))))))))"

section \<open>Upgrade governance and pausing\<close>

definition mv_set_guardian ::
  "env \<Rightarrow> address \<Rightarrow> address \<Rightarrow> 'w mv_state \<Rightarrow> mv_error fault + 'w mv_state" where
  "mv_set_guardian e admin guardian s =
     map_err (\<lambda>_. MV_NotAuthorized) (set_guardian e admin (Some guardian) ''mvp_staking_pool'' s)"

definition mv_set_upgrade_delay ::
  "env \<Rightarrow> address \<Rightarrow> nat \<Rightarrow> 'w mv_state \<Rightarrow> mv_error fault + 'w mv_state" where
  "mv_set_upgrade_delay e admin delay s =
     map_err (\<lambda>_. MV_NotAuthorized) (set_upgrade_delay e admin delay ''mvp_staking_pool'' s)"

fun mv_propose_error :: "ug_error \<Rightarrow> mv_error" where
  "mv_propose_error UG_NotAuthorized = MV_NotAuthorized"
| "mv_propose_error UG_UpgradeAlreadyPending = MV_UpgradeAlreadyPending"
| "mv_propose_error _ = MV_NotAuthorized"

definition mv_propose_upgrade ::
  "env \<Rightarrow> address \<Rightarrow> bytes32 \<Rightarrow> 'w mv_state \<Rightarrow> mv_error fault + 'w mv_state" where
  "mv_propose_upgrade e admin new_wasm_hash s =
     map_err mv_propose_error (propose_upgrade e admin new_wasm_hash 0 None ''mvp_staking_pool'' s)"

fun mv_execute_error :: "ug_error \<Rightarrow> mv_error" where
  "mv_execute_error UG_NotAuthorized = MV_NotAuthorized"
| "mv_execute_error UG_NoPendingUpgrade = MV_NoUpgradePending"
| "mv_execute_error UG_UpgradeDelayNotElapsed = MV_UpgradeDelayNotMet"
| "mv_execute_error _ = MV_NotAuthorized"

definition mv_execute_upgrade ::
  "env \<Rightarrow> address \<Rightarrow> bytes32 \<Rightarrow> 'w mv_state \<Rightarrow> mv_error fault + 'w mv_state" where
  "mv_execute_upgrade e admin new_wasm_hash s =
     map_err mv_execute_error (execute_upgrade e admin new_wasm_hash ''mvp_staking_pool'' s)"

definition mv_emergency_upgrade ::
  "env \<Rightarrow> address \<Rightarrow> bytes32 \<Rightarrow> 'w mv_state \<Rightarrow> mv_error fault + 'w mv_state" where
  "mv_emergency_upgrade e admin new_wasm_hash s =
     map_err (\<lambda>_. MV_NotAuthorized)
       (emergency_upgrade e admin new_wasm_hash 0 None ''mvp_staking_pool'' True s)"

definition mv_cancel_upgrade :: "env \<Rightarrow> address \<Rightarrow> 'w mv_state \<Rightarrow> mv_error fault + 'w mv_state" where
  "mv_cancel_upgrade e admin s =
     bindE (mv_get_admin s) (\<lambda>stored.
     bindE (require_admin_permission e stored admin ''cancel_upgrade'' MV_NotAuthorized s) (\<lambda>_.
     if ug_pending_hash s = None then Inl (Err MV_NoUpgradePending)
     else Inr (publish [VSym ''mvp_staking_pool'', VSym ''cancel_upgrade''] [VAddr admin]
            (s\<lparr>ug_pending_hash := None, ug_pending_at := None\<rparr>))))"

definition mv_pause :: "env \<Rightarrow> address \<Rightarrow> 'w mv_state \<Rightarrow> pausable_error fault + 'w mv_state" where
  "mv_pause e admin s =
     bindE (expect (ug_admin s) ''admin not set'') (\<lambda>stored.
     bindE (require_admin_permission e stored admin ''pause'' PE_NotAuthorized s) (\<lambda>_.
     Inr (publish [VSym ''Pausable'', VSym ''pause''] [] (s\<lparr>mv_paused := Some True\<rparr>))))"

definition mv_unpause :: "env \<Rightarrow> address \<Rightarrow> 'w mv_state \<Rightarrow> pausable_error fault + 'w mv_state" where
  "mv_unpause e admin s =
     bindE (expect (ug_admin s) ''admin not set'') (\<lambda>stored.
     bindE (require_admin_permission e stored admin ''unpause'' PE_NotAuthorized s) (\<lambda>_.
     Inr (publish [VSym ''Pausable'', VSym ''unpause''] [] (s\<lparr>mv_paused := Some False\<rparr>))))"

interpretation mv_pausable: pausable mv_pause mv_unpause mv_is_paused ug_admin
  by unfold_locales
    (auto simp: mv_pause_def mv_unpause_def mv_is_paused_def outcome_simps host_simps)

section \<open>All entry points\<close>

datatype mv_call =
    MV_Init address address
  | MV_Stake address int
  | MV_Unstake address int
  | MV_Utilize address address int
  | MV_Fund address int
  | MV_Claimable address
  | MV_Claim address
  | MV_SetGuardian address address
  | MV_SetUpgradeDelay address nat
  | MV_ProposeUpgrade address bytes32
  | MV_ExecuteUpgrade address bytes32
  | MV_EmergencyUpgrade address bytes32
  | MV_CancelUpgrade address
  | MV_Pause address
  | MV_Unpause address

datatype mv_any_error = MV_Contract mv_error | MV_Pausable pausable_error

fun mv_exec ::
  "'w token_if \<Rightarrow> env \<Rightarrow> mv_call \<Rightarrow> 'w mv_state \<Rightarrow> mv_any_error fault + 'w mv_state" where
  "mv_exec tk e (MV_Init a t) s = map_err MV_Contract (mv_init a t s)"
| "mv_exec tk e (MV_Stake u n) s = map_err MV_Contract (mv_stake tk e u n s)"
| "mv_exec tk e (MV_Unstake u n) s = map_err MV_Contract (mv_unstake tk e u n s)"
| "mv_exec tk e (MV_Utilize a u n) s = map_err MV_Contract (utilize_stake e a u n s)"
| "mv_exec tk e (MV_Fund f n) s = map_err MV_Contract (mv_fund_rewards tk e f n s)"
| "mv_exec tk e (MV_Claimable u) s = map_err MV_Contract (drop_result (claimable u s))"
| "mv_exec tk e (MV_Claim u) s = map_err MV_Contract (drop_result (mv_claim tk e u s))"
| "mv_exec tk e (MV_SetGuardian a g) s = map_err MV_Contract (mv_set_guardian e a g s)"
| "mv_exec tk e (MV_SetUpgradeDelay a d) s = map_err MV_Contract (mv_set_upgrade_delay e a d s)"
| "mv_exec tk e (MV_ProposeUpgrade a h) s = map_err MV_Contract (mv_propose_upgrade e a h s)"
| "mv_exec tk e (MV_ExecuteUpgrade a h) s = map_err MV_Contract (mv_execute_upgrade e a h s)"
| "mv_exec tk e (MV_EmergencyUpgrade a h) s = map_err MV_Contract (mv_emergency_upgrade e a h s)"
| "mv_exec tk e (MV_CancelUpgrade a) s = map_err MV_Contract (mv_cancel_upgrade e a s)"
| "mv_exec tk e (MV_Pause a) s = map_err MV_Pausable (mv_pause e a s)"
| "mv_exec tk e (MV_Unpause a) s = map_err MV_Pausable (mv_unpause e a s)"

end
