(* ===== verification/MvpStakingPoolProps.thy ===== *)
theory MvpStakingPoolProps
  imports MvpStakingPool
begin

text \<open>
  The reward pool's books and properties: the reward index and the rounding at each accrual never
  promise more than was funded, so stakes and rewards stay covered; used stake stays locked; a claim
  pays exactly what the user is due.
\<close>

section \<open>What users are due\<close>

abbreviation SC :: int where "SC \<equiv> REWARD_INDEX_SCALE"

lemma SC_pos: "0 < SC" by (simp add: REWARD_INDEX_SCALE_def)

text \<open>The reward a user could claim now, and the exact liability in units of \<open>1 / SC\<close>.\<close>

definition mv_lag :: "'w mv_state \<Rightarrow> address \<Rightarrow> int" where
  "mv_lag s u = get_global_reward_index s - get_user_reward_index u s"

definition mv_due :: "'w mv_state \<Rightarrow> address \<Rightarrow> int" where
  "mv_due s u = get_claimable_reward u s + mv_get_staked u s * mv_lag s u div SC"

definition mv_debt :: "'w mv_state \<Rightarrow> address \<Rightarrow> int" where
  "mv_debt s u = SC * get_claimable_reward u s + mv_get_staked u s * mv_lag s u"

definition mv_owed :: "'w mv_state \<Rightarrow> int" where
  "mv_owed s = SC * mv_get_total_staked s + (\<Sum>u \<in> dom (mv_staked s). mv_debt s u)"

text \<open>
  The invariant: non-negative balances that sum up to the total, indices of users at most the
  global one, rewards only for users with a stake entry, used stake within the stake.
\<close>

definition mv_user_ok :: "'w mv_state \<Rightarrow> address \<Rightarrow> bool" where
  "mv_user_ok s u \<longleftrightarrow> 0 \<le> mv_get_staked u s \<and> 0 \<le> mv_lag s u \<and> 0 \<le> get_claimable_reward u s \<and>
     0 \<le> get_used_stake u s \<and> get_used_stake u s \<le> mv_get_staked u s \<and>
     (u \<notin> dom (mv_staked s) \<longrightarrow> get_claimable_reward u s = 0)"

definition mv_books :: "'w mv_state \<Rightarrow> bool" where
  "mv_books s \<longleftrightarrow> finite (dom (mv_staked s)) \<and> (\<forall>u. mv_user_ok s u) \<and>
     mv_get_total_staked s = (\<Sum>u \<in> dom (mv_staked s). mv_get_staked u s)"

lemma mv_due_le_debt: "SC * mv_due s u \<le> mv_debt s u"
proof -
  have "SC * (x div SC) \<le> x" for x by (rule mult_div_le_int [OF SC_pos])
  then show ?thesis by (simp add: mv_due_def mv_debt_def algebra_simps)
qed

text \<open>Summing after a change at one key.\<close>

lemma sum_change_one:
  fixes f g :: "'k \<Rightarrow> int"
  assumes "finite A" and "\<And>v. v \<noteq> u \<Longrightarrow> g v = f v" and "u \<notin> A \<Longrightarrow> f u = 0"
  shows "sum g (insert u A) = sum f A + g u - f u"
proof -
  have "sum g (A - {u}) = sum f (A - {u})" using assms(2) by (intro sum.cong) auto
  then have "sum g (insert u A) = g u + sum f (A - {u})"
    using assms(1) by (simp add: sum.insert_remove)
  moreover have "sum f A = f u + sum f (A - {u})"
    using assms(1,3) by (cases "u \<in> A") (simp_all add: sum.remove)
  ultimately show ?thesis by simp
qed

section \<open>Accrual\<close>

text \<open>What an accrual writes: the user's due reward, and the global index.\<close>

definition accrual :: "address \<Rightarrow> 'w mv_state \<Rightarrow> (address \<rightharpoonup> int) \<Rightarrow> (address \<rightharpoonup> int) \<Rightarrow> bool" where
  "accrual u s m q \<longleftrightarrow> unwrap_or (m u) 0 = mv_due s u \<and>
     unwrap_or (q u) 0 = get_global_reward_index s \<and>
     (\<forall>v. v \<noteq> u \<longrightarrow> m v = mv_claimable s v \<and> q v = mv_user_index s v)"

lemma div_pos_iff_scale: "0 \<le> x \<Longrightarrow> x sdiv SC = x div SC"
  using SC_pos by (simp add: sdiv_nonneg)

lemma accrue_Inr:
  assumes "accrue_user_rewards u s = Inr s1" and "mv_user_ok s u"
  shows "\<exists>m q. accrual u s m q \<and> s1 = s\<lparr>mv_claimable := m, mv_user_index := q\<rparr>"
proof -
  have ok: "0 \<le> mv_get_staked u s" "0 \<le> mv_lag s u" using assms(2) by (auto simp: mv_user_ok_def)
  have self: "s = s\<lparr>mv_claimable := mv_claimable s, mv_user_index := mv_user_index s\<rparr>" by simp
  show ?thesis
  proof (cases "get_global_reward_index s \<le> get_user_reward_index u s")
    case True
    with ok have "mv_lag s u = 0" by (simp add: mv_lag_def)
    then have "accrual u s (mv_claimable s) (mv_user_index s)"
      by (auto simp: accrual_def mv_due_def mv_lag_def get_claimable_reward_def get_user_reward_index_def)
    moreover from True assms(1) have "s1 = s" by (simp add: accrue_user_rewards_def Let_def)
    ultimately show ?thesis using self by metis
  next
    case lag: False
    let ?q = "(mv_user_index s)(u \<mapsto> get_global_reward_index s)"
    let ?due = "mv_get_staked u s * mv_lag s u div SC"
    show ?thesis
    proof (cases "0 < mv_get_staked u s \<and> 0 < ?due")
      case True
      then have "s1 = s\<lparr>mv_claimable := (mv_claimable s)(u \<mapsto> mv_due s u), mv_user_index := ?q\<rparr>"
        using assms(1) lag ok by (auto simp: accrue_user_rewards_def Let_def outcome_simps
            put_claimable_def put_user_index_def mv_lag_def mv_due_def div_pos_iff_scale split: if_splits)
      moreover have "accrual u s ((mv_claimable s)(u \<mapsto> mv_due s u)) ?q" by (simp add: accrual_def)
      ultimately show ?thesis by blast
    next
      case False
      have "0 \<le> ?due" using ok SC_pos by (simp add: pos_imp_zdiv_nonneg_iff)
      with False ok have due: "?due = 0" by (cases "mv_get_staked u s = 0") auto
      then have "s1 = s\<lparr>mv_user_index := ?q\<rparr>"
        using assms(1) lag ok False by (auto simp: accrue_user_rewards_def Let_def outcome_simps
            put_claimable_def put_user_index_def mv_lag_def div_pos_iff_scale split: if_splits)
      then have "s1 = s\<lparr>mv_claimable := mv_claimable s, mv_user_index := ?q\<rparr>" by simp
      moreover have "accrual u s (mv_claimable s) ?q"
        using due by (simp add: accrual_def mv_due_def get_claimable_reward_def)
      ultimately show ?thesis by blast
    qed
  qed
qed

lemma mv_fields_lock [simp]:
  "accrual u (s\<lparr>mv_reentrancy := b\<rparr>) m q = accrual u s m q"
  "mv_user_ok (s\<lparr>mv_reentrancy := b\<rparr>) u = mv_user_ok s u"
  by (simp_all add: accrual_def mv_due_def mv_lag_def mv_user_ok_def get_claimable_reward_def
      get_global_reward_index_def get_user_reward_index_def mv_get_staked_def get_used_stake_def)

text \<open>
  A step of one user: accrue, then change the stake by \<open>d\<close>, the used part by \<open>k\<close>, and pay \<open>p\<close> of
  the rewards.
\<close>

definition user_step :: "address \<Rightarrow> int \<Rightarrow> int \<Rightarrow> int \<Rightarrow> 'w mv_state \<Rightarrow> 'w mv_state \<Rightarrow> bool" where
  "user_step u d k p s s' \<longleftrightarrow>
     get_global_reward_index s' = get_global_reward_index s \<and>
     get_user_reward_index u s' = get_global_reward_index s \<and>
     get_claimable_reward u s' = mv_due s u - p \<and>
     mv_get_staked u s' = mv_get_staked u s + d \<and>
     get_used_stake u s' = get_used_stake u s + k \<and>
     mv_get_total_staked s' = mv_get_total_staked s + d \<and>
     (dom (mv_staked s') = insert u (dom (mv_staked s)) \<or> dom (mv_staked s') = dom (mv_staked s) \<and> d = 0) \<and>
     (\<forall>v. v \<noteq> u \<longrightarrow> get_user_reward_index v s' = get_user_reward_index v s \<and>
        get_claimable_reward v s' = get_claimable_reward v s \<and>
        mv_get_staked v s' = mv_get_staked v s \<and> get_used_stake v s' = get_used_stake v s)"

lemma user_step_due:
  assumes "user_step u d k p s s'"
  shows "mv_due s' v = (if v = u then mv_due s u - p else mv_due s v)"
  using assms by (simp add: user_step_def mv_due_def [of s'] mv_due_def [of s v] mv_lag_def)

text \<open>A user step changes the sums over the stakers by what it changes of the user.\<close>

lemma user_step_sums:
  assumes "mv_books s" and "user_step u d k p s s'" and "0 \<le> p" and "p \<le> mv_due s u"
  shows "(\<Sum>v \<in> dom (mv_staked s'). mv_debt s' v) =
      (\<Sum>v \<in> dom (mv_staked s). mv_debt s v) + mv_debt s' u - mv_debt s u \<and>
    (\<Sum>v \<in> dom (mv_staked s'). mv_get_staked v s') = (\<Sum>v \<in> dom (mv_staked s). mv_get_staked v s) + d"
proof -
  note st = assms(2) [unfolded user_step_def]
  have ok: "mv_user_ok s v" for v using assms(1) by (simp add: mv_books_def)
  have fin: "finite (dom (mv_staked s))" using assms(1) by (simp add: mv_books_def)
  have nodom: "mv_get_staked v s = 0" "get_claimable_reward v s = 0" if "v \<notin> dom (mv_staked s)" for v
    using that ok [of v] by (auto simp: mv_get_staked_def mv_user_ok_def domIff)
  have debt_other: "mv_debt s' v = mv_debt s v" if "v \<noteq> u" for v
    using that st by (simp add: mv_debt_def mv_lag_def)
  have debt_user: "mv_debt s' u = SC * (mv_due s u - p)"
    using st by (simp add: mv_debt_def mv_lag_def)
  have debt0: "mv_debt s u = 0" if "u \<notin> dom (mv_staked s)"
    using nodom [OF that] by (simp add: mv_debt_def)
  show ?thesis
  proof (cases "dom (mv_staked s') = insert u (dom (mv_staked s))")
    case True
    then show ?thesis
      using sum_change_one [OF fin, of u "mv_debt s'" "mv_debt s"] debt_other debt0
        sum_change_one [OF fin, of u "\<lambda>v. mv_get_staked v s'" "\<lambda>v. mv_get_staked v s"] st nodom
      by simp
  next
    case False
    then have d: "dom (mv_staked s') = dom (mv_staked s)" "d = 0" using st by auto
    show ?thesis
    proof (cases "u \<in> dom (mv_staked s)")
      case True
      then have i: "insert u (dom (mv_staked s)) = dom (mv_staked s)" by auto
      show ?thesis
        using sum_change_one [OF fin, of u "mv_debt s'" "mv_debt s"] debt_other True d
          sum_change_one [OF fin, of u "\<lambda>v. mv_get_staked v s'" "\<lambda>v. mv_get_staked v s"] st i
        by simp
    next
      case out: False
      then have "mv_due s u = 0" using nodom [OF out] by (simp add: mv_due_def)
      with assms(3,4) debt_user debt0 [OF out] have z: "mv_debt s' u = 0" "mv_debt s u = 0" by auto
      have "(\<Sum>v \<in> dom (mv_staked s). mv_debt s' v) = (\<Sum>v \<in> dom (mv_staked s). mv_debt s v)"
        by (intro sum.cong refl debt_other) (use out in auto)
      moreover have "(\<Sum>v \<in> dom (mv_staked s). mv_get_staked v s') =
          (\<Sum>v \<in> dom (mv_staked s). mv_get_staked v s)"
        using st out by (intro sum.cong) auto
      ultimately show ?thesis using z d by simp
    qed
  qed
qed

lemma user_step_books:
  assumes "mv_books s" and "user_step u d k p s s'"
    and "0 \<le> p" and "p \<le> mv_due s u" and "0 \<le> get_used_stake u s + k"
    and "get_used_stake u s + k \<le> mv_get_staked u s + d"
  shows "mv_books s' \<and> mv_owed s' - mv_owed s \<le> SC * (d - p)"
proof -
  note st = assms(2) [unfolded user_step_def] and sums = user_step_sums [OF assms(1-4)]
  have ok: "mv_user_ok s v" for v using assms(1) by (simp add: mv_books_def)
  have fin: "finite (dom (mv_staked s))" using assms(1) by (simp add: mv_books_def)
  have "mv_debt s' u = SC * (mv_due s u - p)" using st by (simp add: mv_debt_def mv_lag_def)
  then have "mv_debt s' u - mv_debt s u \<le> - (SC * p)" using mv_due_le_debt [of s u] by (simp add: algebra_simps)
  with sums st have "mv_owed s' - mv_owed s \<le> SC * (d - p)"
    by (simp add: mv_owed_def algebra_simps)
  moreover have "mv_user_ok s' v" for v
  proof (cases "v = u")
    case True
    have "get_claimable_reward u s' = 0" if "u \<notin> dom (mv_staked s')"
    proof -
      have "u \<notin> dom (mv_staked s)" using that st by blast
      then have "mv_due s u = 0" using ok [of u] by (auto simp: mv_due_def mv_get_staked_def mv_user_ok_def domIff)
      with st assms(3,4) show ?thesis by simp
    qed
    then show ?thesis
      using True st assms(3-6) by (simp add: mv_user_ok_def mv_lag_def)
  next
    case False
    with st ok [of v] show ?thesis by (auto simp: mv_user_ok_def mv_lag_def)
  qed
  ultimately show ?thesis
    using sums st assms(1) fin by (auto simp: mv_books_def)
qed

section \<open>The operations as user steps\<close>

lemma mv_enter_Inr_iff [outcome_simps]:
  "mv_enter s = Inr s' \<longleftrightarrow> mv_reentrancy s \<noteq> Some True \<and> s' = s\<lparr>mv_reentrancy := Some True\<rparr>"
  "mv_enter_or_panic s = Inr s' \<longleftrightarrow> mv_reentrancy s \<noteq> Some True \<and> s' = s\<lparr>mv_reentrancy := Some True\<rparr>"
  by (auto simp: mv_enter_or_panic_def mv_enter_def enter_def mv_put_lock_def unwrap_or_False_iff)

lemma mv_gates_Inr_iff [outcome_simps]:
  "mv_get_admin s = Inr a \<longleftrightarrow> ug_admin s = Some a"
  "mv_get_token s = Inr a \<longleftrightarrow> mv_token s = Some a"
  "mv_require_not_paused s = Inr x \<longleftrightarrow> \<not> mv_is_paused s"
  "require_positive_amount n = Inr x \<longleftrightarrow> 0 < n"
  "mv_require_admin e s = Inr x \<longleftrightarrow> (\<exists>a. ug_admin s = Some a \<and> authorized e a)"
  by (auto simp: mv_get_admin_def mv_get_token_def mv_require_not_paused_def
      require_positive_amount_def mv_require_admin_def outcome_simps)

lemmas mv_read_defs = get_claimable_reward_def get_global_reward_index_def
  get_user_reward_index_def mv_get_staked_def get_used_stake_def mv_get_total_staked_def

lemmas mv_write_defs = mv_put_staked_def mv_put_total_staked_def put_claimable_def
  put_global_reward_index_def mv_exit_def exit_lock_def mv_put_lock_def

lemma mv_books_user: "mv_books s \<Longrightarrow> mv_user_ok s u"
  by (simp add: mv_books_def)

lemma mv_unused: "mv_user_ok s u \<Longrightarrow> i128_ok (mv_get_staked u s) \<Longrightarrow>
    get_unused_stake u s = mv_get_staked u s - get_used_stake u s"
  by (simp add: get_unused_stake_def mv_user_ok_def saturating_sub_exact i128_ok_def)

text \<open>The saturating difference never exceeds the true one when the true one is not below the range.\<close>

lemma unused_le: "mv_user_ok s u \<Longrightarrow> n \<le> get_unused_stake u s \<Longrightarrow>
    n \<le> mv_get_staked u s - get_used_stake u s"
  by (auto simp: get_unused_stake_def saturating_sub_def mv_user_ok_def)

lemma mv_stake_step:
  assumes "mv_stake tk e u n s = Inr s'" and "mv_user_ok s u"
  shows "0 < n \<and> authorized e u \<and> user_step u n 0 0 s s' \<and> mv_token s' = mv_token s \<and>
    ug_admin s' = ug_admin s \<and>
    (\<exists>token. mv_token s = Some token \<and>
       tk_transfer tk token u (contract_addr e) n (world s) = Some (world s'))"
proof -
  from assms(1) have "\<exists>s1 token w ev. 0 < n \<and> authorized e u \<and>
      accrue_user_rewards u (s\<lparr>mv_reentrancy := Some True\<rparr>) = Inr s1 \<and>
      mv_token s1 = Some token \<and>
      tk_transfer tk token u (contract_addr e) n (world s1) = Some w \<and>
      s' = s1\<lparr>mv_staked := (mv_staked s1)(u \<mapsto> mv_get_staked u s1 + n),
        mv_total_staked := Some (mv_get_total_staked s1 + n), world := w,
        mv_reentrancy := Some False, events := ev\<rparr>"
    unfolding mv_stake_def bindE_Inr_iff Let_def
    by (auto simp: outcome_simps host_simps mv_write_defs mv_get_total_staked_def)
  then obtain s1 token w ev where r: "0 < n" "authorized e u"
      "accrue_user_rewards u (s\<lparr>mv_reentrancy := Some True\<rparr>) = Inr s1" "mv_token s1 = Some token"
      "tk_transfer tk token u (contract_addr e) n (world s1) = Some w"
      "s' = s1\<lparr>mv_staked := (mv_staked s1)(u \<mapsto> mv_get_staked u s1 + n),
        mv_total_staked := Some (mv_get_total_staked s1 + n), world := w,
        mv_reentrancy := Some False, events := ev\<rparr>" by blast
  from accrue_Inr [OF r(3)] assms(2) obtain m q where mq: "accrual u s m q"
    and s1: "s1 = s\<lparr>mv_reentrancy := Some True, mv_claimable := m, mv_user_index := q\<rparr>" by auto
  show ?thesis
    using r(1,2,4,5) mq unfolding r(6) s1
    by (auto simp: user_step_def accrual_def mv_read_defs)
qed

lemma mv_unstake_step:
  assumes "mv_unstake tk e u n s = Inr s'" and "mv_user_ok s u"
  shows "0 < n \<and> authorized e u \<and> n \<le> mv_get_staked u s - get_used_stake u s \<and>
    user_step u (- n) 0 0 s s' \<and> mv_token s' = mv_token s \<and> ug_admin s' = ug_admin s \<and>
    (\<exists>token. mv_token s = Some token \<and>
       tk_transfer tk token (contract_addr e) u n (world s) = Some (world s'))"
proof -
  from assms(1) have "\<exists>s1 token w ev. 0 < n \<and> authorized e u \<and>
      accrue_user_rewards u (s\<lparr>mv_reentrancy := Some True\<rparr>) = Inr s1 \<and>
      n \<le> get_unused_stake u s1 \<and> mv_token s1 = Some token \<and>
      tk_transfer tk token (contract_addr e) u n (world s1) = Some w \<and>
      s' = s1\<lparr>mv_staked := (mv_staked s1)(u \<mapsto> mv_get_staked u s1 - n),
        mv_total_staked := Some (mv_get_total_staked s1 - n), world := w,
        mv_reentrancy := Some False, events := ev\<rparr>"
    unfolding mv_unstake_def bindE_Inr_iff Let_def
    by (auto simp: outcome_simps host_simps mv_write_defs mv_get_total_staked_def not_less
        split: if_splits)
  then obtain s1 token w ev where r: "0 < n" "authorized e u"
      "accrue_user_rewards u (s\<lparr>mv_reentrancy := Some True\<rparr>) = Inr s1"
      "n \<le> get_unused_stake u s1" "mv_token s1 = Some token"
      "tk_transfer tk token (contract_addr e) u n (world s1) = Some w"
      "s' = s1\<lparr>mv_staked := (mv_staked s1)(u \<mapsto> mv_get_staked u s1 - n),
        mv_total_staked := Some (mv_get_total_staked s1 - n), world := w,
        mv_reentrancy := Some False, events := ev\<rparr>" by blast
  from accrue_Inr [OF r(3)] assms(2) obtain m q where mq: "accrual u s m q"
    and s1: "s1 = s\<lparr>mv_reentrancy := Some True, mv_claimable := m, mv_user_index := q\<rparr>" by auto
  have "n \<le> mv_get_staked u s - get_used_stake u s"
    using unused_le [OF assms(2), of n] r(4) by (simp add: s1 get_unused_stake_def mv_read_defs)
  then show ?thesis
    using r(1,2,5,6) mq unfolding r(7) s1
    by (auto simp: user_step_def accrual_def mv_read_defs)
qed

lemma utilize_step:
  assumes "utilize_stake e a u n s = Inr s'" and "mv_user_ok s u"
  shows "0 < n \<and> get_used_stake u s + n \<le> mv_get_staked u s \<and> user_step u 0 n 0 s s' \<and>
    mv_token s' = mv_token s \<and> ug_admin s' = ug_admin s \<and> world s' = world s"
proof -
  from assms(1) have "\<exists>s1 ev. 0 < n \<and> accrue_user_rewards u s = Inr s1 \<and>
      n \<le> get_unused_stake u s1 \<and>
      s' = (put_used_stake u (get_used_stake u s1 + n) s1)\<lparr>events := ev\<rparr>"
    unfolding utilize_stake_def bindE_Inr_iff Let_def
    by (auto simp: outcome_simps host_simps not_less split: if_splits)
  then obtain s1 ev where r: "0 < n" "accrue_user_rewards u s = Inr s1" "n \<le> get_unused_stake u s1"
      "s' = (put_used_stake u (get_used_stake u s1 + n) s1)\<lparr>events := ev\<rparr>" by blast
  from accrue_Inr [OF r(2) assms(2)] obtain m q where mq: "accrual u s m q"
    and s1: "s1 = s\<lparr>mv_claimable := m, mv_user_index := q\<rparr>" by auto
  have n: "n \<le> mv_get_staked u s - get_used_stake u s"
    using unused_le [OF assms(2), of n] r(3) by (simp add: s1 get_unused_stake_def mv_read_defs)
  have "0 \<le> get_used_stake u s" using assms(2) by (simp add: mv_user_ok_def)
  then have put: "put_used_stake u (get_used_stake u s1 + n) s1 =
      s1\<lparr>mv_used := (mv_used s)(u \<mapsto> get_used_stake u s + n)\<rparr>"
    using r(1) by (simp add: put_used_stake_def s1 get_used_stake_def)
  show ?thesis
    using n r(1) mq unfolding r(4) put unfolding s1
    by (auto simp: user_step_def accrual_def mv_read_defs)
qed

lemma mv_claim_step:
  assumes "mv_claim tk e u s = Inr (r, s')" and "mv_user_ok s u"
  shows "authorized e u \<and> r = mv_due s u \<and> 0 \<le> r \<and> user_step u 0 0 r s s' \<and>
    mv_token s' = mv_token s \<and> ug_admin s' = ug_admin s \<and>
    (if r = 0 then world s' = world s
     else \<exists>token. mv_token s = Some token \<and>
       tk_transfer tk token (contract_addr e) u r (world s) = Some (world s'))"
proof -
  have "0 \<le> mv_get_staked u s * mv_lag s u div SC"
    using assms(2) SC_pos by (simp add: mv_user_ok_def pos_imp_zdiv_nonneg_iff)
  then have due: "0 \<le> mv_due s u" using assms(2) by (simp add: mv_due_def mv_user_ok_def)
  from assms(1) have "\<exists>s1. authorized e u \<and>
      accrue_user_rewards u (s\<lparr>mv_reentrancy := Some True\<rparr>) = Inr s1 \<and>
      (if get_claimable_reward u s1 \<le> 0 then r = 0 \<and> s' = mv_exit s1
       else r = get_claimable_reward u s1 \<and> (\<exists>token w ev. mv_token s1 = Some token \<and>
          tk_transfer tk token (contract_addr e) u r (world s1) = Some w \<and>
          s' = s1\<lparr>mv_claimable := (mv_claimable s1)(u \<mapsto> 0), world := w,
            mv_reentrancy := Some False, events := ev\<rparr>))"
    unfolding mv_claim_def bindE_Inr_iff Let_def
    by (auto simp: outcome_simps host_simps mv_write_defs split: if_splits)
  then obtain s1 where r: "authorized e u"
      "accrue_user_rewards u (s\<lparr>mv_reentrancy := Some True\<rparr>) = Inr s1"
      "if get_claimable_reward u s1 \<le> 0 then r = 0 \<and> s' = mv_exit s1
       else r = get_claimable_reward u s1 \<and> (\<exists>token w ev. mv_token s1 = Some token \<and>
          tk_transfer tk token (contract_addr e) u r (world s1) = Some w \<and>
          s' = s1\<lparr>mv_claimable := (mv_claimable s1)(u \<mapsto> 0), world := w,
            mv_reentrancy := Some False, events := ev\<rparr>)" by blast
  from accrue_Inr [OF r(2)] assms(2) obtain m q where mq: "accrual u s m q"
    and s1: "s1 = s\<lparr>mv_reentrancy := Some True, mv_claimable := m, mv_user_index := q\<rparr>" by auto
  have c: "get_claimable_reward u s1 = mv_due s u"
    using mq by (simp add: s1 accrual_def get_claimable_reward_def)
  show ?thesis
  proof (cases "mv_due s u = 0")
    case True
    with r(3) c have "r = 0" "s' = mv_exit s1" by simp_all
    with True r(1) mq show ?thesis
      by (auto simp: user_step_def accrual_def mv_read_defs s1 mv_write_defs)
  next
    case False
    with due r(3) c have rr: "r = mv_due s u" and "\<exists>token w ev. mv_token s1 = Some token \<and>
          tk_transfer tk token (contract_addr e) u r (world s1) = Some w \<and>
          s' = s1\<lparr>mv_claimable := (mv_claimable s1)(u \<mapsto> 0), world := w,
            mv_reentrancy := Some False, events := ev\<rparr>" by auto
    then obtain token w ev where t: "mv_token s1 = Some token"
      "tk_transfer tk token (contract_addr e) u r (world s1) = Some w"
      "s' = s1\<lparr>mv_claimable := (mv_claimable s1)(u \<mapsto> 0), world := w,
            mv_reentrancy := Some False, events := ev\<rparr>" by blast
    show ?thesis
      using False r(1) mq t(1,2) due unfolding t(3) s1 rr
      by (auto simp: user_step_def accrual_def mv_read_defs)
  qed
qed

section \<open>Funding\<close>

lemma mv_fund_Inr:
  assumes "mv_fund_rewards tk e f n s = Inr s'"
  shows "0 < n \<and> ug_admin s = Some f \<and> authorized e f \<and> 0 < mv_get_total_staked s \<and>
    (\<exists>token w. mv_token s = Some token \<and>
       tk_transfer tk token f (contract_addr e) n (world s) = Some w \<and>
       s' = s\<lparr>world := w, mv_reentrancy := Some False,
         events := events s @ [([VSym ''fund_rewards'', VAddr f], [VInt n])],
         mv_global_index := Some (get_global_reward_index s + n * SC div mv_get_total_staked s)\<rparr>)"
  using assms SC_pos
  by (auto simp: mv_fund_rewards_def outcome_simps Let_def host_simps mv_write_defs mv_read_defs
      sdiv_nonneg not_le split: if_splits)

lemma mv_fund_books:
  assumes "mv_books s" and "mv_fund_rewards tk e f n s = Inr s'"
  shows "mv_books s' \<and> mv_owed s' - mv_owed s \<le> SC * n"
proof -
  from mv_fund_Inr [OF assms(2)] obtain w ev where n: "0 < n" "0 < mv_get_total_staked s"
    and s': "s' = s\<lparr>world := w, mv_reentrancy := Some False, events := ev,
         mv_global_index := Some (get_global_reward_index s + n * SC div mv_get_total_staked s)\<rparr>"
    by blast
  let ?i = "n * SC div mv_get_total_staked s"
  have i: "0 \<le> ?i" "mv_get_total_staked s * ?i \<le> n * SC"
    using n SC_pos by (simp_all add: pos_imp_zdiv_nonneg_iff mult_div_le_int)
  have same: "mv_get_staked u s' = mv_get_staked u s" "mv_lag s' u = mv_lag s u + ?i"
    "get_claimable_reward u s' = get_claimable_reward u s" "get_used_stake u s' = get_used_stake u s"
    "mv_get_total_staked s' = mv_get_total_staked s" "mv_staked s' = mv_staked s" for u
    by (simp_all add: s' mv_lag_def mv_read_defs)
  have "mv_books s'"
    using assms(1) i by (auto simp: mv_books_def mv_user_ok_def same)
  moreover have "mv_owed s' - mv_owed s = mv_get_total_staked s * ?i"
    using assms(1) by (simp add: mv_owed_def mv_debt_def same mv_books_def algebra_simps
        sum.distrib flip: sum_distrib_right)
  ultimately show ?thesis using i by (simp add: mult.commute)
qed

section \<open>All calls\<close>

fun mv_moves :: "mv_call \<Rightarrow> bool" where
  "mv_moves (MV_Init a t) = True"
| "mv_moves (MV_Stake u n) = True"
| "mv_moves (MV_Unstake u n) = True"
| "mv_moves (MV_Utilize a u n) = True"
| "mv_moves (MV_Fund f n) = True"
| "mv_moves (MV_Claimable u) = True"
| "mv_moves (MV_Claim u) = True"
| "mv_moves _ = False"

definition mv_same :: "'w mv_state \<Rightarrow> 'w mv_state \<Rightarrow> bool" where
  "mv_same s s' \<longleftrightarrow> mv_staked s' = mv_staked s \<and> mv_used s' = mv_used s \<and>
     mv_user_index s' = mv_user_index s \<and> mv_claimable s' = mv_claimable s \<and>
     mv_global_index s' = mv_global_index s \<and> mv_total_staked s' = mv_total_staked s \<and>
     mv_token s' = mv_token s \<and> world s' = world s \<and> (ug_admin s' = None \<longleftrightarrow> ug_admin s = None)"

lemma mv_admin_same:
  assumes "mv_exec tk e c s = Inr s'" and "\<not> mv_moves c"
  shows "mv_same s s'"
  using assms by (cases c) (auto simp: mv_set_guardian_def mv_set_upgrade_delay_def
      mv_propose_upgrade_def mv_execute_upgrade_def mv_emergency_upgrade_def mv_cancel_upgrade_def
      mv_pause_def mv_unpause_def clear_pending_def mv_same_def outcome_simps host_simps
      split: if_splits)

lemma mv_same_reads:
  assumes "mv_same s s'"
  shows "mv_books s' = mv_books s" and "mv_owed s' = mv_owed s"
  using assms by (auto simp: mv_same_def mv_books_def mv_user_ok_def mv_owed_def mv_debt_def
      mv_lag_def mv_read_defs)

definition mv_custody :: "'w token_if \<Rightarrow> address \<Rightarrow> 'w mv_state \<Rightarrow> bool" where
  "mv_custody tk token s \<longleftrightarrow> sep41 tk \<and> mv_books s \<and> mv_token s = Some token \<and> ug_admin s \<noteq> None"

definition at_mvp :: "address \<Rightarrow> env \<Rightarrow> 'op \<Rightarrow> bool" where
  "at_mvp self e c \<longleftrightarrow> host_env self e"

text \<open>One lemma per operation that moves tokens or touches the accounts of a user.\<close>

definition mv_covered :: "'w token_if \<Rightarrow> address \<Rightarrow> address \<Rightarrow> 'w mv_state \<Rightarrow> 'w mv_state \<Rightarrow> bool" where
  "mv_covered tk token self s s' \<longleftrightarrow> mv_custody tk token s' \<and>
     mv_owed s' - mv_owed s \<le> SC * (holding tk token self s' - holding tk token self s)"

lemma mv_custodyD:
  assumes "mv_custody tk token s"
  shows "sep41 tk" and "mv_books s" and "mv_token s = Some token" and "ug_admin s \<noteq> None"
    and "mv_user_ok s u" and "0 \<le> get_used_stake u s" and "get_used_stake u s \<le> mv_get_staked u s"
    and "0 \<le> mv_due s u"
proof -
  show "sep41 tk" "mv_books s" "mv_token s = Some token" "ug_admin s \<noteq> None"
    using assms by (auto simp: mv_custody_def)
  then show ok: "mv_user_ok s u" using mv_books_user by blast
  then show "0 \<le> get_used_stake u s" "get_used_stake u s \<le> mv_get_staked u s" by (auto simp: mv_user_ok_def)
  have "0 \<le> mv_get_staked u s * mv_lag s u div SC"
    using ok SC_pos by (simp add: mv_user_ok_def pos_imp_zdiv_nonneg_iff)
  then show "0 \<le> mv_due s u" using ok by (simp add: mv_due_def mv_user_ok_def)
qed

lemma mv_covered_user_step:
  assumes "mv_custody tk token s" and "user_step u d k p s s'" and "0 \<le> p" and "p \<le> mv_due s u"
    and "0 \<le> get_used_stake u s + k" and "get_used_stake u s + k \<le> mv_get_staked u s + d"
    and "mv_token s' = mv_token s" and "ug_admin s' = ug_admin s"
    and "holding tk token self s' - holding tk token self s = d - p"
  shows "mv_covered tk token self s s'"
  using user_step_books [OF mv_custodyD(2) [OF assms(1)] assms(2-6)] assms(1,7-9)
  by (simp add: mv_covered_def mv_custody_def)

lemma mv_holding_moved:
  assumes "mv_custody tk token s" and "tk_transfer tk token f t n (world s) = Some (world s')"
  shows "holding tk token self s' - holding tk token self s = moved n f t self"
  using sep41D [OF mv_custodyD(1) [OF assms(1)] assms(2), of self] by (simp add: holding_def)

lemma mv_covered_stake:
  assumes "mv_custody tk token s" and "host_env self e" and "mv_stake tk e u n s = Inr s'"
  shows "mv_covered tk token self s s'"
proof -
  note inv = mv_custodyD [OF assms(1)]
  note st = mv_stake_step [OF assms(3) inv(5)]
  then have "u \<noteq> self" using assms(2) by (auto simp: host_env_def)
  with st inv(3) mv_holding_moved [OF assms(1), of u self n s' self] assms(2)
  have "holding tk token self s' - holding tk token self s = n" by (simp add: moved_simps host_env_def)
  then show ?thesis
    by (intro mv_covered_user_step [OF assms(1), of u n 0 0]) (use st inv(6-8) [of u] in auto)
qed

lemma mv_covered_unstake:
  assumes "mv_custody tk token s" and "host_env self e" and "mv_unstake tk e u n s = Inr s'"
  shows "mv_covered tk token self s s'"
proof -
  note inv = mv_custodyD [OF assms(1)]
  note st = mv_unstake_step [OF assms(3) inv(5)]
  then have "u \<noteq> self" using assms(2) by (auto simp: host_env_def)
  with st inv(3) mv_holding_moved [OF assms(1), of self u n s' self] assms(2)
  have "holding tk token self s' - holding tk token self s = - n" by (simp add: moved_simps host_env_def)
  then show ?thesis
    by (intro mv_covered_user_step [OF assms(1), of u "- n" 0 0]) (use st inv(6-8) [of u] in auto)
qed

lemma mv_covered_utilize:
  assumes "mv_custody tk token s" and "utilize_stake e a u n s = Inr s'"
  shows "mv_covered tk token self s s'"
proof -
  note inv = mv_custodyD [OF assms(1)]
  note st = utilize_step [OF assms(2) inv(5)]
  then show ?thesis
    by (intro mv_covered_user_step [OF assms(1), of u 0 n 0]) (use inv(6-8) [of u] in \<open>auto simp: holding_def\<close>)
qed

lemma mv_covered_fund:
  assumes "mv_custody tk token s" and "host_env self e" and "mv_fund_rewards tk e f n s = Inr s'"
  shows "mv_covered tk token self s s'"
proof -
  note inv = mv_custodyD [OF assms(1)] and st = mv_fund_Inr [OF assms(3)]
  then have "f \<noteq> self" using assms(2) by (auto simp: host_env_def)
  with st inv(3) mv_holding_moved [OF assms(1), of f self n s' self] assms(2)
  have "holding tk token self s' - holding tk token self s = n" by (auto simp: moved_simps host_env_def)
  moreover have "mv_token s' = mv_token s" "ug_admin s' = ug_admin s" using st by auto
  ultimately show ?thesis
    using mv_fund_books [OF inv(2) assms(3)] inv(1,3,4) by (simp add: mv_covered_def mv_custody_def)
qed

lemma mv_covered_accrue:
  assumes "mv_custody tk token s" and "accrue_user_rewards u s = Inr s'"
  shows "mv_covered tk token self s s'"
proof -
  note inv = mv_custodyD [OF assms(1)]
  from accrue_Inr [OF assms(2) inv(5)] obtain m q where mq: "accrual u s m q"
    and s': "s' = s\<lparr>mv_claimable := m, mv_user_index := q\<rparr>" by blast
  have "user_step u 0 0 0 s s'" using mq by (auto simp: user_step_def accrual_def mv_read_defs s')
  then show ?thesis
    by (intro mv_covered_user_step [OF assms(1), of u 0 0 0]) (use inv(6-8) [of u] in \<open>auto simp: holding_def s'\<close>)
qed

lemma mv_covered_claim:
  assumes "mv_custody tk token s" and "host_env self e" and "mv_claim tk e u s = Inr (r, s')"
  shows "mv_covered tk token self s s'"
proof -
  note inv = mv_custodyD [OF assms(1)]
  note st = mv_claim_step [OF assms(3) inv(5)]
  then have "u \<noteq> self" using assms(2) by (auto simp: host_env_def)
  with st inv(3) mv_holding_moved [OF assms(1), of self u r s' self] assms(2)
  have "holding tk token self s' - holding tk token self s = - r"
    by (cases "r = 0") (auto simp: moved_simps holding_def host_env_def)
  then show ?thesis
    by (intro mv_covered_user_step [OF assms(1), of u 0 0 r]) (use st inv(6-8) [of u] in auto)
qed

lemma mv_exec_custody:
  assumes "mv_custody tk token s" and "host_env self e" and "mv_exec tk e c s = Inr s'"
  shows "mv_custody tk token s' \<and>
    mv_owed s' - mv_owed s \<le> SC * (holding tk token self s' - holding tk token self s)"
proof (cases "mv_moves c")
  case False
  from mv_admin_same [OF assms(3) this] assms(1) show ?thesis
    using mv_same_reads [of s s'] by (auto simp: mv_same_def mv_custody_def holding_def)
next
  case True
  then have "mv_covered tk token self s s'"
    using assms(3) mv_custodyD(4) [OF assms(1)]
      mv_covered_stake [OF assms(1,2)] mv_covered_unstake [OF assms(1,2)] mv_covered_utilize [OF assms(1)]
      mv_covered_fund [OF assms(1,2)] mv_covered_accrue [OF assms(1)] mv_covered_claim [OF assms(1,2)]
    by (cases c) (auto simp: outcome_simps claimable_def mv_init_def)
  then show ?thesis by (simp add: mv_covered_def)
qed

lemma mv_world [simp]:
  "mv_custody tk token (s\<lparr>world := w\<rparr>) = mv_custody tk token s"
  "mv_owed (s\<lparr>world := w\<rparr>) = mv_owed s"
  by (auto simp: mv_custody_def mv_books_def mv_user_ok_def mv_owed_def mv_debt_def mv_lag_def
      mv_read_defs)

interpretation mv_custodian:
  custodian "mv_exec tk" "at_mvp self" tk token self SC "mv_custody tk token" mv_owed
  for tk token self
  by unfold_locales (auto simp: SC_pos at_mvp_def dest: mv_exec_custody)

definition mv_fresh :: "'w \<Rightarrow> 'w mv_state" where
  "mv_fresh w = \<lparr>events = [], world = w, ug_admin = None, ug_guardian = None,
     ug_pending_hash = None, ug_pending_at = None, ug_pending_version = None, ug_version = None,
     ug_delay = None, ug_schema = None, ug_wasm = None, mv_token = None, mv_total_staked = None,
     mv_paused = None, mv_global_index = None, mv_staked = Map.empty, mv_used = Map.empty,
     mv_user_index = Map.empty, mv_claimable = Map.empty, mv_reentrancy = None\<rparr>"

lemma mv_start:
  assumes "sep41 tk" and "mv_init admin token (mv_fresh w) = Inr s0"
  shows "mv_custody tk token s0 \<and> mv_owed s0 = 0 \<and> world s0 = w"
  using assms by (auto simp: mv_init_def mv_fresh_def host_simps mv_custody_def mv_books_def
      mv_user_ok_def mv_owed_def mv_lag_def mv_read_defs)

text \<open>C3. After initialisation, in every history of calls interleaved with other accounts' token
  transfers, the pool's token balance covers all stakes and all rewards its users could claim at
  that moment: the rounding of the reward index and of each accrual always favours the pool.\<close>

theorem mvp_solvent:
  assumes "sep41 tk" and "mv_init admin token (mv_fresh w) = Inr s0"
    and "0 \<le> tk_balance tk token self w"
    and "reach (mv_exec tk) (at_mvp self) (token_others tk token self) s0 s"
  shows "(\<Sum>u \<in> dom (mv_staked s). mv_get_staked u s) + (\<Sum>u \<in> dom (mv_staked s). mv_due s u)
    \<le> holding tk token self s"
proof -
  note start = mv_start [OF assms(1,2)]
  have "mv_custody tk token s \<and> mv_owed s \<le> SC * holding tk token self s"
    by (rule mv_custodian.solvent [OF assms(4)])
      (use start assms(3) SC_pos in \<open>simp_all add: holding_def\<close>)
  then have books: "mv_books s" and owed: "mv_owed s \<le> SC * holding tk token self s"
    by (auto simp: mv_custody_def)
  have "SC * (\<Sum>u \<in> dom (mv_staked s). mv_due s u) \<le> (\<Sum>u \<in> dom (mv_staked s). mv_debt s u)"
    unfolding sum_distrib_left by (intro sum_mono mv_due_le_debt)
  then have "SC * ((\<Sum>u \<in> dom (mv_staked s). mv_get_staked u s) +
      (\<Sum>u \<in> dom (mv_staked s). mv_due s u)) \<le> SC * holding tk token self s"
    using owed books by (simp add: mv_owed_def mv_books_def distrib_left)
  then show ?thesis using SC_pos by (simp add: mult_le_cancel_left_pos)
qed

text \<open>Stake the admin marked as used stays locked: an unstake never takes more than the unused
  part, leaves the used part and every other user as they were, and keeps the used part covered by
  the remaining stake.\<close>

theorem used_stake_stays_locked:
  assumes "mv_books s" and "mv_unstake tk e u n s = Inr s'"
  shows "n \<le> mv_get_staked u s - get_used_stake u s \<and>
    get_used_stake u s' = get_used_stake u s \<and> get_used_stake u s' \<le> mv_get_staked u s' \<and>
    mv_get_staked u s' = mv_get_staked u s - n \<and> mv_due s' u = mv_due s u \<and>
    (\<forall>v. v \<noteq> u \<longrightarrow> mv_get_staked v s' = mv_get_staked v s \<and> mv_due s' v = mv_due s v)"
proof -
  note st = mv_unstake_step [OF assms(2) mv_books_user [OF assms(1)]]
  then have step: "user_step u (- n) 0 0 s s'" by blast
  have "mv_due s' v = mv_due s v" for v using user_step_due [OF step, of v] by simp
  with st step show ?thesis by (simp add: user_step_def)
qed

text \<open>C7. A claim pays the user exactly the recorded reward plus the floor of stake times the index
  growth since the last accrual, leaves the user with nothing due, and changes no stake and no other
  user's reward.\<close>

theorem claim_pays_due:
  assumes "mv_books s" and "mv_claim tk e u s = Inr (r, s')"
  shows "r = get_claimable_reward u s +
      mv_get_staked u s * (get_global_reward_index s - get_user_reward_index u s) div SC \<and>
    mv_due s' u = 0 \<and>
    (\<forall>v. mv_get_staked v s' = mv_get_staked v s \<and> (v \<noteq> u \<longrightarrow> mv_due s' v = mv_due s v)) \<and>
    (if r = 0 then world s' = world s
     else \<exists>token. mv_token s = Some token \<and>
       tk_transfer tk token (contract_addr e) u r (world s) = Some (world s'))"
proof -
  note st = mv_claim_step [OF assms(2) mv_books_user [OF assms(1)]]
  then have step: "user_step u 0 0 r s s'" by blast
  have "mv_get_staked v s' = mv_get_staked v s" for v
    using step by (cases "v = u") (auto simp: user_step_def)
  moreover have "mv_due s' v = (if v = u then 0 else mv_due s v)" for v
    using user_step_due [OF step, of v] st by simp
  ultimately show ?thesis using st unfolding mv_due_def [of s u] mv_lag_def by auto
qed

section \<open>A concrete pool\<close>

text \<open>
  The inputs of the witnesses: the pool at address 9 with token 11 and admin 10; user 2 stakes 3,
  the admin funds 10, which makes the index 10/3 rounded down, and marks 1 of the stake as used.
\<close>

definition reward_ledger :: ledger where
  "reward_ledger = (\<lambda>t a. if t = Address 11 \<and> (a = Address 2 \<or> a = Address 10) then 10 else 0)"

definition reward_calls :: "(env \<times> mv_call) list" where
  "reward_calls =
     [(call_at 5 (Address 9) (Address 2), MV_Stake (Address 2) 3),
      (call_at 6 (Address 9) (Address 10), MV_Fund (Address 10) 10),
      (call_at 7 (Address 9) (Address 10), MV_Utilize (Address 10) (Address 2) 2)]"

definition reward_start :: "ledger mv_state" where
  "reward_start = after (mv_init (Address 10) (Address 11) (mv_fresh reward_ledger)) (mv_fresh reward_ledger)"

definition reward_pool :: "ledger mv_state" where
  "reward_pool = run_calls (mv_exec ledger_token) reward_calls reward_start"

lemma reward_init: "mv_init (Address 10) (Address 11) (mv_fresh reward_ledger) = Inr reward_start"
  by (simp add: reward_start_def mv_init_def mv_fresh_def)

lemmas mv_eval = mv_read_defs mv_write_defs Let_def host_simps ck_i128_def div_i128_def
  mv_enter_or_panic_def mv_enter_def enter_def token_transfer_def ledger_token_def i128_ok_def
  moved_def mv_get_admin_def mv_get_token_def mv_require_not_paused_def mv_is_paused_def
  require_positive_amount_def mv_require_admin_def require_admin_auth_def
  require_admin_permission_def accrue_user_rewards_def put_user_index_def REWARD_INDEX_SCALE_def
  get_unused_stake_def saturating_sub_def put_used_stake_def signed_divide_int_def

lemma reward_pool_eq:
  "mv_staked reward_pool = [Address 2 \<mapsto> 3]"
  "mv_used reward_pool = [Address 2 \<mapsto> 2]"
  "mv_global_index reward_pool = Some 3333333333333"
  "mv_user_index reward_pool = [Address 2 \<mapsto> 3333333333333]"
  "mv_claimable reward_pool = [Address 2 \<mapsto> 9]"
  "mv_total_staked reward_pool = Some 3" "mv_reentrancy reward_pool = Some False"
  "mv_paused reward_pool = None" "mv_token reward_pool = Some (Address 11)"
  "world reward_pool (Address 11) (Address 9) = 13"
  by (simp_all add: reward_pool_def reward_calls_def apply_call_def reward_start_def mv_init_def
      mv_fresh_def mv_stake_def mv_fund_rewards_def utilize_stake_def mv_eval reward_ledger_def)

lemma reward_pool_from_start:
  "reach (mv_exec ledger_token) (at_mvp (Address 9)) others reward_start reward_pool"
  unfolding reward_pool_def
  by (rule run_calls_reach) (auto simp: reward_calls_def at_mvp_def)

lemma reward_pool_books: "mv_books reward_pool"
  by (auto simp: mv_books_def mv_user_ok_def mv_lag_def mv_read_defs reward_pool_eq)

lemma mvp_solvent_witness:
  "mv_get_staked (Address 2) reward_pool + mv_due reward_pool (Address 2) \<le>
     holding ledger_token (Address 11) (Address 9) reward_pool \<and> mv_due reward_pool (Address 2) = 9"
  using mvp_solvent [OF sep41_ledger_token reward_init _ reward_pool_from_start]
  by (simp add: reward_pool_eq mv_due_def mv_lag_def mv_read_defs ledger_token_def reward_ledger_def)

lemma used_stake_stays_locked_witness:
  "\<exists>s'. mv_unstake ledger_token (call_at 8 (Address 9) (Address 2)) (Address 2) 1 reward_pool = Inr s' \<and>
    get_used_stake (Address 2) s' = 2 \<and> mv_get_staked (Address 2) s' = 2"
proof -
  have "\<exists>s'. mv_unstake ledger_token (call_at 8 (Address 9) (Address 2)) (Address 2) 1 reward_pool = Inr s'"
    by (simp add: mv_unstake_def mv_eval reward_pool_eq)
  then obtain s' where s': "mv_unstake ledger_token (call_at 8 (Address 9) (Address 2)) (Address 2) 1
      reward_pool = Inr s'" by blast
  from used_stake_stays_locked [OF reward_pool_books s'] s' show ?thesis
    by (simp add: reward_pool_eq mv_get_staked_def get_used_stake_def)
qed

lemma claim_pays_due_witness:
  "\<exists>s'. mv_claim ledger_token (call_at 8 (Address 9) (Address 2)) (Address 2) reward_pool = Inr (9, s') \<and>
    mv_due s' (Address 2) = 0"
proof -
  have "\<exists>r s'. mv_claim ledger_token (call_at 8 (Address 9) (Address 2)) (Address 2) reward_pool = Inr (r, s')"
    by (simp add: mv_claim_def mv_eval reward_pool_eq)
  then obtain r s' where s': "mv_claim ledger_token (call_at 8 (Address 9) (Address 2)) (Address 2)
      reward_pool = Inr (r, s')" by blast
  from claim_pays_due [OF reward_pool_books s'] s' show ?thesis
    by (simp add: reward_pool_eq mv_read_defs)
qed

end
