(* ===== verification/StakingRewards.thy ===== *)
theory StakingRewards
  imports Machines Pausable
begin

text \<open>
  The staking rewards ledger (\<open>staking_rewards/src/lib.rs\<close>): stakes and rewards are pure accounting,
  rewards are shared by an index, and what the index could not represent is carried as dust into the
  next distribution.  \<open>StakingRewardsProps\<close> holds the properties.
\<close>

section \<open>State and errors\<close>

datatype sr_error =
    SR_AlreadyInitialized
  | SR_NotAuthorized
  | SR_Paused
  | SR_InvalidAmount
  | SR_UpgradeAlreadyPending
  | SR_NoUpgradePending
  | SR_UpgradeDelayNotMet

record user_stake =
  us_amount :: int
  us_user_index :: int
  us_pending_amount :: int

text \<open>
  One field per \<open>StorageKey\<close>, then the persistent entries kept under an address or a string key.
  \<open>sr_wasm\<close> is the code installed last.
\<close>

record 'w sr_state = "'w host" +
  sr_version :: "nat option"
  sr_admin :: "address option"
  sr_operator :: "address option"
  sr_paused :: "bool option"
  sr_guardian :: "address option"
  sr_upgrade_delay :: "nat option"
  sr_pending_hash :: "bytes32 option"
  sr_pending_at :: "nat option"
  sr_wasm :: "bytes32 option"
  sr_users :: "address \<rightharpoonup> user_stake"
  sr_reward_index :: "int option"
  sr_total_staked :: "int option"
  sr_dust :: "int option"
  sr_funded :: "int option"

definition SCALE :: int where
  "SCALE = 1000000000"

section \<open>Helpers\<close>

definition sr_require_admin :: "env \<Rightarrow> 'w sr_state \<Rightarrow> sr_error fault + unit" where
  "sr_require_admin e s = (case sr_admin s of
      Some a \<Rightarrow> require_auth e a
    | None \<Rightarrow> Inl (Err SR_NotAuthorized))"

definition sr_require_operator :: "env \<Rightarrow> 'w sr_state \<Rightarrow> sr_error fault + unit" where
  "sr_require_operator e s = (case sr_operator s of
      Some a \<Rightarrow> require_auth e a
    | None \<Rightarrow> Inl (Err SR_NotAuthorized))"

definition sr_is_paused :: "'w sr_state \<Rightarrow> bool" where
  "sr_is_paused s = unwrap_or (sr_paused s) False"

definition sr_require_not_paused :: "'w sr_state \<Rightarrow> sr_error fault + unit" where
  "sr_require_not_paused s = (if sr_is_paused s then Inl (Err SR_Paused) else Inr ())"

definition get_user_stake :: "address \<Rightarrow> 'w sr_state \<Rightarrow> user_stake" where
  "get_user_stake user s =
     unwrap_or (sr_users s user) \<lparr>us_amount = 0, us_user_index = 0, us_pending_amount = 0\<rparr>"

definition put_user_stake :: "address \<Rightarrow> user_stake \<Rightarrow> 'w sr_state \<Rightarrow> 'w sr_state" where
  "put_user_stake user us s = s\<lparr>sr_users := (sr_users s)(user \<mapsto> us)\<rparr>"

definition get_reward_index :: "'w sr_state \<Rightarrow> int" where
  "get_reward_index s = unwrap_or (sr_reward_index s) 0"

definition sr_get_total_staked :: "'w sr_state \<Rightarrow> int" where
  "sr_get_total_staked s = unwrap_or (sr_total_staked s) 0"

definition get_pending_dust :: "'w sr_state \<Rightarrow> int" where
  "get_pending_dust s = unwrap_or (sr_dust s) 0"

definition get_total_funded :: "'w sr_state \<Rightarrow> int" where
  "get_total_funded s = unwrap_or (sr_funded s) 0"

text \<open>\<open>amount * (reward_index - user_index) / SCALE\<close>, every operator with its overflow check.\<close>

definition calc_pending :: "user_stake \<Rightarrow> int \<Rightarrow> sr_error fault + int" where
  "calc_pending us reward_index =
     bindE (ck_i128 (reward_index - us_user_index us)) (\<lambda>delta.
     bindE (ck_i128 (us_amount us * delta)) (\<lambda>product.
     div_i128 product SCALE))"

section \<open>Administration\<close>

definition sr_init :: "address \<Rightarrow> 'w sr_state \<Rightarrow> sr_error fault + 'w sr_state" where
  "sr_init admin s =
     (if sr_admin s \<noteq> None then Inl (Err SR_AlreadyInitialized)
      else Inr (publish [VSym ''staking_rewards'', VSym ''init''] [VAddr admin, VNat 1]
             (s\<lparr>sr_admin := Some admin, sr_version := Some 1, sr_paused := Some False\<rparr>)))"

definition sr_set_admin :: "env \<Rightarrow> address \<Rightarrow> 'w sr_state \<Rightarrow> sr_error fault + 'w sr_state" where
  "sr_set_admin e new_admin s =
     bindE (sr_require_admin e s) (\<lambda>_.
     bindE (expect (sr_admin s) ''admin not set'') (\<lambda>old_admin.
     Inr (publish [VSym ''staking_rewards'', VSym ''set_admin''] [VAddr old_admin, VAddr new_admin]
            (s\<lparr>sr_admin := Some new_admin\<rparr>))))"

definition add_operator :: "env \<Rightarrow> address \<Rightarrow> 'w sr_state \<Rightarrow> sr_error fault + 'w sr_state" where
  "add_operator e operator s =
     bindE (sr_require_admin e s) (\<lambda>_.
     Inr (publish [VSym ''staking_rewards'', VSym ''add_operator''] [VAddr operator]
            (s\<lparr>sr_operator := Some operator\<rparr>)))"

definition remove_operator :: "env \<Rightarrow> 'w sr_state \<Rightarrow> sr_error fault + 'w sr_state" where
  "remove_operator e s =
     bindE (sr_require_admin e s) (\<lambda>_.
     let operator = sr_operator s; s = s\<lparr>sr_operator := None\<rparr> in
     Inr (case operator of
         Some op \<Rightarrow> publish [VSym ''staking_rewards'', VSym ''remove_operator''] [VAddr op] s
       | None \<Rightarrow> s))"

definition sr_is_operator :: "address \<Rightarrow> 'w sr_state \<Rightarrow> bool" where
  "sr_is_operator a s = unwrap_or (map_option (\<lambda>op. op = a) (sr_operator s)) False"

section \<open>Staking and rewards\<close>

definition sr_stake :: "env \<Rightarrow> address \<Rightarrow> int \<Rightarrow> 'w sr_state \<Rightarrow> sr_error fault + 'w sr_state" where
  "sr_stake e user amount s =
     bindE (sr_require_not_paused s) (\<lambda>_.
     bindE (require_auth e user) (\<lambda>_.
     if amount \<le> 0 then Inl (Err SR_InvalidAmount)
     else
     let us = get_user_stake user s; reward_index = get_reward_index s in
     bindE (calc_pending us reward_index) (\<lambda>earned.
     bindE (ck_i128 (us_pending_amount us + earned)) (\<lambda>pending.
     bindE (ck_i128 (us_amount us + amount)) (\<lambda>new_amount.
     let s = put_user_stake user
               \<lparr>us_amount = new_amount, us_user_index = reward_index, us_pending_amount = pending\<rparr> s in
     bindE (ck_i128 (sr_get_total_staked s + amount)) (\<lambda>total.
     Inr (publish [VSym ''staking_rewards'', VSym ''stake''] [VAddr user, VInt amount]
            (s\<lparr>sr_total_staked := Some total\<rparr>))))))))"

definition sr_unstake :: "env \<Rightarrow> address \<Rightarrow> int \<Rightarrow> 'w sr_state \<Rightarrow> sr_error fault + 'w sr_state" where
  "sr_unstake e user amount s =
     bindE (sr_require_not_paused s) (\<lambda>_.
     bindE (require_auth e user) (\<lambda>_.
     if amount \<le> 0 then Inl (Err SR_InvalidAmount)
     else
     let us = get_user_stake user s in
     if us_amount us < amount then Inl (Trap (PanicTrap ''Insufficient staked amount''))
     else
     let reward_index = get_reward_index s in
     bindE (calc_pending us reward_index) (\<lambda>earned.
     bindE (ck_i128 (us_pending_amount us + earned)) (\<lambda>pending.
     bindE (ck_i128 (us_amount us - amount)) (\<lambda>new_amount.
     let s = put_user_stake user
               \<lparr>us_amount = new_amount, us_user_index = reward_index, us_pending_amount = pending\<rparr> s in
     bindE (ck_i128 (sr_get_total_staked s - amount)) (\<lambda>total.
     Inr (publish [VSym ''staking_rewards'', VSym ''unstake''] [VAddr user, VInt amount]
            (s\<lparr>sr_total_staked := Some total\<rparr>))))))))"

text \<open>The body \<open>fund_rewards\<close> and \<open>distribute_rewards\<close> share after their gates.\<close>

definition distribute :: "string \<Rightarrow> int \<Rightarrow> 'w sr_state \<Rightarrow> sr_error fault + 'w sr_state" where
  "distribute name amount s =
     (if amount \<le> 0 then Inl (Err SR_InvalidAmount)
      else
      bindE (ck_i128 (get_total_funded s + amount)) (\<lambda>total_funded.
      let s = s\<lparr>sr_funded := Some total_funded\<rparr>; total = sr_get_total_staked s in
      if total = 0 then Inr s
      else
      let reward_index = get_reward_index s in
      bindE (ck_i128 (amount + get_pending_dust s)) (\<lambda>total_to_dist.
      bindE (ck_i128 (total_to_dist * SCALE)) (\<lambda>scaled.
      bindE (div_i128 scaled total) (\<lambda>index_increment.
      bindE (ck_i128 (index_increment * total)) (\<lambda>product.
      bindE (div_i128 product SCALE) (\<lambda>committed.
      bindE (ck_i128 (total_to_dist - committed)) (\<lambda>new_dust.
      bindE (ck_i128 (reward_index + index_increment)) (\<lambda>new_index.
      Inr (publish [VSym ''staking_rewards'', VSym name] [VInt amount]
             (s\<lparr>sr_reward_index := Some new_index, sr_dust := Some new_dust\<rparr>)))))))))))"

definition sr_fund_rewards :: "env \<Rightarrow> int \<Rightarrow> 'w sr_state \<Rightarrow> sr_error fault + 'w sr_state" where
  "sr_fund_rewards e amount s =
     bindE (sr_require_not_paused s) (\<lambda>_.
     bindE (sr_require_operator e s) (\<lambda>_.
     distribute ''fund_rewards'' amount s))"

definition distribute_rewards :: "env \<Rightarrow> int \<Rightarrow> 'w sr_state \<Rightarrow> sr_error fault + 'w sr_state" where
  "distribute_rewards e amount s =
     bindE (sr_require_not_paused s) (\<lambda>_.
     bindE (sr_require_admin e s) (\<lambda>_.
     distribute ''distribute_rewards'' amount s))"

definition sr_claim :: "env \<Rightarrow> address \<Rightarrow> 'w sr_state \<Rightarrow> sr_error fault + int \<times> 'w sr_state" where
  "sr_claim e user s =
     bindE (sr_require_not_paused s) (\<lambda>_.
     bindE (require_auth e user) (\<lambda>_.
     let us = get_user_stake user s; reward_index = get_reward_index s in
     bindE (calc_pending us reward_index) (\<lambda>earned.
     bindE (ck_i128 (earned + us_pending_amount us)) (\<lambda>amount.
     let s = put_user_stake user
               (us\<lparr>us_user_index := reward_index, us_pending_amount := 0\<rparr>) s in
     Inr (amount, publish [VSym ''staking_rewards'', VSym ''claim''] [VAddr user, VInt amount] s)))))"

definition sr_get_claimable :: "address \<Rightarrow> 'w sr_state \<Rightarrow> sr_error fault + int" where
  "sr_get_claimable user s =
     (let us = get_user_stake user s in
      bindE (calc_pending us (get_reward_index s)) (\<lambda>earned.
      ck_i128 (earned + us_pending_amount us)))"

section \<open>Upgrade governance and pausing\<close>

text \<open>The check the governance entry points start with.\<close>

definition sr_stored_admin :: "env \<Rightarrow> address \<Rightarrow> 'w sr_state \<Rightarrow> sr_error fault + unit" where
  "sr_stored_admin e admin s =
     bindE (require_auth e admin) (\<lambda>_.
     bindE (ok_or (sr_admin s) SR_NotAuthorized) (\<lambda>stored_admin.
     if admin \<noteq> stored_admin then Inl (Err SR_NotAuthorized) else Inr ()))"

definition sr_set_guardian ::
  "env \<Rightarrow> address \<Rightarrow> address \<Rightarrow> 'w sr_state \<Rightarrow> sr_error fault + 'w sr_state" where
  "sr_set_guardian e admin guardian s =
     bindE (sr_stored_admin e admin s) (\<lambda>_.
     Inr (publish [VSym ''staking_rewards'', VSym ''set_guardian''] [VAddr guardian]
            (s\<lparr>sr_guardian := Some guardian\<rparr>)))"

definition sr_set_upgrade_delay ::
  "env \<Rightarrow> address \<Rightarrow> nat \<Rightarrow> 'w sr_state \<Rightarrow> sr_error fault + 'w sr_state" where
  "sr_set_upgrade_delay e admin delay s =
     bindE (sr_stored_admin e admin s) (\<lambda>_.
     Inr (publish [VSym ''staking_rewards'', VSym ''set_upgrade_delay''] [VNat delay]
            (s\<lparr>sr_upgrade_delay := Some delay\<rparr>)))"

definition sr_propose_upgrade ::
  "env \<Rightarrow> address \<Rightarrow> bytes32 \<Rightarrow> 'w sr_state \<Rightarrow> sr_error fault + 'w sr_state" where
  "sr_propose_upgrade e admin new_wasm_hash s =
     bindE (sr_stored_admin e admin s) (\<lambda>_.
     if sr_pending_hash s \<noteq> None then Inl (Err SR_UpgradeAlreadyPending)
     else
     bindE (ck_u64 (timestamp e + unwrap_or (sr_upgrade_delay s) 0)) (\<lambda>execute_at.
     Inr (publish [VSym ''staking_rewards'', VSym ''propose_upgrade''] [VBytes new_wasm_hash, VNat execute_at]
            (s\<lparr>sr_pending_hash := Some new_wasm_hash, sr_pending_at := Some execute_at\<rparr>))))"

definition sr_execute_upgrade :: "env \<Rightarrow> address \<Rightarrow> 'w sr_state \<Rightarrow> sr_error fault + 'w sr_state" where
  "sr_execute_upgrade e admin s =
     bindE (sr_stored_admin e admin s) (\<lambda>_.
     bindE (ok_or (sr_pending_hash s) SR_NoUpgradePending) (\<lambda>hash.
     bindE (ok_or (sr_pending_at s) SR_NoUpgradePending) (\<lambda>execute_at.
     if timestamp e < execute_at then Inl (Err SR_UpgradeDelayNotMet)
     else Inr ((publish [VSym ''staking_rewards'', VSym ''execute_upgrade''] [VBytes hash]
            (s\<lparr>sr_pending_hash := None, sr_pending_at := None\<rparr>))\<lparr>sr_wasm := Some hash\<rparr>))))"

definition sr_emergency_upgrade ::
  "env \<Rightarrow> address \<Rightarrow> bytes32 \<Rightarrow> 'w sr_state \<Rightarrow> sr_error fault + 'w sr_state" where
  "sr_emergency_upgrade e admin new_wasm_hash s =
     bindE (sr_stored_admin e admin s) (\<lambda>_.
     bindE (case sr_guardian s of Some g \<Rightarrow> require_auth e g | None \<Rightarrow> Inr ()) (\<lambda>_.
     Inr ((publish [VSym ''staking_rewards'', VSym ''emergency_upgrade''] [VAddr admin, VBytes new_wasm_hash]
            (s\<lparr>sr_pending_hash := None, sr_pending_at := None\<rparr>))\<lparr>sr_wasm := Some new_wasm_hash\<rparr>)))"

definition sr_cancel_upgrade :: "env \<Rightarrow> address \<Rightarrow> 'w sr_state \<Rightarrow> sr_error fault + 'w sr_state" where
  "sr_cancel_upgrade e admin s =
     bindE (sr_stored_admin e admin s) (\<lambda>_.
     if sr_pending_hash s = None then Inl (Err SR_NoUpgradePending)
     else Inr (publish [VSym ''staking_rewards'', VSym ''cancel_upgrade''] [VAddr admin]
            (s\<lparr>sr_pending_hash := None, sr_pending_at := None\<rparr>)))"

text \<open>The admin argument of \<open>pause\<close> and \<open>unpause\<close> is ignored; the stored admin has to authorise.\<close>

definition sr_pause :: "env \<Rightarrow> address \<Rightarrow> 'w sr_state \<Rightarrow> pausable_error fault + 'w sr_state" where
  "sr_pause e admin s =
     bindE (map_err (\<lambda>_. PE_NotAuthorized) (sr_require_admin e s)) (\<lambda>_.
     Inr (publish [VSym ''Pausable'', VSym ''pause''] [] (s\<lparr>sr_paused := Some True\<rparr>)))"

definition sr_unpause :: "env \<Rightarrow> address \<Rightarrow> 'w sr_state \<Rightarrow> pausable_error fault + 'w sr_state" where
  "sr_unpause e admin s =
     bindE (map_err (\<lambda>_. PE_NotAuthorized) (sr_require_admin e s)) (\<lambda>_.
     Inr (publish [VSym ''Pausable'', VSym ''unpause''] [] (s\<lparr>sr_paused := Some False\<rparr>)))"

interpretation sr_pausable: pausable sr_pause sr_unpause sr_is_paused sr_admin
  by unfold_locales
    (auto simp: sr_pause_def sr_unpause_def sr_is_paused_def sr_require_admin_def outcome_simps
      host_simps split: option.splits)

section \<open>All entry points\<close>

datatype sr_call =
    SR_Init address
  | SR_SetAdmin address
  | SR_AddOperator address
  | SR_RemoveOperator
  | SR_Stake address int
  | SR_Unstake address int
  | SR_Fund int
  | SR_Distribute int
  | SR_Claim address
  | SR_SetGuardian address address
  | SR_SetUpgradeDelay address nat
  | SR_ProposeUpgrade address bytes32
  | SR_ExecuteUpgrade address
  | SR_EmergencyUpgrade address bytes32
  | SR_CancelUpgrade address
  | SR_Pause address
  | SR_Unpause address

datatype sr_any_error = SR_Contract sr_error | SR_Pausable pausable_error

fun sr_exec :: "env \<Rightarrow> sr_call \<Rightarrow> 'w sr_state \<Rightarrow> sr_any_error fault + 'w sr_state" where
  "sr_exec e (SR_Init a) s = map_err SR_Contract (sr_init a s)"
| "sr_exec e (SR_SetAdmin a) s = map_err SR_Contract (sr_set_admin e a s)"
| "sr_exec e (SR_AddOperator a) s = map_err SR_Contract (add_operator e a s)"
| "sr_exec e SR_RemoveOperator s = map_err SR_Contract (remove_operator e s)"
| "sr_exec e (SR_Stake u n) s = map_err SR_Contract (sr_stake e u n s)"
| "sr_exec e (SR_Unstake u n) s = map_err SR_Contract (sr_unstake e u n s)"
| "sr_exec e (SR_Fund n) s = map_err SR_Contract (sr_fund_rewards e n s)"
| "sr_exec e (SR_Distribute n) s = map_err SR_Contract (distribute_rewards e n s)"
| "sr_exec e (SR_Claim u) s = map_err SR_Contract (drop_result (sr_claim e u s))"
| "sr_exec e (SR_SetGuardian a g) s = map_err SR_Contract (sr_set_guardian e a g s)"
| "sr_exec e (SR_SetUpgradeDelay a d) s = map_err SR_Contract (sr_set_upgrade_delay e a d s)"
| "sr_exec e (SR_ProposeUpgrade a h) s = map_err SR_Contract (sr_propose_upgrade e a h s)"
| "sr_exec e (SR_ExecuteUpgrade a) s = map_err SR_Contract (sr_execute_upgrade e a s)"
| "sr_exec e (SR_EmergencyUpgrade a h) s = map_err SR_Contract (sr_emergency_upgrade e a h s)"
| "sr_exec e (SR_CancelUpgrade a) s = map_err SR_Contract (sr_cancel_upgrade e a s)"
| "sr_exec e (SR_Pause a) s = map_err SR_Pausable (sr_pause e a s)"
| "sr_exec e (SR_Unpause a) s = map_err SR_Pausable (sr_unpause e a s)"

end
