(* ===== verification/StakingRewardsProps.thy ===== *)
theory StakingRewardsProps
  imports StakingRewards
begin

text \<open>
  What the reward ledger promises: over any history, the rewards claimed and claimable exceed the
  funding by less than one unit per distribution, and a history in which they do exceed it.
\<close>

lemma SCALE_pos: "0 < SCALE" by (simp add: SCALE_def)

section \<open>Accounting over a history\<close>

text \<open>
  A history keeps the rewards paid by claims, the number of distributions and the state; a failed
  call changes none of them.
\<close>

definition sr_paid :: "env \<Rightarrow> sr_call \<Rightarrow> 'w sr_state \<Rightarrow> int" where
  "sr_paid e c s = (case c of SR_Claim u \<Rightarrow> (case sr_claim e u s of Inl _ \<Rightarrow> 0 | Inr (r, _) \<Rightarrow> r) | _ \<Rightarrow> 0)"

definition is_funding :: "sr_call \<Rightarrow> bool" where
  "is_funding c \<longleftrightarrow> (\<exists>n. c = SR_Fund n \<or> c = SR_Distribute n)"

fun sr_tally :: "(env \<times> sr_call) list \<Rightarrow> int \<Rightarrow> nat \<Rightarrow> 'w sr_state \<Rightarrow> int \<times> nat \<times> 'w sr_state" where
  "sr_tally [] paid k s = (paid, k, s)"
| "sr_tally ((e, c) # cs) paid k s =
     (case sr_exec e c s of
        Inl _ \<Rightarrow> sr_tally cs paid k s
      | Inr s' \<Rightarrow> sr_tally cs (paid + sr_paid e c s) (if is_funding c then k + 1 else k) s')"

lemma is_funding_simps [simp]:
  "is_funding (SR_Fund n)" "is_funding (SR_Distribute n)" "\<not> is_funding (SR_Claim u)"
  "\<not> is_funding (SR_Stake u n)" "\<not> is_funding (SR_Unstake u n)" "\<not> is_funding (SR_Init a)"
  by (simp_all add: is_funding_def)

text \<open>The liability of one user in units of \<open>1 / SCALE\<close>, and what the user could claim.\<close>

definition us_debt :: "int \<Rightarrow> user_stake \<Rightarrow> int" where
  "us_debt i us = SCALE * us_pending_amount us + us_amount us * (i - us_user_index us)"

definition us_due :: "int \<Rightarrow> user_stake \<Rightarrow> int" where
  "us_due i us = us_pending_amount us + us_amount us * (i - us_user_index us) div SCALE"

lemma us_due_le_debt: "SCALE * us_due i us \<le> us_debt i us"
  using mult_div_le_int [OF SCALE_pos, of "us_amount us * (i - us_user_index us)"]
  by (simp add: us_due_def us_debt_def algebra_simps)

definition sr_debt :: "'w sr_state \<Rightarrow> int" where
  "sr_debt s = msum (\<lambda>_. us_debt (get_reward_index s)) (sr_users s)"

text \<open>
  The invariant: sane user entries that sum up to the total, non-negative dust, and a liability that
  the funding covers up to one unit for each of the \<open>k\<close> distributions.
\<close>

definition us_ok :: "int \<Rightarrow> user_stake \<Rightarrow> bool" where
  "us_ok i us \<longleftrightarrow> 0 \<le> us_amount us \<and> 0 \<le> us_pending_amount us \<and> us_user_index us \<le> i"

definition sr_books :: "'w sr_state \<Rightarrow> bool" where
  "sr_books s \<longleftrightarrow> finite (dom (sr_users s)) \<and> 0 \<le> get_reward_index s \<and> 0 \<le> get_pending_dust s \<and>
     (\<forall>u us. sr_users s u = Some us \<longrightarrow> us_ok (get_reward_index s) us) \<and>
     sr_get_total_staked s = msum (\<lambda>_. us_amount) (sr_users s)"

definition sr_bounded :: "int \<Rightarrow> nat \<Rightarrow> 'w sr_state \<Rightarrow> bool" where
  "sr_bounded paid k s \<longleftrightarrow> sr_books s \<and>
     sr_debt s + SCALE * paid \<le> SCALE * (get_total_funded s - get_pending_dust s + int k)"

lemma sr_user_ok: "sr_books s \<Longrightarrow> us_ok (get_reward_index s) (get_user_stake u s)"
  by (cases "sr_users s u") (auto simp: sr_books_def get_user_stake_def us_ok_def)

lemma calc_pending_Inr:
  assumes "calc_pending us i = Inr r" and "us_ok i us"
  shows "r = us_amount us * (i - us_user_index us) div SCALE"
proof -
  have "0 \<le> us_amount us * (i - us_user_index us)" using assms(2) by (simp add: us_ok_def)
  with assms(1) SCALE_pos show ?thesis
    by (auto simp: calc_pending_def outcome_simps sdiv_nonneg)
qed

section \<open>What the operations do to the books\<close>

text \<open>Replacing one user's entry by one settled at the current index.\<close>

lemma sr_user_step:
  assumes "sr_bounded paid k s"
    and "sr_users s' = (sr_users s)(u \<mapsto> \<lparr>us_amount = n, us_user_index = get_reward_index s,
           us_pending_amount = us_due (get_reward_index s) (get_user_stake u s) - p\<rparr>)"
    and "sr_reward_index s' = sr_reward_index s" and "sr_dust s' = sr_dust s"
    and "sr_funded s' = sr_funded s"
    and "sr_get_total_staked s' = sr_get_total_staked s + n - us_amount (get_user_stake u s)"
    and "0 \<le> n" and "0 \<le> p" and "p \<le> us_due (get_reward_index s) (get_user_stake u s)"
  shows "sr_bounded (paid + p) k s'"
proof -
  let ?i = "get_reward_index s" and ?us = "get_user_stake u s"
  have books: "sr_books s" and bound: "sr_debt s + SCALE * paid \<le>
      SCALE * (get_total_funded s - get_pending_dust s + int k)"
    using assms(1) by (auto simp: sr_bounded_def)
  have fin: "finite (dom (sr_users s))" using books by (simp add: sr_books_def)
  have same: "get_reward_index s' = ?i" "get_pending_dust s' = get_pending_dust s"
    "get_total_funded s' = get_total_funded s"
    using assms(3-5) by (simp_all add: get_reward_index_def get_pending_dust_def get_total_funded_def)
  have entry: "unwrap_or (sr_users s u) \<lparr>us_amount = 0, us_user_index = 0, us_pending_amount = 0\<rparr> = ?us"
    by (simp add: get_user_stake_def)
  have zero: "us_debt ?i \<lparr>us_amount = 0, us_user_index = 0, us_pending_amount = 0\<rparr> = 0"
    by (simp add: us_debt_def)
  have "sr_debt s' = sr_debt s - us_debt ?i ?us + SCALE * (us_due ?i ?us - p)"
    unfolding sr_debt_def same assms(2)
    using msum_upd_default [OF fin, of "\<lambda>_. us_debt ?i" u, OF zero] by (simp add: entry us_debt_def)
  then have "sr_debt s' + SCALE * (paid + p) \<le> sr_debt s + SCALE * paid"
    using us_due_le_debt [of ?i ?us] by (simp add: algebra_simps)
  moreover have "msum (\<lambda>_. us_amount) (sr_users s') = msum (\<lambda>_. us_amount) (sr_users s) + n - us_amount ?us"
    unfolding assms(2)
    using msum_upd_default [OF fin, of "\<lambda>_. us_amount" u "\<lparr>us_amount = 0, us_user_index = 0, us_pending_amount = 0\<rparr>"]
    by (simp add: entry)
  moreover have "us_ok ?i us" if "sr_users s' v = Some us" for v us
    using that books assms(2,7-9) by (cases "v = u") (auto simp: sr_books_def us_ok_def)
  ultimately show ?thesis
    using books bound assms(2,6) fin by (simp add: sr_bounded_def sr_books_def same)
qed

lemma distribute_Inr:
  assumes "distribute nm n s = Inr s'" and "sr_books s"
  shows "0 < n \<and> sr_users s' = sr_users s \<and> sr_total_staked s' = sr_total_staked s \<and>
    get_total_funded s' = get_total_funded s + n \<and>
    (if sr_get_total_staked s = 0
     then sr_reward_index s' = sr_reward_index s \<and> sr_dust s' = sr_dust s
     else let d = n + get_pending_dust s; t = sr_get_total_staked s; inc = d * SCALE div t in
       get_reward_index s' = get_reward_index s + inc \<and>
       get_pending_dust s' = d - inc * t div SCALE)"
proof -
  have "0 \<le> sr_get_total_staked s" "0 \<le> get_pending_dust s"
    using assms(2) by (auto simp: sr_books_def us_ok_def intro!: msum_nonneg)
  with assms(1) SCALE_pos show ?thesis
    by (auto simp: distribute_def outcome_simps Let_def host_simps get_total_funded_def
        get_reward_index_def get_pending_dust_def sr_get_total_staked_def sdiv_nonneg
        pos_imp_zdiv_nonneg_iff split: if_splits)
qed

text \<open>
  What an index increment commits: the increment is rounded down, the committed tokens once more, so less than
  one unit gets lost between them.
\<close>

lemma increment_commits:
  fixes d t :: int
  assumes "0 \<le> d" and "0 < t"
  defines "inc \<equiv> d * SCALE div t"
  shows "0 \<le> inc" and "inc * t div SCALE \<le> d" and "inc * t \<le> SCALE * (inc * t div SCALE) + SCALE"
proof -
  show "0 \<le> inc" using assms(1,2) SCALE_pos by (simp add: inc_def pos_imp_zdiv_nonneg_iff)
  have "inc * t \<le> d * SCALE"
    using mult_div_le_int [OF assms(2), of "d * SCALE"] by (simp add: inc_def mult.commute)
  then have "inc * t div SCALE \<le> d * SCALE div SCALE" using SCALE_pos by (rule zdiv_mono1)
  then show "inc * t div SCALE \<le> d" using SCALE_pos by simp
  have "inc * t - SCALE * (inc * t div SCALE) = inc * t mod SCALE" by (simp add: minus_mult_div_eq_mod)
  then show "inc * t \<le> SCALE * (inc * t div SCALE) + SCALE"
    using pos_mod_bound [OF SCALE_pos, of "inc * t"] by linarith
qed

lemma debt_at_higher_index:
  assumes "sr_books s"
  shows "msum (\<lambda>_. us_debt (get_reward_index s + inc)) (sr_users s) = sr_debt s + inc * sr_get_total_staked s"
proof -
  have "us_debt (get_reward_index s + inc) = (\<lambda>us. us_debt (get_reward_index s) us + inc * us_amount us)"
    by (rule ext) (simp add: us_debt_def algebra_simps)
  then show ?thesis
    using assms by (simp add: sr_books_def sr_debt_def msum_add msum_linear [of inc "\<lambda>_. us_amount"])
qed

lemma sr_distribute_bounded:
  assumes "sr_bounded paid k s" and "distribute nm n s = Inr s'"
  shows "sr_bounded paid (k + 1) s'"
proof -
  have books: "sr_books s" and bound: "sr_debt s + SCALE * paid \<le>
      SCALE * (get_total_funded s - get_pending_dust s + int k)"
    using assms(1) by (auto simp: sr_bounded_def)
  note d = distribute_Inr [OF assms(2) books]
  let ?i = "get_reward_index s" and ?t = "sr_get_total_staked s"
  have total: "?t = msum (\<lambda>_. us_amount) (sr_users s)" "0 \<le> ?t"
    using books by (auto simp: sr_books_def us_ok_def intro!: msum_nonneg)
  have t': "sr_get_total_staked s' = ?t" using d by (simp add: sr_get_total_staked_def)
  show ?thesis
  proof (cases "?t = 0")
    case True
    have "SCALE * (get_total_funded s - get_pending_dust s + int k) \<le>
        SCALE * (get_total_funded s + n - get_pending_dust s + int (k + 1))"
      using d SCALE_pos by (intro mult_left_mono) auto
    with bound have "sr_debt s + SCALE * paid \<le>
        SCALE * (get_total_funded s + n - get_pending_dust s + int (k + 1))" by linarith
    with True show ?thesis
      using d books t'
      by (simp add: sr_bounded_def sr_books_def sr_debt_def get_reward_index_def get_pending_dust_def)
  next
    case False
    let ?d = "n + get_pending_dust s"
    let ?inc = "?d * SCALE div ?t"
    let ?com = "?inc * ?t div SCALE"
    have s': "sr_users s' = sr_users s" "get_reward_index s' = ?i + ?inc"
      "get_pending_dust s' = ?d - ?com" "get_total_funded s' = get_total_funded s + n" "0 < n"
      using d False by (auto simp: Let_def)
    have pos: "0 \<le> ?d" "0 < ?t" using books s' False total by (auto simp: sr_books_def)
    note inc = increment_commits [OF pos]
    have "sr_debt s' = sr_debt s + ?inc * ?t"
      unfolding sr_debt_def s' debt_at_higher_index [OF books] by (simp add: sr_debt_def)
    then have "sr_debt s' + SCALE * paid \<le>
        SCALE * (get_total_funded s' - get_pending_dust s' + int (k + 1))"
      using bound inc(3) unfolding s' by (simp add: algebra_simps)
    moreover have "us_ok (?i + ?inc) us" if "sr_users s u = Some us" for u us
      using that books inc(1) by (force simp: sr_books_def us_ok_def)
    ultimately show ?thesis
      using books inc(1,2) t' by (simp add: sr_bounded_def sr_books_def s')
  qed
qed

lemma sr_stake_bounded:
  assumes "sr_bounded paid k s" and "sr_stake e u n s = Inr s'"
  shows "sr_bounded paid k s'"
proof -
  let ?us = "get_user_stake u s"
  have ok: "us_ok (get_reward_index s) ?us" using assms(1) by (simp add: sr_bounded_def sr_user_ok)
  have nonneg: "0 \<le> us_due (get_reward_index s) ?us"
    using ok SCALE_pos by (simp add: us_due_def us_ok_def pos_imp_zdiv_nonneg_iff)
  from assms(2) have "0 < n \<and> (\<exists>r. calc_pending ?us (get_reward_index s) = Inr r \<and>
      sr_users s' = (sr_users s)(u \<mapsto> \<lparr>us_amount = us_amount ?us + n,
        us_user_index = get_reward_index s, us_pending_amount = us_pending_amount ?us + r\<rparr>)) \<and>
      sr_reward_index s' = sr_reward_index s \<and> sr_dust s' = sr_dust s \<and> sr_funded s' = sr_funded s \<and>
      sr_get_total_staked s' = sr_get_total_staked s + n"
    by (auto simp: sr_stake_def outcome_simps Let_def host_simps put_user_stake_def
        sr_get_total_staked_def split: if_splits)
  with calc_pending_Inr [OF _ ok] ok nonneg show ?thesis
    using sr_user_step [OF assms(1), of s' u "us_amount ?us + n" 0]
    by (auto simp: us_due_def us_ok_def)
qed

lemma sr_unstake_bounded:
  assumes "sr_bounded paid k s" and "sr_unstake e u n s = Inr s'"
  shows "sr_bounded paid k s'"
proof -
  let ?us = "get_user_stake u s"
  have ok: "us_ok (get_reward_index s) ?us" using assms(1) by (simp add: sr_bounded_def sr_user_ok)
  have nonneg: "0 \<le> us_due (get_reward_index s) ?us"
    using ok SCALE_pos by (simp add: us_due_def us_ok_def pos_imp_zdiv_nonneg_iff)
  from assms(2) have "n \<le> us_amount ?us \<and> (\<exists>r. calc_pending ?us (get_reward_index s) = Inr r \<and>
      sr_users s' = (sr_users s)(u \<mapsto> \<lparr>us_amount = us_amount ?us - n,
        us_user_index = get_reward_index s, us_pending_amount = us_pending_amount ?us + r\<rparr>)) \<and>
      sr_reward_index s' = sr_reward_index s \<and> sr_dust s' = sr_dust s \<and> sr_funded s' = sr_funded s \<and>
      sr_get_total_staked s' = sr_get_total_staked s - n"
    by (auto simp: sr_unstake_def outcome_simps Let_def host_simps put_user_stake_def
        sr_get_total_staked_def split: if_splits)
  with calc_pending_Inr [OF _ ok] ok nonneg show ?thesis
    using sr_user_step [OF assms(1), of s' u "us_amount ?us - n" 0]
    by (auto simp: us_due_def us_ok_def)
qed

lemma sr_claim_bounded:
  assumes "sr_bounded paid k s" and "sr_claim e u s = Inr (r, s')"
  shows "sr_bounded (paid + r) k s' \<and> r = us_due (get_reward_index s) (get_user_stake u s) \<and> 0 \<le> r"
proof -
  let ?us = "get_user_stake u s"
  have ok: "us_ok (get_reward_index s) ?us" using assms(1) by (simp add: sr_bounded_def sr_user_ok)
  have nonneg: "0 \<le> us_due (get_reward_index s) ?us"
    using ok SCALE_pos by (simp add: us_due_def us_ok_def pos_imp_zdiv_nonneg_iff)
  have zero: "?us\<lparr>us_user_index := i, us_pending_amount := 0\<rparr> =
      \<lparr>us_amount = us_amount ?us, us_user_index = i, us_pending_amount = 0\<rparr>" for i
    by (cases ?us) simp
  from assms(2) have c: "(\<exists>x. calc_pending ?us (get_reward_index s) = Inr x \<and>
      r = x + us_pending_amount ?us) \<and>
      sr_users s' = (sr_users s)(u \<mapsto> \<lparr>us_amount = us_amount ?us,
        us_user_index = get_reward_index s, us_pending_amount = 0\<rparr>) \<and>
      sr_reward_index s' = sr_reward_index s \<and> sr_dust s' = sr_dust s \<and> sr_funded s' = sr_funded s \<and>
      sr_get_total_staked s' = sr_get_total_staked s"
    by (auto simp: sr_claim_def outcome_simps Let_def host_simps put_user_stake_def zero
        sr_get_total_staked_def split: if_splits)
  then have r: "r = us_due (get_reward_index s) ?us"
    using calc_pending_Inr [OF _ ok] by (auto simp: us_due_def)
  with c ok nonneg show ?thesis
    using sr_user_step [OF assms(1), of s' u "us_amount ?us" r] by (auto simp: us_ok_def)
qed

lemma sr_other_bounded:
  assumes "sr_exec e c s = Inr s'" and "\<not> is_funding c"
    and "\<And>u n. c \<noteq> SR_Stake u n" "\<And>u n. c \<noteq> SR_Unstake u n" "\<And>u. c \<noteq> SR_Claim u"
  shows "sr_users s' = sr_users s \<and> sr_reward_index s' = sr_reward_index s \<and>
    sr_dust s' = sr_dust s \<and> sr_funded s' = sr_funded s \<and> sr_total_staked s' = sr_total_staked s"
  using assms by (cases c) (auto simp: sr_init_def sr_set_admin_def add_operator_def
      remove_operator_def sr_set_guardian_def sr_set_upgrade_delay_def sr_propose_upgrade_def
      sr_execute_upgrade_def sr_emergency_upgrade_def sr_cancel_upgrade_def sr_pause_def
      sr_unpause_def is_funding_def outcome_simps host_simps Let_def split: if_splits option.splits)

lemma sr_exec_bounded:
  assumes "sr_bounded paid k s" and "sr_exec e c s = Inr s'"
  shows "sr_bounded (paid + sr_paid e c s) (if is_funding c then k + 1 else k) s'"
proof (cases c)
  case (SR_Stake u n)
  with assms sr_stake_bounded show ?thesis by (auto simp: outcome_simps sr_paid_def)
next
  case (SR_Unstake u n)
  with assms sr_unstake_bounded show ?thesis by (auto simp: outcome_simps sr_paid_def)
next
  case (SR_Claim u)
  with assms(2) obtain r where "sr_claim e u s = Inr (r, s')" by (auto simp: outcome_simps)
  with conjunct1 [OF sr_claim_bounded [OF assms(1) this]] SR_Claim show ?thesis
    by (simp add: sr_paid_def)
next
  case (SR_Fund n)
  with assms sr_distribute_bounded show ?thesis
    by (auto simp: outcome_simps sr_paid_def sr_fund_rewards_def)
next
  case (SR_Distribute n)
  with assms sr_distribute_bounded show ?thesis
    by (auto simp: outcome_simps sr_paid_def distribute_rewards_def)
qed (use sr_other_bounded [OF assms(2)] assms(1) in \<open>auto simp: sr_bounded_def sr_books_def sr_debt_def
    get_reward_index_def get_pending_dust_def get_total_funded_def sr_get_total_staked_def
    sr_paid_def is_funding_def\<close>)

lemma sr_tally_bounded:
  "sr_bounded paid k s \<Longrightarrow> sr_tally cs paid k s = (paid', k', s') \<Longrightarrow> sr_bounded paid' k' s'"
proof (induction cs arbitrary: paid k s)
  case (Cons x cs)
  obtain e c where x: "x = (e, c)" by (cases x)
  show ?case
  proof (cases "sr_exec e c s")
    case (Inl f)
    with Cons x show ?thesis by simp
  next
    case (Inr s1)
    from sr_exec_bounded [OF Cons.prems(1) this] Cons.IH Cons.prems(2) x Inr show ?thesis by simp
  qed
qed simp

definition sr_fresh :: "'w \<Rightarrow> 'w sr_state" where
  "sr_fresh w = \<lparr>events = [], world = w, sr_version = None, sr_admin = None, sr_operator = None,
     sr_paused = None, sr_guardian = None, sr_upgrade_delay = None, sr_pending_hash = None,
     sr_pending_at = None, sr_wasm = None, sr_users = Map.empty, sr_reward_index = None,
     sr_total_staked = None, sr_dust = None, sr_funded = None\<rparr>"

lemma sr_fresh_bounded: "sr_bounded 0 0 (sr_fresh w)"
  by (simp add: sr_bounded_def sr_books_def sr_fresh_def sr_debt_def get_reward_index_def
      get_pending_dust_def get_total_funded_def sr_get_total_staked_def)

text \<open>C8. Over any history from a fresh deployment, the rewards already claimed plus all rewards
  users can still claim exceed the funding less the carried dust by at most one unit for each
  distribution.\<close>

theorem rewards_bounded_by_funding:
  assumes "sr_tally cs 0 0 (sr_fresh w) = (paid, k, s)"
  shows "paid + (\<Sum>u \<in> dom (sr_users s). us_due (get_reward_index s) (get_user_stake u s)) \<le>
    get_total_funded s - get_pending_dust s + int k"
proof -
  have b: "sr_bounded paid k s" by (rule sr_tally_bounded [OF sr_fresh_bounded assms])
  have "SCALE * (\<Sum>u \<in> dom (sr_users s). us_due (get_reward_index s) (get_user_stake u s)) \<le> sr_debt s"
    unfolding sr_debt_def msum_def sum_distrib_left
    by (rule sum_mono) (auto simp: get_user_stake_def intro: us_due_le_debt)
  then have "SCALE * (paid + (\<Sum>u \<in> dom (sr_users s). us_due (get_reward_index s) (get_user_stake u s)))
      \<le> SCALE * (get_total_funded s - get_pending_dust s + int k)"
    using b by (simp add: sr_bounded_def distrib_left)
  then show ?thesis using SCALE_pos by (simp add: mult_le_cancel_left_pos)
qed

section \<open>Rewards beyond the funding\<close>

text \<open>
  The dust carried over is what rounding left of the committed amount, but the index already holds
  the fraction that was rounded away: three distributions of 1 to a stake of 3 pay 4.
\<close>

definition dust_calls :: "(env \<times> sr_call) list" where
  "dust_calls =
     [(call_at 1 (Address 9) (Address 10), SR_Init (Address 10)),
      (call_at 2 (Address 9) (Address 2), SR_Stake (Address 2) 3),
      (call_at 3 (Address 9) (Address 10), SR_Distribute 1),
      (call_at 4 (Address 9) (Address 10), SR_Distribute 1),
      (call_at 5 (Address 9) (Address 10), SR_Distribute 1),
      (call_at 6 (Address 9) (Address 2), SR_Claim (Address 2))]"

lemmas sr_eval = sr_require_admin_def sr_require_operator_def sr_is_paused_def
  sr_require_not_paused_def get_user_stake_def put_user_stake_def get_reward_index_def
  sr_get_total_staked_def get_pending_dust_def get_total_funded_def calc_pending_def
  sr_init_def sr_stake_def distribute_rewards_def distribute_def sr_claim_def sr_paid_def
  ck_i128_def div_i128_def i128_ok_def SCALE_def Let_def host_simps signed_divide_int_def

text \<open>The dust carry-over counts fractions twice: there is a history in which the users claim
  more than was ever funded (4 claimed of 3 funded).\<close>

theorem claims_exceed_funding:
  "\<exists>s. sr_tally dust_calls 0 0 (sr_fresh w) = (4, 3, s) \<and> get_total_funded s = 3"
  by (simp add: dust_calls_def sr_fresh_def sr_eval drop_result_def is_funding_def)

lemma rewards_bounded_by_funding_witness:
  "\<exists>s. sr_tally dust_calls 0 0 (sr_fresh ()) = (4, 3, s) \<and>
    4 + (\<Sum>u \<in> dom (sr_users s). us_due (get_reward_index s) (get_user_stake u s)) \<le>
      get_total_funded s - get_pending_dust s + 3"
proof -
  have "\<exists>s. sr_tally dust_calls 0 0 (sr_fresh ()) = (4, 3, s)"
    by (simp add: dust_calls_def sr_fresh_def sr_eval drop_result_def is_funding_def)
  then obtain s where "sr_tally dust_calls 0 0 (sr_fresh ()) = (4, 3, s)" by blast
  from rewards_bounded_by_funding [OF this] this show ?thesis by auto
qed

end
