(* ===== verification/Vesting.thy ===== *)
theory Vesting
  imports ReentrancyGuard Pausable
begin

text \<open>
  The vesting contract (\<open>vesting_schedule/src/lib.rs\<close>): one linear schedule with a cliff per
  beneficiary, claims of what has vested, revocation by the admin.  The contract only keeps the
  accounts; it transfers no tokens.
\<close>

section \<open>State and errors\<close>

record vesting_schedule =
  vs_beneficiary :: address
  vs_total_amount :: int
  vs_claimed_amount :: int
  vs_start_time :: nat
  vs_end_time :: nat
  vs_cliff_time :: nat
  vs_revocable :: bool
  vs_revoked :: bool

datatype vs_error =
    VS_AlreadyInitialized
  | VS_NotAuthorized
  | VS_Paused
  | VS_InvalidAmount
  | VS_InsufficientBalance
  | VS_ScheduleNotFound
  | VS_ScheduleAlreadyExists
  | VS_InvalidTimeParameters
  | VS_InvalidCliffTime
  | VS_CliffNotReached
  | VS_NotRevocable
  | VS_AlreadyRevoked
  | VS_TokenNotSet
  | VS_Revoked
  | VS_NothingToClaim
  | VS_ReentrancyDetected

record 'w vs_state = "'w host" +
  vs_version :: "nat option"
  vs_admin :: "address option"
  vs_paused :: "bool option"
  vs_schedules :: "address \<rightharpoonup> vesting_schedule"
  vs_token :: "address option"
  vs_reentrancy :: "bool option"

section \<open>Helpers\<close>

definition vs_get_admin :: "'w vs_state \<Rightarrow> vs_error fault + address" where
  "vs_get_admin s = ok_or (vs_admin s) VS_NotAuthorized"

definition vs_require_admin :: "env \<Rightarrow> address \<Rightarrow> 'w vs_state \<Rightarrow> vs_error fault + unit" where
  "vs_require_admin e caller s =
     bindE (vs_get_admin s) (\<lambda>admin.
     bindE (require_auth e caller) (\<lambda>_.
     if caller \<noteq> admin then Inl (Err VS_NotAuthorized) else Inr ()))"

definition vs_is_paused :: "'w vs_state \<Rightarrow> bool" where
  "vs_is_paused s = unwrap_or (vs_paused s) False"

definition vs_require_not_paused :: "'w vs_state \<Rightarrow> vs_error fault + unit" where
  "vs_require_not_paused s = (if vs_is_paused s then Inl (Err VS_Paused) else Inr ())"

definition vs_put_lock :: "bool \<Rightarrow> 'w vs_state \<Rightarrow> 'w vs_state" where
  "vs_put_lock b s = s\<lparr>vs_reentrancy := Some b\<rparr>"

interpretation vs_lock: lock_cell vs_reentrancy vs_put_lock
  by unfold_locales (auto simp: vs_put_lock_def)

definition reentrancy_scope ::
  "('w vs_state \<Rightarrow> vs_error fault + 'r \<times> 'w vs_state) \<Rightarrow> 'w vs_state \<Rightarrow>
   vs_error fault + 'r \<times> 'w vs_state" where
  "reentrancy_scope body s = scoped vs_reentrancy vs_put_lock VS_ReentrancyDetected body s"

definition get_vesting_schedule :: "address \<Rightarrow> 'w vs_state \<Rightarrow> vesting_schedule option" where
  "get_vesting_schedule beneficiary s = vs_schedules s beneficiary"

definition set_vesting_schedule ::
  "address \<Rightarrow> vesting_schedule \<Rightarrow> 'w vs_state \<Rightarrow> 'w vs_state" where
  "set_vesting_schedule beneficiary schedule s =
     s\<lparr>vs_schedules := (vs_schedules s)(beneficiary \<mapsto> schedule)\<rparr>"

definition calculate_vested_amount :: "vesting_schedule \<Rightarrow> nat \<Rightarrow> vs_error fault + int" where
  "calculate_vested_amount schedule current_time =
     (if current_time < vs_start_time schedule then Inr 0
      else if vs_end_time schedule \<le> current_time then Inr (vs_total_amount schedule)
      else if vs_end_time schedule \<le> vs_start_time schedule then Inr 0
      else
      bindE (sub_u64 current_time (vs_start_time schedule)) (\<lambda>elapsed.
      bindE (sub_u64 (vs_end_time schedule) (vs_start_time schedule)) (\<lambda>total_duration.
      bindE (ck_i128 (int elapsed * vs_total_amount schedule)) (\<lambda>product.
      bindE (div_i128 product (int total_duration)) (\<lambda>vested.
      Inr (min vested (vs_total_amount schedule)))))))"

definition calculate_claimable_amount :: "vesting_schedule \<Rightarrow> nat \<Rightarrow> vs_error fault + int" where
  "calculate_claimable_amount schedule current_time =
     (if current_time < vs_cliff_time schedule then Inr 0
      else bindE (calculate_vested_amount schedule current_time) (\<lambda>vested.
           Inr (saturating_sub vested (vs_claimed_amount schedule))))"

section \<open>Entry points\<close>

definition vs_initialize ::
  "env \<Rightarrow> address \<Rightarrow> address \<Rightarrow> 'w vs_state \<Rightarrow> vs_error fault + 'w vs_state" where
  "vs_initialize e admin token s =
     (if vs_admin s \<noteq> None then Inl (Err VS_AlreadyInitialized)
      else
      bindE (require_auth e admin) (\<lambda>_.
      Inr (s\<lparr>vs_admin := Some admin, vs_token := Some token, vs_version := Some 1\<rparr>)))"

definition create_vesting_schedule ::
  "env \<Rightarrow> address \<Rightarrow> address \<Rightarrow> int \<Rightarrow> nat \<Rightarrow> nat \<Rightarrow> nat \<Rightarrow> bool \<Rightarrow> 'w vs_state \<Rightarrow>
   vs_error fault + 'w vs_state" where
  "create_vesting_schedule e admin beneficiary total_amount start_time end_time cliff_time revocable s =
     bindE (vs_require_admin e admin s) (\<lambda>_.
     if total_amount \<le> 0 then Inl (Err VS_InvalidAmount)
     else if end_time \<le> start_time then Inl (Err VS_InvalidTimeParameters)
     else if cliff_time < start_time \<or> end_time < cliff_time then Inl (Err VS_InvalidCliffTime)
     else if get_vesting_schedule beneficiary s \<noteq> None then Inl (Err VS_ScheduleAlreadyExists)
     else
     let schedule = \<lparr>vs_beneficiary = beneficiary, vs_total_amount = total_amount,
           vs_claimed_amount = 0, vs_start_time = start_time, vs_end_time = end_time,
           vs_cliff_time = cliff_time, vs_revocable = revocable, vs_revoked = False\<rparr> in
     Inr (publish [VSym ''vesting'', VSym ''created'']
            [VAddr beneficiary, VInt total_amount, VNat start_time, VNat end_time, VNat cliff_time,
             VBool revocable]
          (set_vesting_schedule beneficiary schedule s)))"

definition vs_claim ::
  "env \<Rightarrow> address \<Rightarrow> 'w vs_state \<Rightarrow> vs_error fault + int \<times> 'w vs_state" where
  "vs_claim e beneficiary s =
     bindE (vs_require_not_paused s) (\<lambda>_.
     bindE (require_auth e beneficiary) (\<lambda>_.
     bindE (ok_or (get_vesting_schedule beneficiary s) VS_ScheduleNotFound) (\<lambda>schedule.
     if vs_revoked schedule then Inl (Err VS_Revoked)
     else
     let current_time = timestamp e in
     if current_time < vs_cliff_time schedule then Inl (Err VS_CliffNotReached)
     else
     bindE (calculate_claimable_amount schedule current_time) (\<lambda>claimable.
     if claimable \<le> 0 then Inl (Err VS_NothingToClaim)
     else
     bindE (ck_i128 (vs_claimed_amount schedule + claimable)) (\<lambda>claimed.
     let s = set_vesting_schedule beneficiary (schedule\<lparr>vs_claimed_amount := claimed\<rparr>) s in
     reentrancy_scope (\<lambda>s.
       Inr (claimable, publish [VSym ''vesting'', VSym ''claimed'']
                         [VAddr beneficiary, VInt claimable, VNat current_time] s)) s)))))"

definition vs_revoke ::
  "env \<Rightarrow> address \<Rightarrow> address \<Rightarrow> 'w vs_state \<Rightarrow> vs_error fault + int \<times> 'w vs_state" where
  "vs_revoke e admin beneficiary s =
     bindE (vs_require_admin e admin s) (\<lambda>_.
     bindE (ok_or (get_vesting_schedule beneficiary s) VS_ScheduleNotFound) (\<lambda>schedule.
     if \<not> vs_revocable schedule then Inl (Err VS_NotRevocable)
     else if vs_revoked schedule then Inl (Err VS_AlreadyRevoked)
     else
     bindE (ck_i128 (vs_total_amount schedule - vs_claimed_amount schedule)) (\<lambda>unclaimed.
     let s = set_vesting_schedule beneficiary (schedule\<lparr>vs_revoked := True\<rparr>) s in
     reentrancy_scope (\<lambda>s.
       Inr (unclaimed, publish [VSym ''vesting'', VSym ''revoked'']
                         [VAddr beneficiary, VInt unclaimed] s)) s)))"

definition get_claimable_amount :: "env \<Rightarrow> address \<Rightarrow> 'w vs_state \<Rightarrow> vs_error fault + int" where
  "get_claimable_amount e beneficiary s =
     bindE (ok_or (get_vesting_schedule beneficiary s) VS_ScheduleNotFound) (\<lambda>schedule.
     if vs_revoked schedule then Inr 0
     else calculate_claimable_amount schedule (timestamp e))"

definition vs_set_admin ::
  "env \<Rightarrow> address \<Rightarrow> address \<Rightarrow> 'w vs_state \<Rightarrow> vs_error fault + 'w vs_state" where
  "vs_set_admin e admin new_admin s =
     bindE (vs_require_admin e admin s) (\<lambda>_. Inr (s\<lparr>vs_admin := Some new_admin\<rparr>))"

definition vs_pause :: "env \<Rightarrow> address \<Rightarrow> 'w vs_state \<Rightarrow> vs_error fault + 'w vs_state" where
  "vs_pause e admin s = bindE (vs_require_admin e admin s) (\<lambda>_. Inr (s\<lparr>vs_paused := Some True\<rparr>))"

definition vs_unpause :: "env \<Rightarrow> address \<Rightarrow> 'w vs_state \<Rightarrow> vs_error fault + 'w vs_state" where
  "vs_unpause e admin s = bindE (vs_require_admin e admin s) (\<lambda>_. Inr (s\<lparr>vs_paused := Some False\<rparr>))"

lemmas vs_helper_defs = vs_get_admin_def vs_require_admin_def vs_is_paused_def
  vs_require_not_paused_def get_vesting_schedule_def set_vesting_schedule_def reentrancy_scope_def
  scoped_def vs_put_lock_def exit_lock_def

interpretation vs_pausable: pausable vs_pause vs_unpause vs_is_paused vs_admin
  by unfold_locales (auto simp: vs_pause_def vs_unpause_def vs_helper_defs outcome_simps split: if_splits)

datatype vs_call =
    VS_Initialize address address
  | VS_Create address address int nat nat nat bool
  | VS_Claim address
  | VS_Revoke address address
  | VS_SetAdmin address address
  | VS_Pause address
  | VS_Unpause address

text \<open>An invocation with the amount it pays out to \<open>b\<close>.\<close>

fun vs_exec :: "env \<Rightarrow> vs_call \<Rightarrow> 'w vs_state \<Rightarrow> vs_error fault + 'w vs_state" where
  "vs_exec e (VS_Initialize a t) s = vs_initialize e a t s"
| "vs_exec e (VS_Create a b n st en cl rv) s = create_vesting_schedule e a b n st en cl rv s"
| "vs_exec e (VS_Claim b) s = drop_result (vs_claim e b s)"
| "vs_exec e (VS_Revoke a b) s = drop_result (vs_revoke e a b s)"
| "vs_exec e (VS_SetAdmin a b) s = vs_set_admin e a b s"
| "vs_exec e (VS_Pause a) s = vs_pause e a s"
| "vs_exec e (VS_Unpause a) s = vs_unpause e a s"

section \<open>What has vested\<close>

definition vested_at :: "vesting_schedule \<Rightarrow> nat \<Rightarrow> int" where
  "vested_at v t =
     (if t < vs_start_time v then 0
      else if vs_end_time v \<le> t then vs_total_amount v
      else int (t - vs_start_time v) * vs_total_amount v div int (vs_end_time v - vs_start_time v))"

definition vs_wf :: "vesting_schedule \<Rightarrow> bool" where
  "vs_wf v \<longleftrightarrow> 0 < vs_total_amount v \<and> vs_start_time v < vs_end_time v \<and>
     vs_start_time v \<le> vs_cliff_time v \<and> vs_cliff_time v \<le> vs_end_time v \<and>
     0 \<le> vs_claimed_amount v \<and> vs_claimed_amount v \<le> vs_total_amount v"

lemma linear_share_le:
  fixes n :: int
  assumes "0 \<le> n" and "x \<le> y" and "0 < d"
  shows "int x * n div int d \<le> int y * n div int d"
  using assms by (intro zdiv_mono1) (auto intro: mult_right_mono)

lemma vested_at_le_total: "vs_wf v \<Longrightarrow> vested_at v t \<le> vs_total_amount v"
  using linear_share_le [of "vs_total_amount v" "t - vs_start_time v"
      "vs_end_time v - vs_start_time v" "vs_end_time v - vs_start_time v"]
  by (auto simp: vested_at_def vs_wf_def)

lemma vested_at_nonneg: "vs_wf v \<Longrightarrow> 0 \<le> vested_at v t"
  by (auto simp: vested_at_def vs_wf_def pos_imp_zdiv_nonneg_iff)

lemma vested_at_mono: "vs_wf v \<Longrightarrow> t \<le> t' \<Longrightarrow> vested_at v t \<le> vested_at v t'"
  using vested_at_le_total [of v t] vested_at_nonneg [of v t']
    linear_share_le [of "vs_total_amount v" "t - vs_start_time v" "t' - vs_start_time v"
      "vs_end_time v - vs_start_time v"]
  by (auto simp: vested_at_def vs_wf_def)

lemma calculate_vested_amount_Inr_iff:
  assumes "vs_wf v"
  shows "calculate_vested_amount v t = Inr x \<longleftrightarrow> x = vested_at v t \<and>
    (vs_start_time v \<le> t \<and> t < vs_end_time v \<longrightarrow>
      i128_ok (int (t - vs_start_time v) * vs_total_amount v) \<and> i128_ok (vested_at v t))"
  using assms vested_at_le_total [OF assms, of t]
  by (auto simp: calculate_vested_amount_def vested_at_def vs_wf_def outcome_simps sdiv_nonneg
      signed_divide_int_def sgn_if)

lemma claimable_Inr:
  assumes "calculate_claimable_amount v t = Inr c" and "vs_wf v" and "vs_cliff_time v \<le> t" and "0 < c"
  shows "c \<le> vested_at v t - vs_claimed_amount v"
  using assms by (auto simp: calculate_claimable_amount_def saturating_sub_def outcome_simps
      calculate_vested_amount_Inr_iff min_def max_def split: if_splits)

section \<open>Histories\<close>

text \<open>What a call pays to \<open>b\<close>, and the state of a fresh deployment.\<close>

definition vs_paid :: "address \<Rightarrow> env \<Rightarrow> vs_call \<Rightarrow> 'w vs_state \<Rightarrow> int" where
  "vs_paid b e c s =
     (case c of
        VS_Claim b' \<Rightarrow> if b' = b then (case vs_claim e b s of Inl _ \<Rightarrow> 0 | Inr (r, _) \<Rightarrow> r) else 0
      | _ \<Rightarrow> 0)"

definition vs_fresh :: "'w \<Rightarrow> 'w vs_state" where
  "vs_fresh w = \<lparr>events = [], world = w, vs_version = None, vs_admin = None, vs_paused = None,
     vs_schedules = Map.empty, vs_token = None, vs_reentrancy = None\<rparr>"

text \<open>The account of one beneficiary, for invocations up to time \<open>T\<close>.\<close>

definition vs_account :: "address \<Rightarrow> nat \<Rightarrow> int \<Rightarrow> 'w vs_state \<Rightarrow> bool" where
  "vs_account b T acc s =
     (case get_vesting_schedule b s of
        None \<Rightarrow> acc = 0
      | Some v \<Rightarrow> vs_wf v \<and> vs_beneficiary v = b \<and> acc = vs_claimed_amount v \<and>
          acc \<le> vested_at v T \<and> (T < vs_cliff_time v \<longrightarrow> acc = 0))"

lemmas vs_entry_defs = vs_initialize_def create_vesting_schedule_def vs_claim_def vs_revoke_def
  vs_set_admin_def vs_pause_def vs_unpause_def

lemma vested_at_claimed [simp]:
  "vested_at (v\<lparr>vs_claimed_amount := n\<rparr>) t = vested_at v t"
  "vested_at (v\<lparr>vs_revoked := r\<rparr>) t = vested_at v t"
  by (simp_all add: vested_at_def)

lemma vs_claim_account:
  assumes "vs_account b T acc s" and "timestamp e \<le> T" and "vs_claim e u s = Inr (r, s')"
  shows "vs_account b T (acc + (if u = b then r else 0)) s'"
proof -
  obtain v where v: "get_vesting_schedule u s = Some v" "vs_cliff_time v \<le> timestamp e"
      "calculate_claimable_amount v (timestamp e) = Inr r" "0 < r"
      "vs_schedules s' = (vs_schedules s)(u \<mapsto> v\<lparr>vs_claimed_amount := vs_claimed_amount v + r\<rparr>)"
    using assms(3) by (auto simp: vs_claim_def vs_helper_defs outcome_simps host_simps Let_def
        split: if_splits)
  show ?thesis
  proof (cases "u = b")
    case False
    with v assms(1) show ?thesis by (simp add: vs_account_def get_vesting_schedule_def)
  next
    case True
    with assms(1) v have wf: "vs_wf v" and acc: "acc = vs_claimed_amount v" "vs_beneficiary v = b"
      by (auto simp: vs_account_def)
    have "r \<le> vested_at v (timestamp e) - vs_claimed_amount v" using claimable_Inr v wf by blast
    with vested_at_mono [OF wf assms(2)] vested_at_le_total [OF wf, of T] wf acc v True assms(2)
    show ?thesis by (auto simp: vs_account_def get_vesting_schedule_def vs_wf_def)
  qed
qed

lemma vs_exec_account:
  assumes "vs_account b T acc s" and "timestamp e \<le> T" and "vs_exec e c s = Inr s'"
  shows "vs_account b T (acc + vs_paid b e c s) s'"
proof (cases c)
  case (VS_Claim u)
  with assms(3) obtain r where "vs_claim e u s = Inr (r, s')" by (auto simp: outcome_simps)
  with vs_claim_account [OF assms(1,2) this] VS_Claim show ?thesis by (auto simp: vs_paid_def)
next
  case (VS_Create a u n st en cl rv)
  with assms(3) have "0 < n" "st < en" "st \<le> cl" "cl \<le> en" "vs_schedules s u = None"
    "vs_schedules s' = (vs_schedules s)(u \<mapsto> \<lparr>vs_beneficiary = u, vs_total_amount = n,
           vs_claimed_amount = 0, vs_start_time = st, vs_end_time = en,
           vs_cliff_time = cl, vs_revocable = rv, vs_revoked = False\<rparr>)"
    by (auto simp: vs_entry_defs vs_helper_defs outcome_simps host_simps split: if_splits)
  with assms(1) VS_Create show ?thesis
    by (auto simp: vs_account_def vs_paid_def get_vesting_schedule_def vs_wf_def
        intro!: vested_at_nonneg)
next
  case (VS_Revoke a u)
  with assms(3) obtain v where "vs_schedules s u = Some v"
    "vs_schedules s' = (vs_schedules s)(u \<mapsto> v\<lparr>vs_revoked := True\<rparr>)"
    by (auto simp: vs_entry_defs vs_helper_defs outcome_simps host_simps split: if_splits)
  with assms(1) VS_Revoke show ?thesis
    by (auto simp: vs_account_def vs_paid_def get_vesting_schedule_def vs_wf_def)
qed (use assms in \<open>auto simp: vs_account_def vs_paid_def vs_entry_defs vs_helper_defs outcome_simps
      split: if_splits\<close>)

text \<open>C11. In every history from a fresh deployment, the sum of all amounts claimed by a beneficiary is
  the claimed amount of its schedule, is zero before the cliff, and never exceeds what the schedule
  has vested by the time of the latest call, which never exceeds its total.\<close>

theorem vesting_claims_bounded:
  assumes "tally vs_exec (vs_paid b) cs 0 (vs_fresh w) = (paid, s)"
    and "\<forall>(e, c) \<in> set cs. timestamp e \<le> T"
  shows "case get_vesting_schedule b s of
      None \<Rightarrow> paid = 0
    | Some v \<Rightarrow> paid = vs_claimed_amount v \<and> paid \<le> vested_at v T \<and>
        vested_at v T \<le> vs_total_amount v \<and> (T < vs_cliff_time v \<longrightarrow> paid = 0)"
proof -
  have "vs_account b T 0 (vs_fresh w)"
    by (simp add: vs_account_def vs_fresh_def get_vesting_schedule_def)
  then have "vs_account b T paid s"
    by (rule tally_inv [OF assms(1)]) (use assms(2) in \<open>auto intro: vs_exec_account\<close>)
  then show ?thesis by (auto simp: vs_account_def vested_at_le_total split: option.splits)
qed

text \<open>C12. A claim on a well-formed schedule succeeds exactly when the contract is neither paused nor
  locked, the beneficiary has authorised it, the schedule is not revoked, the cliff is reached,
  something is left to claim, and the product of elapsed time and total fits \<open>i128\<close>; it then pays
  everything vested so far less what was claimed before.\<close>

theorem vesting_claim_iff:
  assumes "get_vesting_schedule b s = Some v" and "vs_wf v" and "i128_ok (vs_total_amount v)"
  shows "(\<exists>s'. vs_claim e b s = Inr (r, s')) \<longleftrightarrow>
    \<not> vs_is_paused s \<and> vs_reentrancy s \<noteq> Some True \<and> authorized e b \<and> \<not> vs_revoked v \<and>
    vs_cliff_time v \<le> timestamp e \<and> r = vested_at v (timestamp e) - vs_claimed_amount v \<and> 0 < r \<and>
    (timestamp e < vs_end_time v \<longrightarrow>
      i128_ok (int (timestamp e - vs_start_time v) * vs_total_amount v))"
proof -
  have le: "vested_at v (timestamp e) \<le> vs_total_amount v" "0 \<le> vested_at v (timestamp e)"
    using assms(2) by (auto intro: vested_at_le_total vested_at_nonneg)
  with assms(2,3) have fits: "i128_ok (vested_at v (timestamp e))"
    "i128_ok (vested_at v (timestamp e) - vs_claimed_amount v)"
    by (auto simp: i128_ok_def vs_wf_def)
  have claimable: "calculate_claimable_amount v (timestamp e) = Inr c \<longleftrightarrow>
      c = vested_at v (timestamp e) - vs_claimed_amount v \<and>
      (timestamp e < vs_end_time v \<longrightarrow>
        i128_ok (int (timestamp e - vs_start_time v) * vs_total_amount v))"
    if "vs_cliff_time v \<le> timestamp e" for c
    using that assms(2) fits by (auto simp: calculate_claimable_amount_def outcome_simps
        calculate_vested_amount_Inr_iff saturating_sub_exact vs_wf_def)
  show ?thesis
    using assms fits by (auto simp: vs_claim_def vs_helper_defs outcome_simps Let_def claimable
        unwrap_or_False_iff)
qed

text \<open>Revocation is final: after a successful revocation no later claim, revocation or creation of
  a schedule for that beneficiary succeeds, so the vested part not yet claimed is lost to it.\<close>

theorem revocation_final:
  assumes "vs_revoke e0 a b s0 = Inr (r, s1)" and "reach vs_exec any_call world_moves s1 s"
    and "c \<in> {VS_Claim b, VS_Revoke a' b, VS_Create a' b n st en cl rv}"
  shows "\<exists>f. vs_exec e c s = Inl f"
proof -
  let ?gone = "\<lambda>s. \<exists>v. get_vesting_schedule b s = Some v \<and> vs_revoked v"
  have "?gone s1" using assms(1)
    by (auto simp: vs_revoke_def vs_helper_defs outcome_simps host_simps split: if_splits)
  have "?gone s" using assms(2)
  proof (induction rule: reach.induct)
    case reach_start
    show ?case by fact
  next
    case (reach_call s e c s')
    then show ?case
      by (cases c) (auto simp: vs_entry_defs vs_helper_defs outcome_simps host_simps Let_def
          split: if_splits)
  next
    case (reach_other s s')
    then show ?case by (auto simp: world_moves_def get_vesting_schedule_def)
  qed
  then show ?thesis using assms(3)
    by (cases "vs_exec e c s")
      (auto simp: vs_entry_defs vs_helper_defs outcome_simps Let_def split: if_splits)
qed

section \<open>Concrete runs\<close>

definition vs_calls :: "(env \<times> vs_call) list" where
  "vs_calls =
     [(call_at 10 (Address 9) (Address 2), VS_Initialize (Address 2) (Address 7)),
      (call_at 10 (Address 9) (Address 2), VS_Create (Address 2) (Address 3) 100 10 20 12 True),
      (call_at 15 (Address 9) (Address 3), VS_Claim (Address 3))]"

lemmas vs_eval = vs_entry_defs vs_helper_defs enter_def calculate_claimable_amount_def
  calculate_vested_amount_def drop_result_def require_auth_def ensure_def ck_i128_def div_i128_def
  sub_u64_def i128_ok_def saturating_sub_def signed_divide_int_def host_simps vs_paid_def

lemma vs_calls_run:
  "\<exists>s. tally vs_exec (vs_paid (Address 3)) vs_calls 0 (vs_fresh ()) = (50, s) \<and>
     get_vesting_schedule (Address 3) s = Some \<lparr>vs_beneficiary = Address 3, vs_total_amount = 100,
       vs_claimed_amount = 50, vs_start_time = 10, vs_end_time = 20, vs_cliff_time = 12,
       vs_revocable = True, vs_revoked = False\<rparr> \<and>
     vs_admin s = Some (Address 2) \<and> vs_paused s = None \<and> vs_reentrancy s = Some False"
  by (simp add: vs_calls_def vs_fresh_def vs_eval)

lemma vesting_claims_bounded_witness:
  "\<exists>s v. tally vs_exec (vs_paid (Address 3)) vs_calls 0 (vs_fresh ()) = (50, s) \<and>
     get_vesting_schedule (Address 3) s = Some v \<and> 50 \<le> vested_at v 15"
proof -
  obtain s v where run: "tally vs_exec (vs_paid (Address 3)) vs_calls 0 (vs_fresh ()) = (50, s)"
    "get_vesting_schedule (Address 3) s = Some v" using vs_calls_run by blast
  have "\<forall>(e, c) \<in> set vs_calls. timestamp e \<le> 15" by (simp add: vs_calls_def)
  from vesting_claims_bounded [OF run(1) this] run show ?thesis by auto
qed

lemma vesting_claim_iff_witness:
  "\<exists>s s'. vs_claim (call_at 18 (Address 9) (Address 3)) (Address 3) (s :: unit vs_state) = Inr (30, s')"
proof -
  obtain s :: "unit vs_state" and v where s: "get_vesting_schedule (Address 3) s = Some v"
    "v = \<lparr>vs_beneficiary = Address 3, vs_total_amount = 100,
       vs_claimed_amount = 50, vs_start_time = 10, vs_end_time = 20, vs_cliff_time = 12,
       vs_revocable = True, vs_revoked = False\<rparr>" "vs_paused s = None" "vs_reentrancy s = Some False"
    using vs_calls_run by blast
  then have "vs_wf v" "i128_ok (vs_total_amount v)" by (simp_all add: vs_wf_def i128_ok_def)
  from vesting_claim_iff [OF s(1) this, of "call_at 18 (Address 9) (Address 3)" 30] s
  have "\<exists>s'. vs_claim (call_at 18 (Address 9) (Address 3)) (Address 3) s = Inr (30, s')"
    by (simp add: vested_at_def i128_ok_def vs_is_paused_def)
  then show ?thesis by blast
qed

lemma revocation_final_witness:
  "\<exists>(s :: unit vs_state) f. vs_exec (call_at 18 (Address 9) (Address 3)) (VS_Claim (Address 3)) s = Inl f"
proof -
  obtain s :: "unit vs_state" where s: "get_vesting_schedule (Address 3) s = Some \<lparr>vs_beneficiary = Address 3,
       vs_total_amount = 100, vs_claimed_amount = 50, vs_start_time = 10, vs_end_time = 20,
       vs_cliff_time = 12, vs_revocable = True, vs_revoked = False\<rparr>" "vs_admin s = Some (Address 2)"
    "vs_reentrancy s = Some False"
    using vs_calls_run by blast
  have "\<exists>s1. vs_revoke (call_at 16 (Address 9) (Address 2)) (Address 2) (Address 3) s = Inr (50, s1)"
    using s by (auto simp: vs_eval)
  then obtain s1 where "vs_revoke (call_at 16 (Address 9) (Address 2)) (Address 2) (Address 3) s = Inr (50, s1)"
    by blast
  from revocation_final [OF this reach_start] show ?thesis by blast
qed

end
