(* ===== verification/MultisigAdmin.thy ===== *)
theory MultisigAdmin
  imports Machines
begin

text \<open>
  The multi-signature admin (\<open>multisig_admin/src/lib.rs\<close>): a fixed list of signers and a threshold,
  proposals with an expiry, approvals that can be revoked, execution and cancellation.  The contract
  has no error type: every failure is a panic.
\<close>

section \<open>State\<close>

record ms_config =
  cfg_signers :: "address list"
  cfg_threshold :: nat

datatype ms_status = MS_Pending | MS_Executed | MS_Cancelled | MS_Expired

datatype ms_operation =
    ForceReleaseEscrow
  | ExecuteSlash
  | UpgradeContract
  | SetOracleStaleness
  | FreezeAccount
  | UpdateUpgradeDelay

record ms_proposal =
  mp_proposer :: address
  mp_operation :: ms_operation
  mp_params :: bytes
  mp_expiry :: nat
  mp_status :: ms_status
  mp_approval_count :: nat

record 'w ms_state = "'w host" +
  ms_cfg :: "ms_config option"
  ms_next_id :: "nat option"
  ms_proposals :: "nat \<rightharpoonup> ms_proposal"
  ms_approvals :: "nat \<rightharpoonup> address list"

type_synonym ms_fault = "unit fault"

definition ms_panic :: "string \<Rightarrow> ms_fault" where
  "ms_panic m = Trap (PanicTrap m)"

definition put_proposal :: "nat \<Rightarrow> ms_proposal \<Rightarrow> 'w ms_state \<Rightarrow> 'w ms_state" where
  "put_proposal i p s = s\<lparr>ms_proposals := (ms_proposals s)(i \<mapsto> p)\<rparr>"

definition put_approvals :: "nat \<Rightarrow> address list \<Rightarrow> 'w ms_state \<Rightarrow> 'w ms_state" where
  "put_approvals i as s = s\<lparr>ms_approvals := (ms_approvals s)(i \<mapsto> as)\<rparr>"

definition get_approvals :: "nat \<Rightarrow> 'w ms_state \<Rightarrow> address list" where
  "get_approvals i s = unwrap_or (ms_approvals s i) []"

definition ms_expired :: "env \<Rightarrow> ms_proposal \<Rightarrow> bool" where
  "ms_expired e p \<longleftrightarrow> mp_expiry p \<noteq> 0 \<and> mp_expiry p < timestamp e"

text \<open>The checks \<open>approve\<close>, \<open>revoke_approval\<close>, \<open>execute\<close> and \<open>cancel\<close> start with.\<close>

definition signer_config :: "env \<Rightarrow> address \<Rightarrow> 'w ms_state \<Rightarrow> ms_fault + ms_config" where
  "signer_config e signer s =
     bindE (require_auth e signer) (\<lambda>_.
     bindE (expect (ms_cfg s) ''NotInitialized'') (\<lambda>cfg.
     if signer \<notin> set (cfg_signers cfg) then Inl (ms_panic ''NotASigner'') else Inr cfg))"

definition pending_proposal :: "nat \<Rightarrow> 'w ms_state \<Rightarrow> ms_fault + ms_proposal" where
  "pending_proposal proposal_id s =
     bindE (expect (ms_proposals s proposal_id) ''UnknownProposal'') (\<lambda>prop.
     if mp_status prop \<noteq> MS_Pending then Inl (ms_panic ''NotPending'') else Inr prop)"

section \<open>Entry points\<close>

definition ms_init :: "address list \<Rightarrow> nat \<Rightarrow> 'w ms_state \<Rightarrow> ms_fault + 'w ms_state" where
  "ms_init signers threshold s =
     (if ms_cfg s \<noteq> None then Inl (ms_panic ''AlreadyInitialized'')
      else if threshold = 0 \<or> length signers < threshold then Inl (ms_panic ''InvalidThreshold'')
      else Inr (publish [VSym ''multisig_admin'', VSym ''init''] []
             (s\<lparr>ms_cfg := Some \<lparr>cfg_signers = signers, cfg_threshold = threshold\<rparr>,
                ms_next_id := Some 1\<rparr>)))"

definition ms_propose ::
  "env \<Rightarrow> address \<Rightarrow> ms_operation \<Rightarrow> bytes \<Rightarrow> nat \<Rightarrow> 'w ms_state \<Rightarrow> ms_fault + nat \<times> 'w ms_state" where
  "ms_propose e proposer operation params expiry s =
     bindE (signer_config e proposer s) (\<lambda>cfg.
     if expiry \<noteq> 0 \<and> expiry \<le> timestamp e then Inl (ms_panic ''ProposalExpired'')
     else
     let i = unwrap_or (ms_next_id s) 1;
         prop = \<lparr>mp_proposer = proposer, mp_operation = operation, mp_params = params,
           mp_expiry = expiry, mp_status = MS_Pending, mp_approval_count = 0\<rparr>;
         s = put_proposal i prop s;
         s = put_approvals i [] s in
     bindE (ck_u64 (i + 1)) (\<lambda>next_id.
     Inr (i, publish [VSym ''multisig_admin'', VSym ''proposal_created''] [VNat i]
               (s\<lparr>ms_next_id := Some next_id\<rparr>))))"

definition ms_approve :: "env \<Rightarrow> address \<Rightarrow> nat \<Rightarrow> 'w ms_state \<Rightarrow> ms_fault + 'w ms_state" where
  "ms_approve e signer proposal_id s =
     bindE (signer_config e signer s) (\<lambda>cfg.
     bindE (pending_proposal proposal_id s) (\<lambda>prop.
     if ms_expired e prop then
       let s = put_proposal proposal_id (prop\<lparr>mp_status := MS_Expired\<rparr>) s;
           s = publish [VSym ''multisig_admin'', VSym ''proposal_expired''] [VNat proposal_id] s in
       Inl (ms_panic ''ProposalExpired'')
     else
     let approvals = get_approvals proposal_id s in
     if signer \<in> set approvals then Inl (ms_panic ''AlreadyApproved'')
     else
     let approvals = approvals @ [signer];
         prop = prop\<lparr>mp_approval_count := length approvals\<rparr> in
     Inr (publish [VSym ''multisig_admin'', VSym ''proposal_approved''] [VNat proposal_id, VAddr signer]
            (put_proposal proposal_id prop (put_approvals proposal_id approvals s)))))"

text \<open>The loop that rebuilds the approvals without the revoking signer.\<close>

fun without_signer :: "address \<Rightarrow> address list \<Rightarrow> address list \<Rightarrow> address list" where
  "without_signer signer [] new_approvals = new_approvals"
| "without_signer signer (addr # approvals) new_approvals =
     without_signer signer approvals (if addr \<noteq> signer then new_approvals @ [addr] else new_approvals)"

definition revoke_approval :: "env \<Rightarrow> address \<Rightarrow> nat \<Rightarrow> 'w ms_state \<Rightarrow> ms_fault + 'w ms_state" where
  "revoke_approval e signer proposal_id s =
     bindE (signer_config e signer s) (\<lambda>cfg.
     bindE (pending_proposal proposal_id s) (\<lambda>prop.
     if ms_expired e prop then Inl (ms_panic ''ProposalExpired'')
     else
     let approvals = get_approvals proposal_id s in
     if signer \<notin> set approvals then Inl (ms_panic ''NotApproved'')
     else
     let new_approvals = without_signer signer approvals [];
         prop = prop\<lparr>mp_approval_count := length new_approvals\<rparr> in
     Inr (publish [VSym ''multisig_admin'', VSym ''approval_revoked''] [VNat proposal_id, VAddr signer]
            (put_proposal proposal_id prop (put_approvals proposal_id new_approvals s)))))"

definition ms_execute :: "env \<Rightarrow> address \<Rightarrow> nat \<Rightarrow> 'w ms_state \<Rightarrow> ms_fault + 'w ms_state" where
  "ms_execute e executor proposal_id s =
     bindE (signer_config e executor s) (\<lambda>cfg.
     bindE (pending_proposal proposal_id s) (\<lambda>prop.
     if ms_expired e prop then
       let s = put_proposal proposal_id (prop\<lparr>mp_status := MS_Expired\<rparr>) s;
           s = publish [VSym ''multisig_admin'', VSym ''proposal_expired''] [VNat proposal_id] s in
       Inl (ms_panic ''ProposalExpired'')
     else if length (get_approvals proposal_id s) < cfg_threshold cfg
     then Inl (ms_panic ''NotEnoughApprovals'')
     else
     Inr (publish [VSym ''multisig_admin'', VSym ''proposal_executed''] [VNat proposal_id]
            (put_proposal proposal_id (prop\<lparr>mp_status := MS_Executed\<rparr>) s))))"

definition ms_cancel :: "env \<Rightarrow> address \<Rightarrow> nat \<Rightarrow> 'w ms_state \<Rightarrow> ms_fault + 'w ms_state" where
  "ms_cancel e caller proposal_id s =
     bindE (signer_config e caller s) (\<lambda>cfg.
     bindE (pending_proposal proposal_id s) (\<lambda>prop.
     Inr (publish [VSym ''multisig_admin'', VSym ''proposal_cancelled''] [VNat proposal_id]
            (put_proposal proposal_id (prop\<lparr>mp_status := MS_Cancelled\<rparr>) s))))"

definition get_proposal :: "nat \<Rightarrow> 'w ms_state \<Rightarrow> ms_fault + ms_proposal" where
  "get_proposal proposal_id s = expect (ms_proposals s proposal_id) ''UnknownProposal''"

text \<open>The counting loop of \<open>list_proposals\<close>, over the identifiers still to visit.\<close>

fun list_loop :: "ms_status option \<Rightarrow> (nat \<rightharpoonup> ms_proposal) \<Rightarrow> nat list \<Rightarrow> nat list \<Rightarrow> nat list" where
  "list_loop status_filter props [] out = out"
| "list_loop status_filter props (i # is) out =
     list_loop status_filter props is
       (case status_filter of
          Some filter_status \<Rightarrow>
            (case props i of
               Some prop \<Rightarrow> if mp_status prop = filter_status then out @ [i] else out
             | None \<Rightarrow> out)
        | None \<Rightarrow> out @ [i])"

definition list_proposals :: "ms_status option \<Rightarrow> 'w ms_state \<Rightarrow> nat list" where
  "list_proposals status_filter s =
     list_loop status_filter (ms_proposals s) [1..<unwrap_or (ms_next_id s) 1] []"

datatype ms_call =
    MS_Init "address list" nat
  | MS_Propose address ms_operation bytes nat
  | MS_Approve address nat
  | MS_Revoke address nat
  | MS_Execute address nat
  | MS_Cancel address nat

fun ms_exec :: "env \<Rightarrow> ms_call \<Rightarrow> 'w ms_state \<Rightarrow> ms_fault + 'w ms_state" where
  "ms_exec e (MS_Init sgs t) s = ms_init sgs t s"
| "ms_exec e (MS_Propose p op ps ex) s = drop_result (ms_propose e p op ps ex s)"
| "ms_exec e (MS_Approve a i) s = ms_approve e a i s"
| "ms_exec e (MS_Revoke a i) s = revoke_approval e a i s"
| "ms_exec e (MS_Execute a i) s = ms_execute e a i s"
| "ms_exec e (MS_Cancel a i) s = ms_cancel e a i s"

definition ms_fresh :: "'w \<Rightarrow> 'w ms_state" where
  "ms_fresh w = \<lparr>events = [], world = w, ms_cfg = None, ms_next_id = None,
     ms_proposals = Map.empty, ms_approvals = Map.empty\<rparr>"

lemmas ms_defs = ms_init_def ms_propose_def ms_approve_def revoke_approval_def ms_execute_def
  ms_cancel_def signer_config_def pending_proposal_def put_proposal_def put_approvals_def
  get_approvals_def

lemma without_signer_eq: "without_signer a as bs = bs @ filter (\<lambda>b. b \<noteq> a) as"
  by (induction as arbitrary: bs) auto

lemma list_loop_eq:
  "list_loop (Some f) props is out =
     out @ filter (\<lambda>i. \<exists>p. props i = Some p \<and> mp_status p = f) is"
  by (induction "is" arbitrary: out) (auto split: option.splits)

section \<open>The invariant\<close>

definition proposal_ok :: "ms_config \<Rightarrow> address list \<Rightarrow> ms_proposal \<Rightarrow> bool" where
  "proposal_ok cfg as p \<longleftrightarrow> distinct as \<and> set as \<subseteq> set (cfg_signers cfg) \<and>
     mp_approval_count p = length as \<and> mp_status p \<noteq> MS_Expired \<and>
     (mp_status p = MS_Executed \<longrightarrow> cfg_threshold cfg \<le> length as)"

definition ms_ok :: "'w ms_state \<Rightarrow> bool" where
  "ms_ok s \<longleftrightarrow> (\<forall>i p. ms_proposals s i = Some p \<longrightarrow>
     (\<exists>cfg. ms_cfg s = Some cfg \<and> i < unwrap_or (ms_next_id s) 1 \<and> proposal_ok cfg (get_approvals i s) p))"

lemma ms_okD:
  assumes "ms_ok s" and "ms_proposals s i = Some p"
  obtains cfg where "ms_cfg s = Some cfg" and "i < unwrap_or (ms_next_id s) 1"
    and "proposal_ok cfg (get_approvals i s) p"
  using assms by (auto simp: ms_ok_def)

lemma ms_exec_ok:
  assumes "ms_ok s" and "ms_exec e c s = Inr s'"
  shows "ms_ok s'"
proof (cases c)
  case (MS_Init sgs t)
  with assms have "ms_cfg s = None" by (auto simp: ms_defs split: if_splits)
  with assms(1) have "ms_proposals s i = None" for i
    by (cases "ms_proposals s i") (auto simp: ms_ok_def)
  with MS_Init assms(2) show ?thesis by (auto simp: ms_ok_def ms_defs host_simps split: if_splits)
next
  case (MS_Propose pr op ps ex)
  with assms show ?thesis
    by (fastforce simp: ms_ok_def proposal_ok_def ms_defs outcome_simps host_simps Let_def split: if_splits)
next
  case (MS_Approve a i)
  with assms show ?thesis
    by (fastforce simp: ms_ok_def proposal_ok_def ms_defs outcome_simps host_simps Let_def split: if_splits)
next
  case (MS_Revoke a i)
  with assms show ?thesis
    by (fastforce simp: ms_ok_def proposal_ok_def ms_defs outcome_simps host_simps Let_def
        without_signer_eq split: if_splits)
next
  case (MS_Execute a i)
  with assms show ?thesis
    by (fastforce simp: ms_ok_def proposal_ok_def ms_defs outcome_simps host_simps Let_def split: if_splits)
next
  case (MS_Cancel a i)
  with assms show ?thesis
    by (fastforce simp: ms_ok_def proposal_ok_def ms_defs outcome_simps host_simps Let_def split: if_splits)
qed

interpretation ms_machine: invariant_machine ms_exec any_call world_moves ms_ok
proof
  fix s s' :: "'a ms_state"
  assume "ms_ok s" and "world_moves s s'"
  then show "ms_ok s'" by (auto simp: world_moves_def ms_ok_def get_approvals_def)
qed (rule ms_exec_ok)

lemma ms_fresh_ok: "ms_ok (ms_fresh w)"
  by (simp add: ms_ok_def ms_fresh_def)






section \<open>Properties\<close>


text \<open>Proposals are never rewritten: once created, a proposal keeps its proposer, operation,
  parameters and expiry in every later state, an executed or cancelled one never changes again, and
  no proposal ever has the status expired, since the panic that follows rolls that status back.\<close>

theorem proposals_final:
  assumes "reach ms_exec any_call world_moves (ms_fresh w) s0" and "ms_proposals s0 i = Some p"
    and "reach ms_exec any_call world_moves s0 s"
  shows "\<exists>q. ms_proposals s i = Some q \<and> mp_status q \<noteq> MS_Expired \<and>
    mp_proposer q = mp_proposer p \<and> mp_operation q = mp_operation p \<and> mp_params q = mp_params p \<and>
    mp_expiry q = mp_expiry p \<and> (mp_status p \<noteq> MS_Pending \<longrightarrow> q = p)"
proof -
  let ?same = "\<lambda>s. \<exists>q. ms_proposals s i = Some q \<and>
    mp_proposer q = mp_proposer p \<and> mp_operation q = mp_operation p \<and> mp_params q = mp_params p \<and>
    mp_expiry q = mp_expiry p \<and> (mp_status p \<noteq> MS_Pending \<longrightarrow> q = p)"
  have ok0: "ms_ok s0" by (rule ms_machine.reach_inv [OF assms(1) ms_fresh_ok])
  have "ms_ok s \<and> ?same s" using assms(3)
  proof (induction rule: reach.induct)
    case reach_start
    show ?case using ok0 assms(2) by simp
  next
    case (reach_call s e c s')
    then obtain q where q: "ms_proposals s i = Some q" by blast
    moreover have "ms_ok s" using reach_call by blast
    ultimately obtain cfg where "ms_cfg s = Some cfg" "i < unwrap_or (ms_next_id s) 1"
      by (blast elim: ms_okD)
    then have "?same s'" using reach_call q
      by (cases c) (auto simp: ms_defs outcome_simps host_simps Let_def split: if_splits)
    with reach_call ms_exec_ok show ?case by blast
  next
    case (reach_other s s')
    then show ?case by (auto simp: world_moves_def ms_ok_def get_approvals_def)
  qed
  then show ?thesis by (auto elim: ms_okD simp: proposal_ok_def)
qed

text \<open>\<open>init\<close> counts a signer listed twice as two: with fewer distinct signers than the
  threshold, which it accepts, no proposal can be executed in any later state.\<close>

theorem duplicate_signers_lock:
  assumes "ms_init signers threshold (ms_fresh w) = Inr s0" and "card (set signers) < threshold"
    and "reach ms_exec any_call world_moves s0 s"
  shows "\<exists>f. ms_execute e x i s = Inl f"
proof -
  have "ms_ok s0" using assms(1) by (auto simp: ms_init_def ms_fresh_def ms_ok_def host_simps split: if_splits)
  with assms(3) have ok: "ms_ok s" by (rule ms_machine.reach_inv)
  have cfg: "ms_cfg s = Some \<lparr>cfg_signers = signers, cfg_threshold = threshold\<rparr>" using assms(3)
  proof (induction rule: reach.induct)
    case reach_start
    show ?case using assms(1) by (auto simp: ms_init_def host_simps split: if_splits)
  next
    case (reach_call s e c s')
    then show ?case
      by (cases c) (auto simp: ms_defs outcome_simps host_simps Let_def split: if_splits)
  next
    case (reach_other s s')
    then show ?case by (auto simp: world_moves_def)
  qed
  have False if "ms_execute e x i s = Inr s'" for s'
  proof -
    from that cfg obtain p where p: "ms_proposals s i = Some p" "threshold \<le> length (get_approvals i s)"
      by (auto simp: ms_execute_def signer_config_def pending_proposal_def outcome_simps Let_def
          split: if_splits)
    with ok cfg have "distinct (get_approvals i s)" "set (get_approvals i s) \<subseteq> set signers"
      by (auto simp: ms_ok_def proposal_ok_def)
    then have "length (get_approvals i s) \<le> card (set signers)"
      by (metis card_mono distinct_card List.finite_set)
    with p assms(2) show False by simp
  qed
  then show ?thesis by (cases "ms_execute e x i s") auto
qed

section \<open>Concrete runs\<close>

definition ms_calls :: "(env \<times> ms_call) list" where
  "ms_calls =
     [(call_at 10 (Address 9) (Address 2), MS_Init [Address 2, Address 3, Address 4] 2),
      (call_at 10 (Address 9) (Address 2), MS_Propose (Address 2) FreezeAccount [] 0),
      (call_at 11 (Address 9) (Address 3), MS_Approve (Address 3) 1),
      (call_at 12 (Address 9) (Address 4), MS_Approve (Address 4) 1),
      (call_at 13 (Address 9) (Address 2), MS_Execute (Address 2) 1)]"

lemmas ms_eval = ms_defs ms_expired_def drop_result_def require_auth_def ensure_def ck_u64_def
  host_simps apply_call_def

lemma ms_calls_run:
  "\<exists>s. s = run_calls ms_exec ms_calls (ms_fresh ()) \<and> (\<exists>p. ms_proposals s 1 = Some p \<and>
     mp_status p = MS_Executed)"
  by (simp add: ms_calls_def ms_fresh_def ms_eval Let_def)


lemma proposals_final_witness:
  "\<exists>s p q. ms_proposals (s :: unit ms_state) 1 = Some p \<and> mp_status p = MS_Executed \<and> q = p"
proof -
  let ?s = "run_calls ms_exec ms_calls (ms_fresh ())"
  obtain p where p: "ms_proposals ?s 1 = Some p" "mp_status p = MS_Executed"
    using ms_calls_run by blast
  have "reach ms_exec any_call world_moves (ms_fresh ()) ?s"
    by (rule run_calls_reach) (simp add: any_call_def)
  from proposals_final [OF this p(1) reach_start] p show ?thesis by auto
qed

lemma duplicate_signers_lock_witness:
  "\<exists>s f. ms_init [Address 2, Address 2] 2 (ms_fresh ()) = Inr s \<and>
     ms_execute (call_at 5 (Address 9) (Address 2)) (Address 2) 1 s = Inl f"
proof -
  have "\<exists>s. ms_init [Address 2, Address 2] 2 (ms_fresh ()) = Inr s"
    by (simp add: ms_init_def ms_fresh_def)
  then obtain s where s: "ms_init [Address 2, Address 2] 2 (ms_fresh ()) = Inr s" by blast
  have "card (set [Address 2, Address 2]) < 2" by simp
  from duplicate_signers_lock [OF s this reach_start] s show ?thesis by blast
qed

end
