(* ===== verification/Timelock.thy ===== *)
theory Timelock
  imports Machines
begin

text \<open>
  The timelock (\<open>timelock/src/lib.rs\<close>): the admin queues cross-contract calls by the hash of target,
  function, arguments and earliest time; anybody executes a queued call between that time and the
  end of a grace period.  The invoked contract is a parameter: \<open>invoke target function args w\<close> gives
  the call's result and the world after it, or \<open>None\<close> when it traps.  Queue entries are temporary
  storage, which the host deletes when its lifetime ends: \<open>TL_Evict\<close>.
\<close>

section \<open>State\<close>

datatype tl_error =
    TL_AlreadyInitialized
  | TL_NotAuthorized
  | TL_InvalidDelay
  | TL_TransactionAlreadyQueued
  | TL_TransactionNotQueued
  | TL_TimestampNotMet
  | TL_TransactionExpired
  | TL_InsufficientMultisigApprovals
  | TL_ContractPaused

definition GRACE_PERIOD :: nat where
  "GRACE_PERIOD = 1209600"

record 'w tl_state = "'w host" +
  tl_admin :: "address option"
  tl_min_delay :: "nat option"
  tl_max_delay :: "nat option"
  tl_queued :: "bytes32 \<rightharpoonup> nat"
  tl_members :: "address list option"
  tl_paused :: "bool option"

type_synonym 'w invoke = "address \<Rightarrow> string \<Rightarrow> val list \<Rightarrow> 'w \<Rightarrow> (val \<times> 'w) option"

text \<open>The check the admin entry points start with.\<close>

definition tl_require_admin :: "env \<Rightarrow> address \<Rightarrow> 'w tl_state \<Rightarrow> tl_error fault + unit" where
  "tl_require_admin e admin s =
     bindE (require_auth e admin) (\<lambda>_.
     bindE (expect (tl_admin s) ''unwrap'') (\<lambda>current_admin.
     if admin \<noteq> current_admin then Inl (Err TL_NotAuthorized) else Inr ()))"

definition min_delay_of :: "'w tl_state \<Rightarrow> nat" where
  "min_delay_of s = unwrap_or (tl_min_delay s) 0"

definition max_delay_of :: "'w tl_state \<Rightarrow> nat" where
  "max_delay_of s = unwrap_or (tl_max_delay s) (2 ^ 64 - 1)"

definition tx_hash :: "host_crypto \<Rightarrow> address \<Rightarrow> string \<Rightarrow> val list \<Rightarrow> nat \<Rightarrow> bytes32" where
  "tx_hash hc target func args eta =
     sha256 hc (to_xdr hc (VVec ([VAddr target, VSym func] @ args @ [VNat eta])))"

definition dequeue :: "bytes32 \<Rightarrow> 'w tl_state \<Rightarrow> 'w tl_state" where
  "dequeue h s = s\<lparr>tl_queued := (tl_queued s)(h := None)\<rparr>"

section \<open>Entry points\<close>

definition tl_init ::
  "address \<Rightarrow> nat \<Rightarrow> nat \<Rightarrow> address list \<Rightarrow> 'w tl_state \<Rightarrow> tl_error fault + 'w tl_state" where
  "tl_init admin min_delay max_delay multisig_members s =
     (if tl_admin s \<noteq> None then Inl (Err TL_AlreadyInitialized)
      else if max_delay < min_delay then Inl (Err TL_InvalidDelay)
      else if min_delay = 0 then Inl (Err TL_InvalidDelay)
      else Inr (s\<lparr>tl_admin := Some admin, tl_min_delay := Some min_delay,
                 tl_max_delay := Some max_delay, tl_members := Some multisig_members,
                 tl_paused := Some False\<rparr>))"

definition tl_queue ::
  "host_crypto \<Rightarrow> env \<Rightarrow> address \<Rightarrow> address \<Rightarrow> string \<Rightarrow> val list \<Rightarrow> nat \<Rightarrow> 'w tl_state \<Rightarrow>
   tl_error fault + bytes32 \<times> 'w tl_state" where
  "tl_queue hc e admin target func args delay s =
     bindE (tl_require_admin e admin s) (\<lambda>_.
     if delay < min_delay_of s \<or> max_delay_of s < delay then Inl (Err TL_InvalidDelay)
     else
     bindE (ck_u64 (timestamp e + delay)) (\<lambda>eta.
     let h = tx_hash hc target func args eta in
     if tl_queued s h \<noteq> None then Inl (Err TL_TransactionAlreadyQueued)
     else Inr (h, publish [VSym ''governance'', VSym ''queued'']
                    [VBytes h, VAddr target, VSym func, VVec args, VNat eta]
                    (s\<lparr>tl_queued := (tl_queued s)(h \<mapsto> eta)\<rparr>))))"

definition tl_execute ::
  "host_crypto \<Rightarrow> 'w invoke \<Rightarrow> env \<Rightarrow> address \<Rightarrow> string \<Rightarrow> val list \<Rightarrow> nat \<Rightarrow> 'w tl_state \<Rightarrow>
   tl_error fault + val \<times> 'w tl_state" where
  "tl_execute hc invoke e target func args eta s =
     (if unwrap_or (tl_paused s) False then Inl (Err TL_ContractPaused)
      else
      let h = tx_hash hc target func args eta in
      bindE (ok_or (tl_queued s h) TL_TransactionNotQueued) (\<lambda>stored_eta.
      if stored_eta \<noteq> eta then Inl (Err TL_TransactionNotQueued)
      else if timestamp e < eta then Inl (Err TL_TimestampNotMet)
      else
      bindE (ck_u64 (eta + GRACE_PERIOD)) (\<lambda>last.
      if last < timestamp e then Inl (Err TL_TransactionExpired)
      else
      let s = dequeue h s in
      (case invoke target func args (world s) of
         None \<Rightarrow> Inl (Trap CallTrap)
       | Some (result, w) \<Rightarrow>
           Inr (result, publish [VSym ''governance'', VSym ''executed''] [VBytes h]
                          (s\<lparr>world := w\<rparr>))))))"

definition tl_cancel :: "env \<Rightarrow> address \<Rightarrow> bytes32 \<Rightarrow> 'w tl_state \<Rightarrow> tl_error fault + 'w tl_state" where
  "tl_cancel e admin h s =
     bindE (tl_require_admin e admin s) (\<lambda>_.
     if tl_queued s h = None then Inl (Err TL_TransactionNotQueued)
     else Inr (publish [VSym ''governance'', VSym ''cancelled''] [VBytes h] (dequeue h s)))"

fun member_loop :: "env \<Rightarrow> address list \<Rightarrow> address list \<Rightarrow> tl_error fault + unit" where
  "member_loop e allowed_members [] = Inr ()"
| "member_loop e allowed_members (member # members) =
     bindE (require_auth e member) (\<lambda>_.
     if member \<notin> set allowed_members then Inl (Err TL_NotAuthorized)
     else member_loop e allowed_members members)"

definition emergency_pause :: "env \<Rightarrow> address list \<Rightarrow> 'w tl_state \<Rightarrow> tl_error fault + 'w tl_state" where
  "emergency_pause e members s =
     (if length members < 2 then Inl (Err TL_InsufficientMultisigApprovals)
      else
      bindE (expect (tl_members s) ''unwrap'') (\<lambda>allowed_members.
      bindE (member_loop e allowed_members members) (\<lambda>_.
      Inr (publish [VSym ''governance'', VSym ''emergency_pause''] []
             (s\<lparr>tl_paused := Some True\<rparr>)))))"

definition tl_unpause :: "env \<Rightarrow> address \<Rightarrow> 'w tl_state \<Rightarrow> tl_error fault + 'w tl_state" where
  "tl_unpause e admin s =
     bindE (tl_require_admin e admin s) (\<lambda>_. Inr (s\<lparr>tl_paused := Some False\<rparr>))"

definition tl_expire :: "env \<Rightarrow> address \<Rightarrow> bytes32 \<Rightarrow> 'w tl_state \<Rightarrow> tl_error fault + 'w tl_state" where
  "tl_expire e admin h s =
     bindE (tl_require_admin e admin s) (\<lambda>_.
     bindE (ok_or (tl_queued s h) TL_TransactionNotQueued) (\<lambda>stored_eta.
     bindE (ck_u64 (stored_eta + GRACE_PERIOD)) (\<lambda>last.
     if timestamp e \<le> last then Inl (Err TL_TimestampNotMet)
     else Inr (publish [VSym ''timelock'', VSym ''operation_expired''] [VBytes h, VNat stored_eta]
                 (dequeue h s)))))"

definition set_min_delay :: "env \<Rightarrow> address \<Rightarrow> nat \<Rightarrow> 'w tl_state \<Rightarrow> tl_error fault + 'w tl_state" where
  "set_min_delay e admin new_min_delay s =
     bindE (tl_require_admin e admin s) (\<lambda>_.
     if new_min_delay = 0 then Inl (Err TL_InvalidDelay)
     else if new_min_delay < min_delay_of s then Inl (Err TL_InvalidDelay)
     else if max_delay_of s < new_min_delay then Inl (Err TL_InvalidDelay)
     else Inr (s\<lparr>tl_min_delay := Some new_min_delay\<rparr>))"

datatype tl_call =
    TL_Init address nat nat "address list"
  | TL_Queue address address string "val list" nat
  | TL_Execute address string "val list" nat
  | TL_Cancel address bytes32
  | TL_EmergencyPause "address list"
  | TL_Unpause address
  | TL_Expire address bytes32
  | TL_SetMinDelay address nat
  | TL_Evict bytes32

fun tl_exec ::
  "host_crypto \<Rightarrow> 'w invoke \<Rightarrow> env \<Rightarrow> tl_call \<Rightarrow> 'w tl_state \<Rightarrow> tl_error fault + 'w tl_state" where
  "tl_exec hc ik e (TL_Init a mn mx ms) s = tl_init a mn mx ms s"
| "tl_exec hc ik e (TL_Queue a t f as d) s = drop_result (tl_queue hc e a t f as d s)"
| "tl_exec hc ik e (TL_Execute t f as eta) s = drop_result (tl_execute hc ik e t f as eta s)"
| "tl_exec hc ik e (TL_Cancel a h) s = tl_cancel e a h s"
| "tl_exec hc ik e (TL_EmergencyPause ms) s = emergency_pause e ms s"
| "tl_exec hc ik e (TL_Unpause a) s = tl_unpause e a s"
| "tl_exec hc ik e (TL_Expire a h) s = tl_expire e a h s"
| "tl_exec hc ik e (TL_SetMinDelay a d) s = set_min_delay e a d s"
| "tl_exec hc ik e (TL_Evict h) s = Inr (dequeue h s)"

definition tl_fresh :: "'w \<Rightarrow> 'w tl_state" where
  "tl_fresh w = \<lparr>events = [], world = w, tl_admin = None, tl_min_delay = None, tl_max_delay = None,
     tl_queued = Map.empty, tl_members = None, tl_paused = None\<rparr>"

lemmas tl_defs = tl_init_def tl_queue_def tl_execute_def tl_cancel_def emergency_pause_def
  tl_unpause_def tl_expire_def set_min_delay_def tl_require_admin_def dequeue_def

section \<open>The delay\<close>

definition tl_backed ::
  "host_crypto \<Rightarrow> address \<Rightarrow> nat \<Rightarrow> nat \<Rightarrow> (env \<times> tl_call) list \<Rightarrow> 'w tl_state \<Rightarrow> bool" where
  "tl_backed hc admin mn mx cs s \<longleftrightarrow>
     tl_admin s = Some admin \<and> mn \<le> min_delay_of s \<and> tl_max_delay s = Some mx \<and>
     (\<forall>h eta. tl_queued s h = Some eta \<longrightarrow>
        (\<exists>e t f as d. (e, TL_Queue admin t f as d) \<in> set cs \<and> authorized e admin \<and>
           h = tx_hash hc t f as eta \<and> eta = timestamp e + d \<and> mn \<le> d \<and> d \<le> mx))"

lemma tl_backed_more: "tl_backed hc admin mn mx cs s \<Longrightarrow> tl_backed hc admin mn mx (cs @ ds) s"
  by (fastforce simp: tl_backed_def)

lemma tl_exec_backed:
  assumes "tl_backed hc admin mn mx cs s" and "tl_exec hc ik e c s = Inr s'"
  shows "tl_backed hc admin mn mx (cs @ [(e, c)]) s'"
proof (cases c)
  case (TL_Queue a t f as d)
  with assms have q: "a = admin" "authorized e admin" "mn \<le> d" "d \<le> mx"
    "tl_queued s' = (tl_queued s)(tx_hash hc t f as (timestamp e + d) \<mapsto> timestamp e + d)"
    "tl_admin s' = Some admin" "tl_min_delay s' = tl_min_delay s" "tl_max_delay s' = Some mx"
    by (auto simp: tl_backed_def tl_defs max_delay_of_def outcome_simps host_simps Let_def
        split: if_splits)
  with tl_backed_more [OF assms(1), of "[(e, c)]"] show ?thesis
    unfolding tl_backed_def min_delay_of_def by (auto simp: TL_Queue; blast)
next
  case (TL_SetMinDelay a d)
  with assms tl_backed_more [OF assms(1), of "[(e, c)]"] show ?thesis
    by (auto simp: tl_backed_def tl_defs min_delay_of_def outcome_simps split: if_splits)
qed (use assms(2) tl_backed_more [OF assms(1), of "[(e, c)]"] in
    \<open>auto simp: tl_backed_def tl_defs min_delay_of_def outcome_simps host_simps Let_def
      split: if_splits option.splits\<close>)

text \<open>C14. The timelock holds: after initialisation with delay bounds \<open>mn\<close> and \<open>mx\<close>, an execution
  succeeds only if the admin authorised, earlier in the history, the queueing of an operation with
  the same hash and earliest time \<open>eta\<close> at least \<open>mn\<close> and at most \<open>mx\<close> before \<open>eta\<close>; it happens
  between \<open>eta\<close> and the end of the grace period, performs exactly the named call, and takes the
  entry out of the queue.\<close>

theorem timelock_delay:
  assumes "tl_init admin mn mx members (tl_fresh w) = Inr s0"
    and "tl_execute hc ik e target func args eta (run_calls (tl_exec hc ik) cs s0) = Inr (r, s')"
  shows "eta \<le> timestamp e \<and> timestamp e \<le> eta + GRACE_PERIOD \<and>
    (\<exists>e' t f as d. (e', TL_Queue admin t f as d) \<in> set cs \<and> authorized e' admin \<and>
       tx_hash hc t f as eta = tx_hash hc target func args eta \<and>
       eta = timestamp e' + d \<and> mn \<le> d \<and> d \<le> mx) \<and>
    ik target func args (world (run_calls (tl_exec hc ik) cs s0)) = Some (r, world s') \<and>
    tl_queued s' (tx_hash hc target func args eta) = None"
proof -
  let ?s = "run_calls (tl_exec hc ik) cs s0"
  have "tl_backed hc admin mn mx [] s0" using assms(1)
    by (auto simp: tl_backed_def tl_defs tl_fresh_def min_delay_of_def split: if_splits)
  then have "tl_backed hc admin mn mx cs ?s"
    by (rule run_calls_history) (auto intro: tl_exec_backed tl_backed_more)
  moreover have run: "tl_queued ?s (tx_hash hc target func args eta) = Some eta"
    "eta \<le> timestamp e" "timestamp e \<le> eta + GRACE_PERIOD"
    "ik target func args (world ?s) = Some (r, world s')"
    "tl_queued s' (tx_hash hc target func args eta) = None"
    using assms(2) by (auto simp: tl_defs outcome_simps host_simps Let_def split: if_splits option.splits)
  ultimately obtain e' t f as d where "(e', TL_Queue admin t f as d) \<in> set cs" "authorized e' admin"
    "tx_hash hc target func args eta = tx_hash hc t f as eta" "eta = timestamp e' + d" "mn \<le> d" "d \<le> mx"
    unfolding tl_backed_def by blast
  with run show ?thesis by (intro conjI) (assumption | metis)+
qed

text \<open>Queueings less executions of one hash.\<close>

definition tl_net :: "host_crypto \<Rightarrow> bytes32 \<Rightarrow> env \<Rightarrow> tl_call \<Rightarrow> 'w tl_state \<Rightarrow> int" where
  "tl_net hc h e c s =
     (case c of
        TL_Queue a t f as d \<Rightarrow> if tx_hash hc t f as (timestamp e + d) = h then 1 else 0
      | TL_Execute t f as eta \<Rightarrow> if tx_hash hc t f as eta = h then -1 else 0
      | _ \<Rightarrow> 0)"

definition tl_pending :: "bytes32 \<Rightarrow> 'w tl_state \<Rightarrow> int" where
  "tl_pending h s = (if tl_queued s h = None then 0 else 1)"

lemma tl_exec_net:
  "tl_exec hc ik e c s = Inr s' \<Longrightarrow> tl_pending h s' \<le> tl_pending h s + tl_net hc h e c s"
  by (cases c) (auto simp: tl_pending_def tl_net_def tl_defs outcome_simps host_simps Let_def
      split: if_splits option.splits)

text \<open>Each queueing is executed at most once: in every history from a fresh deployment the
  accepted executions of an operation hash never outnumber its accepted queueings, and while the
  operation is queued there is a queueing not yet executed.\<close>

theorem executed_at_most_once:
  assumes "tally (tl_exec hc ik) (tl_net hc h) cs 0 (tl_fresh w) = (net, s)"
  shows "0 \<le> net \<and> (tl_queued s h \<noteq> None \<longrightarrow> 1 \<le> net)"
proof -
  have "tl_pending h s \<le> net"
  proof (rule tally_inv [OF assms])
    show "tl_pending h (tl_fresh w) \<le> 0" by (simp add: tl_pending_def tl_fresh_def)
  next
    fix e c acc and s s' :: "'a tl_state"
    assume "tl_pending h s \<le> acc" and "tl_exec hc ik e c s = Inr s'"
    from this(1) tl_exec_net [OF this(2), of h] show "tl_pending h s' \<le> acc + tl_net hc h e c s"
      by linarith
  qed
  then show ?thesis by (auto simp: tl_pending_def split: if_splits)
qed

section \<open>Concrete runs\<close>

definition tl_crypto :: host_crypto where
  "tl_crypto = \<lparr>to_xdr = (\<lambda>v. []), sha256 = (\<lambda>bs. 77)\<rparr>"

definition tl_target :: "nat invoke" where
  "tl_target t f as w = Some (VVoid, w + 1)"

definition tl_calls :: "(env \<times> tl_call) list" where
  "tl_calls = [(call_at 1000 (Address 9) (Address 2), TL_Queue (Address 2) (Address 7) ''set'' [] 50)]"

lemmas tl_eval = tl_defs min_delay_of_def max_delay_of_def tl_fresh_def drop_result_def require_auth_def
  ensure_def ck_u64_def host_simps apply_call_def tx_hash_def tl_crypto_def tl_target_def
  GRACE_PERIOD_def

lemma timelock_delay_witness:
  "\<exists>s0 r s'. tl_init (Address 2) 40 60 [] (tl_fresh 0) = Inr s0 \<and>
     tl_execute tl_crypto tl_target (call_at 1060 (Address 9) (Address 3)) (Address 7) ''set'' [] 1050
       (run_calls (tl_exec tl_crypto tl_target) tl_calls s0) = Inr (r, s') \<and>
     tl_queued s' (tx_hash tl_crypto (Address 7) ''set'' [] 1050) = None"
proof -
  have "\<exists>s0. tl_init (Address 2) 40 60 [] (tl_fresh 0) = Inr s0 \<and> (\<exists>r s'.
     tl_execute tl_crypto tl_target (call_at 1060 (Address 9) (Address 3)) (Address 7) ''set'' [] 1050
       (run_calls (tl_exec tl_crypto tl_target) tl_calls s0) = Inr (r, s'))"
    by (simp add: tl_calls_def tl_eval)
  then obtain s0 r s' where "tl_init (Address 2) 40 60 [] (tl_fresh 0) = Inr s0"
    "tl_execute tl_crypto tl_target (call_at 1060 (Address 9) (Address 3)) (Address 7) ''set'' [] 1050
       (run_calls (tl_exec tl_crypto tl_target) tl_calls s0) = Inr (r, s')" by blast
  from timelock_delay [OF this] this show ?thesis by blast
qed

lemma executed_at_most_once_witness:
  "\<exists>net s. tally (tl_exec tl_crypto tl_target) (tl_net tl_crypto 77)
     ((call_at 900 (Address 9) (Address 2), TL_Init (Address 2) 40 60 []) # tl_calls) 0 (tl_fresh 0) =
       (net, s) \<and> tl_queued s 77 \<noteq> None \<and> 1 \<le> net"
proof -
  have "\<exists>net s. tally (tl_exec tl_crypto tl_target) (tl_net tl_crypto 77)
     ((call_at 900 (Address 9) (Address 2), TL_Init (Address 2) 40 60 []) # tl_calls) 0 (tl_fresh 0) =
       (net, s) \<and> tl_queued s 77 \<noteq> None"
    by (simp add: tl_calls_def tl_eval)
  then obtain net s where "tally (tl_exec tl_crypto tl_target) (tl_net tl_crypto 77)
     ((call_at 900 (Address 9) (Address 2), TL_Init (Address 2) 40 60 []) # tl_calls) 0 (tl_fresh 0) =
       (net, s)" "tl_queued s 77 \<noteq> None" by blast
  from executed_at_most_once [OF this(1)] this show ?thesis by blast
qed

end
