(* ===== verification/Governance.thy ===== *)
theory Governance
  imports AccessControl
begin

text \<open>
  Parameter governance (\<open>governance/src/lib.rs\<close>): stakers propose a change of a parameter, voters
  vote with the stake recorded for them when the proposal was created, and a passed proposal is
  executed after a further delay.  The staking pool is another contract: \<open>pool_balance pool voter w\<close>
  is what its \<open>staked_balance\<close> entry point returns in world \<open>w\<close>, or \<open>None\<close> when the call traps.
\<close>

section \<open>State and errors\<close>

definition VOTING_PERIOD_SECS :: nat where "VOTING_PERIOD_SECS = 7 * 24 * 3600"

definition TIMELOCK_SECS :: nat where "TIMELOCK_SECS = 48 * 3600"

definition QUORUM_BPS :: int where "QUORUM_BPS = 1000"

definition MIN_STAKE_TO_PROPOSE :: int where "MIN_STAKE_TO_PROPOSE = 1"

datatype gv_error =
    GV_AlreadyInitialized
  | GV_NotAuthorized
  | GV_ProposalNotFound
  | GV_ProposalNotActive
  | GV_VotingNotEnded
  | GV_TimelockNotElapsed
  | GV_AlreadyVoted
  | GV_InsufficientStake
  | GV_ProposalNotPassed
  | GV_ProposalAlreadyExecuted
  | GV_QuorumNotReached

datatype gv_status = GV_Active | GV_Passed | GV_Rejected | GV_Executed | GV_Cancelled

record gv_proposal =
  gp_id :: nat
  gp_proposer :: address
  gp_param_key :: string
  gp_current_value :: int
  gp_proposed_value :: int
  gp_votes_for :: int
  gp_votes_against :: int
  gp_status :: gv_status
  gp_created_at :: nat
  gp_voting_ends_at :: nat
  gp_snapshotted_total_staked :: int

record 'w gv_state = "'w host" +
  gv_admin :: "address option"
  gv_staking_pool :: "address option"
  gv_total_staked :: "int option"
  gv_count :: "nat option"
  gv_proposals :: "nat \<rightharpoonup> gv_proposal"
  gv_voted :: "nat \<times> address \<rightharpoonup> bool"
  gv_stake_balance :: "address \<rightharpoonup> int"
  gv_known_voters :: "address list option"
  gv_snapshot :: "nat \<times> address \<rightharpoonup> int"

type_synonym 'w pool_query = "address \<Rightarrow> address \<Rightarrow> 'w \<Rightarrow> int option"

section \<open>Helpers\<close>

definition gv_get_admin :: "'w gv_state \<Rightarrow> gv_error fault + address" where
  "gv_get_admin s = expect (gv_admin s) ''not init''"

definition gv_require_admin :: "env \<Rightarrow> address \<Rightarrow> 'w gv_state \<Rightarrow> gv_error fault + unit" where
  "gv_require_admin e caller s =
     bindE (gv_get_admin s) (\<lambda>admin.
     require_admin_permission e admin caller ''admin'' GV_NotAuthorized s)"

definition gv_get_total_staked :: "'w gv_state \<Rightarrow> int" where
  "gv_get_total_staked s = unwrap_or (gv_total_staked s) 0"

definition get_stake_for :: "'w pool_query \<Rightarrow> address \<Rightarrow> 'w gv_state \<Rightarrow> gv_error fault + int" where
  "get_stake_for pq voter s =
     (case gv_staking_pool s of
        Some staking_pool \<Rightarrow>
          (case pq staking_pool voter (world s) of
             Some n \<Rightarrow> Inr n
           | None \<Rightarrow> Inl (Trap CallTrap))
      | None \<Rightarrow> Inr (unwrap_or (gv_stake_balance s voter) 0))"

definition register_known_voter :: "address \<Rightarrow> 'w gv_state \<Rightarrow> 'w gv_state" where
  "register_known_voter voter s =
     (let known_voters = unwrap_or (gv_known_voters s) [];
          is_known = list_ex (\<lambda>existing_voter. existing_voter = voter) known_voters in
      if \<not> is_known then s\<lparr>gv_known_voters := Some (known_voters @ [voter])\<rparr> else s)"

fun snapshot_loop ::
  "'w pool_query \<Rightarrow> nat \<Rightarrow> address list \<Rightarrow> 'w gv_state \<Rightarrow> gv_error fault + 'w gv_state" where
  "snapshot_loop pq proposal_id [] s = Inr s"
| "snapshot_loop pq proposal_id (voter # voters) s =
     bindE (get_stake_for pq voter s) (\<lambda>stake.
     snapshot_loop pq proposal_id voters
       (s\<lparr>gv_snapshot := (gv_snapshot s)((proposal_id, voter) \<mapsto> stake)\<rparr>))"

definition snapshot_known_voter_stakes_for_proposal ::
  "'w pool_query \<Rightarrow> nat \<Rightarrow> 'w gv_state \<Rightarrow> gv_error fault + 'w gv_state" where
  "snapshot_known_voter_stakes_for_proposal pq proposal_id s =
     snapshot_loop pq proposal_id (unwrap_or (gv_known_voters s) []) s"

definition get_snapshot_stake_for :: "nat \<Rightarrow> address \<Rightarrow> 'w gv_state \<Rightarrow> int" where
  "get_snapshot_stake_for proposal_id voter s = unwrap_or (gv_snapshot s (proposal_id, voter)) 0"

definition gv_put_proposal :: "nat \<Rightarrow> gv_proposal \<Rightarrow> 'w gv_state \<Rightarrow> 'w gv_state" where
  "gv_put_proposal i p s = s\<lparr>gv_proposals := (gv_proposals s)(i \<mapsto> p)\<rparr>"

section \<open>Entry points\<close>

definition gv_init :: "address \<Rightarrow> int \<Rightarrow> 'w gv_state \<Rightarrow> gv_error fault + 'w gv_state" where
  "gv_init admin total_staked s =
     (if gv_admin s \<noteq> None then Inl (Err GV_AlreadyInitialized)
      else Inr (s\<lparr>gv_admin := Some admin, gv_total_staked := Some total_staked, gv_count := Some 0\<rparr>))"

definition set_total_staked :: "env \<Rightarrow> address \<Rightarrow> int \<Rightarrow> 'w gv_state \<Rightarrow> gv_error fault + 'w gv_state" where
  "set_total_staked e admin new_total s =
     bindE (gv_require_admin e admin s) (\<lambda>_. Inr (s\<lparr>gv_total_staked := Some new_total\<rparr>))"

definition set_staking_pool ::
  "env \<Rightarrow> address \<Rightarrow> address \<Rightarrow> 'w gv_state \<Rightarrow> gv_error fault + 'w gv_state" where
  "set_staking_pool e admin staking_pool s =
     bindE (gv_require_admin e admin s) (\<lambda>_. Inr (s\<lparr>gv_staking_pool := Some staking_pool\<rparr>))"

definition set_voter_stake ::
  "env \<Rightarrow> address \<Rightarrow> address \<Rightarrow> int \<Rightarrow> 'w gv_state \<Rightarrow> gv_error fault + 'w gv_state" where
  "set_voter_stake e admin voter stake s =
     bindE (gv_require_admin e admin s) (\<lambda>_.
     Inr (register_known_voter voter
            (s\<lparr>gv_stake_balance := (gv_stake_balance s)(voter \<mapsto> stake)\<rparr>)))"

definition create_proposal ::
  "'w pool_query \<Rightarrow> env \<Rightarrow> address \<Rightarrow> string \<Rightarrow> int \<Rightarrow> int \<Rightarrow> 'w gv_state \<Rightarrow>
   gv_error fault + nat \<times> 'w gv_state" where
  "create_proposal pq e proposer param_key current_value proposed_value s =
     bindE (require_auth e proposer) (\<lambda>_.
     bindE (get_stake_for pq proposer s) (\<lambda>stake.
     if stake < MIN_STAKE_TO_PROPOSE then Inl (Err GV_InsufficientStake)
     else
     bindE (ck_u64 (unwrap_or (gv_count s) 0 + 1)) (\<lambda>i.
     let now = timestamp e;
         snapshotted_total = gv_get_total_staked s;
         s = register_known_voter proposer s in
     bindE (snapshot_known_voter_stakes_for_proposal pq i s) (\<lambda>s.
     bindE (ck_u64 (now + VOTING_PERIOD_SECS)) (\<lambda>ends_at.
     let proposal = \<lparr>gp_id = i, gp_proposer = proposer, gp_param_key = param_key,
           gp_current_value = current_value, gp_proposed_value = proposed_value,
           gp_votes_for = 0, gp_votes_against = 0, gp_status = GV_Active, gp_created_at = now,
           gp_voting_ends_at = ends_at, gp_snapshotted_total_staked = snapshotted_total\<rparr>;
         s = gv_put_proposal i proposal s in
     Inr (i, publish [VSym ''governance'', VSym ''proposal_created'']
               [VNat i, VAddr proposer, VInt snapshotted_total] (s\<lparr>gv_count := Some i\<rparr>)))))))"

definition vote :: "env \<Rightarrow> address \<Rightarrow> nat \<Rightarrow> bool \<Rightarrow> 'w gv_state \<Rightarrow> gv_error fault + 'w gv_state" where
  "vote e voter proposal_id support s =
     bindE (require_auth e voter) (\<lambda>_.
     bindE (ok_or (gv_proposals s proposal_id) GV_ProposalNotFound) (\<lambda>proposal.
     if gp_status proposal \<noteq> GV_Active then Inl (Err GV_ProposalNotActive)
     else if gp_voting_ends_at proposal < timestamp e then Inl (Err GV_VotingNotEnded)
     else if gv_voted s (proposal_id, voter) \<noteq> None then Inl (Err GV_AlreadyVoted)
     else
     let weight = get_snapshot_stake_for proposal_id voter s in
     bindE (if support
            then bindE (ck_i128 (gp_votes_for proposal + weight)) (\<lambda>n.
                 Inr (proposal\<lparr>gp_votes_for := n\<rparr>))
            else bindE (ck_i128 (gp_votes_against proposal + weight)) (\<lambda>n.
                 Inr (proposal\<lparr>gp_votes_against := n\<rparr>))) (\<lambda>proposal.
     let s = gv_put_proposal proposal_id proposal s in
     Inr (publish [VSym ''governance'', VSym ''voted'']
            [VNat proposal_id, VAddr voter, VBool support, VInt weight]
            (s\<lparr>gv_voted := (gv_voted s)((proposal_id, voter) \<mapsto> True)\<rparr>)))))"

definition finalize_proposal ::
  "env \<Rightarrow> nat \<Rightarrow> 'w gv_state \<Rightarrow> gv_error fault + gv_status \<times> 'w gv_state" where
  "finalize_proposal e proposal_id s =
     bindE (ok_or (gv_proposals s proposal_id) GV_ProposalNotFound) (\<lambda>proposal.
     if gp_status proposal \<noteq> GV_Active then Inl (Err GV_ProposalNotActive)
     else if timestamp e \<le> gp_voting_ends_at proposal then Inl (Err GV_VotingNotEnded)
     else
     let total_staked = gp_snapshotted_total_staked proposal in
     bindE (ck_i128 (gp_votes_for proposal + gp_votes_against proposal)) (\<lambda>total_votes.
     bindE (ck_i128 (total_staked * QUORUM_BPS)) (\<lambda>product.
     bindE (div_i128 product 10000) (\<lambda>quorum_required.
     let status =
           (if total_votes < quorum_required then GV_Rejected
            else if gp_votes_against proposal < gp_votes_for proposal then GV_Passed
            else GV_Rejected);
         proposal = proposal\<lparr>gp_status := status\<rparr> in
     Inr (status, publish [VSym ''governance'', VSym ''proposal_finalized'']
            [VNat proposal_id, VInt (gp_votes_for proposal), VInt (gp_votes_against proposal),
             VBool (quorum_required \<le> total_votes)]
            (gv_put_proposal proposal_id proposal s))))))"

definition execute_proposal :: "env \<Rightarrow> nat \<Rightarrow> 'w gv_state \<Rightarrow> gv_error fault + 'w gv_state" where
  "execute_proposal e proposal_id s =
     bindE (ok_or (gv_proposals s proposal_id) GV_ProposalNotFound) (\<lambda>proposal.
     if gp_status proposal = GV_Executed then Inl (Err GV_ProposalAlreadyExecuted)
     else if gp_status proposal \<noteq> GV_Passed then Inl (Err GV_ProposalNotPassed)
     else
     bindE (ck_u64 (gp_voting_ends_at proposal + TIMELOCK_SECS)) (\<lambda>execute_after.
     if timestamp e < execute_after then Inl (Err GV_TimelockNotElapsed)
     else
     Inr (publish [VSym ''governance'', VSym ''proposal_executed'']
            [VNat proposal_id, VSym (gp_param_key proposal), VInt (gp_proposed_value proposal)]
            (gv_put_proposal proposal_id (proposal\<lparr>gp_status := GV_Executed\<rparr>) s))))"

definition cancel_proposal ::
  "env \<Rightarrow> address \<Rightarrow> nat \<Rightarrow> 'w gv_state \<Rightarrow> gv_error fault + 'w gv_state" where
  "cancel_proposal e proposer proposal_id s =
     bindE (require_auth e proposer) (\<lambda>_.
     bindE (ok_or (gv_proposals s proposal_id) GV_ProposalNotFound) (\<lambda>proposal.
     if gp_status proposal \<noteq> GV_Active then Inl (Err GV_ProposalNotActive)
     else if gp_proposer proposal \<noteq> proposer then Inl (Err GV_NotAuthorized)
     else
     Inr (publish [VSym ''governance'', VSym ''proposal_cancelled''] [VNat proposal_id]
            (gv_put_proposal proposal_id (proposal\<lparr>gp_status := GV_Cancelled\<rparr>) s))))"

datatype gv_call =
    GV_Init address int
  | GV_SetTotalStaked address int
  | GV_SetStakingPool address address
  | GV_SetVoterStake address address int
  | GV_Create address string int int
  | GV_Vote address nat bool
  | GV_Finalize nat
  | GV_Execute nat
  | GV_Cancel address nat

fun gv_exec ::
  "'w pool_query \<Rightarrow> env \<Rightarrow> gv_call \<Rightarrow> 'w gv_state \<Rightarrow> gv_error fault + 'w gv_state" where
  "gv_exec pq e (GV_Init a n) s = gv_init a n s"
| "gv_exec pq e (GV_SetTotalStaked a n) s = set_total_staked e a n s"
| "gv_exec pq e (GV_SetStakingPool a p) s = set_staking_pool e a p s"
| "gv_exec pq e (GV_SetVoterStake a v n) s = set_voter_stake e a v n s"
| "gv_exec pq e (GV_Create p k cv pv) s = drop_result (create_proposal pq e p k cv pv s)"
| "gv_exec pq e (GV_Vote v i b) s = vote e v i b s"
| "gv_exec pq e (GV_Finalize i) s = drop_result (finalize_proposal e i s)"
| "gv_exec pq e (GV_Execute i) s = execute_proposal e i s"
| "gv_exec pq e (GV_Cancel p i) s = cancel_proposal e p i s"

definition gv_fresh :: "'w \<Rightarrow> 'w gv_state" where
  "gv_fresh w = \<lparr>events = [], world = w, gv_admin = None, gv_staking_pool = None,
     gv_total_staked = None, gv_count = None, gv_proposals = Map.empty, gv_voted = Map.empty,
     gv_stake_balance = Map.empty, gv_known_voters = None, gv_snapshot = Map.empty\<rparr>"

lemmas gv_defs = gv_init_def set_total_staked_def set_staking_pool_def set_voter_stake_def
  create_proposal_def vote_def finalize_proposal_def execute_proposal_def cancel_proposal_def
  gv_require_admin_def gv_get_admin_def gv_put_proposal_def register_known_voter_def
  snapshot_known_voter_stakes_for_proposal_def

section \<open>The invariant\<close>

text \<open>Who has voted on a proposal, and the quorum of a proposal.\<close>

definition voters :: "nat \<Rightarrow> 'w gv_state \<Rightarrow> address set" where
  "voters i s = {v. gv_voted s (i, v) \<noteq> None}"

definition quorum :: "gv_proposal \<Rightarrow> int" where
  "quorum p = gp_snapshotted_total_staked p * QUORUM_BPS sdiv 10000"

definition gv_proposal_ok :: "nat \<Rightarrow> gv_proposal \<Rightarrow> 'w gv_state \<Rightarrow> bool" where
  "gv_proposal_ok i p s \<longleftrightarrow>
     gp_voting_ends_at p = gp_created_at p + VOTING_PERIOD_SECS \<and> finite (voters i s) \<and>
     gp_votes_for p + gp_votes_against p = (\<Sum>v \<in> voters i s. get_snapshot_stake_for i v s) \<and>
     (gp_status p \<in> {GV_Passed, GV_Executed} \<longrightarrow>
        gp_votes_against p < gp_votes_for p \<and> quorum p \<le> gp_votes_for p + gp_votes_against p)"

text \<open>Nothing is recorded under an identifier not yet handed out, and nothing before initialisation.\<close>

definition gv_unused :: "nat \<Rightarrow> 'w gv_state \<Rightarrow> bool" where
  "gv_unused i s \<longleftrightarrow> gv_proposals s i = None \<and> (\<forall>v. gv_voted s (i, v) = None \<and> gv_snapshot s (i, v) = None)"

definition gv_idle :: "'w gv_state \<Rightarrow> bool" where
  "gv_idle s \<longleftrightarrow> gv_staking_pool s = None \<and> gv_stake_balance s = Map.empty \<and> (\<forall>i. gv_unused i s)"

definition gv_ok :: "'w gv_state \<Rightarrow> bool" where
  "gv_ok s \<longleftrightarrow>
     (\<forall>i p. gv_proposals s i = Some p \<longrightarrow> gv_proposal_ok i p s) \<and>
     (\<forall>i > unwrap_or (gv_count s) 0. gv_unused i s) \<and>
     (gv_admin s = None \<longrightarrow> gv_idle s)"

lemma gv_fresh_ok: "gv_ok (gv_fresh w)"
  by (simp add: gv_ok_def gv_idle_def gv_unused_def gv_fresh_def)

lemma gv_okI:
  assumes "\<And>i p. gv_proposals s i = Some p \<Longrightarrow> gv_proposal_ok i p s"
    and "\<And>i. unwrap_or (gv_count s) 0 < i \<Longrightarrow> gv_unused i s"
    and "gv_admin s = None \<Longrightarrow> gv_idle s"
  shows "gv_ok s"
  using assms by (simp add: gv_ok_def)

lemma gv_okD:
  assumes "gv_ok s"
  shows "gv_proposals s i = Some p \<Longrightarrow> gv_proposal_ok i p s"
    and "unwrap_or (gv_count s) 0 < i \<Longrightarrow> gv_unused i s"
    and "gv_admin s = None \<Longrightarrow> gv_idle s"
    and "gv_proposals s i = Some p \<Longrightarrow> i \<le> unwrap_or (gv_count s) 0"
    and "gv_proposals s i = Some p \<Longrightarrow> gv_admin s \<noteq> None"
proof -
  show "gv_proposals s i = Some p \<Longrightarrow> gv_proposal_ok i p s"
    and unused: "unwrap_or (gv_count s) 0 < i \<Longrightarrow> gv_unused i s"
    and idle: "gv_admin s = None \<Longrightarrow> gv_idle s"
    using assms by (simp_all add: gv_ok_def)
  show "gv_proposals s i = Some p \<Longrightarrow> i \<le> unwrap_or (gv_count s) 0"
    using unused by (cases "unwrap_or (gv_count s) 0 < i") (auto simp: gv_unused_def)
  show "gv_proposals s i = Some p \<Longrightarrow> gv_admin s \<noteq> None"
    using idle by (cases "gv_admin s") (auto simp: gv_idle_def gv_unused_def)
qed

lemma get_stake_for_snapshot [simp]:
  "get_stake_for pq v (s\<lparr>gv_snapshot := m\<rparr>) = get_stake_for pq v s"
  "get_stake_for pq v (s\<lparr>gv_known_voters := k\<rparr>) = get_stake_for pq v s"
  by (simp_all add: get_stake_for_def split: option.splits)

lemma snapshot_loop_Inr:
  assumes "snapshot_loop pq i vs s = Inr s'"
  shows "\<exists>m. s' = s\<lparr>gv_snapshot := m\<rparr> \<and>
    (\<forall>j v. (j \<noteq> i \<or> v \<notin> set vs) \<longrightarrow> m (j, v) = gv_snapshot s (j, v)) \<and>
    (\<forall>v \<in> set vs. \<exists>n. get_stake_for pq v s = Inr n \<and> m (i, v) = Some n)"
  using assms
proof (induction vs arbitrary: s)
  case Nil
  then show ?case by (intro exI [of _ "gv_snapshot s"]) simp
next
  case (Cons u vs)
  then obtain n where n: "get_stake_for pq u s = Inr n"
    and run: "snapshot_loop pq i vs (s\<lparr>gv_snapshot := (gv_snapshot s)((i, u) \<mapsto> n)\<rparr>) = Inr s'"
    by (auto simp: outcome_simps)
  from Cons.IH [OF run] obtain m where m: "s' = s\<lparr>gv_snapshot := m\<rparr>"
    "\<forall>j v. (j \<noteq> i \<or> v \<notin> set vs) \<longrightarrow> m (j, v) = ((gv_snapshot s)((i, u) \<mapsto> n)) (j, v)"
    "\<forall>v \<in> set vs. \<exists>n. get_stake_for pq v s = Inr n \<and> m (i, v) = Some n"
    by auto
  show ?case
  proof (intro exI [of _ m] conjI)
    show "\<forall>v \<in> set (u # vs). \<exists>n. get_stake_for pq v s = Inr n \<and> m (i, v) = Some n"
      using m n by (cases "u \<in> set vs") auto
  qed (use m in auto)
qed

text \<open>What a successful proposal does to the state.\<close>

lemma create_proposal_Inr:
  assumes "create_proposal pq e p k cv pv s = Inr (i, s')"
  obtains m where "i = unwrap_or (gv_count s) 0 + 1" "gv_count s' = Some i"
    "gv_snapshot s' = m" "gv_voted s' = gv_voted s" "gv_admin s' = gv_admin s"
    "gv_staking_pool s' = gv_staking_pool s" "gv_stake_balance s' = gv_stake_balance s"
    "gv_proposals s' = (gv_proposals s)(i \<mapsto> \<lparr>gp_id = i, gp_proposer = p, gp_param_key = k,
           gp_current_value = cv, gp_proposed_value = pv, gp_votes_for = 0, gp_votes_against = 0,
           gp_status = GV_Active, gp_created_at = timestamp e,
           gp_voting_ends_at = timestamp e + VOTING_PERIOD_SECS,
           gp_snapshotted_total_staked = gv_get_total_staked s\<rparr>)"
    "\<And>j v. j \<noteq> i \<or> v \<notin> insert p (set (unwrap_or (gv_known_voters s) [])) \<Longrightarrow>
        m (j, v) = gv_snapshot s (j, v)"
    "\<And>v. v \<in> insert p (set (unwrap_or (gv_known_voters s) [])) \<Longrightarrow>
        \<exists>n. get_stake_for pq v s = Inr n \<and> m (i, v) = Some n"
    "\<exists>n. get_stake_for pq p s = Inr n \<and> MIN_STAKE_TO_PROPOSE \<le> n"
proof -
  let ?s = "register_known_voter p s"
  from assms obtain s1 where i: "i = unwrap_or (gv_count s) 0 + 1"
    and st: "\<exists>n. get_stake_for pq p s = Inr n \<and> MIN_STAKE_TO_PROPOSE \<le> n"
    and loop: "snapshot_loop pq i (unwrap_or (gv_known_voters ?s) []) ?s = Inr s1"
    and s': "s' = publish [VSym ''governance'', VSym ''proposal_created'']
               [VNat i, VAddr p, VInt (gv_get_total_staked s)]
             ((gv_put_proposal i \<lparr>gp_id = i, gp_proposer = p, gp_param_key = k,
           gp_current_value = cv, gp_proposed_value = pv, gp_votes_for = 0, gp_votes_against = 0,
           gp_status = GV_Active, gp_created_at = timestamp e,
           gp_voting_ends_at = timestamp e + VOTING_PERIOD_SECS,
           gp_snapshotted_total_staked = gv_get_total_staked s\<rparr> s1)\<lparr>gv_count := Some i\<rparr>)"
    unfolding create_proposal_def snapshot_known_voter_stakes_for_proposal_def
    by (auto simp: outcome_simps Let_def not_less split: if_splits)
  have known: "set (unwrap_or (gv_known_voters ?s) []) =
      insert p (set (unwrap_or (gv_known_voters s) []))"
    by (auto simp: register_known_voter_def list_ex_iff Let_def)
  have same: "\<exists>kv. ?s = s\<lparr>gv_known_voters := kv\<rparr>"
    by (auto simp: register_known_voter_def Let_def intro: exI [of _ "gv_known_voters s"])
  from snapshot_loop_Inr [OF loop] known same that i st s' show thesis
    by (fastforce simp: gv_put_proposal_def host_simps)
qed

lemma gv_proposal_ok_cong:
  assumes "voters i s' = voters i s" and "\<And>v. gv_snapshot s' (i, v) = gv_snapshot s (i, v)"
  shows "gv_proposal_ok i p s' = gv_proposal_ok i p s"
  using assms by (simp add: gv_proposal_ok_def get_snapshot_stake_for_def)

lemma create_ok:
  assumes "gv_ok s" and "create_proposal pq e p k cv pv s = Inr (i, s')"
  shows "gv_ok s'"
proof -
  obtain m where c: "i = unwrap_or (gv_count s) 0 + 1" "gv_count s' = Some i"
    "gv_snapshot s' = m" "gv_voted s' = gv_voted s" "gv_admin s' = gv_admin s"
    and props: "gv_proposals s' = (gv_proposals s)(i \<mapsto> \<lparr>gp_id = i, gp_proposer = p, gp_param_key = k,
           gp_current_value = cv, gp_proposed_value = pv, gp_votes_for = 0, gp_votes_against = 0,
           gp_status = GV_Active, gp_created_at = timestamp e,
           gp_voting_ends_at = timestamp e + VOTING_PERIOD_SECS,
           gp_snapshotted_total_staked = gv_get_total_staked s\<rparr>)"
    and m: "\<And>j v. j \<noteq> i \<Longrightarrow> m (j, v) = gv_snapshot s (j, v)"
    and st: "\<exists>n. get_stake_for pq p s = Inr n \<and> MIN_STAKE_TO_PROPOSE \<le> n"
    using assms(2) by (rule create_proposal_Inr) blast
  have new: "voters i s' = {}"
    using gv_okD(2) [OF assms(1), of i] c(1,4) by (simp add: gv_unused_def voters_def)
  have admin: "gv_admin s \<noteq> None"
  proof
    assume "gv_admin s = None"
    then have "gv_idle s" by (rule gv_okD(3) [OF assms(1)])
    with st show False by (auto simp: gv_idle_def get_stake_for_def MIN_STAKE_TO_PROPOSE_def)
  qed
  show ?thesis
  proof (rule gv_okI)
    fix j q assume q: "gv_proposals s' j = Some q"
    show "gv_proposal_ok j q s'"
    proof (cases "j = i")
      case True
      with q props new show ?thesis by (auto simp: gv_proposal_ok_def)
    next
      case False
      with q props have "gv_proposal_ok j q s" by (intro gv_okD(1) [OF assms(1)]) simp
      moreover have "voters j s' = voters j s" using c(4) by (simp add: voters_def)
      ultimately show ?thesis using gv_proposal_ok_cong [of j s' s q] m [OF False] c(3) by simp
    qed
  next
    fix j assume "unwrap_or (gv_count s') 0 < j"
    with c(1,2) have "gv_unused j s" "j \<noteq> i" by (auto intro: gv_okD(2) [OF assms(1)])
    with c(3,4) props m show "gv_unused j s'" by (simp add: gv_unused_def)
  qed (use c(5) admin in simp)
qed

lemma vote_ok:
  assumes "gv_ok s" and "vote e v i b s = Inr s'"
  shows "gv_ok s'"
proof -
  obtain p where p: "gv_proposals s i = Some p" "gp_status p = GV_Active" "gv_voted s (i, v) = None"
    using assms(2) by (auto simp: vote_def outcome_simps split: if_splits)
  obtain q where q: "gv_proposals s' = (gv_proposals s)(i \<mapsto> q)"
      "gv_voted s' = (gv_voted s)((i, v) \<mapsto> True)"
      "gp_voting_ends_at q = gp_voting_ends_at p" "gp_created_at q = gp_created_at p"
      "gp_status q = GV_Active"
      "gp_votes_for q + gp_votes_against q =
         gp_votes_for p + gp_votes_against p + get_snapshot_stake_for i v s"
      "gv_snapshot s' = gv_snapshot s" "gv_count s' = gv_count s" "gv_admin s' = gv_admin s"
    using assms(2) p by (cases b)
      (auto simp: vote_def gv_put_proposal_def outcome_simps host_simps Let_def split: if_splits)
  have vs: "voters i s' = insert v (voters i s)" "v \<notin> voters i s"
    and other: "\<And>j. j \<noteq> i \<Longrightarrow> voters j s' = voters j s" using q(2) p(3) by (auto simp: voters_def)
  have old: "gv_proposal_ok i p s" by (rule gv_okD(1) [OF assms(1) p(1)])
  show ?thesis
  proof (rule gv_okI)
    fix j r assume r: "gv_proposals s' j = Some r"
    show "gv_proposal_ok j r s'"
    proof (cases "j = i")
      case True
      with r q old vs show ?thesis by (auto simp: gv_proposal_ok_def get_snapshot_stake_for_def)
    next
      case False
      with r q(1) have "gv_proposal_ok j r s" by (intro gv_okD(1) [OF assms(1)]) simp
      with gv_proposal_ok_cong [OF other [OF False], of r] q(7) show ?thesis by simp
    qed
  next
    fix j assume "unwrap_or (gv_count s') 0 < j"
    with q(8) have "gv_unused j s" by (intro gv_okD(2) [OF assms(1)]) simp
    with p(1) have "j \<noteq> i" by (auto simp: gv_unused_def)
    with \<open>gv_unused j s\<close> q(1,2,7) show "gv_unused j s'" by (simp add: gv_unused_def)
  qed (use gv_okD(5) [OF assms(1) p(1)] q(9) in simp)
qed

text \<open>The remaining calls leave votes and snapshots alone; some set the status of one proposal.\<close>

lemma status_ok:
  assumes "gv_ok s" and "gv_proposals s i = Some p"
    and "q = p\<lparr>gp_status := st\<rparr>"
    and "st \<in> {GV_Passed, GV_Executed} \<Longrightarrow> gp_status p \<in> {GV_Passed, GV_Executed} \<or>
       (gp_votes_against p < gp_votes_for p \<and> quorum p \<le> gp_votes_for p + gp_votes_against p)"
    and "s' = s\<lparr>gv_proposals := (gv_proposals s)(i \<mapsto> q), events := ev\<rparr>"
  shows "gv_ok s'"
proof -
  have "gv_proposal_ok i p s" by (rule gv_okD(1) [OF assms(1,2)])
  then have q: "gv_proposal_ok i q s" using assms(3,4) by (auto simp: gv_proposal_ok_def quorum_def)
  have cong: "gv_proposal_ok j r s' = gv_proposal_ok j r s" for j r
    using assms(5) by (intro gv_proposal_ok_cong) (simp_all add: voters_def)
  show ?thesis
  proof (rule gv_okI)
    fix j r assume "gv_proposals s' j = Some r"
    with assms(5) q gv_okD(1) [OF assms(1)] have "gv_proposal_ok j r s" by (auto split: if_splits)
    then show "gv_proposal_ok j r s'" by (simp only: cong)
  next
    fix j assume "unwrap_or (gv_count s') 0 < j"
    with assms(5) have "gv_unused j s" by (intro gv_okD(2) [OF assms(1)]) simp
    with assms(2,5) show "gv_unused j s'" by (auto simp: gv_unused_def)
  qed (use gv_okD(5) [OF assms(1,2)] assms(5) in simp)
qed

lemma finalize_ok:
  assumes "gv_ok s" and "finalize_proposal e i s = Inr (st, s')"
  shows "gv_ok s'"
proof -
  obtain p ev where p: "gv_proposals s i = Some p"
    "st = GV_Passed \<Longrightarrow> gp_votes_against p < gp_votes_for p \<and> quorum p \<le> gp_votes_for p + gp_votes_against p"
    "st \<noteq> GV_Executed"
    "s' = s\<lparr>gv_proposals := (gv_proposals s)(i \<mapsto> p\<lparr>gp_status := st\<rparr>), events := ev\<rparr>"
    using assms(2) by (auto simp: finalize_proposal_def gv_put_proposal_def quorum_def outcome_simps
        host_simps Let_def split: if_splits)
  then show ?thesis by (intro status_ok [OF assms(1) p(1) refl]) auto
qed

lemma execute_ok:
  assumes "gv_ok s" and "execute_proposal e i s = Inr s'"
  shows "gv_ok s'"
proof -
  obtain p ev where p: "gv_proposals s i = Some p" "gp_status p = GV_Passed"
    "s' = s\<lparr>gv_proposals := (gv_proposals s)(i \<mapsto> p\<lparr>gp_status := GV_Executed\<rparr>), events := ev\<rparr>"
    using assms(2) by (auto simp: execute_proposal_def gv_put_proposal_def outcome_simps host_simps
        split: if_splits)
  then show ?thesis by (intro status_ok [OF assms(1) p(1) refl]) auto
qed

lemma cancel_ok:
  assumes "gv_ok s" and "cancel_proposal e a i s = Inr s'"
  shows "gv_ok s'"
proof -
  obtain p ev where p: "gv_proposals s i = Some p"
    "s' = s\<lparr>gv_proposals := (gv_proposals s)(i \<mapsto> p\<lparr>gp_status := GV_Cancelled\<rparr>), events := ev\<rparr>"
    using assms(2) by (auto simp: cancel_proposal_def gv_put_proposal_def outcome_simps host_simps
        split: if_splits)
  then show ?thesis by (intro status_ok [OF assms(1) p(1) refl]) auto
qed

lemma gv_exec_ok:
  assumes "gv_ok s" and "gv_exec pq e c s = Inr s'"
  shows "gv_ok s'"
proof -
  have keep: ?thesis if "gv_proposals s' = gv_proposals s" "gv_voted s' = gv_voted s"
    "gv_snapshot s' = gv_snapshot s" "gv_count s' = gv_count s" "gv_admin s' = gv_admin s" "gv_admin s \<noteq> None"
  proof (rule gv_okI)
    fix i p assume "gv_proposals s' i = Some p"
    with that(1) have "gv_proposal_ok i p s" by (intro gv_okD(1) [OF assms(1)]) simp
    moreover have "voters i s' = voters i s" using that(2) by (simp add: voters_def)
    ultimately show "gv_proposal_ok i p s'" using gv_proposal_ok_cong [of i s' s p] that(3) by simp
  next
    fix i assume "unwrap_or (gv_count s') 0 < i"
    with that(4) have "gv_unused i s" by (intro gv_okD(2) [OF assms(1)]) simp
    with that(1-3) show "gv_unused i s'" by (simp add: gv_unused_def)
  qed (use that(5,6) in simp)
  show ?thesis
  proof (cases c)
    case (GV_Init a n)
    with assms(2) have "gv_admin s = None" by (auto simp: gv_init_def split: if_splits)
    then have "gv_idle s" by (rule gv_okD(3) [OF assms(1)])
    with GV_Init assms(2) show ?thesis
      by (auto simp: gv_init_def gv_ok_def gv_idle_def gv_unused_def split: if_splits)
  next
    case (GV_Create p k cv pv)
    with assms show ?thesis by (auto simp: outcome_simps intro: create_ok)
  next
    case (GV_Vote v i b)
    with assms show ?thesis by (auto intro: vote_ok)
  next
    case (GV_Finalize i)
    with assms show ?thesis by (auto simp: outcome_simps intro: finalize_ok)
  next
    case (GV_Execute i)
    with assms show ?thesis by (auto intro: execute_ok)
  next
    case (GV_Cancel a i)
    with assms show ?thesis by (auto intro: cancel_ok)
  qed (rule keep; use assms(2) in \<open>auto simp: set_total_staked_def set_staking_pool_def
      set_voter_stake_def gv_require_admin_def gv_get_admin_def register_known_voter_def
      outcome_simps Let_def\<close>)+
qed

lemma gv_ok_world: "gv_ok (s\<lparr>world := w\<rparr>) = gv_ok s"
  by (simp add: gv_ok_def gv_idle_def gv_unused_def gv_proposal_ok_def voters_def
      get_snapshot_stake_for_def)

interpretation gv_machine: invariant_machine "gv_exec pq" any_call world_moves gv_ok for pq
proof
  fix s s' :: "'a gv_state"
  assume "gv_ok s" and "world_moves s s'"
  then show "gv_ok s'" by (auto simp: world_moves_def gv_ok_world)
qed (rule gv_exec_ok)

section \<open>Properties\<close>


text \<open>Votes are weighed by the stake at creation: whatever happens to stakes after a proposal was
  created, the weight of a known voter in it stays the stake it had then, and an account that was
  neither the proposer nor registered before has weight zero, however much it has staked.\<close>

theorem weight_fixed_at_creation:
  assumes "reach (gv_exec pq) any_call world_moves (gv_fresh w) s"
    and "create_proposal pq e p k cv pv s = Inr (i, s1)"
    and "reach (gv_exec pq) any_call world_moves s1 s2"
  shows "if v \<in> insert p (set (unwrap_or (gv_known_voters s) []))
    then get_stake_for pq v s = Inr (get_snapshot_stake_for i v s2)
    else get_snapshot_stake_for i v s2 = 0"
proof -
  have ok: "gv_ok s" by (rule gv_machine.reach_inv [OF assms(1) gv_fresh_ok])
  obtain m where c: "i = unwrap_or (gv_count s) 0 + 1" "gv_count s1 = Some i" "gv_snapshot s1 = m"
    and out: "\<And>j v. j \<noteq> i \<or> v \<notin> insert p (set (unwrap_or (gv_known_voters s) [])) \<Longrightarrow>
        m (j, v) = gv_snapshot s (j, v)"
    and kn: "\<And>v. v \<in> insert p (set (unwrap_or (gv_known_voters s) [])) \<Longrightarrow>
        \<exists>n. get_stake_for pq v s = Inr n \<and> m (i, v) = Some n"
    using assms(2) by (rule create_proposal_Inr) blast
  have "i \<le> unwrap_or (gv_count s2) 0 \<and> gv_snapshot s2 (i, v) = m (i, v) \<and> gv_admin s2 \<noteq> None" (is "?fix s2")
    using assms(3)
  proof (induction rule: reach.induct)
    case reach_start
    have "gv_admin s1 \<noteq> None" using create_ok [OF ok assms(2)] gv_okD(5) [of s1 i] assms(2)
      by (elim create_proposal_Inr) auto
    with c show ?case by simp
  next
    case (reach_call s e c s')
    show ?case
    proof (cases c)
      case (GV_Create p' k' cv' pv')
      with reach_call have "\<exists>j. create_proposal pq e p' k' cv' pv' s = Inr (j, s')" by (auto simp: outcome_simps)
      with reach_call(4) show ?thesis by (elim exE create_proposal_Inr) auto
    next
      case (GV_Init a n)
      with reach_call show ?thesis by (auto simp: gv_init_def split: if_splits)
    qed (use reach_call in \<open>auto simp: gv_defs outcome_simps host_simps Let_def split: if_splits\<close>)
  next
    case (reach_other s s')
    then show ?case by (auto simp: world_moves_def)
  qed
  moreover have "gv_snapshot s (i, v) = None"
    using gv_okD(2) [OF ok, of i] c(1) by (simp add: gv_unused_def)
  ultimately show ?thesis using out [of i v] kn [of v] by (auto simp: get_snapshot_stake_for_def)
qed

text \<open>A proposal is executed once, in the form it was created, and no earlier than nine days
  (voting period and timelock) after its creation: an execution changes nothing but the status, and
  after it every further execution, vote or cancellation of the proposal fails.\<close>

theorem executed_once_after_delay:
  assumes "reach (gv_exec pq) any_call world_moves (gv_fresh w) s"
    and "execute_proposal e i s = Inr s1"
    and "reach (gv_exec pq) any_call world_moves s1 s2"
    and "c \<in> {GV_Execute i, GV_Vote a i b, GV_Cancel a i}"
  shows "(\<exists>p. gv_proposals s i = Some p \<and> gp_status p = GV_Passed \<and>
      gp_created_at p + 9 * 86400 \<le> timestamp e \<and>
      gv_proposals s2 i = Some (p\<lparr>gp_status := GV_Executed\<rparr>)) \<and>
    (\<exists>f. gv_exec pq e2 c s2 = Inl f)"
proof -
  have ok: "gv_ok s" by (rule gv_machine.reach_inv [OF assms(1) gv_fresh_ok])
  obtain p where p: "gv_proposals s i = Some p" "gp_status p = GV_Passed"
    "gp_voting_ends_at p + TIMELOCK_SECS \<le> timestamp e"
    "gv_proposals s1 i = Some (p\<lparr>gp_status := GV_Executed\<rparr>)"
    using assms(2) by (auto simp: execute_proposal_def gv_put_proposal_def outcome_simps host_simps
        split: if_splits)
  have late: "gp_created_at p + 9 * 86400 \<le> timestamp e"
    using gv_okD(1) [OF ok p(1)] p(3) by (simp add: gv_proposal_ok_def VOTING_PERIOD_SECS_def TIMELOCK_SECS_def)
  have "gv_ok s2 \<and> gv_proposals s2 i = Some (p\<lparr>gp_status := GV_Executed\<rparr>)" using assms(3)
  proof (induction rule: reach.induct)
    case reach_start
    show ?case using execute_ok [OF ok assms(2)] p(4) by simp
  next
    case (reach_call s e c s')
    then have ok': "gv_ok s" "gv_ok s'" by (auto intro: gv_exec_ok)
    show ?case
    proof (cases c)
      case (GV_Create p' k' cv' pv')
      with reach_call obtain j where "create_proposal pq e p' k' cv' pv' s = Inr (j, s')"
        by (auto simp: outcome_simps)
      then have "j = unwrap_or (gv_count s) 0 + 1" "\<exists>r. gv_proposals s' = (gv_proposals s)(j \<mapsto> r)"
        by (auto elim: create_proposal_Inr)
      moreover have "i \<le> unwrap_or (gv_count s) 0" using reach_call gv_okD(4) [OF ok'(1)] by blast
      ultimately show ?thesis using reach_call ok' by auto
    qed (use reach_call ok' in \<open>auto simp: gv_defs outcome_simps host_simps Let_def split: if_splits\<close>)
  next
    case (reach_other s s')
    then show ?case using gv_machine.other_inv by (auto simp: world_moves_def)
  qed
  then have s2: "gv_proposals s2 i = Some (p\<lparr>gp_status := GV_Executed\<rparr>)" by blast
  have "\<exists>f. gv_exec pq e2 c s2 = Inl f"
    using assms(4) s2 by (cases "gv_exec pq e2 c s2") (auto simp: gv_defs outcome_simps split: if_splits)
  with p late s2 show ?thesis by blast
qed

section \<open>Concrete runs\<close>

definition gv_setup :: "(env \<times> gv_call) list" where
  "gv_setup =
     [(call_at 10 (Address 9) (Address 2), GV_Init (Address 2) 1000),
      (call_at 10 (Address 9) (Address 2), GV_SetVoterStake (Address 2) (Address 3) 500)]"

definition gv_decided :: "(env \<times> gv_call) list" where
  "gv_decided = gv_setup @
     [(call_at 100 (Address 9) (Address 3), GV_Create (Address 3) ''fee'' 5 7),
      (call_at 200 (Address 9) (Address 3), GV_Vote (Address 3) 1 True),
      (call_at 700000 (Address 9) (Address 4), GV_Finalize 1)]"

definition no_pool :: "unit pool_query" where "no_pool _ _ _ = None"

lemmas gv_eval = gv_defs get_stake_for_def gv_get_total_staked_def get_snapshot_stake_for_def
  require_admin_permission_def MIN_STAKE_TO_PROPOSE_def VOTING_PERIOD_SECS_def TIMELOCK_SECS_def
  QUORUM_BPS_def drop_result_def require_auth_def ensure_def ck_u64_def ck_i128_def div_i128_def
  i128_ok_def signed_divide_int_def host_simps apply_call_def gv_fresh_def

lemma gv_setup_run:
  "reach (gv_exec no_pool) any_call world_moves (gv_fresh ())
     (run_calls (gv_exec no_pool) gv_setup (gv_fresh ()))"
  "\<exists>s1. create_proposal no_pool (call_at 100 (Address 9) (Address 3)) (Address 3) ''fee'' 5 7
     (run_calls (gv_exec no_pool) gv_setup (gv_fresh ())) = Inr (1, s1)"
  "get_stake_for no_pool (Address 3) (run_calls (gv_exec no_pool) gv_setup (gv_fresh ())) = Inr 500"
proof -
  show "reach (gv_exec no_pool) any_call world_moves (gv_fresh ())
     (run_calls (gv_exec no_pool) gv_setup (gv_fresh ()))"
    by (rule run_calls_reach) (simp add: any_call_def)
qed (simp_all add: gv_setup_def gv_eval Let_def)

lemma gv_decided_run:
  "reach (gv_exec no_pool) any_call world_moves (gv_fresh ())
     (run_calls (gv_exec no_pool) gv_decided (gv_fresh ()))"
  "\<exists>p. gv_proposals (run_calls (gv_exec no_pool) gv_decided (gv_fresh ())) 1 = Some p \<and>
     gp_status p = GV_Passed"
  "\<exists>s1. execute_proposal (call_at 900000 (Address 9) (Address 4)) 1
     (run_calls (gv_exec no_pool) gv_decided (gv_fresh ())) = Inr s1"
proof -
  show "reach (gv_exec no_pool) any_call world_moves (gv_fresh ())
     (run_calls (gv_exec no_pool) gv_decided (gv_fresh ()))"
    by (rule run_calls_reach) (simp add: any_call_def)
qed (simp_all add: gv_decided_def gv_setup_def gv_eval Let_def)


lemma weight_fixed_at_creation_witness:
  "\<exists>s1. create_proposal no_pool (call_at 100 (Address 9) (Address 3)) (Address 3) ''fee'' 5 7
     (run_calls (gv_exec no_pool) gv_setup (gv_fresh ())) = Inr (1, s1) \<and>
     get_snapshot_stake_for 1 (Address 3) s1 = 500"
proof -
  obtain s1 where s1: "create_proposal no_pool (call_at 100 (Address 9) (Address 3)) (Address 3) ''fee'' 5 7
     (run_calls (gv_exec no_pool) gv_setup (gv_fresh ())) = Inr (1, s1)" using gv_setup_run(2) by blast
  from weight_fixed_at_creation [OF gv_setup_run(1) this reach_start, of "Address 3"]
  have "get_snapshot_stake_for 1 (Address 3) s1 = 500" using gv_setup_run(3) by simp
  with s1 show ?thesis by blast
qed

lemma executed_once_after_delay_witness:
  "\<exists>s1 f. execute_proposal (call_at 900000 (Address 9) (Address 4)) 1
     (run_calls (gv_exec no_pool) gv_decided (gv_fresh ())) = Inr s1 \<and>
     gv_exec no_pool (call_at 900000 (Address 9) (Address 4)) (GV_Execute 1) s1 = Inl f"
proof -
  obtain s1 where s1: "execute_proposal (call_at 900000 (Address 9) (Address 4)) 1
     (run_calls (gv_exec no_pool) gv_decided (gv_fresh ())) = Inr s1" using gv_decided_run(3) by blast
  from executed_once_after_delay [OF gv_decided_run(1) s1 reach_start] s1 show ?thesis by blast
qed

end
