(* ===== verification/RentWallet.thy ===== *)
theory RentWallet
  imports AccessControl Pausable UpgradeGovernance
begin

text \<open>
  The custodial rent wallet (\<open>rent_wallet/src/lib.rs\<close>, \<open>monthly_cap.rs\<close>, \<open>validation.rs\<close>): balances the
  admin credits and debits, with an optional spending cap per user and 30-day period.  The
  specification it refines is a plain ledger.
\<close>

section \<open>State and errors\<close>

datatype rw_error =
    RW_AlreadyInitialized
  | RW_NotAuthorized
  | RW_Paused
  | RW_InvalidAmount
  | RW_InsufficientBalance
  | RW_UpgradeAlreadyPending
  | RW_NoUpgradePending
  | RW_UpgradeDelayNotMet
  | RW_AmountTooLarge
  | RW_BalanceOverflow
  | RW_InvalidTimeValue
  | RW_EmptyString
  | RW_StringTooLong
  | RW_InvalidStringChar
  | RW_SameAddress
  | RW_InvalidUpgradeVersion
  | RW_IncompatibleStateSchema
  | RW_MonthlyCapExceeded

record 'w rw_state = "'w ug_host" +
  rw_balances :: "address \<rightharpoonup> int"
  rw_paused :: "bool option"
  rw_cap_default :: "int option"
  rw_cap_override :: "address \<rightharpoonup> int"
  rw_spent :: "address \<times> nat \<rightharpoonup> int"

section \<open>Validation\<close>

definition MAX_STRING_LEN :: nat where "MAX_STRING_LEN = 256"

definition MAX_AMOUNT :: int where "MAX_AMOUNT = 1000000000000000000"

definition MIN_AMOUNT :: int where "MIN_AMOUNT = 1"

definition validate_amount :: "int \<Rightarrow> rw_error fault + unit" where
  "validate_amount amount =
     (if amount < MIN_AMOUNT then Inl (Err RW_InvalidAmount)
      else if MAX_AMOUNT < amount then Inl (Err RW_AmountTooLarge)
      else Inr ())"

definition validate_time_value :: "nat \<Rightarrow> rw_error fault + unit" where
  "validate_time_value v =
     (if 136 * 365 * 24 * 3600 < v then Inl (Err RW_InvalidTimeValue) else Inr ())"

text \<open>The byte loop of \<open>validate_string\<close>; a string is the list of its bytes.\<close>

fun ascii_loop :: "bytes \<Rightarrow> rw_error fault + unit" where
  "ascii_loop [] = Inr ()"
| "ascii_loop (byte # rest) =
     (if \<not> (0x20 \<le> byte \<and> byte \<le> 0x7E) then Inl (Err RW_InvalidStringChar) else ascii_loop rest)"

definition validate_string :: "bytes \<Rightarrow> rw_error fault + unit" where
  "validate_string s =
     (if length s = 0 then Inl (Err RW_EmptyString)
      else if MAX_STRING_LEN < length s then Inl (Err RW_StringTooLong)
      else ascii_loop (take (min (length s) 256) s))"

definition validate_distinct_addresses :: "address \<Rightarrow> address \<Rightarrow> rw_error fault + unit" where
  "validate_distinct_addresses a b = (if a = b then Inl (Err RW_SameAddress) else Inr ())"

section \<open>Helpers and the monthly cap\<close>

definition rw_get_admin :: "'w rw_state \<Rightarrow> 'e fault + address" where
  "rw_get_admin s = expect (ug_admin s) ''admin not set''"

definition get_balance :: "address \<Rightarrow> 'w rw_state \<Rightarrow> int" where
  "get_balance user s = unwrap_or (rw_balances s user) 0"

definition put_balance :: "address \<Rightarrow> int \<Rightarrow> 'w rw_state \<Rightarrow> 'w rw_state" where
  "put_balance user amount s = s\<lparr>rw_balances := (rw_balances s)(user \<mapsto> amount)\<rparr>"

definition get_paused_state :: "'w rw_state \<Rightarrow> bool" where
  "get_paused_state s = unwrap_or (rw_paused s) False"

definition rw_require_not_paused :: "'w rw_state \<Rightarrow> rw_error fault + unit" where
  "rw_require_not_paused s = (if get_paused_state s then Inl (Err RW_Paused) else Inr ())"

definition SECONDS_PER_MONTH :: nat where "SECONDS_PER_MONTH = 2592000"

text \<open>\<open>(timestamp / SECONDS_PER_MONTH) as u32\<close>: the cast keeps the low 32 bits.\<close>

definition current_month_key :: "env \<Rightarrow> nat" where
  "current_month_key e = (timestamp e div SECONDS_PER_MONTH) mod 2 ^ 32"

definition get_monthly_cap_default :: "'w rw_state \<Rightarrow> int" where
  "get_monthly_cap_default s = unwrap_or (rw_cap_default s) 0"

definition get_monthly_cap_override :: "address \<Rightarrow> 'w rw_state \<Rightarrow> int option" where
  "get_monthly_cap_override user s = rw_cap_override s user"

definition effective_cap :: "address \<Rightarrow> 'w rw_state \<Rightarrow> int" where
  "effective_cap user s = unwrap_or (get_monthly_cap_override user s) (get_monthly_cap_default s)"

definition get_monthly_spent :: "env \<Rightarrow> address \<Rightarrow> 'w rw_state \<Rightarrow> int" where
  "get_monthly_spent e user s = unwrap_or (rw_spent s (user, current_month_key e)) 0"

definition record_monthly_spent ::
  "env \<Rightarrow> address \<Rightarrow> int \<Rightarrow> 'w rw_state \<Rightarrow> rw_error fault + 'w rw_state" where
  "record_monthly_spent e user additional s =
     (let key = current_month_key e; current = unwrap_or (rw_spent s (user, key)) 0 in
      bindE (ck_i128 (current + additional)) (\<lambda>n.
      Inr (s\<lparr>rw_spent := (rw_spent s)((user, key) \<mapsto> n)\<rparr>)))"

definition check_and_record_debit ::
  "env \<Rightarrow> address \<Rightarrow> int \<Rightarrow> 'w rw_state \<Rightarrow> rw_error fault + 'w rw_state" where
  "check_and_record_debit e user amount s =
     (let cap = effective_cap user s in
      if cap = 0 then Inr s
      else
      bindE (ck_i128 (get_monthly_spent e user s + amount)) (\<lambda>new_spent.
      if cap < new_spent then Inl (Err RW_MonthlyCapExceeded)
      else record_monthly_spent e user amount s))"

definition emit_monthly_cap_set :: "address option \<Rightarrow> int \<Rightarrow> 'w rw_state \<Rightarrow> 'w rw_state" where
  "emit_monthly_cap_set user cap s =
     publish [VSym ''rent_wallet'', VSym ''monthly_cap_set''] [opt_val VAddr user, VInt cap] s"

section \<open>Entry points\<close>

definition rw_init :: "address \<Rightarrow> 'w rw_state \<Rightarrow> rw_error fault + 'w rw_state" where
  "rw_init admin s =
     (if ug_admin s \<noteq> None then Inl (Err RW_AlreadyInitialized)
      else Inr (publish [VSym ''rent_wallet'', VSym ''init''] [VAddr admin, VNat 1]
             (s\<lparr>ug_admin := Some admin, ug_version := Some 1, ug_schema := Some 1,
                rw_paused := Some False\<rparr>)))"

definition rw_contract_version :: "'w rw_state \<Rightarrow> nat" where
  "rw_contract_version s = unwrap_or (ug_version s) 0"

definition rw_credit ::
  "env \<Rightarrow> address \<Rightarrow> address \<Rightarrow> int \<Rightarrow> 'w rw_state \<Rightarrow> rw_error fault + 'w rw_state" where
  "rw_credit e admin user amount s =
     bindE (rw_get_admin s) (\<lambda>current_admin.
     bindE (require_admin_permission e current_admin admin ''credit'' RW_NotAuthorized s) (\<lambda>_.
     bindE (rw_require_not_paused s) (\<lambda>_.
     bindE (validate_amount amount) (\<lambda>_.
     let cur = get_balance user s in
     bindE (if i128_ok (cur + amount) then Inr (cur + amount) else Inl (Err RW_BalanceOverflow))
       (\<lambda>new_balance.
     Inr (publish [VSym ''rent_wallet'', VSym ''credit'', VAddr user] [VInt amount]
            (put_balance user new_balance s)))))))"

definition rw_debit ::
  "env \<Rightarrow> address \<Rightarrow> address \<Rightarrow> int \<Rightarrow> 'w rw_state \<Rightarrow> rw_error fault + 'w rw_state" where
  "rw_debit e admin user amount s =
     bindE (rw_get_admin s) (\<lambda>current_admin.
     bindE (require_admin_permission e current_admin admin ''debit'' RW_NotAuthorized s) (\<lambda>_.
     bindE (rw_require_not_paused s) (\<lambda>_.
     bindE (validate_amount amount) (\<lambda>_.
     let cur = get_balance user s in
     if cur < amount then Inl (Err RW_InsufficientBalance)
     else
     bindE (check_and_record_debit e user amount s) (\<lambda>s.
     bindE (ck_i128 (cur - amount)) (\<lambda>new_balance.
     Inr (publish [VSym ''rent_wallet'', VSym ''debit'', VAddr user] [VInt amount]
            (put_balance user new_balance s))))))))"

definition rw_set_admin :: "env \<Rightarrow> address \<Rightarrow> address \<Rightarrow> 'w rw_state \<Rightarrow> rw_error fault + 'w rw_state" where
  "rw_set_admin e admin new_admin s =
     bindE (rw_get_admin s) (\<lambda>current_admin.
     bindE (require_admin_permission e current_admin admin ''set_admin'' RW_NotAuthorized s) (\<lambda>_.
     bindE (rw_get_admin s) (\<lambda>old_admin.
     Inr (publish [VSym ''rent_wallet'', VSym ''set_admin''] [VAddr old_admin, VAddr new_admin]
            (s\<lparr>ug_admin := Some new_admin\<rparr>)))))"

definition rw_pause :: "env \<Rightarrow> address \<Rightarrow> 'w rw_state \<Rightarrow> pausable_error fault + 'w rw_state" where
  "rw_pause e admin s =
     bindE (rw_get_admin s) (\<lambda>current_admin.
     bindE (map_err (\<lambda>_. PE_NotAuthorized)
        (require_admin_permission e current_admin admin ''pause'' RW_NotAuthorized s)) (\<lambda>_.
     Inr (publish [VSym ''Pausable'', VSym ''pause''] [] (s\<lparr>rw_paused := Some True\<rparr>))))"

definition rw_unpause :: "env \<Rightarrow> address \<Rightarrow> 'w rw_state \<Rightarrow> pausable_error fault + 'w rw_state" where
  "rw_unpause e admin s =
     bindE (rw_get_admin s) (\<lambda>current_admin.
     bindE (map_err (\<lambda>_. PE_NotAuthorized)
        (require_admin_permission e current_admin admin ''unpause'' RW_NotAuthorized s)) (\<lambda>_.
     Inr (publish [VSym ''Pausable'', VSym ''unpause''] [] (s\<lparr>rw_paused := Some False\<rparr>))))"

section \<open>Upgrade governance\<close>

definition rw_set_guardian ::
  "env \<Rightarrow> address \<Rightarrow> address \<Rightarrow> 'w rw_state \<Rightarrow> rw_error fault + 'w rw_state" where
  "rw_set_guardian e admin guardian s =
     map_err (\<lambda>_. RW_NotAuthorized) (set_guardian e admin (Some guardian) ''rent_wallet'' s)"

definition rw_set_upgrade_delay ::
  "env \<Rightarrow> address \<Rightarrow> nat \<Rightarrow> 'w rw_state \<Rightarrow> rw_error fault + 'w rw_state" where
  "rw_set_upgrade_delay e admin delay_seconds s =
     map_err (\<lambda>_. RW_NotAuthorized) (set_upgrade_delay e admin delay_seconds ''rent_wallet'' s)"

fun rw_propose_error :: "ug_error \<Rightarrow> rw_error" where
  "rw_propose_error UG_NotAuthorized = RW_NotAuthorized"
| "rw_propose_error UG_UpgradeAlreadyPending = RW_UpgradeAlreadyPending"
| "rw_propose_error UG_InvalidUpgradeVersion = RW_InvalidUpgradeVersion"
| "rw_propose_error UG_IncompatibleSchemaVersion = RW_IncompatibleStateSchema"
| "rw_propose_error _ = RW_NotAuthorized"

definition rw_propose_upgrade ::
  "env \<Rightarrow> address \<Rightarrow> bytes32 \<Rightarrow> nat \<Rightarrow> 'w rw_state \<Rightarrow> rw_error fault + 'w rw_state" where
  "rw_propose_upgrade e admin new_wasm_hash new_version s =
     (let current_version = rw_contract_version s; schema_version = unwrap_or (ug_schema s) 0 in
      if schema_version \<noteq> current_version then Inl (Err RW_IncompatibleStateSchema)
      else map_err rw_propose_error
             (propose_upgrade e admin new_wasm_hash new_version (Some schema_version)
                ''rent_wallet'' s))"

fun rw_execute_error :: "ug_error \<Rightarrow> rw_error" where
  "rw_execute_error UG_NotAuthorized = RW_NotAuthorized"
| "rw_execute_error UG_NoPendingUpgrade = RW_NoUpgradePending"
| "rw_execute_error UG_UpgradeDelayNotElapsed = RW_UpgradeDelayNotMet"
| "rw_execute_error _ = RW_NotAuthorized"

definition rw_execute_upgrade ::
  "env \<Rightarrow> address \<Rightarrow> bytes32 \<Rightarrow> 'w rw_state \<Rightarrow> rw_error fault + 'w rw_state" where
  "rw_execute_upgrade e admin new_wasm_hash s =
     map_err rw_execute_error (execute_upgrade e admin new_wasm_hash ''rent_wallet'' s)"

fun rw_emergency_error :: "ug_error \<Rightarrow> rw_error" where
  "rw_emergency_error UG_InvalidUpgradeVersion = RW_InvalidUpgradeVersion"
| "rw_emergency_error UG_IncompatibleSchemaVersion = RW_IncompatibleStateSchema"
| "rw_emergency_error _ = RW_NotAuthorized"

definition rw_emergency_upgrade ::
  "env \<Rightarrow> address \<Rightarrow> bytes32 \<Rightarrow> nat \<Rightarrow> 'w rw_state \<Rightarrow> rw_error fault + 'w rw_state" where
  "rw_emergency_upgrade e admin new_wasm_hash new_version s =
     (let current_version = rw_contract_version s; schema_version = unwrap_or (ug_schema s) 0 in
      if schema_version \<noteq> current_version then Inl (Err RW_IncompatibleStateSchema)
      else map_err rw_emergency_error
             (emergency_upgrade e admin new_wasm_hash new_version (Some schema_version)
                ''rent_wallet'' True s))"

definition rw_cancel_upgrade :: "env \<Rightarrow> address \<Rightarrow> 'w rw_state \<Rightarrow> rw_error fault + 'w rw_state" where
  "rw_cancel_upgrade e admin s =
     bindE (rw_get_admin s) (\<lambda>current_admin.
     bindE (require_admin_permission e current_admin admin ''cancel_upgrade'' RW_NotAuthorized s) (\<lambda>_.
     bindE (ok_or (ug_pending_hash s) RW_NoUpgradePending) (\<lambda>hash.
     Inr (publish [VSym ''rent_wallet'', VSym ''cancel_upgrade''] [VAddr admin, VBytes hash]
          (s\<lparr>ug_pending_hash := None, ug_pending_at := None, ug_pending_version := None\<rparr>)))))"

section \<open>Caps\<close>

definition set_default_monthly_cap :: "env \<Rightarrow> address \<Rightarrow> int \<Rightarrow> 'w rw_state \<Rightarrow> rw_error fault + 'w rw_state" where
  "set_default_monthly_cap e admin cap s =
     bindE (rw_get_admin s) (\<lambda>current_admin.
     bindE (require_admin_permission e current_admin admin ''set_default_monthly_cap'' RW_NotAuthorized s) (\<lambda>_.
     if cap < 0 then Inl (Err RW_InvalidAmount)
     else if MAX_AMOUNT < cap then Inl (Err RW_AmountTooLarge)
     else Inr (emit_monthly_cap_set None cap (s\<lparr>rw_cap_default := Some cap\<rparr>))))"

definition set_user_monthly_cap ::
  "env \<Rightarrow> address \<Rightarrow> address \<Rightarrow> int \<Rightarrow> 'w rw_state \<Rightarrow> rw_error fault + 'w rw_state" where
  "set_user_monthly_cap e admin user cap s =
     bindE (rw_get_admin s) (\<lambda>current_admin.
     bindE (require_admin_permission e current_admin admin ''set_user_monthly_cap'' RW_NotAuthorized s) (\<lambda>_.
     if cap < 0 then Inl (Err RW_InvalidAmount)
     else if MAX_AMOUNT < cap then Inl (Err RW_AmountTooLarge)
     else Inr (emit_monthly_cap_set (Some user) cap
                 (s\<lparr>rw_cap_override := (rw_cap_override s)(user \<mapsto> cap)\<rparr>))))"

datatype rw_call =
    RW_Init address
  | RW_Credit address address int
  | RW_Debit address address int
  | RW_SetAdmin address address
  | RW_Pause address
  | RW_Unpause address
  | RW_SetGuardian address address
  | RW_SetUpgradeDelay address nat
  | RW_ProposeUpgrade address bytes32 nat
  | RW_ExecuteUpgrade address bytes32
  | RW_EmergencyUpgrade address bytes32 nat
  | RW_CancelUpgrade address
  | RW_SetDefaultCap address int
  | RW_SetUserCap address address int

datatype rw_any_error = RW_Contract rw_error | RW_Pausable pausable_error

fun rw_exec :: "env \<Rightarrow> rw_call \<Rightarrow> 'w rw_state \<Rightarrow> rw_any_error fault + 'w rw_state" where
  "rw_exec e (RW_Init a) s = map_err RW_Contract (rw_init a s)"
| "rw_exec e (RW_Credit a u n) s = map_err RW_Contract (rw_credit e a u n s)"
| "rw_exec e (RW_Debit a u n) s = map_err RW_Contract (rw_debit e a u n s)"
| "rw_exec e (RW_SetAdmin a b) s = map_err RW_Contract (rw_set_admin e a b s)"
| "rw_exec e (RW_Pause a) s = map_err RW_Pausable (rw_pause e a s)"
| "rw_exec e (RW_Unpause a) s = map_err RW_Pausable (rw_unpause e a s)"
| "rw_exec e (RW_SetGuardian a g) s = map_err RW_Contract (rw_set_guardian e a g s)"
| "rw_exec e (RW_SetUpgradeDelay a d) s = map_err RW_Contract (rw_set_upgrade_delay e a d s)"
| "rw_exec e (RW_ProposeUpgrade a h v) s = map_err RW_Contract (rw_propose_upgrade e a h v s)"
| "rw_exec e (RW_ExecuteUpgrade a h) s = map_err RW_Contract (rw_execute_upgrade e a h s)"
| "rw_exec e (RW_EmergencyUpgrade a h v) s = map_err RW_Contract (rw_emergency_upgrade e a h v s)"
| "rw_exec e (RW_CancelUpgrade a) s = map_err RW_Contract (rw_cancel_upgrade e a s)"
| "rw_exec e (RW_SetDefaultCap a n) s = map_err RW_Contract (set_default_monthly_cap e a n s)"
| "rw_exec e (RW_SetUserCap a u n) s = map_err RW_Contract (set_user_monthly_cap e a u n s)"

definition rw_fresh :: "'w \<Rightarrow> 'w rw_state" where
  "rw_fresh w = \<lparr>events = [], world = w, ug_admin = None, ug_guardian = None,
     ug_pending_hash = None, ug_pending_at = None, ug_pending_version = None, ug_version = None,
     ug_delay = None, ug_schema = None, ug_wasm = None, rw_balances = Map.empty, rw_paused = None,
     rw_cap_default = None, rw_cap_override = Map.empty, rw_spent = Map.empty\<rparr>"

lemmas rw_defs = rw_init_def rw_credit_def rw_debit_def rw_set_admin_def rw_pause_def rw_unpause_def
  rw_set_guardian_def rw_set_upgrade_delay_def rw_propose_upgrade_def rw_execute_upgrade_def
  rw_emergency_upgrade_def rw_cancel_upgrade_def set_default_monthly_cap_def
  set_user_monthly_cap_def rw_get_admin_def put_balance_def rw_require_not_paused_def
  emit_monthly_cap_set_def

interpretation rw_pausable: pausable rw_pause rw_unpause get_paused_state ug_admin
  by unfold_locales
    (auto simp: rw_pause_def rw_unpause_def get_paused_state_def rw_get_admin_def outcome_simps host_simps)

section \<open>Refinement of a ledger\<close>

text \<open>
  The specification: an amount of money per account; a credit adds to one account, a debit takes
  from one that has enough, nothing else touches an account.
\<close>

fun wallet_spec :: "env \<Rightarrow> rw_call \<Rightarrow> (address \<Rightarrow> int) \<Rightarrow> (address \<Rightarrow> int) option" where
  "wallet_spec e (RW_Credit a u n) b = (if 0 < n then Some (b(u := b u + n)) else None)"
| "wallet_spec e (RW_Debit a u n) b = (if 0 < n \<and> n \<le> b u then Some (b(u := b u - n)) else None)"
| "wallet_spec e _ b = Some b"

definition ledger_of :: "'w rw_state \<Rightarrow> address \<Rightarrow> int" where
  "ledger_of s = (\<lambda>u. get_balance u s)"

lemma validate_amount_Inr_iff [outcome_simps]:
  "validate_amount n = Inr u \<longleftrightarrow> 0 < n \<and> n \<le> MAX_AMOUNT"
  by (auto simp: validate_amount_def MIN_AMOUNT_def)

lemma check_and_record_debit_Inr:
  assumes "check_and_record_debit e u n s = Inr s'"
  shows "(effective_cap u s = 0 \<and> s' = s) \<or>
    (effective_cap u s \<noteq> 0 \<and> get_monthly_spent e u s + n \<le> effective_cap u s \<and>
     s' = s\<lparr>rw_spent := (rw_spent s)((u, current_month_key e) \<mapsto> get_monthly_spent e u s + n)\<rparr>)"
  using assms by (auto simp: check_and_record_debit_def record_monthly_spent_def get_monthly_spent_def
      outcome_simps Let_def split: if_splits)

interpretation rw_ledger: refinement rw_exec wallet_spec ledger_of "\<lambda>_. True"
proof
  fix e c and s s' :: "'a rw_state"
  assume run: "rw_exec e c s = Inr s'"
  show "wallet_spec e c (ledger_of s) = Some (ledger_of s')"
  proof (cases c)
    case (RW_Debit a u n)
    with run obtain s1 where "0 < n" "n \<le> get_balance u s" "check_and_record_debit e u n s = Inr s1"
      "rw_balances s' = (rw_balances s1)(u \<mapsto> get_balance u s - n)"
      by (auto simp: rw_defs outcome_simps host_simps Let_def split: if_splits)
    with RW_Debit check_and_record_debit_Inr show ?thesis
      by (fastforce simp: ledger_of_def get_balance_def)
  qed (use run in \<open>auto simp: rw_defs ledger_of_def get_balance_def fun_eq_iff outcome_simps host_simps
      clear_pending_def Let_def split: if_splits\<close>)
qed simp

lemma spec_run_nonneg:
  "spec_run wallet_spec cs b = Some b' \<Longrightarrow> \<forall>u. 0 \<le> b u \<Longrightarrow> \<forall>u. 0 \<le> b' u"
proof (induction cs arbitrary: b)
  case (Cons x cs)
  obtain e c where x: "x = (e, c)" by (cases x)
  from Cons.prems(1) obtain b1 where b1: "wallet_spec e c b = Some b1" "spec_run wallet_spec cs b1 = Some b'"
    by (auto simp: x split: option.splits)
  have "\<forall>u. 0 \<le> b1 u" using b1(1) Cons.prems(2) by (cases c) (auto split: if_splits)
  with Cons.IH b1(2) show ?case by blast
qed simp

text \<open>C16. The wallet refines a plain ledger: over every history from a fresh deployment, the balances
  are what the accepted credits and debits make of an empty ledger, no other call touches one, and
  no balance is ever negative.\<close>

theorem wallet_refines_ledger:
  "spec_run wallet_spec (accepted rw_exec cs (rw_fresh w)) (\<lambda>_. 0) =
     Some (ledger_of (run_calls rw_exec cs (rw_fresh w))) \<and>
   0 \<le> get_balance u (run_calls rw_exec cs (rw_fresh w))"
proof -
  have start: "ledger_of (rw_fresh w) = (\<lambda>_. 0)"
    by (simp add: ledger_of_def get_balance_def rw_fresh_def)
  have run: "spec_run wallet_spec (accepted rw_exec cs (rw_fresh w)) (\<lambda>_. 0) =
     Some (ledger_of (run_calls rw_exec cs (rw_fresh w)))"
    using rw_ledger.run_refines [where s = "rw_fresh w" and cs = cs] by (simp add: start)
  with spec_run_nonneg [OF run] show ?thesis by (simp add: ledger_of_def)
qed

section \<open>The monthly cap\<close>

text \<open>What a call debits from \<open>u\<close> in period \<open>k\<close>, and the calls that leave the cap of \<open>u\<close> alone.\<close>

definition rw_debited :: "address \<Rightarrow> nat \<Rightarrow> env \<Rightarrow> rw_call \<Rightarrow> 'w rw_state \<Rightarrow> int" where
  "rw_debited u k e c s =
     (case c of RW_Debit a v n \<Rightarrow> if v = u \<and> current_month_key e = k then n else 0 | _ \<Rightarrow> 0)"

definition keeps_cap :: "address \<Rightarrow> rw_call \<Rightarrow> bool" where
  "keeps_cap u c =
     (case c of RW_SetDefaultCap _ _ \<Rightarrow> False | RW_SetUserCap _ v _ \<Rightarrow> v \<noteq> u | _ \<Rightarrow> True)"

definition capped :: "address \<Rightarrow> nat \<Rightarrow> int \<Rightarrow> int \<Rightarrow> int \<Rightarrow> 'w rw_state \<Rightarrow> bool" where
  "capped u k cap before acc s \<longleftrightarrow> effective_cap u s = cap \<and>
     unwrap_or (rw_spent s (u, k)) 0 = before + acc \<and> before + acc \<le> cap"

lemma rw_exec_capped:
  assumes "capped u k cap before acc s" and "0 < cap" and "keeps_cap u c" and "rw_exec e c s = Inr s'"
  shows "capped u k cap before (acc + rw_debited u k e c s) s'"
proof (cases c)
  case (RW_Debit a v n)
  with assms(4) obtain s1 where s1: "check_and_record_debit e v n s = Inr s1"
      "rw_spent s' = rw_spent s1" "rw_cap_default s' = rw_cap_default s1"
      "rw_cap_override s' = rw_cap_override s1"
    by (auto simp: rw_defs outcome_simps host_simps Let_def split: if_splits)
  have cap: "effective_cap u s' = effective_cap u s"
    using check_and_record_debit_Inr [OF s1(1)] s1(3,4)
    by (auto simp: effective_cap_def get_monthly_cap_override_def get_monthly_cap_default_def)
  show ?thesis
  proof (cases "v = u \<and> current_month_key e = k")
    case True
    with check_and_record_debit_Inr [OF s1(1)] assms(1,2) s1(2) cap RW_Debit show ?thesis
      by (auto simp: capped_def rw_debited_def get_monthly_spent_def)
  next
    case False
    with check_and_record_debit_Inr [OF s1(1)] assms(1) s1(2) cap RW_Debit show ?thesis
      by (auto simp: capped_def rw_debited_def)
  qed
qed (use assms in \<open>auto simp: capped_def rw_debited_def keeps_cap_def rw_defs effective_cap_def
    get_monthly_cap_override_def get_monthly_cap_default_def outcome_simps host_simps
    clear_pending_def Let_def split: if_splits\<close>)

text \<open>C17. The monthly cap holds: while a user's effective cap stays the same positive amount, all
  debits accepted for the user in one period, together with what was already recorded for it, stay
  within the cap, in every history of calls.\<close>

theorem monthly_cap_enforced:
  assumes "tally rw_exec (rw_debited u k) cs 0 s = (debited, s')"
    and "effective_cap u s = cap" and "0 < cap" and "\<forall>(e, c) \<in> set cs. keeps_cap u c"
    and "unwrap_or (rw_spent s (u, k)) 0 \<le> cap"
  shows "unwrap_or (rw_spent s (u, k)) 0 + debited \<le> cap"
proof -
  let ?before = "unwrap_or (rw_spent s (u, k)) 0"
  have "capped u k cap ?before 0 s" using assms(2,5) by (simp add: capped_def)
  then have "capped u k cap ?before debited s'"
    by (rule tally_inv [OF assms(1)]) (use assms(3,4) in \<open>auto intro: rw_exec_capped\<close>)
  then show ?thesis by (simp add: capped_def)
qed

definition rw_sample :: "unit rw_state" where
  "rw_sample = (rw_fresh ())\<lparr>ug_admin := Some (Address 2), rw_cap_default := Some 100,
     rw_balances := [Address 3 \<mapsto> 500]\<rparr>"

lemma monthly_cap_enforced_witness:
  "\<exists>debited s'. tally rw_exec (rw_debited (Address 3) 0)
     [(call_at 5 (Address 9) (Address 2), RW_Debit (Address 2) (Address 3) 70),
      (call_at 6 (Address 9) (Address 2), RW_Debit (Address 2) (Address 3) 40)] 0 rw_sample =
       (debited, s') \<and> debited = 70 \<and> debited \<le> 100"
proof -
  have run: "\<exists>s'. tally rw_exec (rw_debited (Address 3) 0)
     [(call_at 5 (Address 9) (Address 2), RW_Debit (Address 2) (Address 3) 70),
      (call_at 6 (Address 9) (Address 2), RW_Debit (Address 2) (Address 3) 40)] 0 rw_sample = (70, s')"
    by (simp add: rw_sample_def rw_fresh_def rw_defs validate_amount_def MIN_AMOUNT_def MAX_AMOUNT_def
        check_and_record_debit_def record_monthly_spent_def get_monthly_spent_def effective_cap_def
        get_monthly_cap_override_def get_monthly_cap_default_def current_month_key_def
        SECONDS_PER_MONTH_def get_balance_def get_paused_state_def require_admin_permission_def
        require_auth_def ensure_def ck_i128_def i128_ok_def host_simps rw_debited_def Let_def)
  then obtain s' where s': "tally rw_exec (rw_debited (Address 3) 0)
     [(call_at 5 (Address 9) (Address 2), RW_Debit (Address 2) (Address 3) 70),
      (call_at 6 (Address 9) (Address 2), RW_Debit (Address 2) (Address 3) 40)] 0 rw_sample = (70, s')" by blast
  have "effective_cap (Address 3) rw_sample = 100" "unwrap_or (rw_spent rw_sample (Address 3, 0)) 0 \<le> 100"
    by (simp_all add: effective_cap_def get_monthly_cap_override_def get_monthly_cap_default_def
        rw_sample_def rw_fresh_def)
  from monthly_cap_enforced [OF s' this(1) _ _ this(2)] s' show ?thesis by (auto simp: keeps_cap_def)
qed

end
