(* ===== verification/StakeDelegation.thy ===== *)
theory StakeDelegation
  imports Machines
begin

text \<open>
  Delegated stake (\<open>stake_delegation/src/lib.rs\<close>): users stake, delegate parts of their stake, and
  take it back by revocation (next epoch) or undelegation (cooldown); delegatees earn rewards by an
  index and keep a commission; stakes and delegations are slashed.  The contract keeps accounts and
  moves no tokens.
\<close>

section \<open>State and errors\<close>

datatype sd_error =
    SD_AlreadyInitialized
  | SD_NotAuthorized
  | SD_Paused
  | SD_InvalidAmount
  | SD_DelegationNotFound
  | SD_InsufficientStake
  | SD_RevocationTooEarly
  | SD_AlreadyDelegated
  | SD_CooldownNotElapsed
  | SD_NoPendingUndelegation
  | SD_SlashExceedsBalance
  | SD_CommissionTooHigh

record delegation =
  dl_delegatee :: address
  dl_amount :: int
  dl_activated_epoch :: nat

record pending_undelegation =
  pu_amount :: int
  pu_request_time :: nat

record 'w sd_state = "'w host" +
  sd_admin :: "address option"
  sd_paused :: "bool option"
  sd_epoch_duration :: "nat option"
  sd_epoch :: "nat option"
  sd_delegations :: "address \<rightharpoonup> delegation list"
  sd_staked :: "address \<rightharpoonup> int"
  sd_reward_index :: "int option"
  sd_total_staked :: "int option"
  sd_pending_rewards :: "address \<rightharpoonup> int"
  sd_revocation :: "address \<times> address \<rightharpoonup> nat"
  sd_delegatee_stake :: "address \<rightharpoonup> int"
  sd_delegatee_index :: "address \<rightharpoonup> int"
  sd_cooldown :: "nat option"
  sd_pending_undelegation :: "address \<times> address \<rightharpoonup> pending_undelegation"
  sd_commission_rate :: "address \<rightharpoonup> nat"
  sd_commission_balance :: "address \<rightharpoonup> int"
  sd_slashing_authority :: "address option"
  sd_delegators_of :: "address \<rightharpoonup> address list"

definition SD_SCALE :: int where "SD_SCALE = 1000000000"

section \<open>Helpers\<close>

definition sd_require_admin :: "env \<Rightarrow> address \<Rightarrow> 'w sd_state \<Rightarrow> sd_error fault + unit" where
  "sd_require_admin e caller s =
     bindE (ok_or (sd_admin s) SD_NotAuthorized) (\<lambda>admin.
     bindE (require_auth e caller) (\<lambda>_.
     if caller \<noteq> admin then Inl (Err SD_NotAuthorized) else Inr ()))"

definition sd_is_paused :: "'w sd_state \<Rightarrow> bool" where
  "sd_is_paused s = unwrap_or (sd_paused s) False"

definition sd_require_not_paused :: "'w sd_state \<Rightarrow> sd_error fault + unit" where
  "sd_require_not_paused s = (if sd_is_paused s then Inl (Err SD_Paused) else Inr ())"

definition current_epoch :: "'w sd_state \<Rightarrow> nat" where
  "current_epoch s = unwrap_or (sd_epoch s) 1"

definition get_undelegation_cooldown :: "'w sd_state \<Rightarrow> nat" where
  "get_undelegation_cooldown s = unwrap_or (sd_cooldown s) 604800"

definition sd_get_total_staked :: "'w sd_state \<Rightarrow> int" where
  "sd_get_total_staked s = unwrap_or (sd_total_staked s) 0"

definition sd_get_reward_index :: "'w sd_state \<Rightarrow> int" where
  "sd_get_reward_index s = unwrap_or (sd_reward_index s) 0"

definition get_delegatee_stake :: "address \<Rightarrow> 'w sd_state \<Rightarrow> int" where
  "get_delegatee_stake a s = unwrap_or (sd_delegatee_stake s a) 0"

definition put_delegatee_stake :: "address \<Rightarrow> int \<Rightarrow> 'w sd_state \<Rightarrow> 'w sd_state" where
  "put_delegatee_stake a n s = s\<lparr>sd_delegatee_stake := (sd_delegatee_stake s)(a \<mapsto> n)\<rparr>"

definition get_delegatee_index :: "address \<Rightarrow> 'w sd_state \<Rightarrow> int" where
  "get_delegatee_index a s = unwrap_or (sd_delegatee_index s a) 0"

definition get_delegations :: "address \<Rightarrow> 'w sd_state \<Rightarrow> delegation list" where
  "get_delegations a s = unwrap_or (sd_delegations s a) []"

definition put_delegations :: "address \<Rightarrow> delegation list \<Rightarrow> 'w sd_state \<Rightarrow> 'w sd_state" where
  "put_delegations a ds s = s\<lparr>sd_delegations := (sd_delegations s)(a \<mapsto> ds)\<rparr>"

definition sd_staked_balance :: "address \<Rightarrow> 'w sd_state \<Rightarrow> int" where
  "sd_staked_balance a s = unwrap_or (sd_staked s a) 0"

definition sd_put_staked :: "address \<Rightarrow> int \<Rightarrow> 'w sd_state \<Rightarrow> 'w sd_state" where
  "sd_put_staked a n s = s\<lparr>sd_staked := (sd_staked s)(a \<mapsto> n)\<rparr>"

definition get_delegators :: "address \<Rightarrow> 'w sd_state \<Rightarrow> address list" where
  "get_delegators a s = unwrap_or (sd_delegators_of s a) []"

definition settle_pending_for :: "address \<Rightarrow> int \<Rightarrow> 'w sd_state \<Rightarrow> sd_error fault + 'w sd_state" where
  "settle_pending_for a current_reward_index s =
     (let delegatee_stake = get_delegatee_stake a s; delegatee_index = get_delegatee_index a s in
      bindE (if 0 < delegatee_stake \<and> delegatee_index < current_reward_index
             then bindE (ck_i128 (current_reward_index - delegatee_index)) (\<lambda>delta.
                  bindE (ck_i128 (delegatee_stake * delta)) (\<lambda>product.
                  bindE (div_i128 product SD_SCALE) (\<lambda>gross.
                  if 0 < gross
                  then
                    bindE (ck_i128 (gross * int (unwrap_or (sd_commission_rate s a) 0))) (\<lambda>weighted.
                    bindE (div_i128 weighted 10000) (\<lambda>commission.
                    bindE (ck_i128 (gross - commission)) (\<lambda>net_rewards.
                    bindE (if 0 < commission
                           then bindE (ck_i128 (unwrap_or (sd_commission_balance s a) 0 + commission)) (\<lambda>n.
                                Inr (s\<lparr>sd_commission_balance := (sd_commission_balance s)(a \<mapsto> n)\<rparr>))
                           else Inr s) (\<lambda>s.
                    if 0 < net_rewards
                    then bindE (ck_i128 (unwrap_or (sd_pending_rewards s a) 0 + net_rewards)) (\<lambda>n.
                         Inr (s\<lparr>sd_pending_rewards := (sd_pending_rewards s)(a \<mapsto> n)\<rparr>))
                    else Inr s))))
                  else Inr s)))
             else Inr s) (\<lambda>s.
      Inr (s\<lparr>sd_delegatee_index := (sd_delegatee_index s)(a \<mapsto> current_reward_index)\<rparr>)))"

fun settle_loop :: "int \<Rightarrow> delegation list \<Rightarrow> 'w sd_state \<Rightarrow> sd_error fault + 'w sd_state" where
  "settle_loop reward_index [] s = Inr s"
| "settle_loop reward_index (d # ds) s =
     bindE (settle_pending_for (dl_delegatee d) reward_index s) (settle_loop reward_index ds)"

definition settle_all_delegates :: "address \<Rightarrow> 'w sd_state \<Rightarrow> sd_error fault + 'w sd_state" where
  "settle_all_delegates delegator s =
     settle_loop (sd_get_reward_index s) (get_delegations delegator s) s"

fun delegated_loop :: "delegation list \<Rightarrow> int \<Rightarrow> sd_error fault + int" where
  "delegated_loop [] acc = Inr acc"
| "delegated_loop (d # ds) acc = bindE (ck_i128 (acc + dl_amount d)) (delegated_loop ds)"

definition total_delegated :: "address \<Rightarrow> 'w sd_state \<Rightarrow> sd_error fault + int" where
  "total_delegated delegator s = delegated_loop (get_delegations delegator s) 0"

definition add_delegator_to_delegatee :: "address \<Rightarrow> address \<Rightarrow> 'w sd_state \<Rightarrow> 'w sd_state" where
  "add_delegator_to_delegatee delegatee delegator s =
     (let delegators = get_delegators delegatee s in
      if list_ex (\<lambda>d. d = delegator) delegators then s
      else s\<lparr>sd_delegators_of := (sd_delegators_of s)(delegatee \<mapsto> delegators @ [delegator])\<rparr>)"

definition remove_delegator_from_delegatee :: "address \<Rightarrow> address \<Rightarrow> 'w sd_state \<Rightarrow> 'w sd_state" where
  "remove_delegator_from_delegatee delegatee delegator s =
     s\<lparr>sd_delegators_of := (sd_delegators_of s)
         (delegatee \<mapsto> filter (\<lambda>d. d \<noteq> delegator) (get_delegators delegatee s))\<rparr>"

text \<open>The search loops that stop at the first delegation to a delegatee.\<close>

definition delegation_to :: "address \<Rightarrow> delegation list \<Rightarrow> delegation option" where
  "delegation_to delegatee ds = List.find (\<lambda>d. dl_delegatee d = delegatee) ds"

section \<open>Administration\<close>

definition sd_init :: "address \<Rightarrow> nat \<Rightarrow> 'w sd_state \<Rightarrow> sd_error fault + 'w sd_state" where
  "sd_init admin epoch_duration_secs s =
     (if sd_admin s \<noteq> None then Inl (Err SD_AlreadyInitialized)
      else Inr (publish [VSym ''delegation'', VSym ''init''] [VAddr admin, VNat epoch_duration_secs]
             (s\<lparr>sd_admin := Some admin, sd_epoch_duration := Some epoch_duration_secs,
                sd_epoch := Some 1, sd_cooldown := Some 604800, sd_reward_index := Some 0,
                sd_total_staked := Some 0\<rparr>)))"

definition advance_epoch :: "env \<Rightarrow> address \<Rightarrow> 'w sd_state \<Rightarrow> sd_error fault + nat \<times> 'w sd_state" where
  "advance_epoch e admin s =
     bindE (sd_require_not_paused s) (\<lambda>_.
     bindE (sd_require_admin e admin s) (\<lambda>_.
     bindE (ck_u64 (current_epoch s + 1)) (\<lambda>next_epoch.
     Inr (next_epoch, publish [VSym ''delegation'', VSym ''epoch_advanced''] [VNat next_epoch]
            (s\<lparr>sd_epoch := Some next_epoch\<rparr>)))))"

definition set_undelegation_cooldown ::
  "env \<Rightarrow> address \<Rightarrow> nat \<Rightarrow> 'w sd_state \<Rightarrow> sd_error fault + 'w sd_state" where
  "set_undelegation_cooldown e admin cooldown_secs s =
     bindE (sd_require_not_paused s) (\<lambda>_.
     bindE (sd_require_admin e admin s) (\<lambda>_.
     Inr (publish [VSym ''delegation'', VSym ''cooldown_updated''] [VNat cooldown_secs]
            (s\<lparr>sd_cooldown := Some cooldown_secs\<rparr>))))"

definition set_commission :: "env \<Rightarrow> address \<Rightarrow> nat \<Rightarrow> 'w sd_state \<Rightarrow> sd_error fault + 'w sd_state" where
  "set_commission e delegatee rate_bps s =
     bindE (sd_require_not_paused s) (\<lambda>_.
     bindE (require_auth e delegatee) (\<lambda>_.
     if 10000 < rate_bps then Inl (Err SD_CommissionTooHigh)
     else
     bindE (settle_pending_for delegatee (sd_get_reward_index s) s) (\<lambda>s.
     Inr (publish [VSym ''delegation'', VSym ''commission_set'', VAddr delegatee] [VNat rate_bps]
            (s\<lparr>sd_commission_rate := (sd_commission_rate s)(delegatee \<mapsto> rate_bps)\<rparr>)))))"

definition claim_commission :: "env \<Rightarrow> address \<Rightarrow> 'w sd_state \<Rightarrow> sd_error fault + int \<times> 'w sd_state" where
  "claim_commission e delegatee s =
     bindE (sd_require_not_paused s) (\<lambda>_.
     bindE (require_auth e delegatee) (\<lambda>_.
     bindE (settle_pending_for delegatee (sd_get_reward_index s) s) (\<lambda>s.
     let commission = unwrap_or (sd_commission_balance s delegatee) 0 in
     Inr (commission, publish [VSym ''delegation'', VSym ''commission_claimed'', VAddr delegatee]
            [VInt commission]
            (s\<lparr>sd_commission_balance := (sd_commission_balance s)(delegatee \<mapsto> 0)\<rparr>)))))"

definition set_slashing_authority ::
  "env \<Rightarrow> address \<Rightarrow> address \<Rightarrow> 'w sd_state \<Rightarrow> sd_error fault + 'w sd_state" where
  "set_slashing_authority e admin authority s =
     bindE (sd_require_admin e admin s) (\<lambda>_.
     Inr (publish [VSym ''delegation'', VSym ''slashing_authority_set''] [VAddr authority]
            (s\<lparr>sd_slashing_authority := Some authority\<rparr>)))"

definition sd_pause :: "env \<Rightarrow> address \<Rightarrow> 'w sd_state \<Rightarrow> sd_error fault + 'w sd_state" where
  "sd_pause e admin s =
     bindE (sd_require_admin e admin s) (\<lambda>_.
     Inr (publish [VSym ''delegation'', VSym ''paused''] [VAddr admin] (s\<lparr>sd_paused := Some True\<rparr>)))"

definition sd_unpause :: "env \<Rightarrow> address \<Rightarrow> 'w sd_state \<Rightarrow> sd_error fault + 'w sd_state" where
  "sd_unpause e admin s =
     bindE (sd_require_admin e admin s) (\<lambda>_.
     Inr (publish [VSym ''delegation'', VSym ''unpaused''] [VAddr admin] (s\<lparr>sd_paused := Some False\<rparr>)))"

section \<open>Staking\<close>

definition sd_stake :: "env \<Rightarrow> address \<Rightarrow> int \<Rightarrow> 'w sd_state \<Rightarrow> sd_error fault + 'w sd_state" where
  "sd_stake e from amount s =
     bindE (sd_require_not_paused s) (\<lambda>_.
     bindE (require_auth e from) (\<lambda>_.
     if amount \<le> 0 then Inl (Err SD_InvalidAmount)
     else
     bindE (settle_all_delegates from s) (\<lambda>s.
     bindE (ck_i128 (sd_staked_balance from s + amount)) (\<lambda>bal.
     let s = sd_put_staked from bal s in
     bindE (ck_i128 (sd_get_total_staked s + amount)) (\<lambda>new_total.
     Inr (publish [VSym ''delegation'', VSym ''stake'', VAddr from] [VInt amount]
            (s\<lparr>sd_total_staked := Some new_total\<rparr>)))))))"

definition sd_unstake :: "env \<Rightarrow> address \<Rightarrow> int \<Rightarrow> 'w sd_state \<Rightarrow> sd_error fault + 'w sd_state" where
  "sd_unstake e from amount s =
     bindE (sd_require_not_paused s) (\<lambda>_.
     bindE (require_auth e from) (\<lambda>_.
     if amount \<le> 0 then Inl (Err SD_InvalidAmount)
     else
     let bal = sd_staked_balance from s in
     if bal < amount then Inl (Err SD_InsufficientStake)
     else
     bindE (total_delegated from s) (\<lambda>delegated.
     bindE (ck_i128 (bal - delegated)) (\<lambda>free.
     if free < amount then Inl (Err SD_InsufficientStake)
     else
     bindE (settle_all_delegates from s) (\<lambda>s.
     bindE (ck_i128 (bal - amount)) (\<lambda>new_bal.
     let s = sd_put_staked from new_bal s in
     bindE (ck_i128 (sd_get_total_staked s - amount)) (\<lambda>new_total.
     Inr (publish [VSym ''delegation'', VSym ''unstake'', VAddr from] [VInt amount]
            (s\<lparr>sd_total_staked := Some new_total\<rparr>)))))))))"

section \<open>Delegation\<close>

text \<open>The loops that rebuild a delegator's list: \<open>delegate\<close>'s (with its \<open>found\<close> flag) and
  \<open>complete_undelegate\<close>'s (with \<open>amount_removed\<close> and \<open>delegation_fully_removed\<close>).\<close>

fun delegate_loop ::
  "address \<Rightarrow> int \<Rightarrow> delegation list \<Rightarrow> bool \<Rightarrow> delegation list \<Rightarrow> sd_error fault + bool \<times> delegation list" where
  "delegate_loop delegatee amount [] found acc = Inr (found, acc)"
| "delegate_loop delegatee amount (d # ds) found acc =
     (if dl_delegatee d = delegatee
      then bindE (ck_i128 (dl_amount d + amount)) (\<lambda>n.
           delegate_loop delegatee amount ds True (acc @ [d\<lparr>dl_amount := n\<rparr>]))
      else delegate_loop delegatee amount ds found (acc @ [d]))"

fun undelegate_loop ::
  "address \<Rightarrow> int \<Rightarrow> delegation list \<Rightarrow> int \<Rightarrow> bool \<Rightarrow> delegation list \<Rightarrow>
   sd_error fault + int \<times> bool \<times> delegation list" where
  "undelegate_loop delegatee amount [] removed fully acc = Inr (removed, fully, acc)"
| "undelegate_loop delegatee amount (d # ds) removed fully acc =
     (if dl_delegatee d = delegatee
      then bindE (ck_i128 (dl_amount d - amount)) (\<lambda>n.
           if 0 < n then undelegate_loop delegatee amount ds amount fully (acc @ [d\<lparr>dl_amount := n\<rparr>])
           else undelegate_loop delegatee amount ds amount True acc)
      else undelegate_loop delegatee amount ds removed fully (acc @ [d]))"

definition delegate :: "env \<Rightarrow> address \<Rightarrow> address \<Rightarrow> int \<Rightarrow> 'w sd_state \<Rightarrow> sd_error fault + 'w sd_state" where
  "delegate e delegator delegatee amount s =
     bindE (sd_require_not_paused s) (\<lambda>_.
     bindE (require_auth e delegator) (\<lambda>_.
     if amount \<le> 0 then Inl (Err SD_InvalidAmount)
     else
     bindE (total_delegated delegator s) (\<lambda>already_delegated.
     bindE (ck_i128 (sd_staked_balance delegator s - already_delegated)) (\<lambda>free.
     if free < amount then Inl (Err SD_InsufficientStake)
     else
     bindE (settle_pending_for delegatee (sd_get_reward_index s) s) (\<lambda>s.
     bindE (ck_i128 (get_delegatee_stake delegatee s + amount)) (\<lambda>n.
     let s = put_delegatee_stake delegatee n s in
     bindE (delegate_loop delegatee amount (get_delegations delegator s) False []) (\<lambda>(found, new_delegations).
     let new_delegations =
           (if found then new_delegations
            else new_delegations @ [\<lparr>dl_delegatee = delegatee, dl_amount = amount,
                                     dl_activated_epoch = current_epoch s\<rparr>]);
         s = (if found then s else add_delegator_to_delegatee delegatee delegator s);
         s = put_delegations delegator new_delegations s
     in Inr (publish [VSym ''delegation'', VSym ''reward_routing'']
               [VAddr delegator, VAddr delegatee, VInt amount]
         (publish [VSym ''delegation'', VSym ''delegated'', VAddr delegator]
               [VAddr delegatee, VInt amount, VNat (current_epoch s)] s)))))))))"

definition request_revocation ::
  "env \<Rightarrow> address \<Rightarrow> address \<Rightarrow> 'w sd_state \<Rightarrow> sd_error fault + 'w sd_state" where
  "request_revocation e delegator delegatee s =
     bindE (sd_require_not_paused s) (\<lambda>_.
     bindE (require_auth e delegator) (\<lambda>_.
     if delegation_to delegatee (get_delegations delegator s) = None
     then Inl (Err SD_DelegationNotFound)
     else Inr (publish [VSym ''delegation'', VSym ''revocation_requested'', VAddr delegator]
            [VAddr delegatee, VNat (current_epoch s)]
            (s\<lparr>sd_revocation := (sd_revocation s)((delegator, delegatee) \<mapsto> current_epoch s)\<rparr>))))"

definition finalize_revocation ::
  "env \<Rightarrow> address \<Rightarrow> address \<Rightarrow> 'w sd_state \<Rightarrow> sd_error fault + 'w sd_state" where
  "finalize_revocation e delegator delegatee s =
     bindE (sd_require_not_paused s) (\<lambda>_.
     bindE (require_auth e delegator) (\<lambda>_.
     bindE (ok_or (sd_revocation s (delegator, delegatee)) SD_DelegationNotFound) (\<lambda>requested_epoch.
     if current_epoch s \<le> requested_epoch then Inl (Err SD_RevocationTooEarly)
     else
     bindE (settle_pending_for delegatee (sd_get_reward_index s) s) (\<lambda>s.
     let amount_to_remove = (case delegation_to delegatee (get_delegations delegator s) of
                               None \<Rightarrow> 0 | Some d \<Rightarrow> dl_amount d) in
     bindE (ck_i128 (get_delegatee_stake delegatee s - amount_to_remove)) (\<lambda>n.
     let s = put_delegatee_stake delegatee n s;
         s = put_delegations delegator
               (filter (\<lambda>d. dl_delegatee d \<noteq> delegatee) (get_delegations delegator s)) s;
         s = remove_delegator_from_delegatee delegatee delegator s;
         s = s\<lparr>sd_revocation := (sd_revocation s)((delegator, delegatee) := None)\<rparr>
     in Inr (publish [VSym ''delegation'', VSym ''revoked'', VAddr delegator]
               [VAddr delegatee, VNat (current_epoch s)] s))))))"

definition request_undelegate ::
  "env \<Rightarrow> address \<Rightarrow> address \<Rightarrow> int \<Rightarrow> 'w sd_state \<Rightarrow> sd_error fault + 'w sd_state" where
  "request_undelegate e delegator delegatee amount s =
     bindE (sd_require_not_paused s) (\<lambda>_.
     bindE (require_auth e delegator) (\<lambda>_.
     if amount \<le> 0 then Inl (Err SD_InvalidAmount)
     else
     bindE (ok_or (delegation_to delegatee (get_delegations delegator s)) SD_DelegationNotFound) (\<lambda>d.
     if dl_amount d < amount then Inl (Err SD_InsufficientStake)
     else Inr (publish [VSym ''delegation'', VSym ''undelegate_requested'', VAddr delegator]
            [VAddr delegatee, VInt amount, VNat (timestamp e)]
            (s\<lparr>sd_pending_undelegation := (sd_pending_undelegation s)
                 ((delegator, delegatee) \<mapsto> \<lparr>pu_amount = amount, pu_request_time = timestamp e\<rparr>)\<rparr>)))))"

definition complete_undelegate ::
  "env \<Rightarrow> address \<Rightarrow> address \<Rightarrow> 'w sd_state \<Rightarrow> sd_error fault + 'w sd_state" where
  "complete_undelegate e delegator delegatee s =
     bindE (sd_require_not_paused s) (\<lambda>_.
     bindE (require_auth e delegator) (\<lambda>_.
     bindE (ok_or (sd_pending_undelegation s (delegator, delegatee)) SD_NoPendingUndelegation) (\<lambda>pending.
     let elapsed = timestamp e - pu_request_time pending in
     if elapsed < get_undelegation_cooldown s then Inl (Err SD_CooldownNotElapsed)
     else
     bindE (settle_pending_for delegatee (sd_get_reward_index s) s) (\<lambda>s.
     bindE (undelegate_loop delegatee (pu_amount pending) (get_delegations delegator s) 0 False [])
       (\<lambda>(amount_removed, delegation_fully_removed, new_delegations).
     let s = put_delegations delegator new_delegations s in
     bindE (ck_i128 (get_delegatee_stake delegatee s - amount_removed)) (\<lambda>n.
     let s = put_delegatee_stake delegatee n s;
         s = (if delegation_fully_removed
              then remove_delegator_from_delegatee delegatee delegator s else s);
         s = s\<lparr>sd_pending_undelegation :=
                 (sd_pending_undelegation s)((delegator, delegatee) := None)\<rparr>
     in Inr (publish [VSym ''delegation'', VSym ''undelegate_completed'', VAddr delegator]
               [VAddr delegatee, VInt amount_removed, VNat (timestamp e)] s)))))))"

section \<open>Rewards\<close>

definition sd_fund_rewards :: "env \<Rightarrow> address \<Rightarrow> int \<Rightarrow> 'w sd_state \<Rightarrow> sd_error fault + 'w sd_state" where
  "sd_fund_rewards e admin amount s =
     bindE (sd_require_not_paused s) (\<lambda>_.
     bindE (sd_require_admin e admin s) (\<lambda>_.
     if amount \<le> 0 then Inl (Err SD_InvalidAmount)
     else
     bindE (if 0 < sd_get_total_staked s
            then bindE (ck_i128 (amount * SD_SCALE)) (\<lambda>scaled.
                 bindE (div_i128 scaled (sd_get_total_staked s)) (\<lambda>step.
                 bindE (ck_i128 (sd_get_reward_index s + step)) (\<lambda>idx.
                 Inr (s\<lparr>sd_reward_index := Some idx\<rparr>))))
            else Inr s) (\<lambda>s.
     Inr (publish [VSym ''delegation'', VSym ''rewards_funded''] [VInt amount] s))))"

definition claim_delegatee_rewards :: "env \<Rightarrow> address \<Rightarrow> 'w sd_state \<Rightarrow> sd_error fault + int \<times> 'w sd_state" where
  "claim_delegatee_rewards e delegatee s =
     bindE (sd_require_not_paused s) (\<lambda>_.
     bindE (require_auth e delegatee) (\<lambda>_.
     bindE (settle_pending_for delegatee (sd_get_reward_index s) s) (\<lambda>s.
     let banked = unwrap_or (sd_pending_rewards s delegatee) 0 in
     Inr (banked, publish [VSym ''delegation'', VSym ''delegatee_claimed'', VAddr delegatee]
            [VInt banked]
            (s\<lparr>sd_pending_rewards := (sd_pending_rewards s)(delegatee \<mapsto> 0)\<rparr>)))))"

definition get_delegatee_claimable :: "address \<Rightarrow> 'w sd_state \<Rightarrow> sd_error fault + int" where
  "get_delegatee_claimable delegatee s =
     bindE (if 0 < get_delegatee_stake delegatee s \<and>
               get_delegatee_index delegatee s < sd_get_reward_index s
            then bindE (ck_i128 (sd_get_reward_index s - get_delegatee_index delegatee s)) (\<lambda>delta.
                 bindE (ck_i128 (get_delegatee_stake delegatee s * delta)) (\<lambda>product.
                 bindE (div_i128 product SD_SCALE) (\<lambda>gross.
                 bindE (ck_i128 (gross * int (unwrap_or (sd_commission_rate s delegatee) 0))) (\<lambda>weighted.
                 bindE (div_i128 weighted 10000) (\<lambda>commission.
                 ck_i128 (gross - commission))))))
            else Inr 0) (\<lambda>live.
     ck_i128 (live + unwrap_or (sd_pending_rewards s delegatee) 0))"

definition get_commission_claimable :: "address \<Rightarrow> 'w sd_state \<Rightarrow> sd_error fault + int" where
  "get_commission_claimable delegatee s =
     bindE (if 0 < get_delegatee_stake delegatee s \<and>
               get_delegatee_index delegatee s < sd_get_reward_index s
            then bindE (ck_i128 (sd_get_reward_index s - get_delegatee_index delegatee s)) (\<lambda>delta.
                 bindE (ck_i128 (get_delegatee_stake delegatee s * delta)) (\<lambda>product.
                 bindE (div_i128 product SD_SCALE) (\<lambda>gross.
                 bindE (ck_i128 (gross * int (unwrap_or (sd_commission_rate s delegatee) 0))) (\<lambda>weighted.
                 div_i128 weighted 10000))))
            else Inr 0) (\<lambda>live_commission.
     ck_i128 (live_commission + unwrap_or (sd_commission_balance s delegatee) 0))"

section \<open>Slashing\<close>

text \<open>
  The slash of a delegatee walks over its delegators and over the delegations of each
  (\<open>slash_positions\<close>, with the list rebuilt so far), and adds up what it takes.
\<close>

fun slash_positions ::
  "address \<Rightarrow> int \<Rightarrow> int \<Rightarrow> address \<Rightarrow> delegation list \<Rightarrow> int \<Rightarrow> delegation list \<Rightarrow> 'w sd_state \<Rightarrow>
   sd_error fault + int \<times> 'w sd_state" where
  "slash_positions delegatee old new delegator [] slashed acc s =
     Inr (slashed, put_delegations delegator acc s)"
| "slash_positions delegatee old new delegator (d # ds) slashed acc s =
     (if dl_delegatee d = delegatee
      then
        bindE (if 0 < old
               then bindE (ck_i128 (dl_amount d * new)) (\<lambda>product. div_i128 product old)
               else Inr 0) (\<lambda>new_amount.
        bindE (ck_i128 (dl_amount d - new_amount)) (\<lambda>delta.
        bindE (ck_i128 (slashed + delta)) (\<lambda>slashed.
        bindE (ck_i128 (sd_staked_balance delegator s - delta)) (\<lambda>bal.
        let s = sd_put_staked delegator (max bal 0) s in
        slash_positions delegatee old new delegator ds slashed
          (if 0 < new_amount then acc @ [d\<lparr>dl_amount := new_amount\<rparr>] else acc) s))))
      else slash_positions delegatee old new delegator ds slashed (acc @ [d]) s)"

fun slash_delegators ::
  "address \<Rightarrow> int \<Rightarrow> int \<Rightarrow> address list \<Rightarrow> int \<Rightarrow> 'w sd_state \<Rightarrow> sd_error fault + int \<times> 'w sd_state" where
  "slash_delegators delegatee old new [] slashed s = Inr (slashed, s)"
| "slash_delegators delegatee old new (u # us) slashed s =
     bindE (slash_positions delegatee old new u (get_delegations u s) slashed [] s) (\<lambda>(slashed, s).
     slash_delegators delegatee old new us slashed s)"

definition apply_delegatee_slash ::
  "env \<Rightarrow> address \<Rightarrow> address \<Rightarrow> int \<Rightarrow> 'w sd_state \<Rightarrow> sd_error fault + 'w sd_state" where
  "apply_delegatee_slash e slash_authority delegatee slash_amount s =
     bindE (ok_or (sd_slashing_authority s) SD_NotAuthorized) (\<lambda>authority.
     bindE (require_auth e slash_authority) (\<lambda>_.
     if slash_authority \<noteq> authority then Inl (Err SD_NotAuthorized)
     else if slash_amount \<le> 0 then Inl (Err SD_InvalidAmount)
     else
     let delegatee_stake = get_delegatee_stake delegatee s in
     if delegatee_stake < slash_amount then Inl (Err SD_SlashExceedsBalance)
     else
     bindE (settle_pending_for delegatee (sd_get_reward_index s) s) (\<lambda>s.
     bindE (ck_i128 (delegatee_stake - slash_amount)) (\<lambda>new_delegatee_stake.
     let s = put_delegatee_stake delegatee new_delegatee_stake s in
     bindE (slash_delegators delegatee delegatee_stake new_delegatee_stake
              (get_delegators delegatee s) 0 s) (\<lambda>(total_balance_slashed, s).
     let s = s\<lparr>sd_delegators_of := (sd_delegators_of s)(delegatee \<mapsto>
               filter (\<lambda>u. delegation_to delegatee (get_delegations u s) \<noteq> None)
                 (get_delegators delegatee s))\<rparr> in
     bindE (ck_i128 (sd_get_total_staked s - total_balance_slashed)) (\<lambda>total_left.
     Inr (publish [VSym ''delegation'', VSym ''delegatee_slashed'', VAddr delegatee]
            [VInt slash_amount, VInt delegatee_stake, VInt new_delegatee_stake]
            (s\<lparr>sd_total_staked := Some (max total_left 0)\<rparr>))))))))"

text \<open>The loop of \<open>slash_stake\<close> that trims the delegations of a slashed staker.\<close>

fun trim_loop ::
  "address \<Rightarrow> int \<Rightarrow> int \<Rightarrow> delegation list \<Rightarrow> delegation list \<Rightarrow> 'w sd_state \<Rightarrow>
   sd_error fault + delegation list \<times> 'w sd_state" where
  "trim_loop delegator new_balance delegated [] acc s = Inr (acc, s)"
| "trim_loop delegator new_balance delegated (d # ds) acc s =
     bindE (ck_i128 (dl_amount d * new_balance)) (\<lambda>product.
     bindE (div_i128 product delegated) (\<lambda>trimmed.
     bindE (ck_i128 (dl_amount d - trimmed)) (\<lambda>delta.
     bindE (if 0 < delta
            then bindE (ck_i128 (get_delegatee_stake (dl_delegatee d) s - delta)) (\<lambda>n.
                 Inr (put_delegatee_stake (dl_delegatee d) (max n 0) s))
            else Inr s) (\<lambda>s.
     if 0 < trimmed
     then trim_loop delegator new_balance delegated ds (acc @ [d\<lparr>dl_amount := trimmed\<rparr>]) s
     else trim_loop delegator new_balance delegated ds acc
            (remove_delegator_from_delegatee (dl_delegatee d) delegator s)))))"

definition slash_stake :: "env \<Rightarrow> address \<Rightarrow> address \<Rightarrow> int \<Rightarrow> 'w sd_state \<Rightarrow> sd_error fault + int \<times> 'w sd_state" where
  "slash_stake e admin delegator amount s =
     bindE (sd_require_admin e admin s) (\<lambda>_.
     if amount \<le> 0 then Inl (Err SD_InvalidAmount)
     else
     let balance = sd_staked_balance delegator s in
     if balance < amount then Inl (Err SD_SlashExceedsBalance)
     else
     bindE (settle_all_delegates delegator s) (\<lambda>s.
     bindE (ck_i128 (balance - amount)) (\<lambda>new_balance.
     let s = sd_put_staked delegator new_balance s in
     bindE (ck_i128 (sd_get_total_staked s - amount)) (\<lambda>new_total.
     let s = s\<lparr>sd_total_staked := Some new_total\<rparr>; delegations = get_delegations delegator s in
     bindE (total_delegated delegator s) (\<lambda>delegated.
     bindE (if 0 < delegated \<and> new_balance < delegated
            then bindE (trim_loop delegator new_balance delegated delegations [] s)
                   (\<lambda>(new_delegations, s). Inr (put_delegations delegator new_delegations s))
            else Inr s) (\<lambda>s.
     Inr (amount, publish [VSym ''delegation'', VSym ''stake_slashed'', VAddr delegator]
            [VInt amount] s)))))))"

section \<open>The contract as a machine\<close>

datatype sd_call =
    SD_Init address nat
  | SD_AdvanceEpoch address
  | SD_SetCooldown address nat
  | SD_SetCommission address nat
  | SD_ClaimCommission address
  | SD_SetSlashingAuthority address address
  | SD_Pause address
  | SD_Unpause address
  | SD_Stake address int
  | SD_Unstake address int
  | SD_Delegate address address int
  | SD_RequestRevocation address address
  | SD_FinalizeRevocation address address
  | SD_RequestUndelegate address address int
  | SD_CompleteUndelegate address address
  | SD_FundRewards address int
  | SD_ClaimRewards address
  | SD_SlashDelegatee address address int
  | SD_SlashStake address address int

fun sd_exec :: "env \<Rightarrow> sd_call \<Rightarrow> 'w sd_state \<Rightarrow> sd_error fault + 'w sd_state" where
  "sd_exec e (SD_Init a d) s = sd_init a d s"
| "sd_exec e (SD_AdvanceEpoch a) s = drop_result (advance_epoch e a s)"
| "sd_exec e (SD_SetCooldown a n) s = set_undelegation_cooldown e a n s"
| "sd_exec e (SD_SetCommission a n) s = set_commission e a n s"
| "sd_exec e (SD_ClaimCommission a) s = drop_result (claim_commission e a s)"
| "sd_exec e (SD_SetSlashingAuthority a b) s = set_slashing_authority e a b s"
| "sd_exec e (SD_Pause a) s = sd_pause e a s"
| "sd_exec e (SD_Unpause a) s = sd_unpause e a s"
| "sd_exec e (SD_Stake a n) s = sd_stake e a n s"
| "sd_exec e (SD_Unstake a n) s = sd_unstake e a n s"
| "sd_exec e (SD_Delegate a b n) s = delegate e a b n s"
| "sd_exec e (SD_RequestRevocation a b) s = request_revocation e a b s"
| "sd_exec e (SD_FinalizeRevocation a b) s = finalize_revocation e a b s"
| "sd_exec e (SD_RequestUndelegate a b n) s = request_undelegate e a b n s"
| "sd_exec e (SD_CompleteUndelegate a b) s = complete_undelegate e a b s"
| "sd_exec e (SD_FundRewards a n) s = sd_fund_rewards e a n s"
| "sd_exec e (SD_ClaimRewards a) s = drop_result (claim_delegatee_rewards e a s)"
| "sd_exec e (SD_SlashDelegatee a b n) s = apply_delegatee_slash e a b n s"
| "sd_exec e (SD_SlashStake a b n) s = drop_result (slash_stake e a b n s)"

definition sd_fresh :: "'w \<Rightarrow> 'w sd_state" where
  "sd_fresh w = \<lparr>events = [], world = w, sd_admin = None, sd_paused = None, sd_epoch_duration = None,
     sd_epoch = None, sd_delegations = Map.empty, sd_staked = Map.empty, sd_reward_index = None,
     sd_total_staked = None, sd_pending_rewards = Map.empty, sd_revocation = Map.empty,
     sd_delegatee_stake = Map.empty, sd_delegatee_index = Map.empty, sd_cooldown = None,
     sd_pending_undelegation = Map.empty, sd_commission_rate = Map.empty,
     sd_commission_balance = Map.empty, sd_slashing_authority = None, sd_delegators_of = Map.empty\<rparr>"

section \<open>Lists of delegations\<close>

definition dl_ok :: "delegation list \<Rightarrow> bool" where
  "dl_ok ds \<longleftrightarrow> (\<forall>d \<in> set ds. 0 < dl_amount d) \<and> distinct (map dl_delegatee ds)"

definition dl_sum :: "delegation list \<Rightarrow> int" where
  "dl_sum ds = sum_list (map dl_amount ds)"

text \<open>Every loop that takes from delegations lowers their amounts and drops those that reach zero.\<close>

definition shrink :: "(delegation \<Rightarrow> int) \<Rightarrow> delegation list \<Rightarrow> delegation list" where
  "shrink g ds = filter (\<lambda>d. 0 < dl_amount d) (map (\<lambda>d. d\<lparr>dl_amount := g d\<rparr>) ds)"

lemma dl_simps [simp]:
  "dl_ok []" "dl_sum [] = 0" "shrink g [] = []"
  "dl_sum (d # ds) = dl_amount d + dl_sum ds"
  "dl_sum (ds @ es) = dl_sum ds + dl_sum es"
  "shrink g (d # ds) = (if 0 < g d then d\<lparr>dl_amount := g d\<rparr> # shrink g ds else shrink g ds)"
  by (simp_all add: dl_ok_def dl_sum_def shrink_def)

lemma shrink_ok: "dl_ok ds \<Longrightarrow> dl_ok (shrink g ds)"
  by (induction ds) (auto simp: dl_ok_def shrink_def)

lemma dl_sum_shrink: "dl_sum (shrink g ds) = (\<Sum>d\<leftarrow>ds. max 0 (g d))"
  by (induction ds) auto

lemma dl_sum_nonneg: "dl_ok ds \<Longrightarrow> 0 \<le> dl_sum ds"
  by (induction ds) (auto simp: dl_ok_def)

lemma dl_sum_shrink_le: "\<forall>d \<in> set ds. 0 < dl_amount d \<and> g d \<le> dl_amount d \<Longrightarrow> dl_sum (shrink g ds) \<le> dl_sum ds"
  by (induction ds) auto

lemma delegated_loop_Inr: "delegated_loop ds acc = Inr n \<Longrightarrow> n = acc + dl_sum ds"
  by (induction ds arbitrary: acc) (fastforce simp: outcome_simps)+

lemma delegate_loop_Inr:
  "delegate_loop u n ds found acc = Inr (f, out) \<Longrightarrow>
     out = acc @ map (\<lambda>d. if dl_delegatee d = u then d\<lparr>dl_amount := dl_amount d + n\<rparr> else d) ds \<and>
     (f \<longleftrightarrow> found \<or> u \<in> dl_delegatee ` set ds)"
  by (induction ds arbitrary: found acc) (fastforce simp: outcome_simps split: if_splits)+

lemma undelegate_loop_Inr:
  assumes "undelegate_loop u n ds removed fully acc = Inr (r, f, out)" and "\<forall>d \<in> set ds. 0 < dl_amount d"
  shows "out = acc @ shrink (\<lambda>d. if dl_delegatee d = u then dl_amount d - n else dl_amount d) ds"
  using assms
  by (induction ds arbitrary: removed fully acc) (fastforce simp: outcome_simps split: if_splits)+

lemma delegate_list_ok:
  assumes "dl_ok ds" and "0 < n"
    and "out = map (\<lambda>d. if dl_delegatee d = u then d\<lparr>dl_amount := dl_amount d + n\<rparr> else d) ds"
  shows "dl_ok out \<and> dl_sum out = dl_sum ds + (if u \<in> dl_delegatee ` set ds then n else 0)"
  using assms
proof (induction ds arbitrary: out)
  case (Cons d ds)
  let ?g = "\<lambda>d. if dl_delegatee d = u then d\<lparr>dl_amount := dl_amount d + n\<rparr> else d"
  have same: "dl_delegatee \<circ> ?g = dl_delegatee" by auto
  have "dl_ok (map ?g ds) \<and> dl_sum (map ?g ds) = dl_sum ds + (if u \<in> dl_delegatee ` set ds then n else 0)"
    using Cons by (auto simp: dl_ok_def)
  then show ?case using Cons.prems by (auto simp: dl_ok_def same)
qed simp

lemma filter_as_shrink:
  "\<forall>d \<in> set ds. 0 < dl_amount d \<Longrightarrow>
   filter (\<lambda>d. dl_delegatee d \<noteq> u) ds = shrink (\<lambda>d. if dl_delegatee d = u then 0 else dl_amount d) ds"
  by (induction ds) auto

lemma quotient_bounds:
  "0 \<le> a \<Longrightarrow> 0 \<le> n \<Longrightarrow> n \<le> t \<Longrightarrow> 0 < t \<Longrightarrow> 0 \<le> a * n sdiv t \<and> a * n sdiv t \<le> (a :: int)"
  by (auto simp: sdiv_nonneg pos_imp_zdiv_nonneg_iff intro: order_trans [OF zdiv_mono1 [where a' = "a * t"]]
      mult_left_mono)

lemma trimmed_sum_le:
  assumes "dl_ok ds" and "0 \<le> n" and "0 < t"
  shows "t * dl_sum (shrink (\<lambda>d. dl_amount d * n sdiv t) ds) \<le> n * dl_sum ds"
  using assms
proof (induction ds)
  case (Cons d ds)
  then have pos: "0 < dl_amount d" and IH: "t * dl_sum (shrink (\<lambda>d. dl_amount d * n sdiv t) ds) \<le> n * dl_sum ds"
    by (auto simp: dl_ok_def)
  have "t * (dl_amount d * n sdiv t) \<le> dl_amount d * n"
    using pos assms(2,3) by (simp add: sdiv_nonneg mult_div_le_int)
  moreover have "0 \<le> n * dl_amount d" using pos assms(2) by simp
  ultimately show ?case using IH by (auto simp: algebra_simps)
qed simp

section \<open>The books\<close>

definition sd_accounts :: "'w sd_state \<Rightarrow> bool" where
  "sd_accounts s \<longleftrightarrow> sd_admin s \<noteq> None \<and> finite (dom (sd_staked s)) \<and>
     (\<forall>a. dl_ok (get_delegations a s)) \<and>
     (\<forall>a. dl_sum (get_delegations a s) \<le> sd_staked_balance a s) \<and>
     (\<forall>p r. sd_pending_undelegation s p = Some r \<longrightarrow> 0 < pu_amount r)"

definition sd_staked_sum :: "'w sd_state \<Rightarrow> int" where
  "sd_staked_sum s = msum (\<lambda>_ n. n) (sd_staked s)"

definition sd_books :: "'w sd_state \<Rightarrow> bool" where
  "sd_books s \<longleftrightarrow> sd_accounts s \<and> sd_get_total_staked s = sd_staked_sum s"

lemma sd_accountsD:
  assumes "sd_accounts s"
  shows "dl_ok (get_delegations a s)" "dl_sum (get_delegations a s) \<le> sd_staked_balance a s"
    "\<forall>d \<in> set (get_delegations a s). 0 < dl_amount d" "0 \<le> sd_staked_balance a s"
    "finite (dom (sd_staked s))" "sd_pending_undelegation s p = Some r \<Longrightarrow> 0 < pu_amount r"
proof -
  show 1: "dl_ok (get_delegations a s)" and 2: "dl_sum (get_delegations a s) \<le> sd_staked_balance a s"
    and "finite (dom (sd_staked s))" and "sd_pending_undelegation s p = Some r \<Longrightarrow> 0 < pu_amount r"
    using assms by (simp_all only: sd_accounts_def)
  from 1 show "\<forall>d \<in> set (get_delegations a s). 0 < dl_amount d" by (simp add: dl_ok_def)
  from dl_sum_nonneg [OF 1] 2 show "0 \<le> sd_staked_balance a s" by simp
qed

lemma sd_accountsI:
  assumes "sd_admin s \<noteq> None" and "finite (dom (sd_staked s))"
    and "\<And>a. dl_ok (get_delegations a s)"
    and "\<And>a. dl_sum (get_delegations a s) \<le> sd_staked_balance a s"
    and "\<And>p r. sd_pending_undelegation s p = Some r \<Longrightarrow> 0 < pu_amount r"
  shows "sd_accounts s"
  using assms by (simp add: sd_accounts_def)

text \<open>Storage entries read after a write.\<close>

lemma sd_reads [simp]:
  "get_delegations a (put_delegations b ds s) = (if a = b then ds else get_delegations a s)"
  "get_delegations a (sd_put_staked b n s) = get_delegations a s"
  "get_delegations a (put_delegatee_stake b n s) = get_delegations a s"
  "get_delegations a (s\<lparr>sd_total_staked := t\<rparr>) = get_delegations a s"
  "sd_get_total_staked (sd_put_staked b n s) = sd_get_total_staked s"
  "sd_staked_balance a (put_delegations b ds s) = sd_staked_balance a s"
  "sd_staked_balance a (sd_put_staked b n s) = (if a = b then n else sd_staked_balance a s)"
  "sd_staked_balance a (put_delegatee_stake b n s) = sd_staked_balance a s"
  by (simp_all add: get_delegations_def put_delegations_def sd_staked_balance_def sd_put_staked_def
      put_delegatee_stake_def sd_get_total_staked_def)

lemma sd_more_reads [simp]:
  "get_delegations a (publish t d s) = get_delegations a s"
  "get_delegations a (remove_delegator_from_delegatee b c s) = get_delegations a s"
  "get_delegations a (s\<lparr>sd_pending_undelegation := m\<rparr>) = get_delegations a s"
  "get_delegatee_stake a (publish t d s) = get_delegatee_stake a s"
  "get_delegatee_stake a (remove_delegator_from_delegatee b c s) = get_delegatee_stake a s"
  "get_delegatee_stake a (s\<lparr>sd_pending_undelegation := m\<rparr>) = get_delegatee_stake a s"
  "get_delegatee_stake a (put_delegations b ds s) = get_delegatee_stake a s"
  "get_delegatee_stake a (put_delegatee_stake b n s) = (if a = b then n else get_delegatee_stake a s)"
  by (simp_all add: get_delegations_def get_delegatee_stake_def put_delegations_def put_delegatee_stake_def
      remove_delegator_from_delegatee_def host_simps)

lemma sd_pending_writes [simp]:
  "sd_pending_undelegation (put_delegations b ds s) = sd_pending_undelegation s"
  "sd_pending_undelegation (put_delegatee_stake b n s) = sd_pending_undelegation s"
  "sd_pending_undelegation (remove_delegator_from_delegatee a b s) = sd_pending_undelegation s"
  by (simp_all add: put_delegations_def put_delegatee_stake_def remove_delegator_from_delegatee_def)

lemma sd_epoch_writes [simp]:
  "current_epoch (put_delegations b ds s) = current_epoch s"
  "current_epoch (put_delegatee_stake b n s) = current_epoch s"
  "current_epoch (add_delegator_to_delegatee a b s) = current_epoch s"
  by (simp_all add: current_epoch_def put_delegations_def put_delegatee_stake_def
      add_delegator_to_delegatee_def Let_def)

text \<open>The part of the state the books speak of.\<close>

definition sd_core where
  "sd_core s = (sd_admin s, sd_staked s, sd_delegations s, sd_total_staked s, sd_pending_undelegation s)"

lemma sd_core_reads:
  assumes "sd_core s' = sd_core s"
  shows "get_delegations a s' = get_delegations a s" "sd_staked_balance a s' = sd_staked_balance a s"
    "sd_get_total_staked s' = sd_get_total_staked s" "sd_staked_sum s' = sd_staked_sum s"
    "sd_accounts s' = sd_accounts s" "sd_books s' = sd_books s" "sd_admin s' = sd_admin s"
    "sd_staked s' = sd_staked s"
    "sd_pending_undelegation s' = sd_pending_undelegation s"
  using assms by (simp_all add: sd_core_def get_delegations_def sd_staked_balance_def
      sd_get_total_staked_def sd_staked_sum_def sd_accounts_def sd_books_def)

lemma sd_core_writes [simp]:
  "sd_core (publish t d s) = sd_core s"
  "sd_core (put_delegatee_stake a n s) = sd_core s"
  "sd_core (add_delegator_to_delegatee a b s) = sd_core s"
  "sd_core (remove_delegator_from_delegatee a b s) = sd_core s"
  "sd_core (s\<lparr>sd_delegators_of := m\<rparr>) = sd_core s"
  "sd_core (s\<lparr>sd_revocation := rv\<rparr>) = sd_core s"
  "sd_core (s\<lparr>sd_paused := p\<rparr>) = sd_core s"
  "sd_core (s\<lparr>sd_epoch := ep\<rparr>) = sd_core s"
  "sd_core (s\<lparr>sd_cooldown := ep\<rparr>) = sd_core s"
  "sd_core (s\<lparr>sd_commission_rate := rate\<rparr>) = sd_core s"
  "sd_core (s\<lparr>sd_commission_balance := am\<rparr>) = sd_core s"
  "sd_core (s\<lparr>sd_pending_rewards := am\<rparr>) = sd_core s"
  "sd_core (s\<lparr>sd_slashing_authority := au\<rparr>) = sd_core s"
  "sd_core (s\<lparr>sd_reward_index := idx\<rparr>) = sd_core s"
  by (simp_all add: sd_core_def host_simps put_delegatee_stake_def add_delegator_to_delegatee_def
      remove_delegator_from_delegatee_def Let_def)

lemmas sd_core_defs = sd_core_def put_delegations_def sd_put_staked_def

lemma settle_pending_for_core: "settle_pending_for a i s = Inr s' \<Longrightarrow> sd_core s' = sd_core s"
  by (auto simp: settle_pending_for_def sd_core_def outcome_simps Let_def split: if_splits)

lemma settle_loop_core: "settle_loop i ds s = Inr s' \<Longrightarrow> sd_core s' = sd_core s"
  by (induction ds arbitrary: s) (fastforce simp: outcome_simps dest: settle_pending_for_core)+

lemma settle_all_core: "settle_all_delegates a s = Inr s' \<Longrightarrow> sd_core s' = sd_core s"
  by (auto simp: settle_all_delegates_def dest: settle_loop_core)

lemma total_delegated_Inr: "total_delegated a s = Inr n \<Longrightarrow> n = dl_sum (get_delegations a s)"
  by (auto simp: total_delegated_def dest: delegated_loop_Inr)

lemma sd_staked_sum_put:
  "finite (dom (sd_staked s)) \<Longrightarrow>
   msum (\<lambda>_ n. n) ((sd_staked s)(a \<mapsto> n)) = sd_staked_sum s - sd_staked_balance a s + n"
  using msum_upd_default [of "sd_staked s" "\<lambda>_ n. n" a 0] by (simp add: sd_staked_sum_def sd_staked_balance_def)

lemma sd_staked_sum_nonneg: "sd_accounts s \<Longrightarrow> 0 \<le> sd_staked_sum s"
proof -
  assume ok: "sd_accounts s"
  have "0 \<le> n" if "sd_staked s a = Some n" for a n
    using sd_accountsD(4) [OF ok, of a] that by (simp add: sd_staked_balance_def)
  then show ?thesis unfolding sd_staked_sum_def by (rule msum_nonneg)
qed

text \<open>An operation that rewrites one account: its balance and its delegations.\<close>

lemma sd_account_write:
  assumes "sd_accounts s" and "dl_ok ds" and "dl_sum ds \<le> n"
    and "sd_core s' = sd_core (put_delegations u ds (sd_put_staked u n s))"
  shows "sd_accounts s' \<and> sd_staked_sum s' = sd_staked_sum s - sd_staked_balance u s + n \<and>
    sd_get_total_staked s' = sd_get_total_staked s"
proof -
  let ?s = "put_delegations u ds (sd_put_staked u n s)"
  have "sd_accounts ?s"
    by (rule sd_accountsI) (use assms(1-3) in \<open>auto simp: sd_accounts_def put_delegations_def sd_put_staked_def
        get_delegations_def sd_staked_balance_def\<close>)
  moreover have "sd_staked_sum ?s = sd_staked_sum s - sd_staked_balance u s + n"
    using sd_staked_sum_put [OF sd_accountsD(5) [OF assms(1)], of u n]
    unfolding sd_staked_sum_def [of ?s] by (simp add: put_delegations_def sd_put_staked_def)
  moreover have "sd_get_total_staked ?s = sd_get_total_staked s"
    by (simp add: sd_get_total_staked_def put_delegations_def sd_put_staked_def)
  ultimately show ?thesis using sd_core_reads [OF assms(4)] by simp
qed

text \<open>An operation that rewrites the delegations of one account only.\<close>

lemma sd_delegations_write:
  assumes "sd_books s" and "dl_ok ds" and "dl_sum ds \<le> sd_staked_balance u s"
    and "sd_core s' = sd_core (put_delegations u ds s)"
  shows "sd_books s'"
proof -
  have ok: "sd_accounts s" using assms(1) by (simp add: sd_books_def)
  let ?s = "put_delegations u ds s"
  have "sd_accounts ?s"
    by (rule sd_accountsI) (use ok assms(2,3) in \<open>auto simp: sd_accounts_def put_delegations_def
        get_delegations_def sd_staked_balance_def\<close>)
  then have "sd_books ?s" using assms(1)
    by (simp add: sd_books_def sd_get_total_staked_def sd_staked_sum_def put_delegations_def)
  with sd_core_reads(6) [OF assms(4)] show ?thesis by simp
qed

lemma sd_core_maps:
  "sd_core (put_delegations a ds s) =
     (case sd_core s of (ad, st, de, tot, pe) \<Rightarrow> (ad, st, de(a \<mapsto> ds), tot, pe))"
  "sd_core (sd_put_staked a n s) =
     (case sd_core s of (ad, st, de, tot, pe) \<Rightarrow> (ad, st(a \<mapsto> n), de, tot, pe))"
  "sd_core (s\<lparr>sd_total_staked := t\<rparr>) =
     (case sd_core s of (ad, st, de, tot, pe) \<Rightarrow> (ad, st, de, t, pe))"
  "sd_core (s\<lparr>sd_pending_undelegation := m\<rparr>) =
     (case sd_core s of (ad, st, de, tot, pe) \<Rightarrow> (ad, st, de, tot, m))"
  by (simp_all add: sd_core_defs)

lemma sd_books_total:
  assumes "sd_accounts s" and "sd_core s' = sd_core (s\<lparr>sd_total_staked := Some (sd_staked_sum s)\<rparr>)"
  shows "sd_books s'"
proof -
  have "sd_books (s\<lparr>sd_total_staked := Some (sd_staked_sum s)\<rparr>)"
    using assms(1) by (simp add: sd_books_def sd_accounts_def sd_get_total_staked_def sd_staked_sum_def
        get_delegations_def sd_staked_balance_def)
  with sd_core_reads(6) [OF assms(2)] show ?thesis by simp
qed

lemma sd_books_balance:
  assumes "sd_books s" and "dl_sum (get_delegations u s) \<le> n"
    and "t = sd_get_total_staked s - sd_staked_balance u s + n"
    and "sd_core s' = sd_core ((sd_put_staked u n s)\<lparr>sd_total_staked := Some t\<rparr>)"
  shows "sd_books s'"
proof -
  have ok: "sd_accounts s" and tot: "sd_get_total_staked s = sd_staked_sum s"
    using assms(1) by (auto simp: sd_books_def)
  let ?s = "sd_put_staked u n s"
  have "sd_accounts ?s"
    by (rule sd_accountsI) (use ok assms(2) in \<open>auto simp: sd_accounts_def sd_put_staked_def
        get_delegations_def sd_staked_balance_def\<close>)
  moreover have "sd_staked_sum ?s = sd_staked_sum s - sd_staked_balance u s + n"
    unfolding sd_staked_sum_def [of ?s]
    by (simp add: sd_put_staked_def sd_staked_sum_put [OF sd_accountsD(5) [OF ok]])
  ultimately show ?thesis using assms(3,4) tot by (intro sd_books_total [of ?s s']) auto
qed

section \<open>Every call keeps the books\<close>

lemma sd_stake_books:
  assumes "sd_books s" and "sd_stake e u n s = Inr s'"
  shows "sd_books s'"
proof -
  from assms(2) obtain s1 where n: "0 < n" and s1: "settle_all_delegates u s = Inr s1"
    and s': "sd_core s' = sd_core ((sd_put_staked u (sd_staked_balance u s1 + n) s1)
        \<lparr>sd_total_staked := Some (sd_get_total_staked s1 + n)\<rparr>)"
    by (auto simp: sd_stake_def outcome_simps Let_def sd_get_total_staked_def sd_put_staked_def split: if_splits)
  have "sd_books s1" using assms(1) sd_core_reads(6) [OF settle_all_core [OF s1]] by simp
  moreover from this have "dl_sum (get_delegations u s1) \<le> sd_staked_balance u s1 + n"
    using sd_accountsD(2) [of s1 u] n by (simp add: sd_books_def)
  ultimately show ?thesis
    by (rule sd_books_balance [OF _ _ _ s']) simp_all
qed

lemma sd_unstake_books:
  assumes "sd_books s" and "sd_unstake e u n s = Inr s'"
  shows "sd_books s'"
proof -
  from assms(2) obtain s1 d where d: "total_delegated u s = Inr d" "n \<le> sd_staked_balance u s - d"
    and s1: "settle_all_delegates u s = Inr s1"
    and s': "sd_core s' = sd_core ((sd_put_staked u (sd_staked_balance u s - n) s1)
        \<lparr>sd_total_staked := Some (sd_get_total_staked s1 - n)\<rparr>)"
    by (auto simp: sd_unstake_def outcome_simps Let_def sd_get_total_staked_def sd_put_staked_def split: if_splits)
  note same = sd_core_reads [OF settle_all_core [OF s1]]
  have "dl_sum (get_delegations u s1) \<le> sd_staked_balance u s1 - n"
    using d total_delegated_Inr [OF d(1)] by (simp add: same)
  moreover have "sd_books s1" using assms(1) by (simp add: same)
  ultimately show ?thesis by (intro sd_books_balance [OF _ _ _ s']) (simp_all add: same)
qed

lemma delegate_books:
  assumes "sd_books s" and "delegate e u v n s = Inr s'"
  shows "sd_books s'"
proof -
  from assms(2) obtain s1 d f out where n: "0 < n"
    and d: "total_delegated u s = Inr d" "n \<le> sd_staked_balance u s - d"
    and s1: "settle_pending_for v (sd_get_reward_index s) s = Inr s1"
    and out: "delegate_loop v n (get_delegations u s1) False [] = Inr (f, out)"
    and s': "sd_core s' = sd_core (put_delegations u
        (if f then out else out @ [\<lparr>dl_delegatee = v, dl_amount = n, dl_activated_epoch = current_epoch s1\<rparr>]) s1)"
    by (auto simp: delegate_def outcome_simps fail_if_Inr_iff sd_core_maps if_distrib [of "put_delegations u"]
        if_distrib [of sd_core] if_distribR Let_def)
  note same = sd_core_reads [OF settle_pending_for_core [OF s1]]
  have ok: "dl_ok (get_delegations u s)" using assms(1) by (auto simp: sd_books_def dest: sd_accountsD)
  from delegate_loop_Inr [OF out] have o: "out = map (\<lambda>d. if dl_delegatee d = v then d\<lparr>dl_amount := dl_amount d + n\<rparr> else d)
      (get_delegations u s)" and f: "f \<longleftrightarrow> v \<in> dl_delegatee ` set (get_delegations u s)"
    by (auto simp: same)
  note out_ok = delegate_list_ok [OF ok n o]
  have "(\<lambda>d :: delegation. dl_delegatee (if dl_delegatee d = v then d\<lparr>dl_amount := dl_amount d + n\<rparr> else d)) = dl_delegatee"
    by auto
  then have "dl_delegatee ` set out = dl_delegatee ` set (get_delegations u s)"
    by (simp only: o set_map image_image)
  with out_ok f n have "dl_ok (if f then out else out @ [\<lparr>dl_delegatee = v, dl_amount = n,
      dl_activated_epoch = current_epoch s1\<rparr>])"
    by (auto simp: dl_ok_def)
  moreover have "dl_sum (if f then out else out @ [\<lparr>dl_delegatee = v, dl_amount = n,
      dl_activated_epoch = current_epoch s1\<rparr>]) \<le> sd_staked_balance u s1"
    using out_ok f d(2) total_delegated_Inr [OF d(1)] by (simp add: same)
  moreover have "sd_books s1" using assms(1) by (simp add: same)
  ultimately show ?thesis using sd_delegations_write [OF _ _ _ s'] by blast
qed

lemma finalize_revocation_books:
  assumes "sd_books s" and "finalize_revocation e u v s = Inr s'"
  shows "sd_books s'"
proof -
  let ?ds = "\<lambda>s. filter (\<lambda>d. dl_delegatee d \<noteq> v) (get_delegations u s)"
  from assms(2) obtain s1 where s1: "settle_pending_for v (sd_get_reward_index s) s = Inr s1"
    and s': "sd_core s' = sd_core (put_delegations u (?ds s1) s1)"
    by (auto simp: finalize_revocation_def outcome_simps sd_core_maps Let_def split: if_splits)
  note same = sd_core_reads [OF settle_pending_for_core [OF s1]]
  have ok: "sd_accounts s" using assms(1) by (simp add: sd_books_def)
  have eq: "?ds s1 = shrink (\<lambda>d. if dl_delegatee d = v then 0 else dl_amount d) (get_delegations u s)"
    using filter_as_shrink [OF sd_accountsD(3) [OF ok]] by (simp add: same)
  have "dl_sum (?ds s1) \<le> dl_sum (get_delegations u s)"
    unfolding eq by (rule dl_sum_shrink_le) (use sd_accountsD(3) [OF ok, of u] in auto)
  then have "dl_sum (?ds s1) \<le> sd_staked_balance u s1"
    using sd_accountsD(2) [OF ok, of u] by (simp add: same)
  moreover have "dl_ok (?ds s1)" unfolding eq by (rule shrink_ok [OF sd_accountsD(1) [OF ok]])
  moreover have "sd_books s1" using assms(1) by (simp add: same)
  ultimately show ?thesis using sd_delegations_write [OF _ _ _ s'] by blast
qed

lemma complete_undelegate_books:
  assumes "sd_books s" and "complete_undelegate e u v s = Inr s'"
  shows "sd_books s'"
proof -
  from assms(2) obtain s1 p r f out
    where p: "sd_pending_undelegation s (u, v) = Some p"
    and s1: "settle_pending_for v (sd_get_reward_index s) s = Inr s1"
    and out: "undelegate_loop v (pu_amount p) (get_delegations u s1) 0 False [] = Inr (r, f, out)"
    and s': "sd_core s' = sd_core ((put_delegations u out s1)\<lparr>sd_pending_undelegation :=
        (sd_pending_undelegation s1)((u, v) := None)\<rparr>)"
    by (auto simp: complete_undelegate_def outcome_simps fail_if_Inr_iff sd_core_maps
        if_distrib [of sd_core] if_distrib [of sd_pending_undelegation] Let_def)
  note same = sd_core_reads [OF settle_pending_for_core [OF s1]]
  let ?g = "\<lambda>d. if dl_delegatee d = v then dl_amount d - pu_amount p else dl_amount d"
  have ok: "sd_accounts s" using assms(1) by (simp add: sd_books_def)
  have o: "out = shrink ?g (get_delegations u s)"
    using undelegate_loop_Inr [OF out] sd_accountsD(3) [OF ok, of u] by (simp add: same)
  have "dl_sum out \<le> dl_sum (get_delegations u s)"
    unfolding o by (rule dl_sum_shrink_le) (use sd_accountsD(3) [OF ok, of u] sd_accountsD(6) [OF ok p] in auto)
  then have "dl_sum out \<le> sd_staked_balance u s1"
    using sd_accountsD(2) [OF ok, of u] by (simp add: same)
  moreover have "dl_ok out" unfolding o by (rule shrink_ok [OF sd_accountsD(1) [OF ok]])
  moreover have "sd_books s1" using assms(1) by (simp add: same)
  ultimately have "sd_books (put_delegations u out s1)"
    using sd_delegations_write [OF _ _ _ refl] by blast
  then have "sd_books ((put_delegations u out s1)\<lparr>sd_pending_undelegation :=
        (sd_pending_undelegation s1)((u, v) := None)\<rparr>)"
    by (simp add: sd_books_def sd_accounts_def get_delegations_def put_delegations_def
        sd_staked_balance_def sd_get_total_staked_def sd_staked_sum_def)
  with sd_core_reads(6) [OF s'] show ?thesis by simp
qed

lemma slash_positions_core:
  assumes "slash_positions v old new u ds slashed acc s = Inr (slashed', s')"
    and "dl_ok ds" and "dl_sum ds \<le> sd_staked_balance u s" and "0 \<le> new" and "new \<le> old"
  shows "\<exists>b. sd_core s' = sd_core (put_delegations u
        (acc @ shrink (\<lambda>d. if dl_delegatee d = v then dl_amount d * new sdiv old else dl_amount d) ds)
        (if b then sd_put_staked u (sd_staked_balance u s - (slashed' - slashed)) s else s)) \<and>
      (\<not> b \<longrightarrow> slashed' = slashed) \<and>
      slashed' - slashed = dl_sum ds -
        dl_sum (shrink (\<lambda>d. if dl_delegatee d = v then dl_amount d * new sdiv old else dl_amount d) ds)"
  using assms
proof (induction ds arbitrary: slashed acc s)
  case Nil
  then show ?case by (intro exI [of _ False]) simp
next
  case (Cons d ds)
  let ?g = "\<lambda>d. if dl_delegatee d = v then dl_amount d * new sdiv old else dl_amount d"
  have pos: "0 < dl_amount d" and ok: "dl_ok ds" "0 \<le> dl_sum ds"
    using Cons.prems(2) dl_sum_nonneg [of ds] by (auto simp: dl_ok_def)
  show ?case
  proof (cases "dl_delegatee d = v")
    case False
    with Cons.prems(1) have "slash_positions v old new u ds slashed (acc @ [d]) s = Inr (slashed', s')"
      by simp
    from Cons.IH [OF this ok(1)] Cons.prems(3-5) pos False show ?thesis by auto
  next
    case True
    define m where "m = (if 0 < old then dl_amount d * new sdiv old else 0)"
    have m: "m = dl_amount d * new sdiv old" "0 \<le> m" "m \<le> dl_amount d"
      using quotient_bounds [of "dl_amount d" new old] pos Cons.prems(4,5)
      by (cases "old = 0"; auto simp: m_def signed_divide_int_def)+
    let ?s = "sd_put_staked u (sd_staked_balance u s - (dl_amount d - m)) s"
    have bal: "max (sd_staked_balance u s - (dl_amount d - m)) 0 = sd_staked_balance u s - (dl_amount d - m)"
      using Cons.prems(3) m ok(2) by simp
    from Cons.prems(1) True have
      "slash_positions v old new u ds (slashed + (dl_amount d - m))
         (if 0 < m then acc @ [d\<lparr>dl_amount := m\<rparr>] else acc) ?s = Inr (slashed', s')"
      using bal by (auto simp: m_def outcome_simps Let_def split: if_splits)
    from Cons.IH [OF this ok(1)] Cons.prems(3-5) m obtain b where
      b: "sd_core s' = sd_core (put_delegations u
        ((if 0 < m then acc @ [d\<lparr>dl_amount := m\<rparr>] else acc) @ shrink ?g ds)
        (if b then sd_put_staked u (sd_staked_balance u ?s - (slashed' - (slashed + (dl_amount d - m)))) ?s else ?s))"
      "\<not> b \<longrightarrow> slashed' = slashed + (dl_amount d - m)"
      "slashed' - (slashed + (dl_amount d - m)) = dl_sum ds - dl_sum (shrink ?g ds)"
      by auto
    have list: "(if 0 < m then acc @ [d\<lparr>dl_amount := m\<rparr>] else acc) @ shrink ?g ds = acc @ shrink ?g (d # ds)"
      using True m(1) by simp
    have "sd_core (if b then sd_put_staked u (sd_staked_balance u ?s - (slashed' - (slashed + (dl_amount d - m)))) ?s else ?s)
        = sd_core (sd_put_staked u (sd_staked_balance u s - (slashed' - slashed)) s)"
      using b(2) by (auto simp: sd_core_defs sd_staked_balance_def algebra_simps)
    then have "sd_core s' = sd_core (put_delegations u (acc @ shrink ?g (d # ds))
        (sd_put_staked u (sd_staked_balance u s - (slashed' - slashed)) s))"
      using b(1) unfolding list by (simp add: sd_core_maps(1))
    then show ?thesis using b(3) True m by (intro exI [of _ True]) simp
  qed
qed

lemma slash_delegators_accounts:
  assumes "slash_delegators v old new us slashed s = Inr (slashed', s')"
    and "sd_accounts s" and "0 \<le> new" and "new \<le> old"
  shows "sd_accounts s' \<and> sd_staked_sum s' = sd_staked_sum s - (slashed' - slashed) \<and>
    sd_get_total_staked s' = sd_get_total_staked s"
  using assms
proof (induction us arbitrary: slashed s)
  case (Cons u us)
  let ?g = "\<lambda>d. if dl_delegatee d = v then dl_amount d * new sdiv old else dl_amount d"
  let ?ds = "get_delegations u s"
  from Cons.prems(1) obtain sl1 s1 where
    step: "slash_positions v old new u ?ds slashed [] s = Inr (sl1, s1)"
    and rest: "slash_delegators v old new us sl1 s1 = Inr (slashed', s')"
    by (auto simp: outcome_simps)
  note acc = sd_accountsD(1,2) [OF Cons.prems(2), of u]
  from slash_positions_core [OF step acc(1,2) Cons.prems(3,4)] obtain b where
    b: "sd_core s1 = sd_core (put_delegations u (shrink ?g ?ds)
        (if b then sd_put_staked u (sd_staked_balance u s - (sl1 - slashed)) s else s))"
      "\<not> b \<longrightarrow> sl1 = slashed" "sl1 - slashed = dl_sum ?ds - dl_sum (shrink ?g ?ds)"
    by auto
  have new_ok: "dl_ok (shrink ?g ?ds)" by (rule shrink_ok [OF acc(1)])
  have fits: "dl_sum (shrink ?g ?ds) \<le> sd_staked_balance u s - (sl1 - slashed)"
    using b(3) acc(2) by simp
  have "sd_accounts s1 \<and> sd_staked_sum s1 = sd_staked_sum s - (sl1 - slashed) \<and>
      sd_get_total_staked s1 = sd_get_total_staked s"
  proof (cases b)
    case True
    then show ?thesis using sd_account_write [OF Cons.prems(2) new_ok fits, of s1 u] b(1) by simp
  next
    case False
    let ?t = "s\<lparr>sd_total_staked := Some (sd_staked_sum s)\<rparr>"
    show ?thesis
      using False b Cons.prems(2) new_ok fits
      sd_core_reads [of s1 "put_delegations u (shrink ?g ?ds) s"]
      by (auto simp: sd_accounts_def sd_staked_sum_def sd_get_total_staked_def put_delegations_def
          get_delegations_def sd_staked_balance_def)
  qed
  with Cons.IH [OF rest] Cons.prems(3,4) show ?case by auto
qed simp

lemma apply_delegatee_slash_books:
  assumes "sd_books s" and "apply_delegatee_slash e a v n s = Inr s'"
  shows "sd_books s'"
proof -
  let ?old = "get_delegatee_stake v s"
  from assms(2) obtain s1 s2 sl m where n: "0 < n" "n \<le> ?old"
    and s1: "settle_pending_for v (sd_get_reward_index s) s = Inr s1"
    and s2: "slash_delegators v ?old (?old - n) (get_delegators v (put_delegatee_stake v (?old - n) s1)) 0
               (put_delegatee_stake v (?old - n) s1) = Inr (sl, s2)"
    and s': "sd_core s' = sd_core (s2\<lparr>sd_total_staked := Some (max (sd_get_total_staked s2 - sl) 0)\<rparr>)"
    by (auto simp: apply_delegatee_slash_def outcome_simps fail_if_Inr_iff sd_core_def host_simps
        sd_get_total_staked_def Let_def)
  note same = sd_core_reads [OF settle_pending_for_core [OF s1]]
    sd_core_reads [OF sd_core_writes(2) [of v "?old - n" s1]]
  have ok: "sd_accounts s" "sd_get_total_staked s = sd_staked_sum s" using assms(1) by (auto simp: sd_books_def)
  from slash_delegators_accounts [OF s2] ok n have acc: "sd_accounts s2"
    "sd_staked_sum s2 = sd_staked_sum s - sl" "sd_get_total_staked s2 = sd_staked_sum s"
    by (auto simp: same)
  with sd_staked_sum_nonneg [OF acc(1)] s' show ?thesis by (intro sd_books_total [OF acc(1)]) simp
qed

lemma trim_loop_core:
  assumes "trim_loop u nb t ds acc s = Inr (out, s')" and "\<forall>d \<in> set ds. 0 < dl_amount d"
  shows "sd_core s' = sd_core s \<and> out = acc @ shrink (\<lambda>d. dl_amount d * nb sdiv t) ds"
  using assms
proof (induction ds arbitrary: acc s)
  case (Cons d ds)
  let ?m = "dl_amount d * nb sdiv t"
  from Cons.prems(1) obtain s1 where core: "sd_core s1 = sd_core s" and
    rest: "(if 0 < ?m then trim_loop u nb t ds (acc @ [d\<lparr>dl_amount := ?m\<rparr>]) s1
            else trim_loop u nb t ds acc (remove_delegator_from_delegatee (dl_delegatee d) u s1)) = Inr (out, s')"
    by (fastforce simp: outcome_simps split: if_splits)
  show ?case
  proof (cases "0 < ?m")
    case True
    with rest Cons.IH [of "acc @ [d\<lparr>dl_amount := ?m\<rparr>]" s1] Cons.prems(2) core show ?thesis by simp
  next
    case False
    with rest Cons.IH [of acc "remove_delegator_from_delegatee (dl_delegatee d) u s1"] Cons.prems(2) core
    show ?thesis by simp
  qed
qed simp

lemma slash_stake_books:
  assumes "sd_books s" and "slash_stake e a u n s = Inr (r, s')"
  shows "sd_books s'"
proof -
  let ?nb = "sd_staked_balance u s - n"
  from assms(2) obtain s1 t s3 where n: "n \<le> sd_staked_balance u s"
    and s1: "settle_all_delegates u s = Inr s1"
    and t: "total_delegated u ((sd_put_staked u ?nb s1)\<lparr>sd_total_staked := Some (sd_get_total_staked s1 - n)\<rparr>) = Inr t"
    and trim: "(if 0 < t \<and> ?nb < t
       then bindE (trim_loop u ?nb t (get_delegations u ((sd_put_staked u ?nb s1)\<lparr>sd_total_staked :=
                Some (sd_get_total_staked s1 - n)\<rparr>)) []
              ((sd_put_staked u ?nb s1)\<lparr>sd_total_staked := Some (sd_get_total_staked s1 - n)\<rparr>))
              (\<lambda>(new_delegations, s). Inr (put_delegations u new_delegations s))
       else Inr ((sd_put_staked u ?nb s1)\<lparr>sd_total_staked := Some (sd_get_total_staked s1 - n)\<rparr>)) = Inr s3"
    and s': "sd_core s' = sd_core s3"
    by (auto simp: slash_stake_def outcome_simps fail_if_Inr_iff Let_def simp del: if_split)
  let ?s2 = "(sd_put_staked u ?nb s1)\<lparr>sd_total_staked := Some (sd_get_total_staked s1 - n)\<rparr>"
  note same = sd_core_reads [OF settle_all_core [OF s1]]
  have books: "sd_books s1" and ok: "sd_accounts s1" using assms(1) by (auto simp: same sd_books_def)
  have t_sum: "t = dl_sum (get_delegations u s1)"
    using total_delegated_Inr [OF t] by (simp add: get_delegations_def sd_put_staked_def)
  note acc = sd_accountsD(1,3) [OF ok, of u]
  show ?thesis
  proof (cases "0 < t \<and> ?nb < t")
    case False
    then have "dl_sum (get_delegations u s1) \<le> ?nb"
      using t_sum n dl_sum_nonneg [OF acc(1)] by auto
    moreover have "sd_core s' = sd_core ?s2" using False trim s' by auto
    ultimately show ?thesis by (intro sd_books_balance [OF books]) (simp_all add: same)
  next
    case True
    let ?out = "shrink (\<lambda>d. dl_amount d * ?nb sdiv t) (get_delegations u s1)"
    from True trim obtain s4 out where s4: "trim_loop u ?nb t (get_delegations u s1) [] ?s2 = Inr (out, s4)"
      and s3: "s3 = put_delegations u out s4"
      by (auto simp: outcome_simps)
    from trim_loop_core [OF s4 acc(2)] have s4': "sd_core s4 = sd_core ?s2" "out = ?out" by auto
    have "t * dl_sum ?out \<le> ?nb * t" using trimmed_sum_le [OF acc(1), of ?nb t] n True t_sum by simp
    with True have "dl_sum ?out \<le> ?nb" by (simp add: mult.commute)
    note acct = sd_account_write [OF ok shrink_ok [OF acc(1)] this refl]
    let ?x = "put_delegations u ?out (sd_put_staked u ?nb s1)"
    have "sd_get_total_staked s1 = sd_staked_sum s1" using books by (simp add: sd_books_def)
    with acct have x_ok: "sd_accounts ?x" and sum: "sd_staked_sum ?x = sd_get_total_staked s1 - n"
      by (simp_all add: same)
    have "sd_core s' = sd_core (?x\<lparr>sd_total_staked := Some (sd_staked_sum ?x)\<rparr>)"
      unfolding sum s' s3 sd_core_maps s4' by (simp split: prod.splits)
    with x_ok show ?thesis by (rule sd_books_total)
  qed
qed

text \<open>The calls that leave accounts, totals and pending undelegations alone.\<close>

lemma sd_frames:
  "advance_epoch e a s = Inr (k, s') \<Longrightarrow> sd_core s' = sd_core s"
  "set_undelegation_cooldown e a cd s = Inr s' \<Longrightarrow> sd_core s' = sd_core s"
  "set_commission e a rate s = Inr s' \<Longrightarrow> sd_core s' = sd_core s"
  "claim_commission e a s = Inr (r, s') \<Longrightarrow> sd_core s' = sd_core s"
  "set_slashing_authority e a b s = Inr s' \<Longrightarrow> sd_core s' = sd_core s"
  "sd_pause e a s = Inr s' \<Longrightarrow> sd_core s' = sd_core s"
  "sd_unpause e a s = Inr s' \<Longrightarrow> sd_core s' = sd_core s"
  "request_revocation e a b s = Inr s' \<Longrightarrow> sd_core s' = sd_core s"
  "sd_fund_rewards e a n s = Inr s' \<Longrightarrow> sd_core s' = sd_core s"
  "claim_delegatee_rewards e a s = Inr (r, s') \<Longrightarrow> sd_core s' = sd_core s"
  by (auto simp: advance_epoch_def set_undelegation_cooldown_def set_commission_def
      claim_commission_def set_slashing_authority_def sd_pause_def sd_unpause_def
      request_revocation_def sd_fund_rewards_def claim_delegatee_rewards_def outcome_simps fail_if_Inr_iff
      Let_def dest: settle_pending_for_core split: if_splits)

lemma sd_init_rejected: "sd_books s \<Longrightarrow> sd_init a d s \<noteq> Inr s'"
  by (auto simp: sd_books_def sd_accounts_def sd_init_def)

lemma request_undelegate_books:
  assumes "sd_books s" and "request_undelegate e u v n s = Inr s'"
  shows "sd_books s'"
proof -
  from assms(2) have "0 < n" and s': "sd_core s' = sd_core (s\<lparr>sd_pending_undelegation :=
      (sd_pending_undelegation s)((u, v) \<mapsto> \<lparr>pu_amount = n, pu_request_time = timestamp e\<rparr>)\<rparr>)"
    by (auto simp: request_undelegate_def outcome_simps fail_if_Inr_iff)
  then have "sd_books (s\<lparr>sd_pending_undelegation :=
      (sd_pending_undelegation s)((u, v) \<mapsto> \<lparr>pu_amount = n, pu_request_time = timestamp e\<rparr>)\<rparr>)"
    using assms(1) by (auto simp: sd_books_def sd_accounts_def get_delegations_def sd_staked_balance_def
        sd_get_total_staked_def sd_staked_sum_def)
  with sd_core_reads(6) [OF s'] show ?thesis by simp
qed

lemma sd_books_core: "sd_core s' = sd_core s \<Longrightarrow> sd_books s \<Longrightarrow> sd_books s'"
  by (drule sd_core_reads(6)) simp

lemmas sd_keep_books = sd_frames [THEN sd_books_core] sd_stake_books [rotated] sd_unstake_books [rotated]
  delegate_books [rotated] finalize_revocation_books [rotated] complete_undelegate_books [rotated]
  apply_delegatee_slash_books [rotated] slash_stake_books [rotated] request_undelegate_books [rotated]

lemma sd_exec_books: "sd_books s \<Longrightarrow> sd_exec e c s = Inr s' \<Longrightarrow> sd_books s'"
  by (cases c) (auto simp: drop_result_Inr_iff sd_init_rejected dest: sd_keep_books)

interpretation sd_machine: invariant_machine sd_exec any_call world_moves sd_books
proof
  show "sd_books s'" if "sd_books s" "world_moves s s'" for s s' :: "'a sd_state"
    using that sd_core_reads(6) [of s' s] by (auto simp: world_moves_def sd_core_def)
qed (rule sd_exec_books)

lemma sd_init_books: "sd_init a d (sd_fresh w) = Inr s \<Longrightarrow> sd_books s"
  by (auto simp: sd_init_def sd_fresh_def sd_books_def sd_accounts_def sd_get_total_staked_def
      sd_staked_sum_def msum_def get_delegations_def sd_staked_balance_def host_simps)

text \<open>C18. The books of delegated stake: in every history after the initialisation, the recorded total is
  the sum of all staked balances, every account's delegations are positive and name distinct
  delegatees, and together they never exceed the account's staked balance - through staking,
  delegating, revoking, undelegating and both kinds of slash.\<close>

theorem delegation_books:
  assumes "sd_init admin d (sd_fresh w) = Inr s0" and "reach sd_exec any_call world_moves s0 s"
  shows "sd_get_total_staked s = sd_staked_sum s \<and>
    (\<forall>x \<in> set (get_delegations u s). 0 < dl_amount x) \<and>
    distinct (map dl_delegatee (get_delegations u s)) \<and>
    0 \<le> dl_sum (get_delegations u s) \<and> dl_sum (get_delegations u s) \<le> sd_staked_balance u s"
proof -
  from sd_machine.reach_inv [OF assms(2) sd_init_books [OF assms(1)]]
  have ok: "sd_accounts s" and "sd_get_total_staked s = sd_staked_sum s" by (auto simp: sd_books_def)
  with sd_accountsD(1,2) [OF ok, of u] dl_sum_nonneg [of "get_delegations u s"] show ?thesis
    by (simp add: dl_ok_def)
qed

text \<open>An admin, two stakers and a delegatee: the first staker delegates all, asks for all of it back, and
  is slashed before the undelegation completes.\<close>

abbreviation sd_at :: "nat \<Rightarrow> nat \<Rightarrow> env" where
  "sd_at t who \<equiv> call_at t (Address 9) (Address who)"

definition sd_sample_start :: "unit sd_state" where
  "sd_sample_start = after (sd_init (Address 2) 100 (sd_fresh ())) (sd_fresh ())"

definition sd_sample_calls :: "(env \<times> sd_call) list" where
  "sd_sample_calls =
     [(sd_at 1 3, SD_Stake (Address 3) 100), (sd_at 2 4, SD_Stake (Address 4) 50),
      (sd_at 3 3, SD_Delegate (Address 3) (Address 7) 100),
      (sd_at 4 3, SD_RequestUndelegate (Address 3) (Address 7) 100),
      (sd_at 5 2, SD_SlashStake (Address 2) (Address 3) 60),
      (sd_at 6 4, SD_Delegate (Address 4) (Address 7) 50)]"

definition sd_sample :: "unit sd_state" where
  "sd_sample = run_calls sd_exec sd_sample_calls sd_sample_start"

lemma sd_sample_start: "sd_init (Address 2) 100 (sd_fresh ()) = Inr sd_sample_start"
  by (simp add: sd_sample_start_def sd_init_def sd_fresh_def)

lemma sd_sample_reach: "reach sd_exec any_call world_moves sd_sample_start sd_sample"
  unfolding sd_sample_def by (rule run_calls_reach) (simp add: any_call_def)

lemma delegation_books_witness:
  "sd_get_total_staked sd_sample = sd_staked_sum sd_sample \<and>
   dl_sum (get_delegations (Address 3) sd_sample) \<le> sd_staked_balance (Address 3) sd_sample"
  using delegation_books [OF sd_sample_start sd_sample_reach, of "Address 3"] by blast

section \<open>Undelegating after a slash\<close>

lemma settle_pending_for_frame:
  "settle_pending_for a i s = Inr s' \<Longrightarrow>
     get_delegatee_stake v s' = get_delegatee_stake v s \<and> get_delegations u s' = get_delegations u s"
  by (auto simp: settle_pending_for_def get_delegatee_stake_def get_delegations_def outcome_simps
      Let_def split: if_splits)

lemma undelegate_loop_removed:
  "undelegate_loop v n ds removed fully acc = Inr (r, f, out) \<Longrightarrow>
     r = (if v \<in> dl_delegatee ` set ds then n else removed)"
  by (induction ds arbitrary: removed fully acc) (fastforce simp: outcome_simps split: if_splits)+

lemma find_delegation:
  "delegation_to v ds = Some d \<Longrightarrow> d \<in> set ds \<and> dl_delegatee d = v"
  by (induction ds) (auto simp: delegation_to_def split: if_splits)

lemma same_delegation: "dl_ok ds \<Longrightarrow> d \<in> set ds \<Longrightarrow> x \<in> set ds \<Longrightarrow> dl_delegatee x = dl_delegatee d \<Longrightarrow> x = d"
  by (auto simp: dl_ok_def distinct_map inj_on_def)

text \<open>An undelegation can remove more than was delegated: when the delegation has shrunk below the
  requested amount since the request (it was slashed, or revoked and opened again), completing the
  request deletes the delegation but takes the whole requested amount off the delegatee's stake, so
  the stake of the other delegators is no longer counted in full.\<close>

theorem undelegate_overdraws:
  assumes "sd_books s" and "complete_undelegate e u v s = Inr s'"
    and "sd_pending_undelegation s (u, v) = Some p"
    and "delegation_to v (get_delegations u s) = Some d" and "dl_amount d < pu_amount p"
  shows "get_delegatee_stake v s' = get_delegatee_stake v s - pu_amount p \<and>
    delegation_to v (get_delegations u s') = None"
proof -
  from assms(2,3) obtain s1 r f out
    where s1: "settle_pending_for v (sd_get_reward_index s) s = Inr s1"
    and loop: "undelegate_loop v (pu_amount p) (get_delegations u s1) 0 False [] = Inr (r, f, out)"
    and s': "get_delegatee_stake v s' = get_delegatee_stake v s1 - r" "get_delegations u s' = out"
    by (auto simp: complete_undelegate_def outcome_simps fail_if_Inr_iff Let_def
        if_distrib [of "get_delegatee_stake v"] if_distrib [of "get_delegations u"])
  have ok: "dl_ok (get_delegations u s)" using assms(1) by (auto simp: sd_books_def dest: sd_accountsD)
  note same = settle_pending_for_frame [OF s1]
  note d = find_delegation [OF assms(4)]
  from undelegate_loop_removed [OF loop] d have "r = pu_amount p" by (auto simp: same)
  moreover have "out = shrink (\<lambda>x. if dl_delegatee x = v then dl_amount x - pu_amount p else dl_amount x)
      (get_delegations u s)"
    using undelegate_loop_Inr [OF loop] ok by (simp add: same dl_ok_def)
  moreover from this d same_delegation [OF ok, of d] assms(5) have "\<forall>x \<in> set out. dl_delegatee x \<noteq> v"
    by (fastforce simp: shrink_def)
  ultimately show ?thesis using s' by (simp add: same delegation_to_def find_None_iff)
qed

lemmas sd_eval = sd_sample_def sd_sample_calls_def sd_sample_start_def sd_fresh_def sd_init_def apply_call_def
  sd_stake_def sd_unstake_def delegate_def request_undelegate_def slash_stake_def drop_result_def
  complete_undelegate_def settle_all_delegates_def settle_pending_for_def get_delegations_def
  put_delegations_def sd_put_staked_def sd_staked_balance_def sd_get_total_staked_def total_delegated_def
  sd_require_not_paused_def sd_is_paused_def sd_require_admin_def put_delegatee_stake_def
  get_delegatee_stake_def get_delegatee_index_def sd_get_reward_index_def get_delegators_def
  add_delegator_to_delegatee_def remove_delegator_from_delegatee_def delegation_to_def current_epoch_def
  get_undelegation_cooldown_def ck_i128_def i128_ok_def div_i128_def signed_divide_int_def host_simps

lemma undelegate_overdraws_witness:
  "\<exists>s'. complete_undelegate (sd_at 604804 3) (Address 3) (Address 7) sd_sample = Inr s' \<and>
     get_delegatee_stake (Address 7) sd_sample = 90 \<and> get_delegatee_stake (Address 7) s' = - 10"
proof -
  obtain s' where s': "complete_undelegate (sd_at 604804 3) (Address 3) (Address 7) sd_sample = Inr s'"
    by (simp add: sd_eval)
  have "sd_books sd_sample" by (rule sd_machine.reach_inv [OF sd_sample_reach sd_init_books [OF sd_sample_start]])
  moreover have "sd_pending_undelegation sd_sample (Address 3, Address 7) =
      Some \<lparr>pu_amount = 100, pu_request_time = 4\<rparr>"
    and "delegation_to (Address 7) (get_delegations (Address 3) sd_sample) =
      Some \<lparr>dl_delegatee = Address 7, dl_amount = 40, dl_activated_epoch = 1\<rparr>"
    and "get_delegatee_stake (Address 7) sd_sample = 90"
    by (simp_all add: sd_eval)
  ultimately show ?thesis using s' undelegate_overdraws [OF _ s'] by simp
qed

section \<open>The views\<close>

lemma stake_growth_nonneg: "0 < st \<Longrightarrow> i < j \<Longrightarrow> 0 \<le> (st * (j - i)) sdiv SD_SCALE"
  by (simp add: SD_SCALE_def sdiv_nonneg pos_imp_zdiv_nonneg_iff)

text \<open>The view and the claim agree: what \<open>claim_delegatee_rewards\<close> pays a delegatee whose commission is
  at most 100 percent is exactly what \<open>get_delegatee_claimable\<close> shows in the state before, although
  the one settles the index and banks commission and rewards and the other only reads.\<close>

theorem claimable_is_claimed:
  assumes "claim_delegatee_rewards e v s = Inr (n, s')"
    and "unwrap_or (sd_commission_rate s v) 0 \<le> 10000"
    and "i128_ok (unwrap_or (sd_pending_rewards s v) 0)"
  shows "get_delegatee_claimable v s = Inr n"
proof -
  let ?gross = "(get_delegatee_stake v s * (sd_get_reward_index s - get_delegatee_index v s)) sdiv SD_SCALE"
  let ?com = "(?gross * int (unwrap_or (sd_commission_rate s v) 0)) sdiv 10000"
  have com: "?com \<le> ?gross" if "0 \<le> ?gross"
    using quotient_bounds [of ?gross "int (unwrap_or (sd_commission_rate s v) 0)" 10000] that assms(2) by simp
  show ?thesis
    using assms(1,3) com stake_growth_nonneg [of "get_delegatee_stake v s" "get_delegatee_index v s" "sd_get_reward_index s"]
    by (auto simp: claim_delegatee_rewards_def get_delegatee_claimable_def settle_pending_for_def
        outcome_simps Let_def fail_if_Inr_iff add.commute [of "unwrap_or (sd_pending_rewards s v) 0"]
        i128_ok_def [of 0] split: if_splits)
qed

text \<open>Rewards are funded after the first delegation of the sample.\<close>

definition sd_funded :: "unit sd_state" where
  "sd_funded = run_calls sd_exec (sd_sample_calls @
     [(sd_at 7 7, SD_SetCommission (Address 7) 1000), (sd_at 8 2, SD_FundRewards (Address 2) 900)]) sd_sample_start"

lemma claimable_is_claimed_witness:
  "\<exists>s'. claim_delegatee_rewards (sd_at 9 7) (Address 7) sd_funded = Inr (810, s') \<and>
     get_delegatee_claimable (Address 7) sd_funded = Inr 810"
proof -
  obtain s' where s': "claim_delegatee_rewards (sd_at 9 7) (Address 7) sd_funded = Inr (810, s')"
    by (simp add: sd_funded_def sd_eval claim_delegatee_rewards_def sd_fund_rewards_def set_commission_def SD_SCALE_def)
  moreover have "unwrap_or (sd_commission_rate sd_funded (Address 7)) 0 \<le> 10000"
    and "i128_ok (unwrap_or (sd_pending_rewards sd_funded (Address 7)) 0)"
    by (simp_all add: sd_funded_def sd_eval sd_fund_rewards_def set_commission_def SD_SCALE_def)
  ultimately show ?thesis using claimable_is_claimed [OF s'] by simp
qed

end
