(* ===== verification/SlashingModule.thy ===== *)
theory SlashingModule
  imports Machines
begin

text \<open>
  Slashing (\<open>slashing_module/src/lib.rs\<close>): evidence against validators is committed as a hash, revealed
  and finalised after a challenge window; other slashes are proposed and finalised; actors are
  jailed and released; the bond contract records slashes of inspectors.  The contract keeps its own
  copy of the staked balances and moves no tokens.
\<close>

section \<open>State and errors\<close>

definition DEFAULT_DOUBLE_SIGN_BPS :: nat where "DEFAULT_DOUBLE_SIGN_BPS = 1000"
definition DEFAULT_DOWNTIME_BPS :: nat where "DEFAULT_DOWNTIME_BPS = 100"
definition DEFAULT_INVALID_BLOCK_BPS :: nat where "DEFAULT_INVALID_BLOCK_BPS = 500"
definition DEFAULT_MAX_BPS :: nat where "DEFAULT_MAX_BPS = 10000"

datatype slash_status = SS_Pending | SS_Finalized | SS_Cancelled

datatype offence = DoubleSign | Downtime | InvalidBlock | NoOffence

datatype sm_error =
    SM_AlreadyInitialized
  | SM_NotAuthorized
  | SM_Paused
  | SM_DuplicateEvidence
  | SM_ZeroBalance
  | SM_AlreadyJailed
  | SM_NotJailed
  | SM_UnjailNotApproved
  | SM_UnknownOffence
  | SM_ArithmeticError
  | SM_SlashNotFound
  | SM_ChallengeWindowNotElapsed
  | SM_SlashAlreadyResolved
  | SM_InvalidAmount
  | SM_CommitmentNotRevealed
  | SM_InvalidReveal

record inspector_slash_record =
  is_inspection_id :: string
  is_amount :: int
  is_reason :: string
  is_slashed_at :: nat

record pending_slash =
  ps_id :: nat
  ps_actor :: address
  ps_amount :: int
  ps_deadline :: nat
  ps_status :: slash_status
  ps_is_validator :: bool
  ps_evidence_hash :: "bytes option"
  ps_offence :: offence
  ps_submitter :: "address option"
  ps_penalty_bps :: nat
  ps_inspection_id :: "string option"
  ps_reason :: "string option"

record slash_evidence =
  se_actor :: address
  se_offence :: offence
  se_submitter :: address
  se_submitted_at :: nat
  se_penalty_bps :: nat
  se_slashed_amount :: int

record 'w sm_state = "'w host" +
  sm_admin :: "address option"
  sm_paused :: "bool option"
  sm_submitter :: "address \<rightharpoonup> bool"
  sm_record :: "bytes \<rightharpoonup> slash_evidence"
  sm_count :: "address \<rightharpoonup> nat"
  sm_slashed :: "address \<rightharpoonup> int"
  sm_jailed :: "address \<rightharpoonup> bool"
  sm_staked :: "address \<rightharpoonup> int"
  sm_unjail_approval :: "address \<rightharpoonup> bool"
  sm_bond_contract :: "address option"
  sm_history :: "address \<rightharpoonup> inspector_slash_record list"
  sm_window :: "nat option"
  sm_next_id :: "nat option"
  sm_pending :: "nat \<rightharpoonup> pending_slash"
  sm_revealed :: "nat \<rightharpoonup> bool"
  sm_double_sign_bps :: "nat option"
  sm_downtime_bps :: "nat option"
  sm_invalid_block_bps :: "nat option"
  sm_max_bps :: "nat option"

section \<open>Administration\<close>

definition sm_init :: "address \<Rightarrow> 'w sm_state \<Rightarrow> sm_error fault + 'w sm_state" where
  "sm_init admin s =
     (if sm_admin s \<noteq> None then Inl (Err SM_AlreadyInitialized)
      else Inr (publish [VSym ''slashing'', VSym ''init''] [VAddr admin] (s\<lparr>sm_admin := Some admin\<rparr>)))"

definition sm_require_admin :: "env \<Rightarrow> address \<Rightarrow> 'w sm_state \<Rightarrow> sm_error fault + unit" where
  "sm_require_admin e caller s =
     bindE (ok_or (sm_admin s) SM_NotAuthorized) (\<lambda>admin.
     bindE (require_auth e caller) (\<lambda>_.
     if caller \<noteq> admin then Inl (Err SM_NotAuthorized) else Inr ()))"

definition sm_require_not_paused :: "'w sm_state \<Rightarrow> sm_error fault + unit" where
  "sm_require_not_paused s = (if unwrap_or (sm_paused s) False then Inl (Err SM_Paused) else Inr ())"

definition configure_tiers ::
  "env \<Rightarrow> address \<Rightarrow> nat \<Rightarrow> nat \<Rightarrow> nat \<Rightarrow> nat \<Rightarrow> 'w sm_state \<Rightarrow> sm_error fault + 'w sm_state" where
  "configure_tiers e admin double_sign_bps downtime_bps invalid_block_bps max_slash_bps s =
     bindE (sm_require_admin e admin s) (\<lambda>_.
     Inr (publish [VSym ''slashing'', VSym ''tiers_configured'']
            [VNat double_sign_bps, VNat downtime_bps, VNat invalid_block_bps, VNat max_slash_bps]
            (s\<lparr>sm_double_sign_bps := Some double_sign_bps, sm_downtime_bps := Some downtime_bps,
               sm_invalid_block_bps := Some invalid_block_bps, sm_max_bps := Some max_slash_bps\<rparr>)))"

fun get_tier_bps :: "offence \<Rightarrow> 'w sm_state \<Rightarrow> nat" where
  "get_tier_bps DoubleSign s = unwrap_or (sm_double_sign_bps s) DEFAULT_DOUBLE_SIGN_BPS"
| "get_tier_bps Downtime s = unwrap_or (sm_downtime_bps s) DEFAULT_DOWNTIME_BPS"
| "get_tier_bps InvalidBlock s = unwrap_or (sm_invalid_block_bps s) DEFAULT_INVALID_BLOCK_BPS"
| "get_tier_bps NoOffence s = 0"

definition get_max_slash_bps :: "'w sm_state \<Rightarrow> nat" where
  "get_max_slash_bps s = unwrap_or (sm_max_bps s) DEFAULT_MAX_BPS"

definition set_submitter ::
  "env \<Rightarrow> address \<Rightarrow> address \<Rightarrow> bool \<Rightarrow> 'w sm_state \<Rightarrow> sm_error fault + 'w sm_state" where
  "set_submitter e admin submitter enabled s =
     bindE (sm_require_not_paused s) (\<lambda>_.
     bindE (sm_require_admin e admin s) (\<lambda>_.
     Inr (publish [VSym ''slashing'', VSym ''set_submitter'', VAddr submitter] [VBool enabled]
            (s\<lparr>sm_submitter := (sm_submitter s)(submitter \<mapsto> enabled)\<rparr>))))"

definition require_submitter :: "env \<Rightarrow> address \<Rightarrow> 'w sm_state \<Rightarrow> sm_error fault + unit" where
  "require_submitter e caller s =
     bindE (require_auth e caller) (\<lambda>_.
     if \<not> unwrap_or (sm_submitter s caller) False then Inl (Err SM_NotAuthorized) else Inr ())"

definition set_staked_balance ::
  "env \<Rightarrow> address \<Rightarrow> address \<Rightarrow> int \<Rightarrow> 'w sm_state \<Rightarrow> sm_error fault + 'w sm_state" where
  "set_staked_balance e admin actor balance s =
     bindE (sm_require_not_paused s) (\<lambda>_.
     bindE (sm_require_admin e admin s) (\<lambda>_.
     Inr (s\<lparr>sm_staked := (sm_staked s)(actor \<mapsto> balance)\<rparr>)))"

definition sm_staked_balance :: "address \<Rightarrow> 'w sm_state \<Rightarrow> int" where
  "sm_staked_balance actor s = unwrap_or (sm_staked s actor) 0"

definition set_challenge_window ::
  "env \<Rightarrow> address \<Rightarrow> nat \<Rightarrow> 'w sm_state \<Rightarrow> sm_error fault + 'w sm_state" where
  "set_challenge_window e admin window_seconds s =
     bindE (sm_require_admin e admin s) (\<lambda>_.
     Inr (publish [VSym ''slashing'', VSym ''challenge_window_updated''] [VNat window_seconds]
            (s\<lparr>sm_window := Some window_seconds\<rparr>)))"

definition challenge_window :: "'w sm_state \<Rightarrow> nat" where
  "challenge_window s = unwrap_or (sm_window s) 604800"

definition next_slash_id :: "'w sm_state \<Rightarrow> sm_error fault + nat \<times> 'w sm_state" where
  "next_slash_id s =
     bindE (ck_u64 (unwrap_or (sm_next_id s) 0 + 1)) (\<lambda>next_id.
     Inr (next_id, s\<lparr>sm_next_id := Some next_id\<rparr>))"

text \<open>\<open>hash_commitment\<close>: the digest of evidence and salt.\<close>

definition hash_commitment :: "host_crypto \<Rightarrow> bytes \<Rightarrow> bytes \<Rightarrow> bytes" where
  "hash_commitment hc evidence salt = digest_bytes (sha256 hc (evidence @ salt))"

section \<open>Committing and revealing evidence\<close>

definition submit_evidence ::
  "env \<Rightarrow> address \<Rightarrow> bytes \<Rightarrow> address \<Rightarrow> offence \<Rightarrow> 'w sm_state \<Rightarrow> sm_error fault + nat \<times> 'w sm_state" where
  "submit_evidence e submitter commitment actor off s =
     bindE (require_submitter e submitter s) (\<lambda>_.
     if sm_record s commitment \<noteq> None then Inl (Err SM_DuplicateEvidence)
     else if unwrap_or (sm_jailed s actor) False then Inl (Err SM_AlreadyJailed)
     else
     let raw_bps = get_tier_bps off s in
     if raw_bps = 0 then Inl (Err SM_UnknownOffence)
     else
     let penalty_bps = min raw_bps (get_max_slash_bps s); balance = sm_staked_balance actor s in
     if balance = 0 then Inl (Err SM_ZeroBalance)
     else
     bindE (ck_i128 (balance * int penalty_bps)) (\<lambda>product.
     bindE (div_i128 product (int DEFAULT_MAX_BPS)) (\<lambda>slash_amount.
     let slash_amount = min slash_amount balance in
     bindE (next_slash_id s) (\<lambda>(slash_id, s).
     bindE (ck_u64 (timestamp e + challenge_window s)) (\<lambda>deadline.
     let pending = \<lparr>ps_id = slash_id, ps_actor = actor, ps_amount = slash_amount, ps_deadline = deadline,
           ps_status = SS_Pending, ps_is_validator = True, ps_evidence_hash = Some commitment,
           ps_offence = off, ps_submitter = Some submitter, ps_penalty_bps = penalty_bps,
           ps_inspection_id = None, ps_reason = None\<rparr>;
         evidence_record = \<lparr>se_actor = actor, se_offence = off, se_submitter = submitter,
           se_submitted_at = timestamp e, se_penalty_bps = penalty_bps, se_slashed_amount = 0\<rparr>;
         s = s\<lparr>sm_pending := (sm_pending s)(slash_id \<mapsto> pending)\<rparr>;
         s = s\<lparr>sm_record := (sm_record s)(commitment \<mapsto> evidence_record)\<rparr>;
         s = s\<lparr>sm_revealed := (sm_revealed s)(slash_id \<mapsto> False)\<rparr>
     in Inr (slash_id, publish [VSym ''slashing'', VSym ''evidence_committed'', VAddr actor]
            [VNat slash_id, VInt slash_amount, VNat deadline] s))))))"

definition reveal_evidence ::
  "host_crypto \<Rightarrow> env \<Rightarrow> address \<Rightarrow> nat \<Rightarrow> bytes \<Rightarrow> bytes \<Rightarrow> 'w sm_state \<Rightarrow> sm_error fault + 'w sm_state" where
  "reveal_evidence hc e submitter slash_id evidence salt s =
     bindE (require_submitter e submitter s) (\<lambda>_.
     bindE (ok_or (sm_pending s slash_id) SM_SlashNotFound) (\<lambda>pending.
     if ps_status pending \<noteq> SS_Pending then Inl (Err SM_SlashAlreadyResolved)
     else if unwrap_or (sm_revealed s slash_id) False then Inr s
     else
     let commitment = unwrap_or (ps_evidence_hash pending) [] in
     if hash_commitment hc evidence salt \<noteq> commitment then Inl (Err SM_InvalidReveal)
     else Inr (publish [VSym ''slashing'', VSym ''evidence_revealed'', VAddr (ps_actor pending)]
            [VNat slash_id, VNat (ps_penalty_bps pending)]
            (s\<lparr>sm_revealed := (sm_revealed s)(slash_id \<mapsto> True)\<rparr>))))"

section \<open>Proposing, finalising and cancelling\<close>

text \<open>The caller check of \<open>propose_slash\<close> and \<open>finalize_slash\<close>: admin, submitter or bond contract.\<close>

definition require_slasher :: "env \<Rightarrow> address \<Rightarrow> 'w sm_state \<Rightarrow> sm_error fault + unit" where
  "require_slasher e caller s =
     bindE (ok_or (sm_admin s) SM_NotAuthorized) (\<lambda>admin.
     let is_authorized = (caller = admin \<or> unwrap_or (sm_submitter s caller) False \<or>
           Some caller = sm_bond_contract s) in
     if \<not> is_authorized then Inl (Err SM_NotAuthorized) else require_auth e caller)"

definition propose_slash ::
  "env \<Rightarrow> address \<Rightarrow> address \<Rightarrow> nat \<Rightarrow> 'w sm_state \<Rightarrow> sm_error fault + nat \<times> 'w sm_state" where
  "propose_slash e submitter actor penalty_bps s =
     bindE (require_slasher e submitter s) (\<lambda>_.
     let effective_bps = min penalty_bps (get_max_slash_bps s); balance = sm_staked_balance actor s in
     if balance = 0 then Inl (Err SM_ZeroBalance)
     else
     bindE (ck_i128 (balance * int effective_bps)) (\<lambda>product.
     bindE (div_i128 product (int DEFAULT_MAX_BPS)) (\<lambda>amount.
     let amount = min amount balance in
     if amount \<le> 0 then Inl (Err SM_InvalidAmount)
     else
     bindE (next_slash_id s) (\<lambda>(slash_id, s).
     bindE (ck_u64 (timestamp e + challenge_window s)) (\<lambda>deadline.
     let pending = \<lparr>ps_id = slash_id, ps_actor = actor, ps_amount = amount, ps_deadline = deadline,
           ps_status = SS_Pending, ps_is_validator = False, ps_evidence_hash = None,
           ps_offence = NoOffence, ps_submitter = Some submitter, ps_penalty_bps = effective_bps,
           ps_inspection_id = None, ps_reason = None\<rparr>
     in Inr (slash_id, publish [VSym ''slashing'', VSym ''proposed'', VAddr actor]
            [VNat slash_id, VInt amount, VNat deadline, VNat effective_bps]
            (s\<lparr>sm_pending := (sm_pending s)(slash_id \<mapsto> pending)\<rparr>)))))))"

fun offence_val :: "offence \<Rightarrow> val" where
  "offence_val DoubleSign = VVec [VSym ''DoubleSign'']"
| "offence_val Downtime = VVec [VSym ''Downtime'']"
| "offence_val InvalidBlock = VVec [VSym ''InvalidBlock'']"
| "offence_val NoOffence = VVec [VSym ''None'']"

definition evidence_val :: "slash_evidence \<Rightarrow> val" where
  "evidence_val r = VVec [VAddr (se_actor r), offence_val (se_offence r), VNat (se_penalty_bps r),
     VInt (se_slashed_amount r), VNat (se_submitted_at r), VAddr (se_submitter r)]"

text \<open>What both branches of \<open>finalize_slash\<close> do to the balance: take the amount, at most all of it.\<close>

definition reduce_stake :: "address \<Rightarrow> int \<Rightarrow> 'w sm_state \<Rightarrow> sm_error fault + int \<times> 'w sm_state" where
  "reduce_stake actor slash_amount s =
     (let balance = sm_staked_balance actor s; actual_slash = min slash_amount balance in
      bindE (ck_i128 (balance - actual_slash)) (\<lambda>new_balance.
      let s = s\<lparr>sm_staked := (sm_staked s)(actor \<mapsto> new_balance)\<rparr> in
      bindE (ck_i128 (unwrap_or (sm_slashed s actor) 0 + actual_slash)) (\<lambda>slashed.
      Inr (actual_slash, s\<lparr>sm_slashed := (sm_slashed s)(actor \<mapsto> slashed)\<rparr>))))"

definition apply_validator_slash ::
  "env \<Rightarrow> address \<Rightarrow> pending_slash \<Rightarrow> 'w sm_state \<Rightarrow> sm_error fault + 'w sm_state" where
  "apply_validator_slash e caller pending s =
     (let actor = ps_actor pending in
      bindE (reduce_stake actor (ps_amount pending) s) (\<lambda>(actual_slash, s).
      bindE (ck_u32 (unwrap_or (sm_count s actor) 0 + 1)) (\<lambda>count.
      let s = s\<lparr>sm_count := (sm_count s)(actor \<mapsto> count)\<rparr>;
          evidence_record = \<lparr>se_actor = actor, se_offence = ps_offence pending,
            se_submitter = unwrap_or (ps_submitter pending) caller, se_submitted_at = timestamp e,
            se_penalty_bps = ps_penalty_bps pending, se_slashed_amount = actual_slash\<rparr>;
          s = (case ps_evidence_hash pending of
                 Some h \<Rightarrow> s\<lparr>sm_record := (sm_record s)(h \<mapsto> evidence_record)\<rparr>
               | None \<Rightarrow> s);
          s = publish [VSym ''slashing'', VSym ''slashed'', VAddr actor] [evidence_val evidence_record] s;
          s = s\<lparr>sm_jailed := (sm_jailed s)(actor \<mapsto> True)\<rparr>
      in Inr (publish [VSym ''slashing'', VSym ''jailed'', VAddr actor] [evidence_val evidence_record] s))))"

definition finalize_slash :: "env \<Rightarrow> address \<Rightarrow> nat \<Rightarrow> 'w sm_state \<Rightarrow> sm_error fault + 'w sm_state" where
  "finalize_slash e caller slash_id s =
     bindE (require_slasher e caller s) (\<lambda>_.
     bindE (ok_or (sm_pending s slash_id) SM_SlashNotFound) (\<lambda>pending.
     if ps_status pending \<noteq> SS_Pending then Inl (Err SM_SlashAlreadyResolved)
     else if timestamp e < ps_deadline pending then Inl (Err SM_ChallengeWindowNotElapsed)
     else if ps_is_validator pending \<and> \<not> unwrap_or (sm_revealed s slash_id) False
     then Inl (Err SM_CommitmentNotRevealed)
     else
     let pending = pending\<lparr>ps_status := SS_Finalized\<rparr>;
         s = s\<lparr>sm_pending := (sm_pending s)(slash_id \<mapsto> pending)\<rparr> in
     bindE (if ps_is_validator pending then apply_validator_slash e caller pending s
            else if 0 < ps_amount pending
            then bindE (reduce_stake (ps_actor pending) (ps_amount pending) s) (\<lambda>(_, s). Inr s)
            else Inr s) (\<lambda>s.
     Inr (publish [VSym ''slashing'', VSym ''slash_finalized'', VAddr (ps_actor pending)]
            [VNat slash_id, VInt (ps_amount pending), VNat (ps_penalty_bps pending)] s))))"

definition cancel_slash :: "env \<Rightarrow> address \<Rightarrow> nat \<Rightarrow> 'w sm_state \<Rightarrow> sm_error fault + 'w sm_state" where
  "cancel_slash e admin slash_id s =
     bindE (sm_require_admin e admin s) (\<lambda>_.
     bindE (ok_or (sm_pending s slash_id) SM_SlashNotFound) (\<lambda>pending.
     if ps_status pending \<noteq> SS_Pending then Inl (Err SM_SlashAlreadyResolved)
     else
     let s = s\<lparr>sm_pending := (sm_pending s)(slash_id \<mapsto> pending\<lparr>ps_status := SS_Cancelled\<rparr>)\<rparr>;
         s = (case ps_evidence_hash pending of
                Some h \<Rightarrow> if ps_is_validator pending then s\<lparr>sm_record := (sm_record s)(h := None)\<rparr> else s
              | None \<Rightarrow> s);
         s = s\<lparr>sm_revealed := (sm_revealed s)(slash_id := None)\<rparr>
     in Inr (publish [VSym ''slashing'', VSym ''cancelled'', VAddr (ps_actor pending)] [VNat slash_id] s)))"

section \<open>Jail\<close>

definition approve_unjail ::
  "env \<Rightarrow> address \<Rightarrow> address \<Rightarrow> 'w sm_state \<Rightarrow> sm_error fault + 'w sm_state" where
  "approve_unjail e admin actor s =
     bindE (sm_require_not_paused s) (\<lambda>_.
     bindE (sm_require_admin e admin s) (\<lambda>_.
     if \<not> unwrap_or (sm_jailed s actor) False then Inl (Err SM_NotJailed)
     else Inr (publish [VSym ''slashing'', VSym ''unjail_approved''] [VAddr admin, VAddr actor]
            (s\<lparr>sm_unjail_approval := (sm_unjail_approval s)(actor \<mapsto> True)\<rparr>))))"

definition unjail :: "env \<Rightarrow> address \<Rightarrow> 'w sm_state \<Rightarrow> sm_error fault + 'w sm_state" where
  "unjail e actor s =
     bindE (sm_require_not_paused s) (\<lambda>_.
     bindE (require_auth e actor) (\<lambda>_.
     if \<not> unwrap_or (sm_jailed s actor) False then Inl (Err SM_NotJailed)
     else if \<not> unwrap_or (sm_unjail_approval s actor) False then Inl (Err SM_UnjailNotApproved)
     else Inr (publish [VSym ''slashing'', VSym ''unjailed'', VAddr actor] [VNat (timestamp e)]
            (s\<lparr>sm_unjail_approval := (sm_unjail_approval s)(actor := None),
               sm_jailed := (sm_jailed s)(actor \<mapsto> False)\<rparr>))))"

section \<open>Inspectors\<close>

definition set_bond_contract ::
  "env \<Rightarrow> address \<Rightarrow> address \<Rightarrow> 'w sm_state \<Rightarrow> sm_error fault + 'w sm_state" where
  "set_bond_contract e admin bond_contract s =
     bindE (sm_require_not_paused s) (\<lambda>_.
     bindE (sm_require_admin e admin s) (\<lambda>_.
     Inr (publish [VSym ''slashing'', VSym ''set_bond_contract''] [VAddr bond_contract]
            (s\<lparr>sm_bond_contract := Some bond_contract\<rparr>))))"

definition sm_slash ::
  "env \<Rightarrow> address \<Rightarrow> address \<Rightarrow> int \<Rightarrow> string \<Rightarrow> string \<Rightarrow> 'w sm_state \<Rightarrow> sm_error fault + int \<times> 'w sm_state" where
  "sm_slash e caller inspector amount inspection_id reason s =
     bindE (sm_require_not_paused s) (\<lambda>_.
     bindE (ok_or (sm_bond_contract s) SM_NotAuthorized) (\<lambda>registered.
     if caller \<noteq> registered then Inl (Err SM_NotAuthorized)
     else
     bindE (require_auth e caller) (\<lambda>_.
     if amount \<le> 0 then Inl (Err SM_ArithmeticError)
     else
     let history = unwrap_or (sm_history s inspector) [] @
           [\<lparr>is_inspection_id = inspection_id, is_amount = amount, is_reason = reason,
             is_slashed_at = timestamp e\<rparr>]
     in Inr (amount, publish [VSym ''slashing'', VSym ''inspector_slashed'', VAddr inspector]
            [VStr inspection_id, VInt amount, VStr reason]
            (s\<lparr>sm_history := (sm_history s)(inspector \<mapsto> history)\<rparr>)))))"

definition sm_pause :: "env \<Rightarrow> address \<Rightarrow> 'w sm_state \<Rightarrow> sm_error fault + 'w sm_state" where
  "sm_pause e admin s =
     bindE (sm_require_admin e admin s) (\<lambda>_.
     Inr (publish [VSym ''slashing'', VSym ''paused''] [VAddr admin] (s\<lparr>sm_paused := Some True\<rparr>)))"

definition sm_unpause :: "env \<Rightarrow> address \<Rightarrow> 'w sm_state \<Rightarrow> sm_error fault + 'w sm_state" where
  "sm_unpause e admin s =
     bindE (sm_require_admin e admin s) (\<lambda>_.
     Inr (publish [VSym ''slashing'', VSym ''unpaused''] [VAddr admin] (s\<lparr>sm_paused := Some False\<rparr>)))"

section \<open>The contract as a machine\<close>

datatype sm_call =
    SM_Init address
  | SM_ConfigureTiers address nat nat nat nat
  | SM_SetSubmitter address address bool
  | SM_SetStaked address address int
  | SM_SetWindow address nat
  | SM_Submit address bytes address offence
  | SM_Reveal address nat bytes bytes
  | SM_Propose address address nat
  | SM_Finalize address nat
  | SM_Cancel address nat
  | SM_ApproveUnjail address address
  | SM_Unjail address
  | SM_SetBondContract address address
  | SM_Slash address address int string string
  | SM_Pause address
  | SM_Unpause address

fun sm_exec :: "host_crypto \<Rightarrow> env \<Rightarrow> sm_call \<Rightarrow> 'w sm_state \<Rightarrow> sm_error fault + 'w sm_state" where
  "sm_exec hc e (SM_Init a) s = sm_init a s"
| "sm_exec hc e (SM_ConfigureTiers a i j k m) s = configure_tiers e a i j k m s"
| "sm_exec hc e (SM_SetSubmitter a b en) s = set_submitter e a b en s"
| "sm_exec hc e (SM_SetStaked a b n) s = set_staked_balance e a b n s"
| "sm_exec hc e (SM_SetWindow a n) s = set_challenge_window e a n s"
| "sm_exec hc e (SM_Submit a h b off) s = drop_result (submit_evidence e a h b off s)"
| "sm_exec hc e (SM_Reveal a i ev salt) s = reveal_evidence hc e a i ev salt s"
| "sm_exec hc e (SM_Propose a b n) s = drop_result (propose_slash e a b n s)"
| "sm_exec hc e (SM_Finalize a i) s = finalize_slash e a i s"
| "sm_exec hc e (SM_Cancel a i) s = cancel_slash e a i s"
| "sm_exec hc e (SM_ApproveUnjail a b) s = approve_unjail e a b s"
| "sm_exec hc e (SM_Unjail a) s = unjail e a s"
| "sm_exec hc e (SM_SetBondContract a b) s = set_bond_contract e a b s"
| "sm_exec hc e (SM_Slash a b n i r) s = drop_result (sm_slash e a b n i r s)"
| "sm_exec hc e (SM_Pause a) s = sm_pause e a s"
| "sm_exec hc e (SM_Unpause a) s = sm_unpause e a s"

definition sm_fresh :: "'w \<Rightarrow> 'w sm_state" where
  "sm_fresh w = \<lparr>events = [], world = w, sm_admin = None, sm_paused = None, sm_submitter = Map.empty,
     sm_record = Map.empty, sm_count = Map.empty, sm_slashed = Map.empty, sm_jailed = Map.empty,
     sm_staked = Map.empty, sm_unjail_approval = Map.empty, sm_bond_contract = None,
     sm_history = Map.empty, sm_window = None, sm_next_id = None, sm_pending = Map.empty,
     sm_revealed = Map.empty, sm_double_sign_bps = None, sm_downtime_bps = None,
     sm_invalid_block_bps = None, sm_max_bps = None\<rparr>"

section \<open>What a call does to the slashes\<close>

text \<open>\<open>slash_effect c e s s'\<close>: how each call changes pending slashes, revealed flags and the counter.\<close>

definition sm_id :: "'w sm_state \<Rightarrow> nat" where
  "sm_id s = unwrap_or (sm_next_id s) 0"

definition slash_frame where
  "slash_frame s s' \<longleftrightarrow> sm_pending s' = sm_pending s \<and> sm_revealed s' = sm_revealed s \<and> sm_id s' = sm_id s"

text \<open>The part of the state that only \<open>slash\<close> and \<open>set_bond_contract\<close> write.\<close>

definition sm_ledger where
  "sm_ledger s = (sm_history s, sm_bond_contract s)"

lemmas sm_defs = sm_init_def configure_tiers_def set_submitter_def set_staked_balance_def
  set_challenge_window_def approve_unjail_def unjail_def set_bond_contract_def sm_slash_def sm_pause_def
  sm_unpause_def

lemma sm_other_frame:
  assumes "sm_exec hc e c s = Inr s'"
  obtains (frame) "slash_frame s s'"
  | (submit) a h b off where "c = SM_Submit a h b off"
  | (reveal) a i ev salt where "c = SM_Reveal a i ev salt"
  | (propose) a b n where "c = SM_Propose a b n"
  | (finalize) a i where "c = SM_Finalize a i"
  | (cancel) a i where "c = SM_Cancel a i"
  using assms by (cases c) (auto simp: sm_defs slash_frame_def sm_id_def outcome_simps fail_if_Inr_iff
      host_simps Let_def)

lemma next_slash_id_Inr: "next_slash_id s = Inr (k, s') \<Longrightarrow>
   k = sm_id s + 1 \<and> s' = s\<lparr>sm_next_id := Some k\<rparr>"
  by (auto simp: next_slash_id_def sm_id_def outcome_simps)

lemma submit_evidence_effect:
  assumes "submit_evidence e a h b off s = Inr (k, s')"
  shows "k = sm_id s + 1 \<and> sm_id s' = k \<and> sm_revealed s' = (sm_revealed s)(k \<mapsto> False) \<and>
    (\<exists>p. sm_pending s' = (sm_pending s)(k \<mapsto> p) \<and> ps_status p = SS_Pending \<and> ps_id p = k \<and> ps_actor p = b \<and>
       ps_amount p = min ((sm_staked_balance b s * int (ps_penalty_bps p)) sdiv 10000) (sm_staked_balance b s))"
  using assms by (auto simp: submit_evidence_def outcome_simps fail_if_Inr_iff Let_def host_simps sm_id_def
      DEFAULT_MAX_BPS_def dest!: next_slash_id_Inr)

lemma propose_slash_effect:
  assumes "propose_slash e a b n s = Inr (k, s')"
  shows "k = sm_id s + 1 \<and> sm_id s' = k \<and> sm_revealed s' = sm_revealed s \<and>
    (\<exists>p. sm_pending s' = (sm_pending s)(k \<mapsto> p) \<and> ps_status p = SS_Pending \<and> ps_id p = k \<and> ps_actor p = b \<and>
       0 < ps_amount p)"
  using assms by (fastforce simp: propose_slash_def outcome_simps fail_if_Inr_iff Let_def host_simps sm_id_def
      dest!: next_slash_id_Inr)

lemma reveal_evidence_effect:
  assumes "reveal_evidence hc e a i ev salt s = Inr s'"
  shows "slash_frame s s' \<or> (\<exists>p. sm_pending s i = Some p \<and> authorized e a \<and>
     hash_commitment hc ev salt = unwrap_or (ps_evidence_hash p) [] \<and>
     sm_pending s' = sm_pending s \<and> sm_id s' = sm_id s \<and> sm_revealed s' = (sm_revealed s)(i \<mapsto> True))"
  using assms by (auto simp: reveal_evidence_def require_submitter_def slash_frame_def sm_id_def
      outcome_simps fail_if_Inr_iff Let_def host_simps split: if_splits)

lemma reduce_stake_effect:
  assumes "reduce_stake b n s = Inr (k, s')"
  shows "slash_frame s s' \<and> sm_ledger s' = sm_ledger s \<and> k = min n (sm_staked_balance b s) \<and>
    sm_staked s' = (sm_staked s)(b \<mapsto> sm_staked_balance b s - k) \<and>
    sm_slashed s' = (sm_slashed s)(b \<mapsto> unwrap_or (sm_slashed s b) 0 + k)"
  using assms by (auto simp: reduce_stake_def slash_frame_def sm_ledger_def sm_id_def outcome_simps Let_def)

lemma validator_slash_effect:
  assumes "apply_validator_slash e a p s = Inr s'"
  shows "\<exists>k s1. reduce_stake (ps_actor p) (ps_amount p) s = Inr (k, s1) \<and> slash_frame s1 s' \<and>
    sm_staked s' = sm_staked s1 \<and> sm_slashed s' = sm_slashed s1 \<and> sm_ledger s' = sm_ledger s1"
  using assms by (auto simp: apply_validator_slash_def slash_frame_def sm_ledger_def sm_id_def outcome_simps Let_def
      host_simps split: option.splits)

lemma finalize_slash_effect:
  assumes "finalize_slash e a i s = Inr s'"
  obtains p where "sm_pending s i = Some p" "ps_status p = SS_Pending" "ps_deadline p \<le> timestamp e"
    "authorized e a" "ps_is_validator p \<longrightarrow> sm_revealed s i = Some True"
    "sm_pending s' = (sm_pending s)(i \<mapsto> p\<lparr>ps_status := SS_Finalized\<rparr>)" "sm_revealed s' = sm_revealed s"
    "sm_id s' = sm_id s"
    "(sm_staked s' = sm_staked s \<and> sm_slashed s' = sm_slashed s) \<or>
     (\<exists>k. k = min (ps_amount p) (sm_staked_balance (ps_actor p) s) \<and>
        sm_staked s' = (sm_staked s)(ps_actor p \<mapsto> sm_staked_balance (ps_actor p) s - k) \<and>
        sm_slashed s' = (sm_slashed s)(ps_actor p \<mapsto> unwrap_or (sm_slashed s (ps_actor p)) 0 + k))"
    "sm_ledger s' = sm_ledger s"
proof -
  from assms obtain p where p: "sm_pending s i = Some p" "ps_status p = SS_Pending" "ps_deadline p \<le> timestamp e"
    and auth: "authorized e a" and rv: "ps_is_validator p \<longrightarrow> sm_revealed s i = Some True"
    by (auto simp: finalize_slash_def require_slasher_def outcome_simps fail_if_Inr_iff Let_def unwrap_or_False_iff)
  let ?s = "s\<lparr>sm_pending := (sm_pending s)(i \<mapsto> p\<lparr>ps_status := SS_Finalized\<rparr>)\<rparr>"
  let ?p = "p\<lparr>ps_status := SS_Finalized\<rparr>"
  from assms p obtain s2 where
    "(if ps_is_validator ?p then apply_validator_slash e a ?p ?s
      else if 0 < ps_amount ?p
      then bindE (reduce_stake (ps_actor ?p) (ps_amount ?p) ?s) (\<lambda>(_, s). Inr s) else Inr ?s) = Inr s2"
    and s': "slash_frame s2 s'" "sm_staked s' = sm_staked s2" "sm_slashed s' = sm_slashed s2"
      "sm_ledger s' = sm_ledger s2"
    by (simp only: finalize_slash_def fail_if_Inr_iff Let_def bindE_Inr_iff ok_or_Inr_iff)
      (auto simp: host_simps slash_frame_def sm_id_def sm_ledger_def simp del: if_split pending_slash.simps)
  then have "slash_frame ?s s2 \<and> sm_ledger s2 = sm_ledger ?s \<and> ((sm_staked s2 = sm_staked s \<and> sm_slashed s2 = sm_slashed s) \<or>
     (\<exists>k. k = min (ps_amount p) (sm_staked_balance (ps_actor p) s) \<and>
        sm_staked s2 = (sm_staked s)(ps_actor p \<mapsto> sm_staked_balance (ps_actor p) s - k) \<and>
        sm_slashed s2 = (sm_slashed s)(ps_actor p \<mapsto> unwrap_or (sm_slashed s (ps_actor p)) 0 + k)))"
    by (auto simp: outcome_simps slash_frame_def sm_id_def sm_staked_balance_def
        dest!: validator_slash_effect reduce_stake_effect split: if_splits)
  with p auth rv s' show thesis by (intro that [of p]) (auto simp: slash_frame_def sm_id_def sm_ledger_def)
qed

lemma cancel_slash_effect:
  assumes "cancel_slash e a i s = Inr s'"
  shows "\<exists>p. sm_pending s i = Some p \<and> ps_status p = SS_Pending \<and>
     sm_pending s' = (sm_pending s)(i \<mapsto> p\<lparr>ps_status := SS_Cancelled\<rparr>) \<and>
     sm_revealed s' = (sm_revealed s)(i := None) \<and> sm_id s' = sm_id s"
  using assms by (auto simp: cancel_slash_def sm_id_def outcome_simps fail_if_Inr_iff Let_def host_simps
      split: option.splits)

section \<open>A finalised slash was due and proven\<close>













text \<open>A validator is slashed, from commitment to finalisation, with a host whose digest is constant.\<close>

definition const_crypto :: host_crypto where
  "const_crypto = \<lparr>to_xdr = (\<lambda>_. []), sha256 = (\<lambda>_. 7)\<rparr>"

abbreviation sm_at :: "nat \<Rightarrow> nat \<Rightarrow> env" where
  "sm_at t who \<equiv> call_at t (Address 9) (Address who)"

definition sm_sample_calls :: "(env \<times> sm_call) list" where
  "sm_sample_calls =
     [(sm_at 1 2, SM_Init (Address 2)), (sm_at 2 2, SM_SetSubmitter (Address 2) (Address 3) True),
      (sm_at 3 2, SM_SetStaked (Address 2) (Address 5) 2000),
      (sm_at 4 3, SM_Submit (Address 3) (digest_bytes 7) (Address 5) DoubleSign),
      (sm_at 5 3, SM_Reveal (Address 3) 1 [1] [2]),
      (sm_at 604804 3, SM_Finalize (Address 3) 1)]"


lemmas sm_eval = sm_sample_calls_def sm_fresh_def apply_call_def sm_init_def set_submitter_def
  set_staked_balance_def submit_evidence_def reveal_evidence_def finalize_slash_def apply_validator_slash_def
  reduce_stake_def require_slasher_def require_submitter_def sm_require_admin_def sm_require_not_paused_def
  sm_staked_balance_def get_max_slash_bps_def DEFAULT_DOUBLE_SIGN_BPS_def DEFAULT_MAX_BPS_def
  next_slash_id_def challenge_window_def hash_commitment_def const_crypto_def drop_result_def
  ck_i128_def i128_ok_def ck_u64_def ck_u32_def div_i128_def signed_divide_int_def host_simps Let_def


section \<open>What slashing takes\<close>

definition keeps_stake :: "address \<Rightarrow> env \<Rightarrow> sm_call \<Rightarrow> bool" where
  "keeps_stake u e c \<longleftrightarrow> (\<forall>a n. c \<noteq> SM_SetStaked a u n)"

definition total_slashed :: "address \<Rightarrow> 'w sm_state \<Rightarrow> int" where
  "total_slashed u s = unwrap_or (sm_slashed s u) 0"

definition sm_bounded :: "address \<Rightarrow> int \<Rightarrow> int \<Rightarrow> 'w sm_state \<Rightarrow> bool" where
  "sm_bounded u cap tot s \<longleftrightarrow> 0 \<le> sm_staked_balance u s \<and> sm_staked_balance u s \<le> cap \<and>
     sm_staked_balance u s + total_slashed u s = tot \<and>
     (\<forall>i p. sm_pending s i = Some p \<longrightarrow> ps_actor p = u \<longrightarrow> 0 \<le> ps_amount p)"

lemma finalize_changes:
  assumes "finalize_slash e a i s = Inr s'"
  shows "sm_pending s' \<noteq> sm_pending s"
  using assms
proof (rule finalize_slash_effect)
  fix p
  assume "sm_pending s i = Some p" "ps_status p = SS_Pending"
    "sm_pending s' = (sm_pending s)(i \<mapsto> p\<lparr>ps_status := SS_Finalized\<rparr>)"
  then have "ps_status (the (sm_pending s' i)) \<noteq> ps_status (the (sm_pending s i))" by simp
  then show ?thesis by auto
qed

lemma sm_balance_frame:
  assumes "sm_exec hc e c s = Inr s'" and "keeps_stake u e c" and "\<forall>a i. c \<noteq> SM_Finalize a i"
  shows "sm_staked_balance u s' = sm_staked_balance u s" "total_slashed u s' = total_slashed u s"
  using assms by (cases c; auto simp: sm_defs submit_evidence_def propose_slash_def reveal_evidence_def
      cancel_slash_def sm_staked_balance_def total_slashed_def keeps_stake_def outcome_simps
      fail_if_Inr_iff host_simps Let_def dest!: next_slash_id_Inr split: option.splits if_splits)+

lemma sm_bounded_finalize:
  assumes "sm_bounded u cap tot s" and "finalize_slash e a i s = Inr s'"
  shows "sm_bounded u cap tot s'"
  using assms(2)
proof (rule finalize_slash_effect)
  fix p
  assume p: "sm_pending s i = Some p" "sm_pending s' = (sm_pending s)(i \<mapsto> p\<lparr>ps_status := SS_Finalized\<rparr>)"
    "(sm_staked s' = sm_staked s \<and> sm_slashed s' = sm_slashed s) \<or>
     (\<exists>k. k = min (ps_amount p) (sm_staked_balance (ps_actor p) s) \<and>
        sm_staked s' = (sm_staked s)(ps_actor p \<mapsto> sm_staked_balance (ps_actor p) s - k) \<and>
        sm_slashed s' = (sm_slashed s)(ps_actor p \<mapsto> unwrap_or (sm_slashed s (ps_actor p)) 0 + k))"
  have pend: "\<forall>j q. sm_pending s' j = Some q \<longrightarrow> ps_actor q = u \<longrightarrow> 0 \<le> ps_amount q"
    using assms(1) p(1,2) by (auto simp: sm_bounded_def)
  let ?k = "min (ps_amount p) (sm_staked_balance u s)"
  have "\<exists>k. (k = 0 \<or> ps_actor p = u \<and> k = ?k) \<and> sm_staked_balance u s' = sm_staked_balance u s - k \<and>
      total_slashed u s' = total_slashed u s + k"
    using p(3)
  proof
    assume "\<exists>k. k = min (ps_amount p) (sm_staked_balance (ps_actor p) s) \<and>
        sm_staked s' = (sm_staked s)(ps_actor p \<mapsto> sm_staked_balance (ps_actor p) s - k) \<and>
        sm_slashed s' = (sm_slashed s)(ps_actor p \<mapsto> unwrap_or (sm_slashed s (ps_actor p)) 0 + k)"
    then show ?thesis
      by (intro exI [of _ "if ps_actor p = u then ?k else 0"]) (auto simp: sm_staked_balance_def total_slashed_def)
  qed (auto simp: sm_staked_balance_def total_slashed_def)
  moreover have "ps_actor p = u \<Longrightarrow> 0 \<le> ?k" using assms(1) p(1) by (auto simp: sm_bounded_def)
  ultimately show ?thesis using pend assms(1) by (auto simp: sm_bounded_def)
qed

lemma sm_exec_bounded:
  assumes "sm_bounded u cap tot s" and "keeps_stake u e c" and "sm_exec hc e c s = Inr s'"
  shows "sm_bounded u cap tot s'"
  using assms(3)
proof (cases rule: sm_other_frame)
  case frame
  have "\<forall>a i. c \<noteq> SM_Finalize a i"
    using frame assms(3) by (auto simp: slash_frame_def dest: finalize_changes)
  with frame assms sm_balance_frame [OF assms(3,2)] show ?thesis by (auto simp: sm_bounded_def slash_frame_def)
next
  case (submit a h b off)
  with assms(3) obtain k where "submit_evidence e a h b off s = Inr (k, s')" by (auto simp: outcome_simps)
  from submit_evidence_effect [OF this] obtain p where p: "sm_pending s' = (sm_pending s)(k \<mapsto> p)"
    "ps_actor p = b" "ps_amount p = min ((sm_staked_balance b s * int (ps_penalty_bps p)) sdiv 10000) (sm_staked_balance b s)"
    by blast
  have "b = u \<Longrightarrow> 0 \<le> ps_amount p"
    using assms(1) by (auto simp: p(3) sm_bounded_def sdiv_nonneg intro: pos_imp_zdiv_nonneg_iff [THEN iffD2])
  with p submit assms(1) sm_balance_frame [OF assms(3,2)] show ?thesis
    by (auto simp: sm_bounded_def split: if_splits)
next
  case (propose a b n)
  with assms(3) obtain k where "propose_slash e a b n s = Inr (k, s')" by (auto simp: outcome_simps)
  from propose_slash_effect [OF this] propose assms(1) sm_balance_frame [OF assms(3,2)] show ?thesis
    by (auto simp: sm_bounded_def less_imp_le split: if_splits)
next
  case (reveal a i ev salt)
  with assms(3) have "reveal_evidence hc e a i ev salt s = Inr s'" by simp
  from reveal_evidence_effect [OF this] reveal assms(1) sm_balance_frame [OF assms(3,2)] show ?thesis
    by (auto simp: sm_bounded_def slash_frame_def)
next
  case (finalize a i)
  with assms(3) have "finalize_slash e a i s = Inr s'" by simp
  with assms(1) show ?thesis by (rule sm_bounded_finalize)
next
  case (cancel a i)
  with assms(3) have "cancel_slash e a i s = Inr s'" by simp
  from cancel_slash_effect [OF this] cancel assms(1) sm_balance_frame [OF assms(3,2)] show ?thesis
    by (auto simp: sm_bounded_def split: if_splits)
qed

interpretation sm_bounds: invariant_machine "sm_exec hc" "keeps_stake u" world_moves "sm_bounded u cap tot"
  for hc u cap tot
proof
  show "sm_bounded u cap tot s'" if "sm_bounded u cap tot s" "world_moves s s'" for s s' :: "'a sm_state"
    using that by (auto simp: world_moves_def sm_bounded_def sm_staked_balance_def total_slashed_def)
qed (rule sm_exec_bounded)

text \<open>Slashing is bounded and accounted for: as long as the admin does not reset an actor's staked
  balance, every history leaves the balance between zero and what it was, and the actor's recorded
  slashed amount grows by exactly what the balance lost, whatever slashes are committed, proposed,
  finalised twice over or cancelled.\<close>

theorem slashing_bounded:
  assumes "reach (sm_exec hc) (keeps_stake u) world_moves s0 s" and "0 \<le> sm_staked_balance u s0"
    and "\<forall>i p. sm_pending s0 i = Some p \<longrightarrow> ps_actor p = u \<longrightarrow> 0 \<le> ps_amount p"
  shows "0 \<le> sm_staked_balance u s \<and> sm_staked_balance u s \<le> sm_staked_balance u s0 \<and>
    total_slashed u s - total_slashed u s0 = sm_staked_balance u s0 - sm_staked_balance u s"
proof -
  have "sm_bounded u (sm_staked_balance u s0) (sm_staked_balance u s0 + total_slashed u s0) s0"
    using assms(2,3) by (simp add: sm_bounded_def)
  from sm_bounds.reach_inv [OF assms(1) this] show ?thesis by (simp add: sm_bounded_def)
qed

definition sm_sample_mid :: "unit sm_state" where
  "sm_sample_mid = run_calls (sm_exec const_crypto) (take 3 sm_sample_calls) (sm_fresh ())"

definition sm_sample_end :: "unit sm_state" where
  "sm_sample_end = run_calls (sm_exec const_crypto) (drop 3 sm_sample_calls) sm_sample_mid"

lemma slashing_bounded_witness:
  "sm_staked_balance (Address 5) sm_sample_end = 1800 \<and> total_slashed (Address 5) sm_sample_end = 200"
proof -
  have run: "reach (sm_exec const_crypto) (keeps_stake (Address 5)) world_moves sm_sample_mid sm_sample_end"
    unfolding sm_sample_end_def by (rule run_calls_reach) (simp add: sm_sample_calls_def keeps_stake_def)
  have mid: "sm_staked_balance (Address 5) sm_sample_mid = 2000" "total_slashed (Address 5) sm_sample_mid = 0"
    "\<forall>i p. sm_pending sm_sample_mid i = Some p \<longrightarrow> ps_actor p = Address 5 \<longrightarrow> 0 \<le> ps_amount p"
    by (simp_all add: sm_sample_mid_def sm_eval total_slashed_def)
  have "sm_staked_balance (Address 5) sm_sample_end = 1800"
    by (simp add: sm_sample_end_def sm_sample_mid_def sm_eval)
  with slashing_bounded [OF run _ mid(3)] mid show ?thesis by simp
qed

end
