(* ===== verification/Float64.thy ===== *)
theory Float64
  imports Soroban
begin

text \<open>
  The part of Rust's \<open>f64\<close> the contracts use: conversion from \<open>i128\<close>, division and multiplication,
  rounded to nearest with ties to even (IEEE 754 binary64), and the saturating conversion to
  \<open>u32\<close>.  A finite value is a pair \<open>(m, e)\<close> standing for \<open>m * 2 ^ e\<close> with a mantissa of at most 53
  bits.  The operands the contracts convert are below \<open>2 ^ 127\<close>, so no result leaves the normal range
  and infinities and subnormal numbers do not occur.
\<close>

type_synonym f64 = "int \<times> int"

text \<open>The number of binary digits of a non-negative integer.\<close>

function bit_len :: "int \<Rightarrow> int" where
  "bit_len n = (if n \<le> 0 then 0 else 1 + bit_len (n div 2))"
  by auto
termination by (relation "measure nat") auto

declare bit_len.simps [simp del]

text \<open>The quotient of \<open>a \<ge> 0\<close> by \<open>b > 0\<close> as the nearest integer, ties to even.\<close>

definition round_even :: "int \<Rightarrow> int \<Rightarrow> int" where
  "round_even a b =
     (let q = a div b; r = a mod b in
      if b < 2 * r \<or> (b = 2 * r \<and> odd q) then q + 1 else q)"

text \<open>The quotient scaled by \<open>2 ^ (- k)\<close>, as a fraction.\<close>

definition scaled :: "int \<Rightarrow> int \<Rightarrow> int \<Rightarrow> int \<times> int" where
  "scaled a b k = (if 0 \<le> k then (a, b * 2 ^ nat k) else (a * 2 ^ nat (- k), b))"

text \<open>\<open>a / b * 2 ^ e\<close> for \<open>a \<ge> 0\<close> and \<open>b > 0\<close>, rounded to 53 bits.\<close>

definition f64_ratio :: "int \<Rightarrow> int \<Rightarrow> int \<Rightarrow> f64" where
  "f64_ratio a b e =
     (if a = 0 then (0, 0)
      else
        let k = bit_len a - bit_len b - 53;
            (p, q) = scaled a b k;
            k = (if 2 ^ 53 * q \<le> p then k + 1 else k);
            (p, q) = scaled a b k
        in (round_even p q, e + k))"

definition f64_of_int :: "int \<Rightarrow> f64" where
  "f64_of_int n = (let (m, e) = f64_ratio \<bar>n\<bar> 1 0 in (sgn n * m, e))"

text \<open>Division by a value that is not zero.\<close>

definition f64_div :: "f64 \<Rightarrow> f64 \<Rightarrow> f64" where
  "f64_div x y =
     (let (m, e) = f64_ratio \<bar>fst x\<bar> \<bar>fst y\<bar> (snd x - snd y) in (sgn (fst x) * sgn (fst y) * m, e))"

definition f64_mul :: "f64 \<Rightarrow> f64 \<Rightarrow> f64" where
  "f64_mul x y =
     (let (m, e) = f64_ratio \<bar>fst x * fst y\<bar> 1 (snd x + snd y) in (sgn (fst x) * sgn (fst y) * m, e))"

text \<open>\<open>as u32\<close>: truncated towards zero, saturating at both ends.\<close>

definition f64_to_u32 :: "f64 \<Rightarrow> nat" where
  "f64_to_u32 x =
     (let m = max 0 (fst x); e = snd x;
          v = (if 0 \<le> e then m * 2 ^ nat e else m div 2 ^ nat (- e))
      in nat (min v (2 ^ 32 - 1)))"

section \<open>Rounding\<close>

lemma bit_len_bounds: "0 < n \<Longrightarrow> 0 < bit_len n \<and> 2 ^ nat (bit_len n - 1) \<le> n \<and> n < 2 ^ nat (bit_len n)"
proof (induction n rule: bit_len.induct)
  case (1 n)
  show ?case
  proof (cases "n = 1")
    case True
    then show ?thesis by (simp add: bit_len.simps)
  next
    case False
    with 1 have IH: "0 < bit_len (n div 2)" "2 ^ nat (bit_len (n div 2) - 1) \<le> n div 2" "n div 2 < 2 ^ nat (bit_len (n div 2))"
      by auto
    have len: "bit_len n = 1 + bit_len (n div 2)" using 1(2) by (simp add: bit_len.simps [of n])
    define h where "h = n div 2"
    define x :: int where "x = 2 ^ nat (bit_len h - 1)"
    have n: "2 * h \<le> n" "n \<le> 2 * h + 1" by (auto simp: h_def)
    have "nat (bit_len n) = Suc (Suc (nat (bit_len h - 1)))" "nat (bit_len n - 1) = Suc (nat (bit_len h - 1))"
      "nat (bit_len h) = Suc (nat (bit_len h - 1))"
      using IH(1) len by (auto simp: h_def)
    then have "2 ^ nat (bit_len n) = 4 * x" "2 ^ nat (bit_len n - 1) = 2 * x" "2 ^ nat (bit_len h) = 2 * x"
      by (simp_all add: x_def)
    with IH n len show ?thesis by (simp add: h_def [symmetric] x_def [symmetric])
  qed
qed

text \<open>The nearest integer is at most one half away.\<close>

lemma round_even_near:
  assumes "0 < b"
  shows "2 * (round_even a b * b - a) \<le> b \<and> 2 * (a - round_even a b * b) \<le> b"
proof -
  define q where "q = a div b"
  have "a = q * b + a mod b" "0 \<le> a mod b" "a mod b < b" using assms by (simp_all add: q_def)
  moreover have "round_even a b * b = q * b + (if b < 2 * (a mod b) \<or> (b = 2 * (a mod b) \<and> odd q) then b else 0)"
    by (simp add: round_even_def q_def Let_def algebra_simps)
  ultimately show ?thesis by (auto split: if_splits)
qed

end
