(* ===== verification/BondCollateral.thy ===== *)
theory BondCollateral
  imports AccessControl Pausable UpgradeGovernance Float64
begin

text \<open>
  Collateralised bonds (\<open>bond_collateral/src/lib.rs\<close>): positions of collateral against issued bonds,
  liquidated by keepers at an oracle's price, and the bonds of inspectors, which an operator locks
  and the admin slashes through the slashing module.  The token, the price feed and the slashing
  module are contracts the host calls; the model takes them as a parameter.
\<close>

section \<open>State and errors\<close>

datatype bc_error =
    BC_AlreadyInitialized
  | BC_NotAuthorized
  | BC_Paused
  | BC_InvalidAmount
  | BC_InsufficientCollateral
  | BC_PositionNotFound
  | BC_CannotLiquidate
  | BC_BelowThreshold
  | BC_InvalidThreshold
  | BC_InvalidRewardCap
  | BC_CollateralRatioTooLow
  | BC_NoSurplus
  | BC_BondLocked
  | BC_InsufficientBond
  | BC_LockAlreadyExists
  | BC_LockNotFound
  | BC_SlashingModuleNotSet
  | BC_OracleStale
  | BC_UpgradeAlreadyPending
  | BC_NoUpgradePending
  | BC_UpgradeDelayNotMet
  | BC_IncompatibleStateSchema
  | BC_InvalidUpgradeVersion

record position =
  po_owner :: address
  po_collateral :: int
  po_bond :: int
  po_created_at :: nat

record oracle_price =
  op_price :: int
  op_timestamp :: nat

record 'w bc_state = "'w ug_host" +
  bc_paused :: "bool option"
  bc_token :: "address option"
  bc_positions :: "bytes32 \<rightharpoonup> position"
  bc_total :: "int option"
  bc_warning :: "nat option"
  bc_liquidation :: "nat option"
  bc_reward_cap :: "nat option"
  bc_slashing_module :: "address option"
  bc_operator :: "address option"
  bc_bond :: "address \<rightharpoonup> int"
  bc_locks :: "address \<rightharpoonup> string list"
  bc_oracle_feed :: "address option"
  bc_oracle_staleness :: "nat option"
  bc_target_ratio :: "nat option"

text \<open>
  The contracts called: the token, the feed's \<open>price\<close> and the slashing module's \<open>slash\<close>, each in a
  world and giving the new one, or \<open>None\<close> when the call traps.
\<close>

record 'w bond_deps =
  bd_token :: "'w token_if"
  bd_price :: "env \<Rightarrow> address \<Rightarrow> 'w \<Rightarrow> (oracle_price \<times> 'w) option"
  bd_slash :: "env \<Rightarrow> address \<Rightarrow> address \<Rightarrow> int \<Rightarrow> string \<Rightarrow> string \<Rightarrow> 'w \<Rightarrow> 'w option"

definition PRICE_SCALE :: int where "PRICE_SCALE = 10000000"

section \<open>Helpers\<close>

definition bc_get_admin :: "'w bc_state \<Rightarrow> 'e fault + address" where
  "bc_get_admin s = expect (ug_admin s) ''admin not set''"

definition bc_get_token :: "'w bc_state \<Rightarrow> 'e fault + address" where
  "bc_get_token s = expect (bc_token s) ''token not set''"

definition bc_contract_version :: "'w bc_state \<Rightarrow> nat" where
  "bc_contract_version s = unwrap_or (ug_version s) 1"

definition bc_schema_version :: "'w bc_state \<Rightarrow> nat" where
  "bc_schema_version s = unwrap_or (ug_schema s) 1"

definition get_warning_threshold :: "'w bc_state \<Rightarrow> nat" where
  "get_warning_threshold s = unwrap_or (bc_warning s) 150"

definition get_liquidation_threshold :: "'w bc_state \<Rightarrow> nat" where
  "get_liquidation_threshold s = unwrap_or (bc_liquidation s) 120"

definition get_keeper_reward_cap :: "'w bc_state \<Rightarrow> nat" where
  "get_keeper_reward_cap s = unwrap_or (bc_reward_cap s) 500"

text \<open>\<open>100.0\<close> is the pair \<open>(100, 0)\<close>.\<close>

definition calculate_collateral_ratio :: "int \<Rightarrow> int \<Rightarrow> nat" where
  "calculate_collateral_ratio collateral bond =
     (if bond = 0 then 2 ^ 32 - 1
      else f64_to_u32 (f64_mul (f64_div (f64_of_int collateral) (f64_of_int bond)) (100, 0)))"

text \<open>The cast \<open>as u32\<close> of an \<open>i128\<close> keeps the low 32 bits.\<close>

definition calculate_collateral_ratio_oracle :: "int \<Rightarrow> int \<Rightarrow> int \<Rightarrow> bc_error fault + nat" where
  "calculate_collateral_ratio_oracle collateral bond price =
     (if bond = 0 then Inr (2 ^ 32 - 1)
      else if price = 0 then Inr 0
      else
      bindE (ck_i128 (collateral * price)) (\<lambda>product.
      bindE (ck_i128 (product * 100)) (\<lambda>numerator.
      bindE (ck_i128 (PRICE_SCALE * bond)) (\<lambda>denominator.
      bindE (div_i128 numerator denominator) (\<lambda>ratio.
      Inr (nat (ratio mod 2 ^ 32)))))))"

definition compute_seize_amount :: "int \<Rightarrow> int \<Rightarrow> int \<Rightarrow> nat \<Rightarrow> bc_error fault + int" where
  "compute_seize_amount collateral bond price target_ratio =
     (if target_ratio \<le> 100 \<or> price = 0 then Inr collateral
      else
      let target = int target_ratio in
      bindE (ck_i128 (target * bond)) (\<lambda>a.
      bindE (ck_i128 (a * PRICE_SCALE)) (\<lambda>a.
      bindE (ck_i128 (100 * collateral)) (\<lambda>b.
      bindE (ck_i128 (b * price)) (\<lambda>b.
      bindE (ck_i128 (a - b)) (\<lambda>numerator.
      bindE (ck_i128 (price * (target - 100))) (\<lambda>denominator.
      if denominator \<le> 0 then Inr collateral else div_i128 numerator denominator)))))))"

definition try_fetch_oracle_price ::
  "'w bond_deps \<Rightarrow> env \<Rightarrow> 'w bc_state \<Rightarrow> bc_error fault + oracle_price option \<times> 'w bc_state" where
  "try_fetch_oracle_price bd e s =
     (case bc_oracle_feed s of
        None \<Rightarrow> Inr (None, s)
      | Some feed \<Rightarrow>
          (case bd_price bd e feed (world s) of
             None \<Rightarrow> Inl (Trap CallTrap)
           | Some (price_data, w) \<Rightarrow> Inr (Some price_data, s\<lparr>world := w\<rparr>)))"

definition put_position :: "bytes32 \<Rightarrow> position \<Rightarrow> 'w bc_state \<Rightarrow> 'w bc_state" where
  "put_position position_id p s = s\<lparr>bc_positions := (bc_positions s)(position_id \<mapsto> p)\<rparr>"

definition remove_position :: "bytes32 \<Rightarrow> 'w bc_state \<Rightarrow> 'w bc_state" where
  "remove_position position_id s = s\<lparr>bc_positions := (bc_positions s)(position_id := None)\<rparr>"

definition get_total_collateral :: "'w bc_state \<Rightarrow> int" where
  "get_total_collateral s = unwrap_or (bc_total s) 0"

definition put_total_collateral :: "int \<Rightarrow> 'w bc_state \<Rightarrow> 'w bc_state" where
  "put_total_collateral total_now s = s\<lparr>bc_total := Some total_now\<rparr>"

definition get_inspector_bond :: "address \<Rightarrow> 'w bc_state \<Rightarrow> int" where
  "get_inspector_bond inspector s = unwrap_or (bc_bond s inspector) 0"

definition get_inspector_locks :: "address \<Rightarrow> 'w bc_state \<Rightarrow> string list" where
  "get_inspector_locks inspector s = unwrap_or (bc_locks s inspector) []"

definition bc_require_admin :: "env \<Rightarrow> address \<Rightarrow> 'w bc_state \<Rightarrow> bc_error fault + unit" where
  "bc_require_admin e caller s =
     bindE (bc_get_admin s) (\<lambda>admin.
     require_admin_permission e admin caller ''admin'' BC_NotAuthorized s)"

definition bc_paused_state :: "'w bc_state \<Rightarrow> bool" where
  "bc_paused_state s = unwrap_or (bc_paused s) False"

definition bc_require_not_paused :: "'w bc_state \<Rightarrow> bc_error fault + unit" where
  "bc_require_not_paused s = (if bc_paused_state s then Inl (Err BC_Paused) else Inr ())"

definition require_operator :: "env \<Rightarrow> address \<Rightarrow> 'w bc_state \<Rightarrow> bc_error fault + unit" where
  "require_operator e caller s =
     bindE (ok_or (bc_operator s) BC_NotAuthorized) (\<lambda>operator.
     require_admin_permission e operator caller ''operator'' BC_NotAuthorized s)"

section \<open>Administration\<close>

definition bc_init :: "env \<Rightarrow> address \<Rightarrow> address \<Rightarrow> 'w bc_state \<Rightarrow> bc_error fault + 'w bc_state" where
  "bc_init e admin token s =
     (if ug_admin s \<noteq> None then Inl (Err BC_AlreadyInitialized)
      else
      bindE (require_auth e admin) (\<lambda>_.
      Inr (publish [VSym ''bond_collateral'', VSym ''init''] [VAddr admin]
             (s\<lparr>ug_admin := Some admin, bc_token := Some token, ug_version := Some 1, ug_schema := Some 1,
                bc_total := Some 0, bc_warning := Some 150, bc_liquidation := Some 120,
                bc_reward_cap := Some 500\<rparr>))))"

definition bc_set_admin :: "env \<Rightarrow> address \<Rightarrow> address \<Rightarrow> 'w bc_state \<Rightarrow> bc_error fault + 'w bc_state" where
  "bc_set_admin e admin new_admin s =
     bindE (bc_require_not_paused s) (\<lambda>_.
     bindE (bc_get_admin s) (\<lambda>current_admin.
     bindE (require_admin_permission e current_admin admin ''set_admin'' BC_NotAuthorized s) (\<lambda>_.
     Inr (publish [VSym ''bond_collateral'', VSym ''set_admin''] [VAddr admin, VAddr new_admin]
            (s\<lparr>ug_admin := Some new_admin\<rparr>)))))"

definition set_thresholds ::
  "env \<Rightarrow> address \<Rightarrow> nat \<Rightarrow> nat \<Rightarrow> 'w bc_state \<Rightarrow> bc_error fault + 'w bc_state" where
  "set_thresholds e admin warning liquidation s =
     bindE (bc_require_not_paused s) (\<lambda>_.
     bindE (bc_get_admin s) (\<lambda>current_admin.
     bindE (require_admin_permission e current_admin admin ''set_thresholds'' BC_NotAuthorized s) (\<lambda>_.
     if warning \<le> liquidation \<or> liquidation < 100 then Inl (Err BC_InvalidThreshold)
     else Inr (publish [VSym ''bond_collateral'', VSym ''set_thresholds''] [VNat warning, VNat liquidation]
            (s\<lparr>bc_warning := Some warning, bc_liquidation := Some liquidation\<rparr>)))))"

definition set_keeper_reward_cap ::
  "env \<Rightarrow> address \<Rightarrow> nat \<Rightarrow> 'w bc_state \<Rightarrow> bc_error fault + 'w bc_state" where
  "set_keeper_reward_cap e admin cap_bps s =
     bindE (bc_require_not_paused s) (\<lambda>_.
     bindE (bc_get_admin s) (\<lambda>current_admin.
     bindE (require_admin_permission e current_admin admin ''set_keeper_reward_cap'' BC_NotAuthorized s) (\<lambda>_.
     if 5000 < cap_bps then Inl (Err BC_InvalidRewardCap)
     else Inr (publish [VSym ''bond_collateral'', VSym ''set_keeper_reward_cap''] [VNat cap_bps]
            (s\<lparr>bc_reward_cap := Some cap_bps\<rparr>)))))"

definition set_oracle_feed ::
  "env \<Rightarrow> address \<Rightarrow> address \<Rightarrow> nat \<Rightarrow> 'w bc_state \<Rightarrow> bc_error fault + 'w bc_state" where
  "set_oracle_feed e admin feed staleness s =
     bindE (bc_require_not_paused s) (\<lambda>_.
     bindE (bc_require_admin e admin s) (\<lambda>_.
     Inr (publish [VSym ''bond_collateral'', VSym ''oracle_feed_set''] [VAddr feed, VNat staleness]
            (s\<lparr>bc_oracle_feed := Some feed, bc_oracle_staleness := Some staleness\<rparr>))))"

definition set_target_health_ratio ::
  "env \<Rightarrow> address \<Rightarrow> nat \<Rightarrow> 'w bc_state \<Rightarrow> bc_error fault + 'w bc_state" where
  "set_target_health_ratio e admin ratio s =
     bindE (bc_require_not_paused s) (\<lambda>_.
     bindE (bc_require_admin e admin s) (\<lambda>_.
     if ratio \<le> 100 then Inl (Err BC_InvalidThreshold)
     else Inr (publish [VSym ''bond_collateral'', VSym ''target_health_set''] [VNat ratio]
            (s\<lparr>bc_target_ratio := Some ratio\<rparr>))))"

definition bc_set_guardian ::
  "env \<Rightarrow> address \<Rightarrow> address \<Rightarrow> 'w bc_state \<Rightarrow> bc_error fault + 'w bc_state" where
  "bc_set_guardian e admin guardian s =
     map_err (\<lambda>_. BC_NotAuthorized) (set_guardian e admin (Some guardian) ''bond_collateral'' s)"

definition bc_set_upgrade_delay ::
  "env \<Rightarrow> address \<Rightarrow> nat \<Rightarrow> 'w bc_state \<Rightarrow> bc_error fault + 'w bc_state" where
  "bc_set_upgrade_delay e admin delay_seconds s =
     map_err (\<lambda>_. BC_NotAuthorized) (set_upgrade_delay e admin delay_seconds ''bond_collateral'' s)"

fun bc_propose_error :: "ug_error \<Rightarrow> bc_error" where
  "bc_propose_error UG_NotAuthorized = BC_NotAuthorized"
| "bc_propose_error UG_UpgradeAlreadyPending = BC_UpgradeAlreadyPending"
| "bc_propose_error UG_InvalidUpgradeVersion = BC_InvalidUpgradeVersion"
| "bc_propose_error UG_IncompatibleSchemaVersion = BC_IncompatibleStateSchema"
| "bc_propose_error _ = BC_NotAuthorized"

definition bc_propose_upgrade ::
  "env \<Rightarrow> address \<Rightarrow> bytes32 \<Rightarrow> nat \<Rightarrow> 'w bc_state \<Rightarrow> bc_error fault + 'w bc_state" where
  "bc_propose_upgrade e admin new_wasm_hash new_version s =
     (let current_version = bc_contract_version s; schema_version = bc_schema_version s in
      if schema_version \<noteq> current_version then Inl (Err BC_IncompatibleStateSchema)
      else map_err bc_propose_error
             (propose_upgrade e admin new_wasm_hash new_version (Some schema_version)
                ''bond_collateral'' s))"

fun bc_execute_error :: "ug_error \<Rightarrow> bc_error" where
  "bc_execute_error UG_NotAuthorized = BC_NotAuthorized"
| "bc_execute_error UG_NoPendingUpgrade = BC_NoUpgradePending"
| "bc_execute_error UG_UpgradeDelayNotElapsed = BC_UpgradeDelayNotMet"
| "bc_execute_error _ = BC_NotAuthorized"

definition bc_execute_upgrade ::
  "env \<Rightarrow> address \<Rightarrow> bytes32 \<Rightarrow> 'w bc_state \<Rightarrow> bc_error fault + 'w bc_state" where
  "bc_execute_upgrade e admin new_wasm_hash s =
     map_err bc_execute_error (execute_upgrade e admin new_wasm_hash ''bond_collateral'' s)"

text \<open>All three branches of the error map of \<open>emergency_upgrade\<close> give \<open>NotAuthorized\<close>.\<close>

definition bc_emergency_upgrade ::
  "env \<Rightarrow> address \<Rightarrow> bytes32 \<Rightarrow> nat \<Rightarrow> 'w bc_state \<Rightarrow> bc_error fault + 'w bc_state" where
  "bc_emergency_upgrade e admin new_wasm_hash new_version s =
     (let current_version = bc_contract_version s; schema_version = bc_schema_version s in
      if schema_version \<noteq> current_version then Inl (Err BC_IncompatibleStateSchema)
      else map_err (\<lambda>_. BC_NotAuthorized)
             (emergency_upgrade e admin new_wasm_hash new_version (Some schema_version)
                ''bond_collateral'' True s))"

definition bc_cancel_upgrade :: "env \<Rightarrow> address \<Rightarrow> 'w bc_state \<Rightarrow> bc_error fault + 'w bc_state" where
  "bc_cancel_upgrade e admin s =
     bindE (bc_require_not_paused s) (\<lambda>_.
     bindE (bc_get_admin s) (\<lambda>current_admin.
     bindE (require_admin_permission e current_admin admin ''cancel_upgrade'' BC_NotAuthorized s) (\<lambda>_.
     if ug_pending_hash s = None then Inl (Err BC_NoUpgradePending)
     else Inr (publish [VSym ''bond_collateral'', VSym ''cancel_upgrade''] [VAddr admin]
            (s\<lparr>ug_pending_hash := None, ug_pending_at := None, ug_pending_version := None\<rparr>)))))"

section \<open>Positions\<close>

text \<open>The position stored, or a new one of this owner.\<close>

definition position_or_new :: "env \<Rightarrow> address \<Rightarrow> bytes32 \<Rightarrow> 'w bc_state \<Rightarrow> position" where
  "position_or_new e owner position_id s =
     unwrap_or (bc_positions s position_id)
       \<lparr>po_owner = owner, po_collateral = 0, po_bond = 0, po_created_at = timestamp e\<rparr>"

definition warn_if_below :: "address \<Rightarrow> bytes32 \<Rightarrow> nat \<Rightarrow> 'w bc_state \<Rightarrow> 'w bc_state" where
  "warn_if_below owner position_id ratio s =
     (if ratio < get_warning_threshold s
      then publish [VSym ''bond_collateral'', VSym ''warning_threshold_breached'', VAddr owner]
             [VBytes position_id, VNat ratio, VNat (get_warning_threshold s)] s
      else s)"

definition deposit_collateral ::
  "'w bond_deps \<Rightarrow> env \<Rightarrow> address \<Rightarrow> bytes32 \<Rightarrow> int \<Rightarrow> 'w bc_state \<Rightarrow> bc_error fault + 'w bc_state" where
  "deposit_collateral bd e owner position_id amount s =
     bindE (bc_require_not_paused s) (\<lambda>_.
     bindE (require_auth e owner) (\<lambda>_.
     if amount \<le> 0 then Inl (Err BC_InvalidAmount)
     else
     bindE (bc_get_token s) (\<lambda>token.
     bindE (token_transfer (bd_token bd) token owner (contract_addr e) amount s) (\<lambda>s.
     let position = position_or_new e owner position_id s in
     if po_owner position \<noteq> owner then Inl (Err BC_NotAuthorized)
     else
     bindE (ck_i128 (po_collateral position + amount)) (\<lambda>n.
     let position = position\<lparr>po_collateral := n, po_created_at := timestamp e\<rparr>;
         s = put_position position_id position s in
     bindE (ck_i128 (get_total_collateral s + amount)) (\<lambda>total_now.
     let s = put_total_collateral total_now s;
         ratio = calculate_collateral_ratio (po_collateral position) (po_bond position);
         s = publish [VSym ''bond_collateral'', VSym ''collateral_deposited'', VAddr owner]
               [VBytes position_id, VInt amount, VInt (po_collateral position), VNat ratio] s
     in Inr (warn_if_below owner position_id ratio s)))))))"

definition issue_bond ::
  "env \<Rightarrow> address \<Rightarrow> bytes32 \<Rightarrow> int \<Rightarrow> 'w bc_state \<Rightarrow> bc_error fault + 'w bc_state" where
  "issue_bond e owner position_id bond_amount s =
     bindE (bc_require_not_paused s) (\<lambda>_.
     bindE (require_auth e owner) (\<lambda>_.
     if bond_amount \<le> 0 then Inl (Err BC_InvalidAmount)
     else
     let position = position_or_new e owner position_id s in
     if po_owner position \<noteq> owner then Inl (Err BC_NotAuthorized)
     else
     bindE (ck_i128 (po_bond position + bond_amount)) (\<lambda>n.
     let position = position\<lparr>po_bond := n\<rparr>;
         ratio = calculate_collateral_ratio (po_collateral position) (po_bond position) in
     if ratio < get_liquidation_threshold s then Inl (Err BC_CollateralRatioTooLow)
     else
     let s = put_position position_id position s;
         s = publish [VSym ''bond_collateral'', VSym ''bond_issued'', VAddr owner]
               [VBytes position_id, VInt bond_amount, VInt (po_bond position), VNat ratio] s
     in Inr (warn_if_below owner position_id ratio s))))"

definition redeem_bond ::
  "env \<Rightarrow> address \<Rightarrow> bytes32 \<Rightarrow> int \<Rightarrow> 'w bc_state \<Rightarrow> bc_error fault + 'w bc_state" where
  "redeem_bond e owner position_id bond_amount s =
     bindE (bc_require_not_paused s) (\<lambda>_.
     bindE (require_auth e owner) (\<lambda>_.
     if bond_amount \<le> 0 then Inl (Err BC_InvalidAmount)
     else
     bindE (ok_or (bc_positions s position_id) BC_PositionNotFound) (\<lambda>position.
     if po_owner position \<noteq> owner then Inl (Err BC_NotAuthorized)
     else if po_bond position < bond_amount then Inl (Err BC_InsufficientCollateral)
     else
     bindE (ck_i128 (po_bond position - bond_amount)) (\<lambda>n.
     let position = position\<lparr>po_bond := n\<rparr>
     in Inr (publish [VSym ''bond_collateral'', VSym ''bond_redeemed'', VAddr owner]
               [VBytes position_id, VInt bond_amount, VInt (po_bond position)]
               (put_position position_id position s))))))"

definition withdraw_collateral ::
  "'w bond_deps \<Rightarrow> env \<Rightarrow> address \<Rightarrow> bytes32 \<Rightarrow> int \<Rightarrow> 'w bc_state \<Rightarrow> bc_error fault + 'w bc_state" where
  "withdraw_collateral bd e owner position_id amount s =
     bindE (bc_require_not_paused s) (\<lambda>_.
     bindE (require_auth e owner) (\<lambda>_.
     if amount \<le> 0 then Inl (Err BC_InvalidAmount)
     else
     bindE (ok_or (bc_positions s position_id) BC_PositionNotFound) (\<lambda>position.
     if po_owner position \<noteq> owner then Inl (Err BC_NotAuthorized)
     else if po_collateral position < amount then Inl (Err BC_InsufficientCollateral)
     else
     bindE (ck_i128 (po_collateral position - amount)) (\<lambda>new_collateral.
     let ratio = calculate_collateral_ratio new_collateral (po_bond position) in
     if 0 < po_bond position \<and> ratio < get_liquidation_threshold s then Inl (Err BC_BelowThreshold)
     else
     let position = position\<lparr>po_collateral := new_collateral\<rparr>;
         s = put_position position_id position s in
     bindE (bc_get_token s) (\<lambda>token.
     bindE (token_transfer (bd_token bd) token (contract_addr e) owner amount s) (\<lambda>s.
     bindE (ck_i128 (get_total_collateral s - amount)) (\<lambda>total_now.
     Inr (publish [VSym ''bond_collateral'', VSym ''collateral_withdrawn'', VAddr owner]
            [VBytes position_id, VInt amount, VInt new_collateral, VNat ratio]
            (put_total_collateral total_now s)))))))))"

text \<open>The price the liquidation uses: the feed's, unless stale, or 1:1 without a feed.\<close>

definition liquidation_price ::
  "env \<Rightarrow> oracle_price option \<Rightarrow> 'w bc_state \<Rightarrow> bc_error fault + int" where
  "liquidation_price e oracle_opt s =
     (case oracle_opt of
        Some op \<Rightarrow>
          bindE (ck_u64 (op_timestamp op + unwrap_or (bc_oracle_staleness s) 3600)) (\<lambda>limit.
          if limit < timestamp e then Inl (Err BC_OracleStale) else Inr (op_price op))
      | None \<Rightarrow> Inr PRICE_SCALE)"

text \<open>The event of a live feed, and the position accounting of a liquidation.\<close>

definition priced :: "bytes32 \<Rightarrow> oracle_price option \<Rightarrow> 'w bc_state \<Rightarrow> 'w bc_state" where
  "priced position_id oracle_opt s = (case oracle_opt of
       Some op \<Rightarrow> publish [VSym ''bond_collateral'', VSym ''oracle_priced'']
                    [VBytes position_id, VInt (op_price op), VNat (op_timestamp op)] s
     | None \<Rightarrow> s)"

definition liquidated ::
  "bytes32 \<Rightarrow> position \<Rightarrow> int \<Rightarrow> int \<Rightarrow> int \<Rightarrow> 'w bc_state \<Rightarrow> 'w bc_state" where
  "liquidated position_id position seize_amount new_collateral new_bond s =
     (if new_collateral = 0 \<or> new_bond = 0
      then put_total_collateral (saturating_sub (get_total_collateral s) (po_collateral position))
             (remove_position position_id s)
      else put_total_collateral (saturating_sub (get_total_collateral s) seize_amount)
             (put_position position_id
                (position\<lparr>po_collateral := new_collateral, po_bond := new_bond\<rparr>) s))"

definition pay_keeper ::
  "'w bond_deps \<Rightarrow> env \<Rightarrow> address \<Rightarrow> int \<Rightarrow> 'w bc_state \<Rightarrow> bc_error fault + 'w bc_state" where
  "pay_keeper bd e keeper keeper_reward s =
     (if 0 < keeper_reward
      then bindE (bc_get_token s) (\<lambda>token.
           token_transfer (bd_token bd) token (contract_addr e) keeper keeper_reward s)
      else Inr s)"

text \<open>The second half of \<open>liquidate\<close>: what is seized, retired and paid to the keeper.\<close>

definition settle_liquidation ::
  "'w bond_deps \<Rightarrow> env \<Rightarrow> address \<Rightarrow> bytes32 \<Rightarrow> position \<Rightarrow> int \<Rightarrow> int \<Rightarrow> 'w bc_state \<Rightarrow>
   bc_error fault + 'w bc_state" where
  "settle_liquidation bd e keeper position_id position price raw_seize s =
     (let collateral = po_collateral position; bond = po_bond position;
          seize_amount = min (max raw_seize 1) collateral in
     bindE (ck_i128 (seize_amount * price)) (\<lambda>value.
     bindE (div_i128 value PRICE_SCALE) (\<lambda>value.
     let bond_reduction = min value bond in
     bindE (ck_i128 (seize_amount * int (get_keeper_reward_cap s))) (\<lambda>reward.
     bindE (div_i128 reward 10000) (\<lambda>reward.
     let keeper_reward = min reward seize_amount in
     bindE (ck_i128 (collateral - seize_amount)) (\<lambda>new_collateral.
     bindE (ck_i128 (bond - bond_reduction)) (\<lambda>new_bond.
     bindE (calculate_collateral_ratio_oracle new_collateral new_bond price) (\<lambda>resulting_ratio.
     let s = liquidated position_id position seize_amount new_collateral new_bond s in
     bindE (pay_keeper bd e keeper keeper_reward s) (\<lambda>s.
     Inr (publish [VSym ''bond_collateral'', VSym ''position_liquidated'', VAddr keeper]
            [VBytes position_id, VAddr (po_owner position), VInt seize_amount, VNat resulting_ratio]
            s))))))))))"

definition liquidate ::
  "'w bond_deps \<Rightarrow> env \<Rightarrow> address \<Rightarrow> bytes32 \<Rightarrow> 'w bc_state \<Rightarrow> bc_error fault + 'w bc_state" where
  "liquidate bd e keeper position_id s =
     bindE (bc_require_not_paused s) (\<lambda>_.
     bindE (require_auth e keeper) (\<lambda>_.
     bindE (ok_or (bc_positions s position_id) BC_PositionNotFound) (\<lambda>position.
     let collateral = po_collateral position; bond = po_bond position in
     if bond = 0 \<or> collateral = 0 then Inl (Err BC_CannotLiquidate)
     else
     bindE (try_fetch_oracle_price bd e s) (\<lambda>(oracle_opt, s).
     bindE (liquidation_price e oracle_opt s) (\<lambda>price.
     bindE (calculate_collateral_ratio_oracle collateral bond price) (\<lambda>ratio.
     if get_liquidation_threshold s \<le> ratio then Inl (Err BC_CannotLiquidate)
     else
     let s = priced position_id oracle_opt s; target_ratio = unwrap_or (bc_target_ratio s) 150 in
     bindE (compute_seize_amount collateral bond price target_ratio) (\<lambda>raw_seize.
     settle_liquidation bd e keeper position_id position price raw_seize s)))))))"

definition get_collateral_ratio ::
  "'w bond_deps \<Rightarrow> env \<Rightarrow> bytes32 \<Rightarrow> 'w bc_state \<Rightarrow> bc_error fault + nat option" where
  "get_collateral_ratio bd e position_id s =
     (case bc_positions s position_id of
        None \<Rightarrow> Inr None
      | Some p \<Rightarrow>
          bindE (try_fetch_oracle_price bd e s) (\<lambda>(oracle_opt, s).
          bindE (calculate_collateral_ratio_oracle (po_collateral p) (po_bond p)
                   (case oracle_opt of Some op \<Rightarrow> op_price op | None \<Rightarrow> PRICE_SCALE)) (\<lambda>r.
          Inr (Some r))))"

section \<open>Bonds of inspectors\<close>

definition set_slashing_module ::
  "env \<Rightarrow> address \<Rightarrow> address \<Rightarrow> 'w bc_state \<Rightarrow> bc_error fault + 'w bc_state" where
  "set_slashing_module e admin slashing_module s =
     bindE (bc_require_not_paused s) (\<lambda>_.
     bindE (bc_require_admin e admin s) (\<lambda>_.
     Inr (publish [VSym ''bond'', VSym ''set_slashing''] [VAddr slashing_module]
            (s\<lparr>bc_slashing_module := Some slashing_module\<rparr>))))"

definition bc_set_operator :: "env \<Rightarrow> address \<Rightarrow> address \<Rightarrow> 'w bc_state \<Rightarrow> bc_error fault + 'w bc_state" where
  "bc_set_operator e admin operator s =
     bindE (bc_require_not_paused s) (\<lambda>_.
     bindE (bc_require_admin e admin s) (\<lambda>_.
     Inr (publish [VSym ''bond'', VSym ''set_operator''] [VAddr operator]
            (s\<lparr>bc_operator := Some operator\<rparr>))))"

definition deposit_bond :: "env \<Rightarrow> address \<Rightarrow> int \<Rightarrow> 'w bc_state \<Rightarrow> bc_error fault + 'w bc_state" where
  "deposit_bond e inspector amount s =
     bindE (bc_require_not_paused s) (\<lambda>_.
     bindE (require_auth e inspector) (\<lambda>_.
     if amount \<le> 0 then Inl (Err BC_InvalidAmount)
     else
     bindE (ck_i128 (get_inspector_bond inspector s + amount)) (\<lambda>n.
     Inr (publish [VSym ''bond'', VSym ''deposited'', VAddr inspector] [VInt amount]
            (s\<lparr>bc_bond := (bc_bond s)(inspector \<mapsto> n)\<rparr>)))))"

definition withdraw_bond :: "env \<Rightarrow> address \<Rightarrow> int \<Rightarrow> 'w bc_state \<Rightarrow> bc_error fault + 'w bc_state" where
  "withdraw_bond e inspector amount s =
     bindE (bc_require_not_paused s) (\<lambda>_.
     bindE (require_auth e inspector) (\<lambda>_.
     if amount \<le> 0 then Inl (Err BC_InvalidAmount)
     else if get_inspector_locks inspector s \<noteq> [] then Inl (Err BC_BondLocked)
     else
     let current = get_inspector_bond inspector s in
     if current < amount then Inl (Err BC_InsufficientBond)
     else
     bindE (ck_i128 (current - amount)) (\<lambda>n.
     Inr (publish [VSym ''bond'', VSym ''withdrawn'', VAddr inspector] [VInt amount]
            (s\<lparr>bc_bond := (bc_bond s)(inspector \<mapsto> n)\<rparr>)))))"

definition lock_bond ::
  "env \<Rightarrow> address \<Rightarrow> address \<Rightarrow> string \<Rightarrow> 'w bc_state \<Rightarrow> bc_error fault + 'w bc_state" where
  "lock_bond e operator inspector inspection_id s =
     bindE (bc_require_not_paused s) (\<lambda>_.
     bindE (require_operator e operator s) (\<lambda>_.
     let locks = get_inspector_locks inspector s in
     if list_ex (\<lambda>existing. existing = inspection_id) locks then Inl (Err BC_LockAlreadyExists)
     else Inr (publish [VSym ''bond'', VSym ''locked'', VAddr inspector] [VStr inspection_id]
            (s\<lparr>bc_locks := (bc_locks s)(inspector \<mapsto> locks @ [inspection_id])\<rparr>))))"

definition unlock_bond ::
  "env \<Rightarrow> address \<Rightarrow> address \<Rightarrow> string \<Rightarrow> 'w bc_state \<Rightarrow> bc_error fault + 'w bc_state" where
  "unlock_bond e operator inspector inspection_id s =
     bindE (bc_require_not_paused s) (\<lambda>_.
     bindE (require_operator e operator s) (\<lambda>_.
     let locks = get_inspector_locks inspector s in
     if \<not> list_ex (\<lambda>existing. existing = inspection_id) locks then Inl (Err BC_LockNotFound)
     else Inr (publish [VSym ''bond'', VSym ''unlocked'', VAddr inspector] [VStr inspection_id]
            (s\<lparr>bc_locks := (bc_locks s)(inspector \<mapsto>
                 filter (\<lambda>existing. existing \<noteq> inspection_id) locks)\<rparr>))))"

definition execute_slash ::
  "'w bond_deps \<Rightarrow> env \<Rightarrow> address \<Rightarrow> address \<Rightarrow> int \<Rightarrow> string \<Rightarrow> string \<Rightarrow> 'w bc_state \<Rightarrow>
   bc_error fault + 'w bc_state" where
  "execute_slash bd e admin inspector slash_amount inspection_id reason s =
     bindE (bc_require_not_paused s) (\<lambda>_.
     bindE (bc_require_admin e admin s) (\<lambda>_.
     if slash_amount \<le> 0 then Inl (Err BC_InvalidAmount)
     else
     let current = get_inspector_bond inspector s in
     if current < slash_amount then Inl (Err BC_InsufficientBond)
     else
     bindE (ok_or (bc_slashing_module s) BC_SlashingModuleNotSet) (\<lambda>slashing_module.
     case bd_slash bd e slashing_module inspector slash_amount inspection_id reason (world s) of
       None \<Rightarrow> Inl (Trap CallTrap)
     | Some w \<Rightarrow>
         let s = s\<lparr>world := w\<rparr> in
         bindE (ck_i128 (current - slash_amount)) (\<lambda>n.
         Inr (publish [VSym ''bond'', VSym ''slashed'', VAddr inspector]
                [VStr inspection_id, VInt slash_amount, VStr reason]
                (s\<lparr>bc_bond := (bc_bond s)(inspector \<mapsto> n)\<rparr>))))))"

section \<open>Pausing\<close>

text \<open>A failed \<open>require_auth\<close> and a missing admin trap; \<open>is_err\<close> sees only the error returned.\<close>

definition bc_pause :: "env \<Rightarrow> address \<Rightarrow> 'w bc_state \<Rightarrow> pausable_error fault + 'w bc_state" where
  "bc_pause e admin s =
     bindE (map_err (\<lambda>_. PE_NotAuthorized) (bc_require_admin e admin s)) (\<lambda>_.
     Inr (publish [VSym ''bond'', VSym ''paused''] [VAddr admin] (s\<lparr>bc_paused := Some True\<rparr>)))"

definition bc_unpause :: "env \<Rightarrow> address \<Rightarrow> 'w bc_state \<Rightarrow> pausable_error fault + 'w bc_state" where
  "bc_unpause e admin s =
     bindE (map_err (\<lambda>_. PE_NotAuthorized) (bc_require_admin e admin s)) (\<lambda>_.
     Inr (publish [VSym ''bond'', VSym ''unpaused''] [VAddr admin] (s\<lparr>bc_paused := Some False\<rparr>)))"

interpretation bc_pausable: pausable bc_pause bc_unpause bc_paused_state ug_admin
  by unfold_locales
    (auto simp: bc_pause_def bc_unpause_def bc_paused_state_def bc_require_admin_def bc_get_admin_def
      outcome_simps host_simps)

section \<open>The contract as a machine\<close>

datatype bc_call =
    BC_Init address address
  | BC_SetAdmin address address
  | BC_SetThresholds address nat nat
  | BC_SetRewardCap address nat
  | BC_SetOracleFeed address address nat
  | BC_SetTargetRatio address nat
  | BC_SetGuardian address address
  | BC_SetUpgradeDelay address nat
  | BC_ProposeUpgrade address bytes32 nat
  | BC_ExecuteUpgrade address bytes32
  | BC_EmergencyUpgrade address bytes32 nat
  | BC_CancelUpgrade address
  | BC_Deposit address bytes32 int
  | BC_IssueBond address bytes32 int
  | BC_RedeemBond address bytes32 int
  | BC_Withdraw address bytes32 int
  | BC_Liquidate address bytes32
  | BC_SetSlashingModule address address
  | BC_SetOperator address address
  | BC_DepositBond address int
  | BC_WithdrawBond address int
  | BC_LockBond address address string
  | BC_UnlockBond address address string
  | BC_ExecuteSlash address address int string string
  | BC_Pause address
  | BC_Unpause address

datatype bc_any_error = BC_Contract bc_error | BC_Pausable pausable_error

fun bc_exec :: "'w bond_deps \<Rightarrow> env \<Rightarrow> bc_call \<Rightarrow> 'w bc_state \<Rightarrow> bc_any_error fault + 'w bc_state" where
  "bc_exec bd e (BC_Init a t) s = map_err BC_Contract (bc_init e a t s)"
| "bc_exec bd e (BC_SetAdmin a b) s = map_err BC_Contract (bc_set_admin e a b s)"
| "bc_exec bd e (BC_SetThresholds a i j) s = map_err BC_Contract (set_thresholds e a i j s)"
| "bc_exec bd e (BC_SetRewardCap a n) s = map_err BC_Contract (set_keeper_reward_cap e a n s)"
| "bc_exec bd e (BC_SetOracleFeed a f n) s = map_err BC_Contract (set_oracle_feed e a f n s)"
| "bc_exec bd e (BC_SetTargetRatio a n) s = map_err BC_Contract (set_target_health_ratio e a n s)"
| "bc_exec bd e (BC_SetGuardian a g) s = map_err BC_Contract (bc_set_guardian e a g s)"
| "bc_exec bd e (BC_SetUpgradeDelay a n) s = map_err BC_Contract (bc_set_upgrade_delay e a n s)"
| "bc_exec bd e (BC_ProposeUpgrade a h v) s = map_err BC_Contract (bc_propose_upgrade e a h v s)"
| "bc_exec bd e (BC_ExecuteUpgrade a h) s = map_err BC_Contract (bc_execute_upgrade e a h s)"
| "bc_exec bd e (BC_EmergencyUpgrade a h v) s = map_err BC_Contract (bc_emergency_upgrade e a h v s)"
| "bc_exec bd e (BC_CancelUpgrade a) s = map_err BC_Contract (bc_cancel_upgrade e a s)"
| "bc_exec bd e (BC_Deposit a k n) s = map_err BC_Contract (deposit_collateral bd e a k n s)"
| "bc_exec bd e (BC_IssueBond a k n) s = map_err BC_Contract (issue_bond e a k n s)"
| "bc_exec bd e (BC_RedeemBond a k n) s = map_err BC_Contract (redeem_bond e a k n s)"
| "bc_exec bd e (BC_Withdraw a k n) s = map_err BC_Contract (withdraw_collateral bd e a k n s)"
| "bc_exec bd e (BC_Liquidate a k) s = map_err BC_Contract (liquidate bd e a k s)"
| "bc_exec bd e (BC_SetSlashingModule a b) s = map_err BC_Contract (set_slashing_module e a b s)"
| "bc_exec bd e (BC_SetOperator a b) s = map_err BC_Contract (bc_set_operator e a b s)"
| "bc_exec bd e (BC_DepositBond a n) s = map_err BC_Contract (deposit_bond e a n s)"
| "bc_exec bd e (BC_WithdrawBond a n) s = map_err BC_Contract (withdraw_bond e a n s)"
| "bc_exec bd e (BC_LockBond a b i) s = map_err BC_Contract (lock_bond e a b i s)"
| "bc_exec bd e (BC_UnlockBond a b i) s = map_err BC_Contract (unlock_bond e a b i s)"
| "bc_exec bd e (BC_ExecuteSlash a b n i r) s = map_err BC_Contract (execute_slash bd e a b n i r s)"
| "bc_exec bd e (BC_Pause a) s = map_err BC_Pausable (bc_pause e a s)"
| "bc_exec bd e (BC_Unpause a) s = map_err BC_Pausable (bc_unpause e a s)"

definition bc_fresh :: "'w \<Rightarrow> 'w bc_state" where
  "bc_fresh w = \<lparr>events = [], world = w, ug_admin = None, ug_guardian = None, ug_pending_hash = None,
     ug_pending_at = None, ug_pending_version = None, ug_version = None, ug_delay = None, ug_schema = None,
     ug_wasm = None, bc_paused = None, bc_token = None, bc_positions = Map.empty, bc_total = None,
     bc_warning = None, bc_liquidation = None, bc_reward_cap = None, bc_slashing_module = None,
     bc_operator = None, bc_bond = Map.empty, bc_locks = Map.empty, bc_oracle_feed = None,
     bc_oracle_staleness = None, bc_target_ratio = None\<rparr>"

lemmas bc_admin_defs = bc_set_admin_def set_thresholds_def set_keeper_reward_cap_def set_oracle_feed_def
  set_target_health_ratio_def bc_set_guardian_def bc_set_upgrade_delay_def bc_propose_upgrade_def
  bc_execute_upgrade_def bc_emergency_upgrade_def bc_cancel_upgrade_def set_slashing_module_def
  bc_set_operator_def deposit_bond_def withdraw_bond_def lock_bond_def unlock_bond_def bc_pause_def
  bc_unpause_def set_guardian_def set_upgrade_delay_def propose_upgrade_def execute_upgrade_def
  emergency_upgrade_def

section \<open>Custody of the collateral\<close>

text \<open>
  What the contract relies on of the contracts it calls: the token moves what it says, and the feed
  and the slashing module cannot spend this contract's tokens (they would need its authorisation).
\<close>

definition deps_ok :: "'w bond_deps \<Rightarrow> address \<Rightarrow> address \<Rightarrow> bool" where
  "deps_ok bd token self \<longleftrightarrow> sep41 (bd_token bd) \<and>
     (\<forall>e feed w p w'. bd_price bd e feed w = Some (p, w') \<longrightarrow>
        tk_balance (bd_token bd) token self w \<le> tk_balance (bd_token bd) token self w') \<and>
     (\<forall>e m u n i r w w'. bd_slash bd e m u n i r w = Some w' \<longrightarrow>
        tk_balance (bd_token bd) token self w \<le> tk_balance (bd_token bd) token self w')"

definition collateral_sum :: "(bytes32 \<rightharpoonup> position) \<Rightarrow> int" where
  "collateral_sum m = msum (\<lambda>_. po_collateral) m"

definition bc_books :: "'w bond_deps \<Rightarrow> address \<Rightarrow> address \<Rightarrow> 'w bc_state \<Rightarrow> bool" where
  "bc_books bd token self s \<longleftrightarrow> deps_ok bd token self \<and> bc_token s = Some token \<and> ug_admin s \<noteq> None \<and>
     finite (dom (bc_positions s)) \<and> (\<forall>k p. bc_positions s k = Some p \<longrightarrow> 0 \<le> po_collateral p) \<and>
     get_total_collateral s = collateral_sum (bc_positions s) \<and> i128_ok (get_total_collateral s)"

text \<open>A step of the books: they stay right, and the balance covers the change.\<close>

definition bc_step :: "'w bond_deps \<Rightarrow> address \<Rightarrow> address \<Rightarrow> 'w bc_state \<Rightarrow> 'w bc_state \<Rightarrow> bool" where
  "bc_step bd token self s s' \<longleftrightarrow> bc_books bd token self s' \<and>
     get_total_collateral s' - get_total_collateral s \<le>
       holding (bd_token bd) token self s' - holding (bd_token bd) token self s"

definition at_bond :: "address \<Rightarrow> env \<Rightarrow> bc_call \<Rightarrow> bool" where
  "at_bond self e c \<longleftrightarrow> host_env self e"

text \<open>The part of the state the books speak of.\<close>

definition bc_core where
  "bc_core s = (bc_token s, ug_admin s \<noteq> None, bc_positions s, bc_total s)"

lemma bc_core_writes [simp]:
  "bc_core (publish t d s) = bc_core s"
  "bc_core (warn_if_below a k n s) = bc_core s"
  "world (publish t d s) = world s"
  "world (warn_if_below a k n s) = world s"
  "world (put_position k p s) = world s"
  "world (remove_position k s) = world s"
  "world (put_total_collateral tot s) = world s"
  by (simp_all add: bc_core_def host_simps warn_if_below_def put_position_def remove_position_def
      put_total_collateral_def)

lemma bc_step_same:
  assumes "bc_books bd token self s" and "bc_core s' = bc_core s"
    and "tk_balance (bd_token bd) token self (world s) \<le> tk_balance (bd_token bd) token self (world s')"
  shows "bc_step bd token self s s'"
  using assms by (auto simp: bc_step_def bc_books_def bc_core_def holding_def get_total_collateral_def)

lemma bc_other_calls:
  assumes "bc_exec bd e c s = Inr s'" and "ug_admin s \<noteq> None"
  obtains (frame) "bc_core s' = bc_core s" "world s' = world s"
  | (deposit) a k n where "deposit_collateral bd e a k n s = Inr s'"
  | (issue) a k n where "issue_bond e a k n s = Inr s'"
  | (redeem) a k n where "redeem_bond e a k n s = Inr s'"
  | (withdraw) a k n where "withdraw_collateral bd e a k n s = Inr s'"
  | (liquidate) a k where "liquidate bd e a k s = Inr s'"
  | (slash) a b n i r where "execute_slash bd e a b n i r s = Inr s'"
  using assms by (cases c) (auto simp: bc_init_def bc_admin_defs bc_core_def clear_pending_def outcome_simps
      fail_if_Inr_iff host_simps Let_def ug_get_admin_def split: if_splits)

text \<open>One position is rewritten and the total follows.\<close>

lemma bc_write_position:
  assumes "bc_books bd token self s"
    and "bc_token s' = Some token" "ug_admin s' \<noteq> None"
    and "bc_positions s' = (bc_positions s)(k := po)" and "\<forall>p. po = Some p \<longrightarrow> 0 \<le> po_collateral p"
    and "get_total_collateral s' = get_total_collateral s -
           (case bc_positions s k of None \<Rightarrow> 0 | Some p \<Rightarrow> po_collateral p) +
           (case po of None \<Rightarrow> 0 | Some p \<Rightarrow> po_collateral p)"
    and "i128_ok (get_total_collateral s')"
    and "get_total_collateral s' - get_total_collateral s \<le>
           holding (bd_token bd) token self s' - holding (bd_token bd) token self s"
  shows "bc_step bd token self s s'"
proof -
  have fin: "finite (dom (bc_positions s))" using assms(1) by (simp add: bc_books_def)
  have "collateral_sum ((bc_positions s)(k := po)) = collateral_sum (bc_positions s) -
      (case bc_positions s k of None \<Rightarrow> 0 | Some p \<Rightarrow> po_collateral p) +
      (case po of None \<Rightarrow> 0 | Some p \<Rightarrow> po_collateral p)"
    using fin by (cases po) (simp_all add: collateral_sum_def msum_upd msum_delete)
  with assms show ?thesis by (auto simp: bc_step_def bc_books_def split: if_splits)
qed

lemma bc_books_write:
  "bc_token (put_position k p s) = bc_token s" "bc_token (remove_position k s) = bc_token s"
  "bc_token (put_total_collateral n s) = bc_token s"
  "ug_admin (put_position k p s) = ug_admin s" "ug_admin (remove_position k s) = ug_admin s"
  "ug_admin (put_total_collateral n s) = ug_admin s"
  "bc_positions (put_position k p s) = (bc_positions s)(k \<mapsto> p)"
  "bc_positions (remove_position k s) = (bc_positions s)(k := None)"
  "bc_positions (put_total_collateral n s) = bc_positions s"
  "get_total_collateral (put_position k p s) = get_total_collateral s"
  "get_total_collateral (remove_position k s) = get_total_collateral s"
  "get_total_collateral (put_total_collateral n s) = n"
  "bc_token (publish t d s) = bc_token s" "ug_admin (publish t d s) = ug_admin s"
  "bc_positions (publish t d s) = bc_positions s"
  "get_total_collateral (publish t d s) = get_total_collateral s"
  "bc_token (warn_if_below a k m s) = bc_token s" "ug_admin (warn_if_below a k m s) = ug_admin s"
  "bc_positions (warn_if_below a k m s) = bc_positions s"
  "get_total_collateral (warn_if_below a k m s) = get_total_collateral s"
  "bc_token (s\<lparr>world := w\<rparr>) = bc_token s" "bc_positions (s\<lparr>world := w\<rparr>) = bc_positions s"
  "get_total_collateral (s\<lparr>world := w\<rparr>) = get_total_collateral s"
  by (simp_all add: put_position_def remove_position_def put_total_collateral_def get_total_collateral_def
      warn_if_below_def host_simps)

lemma bc_booksD:
  assumes "bc_books bd token self s"
  shows "bc_token s = Some token" "ug_admin s \<noteq> None" "sep41 (bd_token bd)"
    "bc_positions s k = Some p \<Longrightarrow> 0 \<le> po_collateral p"
    "bd_price bd e feed w = Some (pr, w') \<Longrightarrow>
       tk_balance (bd_token bd) token self w \<le> tk_balance (bd_token bd) token self w'"
    "bd_slash bd e m u n i r w = Some w' \<Longrightarrow>
       tk_balance (bd_token bd) token self w \<le> tk_balance (bd_token bd) token self w'"
    "i128_ok (get_total_collateral s)"
  using assms by (auto simp: bc_books_def deps_ok_def)

lemma deposit_step:
  assumes books: "bc_books bd token self s" and env: "host_env self e"
    and run: "deposit_collateral bd e u k n s = Inr s'"
  shows "bc_step bd token self s s'"
proof -
  let ?p = "position_or_new e u k s"
  from run books obtain w ev where auth: "authorized e u" and n: "0 < n"
    and tr: "tk_transfer (bd_token bd) token u self n (world s) = Some w"
    and ok: "i128_ok (get_total_collateral s + n)"
    and w: "world s' = w" and s': "bc_token s' = Some token" "ug_admin s' \<noteq> None"
      "bc_positions s' = (bc_positions s)(k \<mapsto> ?p\<lparr>po_collateral := po_collateral ?p + n, po_created_at := timestamp e\<rparr>)"
      "get_total_collateral s' = get_total_collateral s + n"
    using env bc_booksD(1,2) [OF books]
    by (auto simp: deposit_collateral_def outcome_simps fail_if_Inr_iff Let_def bc_get_token_def
        bc_books_write host_env_def position_or_new_def)
  have "u \<noteq> self" using auth env by (auto simp: host_env_def)
  then have "tk_balance (bd_token bd) token self w = tk_balance (bd_token bd) token self (world s) + n"
    using sep41D [OF bc_booksD(3) [OF books] tr, of self] by (simp add: moved_simps)
  moreover have "0 \<le> po_collateral ?p"
    using bc_booksD(4) [OF books, of k] by (cases "bc_positions s k") (auto simp: position_or_new_def)
  moreover have "(case bc_positions s k of None \<Rightarrow> 0 | Some p \<Rightarrow> po_collateral p) = po_collateral ?p"
    by (cases "bc_positions s k") (auto simp: position_or_new_def)
  ultimately show ?thesis
    by (intro bc_write_position [OF books s'(1-3)]) (use n ok w s' in \<open>auto simp: holding_def\<close>)
qed

lemma issue_step:
  assumes books: "bc_books bd token self s" and run: "issue_bond e u k n s = Inr s'"
  shows "bc_step bd token self s s'"
proof -
  let ?p = "position_or_new e u k s"
  from run obtain b where w: "world s' = world s" and s': "bc_token s' = bc_token s" "ug_admin s' = ug_admin s"
      "bc_positions s' = (bc_positions s)(k \<mapsto> ?p\<lparr>po_bond := b\<rparr>)"
      "get_total_collateral s' = get_total_collateral s"
    by (auto simp: issue_bond_def outcome_simps fail_if_Inr_iff Let_def bc_books_write)
  have "0 \<le> po_collateral ?p"
    using bc_booksD(4) [OF books, of k] by (cases "bc_positions s k") (auto simp: position_or_new_def)
  moreover have "(case bc_positions s k of None \<Rightarrow> 0 | Some p \<Rightarrow> po_collateral p) = po_collateral ?p"
    by (cases "bc_positions s k") (auto simp: position_or_new_def)
  ultimately show ?thesis
    by (intro bc_write_position [OF books _ _ s'(3)])
      (use bc_booksD(1,2,7) [OF books] w s' in \<open>auto simp: holding_def\<close>)
qed

lemma redeem_step:
  assumes books: "bc_books bd token self s" and run: "redeem_bond e u k n s = Inr s'"
  shows "bc_step bd token self s s'"
proof -
  from run obtain p b where p: "bc_positions s k = Some p" and w: "world s' = world s"
    and s': "bc_token s' = bc_token s" "ug_admin s' = ug_admin s"
      "bc_positions s' = (bc_positions s)(k \<mapsto> p\<lparr>po_bond := b\<rparr>)"
      "get_total_collateral s' = get_total_collateral s"
    by (auto simp: redeem_bond_def outcome_simps fail_if_Inr_iff Let_def bc_books_write)
  then show ?thesis
    by (intro bc_write_position [OF books _ _ s'(3)])
      (use bc_booksD(1,2,7) [OF books] bc_booksD(4) [OF books p] in \<open>auto simp: holding_def\<close>)
qed

lemma withdraw_step:
  assumes books: "bc_books bd token self s" and env: "host_env self e"
    and run: "withdraw_collateral bd e u k n s = Inr s'"
  shows "bc_step bd token self s s'"
proof -
  from run obtain p w where auth: "authorized e u" and p: "bc_positions s k = Some p"
    and n: "0 < n" "n \<le> po_collateral p"
    and tr: "tk_transfer (bd_token bd) token self u n (world s) = Some w"
    and ok: "i128_ok (get_total_collateral s - n)"
    and w: "world s' = w" and s': "bc_token s' = Some token" "ug_admin s' = ug_admin s"
      "bc_positions s' = (bc_positions s)(k \<mapsto> p\<lparr>po_collateral := po_collateral p - n\<rparr>)"
      "get_total_collateral s' = get_total_collateral s - n"
    using env bc_booksD(1,2) [OF books]
    by (auto simp: withdraw_collateral_def outcome_simps fail_if_Inr_iff Let_def bc_get_token_def
        bc_books_write host_env_def)
  have "u \<noteq> self" using auth env by (auto simp: host_env_def)
  then have "tk_balance (bd_token bd) token self w = tk_balance (bd_token bd) token self (world s) - n"
    using sep41D [OF bc_booksD(3) [OF books] tr, of self] by (simp add: moved_simps)
  then show ?thesis
    by (intro bc_write_position [OF books s'(1) _ s'(3)])
      (use bc_booksD(2) [OF books] n p ok w s' in \<open>auto simp: holding_def\<close>)
qed

lemma slash_step:
  assumes books: "bc_books bd token self s" and run: "execute_slash bd e a u n i r s = Inr s'"
  shows "bc_step bd token self s s'"
proof -
  from run obtain m w where w: "bd_slash bd e m u n i r (world s) = Some w" "world s' = w"
    and core: "bc_core s' = bc_core s"
    by (auto simp: execute_slash_def outcome_simps fail_if_Inr_iff Let_def host_simps bc_core_def
        split: option.splits)
  then show ?thesis using bc_booksD(6) [OF books w(1)] by (intro bc_step_same [OF books]) auto
qed

lemma fetch_price_books:
  "try_fetch_oracle_price bd e s = Inr (pr, s1) \<Longrightarrow> bc_books bd token self s \<Longrightarrow>
     bc_core s1 = bc_core s \<and>
     tk_balance (bd_token bd) token self (world s) \<le> tk_balance (bd_token bd) token self (world s1)"
  by (auto simp: try_fetch_oracle_price_def bc_core_def dest: bc_booksD(5) split: option.splits)

lemma priced_simps [simp]:
  "bc_core (priced k pr s) = bc_core s" "world (priced k pr s) = world s"
  by (simp_all add: priced_def split: option.splits)

lemma liquidate_Inr:
  "liquidate bd e a k s = Inr s' \<Longrightarrow>
   \<exists>p pr s1 price raw. bc_positions s k = Some p \<and> po_collateral p \<noteq> 0 \<and> authorized e a \<and>
     try_fetch_oracle_price bd e s = Inr (pr, s1) \<and>
     settle_liquidation bd e a k p price raw (priced k pr s1) = Inr s'"
  by (fastforce simp: liquidate_def outcome_simps fail_if_Inr_iff Let_def)

lemma settle_liquidation_Inr:
  assumes "settle_liquidation bd e a k p price raw s = Inr s'"
  obtains seize new_bond rate s3 where "seize = min (max raw 1) (po_collateral p)"
    "pay_keeper bd e a (min rate seize) (liquidated k p seize (po_collateral p - seize) new_bond s) = Inr s3"
    "bc_core s' = bc_core s3" "world s' = world s3"
proof -
  define seize where "seize = min (max raw 1) (po_collateral p)"
  from assms obtain s3 where
    "pay_keeper bd e a (min (seize * int (get_keeper_reward_cap s) sdiv 10000) seize)
       (liquidated k p seize (po_collateral p - seize)
          (po_bond p - min (seize * price sdiv PRICE_SCALE) (po_bond p)) s) = Inr s3"
    "bc_core s' = bc_core s3" "world s' = world s3"
    unfolding settle_liquidation_def Let_def seize_def [symmetric] by (auto simp: outcome_simps)
  with that [OF seize_def] show thesis by blast
qed

lemma liquidate_step:
  assumes books: "bc_books bd token self s" and env: "host_env self e"
    and run: "liquidate bd e a k s = Inr s'"
  shows "bc_step bd token self s s'"
proof -
  from liquidate_Inr [OF run] obtain p pr s1 price raw where
    p: "bc_positions s k = Some p" "po_collateral p \<noteq> 0" and auth: "authorized e a"
    and fetch: "try_fetch_oracle_price bd e s = Inr (pr, s1)"
    and settle: "settle_liquidation bd e a k p price raw (priced k pr s1) = Inr s'"
    by blast
  obtain seize new_bond rate s3 where amounts: "seize = min (max raw 1) (po_collateral p)"
    and pay: "pay_keeper bd e a (min rate seize)
        (liquidated k p seize (po_collateral p - seize) new_bond (priced k pr s1)) = Inr s3"
    and s': "bc_core s' = bc_core s3" "world s' = world s3"
    by (rule settle_liquidation_Inr [OF settle])
  define s2 where "s2 = liquidated k p seize (po_collateral p - seize) new_bond (priced k pr s1)"
  note s2 = s2_def
  let ?reward = "min rate seize"
  have pos: "0 < po_collateral p" using bc_booksD(4) [OF books p(1)] p(2) by simp
  then have seize: "0 < seize" "seize \<le> po_collateral p" using amounts by auto
  from fetch_price_books [OF fetch books] have core1: "bc_core (priced k pr s1) = bc_core s"
    and bal1: "tk_balance (bd_token bd) token self (world s) \<le> tk_balance (bd_token bd) token self (world s1)"
    by auto
  have total: "po_collateral p \<le> get_total_collateral s"
    using books p(1) msum_member_le [of "bc_positions s" k p "\<lambda>_. po_collateral"]
    by (auto simp: bc_books_def collateral_sum_def)
  have sat: "saturating_sub (get_total_collateral s) n = get_total_collateral s - n \<and>
      i128_ok (get_total_collateral s - n)" if "0 < n" "n \<le> po_collateral p" for n
    using that total bc_booksD(7) [OF books] by (auto simp: saturating_sub_def i128_ok_def)
  have tot1: "get_total_collateral (priced k pr s1) = get_total_collateral s"
    "bc_positions (priced k pr s1) = bc_positions s" "bc_token (priced k pr s1) = Some token"
    "ug_admin (priced k pr s1) \<noteq> None"
    using core1 bc_booksD(1,2) [OF books] by (auto simp: bc_core_def get_total_collateral_def)
  have world2: "world s2 = world s1" "bc_token s2 = Some token"
    by (simp_all add: s2 liquidated_def bc_books_write tot1)
  have bal3: "tk_balance (bd_token bd) token self (world s1) - seize \<le>
      tk_balance (bd_token bd) token self (world s')" and core3: "bc_core s' = bc_core s2"
  proof -
    have "a \<noteq> self" using auth env by (auto simp: host_env_def)
    with pay world2 env sep41D [OF bc_booksD(3) [OF books], of token self a ?reward "world s1" "world s3" self]
    show "tk_balance (bd_token bd) token self (world s1) - seize \<le> tk_balance (bd_token bd) token self (world s')"
      using s'(2) seize(1) by (auto simp: pay_keeper_def s2_def [symmetric] outcome_simps bc_get_token_def
          host_env_def moved_simps split: if_splits)
    show "bc_core s' = bc_core s2"
      using pay s'(1) by (auto simp: pay_keeper_def s2_def [symmetric] outcome_simps bc_core_def split: if_splits)
  qed
  have s'_core: "bc_token s' = bc_token s2" "ug_admin s' \<noteq> None \<longleftrightarrow> ug_admin s2 \<noteq> None"
    "bc_positions s' = bc_positions s2" "get_total_collateral s' = get_total_collateral s2"
    using core3 by (auto simp: bc_core_def get_total_collateral_def)
  show ?thesis
    by (rule bc_write_position [OF books, where k = k and po = "bc_positions s' k"])
      (use s'_core sat [of seize] sat [of "po_collateral p"] seize pos bal1 bal3 p tot1 in
        \<open>auto simp: s2 liquidated_def bc_books_write holding_def split: if_splits\<close>)
qed

lemma bc_exec_step:
  assumes "bc_books bd token self s" and "at_bond self e c" and "bc_exec bd e c s = Inr s'"
  shows "bc_step bd token self s s'"
proof (rule bc_other_calls [OF assms(3) bc_booksD(2) [OF assms(1)]])
  assume "bc_core s' = bc_core s" "world s' = world s"
  then show ?thesis by (intro bc_step_same [OF assms(1)]) simp_all
qed (use assms(1,2) deposit_step issue_step redeem_step withdraw_step liquidate_step slash_step
  in \<open>auto simp: at_bond_def\<close>)

lemma bc_books_world: "bc_books bd token self (s\<lparr>world := w\<rparr>) = bc_books bd token self s"
  by (simp add: bc_books_def get_total_collateral_def)

interpretation bc_custody:
  custodian "bc_exec bd" "at_bond self" "bd_token bd" token self 1 "bc_books bd token self" get_total_collateral
  for bd token self
proof (unfold_locales, goal_cases)
  case (2 s e c s')
  then show ?case using bc_exec_step [of bd token self s e c s'] by (simp add: bc_step_def)
next
  case (3 s e c s')
  then show ?case using bc_exec_step [of bd token self s e c s'] by (simp add: bc_step_def)
qed (simp_all add: bc_books_world bc_books_write)

end
