(* ===== verification/BondCollateralProps.thy ===== *)
theory BondCollateralProps
  imports BondCollateral
begin

text \<open>
  What holds of the collateral positions: custody of the collateral over every history, the
  liquidation of positions whose ratio does not fit in 32 bits, and the rounding of the ratio that
  admits bonds.
\<close>

section \<open>Solvency\<close>

lemma bc_init_books:
  assumes "deps_ok bd token self" and "bc_init e admin token (bc_fresh w) = Inr s"
  shows "bc_books bd token self s \<and> get_total_collateral s = 0 \<and> world s = w"
  using assms by (auto simp: bc_init_def bc_fresh_def bc_books_def get_total_collateral_def collateral_sum_def
      i128_ok_def outcome_simps host_simps)

text \<open>C20. The collateral is there: in every history after the initialisation, interleaved with other
  accounts' token transfers, the recorded total is the sum of the collateral of all positions, no
  position is negative, and the contract's token balance covers it all - through deposits,
  withdrawals and liquidations at any price.\<close>

theorem collateral_solvent:
  assumes "deps_ok bd token self" and "bc_init e admin token (bc_fresh w) = Inr s0"
    and "0 \<le> tk_balance (bd_token bd) token self w"
    and "reach (bc_exec bd) (at_bond self) (token_others (bd_token bd) token self) s0 s"
  shows "get_total_collateral s = collateral_sum (bc_positions s) \<and>
    (\<forall>k p. bc_positions s k = Some p \<longrightarrow> 0 \<le> po_collateral p) \<and>
    collateral_sum (bc_positions s) \<le> holding (bd_token bd) token self s"
proof -
  note start = bc_init_books [OF assms(1,2)]
  have "bc_books bd token self s \<and> get_total_collateral s \<le> 1 * holding (bd_token bd) token self s"
    by (rule bc_custody.solvent [OF assms(4)]) (use start assms(3) in \<open>simp_all add: holding_def\<close>)
  then show ?thesis by (simp add: bc_books_def)
qed

text \<open>A ledger token and no other contracts.\<close>

definition plain_deps :: "ledger bond_deps" where
  "plain_deps = \<lparr>bd_token = ledger_token, bd_price = (\<lambda>_ _ _. None), bd_slash = (\<lambda>_ _ _ _ _ _ _. None)\<rparr>"

lemma plain_deps_ok: "deps_ok plain_deps token self"
  by (simp add: deps_ok_def plain_deps_def sep41_ledger_token)

abbreviation bc_at :: "nat \<Rightarrow> nat \<Rightarrow> env" where
  "bc_at t who \<equiv> call_at t (Address 9) (Address who)"

definition bc_sample_world :: ledger where
  "bc_sample_world = (\<lambda>t a. if t = Address 11 \<and> a = Address 3 then 50000000 else 0)"

definition bc_sample_start :: "ledger bc_state" where
  "bc_sample_start = after (bc_init (bc_at 1 2) (Address 2) (Address 11) (bc_fresh bc_sample_world)) (bc_fresh bc_sample_world)"

lemma bc_sample_start: "bc_init (bc_at 1 2) (Address 2) (Address 11) (bc_fresh bc_sample_world) = Inr bc_sample_start"
  by (simp add: bc_sample_start_def bc_init_def bc_fresh_def)

definition bc_sample :: "ledger bc_state" where
  "bc_sample = run_calls (bc_exec plain_deps)
     [(bc_at 2 3, BC_Deposit (Address 3) 5 42949673), (bc_at 3 3, BC_IssueBond (Address 3) 5 1)] bc_sample_start"

lemma bc_sample_reach:
  "reach (bc_exec plain_deps) (at_bond (Address 9)) (token_others (bd_token plain_deps) (Address 11) (Address 9))
     bc_sample_start bc_sample"
  unfolding bc_sample_def by (rule run_calls_reach) (simp add: at_bond_def)

lemma collateral_solvent_witness:
  "collateral_sum (bc_positions bc_sample) \<le> holding ledger_token (Address 11) (Address 9) bc_sample"
  using collateral_solvent [OF plain_deps_ok bc_sample_start _ bc_sample_reach]
  by (simp add: plain_deps_def ledger_token_def bc_sample_world_def)

section \<open>Liquidating a healthy position\<close>

lemma sdiv_nonpos:
  assumes "a \<le> 0" and "0 < (b :: int)"
  shows "a sdiv b \<le> 0 \<and> a \<le> a sdiv b"
proof -
  have "a sdiv b = - ((- a) div b)"
    using assms by (cases "a = 0") (auto simp: signed_divide_int_def sgn_if)
  moreover have "0 \<le> (- a) div b" using assms by (simp add: pos_imp_zdiv_nonneg_iff)
  moreover have "(- a) div b \<le> - a" using assms zdiv_mono2 [of "- a" 1 b] by simp
  ultimately show ?thesis by simp
qed

text \<open>The ratio a liquidation compares is cut to 32 bits, so a position whose collateral is worth
  more than 42 million times its bond can look empty: with a bond of one unit, no price feed and
  any collateral whose ratio is below the threshold modulo \<open>2 ^ 32\<close>, anybody can liquidate it.  One
  unit is seized, the bond is retired, the position is deleted and the total drops by the whole
  collateral, while no token moves: the owner has lost it all.\<close>

theorem healthy_position_liquidated:
  assumes "bc_positions s k = Some p" and "po_bond p = 1"
    and "2 ^ 32 \<le> 100 * po_collateral p" and "po_collateral p < 2 ^ 64"
    and "nat ((100 * po_collateral p) mod 2 ^ 32) < get_liquidation_threshold s"
    and "bc_oracle_feed s = None" and "\<not> bc_paused_state s" and "authorized e keeper"
    and "get_keeper_reward_cap s \<le> 5000" and "100 < unwrap_or (bc_target_ratio s) 150"
    and "unwrap_or (bc_target_ratio s) 150 < 2 ^ 32"
  shows "\<exists>s'. liquidate bd e keeper k s = Inr s' \<and> bc_positions s' k = None \<and> world s' = world s \<and>
    get_total_collateral s' = saturating_sub (get_total_collateral s) (po_collateral p)"
proof -
  let ?c = "po_collateral p" and ?t = "int (unwrap_or (bc_target_ratio s) 150)"
  have t: "100 < ?t" "?t < 2 ^ 32" using assms(10,11) by auto
  have pos: "0 < ?c" using assms(3) by simp
  have quot: "(?c * PRICE_SCALE * 100) sdiv (PRICE_SCALE * 1) = 100 * ?c"
    using pos by (simp add: sdiv_nonneg PRICE_SCALE_def)
  have "calculate_collateral_ratio_oracle ?c 1 PRICE_SCALE = Inr (nat ((100 * ?c) mod 2 ^ 32))"
    using pos assms(4) quot by (simp add: calculate_collateral_ratio_oracle_def PRICE_SCALE_def ck_i128_def
        div_i128_def i128_ok_def)
  moreover have "\<exists>raw. compute_seize_amount ?c 1 PRICE_SCALE (unwrap_or (bc_target_ratio s) 150) = Inr raw \<and> raw \<le> 0"
  proof -
    let ?n = "?t * PRICE_SCALE - 100 * ?c * PRICE_SCALE" and ?d = "PRICE_SCALE * (?t - 100)"
    have "?t \<le> 100 * ?c" using assms(3) t(2) by linarith
    then have num: "?n \<le> 0" by (simp add: PRICE_SCALE_def)
    have den: "0 < ?d" using t by (simp add: PRICE_SCALE_def)
    have "?n sdiv ?d \<le> 0 \<and> ?n \<le> ?n sdiv ?d" by (rule sdiv_nonpos [OF num den])
    then show ?thesis
      using num den t pos assms(4,10) by (auto simp: compute_seize_amount_def Let_def ck_i128_def div_i128_def
          i128_ok_def PRICE_SCALE_def)
  qed
  then obtain raw where raw: "compute_seize_amount ?c 1 PRICE_SCALE (unwrap_or (bc_target_ratio s) 150) = Inr raw"
    "raw \<le> 0" by blast
  have "int (get_keeper_reward_cap s) sdiv 10000 = 0" using assms(9) by (simp add: sdiv_nonneg)
  moreover from raw(2) have "min (max raw 1) ?c = 1" using pos by simp
  ultimately show ?thesis
    using assms(1,2,5-9) raw(1) pos assms(4)
    by (simp add: liquidate_def bc_require_not_paused_def try_fetch_oracle_price_def liquidation_price_def
        priced_def settle_liquidation_def pay_keeper_def liquidated_def Let_def bc_books_write
        calculate_collateral_ratio_oracle_def [of _ 0] ck_i128_def div_i128_def i128_ok_def sdiv_nonneg PRICE_SCALE_def)
qed

lemmas bc_eval = bc_sample_def bc_sample_start_def bc_sample_world_def bc_fresh_def bc_init_def apply_call_def
  deposit_collateral_def issue_bond_def position_or_new_def warn_if_below_def calculate_collateral_ratio_def
  f64_of_int_def f64_div_def f64_mul_def f64_to_u32_def f64_ratio_def scaled_def round_even_def bit_len.simps
  plain_deps_def ledger_token_def token_transfer_def bc_get_token_def bc_require_not_paused_def
  bc_paused_state_def get_total_collateral_def put_total_collateral_def put_position_def
  get_warning_threshold_def get_liquidation_threshold_def get_keeper_reward_cap_def moved_def
  ck_i128_def i128_ok_def host_simps Let_def

lemma bc_sample_position:
  "bc_positions bc_sample 5 = Some \<lparr>po_owner = Address 3, po_collateral = 42949673, po_bond = 1, po_created_at = 2\<rparr>"
  "get_liquidation_threshold bc_sample = 120" "bc_oracle_feed bc_sample = None" "\<not> bc_paused_state bc_sample"
  "get_keeper_reward_cap bc_sample = 500" "bc_target_ratio bc_sample = None"
  "get_total_collateral bc_sample = 42949673"
  by (simp_all add: bc_eval)

lemma healthy_position_liquidated_witness:
  "\<exists>s'. liquidate plain_deps (bc_at 4 7) (Address 7) 5 bc_sample = Inr s' \<and> bc_positions s' 5 = None \<and>
     world s' = world bc_sample \<and> get_total_collateral s' = 0"
  using healthy_position_liquidated [OF bc_sample_position(1), of "bc_at 4 7" "Address 7" plain_deps]
    bc_sample_position(2-) by (simp add: saturating_sub_def)

section \<open>Two ratios\<close>

text \<open>
  \<open>issue_bond\<close> and \<open>withdraw_collateral\<close> compare a ratio computed in floating point, \<open>liquidate\<close> one
  computed in integers: a position admitted at exactly the threshold can be liquidated at once.
\<close>

theorem float_ratio_rounds_up:
  "calculate_collateral_ratio 1199999999999999999 1000000000000000000 = 120"
  "calculate_collateral_ratio_oracle 1199999999999999999 1000000000000000000 PRICE_SCALE = Inr 119"
  by (simp_all add: bc_eval calculate_collateral_ratio_oracle_def div_i128_def sdiv_nonneg PRICE_SCALE_def)

end
