(* ===== verification/BondSlashing.thy ===== *)
theory BondSlashing
  imports BondCollateral SlashingModule
begin

text \<open>
  Bonds and slashing together: the bond contract (\<open>bond_collateral\<close>) at one address calls the
  slashing module (\<open>slashing_module\<close>) at another.  The state of the module is part of the bond
  contract's world, and a history interleaves the calls of both contracts.
\<close>

section \<open>The two contracts\<close>

type_synonym bond_world = "ledger \<times> unit sm_state"

type_synonym bond_system = "bond_world bc_state"

text \<open>The frame of a contract that \<open>contract_addr e\<close> calls: its invoker is the only authorisation.\<close>

definition called_by :: "env \<Rightarrow> address \<Rightarrow> env" where
  "called_by e callee = \<lparr>timestamp = timestamp e, contract_addr = callee, authorized = (\<lambda>a. a = contract_addr e)\<rparr>"

definition module_slash ::
  "address \<Rightarrow> env \<Rightarrow> address \<Rightarrow> address \<Rightarrow> int \<Rightarrow> string \<Rightarrow> string \<Rightarrow> bond_world \<Rightarrow> bond_world option" where
  "module_slash module e callee inspector amount inspection_id reason w =
     (if callee = module
      then (case sm_slash (called_by e callee) (contract_addr e) inspector amount inspection_id reason (snd w) of
              Inl _ \<Rightarrow> None
            | Inr (_, m) \<Rightarrow> Some (fst w, m))
      else None)"

definition bond_module_deps :: "address \<Rightarrow> bond_world bond_deps" where
  "bond_module_deps module = \<lparr>
     bd_token = \<lparr>tk_transfer = (\<lambda>token from to n w.
         map_option (\<lambda>l. (l, snd w)) (tk_transfer ledger_token token from to n (fst w))),
       tk_balance = (\<lambda>token a w. tk_balance ledger_token token a (fst w))\<rparr>,
     bd_price = (\<lambda>_ _ _. None),
     bd_slash = module_slash module\<rparr>"

datatype system_call = OnBonds bc_call | OnModule sm_call

datatype system_error = BondError bc_any_error | ModuleError sm_error

fun system_exec ::
  "host_crypto \<Rightarrow> address \<Rightarrow> env \<Rightarrow> system_call \<Rightarrow> bond_system \<Rightarrow> system_error fault + bond_system" where
  "system_exec hc module e (OnBonds c) s = map_err BondError (bc_exec (bond_module_deps module) e c s)"
| "system_exec hc module e (OnModule c) s =
     bindE (map_err ModuleError (sm_exec hc e c (snd (world s)))) (\<lambda>m.
     Inr (s\<lparr>world := (fst (world s), m)\<rparr>))"

section \<open>Slashes recorded and taken\<close>

text \<open>What the module has recorded against an inspector.\<close>

definition recorded :: "address \<Rightarrow> bond_system \<Rightarrow> int" where
  "recorded u s = (\<Sum>r \<leftarrow> unwrap_or (sm_history (snd (world s)) u) []. is_amount r)"

text \<open>What an inspector itself puts into its bond with a call, or takes out of it.\<close>

definition bond_flow :: "address \<Rightarrow> env \<Rightarrow> system_call \<Rightarrow> bond_system \<Rightarrow> int" where
  "bond_flow u e c s = (case c of
       OnBonds (BC_DepositBond v n) \<Rightarrow> if v = u then n else 0
     | OnBonds (BC_WithdrawBond v n) \<Rightarrow> if v = u then - n else 0
     | _ \<Rightarrow> 0)"

text \<open>
  The host and the deployment: calls of the bond contract run at its address, calls of the module
  from outside are not authorised by the bond contract (a contract authorises only the calls it
  makes itself), and the module's admin does not register another bond contract.
\<close>

definition system_ok :: "address \<Rightarrow> env \<Rightarrow> system_call \<Rightarrow> bool" where
  "system_ok bonds e c \<longleftrightarrow> (case c of
       OnBonds _ \<Rightarrow> contract_addr e = bonds
     | OnModule m \<Rightarrow> \<not> authorized e bonds \<and> (\<forall>a b. m \<noteq> SM_SetBondContract a b))"

definition system_agrees :: "address \<Rightarrow> address \<Rightarrow> int \<Rightarrow> int \<Rightarrow> bond_system \<Rightarrow> bool" where
  "system_agrees bonds u before acc s \<longleftrightarrow> sm_bond_contract (snd (world s)) = Some bonds \<and>
     get_inspector_bond u s + recorded u s = before + acc"

lemma sm_slash_Inr:
  "sm_slash e a u n i r s = Inr (k, s') \<Longrightarrow> authorized e a \<and> sm_bond_contract s = Some a \<and>
     sm_bond_contract s' = Some a \<and>
     sm_history s' = (sm_history s)(u \<mapsto> unwrap_or (sm_history s u) [] @
       [\<lparr>is_inspection_id = i, is_amount = n, is_reason = r, is_slashed_at = timestamp e\<rparr>])"
  by (auto simp: sm_slash_def outcome_simps fail_if_Inr_iff Let_def host_simps)

lemma finalize_slash_ledger: "finalize_slash e a i s = Inr s' \<Longrightarrow> sm_ledger s' = sm_ledger s"
  by (erule finalize_slash_effect)

lemma sm_exec_history:
  assumes "sm_exec hc e c s = Inr s'" and "\<nexists>a u n i r. c = SM_Slash a u n i r" and "\<nexists>a b. c = SM_SetBondContract a b"
  shows "sm_ledger s' = sm_ledger s"
proof (cases "\<exists>a i. c = SM_Finalize a i")
  case True
  with assms(1) show ?thesis by (auto dest: finalize_slash_ledger)
next
  case False
  with assms show ?thesis
    by (cases c) (auto simp: sm_defs submit_evidence_def propose_slash_def reveal_evidence_def
      cancel_slash_def sm_ledger_def outcome_simps fail_if_Inr_iff host_simps Let_def
      dest!: next_slash_id_Inr split: option.splits if_splits)
qed

lemma module_call_agrees:
  assumes "sm_exec hc e c m = Inr m'" and "sm_bond_contract m = Some bonds" and "system_ok bonds e (OnModule c)"
  shows "sm_history m' = sm_history m \<and> sm_bond_contract m' = Some bonds"
proof (cases "\<exists>a u n i r. c = SM_Slash a u n i r")
  case True
  then obtain a u n i r where "c = SM_Slash a u n i r" by blast
  with assms show ?thesis by (auto simp: outcome_simps system_ok_def dest!: sm_slash_Inr)
next
  case False
  with sm_exec_history [OF assms(1)] assms(2,3) show ?thesis by (auto simp: system_ok_def sm_ledger_def)
qed

text \<open>The bond calls that leave inspectors' bonds and the module alone.\<close>

definition bond_view :: "bond_system \<Rightarrow> (address \<rightharpoonup> int) \<times> unit sm_state" where
  "bond_view s = (bc_bond s, snd (world s))"

lemma bond_view_writes [simp]:
  "bond_view (publish t d s) = bond_view s"
  "bond_view (warn_if_below a k n s) = bond_view s"
  "bond_view (put_position k p s) = bond_view s"
  "bond_view (put_total_collateral tot s) = bond_view s"
  "bond_view (priced k pr s) = bond_view s"
  "bond_view (liquidated k p i j b s) = bond_view s"
  by (simp_all add: bond_view_def host_simps warn_if_below_def put_position_def put_total_collateral_def
      priced_def liquidated_def remove_position_def split: option.splits)

lemma bond_transfer_view:
  "token_transfer (bd_token (bond_module_deps module)) token a b n s = Inr s' \<Longrightarrow> bond_view s' = bond_view s"
  by (auto simp: bond_module_deps_def bond_view_def outcome_simps)

lemma bond_price_view: "try_fetch_oracle_price (bond_module_deps module) e s = Inr (pr, s') \<Longrightarrow> s' = s"
  by (auto simp: try_fetch_oracle_price_def bond_module_deps_def split: option.splits)

lemma pay_keeper_view: "pay_keeper (bond_module_deps module) e a n s = Inr s' \<Longrightarrow> bond_view s' = bond_view s"
  by (auto simp: pay_keeper_def outcome_simps split: if_splits dest: bond_transfer_view simp del: token_transfer_Inr_iff)

lemma settle_view:
  "settle_liquidation (bond_module_deps module) e a k p pr raw s = Inr s' \<Longrightarrow> bond_view s' = bond_view s"
  by (auto simp: settle_liquidation_def outcome_simps Let_def dest: pay_keeper_view)

lemma position_calls_view:
  "deposit_collateral (bond_module_deps module) e u k n s = Inr s' \<Longrightarrow> bond_view s' = bond_view s"
  "issue_bond e u k n s = Inr s' \<Longrightarrow> bond_view s' = bond_view s"
  "redeem_bond e u k n s = Inr s' \<Longrightarrow> bond_view s' = bond_view s"
  "withdraw_collateral (bond_module_deps module) e u k n s = Inr s' \<Longrightarrow> bond_view s' = bond_view s"
  unfolding deposit_collateral_def issue_bond_def redeem_bond_def withdraw_collateral_def
    bindE_Inr_iff fail_if_Inr_iff Let_def
  by (fastforce dest: bond_transfer_view simp: outcome_simps simp del: token_transfer_Inr_iff)+

lemma liquidate_view:
  "liquidate (bond_module_deps module) e u k s = Inr s' \<Longrightarrow> bond_view s' = bond_view s"
  by (auto simp: liquidate_def outcome_simps fail_if_Inr_iff Let_def dest!: bond_price_view settle_view)

lemma bond_frame:
  assumes "bc_exec (bond_module_deps module) e c s = Inr s'"
    and "\<nexists>u n. c = BC_DepositBond u n" and "\<nexists>u n. c = BC_WithdrawBond u n" and "\<nexists>a u n i r. c = BC_ExecuteSlash a u n i r"
  shows "bond_view s' = bond_view s"
  using assms by (cases c) (auto simp: bc_init_def bc_admin_defs bond_view_def clear_pending_def
      outcome_simps fail_if_Inr_iff host_simps Let_def 
      dest: position_calls_view [unfolded bond_view_def] liquidate_view [unfolded bond_view_def])

lemma system_agrees_view:
  assumes "system_agrees bonds u before acc s" and "bond_view s' = bond_view s"
  shows "system_agrees bonds u before acc s'"
  using assms by (simp add: system_agrees_def bond_view_def get_inspector_bond_def recorded_def)

lemma own_bond_calls:
  assumes "system_agrees bonds u before acc s"
  shows "deposit_bond e v n s = Inr s' \<Longrightarrow> system_agrees bonds u before (acc + (if v = u then n else 0)) s'"
    and "withdraw_bond e v n s = Inr s' \<Longrightarrow> system_agrees bonds u before (acc + (if v = u then - n else 0)) s'"
  using assms by (auto simp: deposit_bond_def withdraw_bond_def system_agrees_def get_inspector_bond_def
      recorded_def outcome_simps fail_if_Inr_iff host_simps Let_def)

lemma execute_slash_agrees:
  assumes "system_agrees bonds u before acc s"
    and "execute_slash (bond_module_deps module) e a v n i r s = Inr s'" and "contract_addr e = bonds"
  shows "system_agrees bonds u before acc s'"
proof -
  from assms(2) obtain w callee where w: "module_slash module e callee v n i r (world s) = Some w" "world s' = w"
    and bond: "bc_bond s' = (bc_bond s)(v \<mapsto> get_inspector_bond v s - n)"
    by (auto simp: execute_slash_def outcome_simps fail_if_Inr_iff Let_def host_simps bond_module_deps_def
        split: option.splits)
  from w(1) obtain k m where m: "sm_slash (called_by e callee) (contract_addr e) v n i r (snd (world s)) = Inr (k, m)"
    and wm: "w = (fst (world s), m)"
    by (auto simp: module_slash_def split: if_splits sum.splits)
  from sm_slash_Inr [OF m] assms(1) w(2) wm bond show ?thesis
    by (auto simp: system_agrees_def recorded_def get_inspector_bond_def)
qed

lemma system_exec_agrees:
  assumes "system_agrees bonds u before acc s" and "system_ok bonds e c" and "system_exec hc module e c s = Inr s'"
  shows "system_agrees bonds u before (acc + bond_flow u e c s) s'"
proof (cases c)
  case (OnModule m)
  with assms(3) obtain m' where m': "sm_exec hc e m (snd (world s)) = Inr m'"
    and s': "s' = s\<lparr>world := (fst (world s), m')\<rparr>"
    by (auto simp: outcome_simps)
  from assms(1) have "sm_bond_contract (snd (world s)) = Some bonds" by (simp add: system_agrees_def)
  from module_call_agrees [OF m' this] assms(1,2) OnModule show ?thesis
    by (simp add: s' system_agrees_def recorded_def get_inspector_bond_def bond_flow_def)
next
  case (OnBonds b)
  with assms(3) have run: "bc_exec (bond_module_deps module) e b s = Inr s'" by (simp add: outcome_simps)
  show ?thesis
  proof (cases "\<exists>v n. b = BC_DepositBond v n \<or> b = BC_WithdrawBond v n")
    case True
    with run OnBonds own_bond_calls [OF assms(1)] show ?thesis by (auto simp: outcome_simps bond_flow_def)
  next
    case False
    then have flow: "bond_flow u e c s = 0" by (cases b) (auto simp: bond_flow_def OnBonds)
    show ?thesis
    proof (cases "\<exists>a v n i r. b = BC_ExecuteSlash a v n i r")
      case True
      with run assms(2) OnBonds execute_slash_agrees [OF assms(1)] have "system_agrees bonds u before acc s'"
        by (auto simp: outcome_simps system_ok_def)
      then show ?thesis by (simp add: flow)
    next
      case no: False
      with bond_frame [OF run] False have "bond_view s' = bond_view s" by blast
      then show ?thesis using system_agrees_view [OF assms(1)] by (simp add: flow)
    qed
  qed
qed

text \<open>C21. Bonds and slashing agree: from a state where the module has registered the bond contract, in
  every history that interleaves the calls of both contracts, what an inspector's bond lost beyond
  the inspector's own withdrawals is exactly what the module recorded as slashed, and the module
  records nothing the bond contract did not take.\<close>

theorem bonds_and_slashes_agree:
  assumes "tally (system_exec hc module) (bond_flow u) cs 0 s0 = (net, s)"
    and "sm_bond_contract (snd (world s0)) = Some bonds" and "\<forall>(e, c) \<in> set cs. system_ok bonds e c"
  shows "get_inspector_bond u s = get_inspector_bond u s0 + net - (recorded u s - recorded u s0)"
proof -
  let ?start = "get_inspector_bond u s0 + recorded u s0"
  have "system_agrees bonds u ?start 0 s0" using assms(2) by (simp add: system_agrees_def)
  then have "system_agrees bonds u ?start net s"
    by (rule tally_inv [OF assms(1)]) (use assms(3) system_exec_agrees in fastforce)
  then show ?thesis by (simp add: system_agrees_def)
qed

text \<open>The bond contract at address 9, the module at address 10, an inspector at address 5.\<close>

definition system_sample :: bond_system where
  "system_sample = (bc_fresh ((\<lambda>_ _. 0), (sm_fresh ())\<lparr>sm_admin := Some (Address 2),
       sm_bond_contract := Some (Address 9)\<rparr>))
     \<lparr>ug_admin := Some (Address 2), bc_token := Some (Address 11), bc_slashing_module := Some (Address 10)\<rparr>"

definition system_sample_calls :: "(env \<times> system_call) list" where
  "system_sample_calls =
     [(call_at 1 (Address 9) (Address 5), OnBonds (BC_DepositBond (Address 5) 100)),
      (call_at 2 (Address 9) (Address 2), OnBonds (BC_ExecuteSlash (Address 2) (Address 5) 30 ''i'' ''late'')),
      (call_at 3 (Address 10) (Address 2), OnModule (SM_Slash (Address 9) (Address 5) 40 ''j'' ''forged'')),
      (call_at 4 (Address 9) (Address 5), OnBonds (BC_WithdrawBond (Address 5) 20))]"

lemma bonds_and_slashes_agree_witness:
  "\<exists>s. tally (system_exec \<lparr>to_xdr = (\<lambda>_. []), sha256 = (\<lambda>_. 0)\<rparr> (Address 10)) (bond_flow (Address 5))
       system_sample_calls 0 system_sample = (80, s) \<and>
     get_inspector_bond (Address 5) s = 50 \<and> recorded (Address 5) s = 30"
proof -
  let ?hc = "\<lparr>to_xdr = (\<lambda>_. []), sha256 = (\<lambda>_. 0)\<rparr>"
  obtain s where s: "tally (system_exec ?hc (Address 10)) (bond_flow (Address 5)) system_sample_calls 0 system_sample = (80, s)"
    and rec: "recorded (Address 5) s = 30"
    by (simp add: system_sample_calls_def system_sample_def bc_fresh_def sm_fresh_def bond_flow_def deposit_bond_def
        withdraw_bond_def execute_slash_def bond_module_deps_def module_slash_def sm_slash_def called_by_def
        sm_require_not_paused_def bc_require_not_paused_def bc_paused_state_def bc_require_admin_def bc_get_admin_def
        require_admin_permission_def get_inspector_bond_def get_inspector_locks_def drop_result_def ck_i128_def
        i128_ok_def host_simps recorded_def Let_def)
  have start: "sm_bond_contract (snd (world system_sample)) = Some (Address 9)"
    "get_inspector_bond (Address 5) system_sample = 0" "recorded (Address 5) system_sample = 0"
    by (simp_all add: system_sample_def bc_fresh_def sm_fresh_def get_inspector_bond_def recorded_def)
  have "\<forall>(e, c) \<in> set system_sample_calls. system_ok (Address 9) e c"
    by (simp add: system_sample_calls_def system_ok_def)
  from bonds_and_slashes_agree [OF s start(1) this] s rec start show ?thesis by auto
qed

end
