(* ===== verification/WhistleblowerRewards.thy ===== *)
theory WhistleblowerRewards
  imports AccessControl Pausable UpgradeGovernance
begin

text \<open>
  Whistleblower rewards (\<open>whistleblower_rewards/src/lib.rs\<close>): the operator allocates rewards for
  reports on a listing, each with its own time stamp; the operator or the guardian can revoke an
  allocation within the hold window; after it the whistleblower claims, first in first out and in
  parts.  The two loops over the allocations are recursive functions on the loop counter.
\<close>

section \<open>State and errors\<close>

datatype allocation_status = AS_Pending | AS_Claimed | AS_Revoked

record allocation_record =
  al_amount :: int
  al_claimed :: int
  al_timestamp :: nat
  al_status :: allocation_status

datatype wr_error =
    WR_AlreadyInitialized
  | WR_NotAuthorized
  | WR_Paused
  | WR_InvalidAmount
  | WR_NothingToClaim
  | WR_AmountExceedsClaimable
  | WR_UpgradeAlreadyPending
  | WR_NoUpgradePending
  | WR_UpgradeDelayNotMet
  | WR_EmptyString
  | WR_StringTooLong
  | WR_HoldWindowNotElapsed
  | WR_AllocationAlreadyClaimed
  | WR_AllocationAlreadyRevoked
  | WR_AllocationNotFound
  | WR_HoldWindowElapsed

type_synonym wr_key = "address \<times> string"

record 'w wr_state = "'w ug_host" +
  wr_operator :: "address option"
  wr_token :: "address option"
  wr_paused :: "bool option"
  wr_hold_window :: "nat option"
  wr_nonce :: "wr_key \<rightharpoonup> nat"
  wr_allocation :: "wr_key \<times> nat \<rightharpoonup> allocation_record"

definition wr_get_admin :: "'w wr_state \<Rightarrow> 'e fault + address" where
  "wr_get_admin s = expect (ug_admin s) ''admin not set''"

definition wr_get_operator :: "'w wr_state \<Rightarrow> 'e fault + address" where
  "wr_get_operator s = expect (wr_operator s) ''operator not set''"

definition wr_get_token :: "'w wr_state \<Rightarrow> 'e fault + address" where
  "wr_get_token s = expect (wr_token s) ''token not set''"

definition wr_get_paused :: "'w wr_state \<Rightarrow> bool" where
  "wr_get_paused s = unwrap_or (wr_paused s) False"

definition wr_require_not_paused :: "'w wr_state \<Rightarrow> wr_error fault + unit" where
  "wr_require_not_paused s = (if wr_get_paused s then Inl (Err WR_Paused) else Inr ())"

definition WR_MAX_STRING_LEN :: nat where "WR_MAX_STRING_LEN = 256"

definition wr_require_non_empty_string :: "string \<Rightarrow> wr_error fault + unit" where
  "wr_require_non_empty_string s = (if length s = 0 then Inl (Err WR_EmptyString) else Inr ())"

definition wr_require_string_max_len :: "string \<Rightarrow> wr_error fault + unit" where
  "wr_require_string_max_len s = (if WR_MAX_STRING_LEN < length s then Inl (Err WR_StringTooLong) else Inr ())"

definition wr_require_operator :: "env \<Rightarrow> address \<Rightarrow> 'w wr_state \<Rightarrow> wr_error fault + unit" where
  "wr_require_operator e caller s =
     bindE (wr_get_operator s) (\<lambda>operator.
     require_admin_permission e operator caller ''operator'' WR_NotAuthorized s)"

definition wr_require_admin :: "env \<Rightarrow> address \<Rightarrow> 'w wr_state \<Rightarrow> wr_error fault + unit" where
  "wr_require_admin e caller s =
     bindE (wr_get_admin s) (\<lambda>admin.
     require_admin_permission e admin caller ''admin'' WR_NotAuthorized s)"

definition get_hold_window :: "'w wr_state \<Rightarrow> nat" where
  "get_hold_window s = unwrap_or (wr_hold_window s) 0"

definition get_allocation_nonce :: "wr_key \<Rightarrow> 'w wr_state \<Rightarrow> nat" where
  "get_allocation_nonce k s = unwrap_or (wr_nonce s k) 0"

definition get_allocation :: "wr_key \<Rightarrow> nat \<Rightarrow> 'w wr_state \<Rightarrow> allocation_record option" where
  "get_allocation k i s = wr_allocation s (k, i)"

definition put_allocation :: "wr_key \<Rightarrow> nat \<Rightarrow> allocation_record \<Rightarrow> 'w wr_state \<Rightarrow> 'w wr_state" where
  "put_allocation k i r s = s\<lparr>wr_allocation := (wr_allocation s)((k, i) \<mapsto> r)\<rparr>"

section \<open>The loops over the allocations\<close>

text \<open>The guard of both loops: pending and past the hold window.\<close>

definition is_claimable :: "nat \<Rightarrow> nat \<Rightarrow> allocation_record \<Rightarrow> wr_error fault + bool" where
  "is_claimable now hold_window r =
     (if al_status r = AS_Pending
      then bindE (ck_u64 (al_timestamp r + hold_window)) (\<lambda>ready. Inr (ready \<le> now))
      else Inr False)"

definition add_claimable :: "nat \<Rightarrow> nat \<Rightarrow> allocation_record option \<Rightarrow> int \<Rightarrow> wr_error fault + int" where
  "add_claimable now hold_window entry acc =
     (case entry of
        None \<Rightarrow> Inr acc
      | Some r \<Rightarrow>
          bindE (is_claimable now hold_window r) (\<lambda>ok.
          if ok then bindE (ck_i128 (al_amount r - al_claimed r)) (\<lambda>open_amount. ck_i128 (acc + open_amount))
          else Inr acc))"

function sum_loop ::
  "nat \<Rightarrow> nat \<Rightarrow> wr_key \<Rightarrow> nat \<Rightarrow> 'w wr_state \<Rightarrow> nat \<Rightarrow> int \<Rightarrow> wr_error fault + int" where
  "sum_loop now hold_window k nonce s i acc =
     (if i < nonce
      then bindE (add_claimable now hold_window (get_allocation k i s) acc) (\<lambda>acc'.
           sum_loop now hold_window k nonce s (i + 1) acc')
      else Inr acc)"
  by pat_completeness auto
termination by (relation "measure (\<lambda>(_, _, _, nonce, _, i, _). nonce - i)") auto

declare sum_loop.simps [simp del]

definition sum_claimable :: "env \<Rightarrow> wr_key \<Rightarrow> 'w wr_state \<Rightarrow> wr_error fault + int" where
  "sum_claimable e k s = sum_loop (timestamp e) (get_hold_window s) k (get_allocation_nonce k s) s 0 0"

text \<open>One turn of the consuming loop of \<open>claim\<close>: what is still to be taken, and the state.\<close>

definition consume_one ::
  "nat \<Rightarrow> nat \<Rightarrow> wr_key \<Rightarrow> nat \<Rightarrow> int \<Rightarrow> 'w wr_state \<Rightarrow> wr_error fault + int \<times> 'w wr_state" where
  "consume_one now hold_window k i remaining s =
     (case get_allocation k i s of
        None \<Rightarrow> Inr (remaining, s)
      | Some r \<Rightarrow>
          bindE (is_claimable now hold_window r) (\<lambda>ok.
          if ok then
            bindE (ck_i128 (al_amount r - al_claimed r)) (\<lambda>available.
            if 0 < available then
              let take_amount = min remaining available in
              bindE (ck_i128 (al_claimed r + take_amount)) (\<lambda>claimed.
              let r = r\<lparr>al_claimed := claimed\<rparr>;
                  r = (if al_amount r \<le> al_claimed r then r\<lparr>al_status := AS_Claimed\<rparr> else r);
                  s = put_allocation k i r s
              in bindE (ck_i128 (remaining - take_amount)) (\<lambda>remaining. Inr (remaining, s)))
            else Inr (remaining, s))
          else Inr (remaining, s)))"

function wr_consume_loop ::
  "nat \<Rightarrow> nat \<Rightarrow> wr_key \<Rightarrow> nat \<Rightarrow> nat \<Rightarrow> int \<Rightarrow> 'w wr_state \<Rightarrow> wr_error fault + int \<times> 'w wr_state" where
  "wr_consume_loop now hold_window k nonce i remaining s =
     (if i < nonce \<and> 0 < remaining
      then bindE (consume_one now hold_window k i remaining s) (\<lambda>(remaining, s).
           wr_consume_loop now hold_window k nonce (i + 1) remaining s)
      else Inr (remaining, s))"
  by pat_completeness auto
termination by (relation "measure (\<lambda>(_, _, _, nonce, i, _, _). nonce - i)") auto

declare wr_consume_loop.simps [simp del]

section \<open>Operations\<close>

definition wr_event :: "string \<Rightarrow> val list" where
  "wr_event name = [VSym ''whistleblower_rewards'', VSym name]"

definition wr_init ::
  "address \<Rightarrow> address \<Rightarrow> address \<Rightarrow> nat \<Rightarrow> 'w wr_state \<Rightarrow> wr_error fault + 'w wr_state" where
  "wr_init admin operator token hold_window_secs s =
     (if ug_admin s \<noteq> None then Inl (Err WR_AlreadyInitialized)
      else Inr (publish (wr_event ''init'')
             [VAddr admin, VAddr operator, VAddr token, VNat hold_window_secs]
             (s\<lparr>ug_admin := Some admin, wr_operator := Some operator, wr_token := Some token,
                ug_version := Some 1, wr_paused := Some False, wr_hold_window := Some hold_window_secs\<rparr>)))"

definition wr_set_hold_window ::
  "env \<Rightarrow> address \<Rightarrow> nat \<Rightarrow> 'w wr_state \<Rightarrow> wr_error fault + 'w wr_state" where
  "wr_set_hold_window e admin window_secs s =
     bindE (wr_require_admin e admin s) (\<lambda>_.
     Inr (publish (wr_event ''hold_window_updated'') [VNat window_secs]
            (s\<lparr>wr_hold_window := Some window_secs\<rparr>)))"

definition allocate ::
  "env \<Rightarrow> address \<Rightarrow> address \<Rightarrow> string \<Rightarrow> string \<Rightarrow> int \<Rightarrow> 'w wr_state \<Rightarrow> wr_error fault + 'w wr_state" where
  "allocate e operator whistleblower listing_id deal_id amount s =
     bindE (wr_require_operator e operator s) (\<lambda>_.
     bindE (wr_require_not_paused s) (\<lambda>_.
     bindE (wr_require_non_empty_string listing_id) (\<lambda>_.
     bindE (wr_require_string_max_len listing_id) (\<lambda>_.
     bindE (wr_require_non_empty_string deal_id) (\<lambda>_.
     bindE (wr_require_string_max_len deal_id) (\<lambda>_.
     if amount \<le> 0 then Inl (Err WR_InvalidAmount)
     else
     let k = (whistleblower, listing_id);
         nonce = get_allocation_nonce k s;
         r = \<lparr>al_amount = amount, al_claimed = 0, al_timestamp = timestamp e, al_status = AS_Pending\<rparr>;
         s = put_allocation k nonce r s
     in
     bindE (ck_u64 (nonce + 1)) (\<lambda>next_nonce.
     let s = s\<lparr>wr_nonce := (wr_nonce s)(k \<mapsto> next_nonce)\<rparr> in
     bindE (ck_u64 (timestamp e + get_hold_window s)) (\<lambda>claimable_at.
     Inr (publish (wr_event ''allocate'' @ [VAddr whistleblower, VStr listing_id, VStr deal_id])
            [VInt amount, VNat nonce, VNat claimable_at] s)))))))))"

definition revoke_allocation ::
  "env \<Rightarrow> address \<Rightarrow> address \<Rightarrow> string \<Rightarrow> nat \<Rightarrow> string \<Rightarrow> 'w wr_state \<Rightarrow> wr_error fault + 'w wr_state" where
  "revoke_allocation e caller whistleblower listing_id allocation_id reason s =
     bindE (require_auth e caller) (\<lambda>_.
     bindE (wr_get_operator s) (\<lambda>op.
     let is_authorized = (caller = op \<or> (case ug_guardian s of None \<Rightarrow> False | Some g \<Rightarrow> caller = g)) in
     if \<not> is_authorized then Inl (Err WR_NotAuthorized)
     else
     bindE (wr_require_not_paused s) (\<lambda>_.
     bindE (wr_require_non_empty_string listing_id) (\<lambda>_.
     bindE (wr_require_string_max_len listing_id) (\<lambda>_.
     let k = (whistleblower, listing_id) in
     bindE (ok_or (get_allocation k allocation_id s) WR_AllocationNotFound) (\<lambda>r.
     bindE (case al_status r of
              AS_Claimed \<Rightarrow> Inl (Err WR_AllocationAlreadyClaimed)
            | AS_Revoked \<Rightarrow> Inl (Err WR_AllocationAlreadyRevoked)
            | AS_Pending \<Rightarrow> Inr ()) (\<lambda>_.
     if 0 < al_claimed r then Inl (Err WR_AllocationAlreadyClaimed)
     else
     let hold_window = get_hold_window s in
     if hold_window = 0 then Inl (Err WR_HoldWindowElapsed)
     else
     bindE (ck_u64 (al_timestamp r + hold_window)) (\<lambda>ready.
     if ready \<le> timestamp e then Inl (Err WR_HoldWindowElapsed)
     else
     Inr (publish (wr_event ''allocation_revoked'' @ [VAddr whistleblower, VStr listing_id])
            [VNat allocation_id, VInt (al_amount r), VStr reason]
            (put_allocation k allocation_id (r\<lparr>al_status := AS_Revoked\<rparr>) s))))))))))"

text \<open>How much a claim asks for: everything, or the amount given.\<close>

definition amount_to_claim :: "int option \<Rightarrow> int \<Rightarrow> wr_error fault + int" where
  "amount_to_claim amount total_claimable =
     (case amount of
        None \<Rightarrow> Inr total_claimable
      | Some a \<Rightarrow>
          if a \<le> 0 then Inl (Err WR_InvalidAmount)
          else if total_claimable < a then Inl (Err WR_AmountExceedsClaimable)
          else Inr a)"

definition wr_claim ::
  "'w token_if \<Rightarrow> env \<Rightarrow> address \<Rightarrow> string \<Rightarrow> int option \<Rightarrow> 'w wr_state \<Rightarrow> wr_error fault + int \<times> 'w wr_state" where
  "wr_claim tk e to listing_id amount s =
     bindE (require_auth e to) (\<lambda>_.
     bindE (wr_require_not_paused s) (\<lambda>_.
     bindE (wr_require_non_empty_string listing_id) (\<lambda>_.
     bindE (wr_require_string_max_len listing_id) (\<lambda>_.
     let k = (to, listing_id) in
     bindE (sum_claimable e k s) (\<lambda>total_claimable.
     if total_claimable \<le> 0 then Inl (Err WR_NothingToClaim)
     else
     bindE (amount_to_claim amount total_claimable) (\<lambda>to_claim.
     bindE (wr_consume_loop (timestamp e) (get_hold_window s) k (get_allocation_nonce k s) 0 to_claim s)
       (\<lambda>(_, s).
     bindE (wr_get_token s) (\<lambda>token.
     bindE (token_transfer tk token (contract_addr e) to to_claim s) (\<lambda>s.
     bindE (sum_claimable e k s) (\<lambda>new_claimable.
     Inr (to_claim,
          publish (wr_event ''claim'' @ [VAddr to, VStr listing_id])
            [VInt to_claim, VInt new_claimable] s)))))))))))"

text \<open>The view: zero for a listing name that is not valid.\<close>

definition wr_claimable :: "env \<Rightarrow> address \<Rightarrow> string \<Rightarrow> 'w wr_state \<Rightarrow> wr_error fault + int" where
  "wr_claimable e whistleblower listing_id s =
     (if length listing_id = 0 then Inr 0
      else if WR_MAX_STRING_LEN < length listing_id then Inr 0
      else sum_claimable e (whistleblower, listing_id) s)"

definition wr_set_operator ::
  "env \<Rightarrow> address \<Rightarrow> address \<Rightarrow> 'w wr_state \<Rightarrow> wr_error fault + 'w wr_state" where
  "wr_set_operator e admin new_operator s =
     bindE (wr_require_admin e admin s) (\<lambda>_.
     bindE (wr_get_operator s) (\<lambda>old_operator.
     Inr (publish (wr_event ''set_operator'') [VAddr old_operator, VAddr new_operator]
            (s\<lparr>wr_operator := Some new_operator\<rparr>))))"

text \<open>Only a contract error of the gate becomes \<open>NotAuthorized\<close>; a trap stays one.\<close>

definition wr_pause :: "env \<Rightarrow> address \<Rightarrow> 'w wr_state \<Rightarrow> pausable_error fault + 'w wr_state" where
  "wr_pause e admin s =
     bindE (map_err (\<lambda>_. PE_NotAuthorized) (wr_require_admin e admin s)) (\<lambda>_.
     Inr (publish [VSym ''Pausable'', VSym ''pause''] [] (s\<lparr>wr_paused := Some True\<rparr>)))"

definition wr_unpause :: "env \<Rightarrow> address \<Rightarrow> 'w wr_state \<Rightarrow> pausable_error fault + 'w wr_state" where
  "wr_unpause e admin s =
     bindE (map_err (\<lambda>_. PE_NotAuthorized) (wr_require_admin e admin s)) (\<lambda>_.
     Inr (publish [VSym ''Pausable'', VSym ''unpause''] [] (s\<lparr>wr_paused := Some False\<rparr>)))"

definition wr_set_guardian ::
  "env \<Rightarrow> address \<Rightarrow> address \<Rightarrow> 'w wr_state \<Rightarrow> wr_error fault + 'w wr_state" where
  "wr_set_guardian e admin guardian s =
     map_err (\<lambda>_. WR_NotAuthorized) (set_guardian e admin (Some guardian) ''whistleblower_rewards'' s)"

definition wr_set_upgrade_delay ::
  "env \<Rightarrow> address \<Rightarrow> nat \<Rightarrow> 'w wr_state \<Rightarrow> wr_error fault + 'w wr_state" where
  "wr_set_upgrade_delay e admin delay s =
     map_err (\<lambda>_. WR_NotAuthorized) (set_upgrade_delay e admin delay ''whistleblower_rewards'' s)"

fun wr_propose_error :: "ug_error \<Rightarrow> wr_error" where
  "wr_propose_error UG_NotAuthorized = WR_NotAuthorized"
| "wr_propose_error UG_UpgradeAlreadyPending = WR_UpgradeAlreadyPending"
| "wr_propose_error _ = WR_NotAuthorized"

definition wr_propose_upgrade ::
  "env \<Rightarrow> address \<Rightarrow> bytes32 \<Rightarrow> 'w wr_state \<Rightarrow> wr_error fault + 'w wr_state" where
  "wr_propose_upgrade e admin new_wasm_hash s =
     map_err wr_propose_error (propose_upgrade e admin new_wasm_hash 0 None ''whistleblower_rewards'' s)"

fun wr_execute_error :: "ug_error \<Rightarrow> wr_error" where
  "wr_execute_error UG_NotAuthorized = WR_NotAuthorized"
| "wr_execute_error UG_NoPendingUpgrade = WR_NoUpgradePending"
| "wr_execute_error UG_UpgradeDelayNotElapsed = WR_UpgradeDelayNotMet"
| "wr_execute_error _ = WR_NotAuthorized"

definition wr_execute_upgrade ::
  "env \<Rightarrow> address \<Rightarrow> bytes32 \<Rightarrow> 'w wr_state \<Rightarrow> wr_error fault + 'w wr_state" where
  "wr_execute_upgrade e admin new_wasm_hash s =
     map_err wr_execute_error (execute_upgrade e admin new_wasm_hash ''whistleblower_rewards'' s)"

definition wr_emergency_upgrade ::
  "env \<Rightarrow> address \<Rightarrow> bytes32 \<Rightarrow> 'w wr_state \<Rightarrow> wr_error fault + 'w wr_state" where
  "wr_emergency_upgrade e admin new_wasm_hash s =
     map_err (\<lambda>_. WR_NotAuthorized)
       (emergency_upgrade e admin new_wasm_hash 0 None ''whistleblower_rewards'' True s)"

definition wr_cancel_upgrade :: "env \<Rightarrow> address \<Rightarrow> 'w wr_state \<Rightarrow> wr_error fault + 'w wr_state" where
  "wr_cancel_upgrade e admin s =
     bindE (wr_require_admin e admin s) (\<lambda>_.
     if ug_pending_hash s = None then Inl (Err WR_NoUpgradePending)
     else Inr (publish (wr_event ''cancel_upgrade'') [VAddr admin]
                 (s\<lparr>ug_pending_hash := None, ug_pending_at := None\<rparr>)))"

section \<open>All entry points\<close>

datatype wr_call =
    WR_Init address address address nat
  | WR_SetHoldWindow address nat
  | WR_Allocate address address string string int
  | WR_Revoke address address string nat string
  | WR_Claim address string "int option"
  | WR_SetOperator address address
  | WR_Pause address
  | WR_Unpause address
  | WR_SetGuardian address address
  | WR_SetUpgradeDelay address nat
  | WR_ProposeUpgrade address bytes32
  | WR_ExecuteUpgrade address bytes32
  | WR_EmergencyUpgrade address bytes32
  | WR_CancelUpgrade address

datatype wr_any_error = WR_Contract wr_error | WR_Pausable pausable_error

fun wr_exec :: "'w token_if \<Rightarrow> env \<Rightarrow> wr_call \<Rightarrow> 'w wr_state \<Rightarrow> wr_any_error fault + 'w wr_state" where
  "wr_exec tk e (WR_Init a p t h) s = map_err WR_Contract (wr_init a p t h s)"
| "wr_exec tk e (WR_SetHoldWindow a h) s = map_err WR_Contract (wr_set_hold_window e a h s)"
| "wr_exec tk e (WR_Allocate p w l d n) s = map_err WR_Contract (allocate e p w l d n s)"
| "wr_exec tk e (WR_Revoke c w l i r) s = map_err WR_Contract (revoke_allocation e c w l i r s)"
| "wr_exec tk e (WR_Claim w l n) s = map_err WR_Contract (drop_result (wr_claim tk e w l n s))"
| "wr_exec tk e (WR_SetOperator a p) s = map_err WR_Contract (wr_set_operator e a p s)"
| "wr_exec tk e (WR_Pause a) s = map_err WR_Pausable (wr_pause e a s)"
| "wr_exec tk e (WR_Unpause a) s = map_err WR_Pausable (wr_unpause e a s)"
| "wr_exec tk e (WR_SetGuardian a g) s = map_err WR_Contract (wr_set_guardian e a g s)"
| "wr_exec tk e (WR_SetUpgradeDelay a d) s = map_err WR_Contract (wr_set_upgrade_delay e a d s)"
| "wr_exec tk e (WR_ProposeUpgrade a h) s = map_err WR_Contract (wr_propose_upgrade e a h s)"
| "wr_exec tk e (WR_ExecuteUpgrade a h) s = map_err WR_Contract (wr_execute_upgrade e a h s)"
| "wr_exec tk e (WR_EmergencyUpgrade a h) s = map_err WR_Contract (wr_emergency_upgrade e a h s)"
| "wr_exec tk e (WR_CancelUpgrade a) s = map_err WR_Contract (wr_cancel_upgrade e a s)"

lemmas wr_gate_defs = wr_get_admin_def wr_get_operator_def wr_get_token_def wr_require_not_paused_def
  wr_require_operator_def wr_require_admin_def wr_require_non_empty_string_def wr_require_string_max_len_def

lemmas wr_admin_defs = wr_init_def wr_set_hold_window_def wr_set_operator_def wr_pause_def wr_unpause_def
  wr_set_guardian_def wr_set_upgrade_delay_def wr_propose_upgrade_def wr_execute_upgrade_def
  wr_emergency_upgrade_def wr_cancel_upgrade_def

interpretation wr_pausable: pausable wr_pause wr_unpause wr_get_paused ug_admin
  by unfold_locales
    (auto simp: wr_pause_def wr_unpause_def wr_gate_defs wr_get_paused_def outcome_simps host_simps)

end
