(* ===== verification/WhistleblowerRewardsProps.thy ===== *)
theory WhistleblowerRewardsProps
  imports WhistleblowerRewards
begin

text \<open>
  Properties of the whistleblower rewards.  The loops of \<open>claim\<close> are related to a closed form: each
  allocation of a listing hands out the part of the claim that the allocations before it do not
  cover, up to what it still holds.  From it follow the books (claimed amounts add up to what was
  paid, revoked allocations pay nothing) and that what the view shows can be claimed.
\<close>

section \<open>Allocations and their invariant\<close>

type_synonym allocations = "wr_key \<times> nat \<rightharpoonup> allocation_record"

definition record_ok :: "allocation_record \<Rightarrow> bool" where
  "record_ok r \<longleftrightarrow> 0 < al_amount r \<and> i128_ok (al_amount r) \<and> 0 \<le> al_claimed r \<and>
     (case al_status r of
        AS_Pending \<Rightarrow> al_claimed r < al_amount r
      | AS_Claimed \<Rightarrow> al_claimed r = al_amount r
      | AS_Revoked \<Rightarrow> al_claimed r = 0)"

definition allocations_ok :: "allocations \<Rightarrow> bool" where
  "allocations_ok m \<longleftrightarrow> (\<forall>x r. m x = Some r \<longrightarrow> record_ok r)"

definition wr_inv :: "'w wr_state \<Rightarrow> bool" where
  "wr_inv s \<longleftrightarrow> allocations_ok (wr_allocation s) \<and>
     (\<forall>k i. wr_allocation s (k, i) \<noteq> None \<longrightarrow> i < get_allocation_nonce k s)"

text \<open>What allocation \<open>i\<close> has still to give: nothing unless it is pending and past the window.\<close>

definition open_at :: "nat \<Rightarrow> nat \<Rightarrow> allocations \<Rightarrow> wr_key \<Rightarrow> nat \<Rightarrow> int" where
  "open_at now hold m k i =
     (case m (k, i) of
        None \<Rightarrow> 0
      | Some r \<Rightarrow> if al_status r = AS_Pending \<and> al_timestamp r + hold \<le> now
                  then al_amount r - al_claimed r else 0)"

text \<open>The sums \<open>timestamp + hold_window\<close> of the pending allocations fit \<open>u64\<close>.\<close>

definition times_ok :: "nat \<Rightarrow> allocations \<Rightarrow> wr_key \<Rightarrow> nat \<Rightarrow> bool" where
  "times_ok hold m k n \<longleftrightarrow>
     (\<forall>i < n. \<forall>r. m (k, i) = Some r \<longrightarrow> al_status r = AS_Pending \<longrightarrow> al_timestamp r + hold < 2 ^ 64)"

lemma record_okD:
  "allocations_ok m \<Longrightarrow> m x = Some r \<Longrightarrow> record_ok r"
  unfolding allocations_ok_def by blast

lemma allocations_ok_upd: "allocations_ok m \<Longrightarrow> record_ok r \<Longrightarrow> allocations_ok (m(x \<mapsto> r))"
  by (auto simp: allocations_ok_def)

lemma open_at_nonneg: "allocations_ok m \<Longrightarrow> 0 \<le> open_at now hold m k i"
  by (auto simp: open_at_def record_ok_def dest: record_okD split: option.splits allocation_status.splits)

lemma sum_open_nonneg: "allocations_ok m \<Longrightarrow> 0 \<le> (\<Sum>j = a..<b. open_at now hold m k j)"
  by (simp add: sum_nonneg open_at_nonneg)

lemma is_claimable_Inr_iff [outcome_simps]:
  "is_claimable now hold r = Inr b \<longleftrightarrow>
     (al_status r = AS_Pending \<longrightarrow> al_timestamp r + hold < 2 ^ 64) \<and>
     b = (al_status r = AS_Pending \<and> al_timestamp r + hold \<le> now)"
  by (auto simp: is_claimable_def outcome_simps)

section \<open>The sum of the claimable amounts\<close>

lemma add_claimable_Inr:
  assumes "add_claimable now hold (m (k, i)) acc = Inr acc'"
  shows "acc' = acc + open_at now hold m k i"
    and "\<forall>r. m (k, i) = Some r \<longrightarrow> al_status r = AS_Pending \<longrightarrow> al_timestamp r + hold < 2 ^ 64"
  using assms by (auto simp: add_claimable_def open_at_def outcome_simps split: option.splits if_splits)

lemma sum_loop_Inr:
  assumes "sum_loop now hold k n s i acc = Inr t"
  shows "t = acc + (\<Sum>j = i..<n. open_at now hold (wr_allocation s) k j) \<and>
    (\<forall>j. i \<le> j \<longrightarrow> j < n \<longrightarrow> (\<forall>r. wr_allocation s (k, j) = Some r \<longrightarrow> al_status r = AS_Pending \<longrightarrow>
       al_timestamp r + hold < 2 ^ 64))"
  using assms
proof (induction now hold k n s i acc rule: sum_loop.induct)
  case (1 now hold k n s i acc)
  show ?case
  proof (cases "i < n")
    case True
    from "1.prems" True obtain acc' where acc': "add_claimable now hold (wr_allocation s (k, i)) acc = Inr acc'"
      "sum_loop now hold k n s (i + 1) acc' = Inr t"
      by (subst (asm) sum_loop.simps) (auto simp: outcome_simps get_allocation_def)
    from "1.IH" [OF True, of acc'] acc'(2)
    have "t = acc' + (\<Sum>j = i + 1..<n. open_at now hold (wr_allocation s) k j)"
      "\<forall>j. i + 1 \<le> j \<longrightarrow> j < n \<longrightarrow> (\<forall>r. wr_allocation s (k, j) = Some r \<longrightarrow> al_status r = AS_Pending \<longrightarrow>
         al_timestamp r + hold < 2 ^ 64)"
      by auto
    with add_claimable_Inr [where m = "wr_allocation s" and k = k and i = i, OF acc'(1)] True show ?thesis
      by (auto simp: sum.atLeast_Suc_lessThan) (metis Suc_leI le_neq_implies_less)
  qed (use "1.prems" in \<open>auto simp: sum_loop.simps\<close>)
qed

lemma add_claimable_returns:
  assumes "allocations_ok m"
    and "\<And>r. m (k, i) = Some r \<Longrightarrow> al_status r = AS_Pending \<Longrightarrow> al_timestamp r + hold < 2 ^ 64"
    and "0 \<le> acc" and "acc + open_at now hold m k i < 2 ^ 127"
  shows "add_claimable now hold (m (k, i)) acc = Inr (acc + open_at now hold m k i)"
proof (cases "m (k, i)")
  case (Some r)
  note ok = record_okD [OF assms(1) Some]
  then show ?thesis
    using assms(2) [OF Some] assms(3,4) Some
    by (cases "al_status r")
      (auto simp: add_claimable_def open_at_def is_claimable_def ck_u64_def ck_i128_def i128_ok_def record_ok_def)
qed (simp add: add_claimable_def open_at_def)

lemma sum_loop_returns:
  assumes "allocations_ok (wr_allocation s)" and "times_ok hold (wr_allocation s) k n"
    and "0 \<le> acc" and "acc + (\<Sum>j = i..<n. open_at now hold (wr_allocation s) k j) < 2 ^ 127"
  shows "sum_loop now hold k n s i acc = Inr (acc + (\<Sum>j = i..<n. open_at now hold (wr_allocation s) k j))"
  using assms
proof (induction now hold k n s i acc rule: sum_loop.induct)
  case (1 now hold k n s i acc)
  show ?case
  proof (cases "i < n")
    case True
    let ?f = "open_at now hold (wr_allocation s) k"
    have split: "(\<Sum>j = i..<n. ?f j) = ?f i + (\<Sum>j = i + 1..<n. ?f j)"
      using True by (simp add: sum.atLeast_Suc_lessThan)
    have pos: "0 \<le> ?f i" "0 \<le> (\<Sum>j = i + 1..<n. ?f j)"
      using "1.prems"(1) by (auto intro: open_at_nonneg sum_open_nonneg)
    have "add_claimable now hold (wr_allocation s (k, i)) acc = Inr (acc + ?f i)"
      using "1.prems" True pos unfolding split times_ok_def by (intro add_claimable_returns) auto
    with "1.IH" [OF True, of "acc + ?f i"] "1.prems" pos True split show ?thesis
      by (subst sum_loop.simps) (simp add: get_allocation_def add.assoc)
  qed (simp add: sum_loop.simps)
qed

abbreviation open_sum :: "nat \<Rightarrow> wr_key \<Rightarrow> 'w wr_state \<Rightarrow> int" where
  "open_sum now k s \<equiv>
     (\<Sum>j = 0..<get_allocation_nonce k s. open_at now (get_hold_window s) (wr_allocation s) k j)"

lemma sum_claimable_Inr:
  "sum_claimable e k s = Inr t \<Longrightarrow>
     t = open_sum (timestamp e) k s \<and> times_ok (get_hold_window s) (wr_allocation s) k (get_allocation_nonce k s)"
  unfolding sum_claimable_def times_ok_def by (drule sum_loop_Inr) auto

lemma sum_claimable_returns:
  assumes "allocations_ok (wr_allocation s)" and "open_sum (timestamp e) k s < 2 ^ 127"
    and "times_ok (get_hold_window s) (wr_allocation s) k (get_allocation_nonce k s)"
  shows "sum_claimable e k s = Inr (open_sum (timestamp e) k s)"
  using sum_loop_returns [OF assms(1,3), of 0] assms(2) by (simp add: sum_claimable_def)

lemma sum_loop_i128:
  "sum_loop now hold k n s i acc = Inr t \<Longrightarrow> i128_ok acc \<Longrightarrow> i128_ok t"
proof (induction now hold k n s i acc rule: sum_loop.induct)
  case (1 now hold k n s i acc)
  show ?case
  proof (cases "i < n")
    case True
    with "1.prems"(1) obtain acc' where "add_claimable now hold (get_allocation k i s) acc = Inr acc'"
      "sum_loop now hold k n s (i + 1) acc' = Inr t"
      by (subst (asm) sum_loop.simps) (auto simp: outcome_simps)
    with "1.IH" [OF True] "1.prems"(2) show ?thesis
      by (auto simp: add_claimable_def outcome_simps split: option.splits if_splits)
  qed (use "1.prems" in \<open>simp add: sum_loop.simps\<close>)
qed

lemma i128_sum_claimable: "sum_claimable e k s = Inr t \<Longrightarrow> t < 2 ^ 127"
  unfolding sum_claimable_def by (drule sum_loop_i128) (simp_all add: i128_ok_def)

section \<open>First in, first out\<close>

text \<open>
  The reference: allocation \<open>j\<close> hands out what the allocations from \<open>i\<close> to it do not cover of
  \<open>amount\<close>, at most what it holds; an allocation that has handed out everything is \<open>Claimed\<close>.
\<close>

definition fifo_share :: "(nat \<Rightarrow> int) \<Rightarrow> int \<Rightarrow> nat \<Rightarrow> nat \<Rightarrow> int" where
  "fifo_share f amount i j = min (f j) (max 0 (amount - (\<Sum>l = i..<j. f l)))"

definition hand_out :: "int \<Rightarrow> allocation_record \<Rightarrow> allocation_record" where
  "hand_out x r =
     (if 0 < x
      then r\<lparr>al_claimed := al_claimed r + x,
             al_status := (if al_amount r \<le> al_claimed r + x then AS_Claimed else al_status r)\<rparr>
      else r)"

definition fifo_claim :: "nat \<Rightarrow> nat \<Rightarrow> wr_key \<Rightarrow> nat \<Rightarrow> nat \<Rightarrow> int \<Rightarrow> allocations \<Rightarrow> allocations" where
  "fifo_claim now hold k n i amount m =
     (\<lambda>(k', j). if k' = k \<and> i \<le> j \<and> j < n
                then map_option (hand_out (fifo_share (open_at now hold m k) amount i j)) (m (k, j))
                else m (k', j))"

lemma fifo_share_bounds:
  assumes "0 \<le> f j"
  shows "0 \<le> fifo_share f amount i j" "fifo_share f amount i j \<le> f j"
  using assms by (auto simp: fifo_share_def)

lemma fifo_share_first: "0 \<le> amount \<Longrightarrow> fifo_share f amount i i = min (f i) amount"
  by (simp add: fifo_share_def)

lemma fifo_share_rest:
  assumes "\<And>j. 0 \<le> f j" and "i < j" and "0 \<le> amount"
  shows "fifo_share f (amount - min (f i) amount) (i + 1) j = fifo_share f amount i j"
proof -
  have "(\<Sum>l = i..<j. f l) = f i + (\<Sum>l = i + 1..<j. f l)"
    using assms(2) by (simp add: sum.atLeast_Suc_lessThan)
  moreover have "0 \<le> (\<Sum>l = i + 1..<j. f l)" by (simp add: assms(1) sum_nonneg)
  ultimately show ?thesis using assms(1) [of i] assms(1) [of j] assms(3) by (auto simp: fifo_share_def)
qed

lemma fifo_share_zero:
  assumes "\<And>j. 0 \<le> f j" and "amount \<le> 0"
  shows "fifo_share f amount i j = 0"
proof -
  have "max 0 (amount - (\<Sum>l = i..<j. f l)) = 0"
    using sum_nonneg [of "{i..<j}" f] assms by (simp add: max_def)
  with assms(1) [of j] show ?thesis by (simp add: fifo_share_def)
qed

lemma sum_fifo_share:
  assumes "\<And>j. 0 \<le> f j" and "0 \<le> amount"
  shows "(\<Sum>j = 0..<n. fifo_share f amount 0 j) = min amount (\<Sum>j = 0..<n. f j)"
proof (induction n)
  case (Suc n)
  then show ?case using assms(1) [of n] assms(2) by (auto simp: fifo_share_def)
qed (simp add: assms)

lemma hand_out_ok:
  assumes "record_ok r" and "al_status r = AS_Pending" and "x \<le> al_amount r - al_claimed r"
  shows "record_ok (hand_out x r)"
  using assms by (auto simp: record_ok_def hand_out_def)

lemma hand_out_zero: "hand_out 0 = id"
  by (simp add: hand_out_def fun_eq_iff)

lemma fifo_claim_one:
  "fifo_claim now hold k (i + 1) i amount m =
     m((k, i) := map_option (hand_out (fifo_share (open_at now hold m k) amount i i)) (m (k, i)))"
  by (auto simp: fifo_claim_def fun_eq_iff le_less_Suc_eq)

lemma consume_one_Inr:
  assumes "consume_one now hold k i remaining s = Inr (remaining', s')"
    and "allocations_ok (wr_allocation s)" and "0 < remaining"
  shows "remaining' = remaining - min (open_at now hold (wr_allocation s) k i) remaining \<and>
    s' = s\<lparr>wr_allocation := fifo_claim now hold k (i + 1) i remaining (wr_allocation s)\<rparr>"
proof (cases "wr_allocation s (k, i)")
  case None
  then have "fifo_claim now hold k (i + 1) i remaining (wr_allocation s) = wr_allocation s"
    unfolding fifo_claim_one by (simp add: fun_upd_idem)
  with None assms show ?thesis
    by (simp add: consume_one_def get_allocation_def open_at_def)
next
  case (Some r)
  let ?x = "min (open_at now hold (wr_allocation s) k i) remaining"
  have share: "fifo_share (open_at now hold (wr_allocation s) k) remaining i i = ?x"
    using assms(3) by (simp add: fifo_share_first)
  have "fifo_claim now hold k (i + 1) i remaining (wr_allocation s) =
      (wr_allocation s)((k, i) \<mapsto> hand_out ?x r)"
    unfolding fifo_claim_one by (simp add: Some share)
  note upd = this
  show ?thesis
  proof (cases "al_status r = AS_Pending \<and> al_timestamp r + hold \<le> now")
    case True
    then have gap: "open_at now hold (wr_allocation s) k i = al_amount r - al_claimed r"
      "al_claimed r < al_amount r"
      using Some record_okD [OF assms(2) Some] by (auto simp: open_at_def record_ok_def)
    from assms(1) Some True have "is_claimable now hold r = Inr True"
      by (auto simp: consume_one_def get_allocation_def bindE_Inr_iff is_claimable_Inr_iff)
    moreover have "ck_i128 (al_amount r - al_claimed r) = Inr (al_amount r - al_claimed r)"
      "ck_i128 (al_claimed r + min remaining (al_amount r - al_claimed r)) =
         Inr (al_claimed r + min remaining (al_amount r - al_claimed r))"
      using record_okD [OF assms(2) Some] gap(2) assms(3) by (auto simp: ck_i128_def i128_ok_def record_ok_def)
    ultimately have
      "remaining' = remaining - min remaining (al_amount r - al_claimed r) \<and>
       s' = put_allocation k i (hand_out (min remaining (al_amount r - al_claimed r)) r) s"
      using assms(1,3) Some gap(2)
      by (auto simp: consume_one_def get_allocation_def hand_out_def Let_def bindE_Inr_iff ck_i128_Inr_iff
          split: if_splits)
    then show ?thesis using gap upd by (simp add: put_allocation_def min.commute)
  next
    case False
    then have "open_at now hold (wr_allocation s) k i = 0" using Some by (auto simp: open_at_def)
    moreover from assms(1) Some False have "remaining' = remaining" "s' = s"
      by (auto simp: consume_one_def get_allocation_def outcome_simps)
    ultimately show ?thesis using assms(3) upd Some by (simp add: hand_out_zero fun_upd_idem)
  qed
qed

lemma fifo_claim_nothing:
  assumes "allocations_ok m" and "n \<le> i \<or> amount \<le> 0"
  shows "fifo_claim now hold k n i amount m = m"
proof -
  have "fifo_share (open_at now hold m k) amount i j = 0" if "amount \<le> 0" for j
    using that by (rule fifo_share_zero [rotated]) (rule open_at_nonneg [OF assms(1)])
  with assms(2) show ?thesis
    by (auto simp: fifo_claim_def fun_eq_iff hand_out_zero option.map_id)
qed

text \<open>One turn of the loop and the rest of it.\<close>

lemma fifo_claim_step:
  fixes now hold :: nat and k :: wr_key
  assumes "allocations_ok m" and "i < n" and "0 \<le> amount"
  defines "m1 \<equiv> fifo_claim now hold k (i + 1) i amount m"
  shows "fifo_claim now hold k n (i + 1) (amount - min (open_at now hold m k i) amount) m1 =
    fifo_claim now hold k n i amount m"
proof -
  have other: "m1 (k', j) = m (k', j)" if "k' \<noteq> k \<or> j \<noteq> i" for k' j
    using that by (auto simp: m1_def fifo_claim_def)
  have later: "open_at now hold m1 k j = open_at now hold m k j" if "i < j" for j
    using other [of k j] that by (simp add: open_at_def)
  have share: "fifo_share (open_at now hold m1 k) (amount - min (open_at now hold m k i) amount) (i + 1) j =
      fifo_share (open_at now hold m k) amount i j" if "i < j" for j
  proof -
    have "(\<Sum>l = i + 1..<j. open_at now hold m1 k l) = (\<Sum>l = i + 1..<j. open_at now hold m k l)"
      by (rule sum.cong) (auto intro: later)
    with later [OF that] have "fifo_share (open_at now hold m1 k) a (i + 1) j =
        fifo_share (open_at now hold m k) a (i + 1) j" for a
      by (simp add: fifo_share_def)
    with fifo_share_rest [OF open_at_nonneg [OF assms(1)] that assms(3)] show ?thesis by simp
  qed
  show ?thesis
  proof (rule ext)
    fix x :: "wr_key \<times> nat"
    obtain k' j where x: "x = (k', j)" by (cases x)
    show "fifo_claim now hold k n (i + 1) (amount - min (open_at now hold m k i) amount) m1 x =
        fifo_claim now hold k n i amount m x"
    proof (cases "k' = k \<and> i < j")
      case True
      with share [of j] other [of k j] show ?thesis by (simp add: x fifo_claim_def)
    next
      case False
      then show ?thesis using assms(2) by (auto simp: x m1_def fifo_claim_def)
    qed
  qed
qed

lemma fifo_claim_ok:
  assumes "allocations_ok m"
  shows "allocations_ok (fifo_claim now hold k n i amount m)"
proof -
  have "record_ok r'" if r': "fifo_claim now hold k n i amount m x = Some r'" for x r'
  proof -
    obtain k' j where x: "x = (k', j)" by (cases x)
    let ?s = "fifo_share (open_at now hold m k) amount i j"
    from r' obtain r where r: "m x = Some r" "r' = r \<or> k' = k \<and> r' = hand_out ?s r"
      by (auto simp: x fifo_claim_def split: if_splits)
    note ok = record_okD [OF assms r(1)]
    have le: "?s \<le> open_at now hold m k j"
      by (rule fifo_share_bounds) (rule open_at_nonneg [OF assms])
    show ?thesis
    proof (cases "al_status r = AS_Pending")
      case True
      show ?thesis
        using r(2)
      proof (elim disjE conjE)
        assume "k' = k" and r': "r' = hand_out ?s r"
        with le r(1) True ok have "?s \<le> al_amount r - al_claimed r"
          by (auto simp: x open_at_def record_ok_def split: if_splits)
        with hand_out_ok [OF ok True] show ?thesis by (simp add: r')
      qed (simp add: ok)
    next
      case False
      with le r have "r' = r" by (auto simp: x open_at_def hand_out_def)
      with ok show ?thesis by simp
    qed
  qed
  then show ?thesis unfolding allocations_ok_def by blast
qed

lemma wr_consume_loop_Inr:
  assumes "wr_consume_loop now hold k n i remaining s = Inr (remaining', s')"
    and "allocations_ok (wr_allocation s)" and "0 \<le> remaining"
  shows "s' = s\<lparr>wr_allocation := fifo_claim now hold k n i remaining (wr_allocation s)\<rparr>"
  using assms
proof (induction now hold k n i remaining s rule: wr_consume_loop.induct)
  case (1 now hold k n i remaining s)
  show ?case
  proof (cases "i < n \<and> 0 < remaining")
    case True
    from "1.prems"(1) True obtain rem1 s1 where
      s1: "consume_one now hold k i remaining s = Inr (rem1, s1)"
      "wr_consume_loop now hold k n (i + 1) rem1 s1 = Inr (remaining', s')"
      by (subst (asm) wr_consume_loop.simps) (auto simp: outcome_simps)
    have one: "rem1 = remaining - min (open_at now hold (wr_allocation s) k i) remaining"
      "s1 = s\<lparr>wr_allocation := fifo_claim now hold k (i + 1) i remaining (wr_allocation s)\<rparr>"
      using consume_one_Inr [OF s1(1) "1.prems"(2)] True by auto
    from "1.IH" [OF True s1(2)] "1.prems"(2) one
    have "s' = s1\<lparr>wr_allocation := fifo_claim now hold k n (i + 1) rem1 (wr_allocation s1)\<rparr>"
      by (simp add: fifo_claim_ok)
    then show ?thesis using fifo_claim_step [OF "1.prems"(2), of i n remaining now hold k] True one by simp
  next
    case False
    with "1.prems" show ?thesis
      by (subst (asm) wr_consume_loop.simps) (auto simp: fifo_claim_nothing)
  qed
qed

lemma open_at_fifo_claim:
  assumes "allocations_ok m" and "j < n"
  shows "open_at now hold (fifo_claim now hold k n 0 amount m) k j =
    open_at now hold m k j - fifo_share (open_at now hold m k) amount 0 j"
proof (cases "m (k, j)")
  case (Some r)
  let ?s = "fifo_share (open_at now hold m k) amount 0 j"
  have s: "0 \<le> ?s" "?s \<le> open_at now hold m k j"
    using fifo_share_bounds [OF open_at_nonneg [OF assms(1)]] by auto
  have new: "fifo_claim now hold k n 0 amount m (k, j) = Some (hand_out ?s r)"
    using Some assms(2) by (simp add: fifo_claim_def)
  show ?thesis
  proof (cases "al_status r = AS_Pending \<and> al_timestamp r + hold \<le> now")
    case True
    then have "open_at now hold m k j = al_amount r - al_claimed r" using Some by (simp add: open_at_def)
    with s True show ?thesis unfolding open_at_def new by (simp add: hand_out_def)
  next
    case False
    then have "open_at now hold m k j = 0" using Some by (auto simp: open_at_def)
    with s have "?s = 0" by simp
    with False show ?thesis by (auto simp: open_at_def new hand_out_zero Some)
  qed
next
  case None
  with assms(2) show ?thesis by (simp add: open_at_def fifo_claim_def fifo_share_def)
qed

lemma open_sum_fifo_claim:
  assumes "allocations_ok (wr_allocation s)" and "0 \<le> amount" and "amount \<le> open_sum now k s"
    and "wr_allocation s' = fifo_claim now (get_hold_window s) k (get_allocation_nonce k s) 0 amount (wr_allocation s)"
    and "wr_nonce s' = wr_nonce s" and "wr_hold_window s' = wr_hold_window s"
  shows "open_sum now k s' = open_sum now k s - amount"
proof -
  let ?f = "open_at now (get_hold_window s) (wr_allocation s) k" and ?n = "get_allocation_nonce k s"
  have "open_sum now k s' = (\<Sum>j = 0..<?n. ?f j - fifo_share ?f amount 0 j)"
    unfolding get_hold_window_def get_allocation_nonce_def assms(5,6)
    by (rule sum.cong)
      (auto simp: assms(4) open_at_fifo_claim [OF assms(1)] get_hold_window_def get_allocation_nonce_def)
  also have "\<dots> = open_sum now k s - (\<Sum>j = 0..<?n. fifo_share ?f amount 0 j)"
    by (simp add: sum_subtractf)
  also have "\<dots> = open_sum now k s - amount"
    using sum_fifo_share [of ?f amount ?n] open_at_nonneg [OF assms(1)] assms(2,3) by simp
  finally show ?thesis .
qed

lemma times_ok_fifo_claim:
  "times_ok hold m k n \<Longrightarrow> times_ok hold (fifo_claim now hold' k n' i amount m) k n"
  by (auto simp: times_ok_def fifo_claim_def hand_out_def split: if_splits)

section \<open>What a claim does\<close>

definition paid :: "int option \<Rightarrow> int \<Rightarrow> int" where
  "paid amount claimable_total = (case amount of None \<Rightarrow> claimable_total | Some a \<Rightarrow> a)"

definition claimed_state :: "env \<Rightarrow> wr_key \<Rightarrow> int \<Rightarrow> 'w \<Rightarrow> 'w wr_state \<Rightarrow> 'w wr_state" where
  "claimed_state e k x w s =
     s\<lparr>wr_allocation := fifo_claim (timestamp e) (get_hold_window s) k (get_allocation_nonce k s) 0 x
                           (wr_allocation s),
       world := w\<rparr>"

lemma open_sum_claimed:
  assumes "allocations_ok (wr_allocation s)" and "0 \<le> x" and "x \<le> open_sum (timestamp e) k s"
  shows "open_sum (timestamp e) k (claimed_state e k x w s) = open_sum (timestamp e) k s - x"
  using assms by (rule open_sum_fifo_claim) (simp_all add: claimed_state_def)

lemma amount_to_claim_Inr_iff [outcome_simps]:
  "amount_to_claim a t = Inr x \<longleftrightarrow> x = paid a t \<and> (\<forall>b. a = Some b \<longrightarrow> 0 < b \<and> b \<le> t)"
  by (auto simp: amount_to_claim_def paid_def split: option.splits)

lemma paid_bounds: "0 < t \<Longrightarrow> \<forall>b. a = Some b \<longrightarrow> 0 < b \<and> b \<le> t \<Longrightarrow> 0 < paid a t \<and> paid a t \<le> t"
  by (auto simp: paid_def split: option.splits)

lemma wr_claim_Inr:
  assumes "wr_claim tk e to l a s = Inr (x, s')" and "allocations_ok (wr_allocation s)"
  shows "\<exists>t w token. authorized e to \<and> sum_claimable e (to, l) s = Inr t \<and> 0 < x \<and> x \<le> t \<and> x = paid a t \<and>
    wr_token s = Some token \<and> tk_transfer tk token (contract_addr e) to x (world s) = Some w \<and>
    l \<noteq> [] \<and> length l \<le> WR_MAX_STRING_LEN \<and>
    s' = publish (wr_event ''claim'' @ [VAddr to, VStr l]) [VInt x, VInt (t - x)] (claimed_state e (to, l) x w s)"
proof -
  from assms(1) obtain t rem1 s1 token w new where run:
    "authorized e to" "l \<noteq> []" "length l \<le> WR_MAX_STRING_LEN" "sum_claimable e (to, l) s = Inr t" "0 < t"
    "\<forall>b. a = Some b \<longrightarrow> 0 < b \<and> b \<le> t" "x = paid a t"
    "wr_consume_loop (timestamp e) (get_hold_window s) (to, l) (get_allocation_nonce (to, l) s) 0 x s = Inr (rem1, s1)"
    "wr_token s1 = Some token" "tk_transfer tk token (contract_addr e) to x (world s1) = Some w"
    "sum_claimable e (to, l) (s1\<lparr>world := w\<rparr>) = Inr new"
    "s' = publish (wr_event ''claim'' @ [VAddr to, VStr l]) [VInt x, VInt new] (s1\<lparr>world := w\<rparr>)"
    unfolding wr_claim_def wr_gate_defs Let_def
    by (simp add: outcome_simps fail_if_Inr_iff not_less not_le) (elim exE conjE, fastforce)
  note x = paid_bounds [OF run(5,6)]
  have s1: "s1\<lparr>world := w\<rparr> = claimed_state e (to, l) x w s"
    using wr_consume_loop_Inr [OF run(8) assms(2)] x run(7) by (simp add: claimed_state_def)
  have "new = open_sum (timestamp e) (to, l) (claimed_state e (to, l) x w s)"
    using sum_claimable_Inr run(11) unfolding s1 by blast
  moreover have "t = open_sum (timestamp e) (to, l) s" using sum_claimable_Inr [OF run(4)] by simp
  ultimately have "new = t - x"
    using open_sum_claimed [OF assms(2)] x unfolding run(7) by simp
  moreover have "wr_token s1 = wr_token s" "world s1 = world s"
    using wr_consume_loop_Inr [OF run(8) assms(2)] x run(7) by simp_all
  ultimately show ?thesis using run s1 x
    by (intro exI [of _ t] exI [of _ w] exI [of _ token]) simp
qed

lemma wr_claim_allocations:
  assumes "wr_claim tk e to l a s = Inr (x, s')" and "allocations_ok (wr_allocation s)"
  shows "wr_allocation s' = fifo_claim (timestamp e) (get_hold_window s) (to, l)
      (get_allocation_nonce (to, l) s) 0 x (wr_allocation s) \<and> wr_nonce s' = wr_nonce s"
  using wr_claim_Inr [OF assms] by (auto simp: claimed_state_def host_simps)

section \<open>The invariant over histories\<close>

text \<open>The amounts of a call are \<open>i128\<close> values.\<close>

definition i128_args :: "env \<Rightarrow> wr_call \<Rightarrow> bool" where
  "i128_args e c \<longleftrightarrow> (\<forall>p w l d n. c = WR_Allocate p w l d n \<longrightarrow> i128_ok n)"

lemma allocate_Inr:
  assumes "allocate e p u l d n s = Inr s'"
  shows "0 < n \<and> wr_allocation s' = (wr_allocation s)(((u, l), get_allocation_nonce (u, l) s) \<mapsto>
       \<lparr>al_amount = n, al_claimed = 0, al_timestamp = timestamp e, al_status = AS_Pending\<rparr>) \<and>
    wr_nonce s' = (wr_nonce s)((u, l) \<mapsto> get_allocation_nonce (u, l) s + 1)"
  using assms unfolding allocate_def wr_gate_defs Let_def
  by (auto simp: put_allocation_def host_simps outcome_simps fail_if_Inr_iff)

lemma pending_gate_Inr_iff:
  "(case st of AS_Claimed \<Rightarrow> Inl f | AS_Revoked \<Rightarrow> Inl g | AS_Pending \<Rightarrow> Inr ()) = Inr u \<longleftrightarrow> st = AS_Pending"
  by (cases st) auto

lemma revoke_allocation_Inr:
  assumes "revoke_allocation e c u l i reason s = Inr s'"
  shows "\<exists>r. wr_allocation s ((u, l), i) = Some r \<and> al_status r = AS_Pending \<and> al_claimed r \<le> 0 \<and>
    timestamp e < al_timestamp r + get_hold_window s \<and>
    wr_allocation s' = (wr_allocation s)(((u, l), i) \<mapsto> r\<lparr>al_status := AS_Revoked\<rparr>) \<and>
    wr_nonce s' = wr_nonce s"
  using assms unfolding revoke_allocation_def wr_gate_defs Let_def
  by (auto simp: put_allocation_def get_allocation_def host_simps outcome_simps fail_if_Inr_iff
      pending_gate_Inr_iff)

definition wr_keeps :: "'w wr_state \<Rightarrow> 'w wr_state \<Rightarrow> bool" where
  "wr_keeps s s' \<longleftrightarrow> wr_allocation s' = wr_allocation s \<and> wr_nonce s' = wr_nonce s"

lemma wr_exec_keeps:
  assumes "wr_exec tk e c s = Inr s'"
    and "\<forall>p u l d n. c \<noteq> WR_Allocate p u l d n" and "\<forall>a u l i r. c \<noteq> WR_Revoke a u l i r"
    and "\<forall>u l n. c \<noteq> WR_Claim u l n"
  shows "wr_keeps s s'"
  using assms
  by (cases c; simp add: wr_admin_defs wr_gate_defs outcome_simps fail_if_Inr_iff host_simps wr_keeps_def;
      auto simp: clear_pending_def)

lemma wr_exec_cases:
  assumes "wr_exec tk e c s = Inr s'"
  obtains (keeps) "wr_keeps s s'" "\<forall>u l n. c \<noteq> WR_Claim u l n"
  | (allocate) p u l d n where "c = WR_Allocate p u l d n" "allocate e p u l d n s = Inr s'"
  | (revoke) a u l i r where "c = WR_Revoke a u l i r" "revoke_allocation e a u l i r s = Inr s'"
  | (claim) u l a x where "c = WR_Claim u l a" "wr_claim tk e u l a s = Inr (x, s')"
proof (cases "\<exists>p u l d n. c = WR_Allocate p u l d n")
  case True
  then show ?thesis using assms allocate by (auto simp: outcome_simps)
next
  case no_allocate: False
  show ?thesis
  proof (cases "(\<exists>a u l i r. c = WR_Revoke a u l i r) \<or> (\<exists>u l n. c = WR_Claim u l n)")
    case True
    then show ?thesis using assms revoke claim by (auto simp: outcome_simps)
  next
    case False
    with no_allocate assms show ?thesis by (intro keeps wr_exec_keeps [OF assms]) auto
  qed
qed

lemma fifo_claim_dom: "fifo_claim now hold k n i x m y = None \<longleftrightarrow> m y = None"
  by (cases y) (auto simp: fifo_claim_def)

lemma wr_exec_inv:
  assumes "wr_inv s" and "i128_args e c" and "wr_exec tk e c s = Inr s'"
  shows "wr_inv s'"
  using assms(3)
proof (cases rule: wr_exec_cases)
  case keeps
  with assms(1) show ?thesis by (simp add: wr_keeps_def wr_inv_def get_allocation_nonce_def)
next
  case (allocate p u l d n)
  with assms(2) have "i128_ok n" by (auto simp: i128_args_def)
  with allocate_Inr [OF allocate(2)] assms(1) show ?thesis
    by (auto simp: wr_inv_def get_allocation_nonce_def record_ok_def less_Suc_eq intro!: allocations_ok_upd)
next
  case (revoke a u l i r)
  from revoke_allocation_Inr [OF this(2)] obtain q where q: "wr_allocation s ((u, l), i) = Some q"
    "al_claimed q \<le> 0" "wr_allocation s' = (wr_allocation s)(((u, l), i) \<mapsto> q\<lparr>al_status := AS_Revoked\<rparr>)"
    "wr_nonce s' = wr_nonce s" by blast
  from assms(1) have "allocations_ok (wr_allocation s)" by (simp add: wr_inv_def)
  from record_okD [OF this q(1)] have "record_ok q" .
  with q(2) have "record_ok (q\<lparr>al_status := AS_Revoked\<rparr>)" by (simp add: record_ok_def)
  with q assms(1) show ?thesis
    by (auto simp: wr_inv_def get_allocation_nonce_def intro!: allocations_ok_upd)
next
  case (claim u l a x)
  with assms(1) wr_claim_allocations [OF claim(2)] show ?thesis
    by (simp add: wr_inv_def get_allocation_nonce_def fifo_claim_ok fifo_claim_dom del: not_None_eq)
qed

interpretation wr_machine: invariant_machine "wr_exec tk" i128_args world_moves wr_inv for tk
proof
  show "wr_inv s'" if "wr_inv s" "world_moves s s'" for s s' :: "'w wr_state"
    using that by (auto simp: world_moves_def wr_inv_def get_allocation_nonce_def)
qed (rule wr_exec_inv)

text \<open>The contract right after deployment, in any world.\<close>

definition wr_fresh :: "'w \<Rightarrow> 'w wr_state" where
  "wr_fresh w = \<lparr>events = [], world = w, ug_admin = None, ug_guardian = None, ug_pending_hash = None,
     ug_pending_at = None, ug_pending_version = None, ug_version = None, ug_delay = None, ug_schema = None,
     ug_wasm = None, wr_operator = None, wr_token = None, wr_paused = None, wr_hold_window = None,
     wr_nonce = Map.empty, wr_allocation = Map.empty\<rparr>"

lemma wr_fresh_inv: "wr_inv (wr_fresh w)"
  by (simp add: wr_inv_def wr_fresh_def allocations_ok_def)

section \<open>Properties\<close>

text \<open>C22. A claim is first in, first out: in every reachable state, a claim that returns \<open>x\<close> pays exactly
  \<open>x\<close> from the contract to the claimant, and leaves the allocations as the reference \<open>fifo_claim\<close> has
  them: each eligible allocation of the listing has handed out the part of \<open>x\<close> that the ones before
  it do not cover, an emptied one is \<open>Claimed\<close>, and no other allocation changed; the view shows \<open>x\<close>
  less than before.\<close>

theorem claim_is_fifo:
  assumes "reach (wr_exec tk) i128_args world_moves (wr_fresh w0) s"
    and "wr_claim tk e to l a s = Inr (x, s')"
  shows "\<exists>t token. wr_claimable e to l s = Inr t \<and> wr_claimable e to l s' = Inr (t - x) \<and> 0 < x \<and>
    (\<forall>n. a = Some n \<longrightarrow> x = n) \<and> (a = None \<longrightarrow> x = t) \<and>
    tk_transfer tk token (contract_addr e) to x (world s) = Some (world s') \<and>
    wr_allocation s' = fifo_claim (timestamp e) (get_hold_window s) (to, l) (get_allocation_nonce (to, l) s) 0 x
      (wr_allocation s) \<and>
    (\<Sum>j = 0..<get_allocation_nonce (to, l) s.
       fifo_share (open_at (timestamp e) (get_hold_window s) (wr_allocation s) (to, l)) x 0 j) = x"
proof -
  from wr_machine.reach_inv [OF assms(1) wr_fresh_inv] have inv: "allocations_ok (wr_allocation s)"
    by (simp add: wr_inv_def)
  from wr_claim_Inr [OF assms(2) inv] obtain t w token where c:
    "sum_claimable e (to, l) s = Inr t" "0 < x" "x \<le> t" "x = paid a t"
    "tk_transfer tk token (contract_addr e) to x (world s) = Some w" "l \<noteq> []" "length l \<le> WR_MAX_STRING_LEN"
    "s' = publish (wr_event ''claim'' @ [VAddr to, VStr l]) [VInt x, VInt (t - x)] (claimed_state e (to, l) x w s)"
    by blast
  note t = sum_claimable_Inr [OF c(1)]
  have fields: "wr_allocation s' = fifo_claim (timestamp e) (get_hold_window s) (to, l)
      (get_allocation_nonce (to, l) s) 0 x (wr_allocation s)" "world s' = w"
    "get_hold_window s' = get_hold_window s" "get_allocation_nonce (to, l) s' = get_allocation_nonce (to, l) s"
    by (simp_all add: c(8) claimed_state_def host_simps get_hold_window_def get_allocation_nonce_def)
  have "open_sum (timestamp e) (to, l) s' = t - x"
    using open_sum_claimed [OF inv, of x e "(to, l)" w] t c(2,3)
    by (simp add: c(8) host_simps get_hold_window_def get_allocation_nonce_def)
  moreover have "t < 2 ^ 127" using c(1) i128_sum_claimable by blast
  ultimately have "sum_claimable e (to, l) s' = Inr (t - x)"
    using sum_claimable_returns [of s' e "(to, l)"] t c(2) fields
    by (simp add: fifo_claim_ok inv times_ok_fifo_claim)
  moreover have "(\<Sum>j = 0..<get_allocation_nonce (to, l) s.
      fifo_share (open_at (timestamp e) (get_hold_window s) (wr_allocation s) (to, l)) x 0 j) = x"
    using t c(2,3) by (simp add: sum_fifo_share open_at_nonneg inv)
  ultimately show ?thesis using c fields
    by (auto simp: wr_claimable_def paid_def split: option.splits)
qed

text \<open>The consuming loop never fails on allocations whose sums fit.\<close>

lemma consume_one_returns:
  assumes "allocations_ok (wr_allocation s)" and "0 < remaining" and "i128_ok remaining"
    and "\<And>r. wr_allocation s (k, i) = Some r \<Longrightarrow> al_status r = AS_Pending \<Longrightarrow> al_timestamp r + hold < 2 ^ 64"
  shows "\<exists>p. consume_one now hold k i remaining s = Inr p"
proof (cases "wr_allocation s (k, i)")
  case (Some r)
  note ok = record_okD [OF assms(1) Some]
  have "is_claimable now hold r = Inr (al_status r = AS_Pending \<and> al_timestamp r + hold \<le> now)"
    using assms(4) [OF Some] by (auto simp: is_claimable_def ck_u64_def)
  moreover have "i128_ok (al_amount r - al_claimed r)"
    "i128_ok (al_claimed r + min remaining (al_amount r - al_claimed r))"
    "i128_ok (remaining - min remaining (al_amount r - al_claimed r))" if "al_status r = AS_Pending"
    using ok that assms(2,3) by (auto simp: record_ok_def i128_ok_def)
  ultimately show ?thesis
    using Some by (auto simp: consume_one_def get_allocation_def ck_i128_def Let_def)
qed (simp add: consume_one_def get_allocation_def)

lemma consume_loop_returns:
  assumes "allocations_ok (wr_allocation s)" and "times_ok hold (wr_allocation s) k n"
    and "0 \<le> remaining" and "i128_ok remaining"
  shows "\<exists>p. wr_consume_loop now hold k n i remaining s = Inr p"
  using assms
proof (induction now hold k n i remaining s rule: wr_consume_loop.induct)
  case (1 now hold k n i remaining s)
  show ?case
  proof (cases "i < n \<and> 0 < remaining")
    case True
    then obtain rem1 s1 where s1: "consume_one now hold k i remaining s = Inr (rem1, s1)"
      using consume_one_returns [OF "1.prems"(1) _ "1.prems"(4), of k i hold now] "1.prems"(2)
      by (auto simp: times_ok_def)
    have one: "rem1 = remaining - min (open_at now hold (wr_allocation s) k i) remaining"
      "s1 = s\<lparr>wr_allocation := fifo_claim now hold k (i + 1) i remaining (wr_allocation s)\<rparr>"
      using consume_one_Inr [OF s1 "1.prems"(1)] True by auto
    have "0 \<le> rem1" "i128_ok rem1"
      using one(1) open_at_nonneg [OF "1.prems"(1), of now hold k i] "1.prems"(3,4)
      by (auto simp: i128_ok_def)
    moreover have "allocations_ok (wr_allocation s1)" "times_ok hold (wr_allocation s1) k n"
      using "1.prems"(1,2) unfolding one(2) by (simp_all add: fifo_claim_ok times_ok_fifo_claim del: Suc_eq_plus1)
    ultimately have "\<exists>p. wr_consume_loop now hold k n (i + 1) rem1 s1 = Inr p"
      using "1.IH" [OF True] by blast
    with True s1 show ?thesis by (subst wr_consume_loop.simps) simp
  next
    case False
    then show ?thesis by (subst wr_consume_loop.simps) auto
  qed
qed

text \<open>C23. What the view shows can be claimed: in every reachable state, when \<open>wr_claimable\<close> shows \<open>t\<close>, the
  contract is not paused and the token can move the amount, an authorised claim of any amount from 1
  to \<open>t\<close> returns that amount: no loop, sum or window check stands in its way.\<close>

theorem claimable_can_be_claimed:
  assumes "reach (wr_exec tk) i128_args world_moves (wr_fresh w0) s"
    and "wr_claimable e to l s = Inr t" and "0 < a" and "a \<le> t"
    and "authorized e to" and "\<not> wr_get_paused s" and "wr_token s = Some token"
    and "tk_transfer tk token (contract_addr e) to a (world s) = Some w"
  shows "\<exists>s'. wr_claim tk e to l (Some a) s = Inr (a, s')"
proof -
  from wr_machine.reach_inv [OF assms(1) wr_fresh_inv] have inv: "allocations_ok (wr_allocation s)"
    by (simp add: wr_inv_def)
  have l: "l \<noteq> []" "length l \<le> WR_MAX_STRING_LEN" and sum: "sum_claimable e (to, l) s = Inr t"
    using assms(2-4) by (auto simp: wr_claimable_def split: if_splits)
  note t = sum_claimable_Inr [OF sum]
  have a: "i128_ok a" using i128_sum_claimable [OF sum] assms(3,4) by (simp add: i128_ok_def)
  obtain rem1 s1 where loop: "wr_consume_loop (timestamp e) (get_hold_window s) (to, l)
      (get_allocation_nonce (to, l) s) 0 a s = Inr (rem1, s1)"
    using consume_loop_returns [OF inv _ _ a, of "get_hold_window s" "(to, l)"] t assms(3) by fastforce
  have s1: "s1\<lparr>world := w\<rparr> = claimed_state e (to, l) a w s" "wr_token s1 = Some token" "world s1 = world s"
    using wr_consume_loop_Inr [OF loop inv] assms(3,7) by (simp_all add: claimed_state_def)
  have "open_sum (timestamp e) (to, l) (claimed_state e (to, l) a w s) = t - a"
    using open_sum_claimed [OF inv, of a e "(to, l)" w] t assms(3,4) by simp
  then have "\<exists>v. sum_claimable e (to, l) (s1\<lparr>world := w\<rparr>) = Inr v"
    using sum_claimable_returns [of "claimed_state e (to, l) a w s" e "(to, l)"] t
      i128_sum_claimable [OF sum] assms(3) unfolding s1(1)
    by (auto simp: claimed_state_def fifo_claim_ok inv times_ok_fifo_claim get_hold_window_def
        get_allocation_nonce_def)
  with l sum loop s1 assms(3-8) show ?thesis
    by (auto simp: wr_claim_def wr_gate_defs amount_to_claim_def token_transfer_def Let_def)
qed

section \<open>The books of a listing\<close>

definition claimed_at :: "allocations \<Rightarrow> wr_key \<Rightarrow> nat \<Rightarrow> int" where
  "claimed_at m k i = (case m (k, i) of None \<Rightarrow> 0 | Some r \<Rightarrow> al_claimed r)"

definition claimed_total :: "wr_key \<Rightarrow> 'w wr_state \<Rightarrow> int" where
  "claimed_total k s = (\<Sum>i = 0..<get_allocation_nonce k s. claimed_at (wr_allocation s) k i)"

text \<open>What an accepted call pays to a whistleblower for a listing.\<close>

definition wr_pays :: "'w token_if \<Rightarrow> wr_key \<Rightarrow> env \<Rightarrow> wr_call \<Rightarrow> 'w wr_state \<Rightarrow> int" where
  "wr_pays tk k e c s =
     (case c of
        WR_Claim u l a \<Rightarrow>
          (case wr_claim tk e u l a s of Inr (x, _) \<Rightarrow> if (u, l) = k then x else 0 | Inl _ \<Rightarrow> 0)
      | _ \<Rightarrow> 0)"

lemma claimed_at_fifo_claim:
  assumes "allocations_ok m" and "j < n"
  shows "claimed_at (fifo_claim now hold k n 0 x m) k' j =
    claimed_at m k' j + (if k' = k then fifo_share (open_at now hold m k) x 0 j else 0)"
proof -
  have "0 \<le> fifo_share (open_at now hold m k) x 0 j"
    and "m (k, j) = None \<Longrightarrow> fifo_share (open_at now hold m k) x 0 j = 0"
    by (simp_all add: fifo_share_bounds open_at_nonneg assms(1))
      (simp add: fifo_share_def open_at_def)
  with assms(2) show ?thesis
    by (auto simp: claimed_at_def fifo_claim_def hand_out_def split: option.splits)
qed

lemma wr_claim_total:
  assumes "wr_inv s" and "wr_claim tk e u l a s = Inr (x, s')"
  shows "claimed_total k s' = claimed_total k s + (if (u, l) = k then x else 0)"
proof -
  from assms(1) have inv: "allocations_ok (wr_allocation s)" by (simp add: wr_inv_def)
  from wr_claim_Inr [OF assms(2) inv] obtain t where t: "sum_claimable e (u, l) s = Inr t" "0 < x" "x \<le> t"
    by blast
  let ?f = "open_at (timestamp e) (get_hold_window s) (wr_allocation s) (u, l)"
  show ?thesis
  proof (cases "(u, l) = k")
    case True
    have "claimed_total k s' =
        (\<Sum>i = 0..<get_allocation_nonce k s. claimed_at (wr_allocation s) k i + fifo_share ?f x 0 i)"
      using wr_claim_allocations [OF assms(2) inv] True unfolding claimed_total_def get_allocation_nonce_def
      by (intro sum.cong) (auto simp: claimed_at_fifo_claim inv get_allocation_nonce_def)
    also have "\<dots> = claimed_total k s + (\<Sum>i = 0..<get_allocation_nonce k s. fifo_share ?f x 0 i)"
      by (simp add: claimed_total_def sum.distrib)
    also have "(\<Sum>i = 0..<get_allocation_nonce k s. fifo_share ?f x 0 i) = x"
      using sum_claimable_Inr [OF t(1)] t(2,3) True by (simp add: sum_fifo_share open_at_nonneg inv)
    finally show ?thesis using True by simp
  next
    case False
    then have "claimed_at (wr_allocation s') k i = claimed_at (wr_allocation s) k i" for i
      using wr_claim_allocations [OF assms(2) inv] by (auto simp: claimed_at_def fifo_claim_def)
    then show ?thesis
      using wr_claim_allocations [OF assms(2) inv] False by (simp add: claimed_total_def get_allocation_nonce_def)
  qed
qed

lemma wr_exec_total:
  assumes "wr_inv s" and "wr_exec tk e c s = Inr s'"
  shows "claimed_total k s' = claimed_total k s + wr_pays tk k e c s"
  using assms(2)
proof (cases rule: wr_exec_cases)
  case keeps
  then show ?thesis
    by (cases c) (auto simp: wr_pays_def wr_keeps_def claimed_total_def get_allocation_nonce_def)
next
  case (allocate p u l d n)
  from allocate_Inr [OF this(2)] have
    "claimed_at (wr_allocation s') k i = claimed_at (wr_allocation s) k i" if "i < get_allocation_nonce k s" for i
    using that by (auto simp: claimed_at_def)
  with allocate_Inr [OF allocate(2)] allocate(1) show ?thesis
    by (cases "(u, l) = k") (auto simp: claimed_total_def wr_pays_def get_allocation_nonce_def claimed_at_def)
next
  case (revoke a u l i r)
  from revoke_allocation_Inr [OF this(2)] have
    "claimed_at (wr_allocation s') k j = claimed_at (wr_allocation s) k j" for j
    by (auto simp: claimed_at_def)
  with revoke_allocation_Inr [OF revoke(2)] revoke(1) show ?thesis
    by (auto simp: claimed_total_def wr_pays_def get_allocation_nonce_def)
next
  case (claim u l a x)
  with wr_claim_total [OF assms(1) claim(2), of k] show ?thesis by (simp add: wr_pays_def)
qed

text \<open>Rewards are paid once and only as allocated: in every history from the deployment, what a
  whistleblower was paid for a listing is the sum of the claimed amounts of its allocations, each of
  which lies between zero and the allocated amount and is zero for a revoked allocation; so the
  total is at most what was allocated and not revoked.\<close>

theorem rewards_paid_as_allocated:
  assumes "tally (wr_exec tk) (wr_pays tk k) cs 0 (wr_fresh w0) = (total_paid, s)"
    and "\<forall>(e, c) \<in> set cs. i128_args e c"
  shows "total_paid = claimed_total k s \<and>
    (\<forall>i r. wr_allocation s (k, i) = Some r \<longrightarrow> 0 \<le> al_claimed r \<and> al_claimed r \<le> al_amount r \<and>
       (al_status r = AS_Revoked \<longrightarrow> al_claimed r = 0)) \<and>
    total_paid \<le> (\<Sum>i = 0..<get_allocation_nonce k s.
       case wr_allocation s (k, i) of None \<Rightarrow> 0 | Some r \<Rightarrow> if al_status r = AS_Revoked then 0 else al_amount r)"
proof -
  have "wr_inv s \<and> total_paid = claimed_total k s"
  proof (rule tally_inv [OF assms(1), where P = "\<lambda>acc s. wr_inv s \<and> acc = claimed_total k s"])
    show "wr_inv (wr_fresh w0) \<and> 0 = claimed_total k (wr_fresh w0)"
      using wr_fresh_inv by (simp add: claimed_total_def wr_fresh_def get_allocation_nonce_def)
  next
    fix e c acc and s s' :: "'a wr_state"
    assume c: "(e, c) \<in> set cs" and s: "wr_inv s \<and> acc = claimed_total k s" and run: "wr_exec tk e c s = Inr s'"
    from c assms(2) have "i128_args e c" by blast
    with s wr_exec_inv [OF _ _ run] wr_exec_total [OF _ run, of k]
    show "wr_inv s' \<and> acc + wr_pays tk k e c s = claimed_total k s'" by simp
  qed
  moreover from this have recs: "record_ok r" if "wr_allocation s (k, i) = Some r" for i r
    using that by (auto simp: wr_inv_def dest: record_okD)
  have bounds: "0 \<le> al_claimed r \<and> al_claimed r \<le> al_amount r \<and> (al_status r = AS_Revoked \<longrightarrow> al_claimed r = 0)"
    if "wr_allocation s (k, i) = Some r" for i r
    using recs [OF that] by (auto simp: record_ok_def split: allocation_status.splits)
  have "claimed_total k s \<le> (\<Sum>i = 0..<get_allocation_nonce k s.
       case wr_allocation s (k, i) of None \<Rightarrow> 0 | Some r \<Rightarrow> if al_status r = AS_Revoked then 0 else al_amount r)"
    unfolding claimed_total_def
    by (rule sum_mono) (auto simp: claimed_at_def bounds split: option.splits)
  ultimately show ?thesis using bounds by blast
qed

section \<open>Witnesses\<close>

abbreviation wr_at :: "nat \<Rightarrow> nat \<Rightarrow> env" where
  "wr_at t who \<equiv> call_at t (Address 9) (Address who)"

definition wr_world :: ledger where
  "wr_world = (\<lambda>token a. if a = Address 9 then 1000 else 0)"

definition wr_sample_calls :: "(env \<times> wr_call) list" where
  "wr_sample_calls =
     [(wr_at 1 2, WR_Init (Address 2) (Address 3) (Address 7) 10),
      (wr_at 2 3, WR_Allocate (Address 3) (Address 5) ''flat'' ''deal'' 100),
      (wr_at 3 3, WR_Allocate (Address 3) (Address 5) ''flat'' ''deal'' 50),
      (wr_at 4 3, WR_Allocate (Address 3) (Address 5) ''flat'' ''deal'' 70),
      (wr_at 5 3, WR_Revoke (Address 3) (Address 5) ''flat'' 2 ''duplicate'')]"

definition wr_sample :: "ledger wr_state" where
  "wr_sample = run_calls (wr_exec ledger_token) wr_sample_calls (wr_fresh wr_world)"

lemmas wr_eval = wr_sample_calls_def wr_fresh_def wr_world_def apply_call_def wr_init_def allocate_def
  revoke_allocation_def wr_claim_def amount_to_claim_def wr_gate_defs wr_get_paused_def WR_MAX_STRING_LEN_def
  require_admin_permission_def get_allocation_nonce_def get_allocation_def put_allocation_def
  get_hold_window_def sum_claimable_def add_claimable_def consume_one_def is_claimable_def wr_claimable_def
  token_transfer_def ledger_token_def ck_u64_def ck_i128_def i128_ok_def drop_result_def host_simps Let_def

lemma wr_sample_reach: "reach (wr_exec ledger_token) i128_args world_moves (wr_fresh wr_world) wr_sample"
  unfolding wr_sample_def by (rule run_calls_reach) (simp add: wr_sample_calls_def i128_args_def i128_ok_def)

lemma wr_sample_claimable: "wr_claimable (wr_at 13 5) (Address 5) ''flat'' wr_sample = Inr 150"
  by (simp add: wr_sample_def wr_eval sum_loop.simps)

lemma claim_is_fifo_witness:
  "\<exists>s'. wr_claim ledger_token (wr_at 13 5) (Address 5) ''flat'' (Some 120) wr_sample = Inr (120, s') \<and>
     wr_claimable (wr_at 13 5) (Address 5) ''flat'' s' = Inr 30"
proof -
  obtain s' where s': "wr_claim ledger_token (wr_at 13 5) (Address 5) ''flat'' (Some 120) wr_sample = Inr (120, s')"
    by (simp add: wr_sample_def wr_eval sum_loop.simps wr_consume_loop.simps)
  with claim_is_fifo [OF wr_sample_reach s'] wr_sample_claimable show ?thesis by auto
qed

lemma claimable_can_be_claimed_witness:
  "\<exists>s'. wr_claim ledger_token (wr_at 13 5) (Address 5) ''flat'' (Some 150) wr_sample = Inr (150, s')"
proof (rule claimable_can_be_claimed [OF wr_sample_reach])
  show "wr_claimable (wr_at 13 5) (Address 5) ''flat'' wr_sample = Inr 150" by (rule wr_sample_claimable)
  show "tk_transfer ledger_token (Address 7) (contract_addr (wr_at 13 5)) (Address 5) 150 (world wr_sample) =
      Some (wr_world(Address 7 := (\<lambda>a. wr_world (Address 7) a + moved 150 (Address 9) (Address 5) a)))"
    by (simp add: wr_sample_def wr_eval)
  show "\<not> wr_get_paused wr_sample" "wr_token wr_sample = Some (Address 7)"
    by (simp_all add: wr_sample_def wr_eval)
qed simp_all

lemma rewards_paid_as_allocated_witness:
  "\<exists>s. tally (wr_exec ledger_token) (wr_pays ledger_token (Address 5, ''flat''))
         (wr_sample_calls @ [(wr_at 13 5, WR_Claim (Address 5) ''flat'' (Some 120))]) 0 (wr_fresh wr_world) = (120, s) \<and>
     claimed_total (Address 5, ''flat'') s = 120"
proof -
  let ?cs = "wr_sample_calls @ [(wr_at 13 5, WR_Claim (Address 5) ''flat'' (Some 120))]"
  obtain p s where run: "tally (wr_exec ledger_token) (wr_pays ledger_token (Address 5, ''flat'')) ?cs 0
      (wr_fresh wr_world) = (p, s)" by fastforce
  then have "p = 120"
    by (simp add: wr_eval wr_pays_def sum_loop.simps wr_consume_loop.simps)
  moreover have "\<forall>(e, c) \<in> set ?cs. i128_args e c"
    by (simp add: wr_sample_calls_def i128_args_def i128_ok_def)
  ultimately show ?thesis using rewards_paid_as_allocated [OF run] run by auto
qed

end
