(* ===== verification/RentToOwn.thy ===== *)
theory RentToOwn
  imports AccessControl Pausable UpgradeGovernance
begin

text \<open>
  Rent to own (\<open>rent_to_own/src/lib.rs\<close>): deals that accumulate equity by recorded payments, are
  completed or defaulted, and on default split the equity between tenant and platform.  The
  contract keeps accounts only; no token moves.
\<close>

section \<open>State and errors\<close>

datatype rto_error =
    RTO_AlreadyInitialized
  | RTO_NotAuthorized
  | RTO_DealNotFound
  | RTO_DealNotActive
  | RTO_PaymentsNotComplete
  | RTO_EquityOverflow
  | RTO_InvalidAmount
  | RTO_DealAlreadyExists
  | RTO_AlreadySettled
  | RTO_DealNotDefaulted
  | RTO_SettlementNotFound
  | RTO_InvalidTransfer
  | RTO_Paused
  | RTO_UpgradeAlreadyPending
  | RTO_NoUpgradePending
  | RTO_UpgradeDelayNotMet

datatype rto_status = RTO_Active | RTO_Completed | RTO_Defaulted | RTO_Cancelled

record rto_deal =
  rd_deal_id :: bytes32
  rd_tenant :: address
  rd_property_value :: int
  rd_equity :: int
  rd_monthly_equity :: int
  rd_payments_made :: nat
  rd_payments_required :: nat
  rd_status :: rto_status

record equity_payment =
  ep_deal_id :: bytes32
  ep_number :: nat
  ep_equity :: int
  ep_rent :: int
  ep_paid_at :: nat

record default_settlement =
  df_refundable :: int
  df_forfeited :: int
  df_settled :: bool

record 'w rto_state = "'w ug_host" +
  rto_paused :: "bool option"
  rto_deals :: "bytes32 \<rightharpoonup> rto_deal"
  rto_payments :: "bytes32 \<times> nat \<rightharpoonup> equity_payment"
  rto_forfeiture_bps :: "nat option"
  rto_settlements :: "bytes32 \<rightharpoonup> default_settlement"

definition rto_get_admin :: "'w rto_state \<Rightarrow> 'e fault + address" where
  "rto_get_admin s = expect (ug_admin s) ''not init''"

definition rto_require_admin :: "env \<Rightarrow> address \<Rightarrow> 'w rto_state \<Rightarrow> rto_error fault + unit" where
  "rto_require_admin e caller s =
     bindE (rto_get_admin s) (\<lambda>admin. require_admin_permission e admin caller ''admin'' RTO_NotAuthorized s)"

definition rto_paused_state :: "'w rto_state \<Rightarrow> bool" where
  "rto_paused_state s = unwrap_or (rto_paused s) False"

definition rto_require_not_paused :: "'w rto_state \<Rightarrow> rto_error fault + unit" where
  "rto_require_not_paused s = (if rto_paused_state s then Inl (Err RTO_Paused) else Inr ())"

definition get_forfeiture_bps :: "'w rto_state \<Rightarrow> nat" where
  "get_forfeiture_bps s = unwrap_or (rto_forfeiture_bps s) 0"

text \<open>Refundable and forfeited part of the equity.\<close>

definition equity_split :: "int \<Rightarrow> nat \<Rightarrow> 'e fault + int \<times> int" where
  "equity_split equity forfeiture_bps =
     bindE (ck_i128 (equity * int forfeiture_bps)) (\<lambda>product.
     bindE (div_i128 product 10000) (\<lambda>forfeited.
     bindE (ck_i128 (equity - forfeited)) (\<lambda>refundable.
     Inr (refundable, forfeited))))"

section \<open>Operations\<close>

definition rto_event :: "string \<Rightarrow> val list" where
  "rto_event name = [VSym ''rent_to_own'', VSym name]"

definition rto_init :: "address \<Rightarrow> nat \<Rightarrow> 'w rto_state \<Rightarrow> rto_error fault + 'w rto_state" where
  "rto_init admin forfeiture_bps s =
     (if ug_admin s \<noteq> None then Inl (Err RTO_AlreadyInitialized)
      else if 10000 < forfeiture_bps then Inl (Err RTO_InvalidAmount)
      else Inr (s\<lparr>ug_admin := Some admin, ug_version := Some 1, rto_forfeiture_bps := Some forfeiture_bps,
                 rto_paused := Some False\<rparr>))"

definition register_deal ::
  "env \<Rightarrow> address \<Rightarrow> bytes32 \<Rightarrow> address \<Rightarrow> int \<Rightarrow> int \<Rightarrow> nat \<Rightarrow> 'w rto_state \<Rightarrow>
   rto_error fault + 'w rto_state" where
  "register_deal e admin deal_id tenant property_value monthly_equity payments_required s =
     bindE (rto_require_not_paused s) (\<lambda>_.
     bindE (rto_require_admin e admin s) (\<lambda>_.
     if property_value \<le> 0 \<or> monthly_equity \<le> 0 then Inl (Err RTO_InvalidAmount)
     else if rto_deals s deal_id \<noteq> None then Inl (Err RTO_DealAlreadyExists)
     else
     let deal = \<lparr>rd_deal_id = deal_id, rd_tenant = tenant, rd_property_value = property_value, rd_equity = 0,
           rd_monthly_equity = monthly_equity, rd_payments_made = 0, rd_payments_required = payments_required,
           rd_status = RTO_Active\<rparr>
     in Inr (publish (rto_event ''deal_registered'') [VBytes deal_id]
          (s\<lparr>rto_deals := (rto_deals s)(deal_id \<mapsto> deal)\<rparr>))))"

definition record_equity_payment ::
  "env \<Rightarrow> address \<Rightarrow> bytes32 \<Rightarrow> int \<Rightarrow> int \<Rightarrow> 'w rto_state \<Rightarrow> rto_error fault + 'w rto_state" where
  "record_equity_payment e admin deal_id rent_amount equity_amount s =
     bindE (rto_require_not_paused s) (\<lambda>_.
     bindE (rto_require_admin e admin s) (\<lambda>_.
     if rent_amount \<le> 0 \<or> equity_amount \<le> 0 then Inl (Err RTO_InvalidAmount)
     else
     bindE (ok_or (rto_deals s deal_id) RTO_DealNotFound) (\<lambda>deal.
     if rd_status deal \<noteq> RTO_Active then Inl (Err RTO_DealNotActive)
     else
     bindE (ck_i128 (rd_equity deal + equity_amount)) (\<lambda>new_equity.
     if rd_property_value deal < new_equity then Inl (Err RTO_EquityOverflow)
     else
     bindE (ck_u32 (rd_payments_made deal + 1)) (\<lambda>payment_number.
     let deal = deal\<lparr>rd_equity := new_equity, rd_payments_made := payment_number\<rparr>;
         s = s\<lparr>rto_deals := (rto_deals s)(deal_id \<mapsto> deal)\<rparr>;
         payment = \<lparr>ep_deal_id = deal_id, ep_number = payment_number, ep_equity = equity_amount,
           ep_rent = rent_amount, ep_paid_at = timestamp e\<rparr>;
         s = s\<lparr>rto_payments := (rto_payments s)((deal_id, payment_number) \<mapsto> payment)\<rparr>
     in Inr (publish (rto_event ''equity_payment_recorded'')
            [VBytes deal_id, VNat payment_number, VInt new_equity] s))))))"

definition rto_complete_deal ::
  "env \<Rightarrow> address \<Rightarrow> bytes32 \<Rightarrow> 'w rto_state \<Rightarrow> rto_error fault + 'w rto_state" where
  "rto_complete_deal e admin deal_id s =
     bindE (rto_require_not_paused s) (\<lambda>_.
     bindE (rto_require_admin e admin s) (\<lambda>_.
     bindE (ok_or (rto_deals s deal_id) RTO_DealNotFound) (\<lambda>deal.
     if rd_status deal \<noteq> RTO_Active then Inl (Err RTO_DealNotActive)
     else if rd_payments_made deal \<noteq> rd_payments_required deal then Inl (Err RTO_PaymentsNotComplete)
     else Inr (publish (rto_event ''deal_completed'')
            [VBytes deal_id, VAddr (rd_tenant deal), VInt (rd_equity deal)]
            (s\<lparr>rto_deals := (rto_deals s)(deal_id \<mapsto> deal\<lparr>rd_status := RTO_Completed\<rparr>)\<rparr>)))))"

definition rto_default_deal ::
  "env \<Rightarrow> address \<Rightarrow> bytes32 \<Rightarrow> string \<Rightarrow> 'w rto_state \<Rightarrow> rto_error fault + 'w rto_state" where
  "rto_default_deal e admin deal_id reason s =
     bindE (rto_require_not_paused s) (\<lambda>_.
     bindE (rto_require_admin e admin s) (\<lambda>_.
     bindE (ok_or (rto_deals s deal_id) RTO_DealNotFound) (\<lambda>deal.
     if rd_status deal \<noteq> RTO_Active then Inl (Err RTO_DealNotActive)
     else
     let accumulated = rd_equity deal in
     bindE (equity_split accumulated (get_forfeiture_bps s)) (\<lambda>(refundable, forfeited).
     let s = s\<lparr>rto_deals := (rto_deals s)(deal_id \<mapsto> deal\<lparr>rd_status := RTO_Defaulted\<rparr>)\<rparr>;
         settlement = \<lparr>df_refundable = refundable, df_forfeited = forfeited, df_settled = False\<rparr>;
         s = s\<lparr>rto_settlements := (rto_settlements s)(deal_id \<mapsto> settlement)\<rparr>
     in Inr (publish (rto_event ''deal_defaulted'')
            [VBytes deal_id, VSym reason, VInt accumulated, VInt refundable, VInt forfeited] s)))))"

definition settle_default ::
  "env \<Rightarrow> address \<Rightarrow> bytes32 \<Rightarrow> 'w rto_state \<Rightarrow> rto_error fault + default_settlement \<times> 'w rto_state" where
  "settle_default e admin deal_id s =
     bindE (rto_require_not_paused s) (\<lambda>_.
     bindE (rto_require_admin e admin s) (\<lambda>_.
     bindE (ok_or (rto_deals s deal_id) RTO_DealNotFound) (\<lambda>deal.
     if rd_status deal \<noteq> RTO_Defaulted then Inl (Err RTO_DealNotDefaulted)
     else
     bindE (ok_or (rto_settlements s deal_id) RTO_SettlementNotFound) (\<lambda>settlement.
     if df_settled settlement then Inl (Err RTO_AlreadySettled)
     else
     let settlement = settlement\<lparr>df_settled := True\<rparr> in
     Inr (settlement, publish (rto_event ''equity_settled'')
            [VBytes deal_id, VAddr (rd_tenant deal), VInt (df_refundable settlement), VInt (df_forfeited settlement)]
            (s\<lparr>rto_settlements := (rto_settlements s)(deal_id \<mapsto> settlement)\<rparr>))))))"

definition transfer_position ::
  "env \<Rightarrow> address \<Rightarrow> address \<Rightarrow> address \<Rightarrow> bytes32 \<Rightarrow> 'w rto_state \<Rightarrow> rto_error fault + 'w rto_state" where
  "transfer_position e admin from to deal_id s =
     bindE (rto_require_not_paused s) (\<lambda>_.
     bindE (rto_require_admin e admin s) (\<lambda>_.
     bindE (require_auth e from) (\<lambda>_.
     bindE (ok_or (rto_deals s deal_id) RTO_DealNotFound) (\<lambda>deal.
     if rd_tenant deal \<noteq> from then Inl (Err RTO_NotAuthorized)
     else if rd_status deal \<noteq> RTO_Active then Inl (Err RTO_InvalidTransfer)
     else if from = to then Inl (Err RTO_InvalidTransfer)
     else Inr (publish (rto_event ''position_transferred'')
            [VBytes deal_id, VAddr from, VAddr to, VInt (rd_equity deal)]
            (s\<lparr>rto_deals := (rto_deals s)(deal_id \<mapsto> deal\<lparr>rd_tenant := to\<rparr>)\<rparr>))))))"

text \<open>\<open>as u32\<close> keeps the low 32 bits of the quotient.\<close>

definition get_equity_percentage :: "bytes32 \<Rightarrow> 'w rto_state \<Rightarrow> rto_error fault + nat" where
  "get_equity_percentage deal_id s =
     (case rto_deals s deal_id of
        None \<Rightarrow> Inr 0
      | Some deal \<Rightarrow>
          if rd_property_value deal = 0 then Inr 0
          else
          bindE (ck_i128 (rd_equity deal * 10000)) (\<lambda>scaled.
          bindE (div_i128 scaled (rd_property_value deal)) (\<lambda>q. Inr (nat (q mod 2 ^ 32)))))"

section \<open>Upgrades and the pause switch\<close>

definition rto_set_guardian ::
  "env \<Rightarrow> address \<Rightarrow> address \<Rightarrow> 'w rto_state \<Rightarrow> rto_error fault + 'w rto_state" where
  "rto_set_guardian e admin guardian s =
     map_err (\<lambda>_. RTO_NotAuthorized) (set_guardian e admin (Some guardian) ''rent_to_own'' s)"

definition rto_set_upgrade_delay ::
  "env \<Rightarrow> address \<Rightarrow> nat \<Rightarrow> 'w rto_state \<Rightarrow> rto_error fault + 'w rto_state" where
  "rto_set_upgrade_delay e admin delay_seconds s =
     map_err (\<lambda>_. RTO_NotAuthorized) (set_upgrade_delay e admin delay_seconds ''rent_to_own'' s)"

fun rto_propose_error :: "ug_error \<Rightarrow> rto_error" where
  "rto_propose_error UG_NotAuthorized = RTO_NotAuthorized"
| "rto_propose_error UG_UpgradeAlreadyPending = RTO_UpgradeAlreadyPending"
| "rto_propose_error UG_InvalidUpgradeVersion = RTO_NotAuthorized"
| "rto_propose_error _ = RTO_NotAuthorized"

definition rto_propose_upgrade ::
  "env \<Rightarrow> address \<Rightarrow> bytes32 \<Rightarrow> nat \<Rightarrow> 'w rto_state \<Rightarrow> rto_error fault + 'w rto_state" where
  "rto_propose_upgrade e admin new_wasm_hash new_version s =
     map_err rto_propose_error (propose_upgrade e admin new_wasm_hash new_version None ''rent_to_own'' s)"

fun rto_execute_error :: "ug_error \<Rightarrow> rto_error" where
  "rto_execute_error UG_NotAuthorized = RTO_NotAuthorized"
| "rto_execute_error UG_NoPendingUpgrade = RTO_NoUpgradePending"
| "rto_execute_error UG_UpgradeDelayNotElapsed = RTO_UpgradeDelayNotMet"
| "rto_execute_error _ = RTO_NotAuthorized"

definition rto_execute_upgrade ::
  "env \<Rightarrow> address \<Rightarrow> bytes32 \<Rightarrow> 'w rto_state \<Rightarrow> rto_error fault + 'w rto_state" where
  "rto_execute_upgrade e admin new_wasm_hash s =
     map_err rto_execute_error (execute_upgrade e admin new_wasm_hash ''rent_to_own'' s)"

definition rto_emergency_upgrade ::
  "env \<Rightarrow> address \<Rightarrow> bytes32 \<Rightarrow> nat \<Rightarrow> 'w rto_state \<Rightarrow> rto_error fault + 'w rto_state" where
  "rto_emergency_upgrade e admin new_wasm_hash new_version s =
     map_err (\<lambda>_. RTO_NotAuthorized)
       (emergency_upgrade e admin new_wasm_hash new_version None ''rent_to_own'' False s)"

definition rto_cancel_upgrade :: "env \<Rightarrow> address \<Rightarrow> 'w rto_state \<Rightarrow> rto_error fault + 'w rto_state" where
  "rto_cancel_upgrade e admin s =
     bindE (rto_require_not_paused s) (\<lambda>_.
     bindE (rto_get_admin s) (\<lambda>current_admin.
     bindE (require_admin_permission e current_admin admin ''cancel_upgrade'' RTO_NotAuthorized s) (\<lambda>_.
     if ug_pending_hash s = None then Inl (Err RTO_NoUpgradePending)
     else Inr (publish (rto_event ''cancel_upgrade'') [VAddr admin] (clear_pending s)))))"

definition rto_pause :: "env \<Rightarrow> address \<Rightarrow> 'w rto_state \<Rightarrow> pausable_error fault + 'w rto_state" where
  "rto_pause e admin s =
     bindE (map_err (\<lambda>_. PE_NotAuthorized) (rto_require_admin e admin s)) (\<lambda>_.
     Inr (publish [VSym ''Pausable'', VSym ''pause''] [VAddr admin] (s\<lparr>rto_paused := Some True\<rparr>)))"

definition rto_unpause :: "env \<Rightarrow> address \<Rightarrow> 'w rto_state \<Rightarrow> pausable_error fault + 'w rto_state" where
  "rto_unpause e admin s =
     bindE (map_err (\<lambda>_. PE_NotAuthorized) (rto_require_admin e admin s)) (\<lambda>_.
     Inr (publish [VSym ''Pausable'', VSym ''unpause''] [VAddr admin] (s\<lparr>rto_paused := Some False\<rparr>)))"

section \<open>All entry points\<close>

datatype rto_call =
    RTO_Init address nat
  | RTO_Register address bytes32 address int int nat
  | RTO_Record address bytes32 int int
  | RTO_Complete address bytes32
  | RTO_Default address bytes32 string
  | RTO_Settle address bytes32
  | RTO_Transfer address address address bytes32
  | RTO_SetGuardian address address
  | RTO_SetUpgradeDelay address nat
  | RTO_ProposeUpgrade address bytes32 nat
  | RTO_ExecuteUpgrade address bytes32
  | RTO_EmergencyUpgrade address bytes32 nat
  | RTO_CancelUpgrade address
  | RTO_Pause address
  | RTO_Unpause address

datatype rto_any_error = RTO_Contract rto_error | RTO_Pausable pausable_error

fun rto_exec :: "env \<Rightarrow> rto_call \<Rightarrow> 'w rto_state \<Rightarrow> rto_any_error fault + 'w rto_state" where
  "rto_exec e (RTO_Init a b) s = map_err RTO_Contract (rto_init a b s)"
| "rto_exec e (RTO_Register a d t v n r) s = map_err RTO_Contract (register_deal e a d t v n r s)"
| "rto_exec e (RTO_Record a d r q) s = map_err RTO_Contract (record_equity_payment e a d r q s)"
| "rto_exec e (RTO_Complete a d) s = map_err RTO_Contract (rto_complete_deal e a d s)"
| "rto_exec e (RTO_Default a d r) s = map_err RTO_Contract (rto_default_deal e a d r s)"
| "rto_exec e (RTO_Settle a d) s = map_err RTO_Contract (drop_result (settle_default e a d s))"
| "rto_exec e (RTO_Transfer a f t d) s = map_err RTO_Contract (transfer_position e a f t d s)"
| "rto_exec e (RTO_SetGuardian a g) s = map_err RTO_Contract (rto_set_guardian e a g s)"
| "rto_exec e (RTO_SetUpgradeDelay a d) s = map_err RTO_Contract (rto_set_upgrade_delay e a d s)"
| "rto_exec e (RTO_ProposeUpgrade a h v) s = map_err RTO_Contract (rto_propose_upgrade e a h v s)"
| "rto_exec e (RTO_ExecuteUpgrade a h) s = map_err RTO_Contract (rto_execute_upgrade e a h s)"
| "rto_exec e (RTO_EmergencyUpgrade a h v) s = map_err RTO_Contract (rto_emergency_upgrade e a h v s)"
| "rto_exec e (RTO_CancelUpgrade a) s = map_err RTO_Contract (rto_cancel_upgrade e a s)"
| "rto_exec e (RTO_Pause a) s = map_err RTO_Pausable (rto_pause e a s)"
| "rto_exec e (RTO_Unpause a) s = map_err RTO_Pausable (rto_unpause e a s)"

lemmas rto_gate_defs = rto_get_admin_def rto_require_admin_def rto_require_not_paused_def

lemmas rto_admin_defs = rto_init_def rto_set_guardian_def rto_set_upgrade_delay_def rto_propose_upgrade_def
  rto_execute_upgrade_def rto_emergency_upgrade_def rto_cancel_upgrade_def rto_pause_def rto_unpause_def

interpretation rto_pausable: pausable rto_pause rto_unpause rto_paused_state ug_admin
  by unfold_locales
    (auto simp: rto_pause_def rto_unpause_def rto_gate_defs rto_paused_state_def outcome_simps host_simps)

section \<open>What the operations did\<close>

text \<open>The part of the state the deals live in; every administrative call keeps it.\<close>

definition rto_core :: "'w rto_state \<Rightarrow> (bytes32 \<rightharpoonup> rto_deal) \<times> (bytes32 \<times> nat \<rightharpoonup> equity_payment) \<times>
    (bytes32 \<rightharpoonup> default_settlement) \<times> nat \<times> address option" where
  "rto_core s = (rto_deals s, rto_payments s, rto_settlements s, get_forfeiture_bps s, ug_admin s)"

lemma equity_split_Inr_iff [outcome_simps]:
  "equity_split q b = Inr p \<longleftrightarrow>
     p = (q - (q * int b) sdiv 10000, (q * int b) sdiv 10000) \<and> i128_ok (q * int b) \<and>
     i128_ok ((q * int b) sdiv 10000) \<and> i128_ok (q - (q * int b) sdiv 10000)"
  by (auto simp: equity_split_def outcome_simps)

text \<open>The changes a call can make to the deals, with the facts its guards established.\<close>

inductive rto_step ::
  "env \<Rightarrow> rto_call \<Rightarrow> 'w rto_state \<Rightarrow> 'w rto_state \<Rightarrow> bool" for e c s s' where
  none: "rto_step e c s s'" if "rto_core s' = rto_core s" and "\<forall>a d. c \<noteq> RTO_Settle a d"
| init: "rto_step e c s s'" if "c = RTO_Init a b" and "ug_admin s = None" and "b \<le> 10000"
    and "rto_core s' = (rto_deals s, rto_payments s, rto_settlements s, b, Some a)"
| register: "rto_step e c s s'" if "c = RTO_Register a d t v n r" and "0 < v" and "rto_deals s d = None" and "ug_admin s \<noteq> None"
    and "rto_core s' = ((rto_deals s)(d \<mapsto> \<lparr>rd_deal_id = d, rd_tenant = t, rd_property_value = v, rd_equity = 0,
           rd_monthly_equity = n, rd_payments_made = 0, rd_payments_required = r, rd_status = RTO_Active\<rparr>),
         rto_payments s, rto_settlements s, get_forfeiture_bps s, ug_admin s)"
| pay: "rto_step e c s s'" if "c = RTO_Record a d r q" and "0 < q" and "rto_deals s d = Some deal"
    and "rd_status deal = RTO_Active" and "rd_equity deal + q \<le> rd_property_value deal"
    and "rto_core s' =
         ((rto_deals s)(d \<mapsto> deal\<lparr>rd_equity := rd_equity deal + q, rd_payments_made := rd_payments_made deal + 1\<rparr>),
          (rto_payments s)((d, rd_payments_made deal + 1) \<mapsto>
             \<lparr>ep_deal_id = d, ep_number = rd_payments_made deal + 1, ep_equity = q, ep_rent = r,
              ep_paid_at = timestamp e\<rparr>),
          rto_settlements s, get_forfeiture_bps s, ug_admin s)"
| complete: "rto_step e c s s'" if "c = RTO_Complete a d" and "rto_deals s d = Some deal"
    and "rd_status deal = RTO_Active" and "rd_payments_made deal = rd_payments_required deal"
    and "rto_core s' = ((rto_deals s)(d \<mapsto> deal\<lparr>rd_status := RTO_Completed\<rparr>), rto_payments s,
         rto_settlements s, get_forfeiture_bps s, ug_admin s)"
| default: "rto_step e c s s'" if "c = RTO_Default a d r" and "rto_deals s d = Some deal"
    and "rd_status deal = RTO_Active"
    and "forfeited = (rd_equity deal * int (get_forfeiture_bps s)) sdiv 10000"
    and "rto_core s' = ((rto_deals s)(d \<mapsto> deal\<lparr>rd_status := RTO_Defaulted\<rparr>), rto_payments s,
         (rto_settlements s)(d \<mapsto> \<lparr>df_refundable = rd_equity deal - forfeited, df_forfeited = forfeited,
            df_settled = False\<rparr>), get_forfeiture_bps s, ug_admin s)"
| settle: "rto_step e c s s'" if "c = RTO_Settle a d" and "rto_settlements s d = Some st" and "\<not> df_settled st"
    and "rto_core s' = (rto_deals s, rto_payments s, (rto_settlements s)(d \<mapsto> st\<lparr>df_settled := True\<rparr>),
         get_forfeiture_bps s, ug_admin s)"
| transfer: "rto_step e c s s'" if "c = RTO_Transfer a f t d" and "rto_deals s d = Some deal"
    and "rd_status deal = RTO_Active" and "authorized e f" and "rd_tenant deal = f"
    and "rto_core s' = ((rto_deals s)(d \<mapsto> deal\<lparr>rd_tenant := t\<rparr>), rto_payments s, rto_settlements s,
         get_forfeiture_bps s, ug_admin s)"

lemma rto_exec_step:
  assumes "rto_exec e c s = Inr s'"
  shows "rto_step e c s s'"
proof (cases c)
  case (RTO_Init a b)
  with assms show ?thesis
    by (intro rto_step.init) (auto simp: rto_init_def rto_core_def get_forfeiture_bps_def outcome_simps
        fail_if_Inr_iff)
next
  case (RTO_Register a d t v n r)
  with assms show ?thesis
    by (intro rto_step.register) (auto simp: register_deal_def rto_core_def get_forfeiture_bps_def rto_gate_defs
        outcome_simps host_simps fail_if_Inr_iff Let_def)
next
  case (RTO_Record a d r q)
  with assms obtain deal where "rto_deals s d = Some deal" "rd_status deal = RTO_Active" "0 < q"
    "rd_equity deal + q \<le> rd_property_value deal" "rto_core s' =
       ((rto_deals s)(d \<mapsto> deal\<lparr>rd_equity := rd_equity deal + q, rd_payments_made := rd_payments_made deal + 1\<rparr>),
        (rto_payments s)((d, rd_payments_made deal + 1) \<mapsto>
           \<lparr>ep_deal_id = d, ep_number = rd_payments_made deal + 1, ep_equity = q, ep_rent = r,
            ep_paid_at = timestamp e\<rparr>),
        rto_settlements s, get_forfeiture_bps s, ug_admin s)"
    by (auto simp: record_equity_payment_def rto_core_def get_forfeiture_bps_def rto_gate_defs
        outcome_simps host_simps fail_if_Inr_iff Let_def)
  with RTO_Record show ?thesis by (intro rto_step.pay)
next
  case (RTO_Complete a d)
  with assms show ?thesis
    by (auto simp: rto_complete_deal_def rto_core_def get_forfeiture_bps_def rto_gate_defs outcome_simps
        host_simps fail_if_Inr_iff intro!: rto_step.complete)
next
  case (RTO_Default a d r)
  with assms show ?thesis
    by (auto simp: rto_default_deal_def rto_core_def get_forfeiture_bps_def rto_gate_defs outcome_simps
        host_simps fail_if_Inr_iff Let_def intro!: rto_step.default)
next
  case (RTO_Settle a d)
  with assms show ?thesis
    by (auto simp: settle_default_def rto_core_def get_forfeiture_bps_def rto_gate_defs outcome_simps
        host_simps fail_if_Inr_iff Let_def intro!: rto_step.settle)
next
  case (RTO_Transfer a f t d)
  with assms show ?thesis
    by (auto simp: transfer_position_def rto_core_def get_forfeiture_bps_def rto_gate_defs outcome_simps
        host_simps fail_if_Inr_iff intro!: rto_step.transfer)
qed (use assms in \<open>auto simp: rto_admin_defs rto_core_def get_forfeiture_bps_def rto_gate_defs outcome_simps
      host_simps clear_pending_def fail_if_Inr_iff intro!: rto_step.none\<close>)

end
