(* ===== verification/RentToOwnProps.thy ===== *)
theory RentToOwnProps
  imports RentToOwn
begin

text \<open>
  Properties of rent to own: in every history the equity of a deal is the sum of its recorded
  payments and never exceeds the property's value, and a default splits exactly that equity, once.
\<close>

section \<open>The invariant\<close>

definition payments_of :: "'w rto_state \<Rightarrow> bytes32 \<Rightarrow> nat \<Rightarrow> int" where
  "payments_of s d n = (\<Sum>i = 1..n. case rto_payments s (d, i) of None \<Rightarrow> 0 | Some p \<Rightarrow> ep_equity p)"

definition rto_deal_ok :: "'w rto_state \<Rightarrow> bytes32 \<Rightarrow> rto_deal \<Rightarrow> bool" where
  "rto_deal_ok s d deal \<longleftrightarrow>
     0 < rd_property_value deal \<and> 0 \<le> rd_equity deal \<and> rd_equity deal \<le> rd_property_value deal \<and>
     rd_equity deal = payments_of s d (rd_payments_made deal) \<and>
     (\<forall>i. rto_payments s (d, i) \<noteq> None \<longleftrightarrow> 1 \<le> i \<and> i \<le> rd_payments_made deal)"

definition settlement_ok :: "'w rto_state \<Rightarrow> bytes32 \<Rightarrow> rto_deal \<Rightarrow> bool" where
  "settlement_ok s d deal \<longleftrightarrow>
     (case rto_settlements s d of
        None \<Rightarrow> rd_status deal \<noteq> RTO_Defaulted
      | Some st \<Rightarrow> rd_status deal = RTO_Defaulted \<and>
          df_forfeited st = rd_equity deal * int (get_forfeiture_bps s) div 10000 \<and>
          df_refundable st = rd_equity deal - df_forfeited st)"

definition rto_inv :: "'w rto_state \<Rightarrow> bool" where
  "rto_inv s \<longleftrightarrow> get_forfeiture_bps s \<le> 10000 \<and> (ug_admin s = None \<longrightarrow> rto_deals s = Map.empty) \<and>
     (\<forall>d. case rto_deals s d of
        None \<Rightarrow> (\<forall>i. rto_payments s (d, i) = None) \<and> rto_settlements s d = None
      | Some deal \<Rightarrow> rto_deal_ok s d deal \<and> settlement_ok s d deal)"

lemma rto_invD:
  assumes "rto_inv s"
  shows "rto_deals s d = Some deal \<Longrightarrow> rto_deal_ok s d deal"
    and "rto_deals s d = Some deal \<Longrightarrow> settlement_ok s d deal"
    and "rto_deals s d = None \<Longrightarrow> rto_payments s (d, i) = None"
    and "rto_deals s d = None \<Longrightarrow> rto_settlements s d = None"
  using assms unfolding rto_inv_def by (force split: option.splits)+

text \<open>A step that touches one deal only, checked at that deal.\<close>

lemma rto_inv_one:
  assumes "rto_inv s" and "get_forfeiture_bps s' = get_forfeiture_bps s" and "ug_admin s' = ug_admin s"
    and "\<And>d'. d' \<noteq> d \<Longrightarrow> rto_deals s' d' = rto_deals s d'"
    and "\<And>d' i. d' \<noteq> d \<Longrightarrow> rto_payments s' (d', i) = rto_payments s (d', i)"
    and "\<And>d'. d' \<noteq> d \<Longrightarrow> rto_settlements s' d' = rto_settlements s d'"
    and "rto_deals s' d = Some deal" and "rto_deal_ok s' d deal" and "settlement_ok s' d deal"
    and "ug_admin s \<noteq> None"
  shows "rto_inv s'"
proof -
  have "case rto_deals s' d' of None \<Rightarrow> (\<forall>i. rto_payments s' (d', i) = None) \<and> rto_settlements s' d' = None
      | Some deal \<Rightarrow> rto_deal_ok s' d' deal \<and> settlement_ok s' d' deal" for d'
  proof (cases "d' = d")
    case True
    with assms(7-9) show ?thesis by simp
  next
    case False
    from assms(1) have "case rto_deals s d' of
        None \<Rightarrow> (\<forall>i. rto_payments s (d', i) = None) \<and> rto_settlements s d' = None
      | Some deal \<Rightarrow> rto_deal_ok s d' deal \<and> settlement_ok s d' deal" by (simp add: rto_inv_def)
    with assms(2,4-6) False show ?thesis
      by (simp add: rto_deal_ok_def settlement_ok_def payments_of_def split: option.splits)
  qed
  with assms(1-3,10) show ?thesis unfolding rto_inv_def by presburger
qed

lemma rto_inv_admin: "rto_inv s \<Longrightarrow> rto_deals s d = Some deal \<Longrightarrow> ug_admin s \<noteq> None"
  by (auto simp: rto_inv_def)

lemma payments_of_new:
  assumes "\<And>i. i \<le> n \<Longrightarrow> rto_payments s' (d, i) = rto_payments s (d, i)"
    and "rto_payments s' (d, Suc n) = Some p"
  shows "payments_of s' d (Suc n) = payments_of s d n + ep_equity p"
proof -
  have "payments_of s' d n = payments_of s d n"
    unfolding payments_of_def using assms(1) by (intro sum.cong) auto
  with assms(2) show ?thesis by (simp add: payments_of_def)
qed

lemma rto_inv_core:
  assumes "rto_core s' = rto_core s"
  shows "rto_inv s' = rto_inv s"
proof -
  have "rto_deal_ok s' = rto_deal_ok s" "settlement_ok s' = settlement_ok s"
    using assms by (auto intro!: ext simp: rto_deal_ok_def settlement_ok_def payments_of_def rto_core_def
        cong: option.case_cong)
  with assms show ?thesis by (simp add: rto_inv_def rto_core_def cong: option.case_cong)
qed

lemma rto_core_eqD:
  assumes "rto_core s' = (ds, ps, st, b, a)"
  shows "rto_deals s' = ds" "rto_payments s' = ps" "rto_settlements s' = st" "get_forfeiture_bps s' = b"
    "ug_admin s' = a"
  using assms by (simp_all add: rto_core_def)

lemma rto_deal_ok_eq:
  "rto_payments s' = rto_payments s \<Longrightarrow> rd_property_value deal' = rd_property_value deal \<Longrightarrow>
   rd_equity deal' = rd_equity deal \<Longrightarrow> rd_payments_made deal' = rd_payments_made deal \<Longrightarrow>
   rto_deal_ok s' d deal' = rto_deal_ok s d deal"
  by (simp add: rto_deal_ok_def payments_of_def)

lemma settlement_ok_eq:
  "rto_settlements s' d = rto_settlements s d \<Longrightarrow> get_forfeiture_bps s' = get_forfeiture_bps s \<Longrightarrow>
   rd_equity deal' = rd_equity deal \<Longrightarrow>
   (rd_status deal' = RTO_Defaulted) = (rd_status deal = RTO_Defaulted) \<Longrightarrow>
   settlement_ok s' d deal' = settlement_ok s d deal"
  by (simp add: settlement_ok_def cong: option.case_cong)

text \<open>Only a defaulted deal has a settlement.\<close>

lemma not_defaulted:
  "settlement_ok s d deal \<Longrightarrow> rd_status deal \<noteq> RTO_Defaulted \<Longrightarrow> rto_settlements s d = None"
  by (simp add: settlement_ok_def split: option.splits)

lemma rto_inv_pay:
  assumes "rto_inv s" and "0 < q" and "rto_deals s d = Some deal" and "rd_status deal = RTO_Active"
    and "rd_equity deal + q \<le> rd_property_value deal"
    and "rto_core s' =
      ((rto_deals s)(d \<mapsto> deal\<lparr>rd_equity := rd_equity deal + q, rd_payments_made := rd_payments_made deal + 1\<rparr>),
       (rto_payments s)((d, rd_payments_made deal + 1) \<mapsto>
         \<lparr>ep_deal_id = d, ep_number = rd_payments_made deal + 1, ep_equity = q, ep_rent = r, ep_paid_at = now\<rparr>),
       rto_settlements s, get_forfeiture_bps s, ug_admin s)"
  shows "rto_inv s'"
proof -
  note ok = rto_invD(1,2) [OF assms(1,3)] and core = rto_core_eqD [OF assms(6)]
  let ?n = "rd_payments_made deal"
  have "payments_of s' d (Suc ?n) = payments_of s d ?n + q"
    using payments_of_new [of ?n s' d s] by (simp add: core)
  then have "rto_deal_ok s' d (deal\<lparr>rd_equity := rd_equity deal + q, rd_payments_made := Suc ?n\<rparr>)"
    using ok(1) assms(2,5) by (auto simp: rto_deal_ok_def core le_Suc_eq)
  moreover have "settlement_ok s' d (deal\<lparr>rd_equity := rd_equity deal + q, rd_payments_made := Suc ?n\<rparr>)"
    using not_defaulted [OF ok(2)] assms(4) by (simp add: settlement_ok_def core)
  ultimately show ?thesis
    by (intro rto_inv_one [OF assms(1), where d = d]) (simp_all add: core rto_inv_admin [OF assms(1,3)])
qed

lemma rto_step_inv:
  assumes "rto_step e c s s'" and "rto_inv s"
  shows "rto_inv s'"
  using assms(1)
proof cases
  case none
  with assms(2) rto_inv_core show ?thesis by blast
next
  case (init a b)
  then have "rto_deals s d = None" for d using assms(2) by (simp add: rto_inv_def)
  with rto_invD(3,4) [OF assms(2)] init show ?thesis by (simp add: rto_core_def rto_inv_def)
next
  case (register a d t v n r)
  note fresh = rto_invD(3,4) [OF assms(2) register(3)]
  show ?thesis
    by (rule rto_inv_one [OF assms(2), where d = d])
      (use register fresh in \<open>auto simp: rto_core_def rto_deal_ok_def settlement_ok_def payments_of_def\<close>)
next
  case (pay a d r q deal)
  from rto_inv_pay [OF assms(2) pay(2-6)] show ?thesis .
next
  case (complete a d deal)
  note ok = rto_invD(1,2) [OF assms(2) complete(2)] and core = rto_core_eqD [OF complete(5)]
  have "rto_deal_ok s' d (deal\<lparr>rd_status := RTO_Completed\<rparr>)"
    using ok(1) rto_deal_ok_eq [OF core(2), of "deal\<lparr>rd_status := RTO_Completed\<rparr>" deal] by simp
  moreover have "settlement_ok s' d (deal\<lparr>rd_status := RTO_Completed\<rparr>)"
    using not_defaulted [OF ok(2)] complete(3) by (simp add: settlement_ok_def core)
  ultimately show ?thesis
    by (intro rto_inv_one [OF assms(2), where d = d]) (simp_all add: core rto_inv_admin [OF assms(2) complete(2)])
next
  case (default a d r deal forfeited)
  note ok = rto_invD(1,2) [OF assms(2) default(2)] and core = rto_core_eqD [OF default(5)]
  have "rto_deal_ok s' d (deal\<lparr>rd_status := RTO_Defaulted\<rparr>)"
    using ok(1) rto_deal_ok_eq [OF core(2), of "deal\<lparr>rd_status := RTO_Defaulted\<rparr>" deal] by simp
  moreover have "forfeited = rd_equity deal * int (get_forfeiture_bps s) div 10000"
    using ok(1) default(4) by (simp add: rto_deal_ok_def sdiv_nonneg)
  then have "settlement_ok s' d (deal\<lparr>rd_status := RTO_Defaulted\<rparr>)" by (simp add: settlement_ok_def core)
  ultimately show ?thesis
    by (intro rto_inv_one [OF assms(2), where d = d]) (simp_all add: core rto_inv_admin [OF assms(2) default(2)])
next
  case (settle a d st)
  note core = rto_core_eqD [OF settle(4)]
  obtain deal where deal: "rto_deals s d = Some deal"
    using rto_invD(4) [OF assms(2), of d] settle(2) by fastforce
  note ok = rto_invD(1,2) [OF assms(2) deal]
  have "rto_deal_ok s' d deal" using ok(1) rto_deal_ok_eq [OF core(2), of deal deal] by simp
  moreover have "settlement_ok s' d deal" using ok(2) settle(2) by (simp add: settlement_ok_def core)
  ultimately show ?thesis
    by (intro rto_inv_one [OF assms(2), where d = d]) (simp_all add: core deal rto_inv_admin [OF assms(2) deal])
next
  case (transfer a f t d deal)
  note ok = rto_invD(1,2) [OF assms(2) transfer(2)] and core = rto_core_eqD [OF transfer(6)]
  have "rto_deal_ok s' d (deal\<lparr>rd_tenant := t\<rparr>)"
    using ok(1) rto_deal_ok_eq [OF core(2), of "deal\<lparr>rd_tenant := t\<rparr>" deal] by simp
  moreover have "settlement_ok s' d (deal\<lparr>rd_tenant := t\<rparr>)"
    using ok(2) settlement_ok_eq [OF fun_cong [OF core(3)] core(4), of "deal\<lparr>rd_tenant := t\<rparr>" deal] by simp
  ultimately show ?thesis
    by (intro rto_inv_one [OF assms(2), where d = d]) (simp_all add: core rto_inv_admin [OF assms(2) transfer(2)])
qed

interpretation rto_machine: invariant_machine rto_exec any_call world_moves rto_inv
proof
  show "rto_inv s'" if "rto_inv s" "any_call e c" "rto_exec e c s = Inr s'" for s s' :: "'w rto_state" and e c
    using rto_step_inv [OF rto_exec_step [OF that(3)] that(1)] .
  show "rto_inv s'" if "rto_inv s" "world_moves s s'" for s s' :: "'w rto_state"
  proof -
    from that(2) have "rto_core s' = rto_core s"
      by (auto simp: world_moves_def rto_core_def get_forfeiture_bps_def)
    with that(1) rto_inv_core show ?thesis by blast
  qed
qed

definition rto_fresh :: "'w \<Rightarrow> 'w rto_state" where
  "rto_fresh w = \<lparr>events = [], world = w, ug_admin = None, ug_guardian = None, ug_pending_hash = None,
     ug_pending_at = None, ug_pending_version = None, ug_version = None, ug_delay = None, ug_schema = None,
     ug_wasm = None, rto_paused = None, rto_deals = Map.empty, rto_payments = Map.empty,
     rto_forfeiture_bps = None, rto_settlements = Map.empty\<rparr>"

lemma rto_fresh_inv: "rto_inv (rto_fresh w)"
  by (simp add: rto_inv_def rto_fresh_def get_forfeiture_bps_def)

section \<open>Properties\<close>

text \<open>C24. Equity is what was paid: in every reachable state, the equity of a deal is the sum of its
  recorded payments, numbered without a gap, it lies between zero and the property's value, and the
  percentage the view returns is its exact share in basis points, at most 10000.\<close>

theorem equity_is_payments:
  assumes "reach rto_exec any_call world_moves (rto_fresh w) s" and "rto_deals s d = Some deal"
  shows "rd_equity deal = payments_of s d (rd_payments_made deal) \<and>
    (\<forall>i. rto_payments s (d, i) \<noteq> None \<longleftrightarrow> 1 \<le> i \<and> i \<le> rd_payments_made deal) \<and>
    0 \<le> rd_equity deal \<and> rd_equity deal \<le> rd_property_value deal \<and>
    (\<forall>p. get_equity_percentage d s = Inr p \<longrightarrow>
       int p = rd_equity deal * 10000 div rd_property_value deal \<and> p \<le> 10000)"
proof -
  from rto_invD(1) [OF rto_machine.reach_inv [OF assms(1) rto_fresh_inv] assms(2)]
  have ok: "rto_deal_ok s d deal" .
  let ?q = "rd_equity deal * 10000 div rd_property_value deal"
  have q: "0 \<le> ?q" "?q \<le> 10000"
  proof -
    show "0 \<le> ?q" using ok by (simp add: rto_deal_ok_def pos_imp_zdiv_nonneg_iff)
    have "?q \<le> rd_property_value deal * 10000 div rd_property_value deal"
      using ok by (intro zdiv_mono1) (auto simp: rto_deal_ok_def)
    then show "?q \<le> 10000" using ok by (simp add: rto_deal_ok_def)
  qed
  have "int p = ?q" if "get_equity_percentage d s = Inr p" for p
    using that ok assms(2) q
    by (auto simp: get_equity_percentage_def rto_deal_ok_def sdiv_nonneg outcome_simps)
  with ok q show ?thesis by (auto simp: rto_deal_ok_def)
qed

text \<open>What an accepted call settles to the tenant of a deal.\<close>

definition rto_refund :: "bytes32 \<Rightarrow> env \<Rightarrow> rto_call \<Rightarrow> 'w rto_state \<Rightarrow> int" where
  "rto_refund d e c s =
     (case c of
        RTO_Settle a d' \<Rightarrow>
          if d' = d then (case rto_settlements s d of Some st \<Rightarrow> df_refundable st | None \<Rightarrow> 0) else 0
      | _ \<Rightarrow> 0)"

definition refunded :: "bytes32 \<Rightarrow> 'w rto_state \<Rightarrow> int" where
  "refunded d s =
     (case rto_settlements s d of Some st \<Rightarrow> if df_settled st then df_refundable st else 0 | None \<Rightarrow> 0)"

lemma rto_step_refunded:
  assumes "rto_step e c s s'" and "rto_inv s"
  shows "refunded d s' = refunded d s + rto_refund d e c s"
  using assms(1)
proof cases
  case (default a d' r deal forfeited)
  then have "rto_settlements s d' = None"
    using rto_invD(2) [OF assms(2), of d' deal] by (auto simp: settlement_ok_def split: option.splits)
  with default show ?thesis by (auto simp: refunded_def rto_refund_def rto_core_def)
next
  case none
  then show ?thesis by (auto simp: refunded_def rto_refund_def rto_core_def split: rto_call.splits)
qed (auto simp: refunded_def rto_refund_def rto_core_def split: option.splits)

text \<open>C25. A default is settled once and splits the equity: in every history from the deployment, what
  settlements paid to a deal's tenant is the refundable part of its one settlement, or nothing as
  long as it is not settled; refundable and forfeited part are not negative, add up to the equity,
  and the forfeited part is the configured fraction of it, rounded down; only defaulted deals have a
  settlement.\<close>

theorem default_settled_once:
  assumes "tally rto_exec (rto_refund d) cs 0 (rto_fresh w) = (total_refund, s)" and "rto_deals s d = Some deal"
  shows "(case rto_settlements s d of
      None \<Rightarrow> total_refund = 0 \<and> rd_status deal \<noteq> RTO_Defaulted
    | Some st \<Rightarrow> rd_status deal = RTO_Defaulted \<and>
        total_refund = (if df_settled st then df_refundable st else 0) \<and>
        df_refundable st + df_forfeited st = rd_equity deal \<and> 0 \<le> df_refundable st \<and> 0 \<le> df_forfeited st \<and>
        df_forfeited st = rd_equity deal * int (get_forfeiture_bps s) div 10000)"
proof -
  have "rto_inv s \<and> total_refund = refunded d s"
  proof (rule tally_inv [OF assms(1), where P = "\<lambda>acc s. rto_inv s \<and> acc = refunded d s"])
    show "rto_inv (rto_fresh w) \<and> 0 = refunded d (rto_fresh w)"
      using rto_fresh_inv by (simp add: refunded_def rto_fresh_def)
  next
    fix e c acc and s s' :: "'a rto_state"
    assume s: "rto_inv s \<and> acc = refunded d s" and "rto_exec e c s = Inr s'"
    from rto_exec_step [OF this(2)] rto_step_refunded rto_step_inv s
    show "rto_inv s' \<and> acc + rto_refund d e c s = refunded d s'" by metis
  qed
  then have inv: "rto_inv s" and total: "total_refund = refunded d s" by auto
  note ok = rto_invD(1,2) [OF inv assms(2)]
  from inv have bps: "get_forfeiture_bps s \<le> 10000" by (simp add: rto_inv_def)
  let ?f = "rd_equity deal * int (get_forfeiture_bps s) div 10000"
  have eq: "0 \<le> rd_equity deal" using ok(1) by (simp add: rto_deal_ok_def)
  have "?f \<le> rd_equity deal * 10000 div 10000"
    using bps eq by (intro zdiv_mono1) (auto simp: mult_left_mono)
  moreover have "0 \<le> ?f" using eq by (simp add: pos_imp_zdiv_nonneg_iff)
  ultimately show ?thesis
    using ok(2) total by (auto simp: settlement_ok_def refunded_def split: option.splits)
qed

text \<open>A deal with a payment too many can never be completed.\<close>

definition overpaid :: "bytes32 \<Rightarrow> 'w rto_state \<Rightarrow> bool" where
  "overpaid d s \<longleftrightarrow> (\<exists>deal. rto_deals s d = Some deal \<and> rd_payments_required deal < rd_payments_made deal \<and>
     rd_status deal \<noteq> RTO_Completed)"

lemma rto_step_overpaid: "rto_step e c s s' \<Longrightarrow> overpaid d s \<Longrightarrow> overpaid d s'"
  by (cases rule: rto_step.cases, assumption) (fastforce simp: overpaid_def rto_core_def)+

interpretation rto_overpaid: invariant_machine rto_exec any_call world_moves "overpaid d" for d
  by unfold_locales (auto simp: world_moves_def overpaid_def [of d "_\<lparr>world := _\<rparr>"]
      dest: rto_exec_step rto_step_overpaid, auto simp: overpaid_def)

theorem overpaid_never_completes:
  assumes "reach rto_exec any_call world_moves s0 s" and "rto_deals s0 d = Some deal"
    and "rd_status deal = RTO_Active" and "rd_payments_required deal < rd_payments_made deal"
  shows "\<exists>deal'. rto_deals s d = Some deal' \<and> rd_status deal' \<noteq> RTO_Completed"
  using rto_overpaid.reach_inv [OF assms(1), of d] assms(2-4) by (auto simp: overpaid_def)

section \<open>Witnesses\<close>

abbreviation rto_at :: "nat \<Rightarrow> nat \<Rightarrow> env" where
  "rto_at t who \<equiv> call_at t (Address 9) (Address who)"

definition rto_sample_calls :: "(env \<times> rto_call) list" where
  "rto_sample_calls =
     [(rto_at 1 2, RTO_Init (Address 2) 2500),
      (rto_at 2 2, RTO_Register (Address 2) 7 (Address 5) 1000 100 1),
      (rto_at 3 2, RTO_Record (Address 2) 7 500 150),
      (rto_at 4 2, RTO_Record (Address 2) 7 500 90)]"

definition rto_sample :: "unit rto_state" where
  "rto_sample = run_calls rto_exec rto_sample_calls (rto_fresh ())"

lemmas rto_eval = rto_sample_calls_def rto_fresh_def apply_call_def rto_init_def register_deal_def
  record_equity_payment_def rto_default_deal_def settle_default_def equity_split_def rto_gate_defs
  rto_paused_state_def get_forfeiture_bps_def require_admin_permission_def ck_i128_def i128_ok_def
  ck_u32_def div_i128_def signed_divide_int_def drop_result_def host_simps Let_def

lemma rto_sample_reach: "reach rto_exec any_call world_moves (rto_fresh ()) rto_sample"
  unfolding rto_sample_def by (rule run_calls_reach) (simp add: any_call_def split_def)

lemma equity_is_payments_witness:
  "\<exists>deal. rto_deals rto_sample 7 = Some deal \<and> rd_equity deal = 240 \<and> payments_of rto_sample 7 2 = 240"
proof -
  obtain deal where deal: "rto_deals rto_sample 7 = Some deal" "rd_equity deal = 240" "rd_payments_made deal = 2"
    by (simp add: rto_sample_def rto_eval)
  with equity_is_payments [OF rto_sample_reach deal(1)] show ?thesis by simp
qed

lemma default_settled_once_witness:
  "\<exists>s st. tally rto_exec (rto_refund 7) (rto_sample_calls @ [(rto_at 5 2, RTO_Default (Address 2) 7 ''late''),
       (rto_at 6 2, RTO_Settle (Address 2) 7), (rto_at 7 2, RTO_Settle (Address 2) 7)]) 0 (rto_fresh ()) = (180, s) \<and>
     rto_settlements s 7 = Some st \<and> df_refundable st = 180 \<and> df_forfeited st = 60"
proof -
  let ?cs = "rto_sample_calls @ [(rto_at 5 2, RTO_Default (Address 2) 7 ''late''),
       (rto_at 6 2, RTO_Settle (Address 2) 7), (rto_at 7 2, RTO_Settle (Address 2) 7)]"
  obtain p and s :: "unit rto_state" where run: "tally rto_exec (rto_refund 7) ?cs 0 (rto_fresh ()) = (p, s)"
    by fastforce
  moreover from run obtain deal st where "p = 180" "rto_deals s 7 = Some deal" "rd_equity deal = 240"
    "rto_settlements s 7 = Some st" "df_settled st"
    by (auto simp: rto_eval rto_refund_def)
  ultimately show ?thesis using default_settled_once [OF run] by auto
qed

lemma overpaid_never_completes_witness:
  "\<exists>deal. rto_deals rto_sample 7 = Some deal \<and> rd_status deal \<noteq> RTO_Completed"
proof -
  obtain deal where deal: "rto_deals rto_sample 7 = Some deal" "rd_status deal = RTO_Active"
    "rd_payments_required deal < rd_payments_made deal"
    by (simp add: rto_sample_def rto_eval)
  from overpaid_never_completes [OF reach_start deal] show ?thesis by simp
qed

end
