(* ===== verification/EpochRewards.thy ===== *)
theory EpochRewards
  imports Machines
begin

text \<open>
  Rewards by epochs (\<open>epoch_rewards/src/lib.rs\<close>): a reward index over recorded stakes, funded within
  epochs that are sealed one after the other.  The contract keeps accounts only; no token moves.
\<close>

section \<open>State and errors\<close>

definition ER_SCALE :: int where "ER_SCALE = 1000000000"

datatype er_error =
    ER_AlreadyInitialized
  | ER_NotAuthorized
  | ER_InvalidAmount
  | ER_EpochAlreadySealed
  | ER_EpochNotFound
  | ER_OutOfOrderSealing
  | ER_EpochNotExpired
  | ER_Paused
  | ER_ClaimBeforeSeal

record epoch_info =
  ei_number :: nat
  ei_start :: nat
  ei_duration :: nat
  ei_end :: nat
  ei_seal_ts :: nat
  ei_sealed :: bool
  ei_total_rewards :: int
  ei_carried_forward :: int
  ei_index_at_seal :: int
  ei_dust :: int
  ei_claimable_at_seal :: int

record er_user_stake =
  es_amount :: int
  es_index :: int

text \<open>The key \<open>EpochRewardIndex\<close> is declared in the source and never used.\<close>

record 'w er_state = "'w host" +
  er_admin :: "address option"
  er_operator :: "address option"
  er_current :: "nat option"
  er_epochs :: "nat \<rightharpoonup> epoch_info"
  er_unclaimed :: "address \<rightharpoonup> int"
  er_reward_index :: "int option"
  er_start_index :: "nat \<rightharpoonup> int"
  er_total_staked :: "int option"
  er_stakes :: "address \<rightharpoonup> er_user_stake"
  er_paused :: "bool option"

section \<open>Helpers\<close>

definition er_get_reward_index :: "'w er_state \<Rightarrow> int" where
  "er_get_reward_index s = unwrap_or (er_reward_index s) 0"

definition er_get_total_staked :: "'w er_state \<Rightarrow> int" where
  "er_get_total_staked s = unwrap_or (er_total_staked s) 0"

definition er_get_user_stake :: "address \<Rightarrow> 'w er_state \<Rightarrow> er_user_stake" where
  "er_get_user_stake user s = unwrap_or (er_stakes s user) \<lparr>es_amount = 0, es_index = 0\<rparr>"

definition er_calc_pending :: "er_user_stake \<Rightarrow> int \<Rightarrow> 'e fault + int" where
  "er_calc_pending stake reward_index =
     (if es_amount stake = 0 then Inr 0
      else
      bindE (ck_i128 (reward_index - es_index stake)) (\<lambda>delta.
      bindE (ck_i128 (es_amount stake * delta)) (\<lambda>product. div_i128 product ER_SCALE)))"

definition banked :: "address \<Rightarrow> 'w er_state \<Rightarrow> int" where
  "banked user s = unwrap_or (er_unclaimed s user) 0"

definition er_current_epoch :: "'w er_state \<Rightarrow> nat" where
  "er_current_epoch s = unwrap_or (er_current s) 1"

definition er_event :: "string \<Rightarrow> val list" where
  "er_event name = [VSym ''epoch_rewards'', VSym name]"

section \<open>Administration\<close>

definition open_epoch :: "nat \<Rightarrow> nat \<Rightarrow> nat \<Rightarrow> int \<Rightarrow> epoch_info" where
  "open_epoch number start duration carried =
     \<lparr>ei_number = number, ei_start = start, ei_duration = duration, ei_end = 0, ei_seal_ts = 0,
      ei_sealed = False, ei_total_rewards = 0, ei_carried_forward = carried, ei_index_at_seal = 0,
      ei_dust = 0, ei_claimable_at_seal = 0\<rparr>"

definition er_init :: "env \<Rightarrow> address \<Rightarrow> nat \<Rightarrow> 'w er_state \<Rightarrow> er_error fault + 'w er_state" where
  "er_init e admin epoch_duration_secs s =
     (if er_admin s \<noteq> None then Inl (Err ER_AlreadyInitialized)
      else Inr (publish (er_event ''init'') [VAddr admin, VNat epoch_duration_secs]
             (s\<lparr>er_admin := Some admin, er_current := Some 1, er_reward_index := Some 0,
                er_total_staked := Some 0,
                er_epochs := (er_epochs s)(1 \<mapsto> open_epoch 1 (timestamp e) epoch_duration_secs 0),
                er_start_index := (er_start_index s)(1 \<mapsto> 0)\<rparr>)))"

definition er_require_admin :: "env \<Rightarrow> address \<Rightarrow> 'w er_state \<Rightarrow> er_error fault + unit" where
  "er_require_admin e caller s =
     bindE (ok_or (er_admin s) ER_NotAuthorized) (\<lambda>admin.
     bindE (require_auth e caller) (\<lambda>_.
     if caller \<noteq> admin then Inl (Err ER_NotAuthorized) else Inr ()))"

definition er_set_operator ::
  "env \<Rightarrow> address \<Rightarrow> address \<Rightarrow> 'w er_state \<Rightarrow> er_error fault + 'w er_state" where
  "er_set_operator e admin operator s =
     bindE (er_require_admin e admin s) (\<lambda>_. Inr (s\<lparr>er_operator := Some operator\<rparr>))"

definition er_pause :: "env \<Rightarrow> address \<Rightarrow> 'w er_state \<Rightarrow> er_error fault + 'w er_state" where
  "er_pause e admin s = bindE (er_require_admin e admin s) (\<lambda>_. Inr (s\<lparr>er_paused := Some True\<rparr>))"

definition er_unpause :: "env \<Rightarrow> address \<Rightarrow> 'w er_state \<Rightarrow> er_error fault + 'w er_state" where
  "er_unpause e admin s = bindE (er_require_admin e admin s) (\<lambda>_. Inr (s\<lparr>er_paused := Some False\<rparr>))"

definition er_is_paused :: "'w er_state \<Rightarrow> bool" where
  "er_is_paused s = unwrap_or (er_paused s) False"

definition er_require_not_paused :: "'w er_state \<Rightarrow> er_error fault + unit" where
  "er_require_not_paused s = (if unwrap_or (er_paused s) False then Inl (Err ER_Paused) else Inr ())"

definition require_operator_or_admin :: "env \<Rightarrow> address \<Rightarrow> 'w er_state \<Rightarrow> er_error fault + unit" where
  "require_operator_or_admin e caller s =
     bindE (ok_or (er_admin s) ER_NotAuthorized) (\<lambda>admin.
     if caller = admin then require_auth e caller
     else (case er_operator s of
         Some op \<Rightarrow> if caller = op then require_auth e caller else Inl (Err ER_NotAuthorized)
       | None \<Rightarrow> Inl (Err ER_NotAuthorized)))"

section \<open>Stakes\<close>

text \<open>What \<open>stake\<close> and \<open>unstake\<close> do first: pending rewards are added to the user's unclaimed ones.\<close>

definition bank_pending ::
  "address \<Rightarrow> er_user_stake \<Rightarrow> int \<Rightarrow> 'w er_state \<Rightarrow> er_error fault + 'w er_state" where
  "bank_pending user stake reward_index s =
     bindE (er_calc_pending stake reward_index) (\<lambda>pending.
     if 0 < pending then
       bindE (ck_i128 (banked user s + pending)) (\<lambda>unclaimed.
       Inr (s\<lparr>er_unclaimed := (er_unclaimed s)(user \<mapsto> unclaimed)\<rparr>))
     else Inr s)"

definition er_stake :: "env \<Rightarrow> address \<Rightarrow> int \<Rightarrow> 'w er_state \<Rightarrow> er_error fault + 'w er_state" where
  "er_stake e user amount s =
     bindE (require_auth e user) (\<lambda>_.
     if amount \<le> 0 then Inl (Err ER_InvalidAmount)
     else
     let reward_index = er_get_reward_index s; stake = er_get_user_stake user s in
     bindE (bank_pending user stake reward_index s) (\<lambda>s.
     bindE (ck_i128 (es_amount stake + amount)) (\<lambda>new_amount.
     let s = s\<lparr>er_stakes := (er_stakes s)(user \<mapsto> \<lparr>es_amount = new_amount, es_index = reward_index\<rparr>)\<rparr> in
     bindE (ck_i128 (er_get_total_staked s + amount)) (\<lambda>new_total.
     Inr (publish (er_event ''stake'' @ [VAddr user]) [VInt amount] (s\<lparr>er_total_staked := Some new_total\<rparr>))))))"

definition er_unstake :: "env \<Rightarrow> address \<Rightarrow> int \<Rightarrow> 'w er_state \<Rightarrow> er_error fault + 'w er_state" where
  "er_unstake e user amount s =
     bindE (require_auth e user) (\<lambda>_.
     if amount \<le> 0 then Inl (Err ER_InvalidAmount)
     else
     let reward_index = er_get_reward_index s; stake = er_get_user_stake user s in
     if es_amount stake < amount then Inl (Err ER_InvalidAmount)
     else
     bindE (bank_pending user stake reward_index s) (\<lambda>s.
     bindE (ck_i128 (es_amount stake - amount)) (\<lambda>new_amount.
     let s = s\<lparr>er_stakes := (er_stakes s)(user \<mapsto> \<lparr>es_amount = new_amount, es_index = reward_index\<rparr>)\<rparr> in
     bindE (ck_i128 (er_get_total_staked s - amount)) (\<lambda>new_total.
     Inr (publish (er_event ''unstake'' @ [VAddr user]) [VInt amount] (s\<lparr>er_total_staked := Some new_total\<rparr>))))))"

section \<open>Funding and sealing\<close>

text \<open>The rounding dust of one funding: everything when nothing is staked.\<close>

definition dust_of_funding :: "int \<Rightarrow> int \<Rightarrow> er_error fault + int" where
  "dust_of_funding amount total_staked =
     (if 0 < total_staked then
        bindE (ck_i128 (amount * ER_SCALE)) (\<lambda>scaled.
        bindE (div_i128 scaled total_staked) (\<lambda>delta_index.
        bindE (ck_i128 (delta_index * total_staked)) (\<lambda>product.
        bindE (div_i128 product ER_SCALE) (\<lambda>effectively_distributed.
        ck_i128 (amount - effectively_distributed)))))
      else Inr amount)"

definition raise_index :: "int \<Rightarrow> int \<Rightarrow> 'w er_state \<Rightarrow> er_error fault + 'w er_state" where
  "raise_index amount total_staked s =
     (if 0 < total_staked then
        bindE (ck_i128 (amount * ER_SCALE)) (\<lambda>scaled.
        bindE (div_i128 scaled total_staked) (\<lambda>delta_index.
        bindE (ck_i128 (er_get_reward_index s + delta_index)) (\<lambda>new_index.
        Inr (s\<lparr>er_reward_index := Some new_index\<rparr>))))
      else Inr s)"

text \<open>The accounts of the current epoch, when there is one.\<close>

definition record_funding :: "int \<Rightarrow> int \<Rightarrow> 'w er_state \<Rightarrow> er_error fault + 'w er_state" where
  "record_funding amount dust_this_funding s =
     (let current_epoch = er_current_epoch s in
      case er_epochs s current_epoch of
        None \<Rightarrow> Inr s
      | Some epoch \<Rightarrow>
          bindE (ck_i128 (ei_total_rewards epoch + amount)) (\<lambda>rewards.
          bindE (ck_i128 (ei_dust epoch + dust_this_funding)) (\<lambda>dust.
          Inr (s\<lparr>er_epochs := (er_epochs s)(current_epoch \<mapsto>
                 epoch\<lparr>ei_total_rewards := rewards, ei_dust := dust\<rparr>)\<rparr>))))"

definition fund_epoch_rewards ::
  "env \<Rightarrow> address \<Rightarrow> int \<Rightarrow> 'w er_state \<Rightarrow> er_error fault + 'w er_state" where
  "fund_epoch_rewards e caller amount s =
     bindE (er_require_not_paused s) (\<lambda>_.
     bindE (require_operator_or_admin e caller s) (\<lambda>_.
     if amount \<le> 0 then Inl (Err ER_InvalidAmount)
     else
     let total_staked = er_get_total_staked s in
     bindE (dust_of_funding amount total_staked) (\<lambda>dust_this_funding.
     bindE (raise_index amount total_staked s) (\<lambda>s.
     bindE (record_funding amount dust_this_funding s) (\<lambda>s.
     Inr (publish (er_event ''fund'') [VAddr caller, VInt amount] s))))))"

text \<open>What stakers can claim of the index growth since the epoch began, at the stakes of the sealing.\<close>

definition claimable_at_seal :: "int \<Rightarrow> int \<Rightarrow> int \<Rightarrow> er_error fault + int" where
  "claimable_at_seal total_staked reward_index start_index =
     (if 0 < total_staked then
        bindE (ck_i128 (reward_index - start_index)) (\<lambda>delta.
        bindE (ck_i128 (total_staked * delta)) (\<lambda>product. div_i128 product ER_SCALE))
      else Inr 0)"

text \<open>The writes and events of a sealing, once its guards and sums have passed.\<close>

definition sealed_state ::
  "nat \<Rightarrow> nat \<Rightarrow> nat \<Rightarrow> int \<Rightarrow> epoch_info \<Rightarrow> int \<Rightarrow> int \<Rightarrow> int \<Rightarrow> nat \<Rightarrow> 'w er_state \<Rightarrow> 'w er_state" where
  "sealed_state now target_epoch next_epoch reward_index_at_seal epoch dust total_claimable_at_seal
     carry_forward next_epoch_duration_secs s =
     (let epoch = epoch\<lparr>ei_end := now, ei_seal_ts := now, ei_sealed := True,
            ei_index_at_seal := reward_index_at_seal, ei_dust := dust,
            ei_claimable_at_seal := total_claimable_at_seal\<rparr>;
          s = s\<lparr>er_epochs := (er_epochs s)(target_epoch \<mapsto> epoch)\<rparr>;
          s = s\<lparr>er_current := Some next_epoch\<rparr>;
          s = s\<lparr>er_start_index := (er_start_index s)(next_epoch \<mapsto> reward_index_at_seal)\<rparr>;
          s = s\<lparr>er_epochs := (er_epochs s)(next_epoch \<mapsto>
                open_epoch next_epoch (ei_start epoch + ei_duration epoch) next_epoch_duration_secs carry_forward)\<rparr>;
          s = publish (er_event ''epoch_sealed'')
                [VNat target_epoch, VNat now, VInt reward_index_at_seal, VInt (ei_total_rewards epoch),
                 VInt total_claimable_at_seal] s
      in if 0 < dust
         then publish (er_event ''dust_carried'') [VNat target_epoch, VNat next_epoch, VInt dust] s
         else s)"

definition seal_epoch ::
  "env \<Rightarrow> address \<Rightarrow> nat \<Rightarrow> nat \<Rightarrow> 'w er_state \<Rightarrow> er_error fault + 'w er_state" where
  "seal_epoch e caller target_epoch next_epoch_duration_secs s =
     bindE (require_operator_or_admin e caller s) (\<lambda>_.
     let current_epoch = er_current_epoch s in
     if target_epoch \<noteq> current_epoch then Inl (Err ER_OutOfOrderSealing)
     else
     bindE (ok_or (er_epochs s target_epoch) ER_EpochNotFound) (\<lambda>epoch.
     if ei_sealed epoch then Inl (Err ER_EpochAlreadySealed)
     else
     let now = timestamp e in
     bindE (ck_u64 (ei_start epoch + ei_duration epoch)) (\<lambda>expiry.
     if now < expiry then Inl (Err ER_EpochNotExpired)
     else
     let reward_index_at_seal = er_get_reward_index s;
         start_index = unwrap_or (er_start_index s target_epoch) 0;
         total_staked = er_get_total_staked s
     in
     bindE (claimable_at_seal total_staked reward_index_at_seal start_index) (\<lambda>total_claimable_at_seal.
     bindE (ck_i128 (ei_total_rewards epoch - total_claimable_at_seal)) (\<lambda>dust.
     let dust = (if dust < 0 then 0 else dust) in
     bindE (ck_i128 (ei_carried_forward epoch + ei_total_rewards epoch)) (\<lambda>carry_forward.
     bindE (ck_u64 (current_epoch + 1)) (\<lambda>next_epoch.
     Inr (sealed_state now target_epoch next_epoch reward_index_at_seal epoch dust total_claimable_at_seal
            carry_forward next_epoch_duration_secs s))))))))"

section \<open>Claims and views\<close>

definition er_claim :: "env \<Rightarrow> address \<Rightarrow> 'w er_state \<Rightarrow> er_error fault + int \<times> 'w er_state" where
  "er_claim e user s =
     bindE (require_auth e user) (\<lambda>_.
     if er_current_epoch s \<le> 1 then Inl (Err ER_ClaimBeforeSeal)
     else
     let reward_index = er_get_reward_index s; stake = er_get_user_stake user s in
     bindE (er_calc_pending stake reward_index) (\<lambda>live_pending.
     bindE (ck_i128 (live_pending + banked user s)) (\<lambda>total_claimable.
     let s = s\<lparr>er_stakes := (er_stakes s)(user \<mapsto> stake\<lparr>es_index := reward_index\<rparr>)\<rparr>;
         s = s\<lparr>er_unclaimed := (er_unclaimed s)(user \<mapsto> 0)\<rparr>
     in Inr (total_claimable, publish (er_event ''claim'' @ [VAddr user]) [VInt total_claimable] s))))"

definition er_get_claimable :: "address \<Rightarrow> 'w er_state \<Rightarrow> er_error fault + int" where
  "er_get_claimable user s =
     bindE (er_calc_pending (er_get_user_stake user s) (er_get_reward_index s)) (\<lambda>live.
     ck_i128 (live + banked user s))"

section \<open>All entry points\<close>

datatype er_call =
    ER_Init address nat
  | ER_SetOperator address address
  | ER_Pause address
  | ER_Unpause address
  | ER_Stake address int
  | ER_Unstake address int
  | ER_Fund address int
  | ER_Seal address nat nat
  | ER_Claim address

fun er_exec :: "env \<Rightarrow> er_call \<Rightarrow> 'w er_state \<Rightarrow> er_error fault + 'w er_state" where
  "er_exec e (ER_Init a d) s = er_init e a d s"
| "er_exec e (ER_SetOperator a p) s = er_set_operator e a p s"
| "er_exec e (ER_Pause a) s = er_pause e a s"
| "er_exec e (ER_Unpause a) s = er_unpause e a s"
| "er_exec e (ER_Stake u n) s = er_stake e u n s"
| "er_exec e (ER_Unstake u n) s = er_unstake e u n s"
| "er_exec e (ER_Fund c n) s = fund_epoch_rewards e c n s"
| "er_exec e (ER_Seal c t d) s = seal_epoch e c t d s"
| "er_exec e (ER_Claim u) s = drop_result (er_claim e u s)"

section \<open>What the operations did\<close>

text \<open>The accounts and the epochs, with defaults filled in.\<close>

definition er_accounts :: "'w er_state \<Rightarrow> (address \<rightharpoonup> er_user_stake) \<times> (address \<rightharpoonup> int) \<times> int \<times> int" where
  "er_accounts s = (er_stakes s, er_unclaimed s, er_get_reward_index s, er_get_total_staked s)"

definition er_schedule :: "'w er_state \<Rightarrow> address option \<times> nat \<times> (nat \<rightharpoonup> epoch_info) \<times> (nat \<rightharpoonup> int)" where
  "er_schedule s = (er_admin s, er_current_epoch s, er_epochs s, er_start_index s)"

definition pending_of :: "address \<Rightarrow> 'w er_state \<Rightarrow> int" where
  "pending_of u s =
     (es_amount (er_get_user_stake u s) * (er_get_reward_index s - es_index (er_get_user_stake u s))) sdiv ER_SCALE"

lemma er_calc_pending_Inr:
  "er_calc_pending (er_get_user_stake u s) (er_get_reward_index s) = Inr p \<Longrightarrow> p = pending_of u s"
  by (auto simp: er_calc_pending_def pending_of_def ER_SCALE_def outcome_simps split: if_splits)

definition banked_map :: "address \<Rightarrow> 'w er_state \<Rightarrow> address \<rightharpoonup> int" where
  "banked_map u s =
     (if 0 < pending_of u s then (er_unclaimed s)(u \<mapsto> banked u s + pending_of u s) else er_unclaimed s)"

lemma bank_pending_Inr:
  "bank_pending u (er_get_user_stake u s) (er_get_reward_index s) s = Inr s' \<Longrightarrow>
     s' = s\<lparr>er_unclaimed := banked_map u s\<rparr>"
  by (auto simp: bank_pending_def banked_map_def outcome_simps split: if_splits dest!: er_calc_pending_Inr)

lemmas er_gate_defs = er_require_admin_def er_require_not_paused_def require_operator_or_admin_def

lemma er_stake_Inr:
  assumes "er_stake e u n s = Inr s'"
  shows "0 < n \<and> er_schedule s' = er_schedule s \<and> er_accounts s' =
    ((er_stakes s)(u \<mapsto> \<lparr>es_amount = es_amount (er_get_user_stake u s) + n, es_index = er_get_reward_index s\<rparr>),
     banked_map u s, er_get_reward_index s, er_get_total_staked s + n)"
  using assms
  by (auto simp: er_stake_def er_accounts_def er_schedule_def er_current_epoch_def
      er_get_total_staked_def outcome_simps host_simps fail_if_Inr_iff Let_def dest!: bank_pending_Inr)
    (simp_all add: er_get_reward_index_def)

lemma er_unstake_Inr:
  assumes "er_unstake e u n s = Inr s'"
  shows "0 < n \<and> n \<le> es_amount (er_get_user_stake u s) \<and> er_schedule s' = er_schedule s \<and> er_accounts s' =
    ((er_stakes s)(u \<mapsto> \<lparr>es_amount = es_amount (er_get_user_stake u s) - n, es_index = er_get_reward_index s\<rparr>),
     banked_map u s, er_get_reward_index s, er_get_total_staked s - n)"
  using assms
  by (auto simp: er_unstake_def er_accounts_def er_schedule_def er_current_epoch_def er_get_total_staked_def
      outcome_simps host_simps fail_if_Inr_iff Let_def dest!: bank_pending_Inr)
    (simp_all add: er_get_reward_index_def)

lemma er_claim_Inr:
  assumes "er_claim e u s = Inr (x, s')"
  shows "x = pending_of u s + banked u s \<and> er_schedule s' = er_schedule s \<and> er_accounts s' =
    ((er_stakes s)(u \<mapsto> (er_get_user_stake u s)\<lparr>es_index := er_get_reward_index s\<rparr>),
     (er_unclaimed s)(u \<mapsto> 0), er_get_reward_index s, er_get_total_staked s)"
  using assms
  by (auto simp: er_claim_def er_accounts_def er_schedule_def er_current_epoch_def er_get_total_staked_def
      outcome_simps host_simps fail_if_Inr_iff Let_def dest!: er_calc_pending_Inr)
    (simp_all add: er_get_reward_index_def)

lemma raise_index_Inr:
  assumes "raise_index n t s = Inr s'" and "0 < n"
  shows "s' = s\<lparr>er_reward_index := er_reward_index s'\<rparr> \<and>
    (if 0 < t then er_get_reward_index s' = er_get_reward_index s + n * ER_SCALE div t
     else s' = s)"
  using assms
  by (auto simp: raise_index_def er_get_reward_index_def ER_SCALE_def sdiv_nonneg outcome_simps split: if_splits)

text \<open>The epoch a funding is added to, when it exists.\<close>

definition funded_epochs :: "int \<Rightarrow> int \<Rightarrow> 'w er_state \<Rightarrow> nat \<rightharpoonup> epoch_info" where
  "funded_epochs n dust s =
     (case er_epochs s (er_current_epoch s) of
        None \<Rightarrow> er_epochs s
      | Some ep \<Rightarrow> (er_epochs s)(er_current_epoch s \<mapsto>
          ep\<lparr>ei_total_rewards := ei_total_rewards ep + n, ei_dust := ei_dust ep + dust\<rparr>))"

lemma fund_epoch_rewards_Inr:
  assumes "fund_epoch_rewards e c n s = Inr s'"
  shows "0 < n \<and> er_admin s \<noteq> None \<and> (\<exists>dust.
    er_schedule s' = (er_admin s, er_current_epoch s, funded_epochs n dust s, er_start_index s)) \<and>
    er_accounts s' = (er_stakes s, er_unclaimed s,
      (if 0 < er_get_total_staked s then er_get_reward_index s + n * ER_SCALE div er_get_total_staked s
       else er_get_reward_index s), er_get_total_staked s)"
proof -
  from assms obtain dust s1 s2 where run: "er_admin s \<noteq> None" "0 < n"
    "raise_index n (er_get_total_staked s) s = Inr s1" "record_funding n dust s1 = Inr s2"
    "s' = publish (er_event ''fund'') [VAddr c, VInt n] s2"
    by (auto simp: fund_epoch_rewards_def er_gate_defs outcome_simps fail_if_Inr_iff Let_def)
  have s2: "s2 = s1\<lparr>er_epochs := funded_epochs n dust s1\<rparr>"
    using run(4) by (auto simp: record_funding_def funded_epochs_def outcome_simps Let_def split: option.splits)
  have s1: "er_admin s1 = er_admin s" "er_current s1 = er_current s" "er_epochs s1 = er_epochs s"
    "er_start_index s1 = er_start_index s" "er_stakes s1 = er_stakes s" "er_unclaimed s1 = er_unclaimed s"
    "er_total_staked s1 = er_total_staked s"
    by (subst conjunct1 [OF raise_index_Inr [OF run(3,2)]]; simp)+
  have "funded_epochs n dust s1 = funded_epochs n dust s"
    by (simp add: funded_epochs_def er_current_epoch_def s1 cong: option.case_cong)
  then have "er_schedule s' = (er_admin s, er_current_epoch s, funded_epochs n dust s, er_start_index s)"
    by (simp add: run(5) s2 er_schedule_def er_current_epoch_def host_simps s1)
  moreover have "er_accounts s' = (er_stakes s, er_unclaimed s, er_get_reward_index s1, er_get_total_staked s)"
    by (simp add: run(5) s2 er_accounts_def er_get_reward_index_def er_get_total_staked_def host_simps s1)
  ultimately show ?thesis using run(1,2) raise_index_Inr [OF run(3,2)] by auto
qed

text \<open>A sealed epoch as \<open>seal_epoch\<close> leaves it.\<close>

lemma seal_epoch_Inr:
  assumes "seal_epoch e c t d s = Inr s'"
  shows "er_admin s \<noteq> None \<and> t = er_current_epoch s \<and> er_accounts s' = er_accounts s \<and>
    (\<exists>ep dust claimable. er_epochs s t = Some ep \<and> \<not> ei_sealed ep \<and> ei_start ep + ei_duration ep \<le> timestamp e \<and>
       er_schedule s' = (er_admin s, t + 1,
         (er_epochs s)(t \<mapsto> ep\<lparr>ei_end := timestamp e, ei_seal_ts := timestamp e, ei_sealed := True,
              ei_index_at_seal := er_get_reward_index s, ei_dust := dust, ei_claimable_at_seal := claimable\<rparr>,
            t + 1 \<mapsto> open_epoch (t + 1) (ei_start ep + ei_duration ep) d
              (ei_carried_forward ep + ei_total_rewards ep)),
         (er_start_index s)(t + 1 \<mapsto> er_get_reward_index s)))"
proof -
  from assms obtain ep claimable dust where run: "er_admin s \<noteq> None" "t = er_current_epoch s"
    "er_epochs s t = Some ep" "\<not> ei_sealed ep" "ei_start ep + ei_duration ep \<le> timestamp e"
    "s' = sealed_state (timestamp e) t (t + 1) (er_get_reward_index s) ep dust claimable
        (ei_carried_forward ep + ei_total_rewards ep) d s"
    by (auto simp: seal_epoch_def er_gate_defs outcome_simps fail_if_Inr_iff Let_def)
  moreover from this have "er_accounts s' = er_accounts s"
    by (simp add: sealed_state_def Let_def host_simps er_accounts_def er_get_reward_index_def
        er_get_total_staked_def)
  moreover from calculation have "er_schedule s' = (er_admin s, t + 1,
      (er_epochs s)(t \<mapsto> ep\<lparr>ei_end := timestamp e, ei_seal_ts := timestamp e, ei_sealed := True,
          ei_index_at_seal := er_get_reward_index s, ei_dust := dust, ei_claimable_at_seal := claimable\<rparr>,
        t + 1 \<mapsto> open_epoch (t + 1) (ei_start ep + ei_duration ep) d
          (ei_carried_forward ep + ei_total_rewards ep)),
      (er_start_index s)(t + 1 \<mapsto> er_get_reward_index s))"
    by (simp add: sealed_state_def Let_def host_simps er_schedule_def er_current_epoch_def)
  ultimately show ?thesis by blast
qed

text \<open>The other calls leave accounts and epochs alone; \<open>init\<close> opens the first epoch.\<close>

lemma er_init_Inr:
  assumes "er_init e a d s = Inr s'"
  shows "er_admin s = None \<and> er_accounts s' = (er_stakes s, er_unclaimed s, 0, 0) \<and>
    er_schedule s' = (Some a, 1, (er_epochs s)(1 \<mapsto> open_epoch 1 (timestamp e) d 0), (er_start_index s)(1 \<mapsto> 0))"
  using assms by (auto simp: er_init_def er_accounts_def er_schedule_def er_current_epoch_def
      er_get_reward_index_def er_get_total_staked_def host_simps fail_if_Inr_iff)

text \<open>One case per kind of call.\<close>

lemma er_admin_call_Inr:
  assumes "er_set_operator e a p s = Inr s' \<or> er_pause e a s = Inr s' \<or> er_unpause e a s = Inr s'"
  shows "er_accounts s' = er_accounts s \<and> er_schedule s' = er_schedule s"
  using assms by (auto simp: er_set_operator_def er_pause_def er_unpause_def er_accounts_def er_schedule_def
      er_current_epoch_def er_get_reward_index_def er_get_total_staked_def outcome_simps)

lemma er_exec_cases:
  assumes "er_exec e c s = Inr s'"
  obtains (init) a d where "c = ER_Init a d" "er_init e a d s = Inr s'"
  | (admin) "er_accounts s' = er_accounts s" "er_schedule s' = er_schedule s"
      "\<forall>u. c \<noteq> ER_Claim u" "\<forall>a n. c \<noteq> ER_Fund a n"
  | (stake) u n where "c = ER_Stake u n" "er_stake e u n s = Inr s'"
  | (unstake) u n where "c = ER_Unstake u n" "er_unstake e u n s = Inr s'"
  | (fund) a n where "c = ER_Fund a n" "fund_epoch_rewards e a n s = Inr s'"
  | (seal) a t d where "c = ER_Seal a t d" "seal_epoch e a t d s = Inr s'"
  | (claim) u x where "c = ER_Claim u" "er_claim e u s = Inr (x, s')"
proof (cases c)
  case (ER_Claim u)
  with assms claim show ?thesis by (auto simp: outcome_simps)
next
  case (ER_SetOperator a p)
  with assms er_admin_call_Inr [of e a p s s'] show ?thesis by (intro admin) auto
next
  case (ER_Pause a)
  with assms er_admin_call_Inr [of e a _ s s'] show ?thesis by (intro admin) auto
next
  case (ER_Unpause a)
  with assms er_admin_call_Inr [of e a _ s s'] show ?thesis by (intro admin) auto
qed (use assms init stake unstake fund seal in auto)

end
