(* ===== verification/EpochRewardsProps.thy ===== *)
theory EpochRewardsProps
  imports EpochRewards
begin

text \<open>
  Properties of the epoch rewards: everything that can ever be claimed was funded (the argument is a
  potential, the index growth still owed to the stakes plus the banked rewards, in units of the
  index scale), and the epochs form a chain that is sealed one by one.
\<close>

section \<open>Conservation of rewards\<close>

definition er_owed :: "int \<Rightarrow> er_user_stake \<Rightarrow> int" where
  "er_owed i v = es_amount v * (i - es_index v)"

definition er_books :: "'w er_state \<Rightarrow> bool" where
  "er_books s \<longleftrightarrow> finite (dom (er_stakes s)) \<and> finite (dom (er_unclaimed s)) \<and>
     er_get_total_staked s = msum (\<lambda>_. es_amount) (er_stakes s) \<and>
     (\<forall>u v. er_stakes s u = Some v \<longrightarrow> 0 \<le> es_amount v \<and> es_index v \<le> er_get_reward_index s) \<and>
     (\<forall>u v. er_unclaimed s u = Some v \<longrightarrow> 0 \<le> v) \<and> 0 \<le> er_get_reward_index s"

definition er_debt :: "'w er_state \<Rightarrow> int" where
  "er_debt s = msum (\<lambda>_. er_owed (er_get_reward_index s)) (er_stakes s) +
     ER_SCALE * msum (\<lambda>_ v. v) (er_unclaimed s)"

lemma er_accounts_eqD:
  assumes "er_accounts s' = (st, un, i, t)"
  shows "er_stakes s' = st" "er_unclaimed s' = un" "er_get_reward_index s' = i" "er_get_total_staked s' = t"
  using assms by (simp_all add: er_accounts_def)

lemma er_user_ok:
  assumes "er_books s"
  shows "0 \<le> es_amount (er_get_user_stake u s)" "es_index (er_get_user_stake u s) \<le> er_get_reward_index s"
    "0 \<le> banked u s"
  using assms by (cases "er_stakes s u"; cases "er_unclaimed s u";
      simp add: er_books_def er_get_user_stake_def banked_def)+

lemma pending_bounds:
  assumes "er_books s"
  shows "0 \<le> pending_of u s"
    and "ER_SCALE * pending_of u s \<le> er_owed (er_get_reward_index s) (er_get_user_stake u s)"
  using er_user_ok [OF assms, of u]
  by (simp_all add: pending_of_def er_owed_def ER_SCALE_def sdiv_nonneg pos_imp_zdiv_nonneg_iff mult_div_le_int)

lemma banked_map_sum:
  assumes "er_books s"
  shows "msum (\<lambda>_ v. v) (banked_map u s) = msum (\<lambda>_ v. v) (er_unclaimed s) + pending_of u s"
    and "finite (dom (banked_map u s))" and "\<And>k v. banked_map u s k = Some v \<Longrightarrow> 0 \<le> v"
proof -
  have fin: "finite (dom (er_unclaimed s))" using assms by (simp add: er_books_def)
  show "msum (\<lambda>_ v. v) (banked_map u s) = msum (\<lambda>_ v. v) (er_unclaimed s) + pending_of u s"
    using msum_upd_default [OF fin, of "\<lambda>_ v. v" u 0] pending_bounds(1) [OF assms, of u]
    by (simp add: banked_map_def banked_def)
  show "finite (dom (banked_map u s))" using fin by (simp add: banked_map_def)
  show "0 \<le> v" if "banked_map u s k = Some v" for k v
    using that assms er_user_ok(3) [OF assms, of u] by (auto simp: banked_map_def er_books_def split: if_splits)
qed

text \<open>Writing a user's stake at the current index, with any new amount.\<close>

lemma restake:
  fixes u :: address
  assumes "er_books s" and "0 \<le> n"
  defines "m \<equiv> (er_stakes s)(u \<mapsto> \<lparr>es_amount = n, es_index = er_get_reward_index s\<rparr>)"
  shows "msum (\<lambda>_. er_owed (er_get_reward_index s)) m =
      msum (\<lambda>_. er_owed (er_get_reward_index s)) (er_stakes s) -
        er_owed (er_get_reward_index s) (er_get_user_stake u s)"
    and "msum (\<lambda>_. es_amount) m = er_get_total_staked s + n - es_amount (er_get_user_stake u s)"
    and "finite (dom m)"
    and "\<And>k v. m k = Some v \<Longrightarrow> 0 \<le> es_amount v \<and> es_index v \<le> er_get_reward_index s"
proof -
  let ?d = "\<lparr>es_amount = 0, es_index = 0\<rparr>" and ?i = "er_get_reward_index s"
  have fin: "finite (dom (er_stakes s))" and total: "er_get_total_staked s = msum (\<lambda>_. es_amount) (er_stakes s)"
    using assms(1) by (simp_all add: er_books_def)
  show "msum (\<lambda>_. er_owed ?i) m = msum (\<lambda>_. er_owed ?i) (er_stakes s) - er_owed ?i (er_get_user_stake u s)"
    using msum_upd_default [OF fin, of "\<lambda>_. er_owed ?i" u ?d]
    by (simp add: m_def er_owed_def er_get_user_stake_def)
  show "msum (\<lambda>_. es_amount) m = er_get_total_staked s + n - es_amount (er_get_user_stake u s)"
    using msum_upd_default [OF fin, of "\<lambda>_. es_amount" u ?d] total
    by (simp add: m_def er_get_user_stake_def)
  show "finite (dom m)" using fin by (simp add: m_def)
  show "0 \<le> es_amount v \<and> es_index v \<le> ?i" if "m k = Some v" for k v
    using that assms(1,2) by (auto simp: m_def er_books_def split: if_splits)
qed

lemma er_restaked:
  assumes "er_books s" and "0 \<le> n" and "er_accounts s' =
      ((er_stakes s)(u \<mapsto> \<lparr>es_amount = n, es_index = er_get_reward_index s\<rparr>), banked_map u s,
       er_get_reward_index s, er_get_total_staked s + n - es_amount (er_get_user_stake u s))"
  shows "er_books s' \<and> er_debt s' \<le> er_debt s"
proof -
  note core = er_accounts_eqD [OF assms(3)]
  note st = restake [OF assms(1,2), of u] and bank = banked_map_sum [OF assms(1), of u]
  have "er_books s'"
    unfolding er_books_def core using st bank assms(1) by (simp add: er_books_def)
  moreover have "er_debt s' \<le> er_debt s"
    using pending_bounds(2) [OF assms(1), of u] by (simp add: er_debt_def core st(1) bank(1) distrib_left)
  ultimately show ?thesis by blast
qed

lemma er_claimed:
  assumes "er_books s" and "er_claim e u s = Inr (x, s')"
  shows "er_books s' \<and> ER_SCALE * x + er_debt s' \<le> er_debt s"
proof -
  let ?v = "er_get_user_stake u s"
  have acc: "er_accounts s' = ((er_stakes s)(u \<mapsto> \<lparr>es_amount = es_amount ?v, es_index = er_get_reward_index s\<rparr>),
      (er_unclaimed s)(u \<mapsto> 0), er_get_reward_index s, er_get_total_staked s)"
    and x: "x = pending_of u s + banked u s"
    using er_claim_Inr [OF assms(2)] by (auto intro: er_user_stake.equality)
  note core = er_accounts_eqD [OF acc] and st = restake [OF assms(1) er_user_ok(1) [OF assms(1), of u], of u]
  have fin: "finite (dom (er_unclaimed s))" using assms(1) by (simp add: er_books_def)
  have "er_books s'"
    unfolding er_books_def core using st assms(1) by (auto simp: er_books_def split: if_splits)
  moreover have "msum (\<lambda>_ v. v) ((er_unclaimed s)(u \<mapsto> 0)) = msum (\<lambda>_ v. v) (er_unclaimed s) - banked u s"
    using msum_upd_default [OF fin, of "\<lambda>_ v. v" u 0] by (simp add: banked_def)
  then have "ER_SCALE * x + er_debt s' \<le> er_debt s"
    using pending_bounds(2) [OF assms(1), of u]
    by (simp add: er_debt_def core st(1) x distrib_left right_diff_distrib)
  ultimately show ?thesis by blast
qed

lemma er_funded:
  assumes "er_books s" and "fund_epoch_rewards e a n s = Inr s'"
  shows "er_books s' \<and> er_debt s' \<le> er_debt s + ER_SCALE * n"
proof -
  let ?t = "er_get_total_staked s" and ?i = "er_get_reward_index s"
  let ?k = "if 0 < ?t then n * ER_SCALE div ?t else 0"
  have n: "0 < n" and acc: "er_accounts s' = (er_stakes s, er_unclaimed s, ?i + ?k, ?t)"
    using fund_epoch_rewards_Inr [OF assms(2)] by auto
  note core = er_accounts_eqD [OF acc]
  have k: "0 \<le> ?k" using n by (simp add: ER_SCALE_def pos_imp_zdiv_nonneg_iff)
  have "er_books s'" unfolding er_books_def core using assms(1) k by (force simp: er_books_def)
  moreover have "msum (\<lambda>_. er_owed (?i + ?k)) (er_stakes s) = msum (\<lambda>_. er_owed ?i) (er_stakes s) + ?k * ?t"
  proof -
    have "(\<lambda>_ :: address. er_owed (?i + ?k)) = (\<lambda>u v. er_owed ?i v + ?k * es_amount v)"
      by (simp add: fun_eq_iff er_owed_def algebra_simps)
    then show ?thesis using assms(1) by (simp add: msum_add msum_linear er_books_def)
  qed
  moreover have "?k * ?t \<le> ER_SCALE * n"
    using n mult_div_le_int [of ?t "n * ER_SCALE"] by (auto simp: ER_SCALE_def mult.commute)
  ultimately show ?thesis by (simp add: er_debt_def core)
qed

text \<open>What an accepted call pays out, less what it pays in.\<close>

definition er_net :: "env \<Rightarrow> er_call \<Rightarrow> 'w er_state \<Rightarrow> int" where
  "er_net e c s =
     (case c of
        ER_Fund a n \<Rightarrow> - n
      | ER_Claim u \<Rightarrow> (case er_claim e u s of Inr (x, _) \<Rightarrow> x | Inl _ \<Rightarrow> 0)
      | _ \<Rightarrow> 0)"

lemma er_exec_admin: "er_exec e c s = Inr s' \<Longrightarrow> er_admin s \<noteq> None \<Longrightarrow> er_admin s' \<noteq> None"
  by (cases rule: er_exec_cases, assumption)
    (auto dest!: er_stake_Inr er_unstake_Inr fund_epoch_rewards_Inr seal_epoch_Inr er_claim_Inr er_init_Inr
      simp: er_schedule_def)

lemma er_exec_conserves:
  assumes "er_exec e c s = Inr s'" and "er_books s" and "er_admin s \<noteq> None"
  shows "er_books s' \<and> ER_SCALE * er_net e c s + er_debt s' \<le> er_debt s"
  using assms(1)
proof (cases rule: er_exec_cases)
  case (init a d)
  with assms(3) show ?thesis by (auto dest: er_init_Inr)
next
  case admin
  then have "er_books s' = er_books s" "er_debt s' = er_debt s"
    by (simp_all add: er_accounts_def er_books_def er_debt_def)
  with admin assms(2) show ?thesis by (auto simp: er_net_def split: er_call.splits)
next
  case (stake u n)
  then show ?thesis
    using er_restaked [OF assms(2), of "es_amount (er_get_user_stake u s) + n" s' u] er_user_ok(1) [OF assms(2), of u]
      er_stake_Inr [OF stake(2)] by (simp add: er_net_def)
next
  case (unstake u n)
  then show ?thesis
    using er_restaked [OF assms(2), of "es_amount (er_get_user_stake u s) - n" s' u] er_unstake_Inr [OF unstake(2)]
    by (simp add: er_net_def)
next
  case (fund a n)
  then show ?thesis using er_funded [OF assms(2) fund(2)] by (simp add: er_net_def)
next
  case (seal a t d)
  then have "er_accounts s' = er_accounts s" using seal_epoch_Inr [OF seal(2)] by blast
  then have "er_books s' = er_books s" "er_debt s' = er_debt s"
    by (simp_all add: er_accounts_def er_books_def er_debt_def)
  with seal assms(2) show ?thesis by (simp add: er_net_def)
next
  case (claim u x)
  then show ?thesis using er_claimed [OF assms(2) claim(2)] by (simp add: er_net_def)
qed

definition er_fresh :: "'w \<Rightarrow> 'w er_state" where
  "er_fresh w = \<lparr>events = [], world = w, er_admin = None, er_operator = None, er_current = None,
     er_epochs = Map.empty, er_unclaimed = Map.empty, er_reward_index = None, er_start_index = Map.empty,
     er_total_staked = None, er_stakes = Map.empty, er_paused = None\<rparr>"

lemma er_start:
  assumes "er_init e a d (er_fresh w) = Inr s0"
  shows "er_books s0" and "er_debt s0 = 0" and "er_admin s0 \<noteq> None"
  using er_init_Inr [OF assms]
  by (auto simp: er_accounts_def er_schedule_def er_books_def er_debt_def er_fresh_def)

lemma banked_dom: "banked u s \<noteq> 0 \<Longrightarrow> u \<in> dom (er_unclaimed s)"
  by (cases "er_unclaimed s u") (auto simp: banked_def)

text \<open>What one user can claim is part of the debt.\<close>

lemma claimable_within_debt:
  assumes "er_books s" and "finite U"
  shows "ER_SCALE * (\<Sum>u\<in>U. pending_of u s + banked u s) \<le> er_debt s"
proof -
  let ?i = "er_get_reward_index s"
  let ?f = "\<lambda>u. case er_stakes s u of None \<Rightarrow> 0 | Some v \<Rightarrow> er_owed ?i v"
  have f: "er_owed ?i (er_get_user_stake u s) = ?f u" for u
    by (simp add: er_get_user_stake_def er_owed_def split: option.splits)
  have fin: "finite (dom (er_stakes s))" "finite (dom (er_unclaimed s))"
    and nonneg: "0 \<le> ?f u" "0 \<le> banked u s" for u
    using assms(1) er_user_ok(3) [OF assms(1), of u] by (auto simp: er_books_def er_owed_def split: option.splits)
  have "(\<Sum>u\<in>U. ?f u) = (\<Sum>u\<in>U \<inter> dom (er_stakes s). ?f u)"
    using assms(2) by (intro sum.mono_neutral_right) (auto split: option.splits)
  also have "\<dots> \<le> (\<Sum>u\<in>dom (er_stakes s). ?f u)" using fin(1) nonneg(1) by (intro sum_mono2) auto
  also have "\<dots> = msum (\<lambda>_. er_owed ?i) (er_stakes s)" unfolding msum_def by (rule sum.cong) auto
  finally have live: "(\<Sum>u\<in>U. ?f u) \<le> msum (\<lambda>_. er_owed ?i) (er_stakes s)" .
  have "(\<Sum>u\<in>U. banked u s) = (\<Sum>u\<in>U \<inter> dom (er_unclaimed s). banked u s)"
    using assms(2) by (intro sum.mono_neutral_right) (auto simp del: domIff dest: banked_dom)
  also have "\<dots> \<le> (\<Sum>u\<in>dom (er_unclaimed s). banked u s)" using fin(2) nonneg(2) by (intro sum_mono2) auto
  also have "\<dots> = msum (\<lambda>_ v. v) (er_unclaimed s)" unfolding msum_def by (rule sum.cong) (auto simp: banked_def)
  finally have bank: "ER_SCALE * (\<Sum>u\<in>U. banked u s) \<le> ER_SCALE * msum (\<lambda>_ v. v) (er_unclaimed s)"
    by (simp add: ER_SCALE_def)
  have "ER_SCALE * (\<Sum>u\<in>U. pending_of u s) \<le> (\<Sum>u\<in>U. ?f u)"
    unfolding sum_distrib_left using pending_bounds(2) [OF assms(1)] by (intro sum_mono) (simp add: f)
  with live bank show ?thesis by (simp add: er_debt_def sum.distrib distrib_left)
qed

section \<open>Properties\<close>

text \<open>C26. Rewards are conserved: in every history after initialisation, what was claimed plus what any set
  of users can still claim is at most what was funded, however the users stake, unstake, claim and
  bank in between.\<close>

theorem epoch_rewards_conserved:
  assumes "er_init e0 a d (er_fresh w) = Inr s0" and "tally er_exec er_net cs 0 s0 = (net, s)" and "finite U"
  shows "net + (\<Sum>u\<in>U. pending_of u s + banked u s) \<le> 0 \<and>
    (\<forall>u\<in>U. 0 \<le> pending_of u s \<and> 0 \<le> banked u s \<and>
      (\<forall>x. er_get_claimable u s = Inr x \<longrightarrow> x = pending_of u s + banked u s))"
proof -
  let ?P = "\<lambda>acc s. er_books s \<and> er_admin s \<noteq> None \<and> ER_SCALE * acc + er_debt s \<le> 0"
  have "?P net s"
  proof (rule tally_inv [OF assms(2), where P = ?P])
    show "?P 0 s0" using er_start [OF assms(1)] by simp
  next
    fix e c acc and s s' :: "'a er_state"
    assume P: "?P acc s" and run: "er_exec e c s = Inr s'"
    with er_exec_conserves [OF run] er_exec_admin [OF run]
    show "?P (acc + er_net e c s) s'" by (simp add: distrib_left)
  qed
  then have books: "er_books s" and debt: "ER_SCALE * net + er_debt s \<le> 0" by auto
  with claimable_within_debt [OF books assms(3)]
  have "ER_SCALE * (net + (\<Sum>u\<in>U. pending_of u s + banked u s)) \<le> 0" by (simp add: distrib_left)
  then have "net + (\<Sum>u\<in>U. pending_of u s + banked u s) \<le> 0"
    by (simp add: ER_SCALE_def)
  moreover have "x = pending_of u s + banked u s" if "er_get_claimable u s = Inr x" for u x
    using that by (auto simp: er_get_claimable_def outcome_simps dest: er_calc_pending_Inr)
  ultimately show ?thesis using pending_bounds(1) [OF books] er_user_ok(3) [OF books] by blast
qed

section \<open>The chain of epochs\<close>

definition epoch_ok :: "'w er_state \<Rightarrow> nat \<Rightarrow> epoch_info \<Rightarrow> bool" where
  "epoch_ok s k ep \<longleftrightarrow> ei_number ep = k \<and> (ei_sealed ep \<longleftrightarrow> k < er_current_epoch s) \<and>
     (ei_sealed ep \<longrightarrow> ei_start ep + ei_duration ep \<le> ei_seal_ts ep \<and>
        (\<exists>ep'. er_epochs s (k + 1) = Some ep' \<and> ei_start ep' = ei_start ep + ei_duration ep \<and>
           ei_carried_forward ep' = ei_carried_forward ep + ei_total_rewards ep))"

definition epochs_ok :: "'w er_state \<Rightarrow> bool" where
  "epochs_ok s \<longleftrightarrow>
     (if er_admin s = None then er_epochs s = Map.empty
      else 1 \<le> er_current_epoch s \<and>
        (\<forall>k. er_epochs s k \<noteq> None \<longleftrightarrow> 1 \<le> k \<and> k \<le> er_current_epoch s) \<and>
        (\<forall>k ep. er_epochs s k = Some ep \<longrightarrow> epoch_ok s k ep))"

lemma er_schedule_eqD:
  assumes "er_schedule s' = (a, n, eps, st)"
  shows "er_admin s' = a" "er_current_epoch s' = n" "er_epochs s' = eps" "er_start_index s' = st"
  using assms by (simp_all add: er_schedule_def)

lemma epochs_ok_frame: "er_schedule s' = er_schedule s \<Longrightarrow> epochs_ok s' = epochs_ok s"
  by (simp add: er_schedule_def epochs_ok_def epoch_ok_def)

lemma epochs_ok_fund:
  assumes "fund_epoch_rewards e a n s = Inr s'" and "epochs_ok s"
  shows "epochs_ok s'"
proof -
  from fund_epoch_rewards_Inr [OF assms(1)] obtain dust where adm: "er_admin s \<noteq> None"
    and sched: "er_schedule s' = (er_admin s, er_current_epoch s, funded_epochs n dust s, er_start_index s)"
    by auto
  note core = er_schedule_eqD [OF sched]
  from assms(2) adm have ok: "1 \<le> er_current_epoch s"
    "\<And>k. er_epochs s k \<noteq> None \<longleftrightarrow> 1 \<le> k \<and> k \<le> er_current_epoch s"
    "\<And>k ep. er_epochs s k = Some ep \<Longrightarrow> epoch_ok s k ep" by (auto simp: epochs_ok_def)
  then obtain ep where ep: "er_epochs s (er_current_epoch s) = Some ep" by fastforce
  with ok(3) have open_ep: "\<not> ei_sealed ep" "ei_number ep = er_current_epoch s" by (auto simp: epoch_ok_def)
  have eps: "er_epochs s' = (er_epochs s)(er_current_epoch s \<mapsto>
      ep\<lparr>ei_total_rewards := ei_total_rewards ep + n, ei_dust := ei_dust ep + dust\<rparr>)"
    by (simp add: core funded_epochs_def ep)
  have "epoch_ok s' k q" if q: "er_epochs s' k = Some q" for k q
  proof (cases "k = er_current_epoch s")
    case True
    with q open_ep show ?thesis by (auto simp: epoch_ok_def core(2) eps)
  next
    case False
    with q ok(3) have "epoch_ok s k q" by (simp add: eps)
    with ep show ?thesis by (cases "k + 1 = er_current_epoch s") (auto simp: epoch_ok_def core(2) eps)
  qed
  moreover have "er_epochs s' k \<noteq> None \<longleftrightarrow> er_epochs s k \<noteq> None" for k by (simp add: eps ep)
  ultimately show ?thesis using adm ok(1,2) by (auto simp: epochs_ok_def core(1,2))
qed

lemma epochs_ok_seal:
  assumes "seal_epoch e a t d s = Inr s'" and "epochs_ok s"
  shows "epochs_ok s'"
proof -
  from seal_epoch_Inr [OF assms(1)] obtain ep dust claimable where adm: "er_admin s \<noteq> None"
    and t: "t = er_current_epoch s" "er_epochs s t = Some ep" "ei_start ep + ei_duration ep \<le> timestamp e"
    and sched: "er_schedule s' = (er_admin s, t + 1,
      (er_epochs s)(t \<mapsto> ep\<lparr>ei_end := timestamp e, ei_seal_ts := timestamp e, ei_sealed := True,
          ei_index_at_seal := er_get_reward_index s, ei_dust := dust, ei_claimable_at_seal := claimable\<rparr>,
        t + 1 \<mapsto> open_epoch (t + 1) (ei_start ep + ei_duration ep) d
          (ei_carried_forward ep + ei_total_rewards ep)),
      (er_start_index s)(t + 1 \<mapsto> er_get_reward_index s))"
    by blast
  note core = er_schedule_eqD [OF sched]
  from assms(2) adm have ok: "1 \<le> t" "\<And>k. er_epochs s k \<noteq> None \<longleftrightarrow> 1 \<le> k \<and> k \<le> t"
    "\<And>k ep. er_epochs s k = Some ep \<Longrightarrow> epoch_ok s k ep" by (auto simp: epochs_ok_def t(1))
  have "epoch_ok s' k q" if q: "er_epochs s' k = Some q" for k q
  proof (cases "k < t")
    case True
    with q ok(3) [of k q] have "epoch_ok s k q" by (simp add: core)
    with True t show ?thesis by (auto simp: epoch_ok_def core)
  next
    case False
    with q ok(2) [of k] consider "k = t" | "k = t + 1" by (auto simp: core split: if_splits)
    then show ?thesis using q ok(3) [OF t(2)] t(3) by cases (auto simp: epoch_ok_def core open_epoch_def)
  qed
  moreover have "er_epochs s' k \<noteq> None \<longleftrightarrow> 1 \<le> k \<and> k \<le> t + 1" for k
    using ok(1) ok(2) [of k] by (auto simp: core)
  ultimately show ?thesis using adm by (auto simp: epochs_ok_def core)
qed

lemma er_exec_epochs:
  assumes "er_exec e c s = Inr s'" and "epochs_ok s"
  shows "epochs_ok s'"
  using assms(1)
proof (cases rule: er_exec_cases)
  case (init a d)
  from er_init_Inr [OF this(2)] have adm: "er_admin s = None"
    and sched: "er_schedule s' = (Some a, 1, (er_epochs s)(1 \<mapsto> open_epoch 1 (timestamp e) d 0), (er_start_index s)(1 \<mapsto> 0))"
    by auto
  with assms(2) er_schedule_eqD [OF sched] show ?thesis
    by (auto simp: epochs_ok_def epoch_ok_def open_epoch_def)
next
  case (fund a n)
  from epochs_ok_fund [OF this(2) assms(2)] show ?thesis .
next
  case (seal a t d)
  from epochs_ok_seal [OF this(2) assms(2)] show ?thesis .
qed (use assms(2) epochs_ok_frame er_stake_Inr er_unstake_Inr er_claim_Inr in blast)+

interpretation er_machine: invariant_machine er_exec any_call world_moves epochs_ok
proof
  show "epochs_ok s'" if "epochs_ok s" "world_moves s s'" for s s' :: "'w er_state"
    using that epochs_ok_frame [of s' s] by (auto simp: world_moves_def er_schedule_def er_current_epoch_def)
qed (rule er_exec_epochs)

text \<open>Epochs form a chain that is sealed in order: in every reachable state of an initialised contract
  exactly the epochs from 1 to the current one exist, exactly those before it are sealed, each of
  them not before its duration was over, and the next epoch begins where it ended and carries all
  its funding forward; no call changes a sealed epoch.\<close>

theorem epochs_sealed_in_order:
  assumes "reach er_exec any_call world_moves (er_fresh w) s" and "er_admin s \<noteq> None"
  shows "(\<forall>k. er_epochs s k \<noteq> None \<longleftrightarrow> 1 \<le> k \<and> k \<le> er_current_epoch s) \<and>
    (\<forall>k ep. er_epochs s k = Some ep \<longrightarrow>
       (ei_sealed ep \<longleftrightarrow> k < er_current_epoch s) \<and>
       (ei_sealed ep \<longrightarrow> ei_start ep + ei_duration ep \<le> ei_seal_ts ep \<and>
          (\<exists>ep'. er_epochs s (k + 1) = Some ep' \<and> ei_start ep' = ei_start ep + ei_duration ep \<and>
             ei_carried_forward ep' = ei_carried_forward ep + ei_total_rewards ep) \<and>
          (\<forall>e c s'. er_exec e c s = Inr s' \<longrightarrow> er_epochs s' k = Some ep)))"
proof -
  have ok: "epochs_ok s"
    using er_machine.reach_inv [OF assms(1)] by (simp add: epochs_ok_def er_fresh_def)
  have "er_epochs s' k = Some ep"
    if ep: "er_epochs s k = Some ep" "ei_sealed ep" and run: "er_exec e c s = Inr s'" for k ep e c s'
  proof -
    from ok ep assms(2) have k: "k < er_current_epoch s" by (auto simp: epochs_ok_def epoch_ok_def)
    from run show ?thesis
    proof (cases rule: er_exec_cases)
      case (init a d)
      with assms(2) show ?thesis by (auto dest: er_init_Inr)
    next
      case (fund a n)
      from fund_epoch_rewards_Inr [OF this(2)] k ep show ?thesis
        by (auto simp: er_schedule_def funded_epochs_def split: option.splits)
    next
      case (seal a t d)
      from seal_epoch_Inr [OF this(2)] k ep show ?thesis by (auto simp: er_schedule_def)
    qed (use ep in \<open>auto simp: er_schedule_def dest!: er_stake_Inr er_unstake_Inr er_claim_Inr\<close>)
  qed
  note fixed = this
  from ok assms(2) have "\<forall>k. er_epochs s k \<noteq> None \<longleftrightarrow> 1 \<le> k \<and> k \<le> er_current_epoch s"
    and "\<And>k ep. er_epochs s k = Some ep \<Longrightarrow> epoch_ok s k ep" by (auto simp: epochs_ok_def)
  with fixed show ?thesis unfolding epoch_ok_def by blast
qed

section \<open>Witnesses\<close>

abbreviation er_at :: "nat \<Rightarrow> nat \<Rightarrow> env" where
  "er_at t who \<equiv> call_at t (Address 9) (Address who)"

definition er_sample_calls :: "(env \<times> er_call) list" where
  "er_sample_calls =
     [(er_at 2 5, ER_Stake (Address 5) 3), (er_at 3 6, ER_Stake (Address 6) 4),
      (er_at 4 2, ER_Fund (Address 2) 100), (er_at 20 2, ER_Seal (Address 2) 1 10),
      (er_at 21 5, ER_Claim (Address 5))]"

definition er_sample_start :: "unit er_state" where
  "er_sample_start = after (er_init (er_at 1 2) (Address 2) 10 (er_fresh ())) (er_fresh ())"

lemmas er_eval = er_fresh_def er_sample_calls_def er_init_def er_stake_def fund_epoch_rewards_def
  seal_epoch_def sealed_state_def er_claim_def bank_pending_def er_calc_pending_def dust_of_funding_def
  raise_index_def record_funding_def claimable_at_seal_def open_epoch_def er_gate_defs
  er_get_reward_index_def er_get_total_staked_def er_get_user_stake_def er_current_epoch_def banked_def
  ER_SCALE_def ck_i128_def i128_ok_def ck_u64_def div_i128_def signed_divide_int_def drop_result_def
  apply_call_def host_simps Let_def

lemma er_sample_init: "er_init (er_at 1 2) (Address 2) 10 (er_fresh ()) = Inr er_sample_start"
  by (simp add: er_sample_start_def er_init_def er_fresh_def)

lemma epoch_rewards_conserved_witness:
  "\<exists>s. tally er_exec er_net er_sample_calls 0 er_sample_start = (- 58, s) \<and>
     pending_of (Address 6) s = 57 \<and> - 58 + (\<Sum>u\<in>{Address 5, Address 6}. pending_of u s + banked u s) \<le> 0"
proof -
  let ?t = "tally er_exec er_net er_sample_calls 0 er_sample_start"
  have vals: "fst ?t = - 58" "pending_of (Address 6) (snd ?t) = 57"
    by (simp_all add: er_sample_start_def er_eval er_net_def pending_of_def)
  obtain net s where run: "?t = (net, s)" by fastforce
  with vals have "net = - 58" "pending_of (Address 6) s = 57" by simp_all
  with epoch_rewards_conserved [OF er_sample_init run, of "{Address 5, Address 6}"] run show ?thesis by auto
qed

definition er_sample :: "unit er_state" where
  "er_sample = run_calls er_exec ((er_at 1 2, ER_Init (Address 2) 10) # er_sample_calls) (er_fresh ())"

lemma epochs_sealed_in_order_witness:
  "\<exists>ep. er_current_epoch er_sample = 2 \<and> er_epochs er_sample 1 = Some ep \<and> ei_sealed ep \<and>
     er_epochs er_sample 2 \<noteq> None"
proof -
  have run: "reach er_exec any_call world_moves (er_fresh ()) er_sample"
    unfolding er_sample_def by (rule run_calls_reach) (simp add: any_call_def split_def)
  have cur: "er_current_epoch er_sample = 2" "er_admin er_sample \<noteq> None"
    by (simp_all add: er_sample_def er_eval)
  note chain = epochs_sealed_in_order [OF run cur(2)]
  have ex: "er_epochs er_sample k \<noteq> None \<longleftrightarrow> 1 \<le> k \<and> k \<le> 2" for k
    using spec [OF conjunct1 [OF chain], of k] unfolding cur(1) .
  then obtain ep where ep: "er_epochs er_sample 1 = Some ep" using ex [of 1] by force
  with conjunct2 [OF chain] have "ei_sealed ep \<longleftrightarrow> 1 < er_current_epoch er_sample" by blast
  with ep ex [of 2] cur(1) show ?thesis by simp
qed

end
