(* ===== verification/InspectorBond.thy ===== *)
theory InspectorBond
  imports AccessControl Pausable ReentrancyGuard
begin

text \<open>
  Inspector bonds (\<open>inspector_bond/src/lib.rs\<close>): bonds that inspectors record and take back after a
  lock, slashed by the admin at once or in two phases with a challenge window.  The contract keeps
  accounts only; no token moves.
\<close>

section \<open>State and errors\<close>

datatype ib_error =
    IB_AlreadyInitialized
  | IB_NotAuthorized
  | IB_Paused
  | IB_InvalidAmount
  | IB_BondTooLow
  | IB_LockNotExpired
  | IB_BondBelowMinimum
  | IB_NoBond
  | IB_SlashNotFound
  | IB_ChallengeWindowNotElapsed
  | IB_SlashAlreadyResolved
  | IB_ReentrancyDetected

record bond_record =
  br_inspector :: address
  br_amount :: int
  br_locked_until :: nat
  br_slash_count :: nat

datatype slash_severity = Low | Medium | High

datatype ib_slash_status = IS_Pending | IS_Finalized | IS_Cancelled

record inspector_slash =
  isl_id :: nat
  isl_inspector :: address
  isl_severity :: slash_severity
  isl_penalty :: int
  isl_deadline :: nat
  isl_status :: ib_slash_status
  isl_report_id :: bytes32
  isl_reason :: string

record 'w ib_state = "'w host" +
  ib_admin :: "address option"
  ib_paused :: "bool option"
  ib_min_bond :: "int option"
  ib_slash_bps :: "int option"
  ib_lock_days :: "nat option"
  ib_bonds :: "address \<rightharpoonup> bond_record"
  ib_reentrancy :: "bool option"
  ib_window :: "nat option"
  ib_next_id :: "nat option"
  ib_pending :: "nat \<rightharpoonup> inspector_slash"

section \<open>Helpers\<close>

definition ib_get_admin :: "'w ib_state \<Rightarrow> 'e fault + address" where
  "ib_get_admin s = expect (ib_admin s) ''not init''"

definition ib_is_paused :: "'w ib_state \<Rightarrow> bool" where
  "ib_is_paused s = unwrap_or (ib_paused s) False"

definition ib_require_not_paused :: "'w ib_state \<Rightarrow> ib_error fault + unit" where
  "ib_require_not_paused s = (if ib_is_paused s then Inl (Err IB_Paused) else Inr ())"

definition ib_require_admin :: "env \<Rightarrow> address \<Rightarrow> 'w ib_state \<Rightarrow> ib_error fault + unit" where
  "ib_require_admin e caller s =
     bindE (ib_get_admin s) (\<lambda>admin. require_admin_permission e admin caller ''admin'' IB_NotAuthorized s)"

definition ib_put_lock :: "bool \<Rightarrow> 'w ib_state \<Rightarrow> 'w ib_state" where
  "ib_put_lock b s = s\<lparr>ib_reentrancy := Some b\<rparr>"

interpretation ib_lock: lock_cell ib_reentrancy ib_put_lock
  by unfold_locales (auto simp: ib_put_lock_def)

definition ib_reentrancy_scope ::
  "('w ib_state \<Rightarrow> ib_error fault + 'r \<times> 'w ib_state) \<Rightarrow> 'w ib_state \<Rightarrow> ib_error fault + 'r \<times> 'w ib_state" where
  "ib_reentrancy_scope body s = scoped ib_reentrancy ib_put_lock IB_ReentrancyDetected body s"

definition min_bond :: "'w ib_state \<Rightarrow> int" where
  "min_bond s = unwrap_or (ib_min_bond s) 10000000000"

definition slash_bps :: "'w ib_state \<Rightarrow> int" where
  "slash_bps s = unwrap_or (ib_slash_bps s) 1000"

fun tier_penalty_bps :: "slash_severity \<Rightarrow> 'w ib_state \<Rightarrow> 'e fault + int" where
  "tier_penalty_bps Low s = bindE (ck_i128 (slash_bps s * 25)) (\<lambda>x. div_i128 x 100)"
| "tier_penalty_bps Medium s = bindE (ck_i128 (slash_bps s * 50)) (\<lambda>x. div_i128 x 100)"
| "tier_penalty_bps High s = Inr (slash_bps s)"

definition lock_days :: "'w ib_state \<Rightarrow> nat" where
  "lock_days s = unwrap_or (ib_lock_days s) 30"

definition inspector_challenge_window :: "'w ib_state \<Rightarrow> nat" where
  "inspector_challenge_window s = unwrap_or (ib_window s) 604800"

definition ib_event :: "string \<Rightarrow> val list" where
  "ib_event name = [VSym ''inspector_bond'', VSym name]"

section \<open>Operations\<close>

definition ib_init :: "address \<Rightarrow> int \<Rightarrow> int \<Rightarrow> nat \<Rightarrow> 'w ib_state \<Rightarrow> ib_error fault + 'w ib_state" where
  "ib_init admin min_bond_amount slash_penalty_bps unstake_lock_days s =
     (if ib_admin s \<noteq> None then Inl (Err IB_AlreadyInitialized)
      else Inr (s\<lparr>ib_admin := Some admin, ib_min_bond := Some min_bond_amount,
                 ib_slash_bps := Some slash_penalty_bps, ib_lock_days := Some unstake_lock_days\<rparr>))"

definition stake_bond :: "env \<Rightarrow> address \<Rightarrow> int \<Rightarrow> 'w ib_state \<Rightarrow> ib_error fault + 'w ib_state" where
  "stake_bond e inspector amount s =
     bindE (ib_require_not_paused s) (\<lambda>_.
     bindE (require_auth e inspector) (\<lambda>_.
     if amount \<le> 0 then Inl (Err IB_InvalidAmount)
     else if amount < min_bond s then Inl (Err IB_BondTooLow)
     else
     bindE (ck_u64 (lock_days s * 86400)) (\<lambda>lock_secs.
     bindE (ck_u64 (timestamp e + lock_secs)) (\<lambda>locked_until.
     let existing = ib_bonds s inspector in
     bindE (ck_i128 (unwrap_or (map_option br_amount existing) 0 + amount)) (\<lambda>new_amount.
     let bond = \<lparr>br_inspector = inspector, br_amount = new_amount, br_locked_until = locked_until,
           br_slash_count = unwrap_or (map_option br_slash_count existing) 0\<rparr>
     in Inr (publish (ib_event ''staked'' @ [VAddr inspector]) [VInt amount]
          (s\<lparr>ib_bonds := (ib_bonds s)(inspector \<mapsto> bond)\<rparr>)))))))"

text \<open>The guard is taken after the bond has been removed and held to the end.\<close>

definition unstake_bond :: "env \<Rightarrow> address \<Rightarrow> 'w ib_state \<Rightarrow> ib_error fault + int \<times> 'w ib_state" where
  "unstake_bond e inspector s =
     bindE (require_auth e inspector) (\<lambda>_.
     bindE (ok_or (ib_bonds s inspector) IB_NoBond) (\<lambda>bond.
     if br_amount bond < min_bond s then Inl (Err IB_BondBelowMinimum)
     else if timestamp e < br_locked_until bond then Inl (Err IB_LockNotExpired)
     else
     let amount = br_amount bond;
         s = s\<lparr>ib_bonds := (ib_bonds s)(inspector := None)\<rparr>
     in ib_reentrancy_scope
          (\<lambda>s. Inr (amount, publish (ib_event ''unstaked'' @ [VAddr inspector]) [VInt amount] s)) s))"

definition slash_inspector ::
  "env \<Rightarrow> address \<Rightarrow> address \<Rightarrow> bytes32 \<Rightarrow> string \<Rightarrow> 'w ib_state \<Rightarrow> ib_error fault + int \<times> 'w ib_state" where
  "slash_inspector e admin inspector report_id reason s =
     bindE (ib_require_admin e admin s) (\<lambda>_.
     bindE (ok_or (ib_bonds s inspector) IB_NoBond) (\<lambda>bond.
     bindE (ck_i128 (br_amount bond * slash_bps s)) (\<lambda>product.
     bindE (div_i128 product 10000) (\<lambda>penalty.
     let slash_amount = (if br_amount bond < penalty then br_amount bond else penalty) in
     bindE (ck_i128 (br_amount bond - slash_amount)) (\<lambda>rest.
     bindE (ck_u32 (br_slash_count bond + 1)) (\<lambda>slash_count.
     let bond = bond\<lparr>br_amount := max rest 0, br_slash_count := slash_count\<rparr> in
     Inr (slash_amount, publish (ib_event ''slashed'' @ [VAddr inspector])
            [VInt slash_amount, VBytes report_id, VSym reason]
            (s\<lparr>ib_bonds := (ib_bonds s)(inspector \<mapsto> bond)\<rparr>))))))))"

definition is_bonded :: "address \<Rightarrow> 'w ib_state \<Rightarrow> bool" where
  "is_bonded inspector s =
     (case ib_bonds s inspector of Some b \<Rightarrow> min_bond s \<le> br_amount b | None \<Rightarrow> False)"

definition ib_pause :: "env \<Rightarrow> address \<Rightarrow> 'w ib_state \<Rightarrow> ib_error fault + 'w ib_state" where
  "ib_pause e admin s = bindE (ib_require_admin e admin s) (\<lambda>_. Inr (s\<lparr>ib_paused := Some True\<rparr>))"

definition ib_unpause :: "env \<Rightarrow> address \<Rightarrow> 'w ib_state \<Rightarrow> ib_error fault + 'w ib_state" where
  "ib_unpause e admin s = bindE (ib_require_admin e admin s) (\<lambda>_. Inr (s\<lparr>ib_paused := Some False\<rparr>))"

definition set_min_bond :: "env \<Rightarrow> address \<Rightarrow> int \<Rightarrow> 'w ib_state \<Rightarrow> ib_error fault + 'w ib_state" where
  "set_min_bond e admin amount s =
     bindE (ib_require_admin e admin s) (\<lambda>_. Inr (s\<lparr>ib_min_bond := Some amount\<rparr>))"

definition set_inspector_challenge_window ::
  "env \<Rightarrow> address \<Rightarrow> nat \<Rightarrow> 'w ib_state \<Rightarrow> ib_error fault + 'w ib_state" where
  "set_inspector_challenge_window e admin window_secs s =
     bindE (ib_require_admin e admin s) (\<lambda>_.
     Inr (publish (ib_event ''challenge_window_updated'') [VNat window_secs] (s\<lparr>ib_window := Some window_secs\<rparr>)))"

definition ib_next_slash_id :: "'w ib_state \<Rightarrow> ib_error fault + nat \<times> 'w ib_state" where
  "ib_next_slash_id s =
     bindE (ck_u64 (unwrap_or (ib_next_id s) 0 + 1)) (\<lambda>next_id. Inr (next_id, s\<lparr>ib_next_id := Some next_id\<rparr>))"

fun severity_code :: "slash_severity \<Rightarrow> nat" where
  "severity_code Low = 0"
| "severity_code Medium = 1"
| "severity_code High = 2"

definition propose_inspector_slash ::
  "env \<Rightarrow> address \<Rightarrow> address \<Rightarrow> bytes32 \<Rightarrow> string \<Rightarrow> slash_severity \<Rightarrow> 'w ib_state \<Rightarrow>
   ib_error fault + nat \<times> 'w ib_state" where
  "propose_inspector_slash e admin inspector report_id reason severity s =
     bindE (ib_require_admin e admin s) (\<lambda>_.
     bindE (ok_or (ib_bonds s inspector) IB_NoBond) (\<lambda>bond.
     bindE (tier_penalty_bps severity s) (\<lambda>effective_bps.
     bindE (ck_i128 (br_amount bond * effective_bps)) (\<lambda>product.
     bindE (div_i128 product 10000) (\<lambda>penalty.
     let penalty_amount = min penalty (br_amount bond) in
     bindE (ib_next_slash_id s) (\<lambda>(slash_id, s).
     bindE (ck_u64 (timestamp e + inspector_challenge_window s)) (\<lambda>deadline.
     let pending = \<lparr>isl_id = slash_id, isl_inspector = inspector, isl_severity = severity,
           isl_penalty = penalty_amount, isl_deadline = deadline, isl_status = IS_Pending,
           isl_report_id = report_id, isl_reason = reason\<rparr>
     in Inr (slash_id, publish (ib_event ''slash_proposed'' @ [VAddr inspector])
            [VNat slash_id, VNat (severity_code severity), VInt penalty_amount, VNat deadline]
            (s\<lparr>ib_pending := (ib_pending s)(slash_id \<mapsto> pending)\<rparr>)))))))))"

definition warn_below_min :: "address \<Rightarrow> int \<Rightarrow> 'w ib_state \<Rightarrow> 'w ib_state" where
  "warn_below_min inspector amount s =
     (if amount < min_bond s
      then publish (ib_event ''bond_below_min'' @ [VAddr inspector]) [VInt amount, VInt (min_bond s)] s
      else s)"

definition finalize_inspector_slash ::
  "env \<Rightarrow> address \<Rightarrow> nat \<Rightarrow> 'w ib_state \<Rightarrow> ib_error fault + int \<times> 'w ib_state" where
  "finalize_inspector_slash e admin slash_id s =
     bindE (ib_require_admin e admin s) (\<lambda>_.
     bindE (ok_or (ib_pending s slash_id) IB_SlashNotFound) (\<lambda>pending.
     if isl_status pending \<noteq> IS_Pending then Inl (Err IB_SlashAlreadyResolved)
     else if timestamp e < isl_deadline pending then Inl (Err IB_ChallengeWindowNotElapsed)
     else
     bindE (ok_or (ib_bonds s (isl_inspector pending)) IB_NoBond) (\<lambda>bond.
     let actual_slash = min (isl_penalty pending) (br_amount bond) in
     bindE (ck_i128 (br_amount bond - actual_slash)) (\<lambda>rest.
     bindE (ck_u32 (br_slash_count bond + 1)) (\<lambda>slash_count.
     let bond = bond\<lparr>br_amount := max rest 0, br_slash_count := slash_count\<rparr>;
         s = s\<lparr>ib_bonds := (ib_bonds s)(isl_inspector pending \<mapsto> bond)\<rparr>;
         s = s\<lparr>ib_pending := (ib_pending s)(slash_id \<mapsto> pending\<lparr>isl_status := IS_Finalized\<rparr>)\<rparr>;
         s = publish (ib_event ''slash_finalized'' @ [VAddr (isl_inspector pending)])
               [VNat slash_id, VInt actual_slash, VBytes (isl_report_id pending), VStr (isl_reason pending)] s;
         s = warn_below_min (isl_inspector pending) (br_amount bond) s
     in Inr (actual_slash, s))))))"

definition cancel_inspector_slash ::
  "env \<Rightarrow> address \<Rightarrow> nat \<Rightarrow> 'w ib_state \<Rightarrow> ib_error fault + 'w ib_state" where
  "cancel_inspector_slash e admin slash_id s =
     bindE (ib_require_admin e admin s) (\<lambda>_.
     bindE (ok_or (ib_pending s slash_id) IB_SlashNotFound) (\<lambda>pending.
     if isl_status pending \<noteq> IS_Pending then Inl (Err IB_SlashAlreadyResolved)
     else Inr (publish (ib_event ''slash_cancelled'' @ [VAddr (isl_inspector pending)]) [VNat slash_id]
                 (s\<lparr>ib_pending := (ib_pending s)(slash_id \<mapsto> pending\<lparr>isl_status := IS_Cancelled\<rparr>)\<rparr>))))"

section \<open>All entry points\<close>

datatype ib_call =
    IB_Init address int int nat
  | IB_Stake address int
  | IB_Unstake address
  | IB_Slash address address bytes32 string
  | IB_Pause address
  | IB_Unpause address
  | IB_SetMinBond address int
  | IB_SetWindow address nat
  | IB_Propose address address bytes32 string slash_severity
  | IB_Finalize address nat
  | IB_Cancel address nat

fun ib_exec :: "env \<Rightarrow> ib_call \<Rightarrow> 'w ib_state \<Rightarrow> ib_error fault + 'w ib_state" where
  "ib_exec e (IB_Init a m b d) s = ib_init a m b d s"
| "ib_exec e (IB_Stake u n) s = stake_bond e u n s"
| "ib_exec e (IB_Unstake u) s = drop_result (unstake_bond e u s)"
| "ib_exec e (IB_Slash a u h r) s = drop_result (slash_inspector e a u h r s)"
| "ib_exec e (IB_Pause a) s = ib_pause e a s"
| "ib_exec e (IB_Unpause a) s = ib_unpause e a s"
| "ib_exec e (IB_SetMinBond a n) s = set_min_bond e a n s"
| "ib_exec e (IB_SetWindow a n) s = set_inspector_challenge_window e a n s"
| "ib_exec e (IB_Propose a u h r v) s = drop_result (propose_inspector_slash e a u h r v s)"
| "ib_exec e (IB_Finalize a i) s = drop_result (finalize_inspector_slash e a i s)"
| "ib_exec e (IB_Cancel a i) s = cancel_inspector_slash e a i s"

lemmas ib_gate_defs = ib_get_admin_def ib_require_admin_def ib_require_not_paused_def

text \<open>\<open>pause\<close> and \<open>unpause\<close> of this contract keep the contract of the shared switch.\<close>

interpretation ib_pausable: pausable ib_pause ib_unpause ib_is_paused ib_admin
  by unfold_locales (auto simp: ib_pause_def ib_unpause_def ib_gate_defs ib_is_paused_def outcome_simps)

end
