(* ===== verification/InspectorBondProps.thy ===== *)
theory InspectorBondProps
  imports InspectorBond
begin

text \<open>
  Properties of the inspector bonds: what an inspector's bond is worth is what was staked less what
  was taken back and slashed, and what a two-phase slash can and cannot do.
\<close>

section \<open>The account of one inspector\<close>

definition bond_of :: "address \<Rightarrow> 'w ib_state \<Rightarrow> int" where
  "bond_of u s = (case ib_bonds s u of None \<Rightarrow> 0 | Some b \<Rightarrow> br_amount b)"

text \<open>What an accepted call adds to the stake of an inspector, and what it takes away.\<close>

definition ib_flow :: "address \<Rightarrow> env \<Rightarrow> ib_call \<Rightarrow> 'w ib_state \<Rightarrow> int" where
  "ib_flow u e c s =
     (case c of
        IB_Stake v n \<Rightarrow> if v = u then n else 0
      | IB_Unstake v \<Rightarrow> if v = u then (case unstake_bond e v s of Inr (x, _) \<Rightarrow> - x | Inl _ \<Rightarrow> 0) else 0
      | IB_Slash a v h r \<Rightarrow>
          if v = u then (case slash_inspector e a v h r s of Inr (x, _) \<Rightarrow> - x | Inl _ \<Rightarrow> 0) else 0
      | IB_Finalize a i \<Rightarrow>
          (case ib_pending s i of
             None \<Rightarrow> 0
           | Some p \<Rightarrow> if isl_inspector p = u
               then (case finalize_inspector_slash e a i s of Inr (x, _) \<Rightarrow> - x | Inl _ \<Rightarrow> 0) else 0)
      | _ \<Rightarrow> 0)"

definition bonds_nonneg :: "'w ib_state \<Rightarrow> bool" where
  "bonds_nonneg s \<longleftrightarrow> (\<forall>u b. ib_bonds s u = Some b \<longrightarrow> 0 \<le> br_amount b)"

lemma bonds_nonneg_of: "bonds_nonneg s \<Longrightarrow> 0 \<le> bond_of u s"
  by (auto simp: bonds_nonneg_def bond_of_def split: option.splits)

text \<open>A write of one bond.\<close>

lemma bond_written:
  assumes "ib_bonds s' = (ib_bonds s)(v \<mapsto> b)" and "0 \<le> br_amount b" and "bonds_nonneg s"
  shows "bonds_nonneg s'" and "bond_of u s' = (if u = v then br_amount b else bond_of u s)"
  using assms by (auto simp: bonds_nonneg_def bond_of_def)

lemma stake_bond_Inr:
  assumes "stake_bond e v n s = Inr s'"
  shows "0 < n \<and> authorized e v \<and> (\<exists>b. ib_bonds s' = (ib_bonds s)(v \<mapsto> b) \<and> br_amount b = bond_of v s + n \<and>
    br_locked_until b = timestamp e + lock_days s * 86400)"
  using assms unfolding stake_bond_def ib_gate_defs Let_def
  by (cases "ib_bonds s v") (auto simp: bond_of_def outcome_simps host_simps fail_if_Inr_iff)

lemma unstake_bond_Inr:
  assumes "unstake_bond e v s = Inr (x, s')"
  shows "authorized e v \<and> x = bond_of v s \<and> ib_bonds s' = (ib_bonds s)(v := None) \<and>
    (\<exists>b. ib_bonds s v = Some b \<and> br_locked_until b \<le> timestamp e) \<and> ib_pending s' = ib_pending s \<and>
    ib_reentrancy s' = Some False"
  using assms unfolding unstake_bond_def ib_reentrancy_scope_def scoped_def Let_def
  by (auto simp: bond_of_def exit_lock_def ib_put_lock_def outcome_simps host_simps fail_if_Inr_iff)

lemma slash_inspector_Inr:
  assumes "slash_inspector e a v h r s = Inr (x, s')"
  shows "x \<le> bond_of v s \<and> (\<exists>b. ib_bonds s' = (ib_bonds s)(v \<mapsto> b) \<and> br_amount b = bond_of v s - x)"
  using assms unfolding slash_inspector_def ib_gate_defs Let_def
  by (auto simp: bond_of_def outcome_simps host_simps)

lemma warn_below_min_keeps [simp]:
  "ib_bonds (warn_below_min v n s) = ib_bonds s" "ib_pending (warn_below_min v n s) = ib_pending s"
  by (simp_all add: warn_below_min_def host_simps)

lemma finalize_inspector_slash_Inr:
  assumes "finalize_inspector_slash e a i s = Inr (x, s')"
  shows "\<exists>p b. ib_pending s i = Some p \<and> isl_status p = IS_Pending \<and> isl_deadline p \<le> timestamp e \<and>
    x = min (isl_penalty p) (bond_of (isl_inspector p) s) \<and>
    ib_bonds s' = (ib_bonds s)(isl_inspector p \<mapsto> b) \<and> br_amount b = bond_of (isl_inspector p) s - x \<and>
    ib_pending s' = (ib_pending s)(i \<mapsto> p\<lparr>isl_status := IS_Finalized\<rparr>)"
  using assms unfolding finalize_inspector_slash_def ib_gate_defs Let_def
  by (auto simp: bond_of_def outcome_simps host_simps fail_if_Inr_iff) (rule exI, rule conjI, rule refl, simp)

lemma ib_exec_keeps:
  assumes "ib_exec e c s = Inr s'" and "\<forall>v n. c \<noteq> IB_Stake v n" and "\<forall>v. c \<noteq> IB_Unstake v"
    and "\<forall>a v h r. c \<noteq> IB_Slash a v h r" and "\<forall>a i. c \<noteq> IB_Finalize a i"
  shows "ib_bonds s' = ib_bonds s"
  using assms
  by (cases c) (auto simp: ib_init_def ib_pause_def ib_unpause_def set_min_bond_def
      set_inspector_challenge_window_def propose_inspector_slash_def cancel_inspector_slash_def ib_gate_defs
      ib_next_slash_id_def outcome_simps host_simps fail_if_Inr_iff Let_def)

lemma ib_exec_flow:
  assumes "ib_exec e c s = Inr s'" and "bonds_nonneg s"
  shows "bonds_nonneg s' \<and> bond_of u s' = bond_of u s + ib_flow u e c s"
proof (cases c)
  case (IB_Stake v n)
  with assms(1) have run: "stake_bond e v n s = Inr s'" by simp
  from stake_bond_Inr [OF run] obtain b where "0 < n" "ib_bonds s' = (ib_bonds s)(v \<mapsto> b)"
    "br_amount b = bond_of v s + n" by blast
  with bond_written [OF this(2) _ assms(2)] bonds_nonneg_of [OF assms(2), of v] IB_Stake show ?thesis
    by (simp add: ib_flow_def)
next
  case (IB_Unstake v)
  with assms(1) obtain x where run: "unstake_bond e v s = Inr (x, s')" by (auto simp: outcome_simps)
  then have "ib_flow u e c s = (if v = u then - bond_of v s else 0)" "ib_bonds s' = (ib_bonds s)(v := None)"
    using unstake_bond_Inr [OF run] run by (auto simp: ib_flow_def IB_Unstake)
  with assms(2) show ?thesis by (simp add: bonds_nonneg_def bond_of_def)
next
  case (IB_Slash a v h r)
  with assms(1) obtain x where run: "slash_inspector e a v h r s = Inr (x, s')" by (auto simp: outcome_simps)
  from slash_inspector_Inr [OF run] obtain b where "x \<le> bond_of v s" "ib_bonds s' = (ib_bonds s)(v \<mapsto> b)"
    "br_amount b = bond_of v s - x" by blast
  with bond_written [OF this(2) _ assms(2)] IB_Slash show ?thesis by (simp add: ib_flow_def run)
next
  case (IB_Finalize a i)
  with assms(1) obtain x where run: "finalize_inspector_slash e a i s = Inr (x, s')" by (auto simp: outcome_simps)
  from finalize_inspector_slash_Inr [OF run] obtain p b where p: "ib_pending s i = Some p"
    "x = min (isl_penalty p) (bond_of (isl_inspector p) s)" "ib_bonds s' = (ib_bonds s)(isl_inspector p \<mapsto> b)"
    "br_amount b = bond_of (isl_inspector p) s - x" by blast
  with bond_written [OF p(3) _ assms(2)] IB_Finalize show ?thesis by (simp add: ib_flow_def run)
qed (use assms ib_exec_keeps [OF assms(1)] in \<open>simp_all add: ib_flow_def bonds_nonneg_def bond_of_def\<close>)

definition ib_fresh :: "'w \<Rightarrow> 'w ib_state" where
  "ib_fresh w = \<lparr>events = [], world = w, ib_admin = None, ib_paused = None, ib_min_bond = None,
     ib_slash_bps = None, ib_lock_days = None, ib_bonds = Map.empty, ib_reentrancy = None, ib_window = None,
     ib_next_id = None, ib_pending = Map.empty\<rparr>"

section \<open>Properties\<close>

text \<open>Bond accounts balance: in every history from the deployment, an inspector's bond is exactly what
  it staked less what it took back and less what slashes of either kind took, and it is never
  negative.\<close>

theorem bond_accounts_balance:
  assumes "tally ib_exec (ib_flow u) cs 0 (ib_fresh w) = (total_flow, s)"
  shows "bond_of u s = total_flow \<and> 0 \<le> bond_of u s"
proof -
  let ?P = "\<lambda>acc s. bonds_nonneg s \<and> bond_of u s = acc"
  have "?P total_flow s"
  proof (rule tally_inv [OF assms, where P = ?P])
    show "?P 0 (ib_fresh w)" by (simp add: ib_fresh_def bonds_nonneg_def bond_of_def)
  next
    fix e c acc and s s' :: "'a ib_state"
    assume "?P acc s" and "ib_exec e c s = Inr s'"
    with ib_exec_flow [OF this(2), of u] show "?P (acc + ib_flow u e c s) s'" by simp
  qed
  with bonds_nonneg_of show ?thesis by blast
qed

text \<open>A pending slash can be evaded: while a slash of an inspector is pending, even past its deadline, an
  inspector whose lock has expired and whose bond is at least the minimum can take the whole bond
  back, and from then on the slash cannot be finalised as long as no new bond is staked.\<close>

theorem pending_slash_evaded:
  assumes "ib_pending s i = Some p" and "isl_status p = IS_Pending" and "isl_inspector p = u"
    and "ib_bonds s u = Some b" and "min_bond s \<le> br_amount b" and "br_locked_until b \<le> timestamp e"
    and "authorized e u" and "ib_reentrancy s \<noteq> Some True"
  shows "\<exists>s'. unstake_bond e u s = Inr (br_amount b, s') \<and> ib_pending s' i = Some p \<and>
    (\<forall>e' a. \<forall>x s''. finalize_inspector_slash e' a i s' \<noteq> Inr (x, s''))"
proof -
  obtain s' where run: "unstake_bond e u s = Inr (br_amount b, s')"
    using assms by (cases "ib_reentrancy s") (auto simp: unstake_bond_def ib_reentrancy_scope_def scoped_def
        enter_def Let_def)
  note after_unstake = unstake_bond_Inr [OF run]
  have "ib_bonds s' u = None" "ib_pending s' i = Some p" using after_unstake assms(1) by simp_all
  then have "finalize_inspector_slash e' a i s' \<noteq> Inr (x, s'')" for e' a x s''
    using assms(2,3) by (auto simp: finalize_inspector_slash_def outcome_simps fail_if_Inr_iff)
  with run \<open>ib_pending s' i = Some p\<close> show ?thesis by blast
qed

text \<open>A negative penalty rate, which \<open>init\<close> accepts, makes a slash raise the bond.\<close>

lemma negative_rate_raises_bond:
  assumes "ib_bonds s u = Some b" and "0 < br_amount b" and "slash_bps s = - 10000" and "br_amount b < 2 ^ 100"
    and "ib_admin s = Some a" and "authorized e a" and "br_slash_count b + 1 < 2 ^ 32"
  shows "\<exists>s'. slash_inspector e a u h r s = Inr (- br_amount b, s') \<and> bond_of u s' = 2 * br_amount b"
proof -
  have "(br_amount b * - 10000) sdiv 10000 = - br_amount b"
    using assms(2) by (simp add: signed_divide_int_def sgn_if)
  with assms show ?thesis
    by (simp add: slash_inspector_def ib_gate_defs require_admin_permission_def ck_i128_def i128_ok_def
        ck_u32_def div_i128_def host_simps bond_of_def Let_def)
qed

section \<open>Witnesses\<close>

abbreviation ib_at :: "nat \<Rightarrow> nat \<Rightarrow> env" where
  "ib_at t who \<equiv> call_at t (Address 9) (Address who)"

definition ib_sample_calls :: "(env \<times> ib_call) list" where
  "ib_sample_calls =
     [(ib_at 1 2, IB_Init (Address 2) 100 1000 0), (ib_at 2 5, IB_Stake (Address 5) 300),
      (ib_at 3 2, IB_Slash (Address 2) (Address 5) 7 ''late''),
      (ib_at 4 2, IB_Propose (Address 2) (Address 5) 8 ''false report'' Medium)]"

definition ib_sample :: "unit ib_state" where
  "ib_sample = run_calls ib_exec ib_sample_calls (ib_fresh ())"

lemmas ib_eval = ib_fresh_def ib_sample_calls_def apply_call_def ib_init_def stake_bond_def slash_inspector_def
  propose_inspector_slash_def ib_next_slash_id_def inspector_challenge_window_def ib_gate_defs
  ib_is_paused_def min_bond_def slash_bps_def lock_days_def require_admin_permission_def ck_i128_def
  i128_ok_def ck_u64_def ck_u32_def div_i128_def signed_divide_int_def drop_result_def host_simps Let_def

lemma bond_accounts_balance_witness:
  "\<exists>s. tally ib_exec (ib_flow (Address 5)) ib_sample_calls 0 (ib_fresh ()) = (270, s) \<and> bond_of (Address 5) s = 270"
proof -
  have "fst (tally ib_exec (ib_flow (Address 5)) ib_sample_calls 0 (ib_fresh ())) = 270"
    by (simp add: ib_eval ib_flow_def)
  moreover obtain n s where run: "tally ib_exec (ib_flow (Address 5)) ib_sample_calls 0 (ib_fresh ()) = (n, s)"
    by fastforce
  ultimately have "n = 270" by simp
  with bond_accounts_balance [OF run] run show ?thesis by auto
qed

lemma pending_slash_evaded_witness:
  "\<exists>s'. unstake_bond (ib_at 900000 5) (Address 5) ib_sample = Inr (270, s') \<and>
     (\<forall>e' a. \<forall>x s''. finalize_inspector_slash e' a 1 s' \<noteq> Inr (x, s''))"
proof -
  obtain p b where p: "ib_pending ib_sample 1 = Some p" "isl_status p = IS_Pending" "isl_inspector p = Address 5"
    and b: "ib_bonds ib_sample (Address 5) = Some b" "br_amount b = 270" "br_locked_until b = 2"
    by (simp add: ib_sample_def ib_eval)
  have "min_bond ib_sample = 100" "ib_reentrancy ib_sample \<noteq> Some True"
    by (simp_all add: ib_sample_def ib_eval)
  with pending_slash_evaded [OF p b(1), of "ib_at 900000 5"] b show ?thesis by auto
qed

end
