(* ===== verification/OracleFeeds.thy ===== *)
theory OracleFeeds
  imports AccessControl
begin

text \<open>
  Price feeds (\<open>oracle_price_feeds/src/lib.rs\<close>): prices of one operator or of several registered
  sources, with sequence numbers, a deviation limit, a staleness limit and a quorum; the price of
  several sources is the median of the fresh ones, computed by a selection sort.  A \<open>Symbol\<close> is a
  string; \<open>panic_with_error!\<close> fails the invocation with the contract error.
\<close>

section \<open>State and errors\<close>

definition DEFAULT_STALENESS_SECONDS :: nat where "DEFAULT_STALENESS_SECONDS = 600"
definition DEFAULT_MAX_DEVIATION_BPS :: nat where "DEFAULT_MAX_DEVIATION_BPS = 500"
definition PRICE_DECIMALS :: nat where "PRICE_DECIMALS = 7"
definition DEFAULT_QUORUM :: nat where "DEFAULT_QUORUM = 1"

definition i128_max :: int where "i128_max = 2 ^ 127 - 1"

record price_feed =
  pf_pair :: string
  pf_price :: int
  pf_decimals :: nat
  pf_updated_at :: nat
  pf_sequence :: nat

record price_observation =
  ob_price :: int
  ob_timestamp :: nat

record source_data =
  sd_price :: int
  sd_timestamp :: nat
  sd_sequence :: nat

datatype of_error =
    OF_AlreadyInitialized
  | OF_NotAuthorized
  | OF_InvalidSequence
  | OF_PriceTooStale
  | OF_UnknownPair
  | OF_PriceDeviationTooLarge
  | OF_NoQuorum
  | OF_UnknownSource

record 'w of_state = "'w host" +
  of_admin :: "address option"
  of_operator :: "address option"
  of_staleness :: "nat option"
  of_max_deviation :: "nat option"
  of_feeds :: "string \<rightharpoonup> price_feed"
  of_sequences :: "string \<rightharpoonup> nat"
  of_sources :: "string \<rightharpoonup> address list"
  of_source_data :: "string \<times> address \<rightharpoonup> source_data"
  of_quorum :: "string \<rightharpoonup> nat"
  of_observations :: "string \<rightharpoonup> price_observation list"

definition of_get_admin :: "'w of_state \<Rightarrow> 'e fault + address" where
  "of_get_admin s = expect (of_admin s) ''admin not set''"

definition of_get_operator :: "'w of_state \<Rightarrow> 'e fault + address" where
  "of_get_operator s = expect (of_operator s) ''operator not set''"

definition get_staleness_threshold :: "'w of_state \<Rightarrow> nat" where
  "get_staleness_threshold s = unwrap_or (of_staleness s) DEFAULT_STALENESS_SECONDS"

definition get_max_deviation_bps :: "'w of_state \<Rightarrow> nat" where
  "get_max_deviation_bps s = unwrap_or (of_max_deviation s) DEFAULT_MAX_DEVIATION_BPS"

definition emit_price_updated :: "price_feed \<Rightarrow> 'w of_state \<Rightarrow> 'w of_state" where
  "emit_price_updated feed s =
     publish [VSym ''oracle'', VSym ''price_updated'', VSym (pf_pair feed)]
       [VInt (pf_price feed), VNat (pf_sequence feed), VNat (pf_updated_at feed)] s"

section \<open>The median\<close>

text \<open>
  The inner loop: the least value not used yet and its position, starting from \<open>i128::MAX\<close> and
  position 0.
\<close>

fun select_loop :: "int list \<Rightarrow> bool list \<Rightarrow> nat list \<Rightarrow> int \<Rightarrow> nat \<Rightarrow> int \<times> nat" where
  "select_loop vals used [] min_val min_idx = (min_val, min_idx)"
| "select_loop vals used (j # js) min_val min_idx =
     (if \<not> used ! j
      then let v = vals ! j in
           if v < min_val then select_loop vals used js v j else select_loop vals used js min_val min_idx
      else select_loop vals used js min_val min_idx)"

text \<open>The outer loop: so many rounds.\<close>

fun sort_loop :: "int list \<Rightarrow> nat \<Rightarrow> bool list \<Rightarrow> int list \<Rightarrow> int list" where
  "sort_loop vals 0 used done_list = done_list"
| "sort_loop vals (Suc rounds) used done_list =
     (let (min_val, min_idx) = select_loop vals used [0..<length vals] i128_max 0
      in sort_loop vals rounds (used[min_idx := True]) (done_list @ [min_val]))"

text \<open>The middle of the sorted values; for an empty list \<open>mid - 1\<close> underflows.\<close>

definition middle :: "int list \<Rightarrow> 'e fault + int" where
  "middle sorted_vals =
     (let n = length sorted_vals in
      if n mod 2 = 1 then Inr (sorted_vals ! (n div 2))
      else let mid = n div 2 in
        if mid = 0 then Inl (Trap OverflowTrap)
        else bindE (ck_i128 (sorted_vals ! (mid - 1) + sorted_vals ! mid)) (\<lambda>total. div_i128 total 2))"

definition median :: "int list \<Rightarrow> 'e fault + int" where
  "median vals = middle (sort_loop vals (length vals) (replicate (length vals) False) [])"

section \<open>Administration\<close>

definition of_init ::
  "address \<Rightarrow> address \<Rightarrow> nat \<Rightarrow> nat \<Rightarrow> 'w of_state \<Rightarrow> of_error fault + 'w of_state" where
  "of_init admin operator staleness_threshold max_deviation_bps s =
     (if of_admin s \<noteq> None then Inl (Err OF_AlreadyInitialized)
      else let threshold = (if staleness_threshold = 0 then DEFAULT_STALENESS_SECONDS else staleness_threshold);
               deviation = (if max_deviation_bps = 0 then DEFAULT_MAX_DEVIATION_BPS else max_deviation_bps)
           in Inr (s\<lparr>of_admin := Some admin, of_operator := Some operator, of_staleness := Some threshold,
                    of_max_deviation := Some deviation\<rparr>))"

definition get_sources :: "string \<Rightarrow> 'w of_state \<Rightarrow> address list" where
  "get_sources pair s = unwrap_or (of_sources s pair) []"

definition of_require_admin :: "env \<Rightarrow> address \<Rightarrow> string \<Rightarrow> 'w of_state \<Rightarrow> of_error fault + unit" where
  "of_require_admin e caller operation s =
     bindE (of_get_admin s) (\<lambda>admin. require_admin_permission e admin caller operation OF_NotAuthorized s)"

definition add_source ::
  "env \<Rightarrow> address \<Rightarrow> string \<Rightarrow> address \<Rightarrow> 'w of_state \<Rightarrow> of_error fault + 'w of_state" where
  "add_source e caller pair source s =
     bindE (of_require_admin e caller ''add_source'' s) (\<lambda>_.
     let sources = get_sources pair s;
         s = (if source \<notin> set sources then s\<lparr>of_sources := (of_sources s)(pair \<mapsto> sources @ [source])\<rparr> else s)
     in Inr (publish [VSym ''oracle'', VSym ''source_added'', VSym pair] [VAddr source] s))"

fun without_loop :: "address \<Rightarrow> address list \<Rightarrow> address list \<Rightarrow> address list" where
  "without_loop source [] acc = acc"
| "without_loop source (x # xs) acc = without_loop source xs (if x \<noteq> source then acc @ [x] else acc)"

definition remove_source ::
  "env \<Rightarrow> address \<Rightarrow> string \<Rightarrow> address \<Rightarrow> 'w of_state \<Rightarrow> of_error fault + 'w of_state" where
  "remove_source e caller pair source s =
     bindE (of_require_admin e caller ''remove_source'' s) (\<lambda>_.
     let new_sources = without_loop source (get_sources pair s) [] in
     Inr (publish [VSym ''oracle'', VSym ''source_removed'', VSym pair] [VAddr source]
            (s\<lparr>of_sources := (of_sources s)(pair \<mapsto> new_sources)\<rparr>)))"

definition set_quorum ::
  "env \<Rightarrow> address \<Rightarrow> string \<Rightarrow> nat \<Rightarrow> 'w of_state \<Rightarrow> of_error fault + 'w of_state" where
  "set_quorum e caller pair quorum s =
     bindE (of_require_admin e caller ''set_quorum'' s) (\<lambda>_.
     Inr (s\<lparr>of_quorum := (of_quorum s)(pair \<mapsto> quorum)\<rparr>))"

definition set_staleness_threshold ::
  "env \<Rightarrow> address \<Rightarrow> nat \<Rightarrow> 'w of_state \<Rightarrow> of_error fault + 'w of_state" where
  "set_staleness_threshold e caller threshold s =
     bindE (of_require_admin e caller ''set_staleness_threshold'' s) (\<lambda>_.
     Inr (s\<lparr>of_staleness := Some threshold\<rparr>))"

definition set_max_deviation_bps ::
  "env \<Rightarrow> address \<Rightarrow> nat \<Rightarrow> 'w of_state \<Rightarrow> of_error fault + 'w of_state" where
  "set_max_deviation_bps e caller max_deviation s =
     bindE (of_require_admin e caller ''set_max_deviation_bps'' s) (\<lambda>_.
     Inr (s\<lparr>of_max_deviation := Some max_deviation\<rparr>))"

section \<open>Price updates\<close>

text \<open>Who may report: the admin or the operator without sources, a registered source otherwise.\<close>

definition require_reporter ::
  "env \<Rightarrow> address \<Rightarrow> address list \<Rightarrow> 'w of_state \<Rightarrow> of_error fault + unit" where
  "require_reporter e caller sources s =
     (if sources = [] then
        bindE (of_get_admin s) (\<lambda>admin.
        bindE (of_get_operator s) (\<lambda>operator.
        require_admin_or_operator_permission e admin (Some operator) caller ''update_price'' OF_NotAuthorized s))
      else if caller \<notin> set sources then Inl (Err OF_UnknownSource)
      else require_auth e caller)"

text \<open>\<open>abs\<close> of \<open>i128::MIN\<close> traps.\<close>

definition check_deviation :: "int option \<Rightarrow> int \<Rightarrow> nat \<Rightarrow> of_error fault + unit" where
  "check_deviation prev_price price max_deviation =
     (case prev_price of
        None \<Rightarrow> Inr ()
      | Some old_price \<Rightarrow>
          if old_price \<noteq> 0 then
            bindE (if old_price < price then ck_i128 (price - old_price) else ck_i128 (old_price - price)) (\<lambda>diff.
            bindE (ck_i128 (diff * 10000)) (\<lambda>scaled.
            bindE (ck_i128 \<bar>old_price\<bar>) (\<lambda>magnitude.
            bindE (div_i128 scaled magnitude) (\<lambda>deviation_bps.
            if int max_deviation < deviation_bps then Inl (Err OF_PriceDeviationTooLarge) else Inr ()))))
          else Inr ())"

definition update_price ::
  "env \<Rightarrow> address \<Rightarrow> string \<Rightarrow> int \<Rightarrow> nat \<Rightarrow> 'w of_state \<Rightarrow> of_error fault + 'w of_state" where
  "update_price e caller pair price sequence s =
     (let sources = get_sources pair s in
      bindE (require_reporter e caller sources s) (\<lambda>_.
      let prev_data = of_source_data s (pair, caller);
          current_seq = unwrap_or (map_option sd_sequence prev_data) 0
      in
      if sequence \<le> current_seq then Inl (Err OF_InvalidSequence)
      else
      let feed_seq = unwrap_or (of_sequences s pair) 0 in
      if sources = [] \<and> sequence \<le> feed_seq then Inl (Err OF_InvalidSequence)
      else
      let prev_price = (case prev_data of
             Some d \<Rightarrow> Some (sd_price d)
           | None \<Rightarrow> if sources = [] then map_option pf_price (of_feeds s pair) else None)
      in
      bindE (check_deviation prev_price price (get_max_deviation_bps s)) (\<lambda>_.
      let now = timestamp e;
          s = s\<lparr>of_source_data := (of_source_data s)((pair, caller) \<mapsto>
                  \<lparr>sd_price = price, sd_timestamp = now, sd_sequence = sequence\<rparr>)\<rparr>;
          s = publish [VSym ''oracle'', VSym ''source_reported'', VSym pair]
                [VAddr caller, VInt price, VNat sequence, VNat now] s
      in
      if sources = [] then
        let feed = \<lparr>pf_pair = pair, pf_price = price, pf_decimals = PRICE_DECIMALS, pf_updated_at = now,
              pf_sequence = sequence\<rparr>;
            s = s\<lparr>of_feeds := (of_feeds s)(pair \<mapsto> feed)\<rparr>;
            s = s\<lparr>of_sequences := (of_sequences s)(pair \<mapsto> sequence)\<rparr>
        in Inr (emit_price_updated feed s)
      else Inr s)))"

section \<open>Price queries\<close>

text \<open>A report is fresh when its age, saturating at zero, is within the threshold.\<close>

definition is_fresh :: "env \<Rightarrow> 'w of_state \<Rightarrow> source_data \<Rightarrow> bool" where
  "is_fresh e s d \<longleftrightarrow> timestamp e - sd_timestamp d \<le> get_staleness_threshold s"

fun fresh_loop :: "env \<Rightarrow> string \<Rightarrow> 'w of_state \<Rightarrow> address list \<Rightarrow> int list \<Rightarrow> int list" where
  "fresh_loop e pair s [] acc = acc"
| "fresh_loop e pair s (src # srcs) acc =
     (case of_source_data s (pair, src) of
        Some d \<Rightarrow> fresh_loop e pair s srcs (if is_fresh e s d then acc @ [sd_price d] else acc)
      | None \<Rightarrow> fresh_loop e pair s srcs acc)"

definition get_price_unsafe :: "string \<Rightarrow> 'w of_state \<Rightarrow> of_error fault + price_feed" where
  "get_price_unsafe pair s = ok_or (of_feeds s pair) OF_UnknownPair"

definition get_price :: "env \<Rightarrow> string \<Rightarrow> 'w of_state \<Rightarrow> of_error fault + price_feed \<times> 'w of_state" where
  "get_price e pair s =
     (let sources = get_sources pair s; now = timestamp e in
      if sources \<noteq> [] then
        let quorum = unwrap_or (of_quorum s pair) DEFAULT_QUORUM;
            fresh_prices = fresh_loop e pair s sources []
        in
        if length fresh_prices < quorum then Inl (Err OF_NoQuorum)
        else
        bindE (median fresh_prices) (\<lambda>aggregated_price.
        let feed = \<lparr>pf_pair = pair, pf_price = aggregated_price, pf_decimals = PRICE_DECIMALS,
              pf_updated_at = now, pf_sequence = 0\<rparr>
        in Inr (feed, publish [VSym ''oracle'', VSym ''aggregated_price'', VSym pair]
               [VInt aggregated_price, VNat (length fresh_prices), VNat now] s))
      else
        bindE (get_price_unsafe pair s) (\<lambda>feed.
        if get_staleness_threshold s < now - pf_updated_at feed then Inl (Err OF_PriceTooStale)
        else Inr (feed, s)))"

fun fresh_count_loop :: "env \<Rightarrow> string \<Rightarrow> 'w of_state \<Rightarrow> address list \<Rightarrow> nat \<Rightarrow> of_error fault + nat" where
  "fresh_count_loop e pair s [] n = Inr n"
| "fresh_count_loop e pair s (src # srcs) n =
     (case of_source_data s (pair, src) of
        Some d \<Rightarrow>
          if is_fresh e s d then bindE (ck_u32 (n + 1)) (fresh_count_loop e pair s srcs)
          else fresh_count_loop e pair s srcs n
      | None \<Rightarrow> fresh_count_loop e pair s srcs n)"

definition is_stale :: "env \<Rightarrow> string \<Rightarrow> 'w of_state \<Rightarrow> of_error fault + bool" where
  "is_stale e pair s =
     (let sources = get_sources pair s in
      if sources \<noteq> [] then
        let quorum = unwrap_or (of_quorum s pair) DEFAULT_QUORUM in
        bindE (fresh_count_loop e pair s sources 0) (\<lambda>fresh_count. Inr (fresh_count < quorum))
      else (case of_feeds s pair of
          None \<Rightarrow> Inr True
        | Some feed \<Rightarrow> Inr (get_staleness_threshold s < timestamp e - pf_updated_at feed)))"

section \<open>The time-weighted average\<close>

definition sat_i128 :: "int \<Rightarrow> int" where
  "sat_i128 x = max (- (2 ^ 127)) (min i128_max x)"

definition sat_add_u64 :: "nat \<Rightarrow> nat \<Rightarrow> nat" where
  "sat_add_u64 a b = min (2 ^ 64 - 1) (a + b)"

fun twap_loop :: "price_observation \<Rightarrow> price_observation list \<Rightarrow> int \<Rightarrow> nat \<Rightarrow> int \<times> nat" where
  "twap_loop prev [] weighted_sum total_time = (weighted_sum, total_time)"
| "twap_loop prev (cur # obs) weighted_sum total_time =
     (let dt = ob_timestamp cur - ob_timestamp prev in
      twap_loop cur obs (sat_i128 (weighted_sum + sat_i128 (ob_price prev * int dt))) (sat_add_u64 total_time dt))"

definition get_twap :: "string \<Rightarrow> 'w of_state \<Rightarrow> of_error fault + int" where
  "get_twap pair s =
     bindE (ok_or (of_observations s pair) OF_UnknownPair) (\<lambda>observations.
     case observations of
       [] \<Rightarrow> Inl (Err OF_UnknownPair)
     | [ob] \<Rightarrow> Inr (ob_price ob)
     | ob # obs \<Rightarrow>
         let (weighted_sum, total_time) = twap_loop ob obs 0 0 in
         if total_time = 0 then Inr (ob_price (last obs))
         else div_i128 weighted_sum (int total_time))"

section \<open>All entry points\<close>

datatype of_call =
    OF_Init address address nat nat
  | OF_AddSource address string address
  | OF_RemoveSource address string address
  | OF_SetQuorum address string nat
  | OF_Update address string int nat
  | OF_GetPrice string
  | OF_SetStaleness address nat
  | OF_SetDeviation address nat

fun of_exec :: "env \<Rightarrow> of_call \<Rightarrow> 'w of_state \<Rightarrow> of_error fault + 'w of_state" where
  "of_exec e (OF_Init a p t d) s = of_init a p t d s"
| "of_exec e (OF_AddSource c p x) s = add_source e c p x s"
| "of_exec e (OF_RemoveSource c p x) s = remove_source e c p x s"
| "of_exec e (OF_SetQuorum c p n) s = set_quorum e c p n s"
| "of_exec e (OF_Update c p v n) s = update_price e c p v n s"
| "of_exec e (OF_GetPrice p) s = drop_result (get_price e p s)"
| "of_exec e (OF_SetStaleness c n) s = set_staleness_threshold e c n s"
| "of_exec e (OF_SetDeviation c n) s = set_max_deviation_bps e c n s"

lemmas of_gate_defs = of_get_admin_def of_get_operator_def of_require_admin_def require_reporter_def

end
