(* ===== verification/OracleFeedsProps.thy ===== *)
theory OracleFeedsProps
  imports OracleFeeds "HOL-Library.Multiset"
begin

text \<open>
  Properties of the price feeds: the selection sort sorts, so the aggregated price is the median of
  the fresh reports and a minority of sources cannot move it out of the range of the others; what is
  stored stays well-formed in every history; the time-weighted average is never available.
\<close>

section \<open>The selection sort\<close>

text \<open>The positions whose value is still to be selected: a value \<open>i128::MAX\<close> never is.\<close>

definition waiting :: "int list \<Rightarrow> bool list \<Rightarrow> nat set" where
  "waiting vals used = {j. j < length vals \<and> \<not> used ! j \<and> vals ! j < i128_max}"

lemma finite_waiting [simp]: "finite (waiting vals used)"
  by (simp add: waiting_def)

lemma select_loop_spec:
  assumes "select_loop vals used js m i = (m', i')"
  shows "m' \<le> m \<and> (\<forall>j \<in> set js. \<not> used ! j \<longrightarrow> m' \<le> vals ! j) \<and>
    (m' = m \<and> i' = i \<or> i' \<in> set js \<and> \<not> used ! i' \<and> vals ! i' = m' \<and> m' < m)"
  using assms
proof (induction js arbitrary: m i)
  case (Cons j js)
  then show ?case
  proof (cases "\<not> used ! j \<and> vals ! j < m")
    case True
    with Cons.prems have "select_loop vals used js (vals ! j) j = (m', i')" by (simp add: Let_def)
    from Cons.IH [OF this] True show ?thesis by auto
  next
    case False
    with Cons.prems have "select_loop vals used js m i = (m', i')" by (auto simp: Let_def split: if_splits)
    from Cons.IH [OF this] False show ?thesis by auto
  qed
qed simp

text \<open>Marking position 0 again when nothing is left below the maximum changes nothing.\<close>

lemma waiting_none:
  assumes "waiting vals used = {}"
  shows "waiting vals (used[0 := True]) = {}"
  using assms by (cases used) (auto simp: waiting_def nth_Cons split: nat.splits)

lemma waiting_selected:
  assumes "i \<in> waiting vals used" and "length used = length vals"
  shows "waiting vals (used[i := True]) = waiting vals used - {i}"
  using assms by (auto simp: waiting_def nth_list_update)

definition waiting_values :: "int list \<Rightarrow> bool list \<Rightarrow> int multiset" where
  "waiting_values vals used = image_mset ((!) vals) (mset_set (waiting vals used))"

lemma select_round:
  assumes "select_loop vals used [0..<length vals] i128_max 0 = (m, i)" and "length used = length vals"
  defines "rest \<equiv> sorted_list_of_multiset (waiting_values vals used)"
  shows "case rest of
      [] \<Rightarrow> m = i128_max \<and> waiting vals (used[i := True]) = {}
    | v # vs \<Rightarrow> m = v \<and> vs = sorted_list_of_multiset (waiting_values vals (used[i := True]))"
proof (cases "waiting vals used = {}")
  case True
  with select_loop_spec [OF assms(1)] have "m = i128_max" "i = 0"
    by (auto simp: waiting_def)
  with waiting_none [OF True] True show ?thesis by (simp add: rest_def waiting_values_def)
next
  case False
  with select_loop_spec [OF assms(1)] have i: "i \<in> waiting vals used" "vals ! i = m"
    and least: "\<forall>j \<in> waiting vals used. m \<le> vals ! j"
    by (auto simp: waiting_def)
  let ?W = "waiting_values vals (used[i := True])"
  from i have "waiting_values vals used = add_mset m ?W"
    by (simp add: waiting_values_def waiting_selected [OF i(1) assms(2)] mset_set.remove)
  moreover have "\<forall>x \<in> set (sorted_list_of_multiset ?W). m \<le> x"
    using least by (auto simp: waiting_values_def waiting_selected [OF i(1) assms(2)])
  ultimately have "rest = m # sorted_list_of_multiset ?W"
    by (simp add: rest_def insort_is_Cons)
  then show ?thesis by simp
qed

lemma take_padding: "n \<le> k \<Longrightarrow> take n (x # replicate k x) = replicate n x"
  by (metis le_SucI min.absorb1 replicate_Suc take_replicate)

lemma sort_loop_eq:
  assumes "length used = length vals"
  shows "sort_loop vals k used acc =
    acc @ take k (sorted_list_of_multiset (waiting_values vals used) @ replicate k i128_max)"
  using assms
proof (induction k arbitrary: used acc)
  case (Suc k)
  obtain m i where sel: "select_loop vals used [0..<length vals] i128_max 0 = (m, i)" by fastforce
  note round = select_round [OF sel Suc.prems]
  from Suc.IH [of "used[i := True]" "acc @ [m]"] Suc.prems sel round show ?case
    by (cases "sorted_list_of_multiset (waiting_values vals used)")
      (auto simp: waiting_values_def take_padding)
qed simp

lemma waiting_values_start:
  "waiting_values vals (replicate (length vals) False) = filter_mset (\<lambda>v. v < i128_max) (mset vals)"
proof -
  have "mset vals = image_mset ((!) vals) (mset_set {0..<length vals})"
    by (metis map_nth mset_map mset_upt)
  moreover have "waiting vals (replicate (length vals) False) = {j \<in> {0..<length vals}. vals ! j < i128_max}"
    by (auto simp: waiting_def)
  ultimately show ?thesis
    by (simp add: waiting_values_def flip: image_mset_filter_mset_swap)
qed

lemma sort_loop_sorts:
  assumes "\<forall>v \<in> set vals. v \<le> i128_max"
  shows "sort_loop vals (length vals) (replicate (length vals) False) [] = sort vals"
proof -
  let ?low = "filter_mset (\<lambda>v. v < i128_max) (mset vals)"
  let ?xs = "sorted_list_of_multiset ?low"
  let ?n = "length vals - length ?xs"
  have len: "length ?xs = size ?low" by (metis mset_sorted_list_of_multiset size_mset)
  then have short: "length ?xs \<le> length vals" by (simp add: size_filter_mset_lesseq flip: size_mset)
  have high: "mset vals = ?low + replicate_mset ?n i128_max"
  proof -
    have "filter_mset (\<lambda>v. \<not> v < i128_max) (mset vals) = filter_mset (\<lambda>v. v = i128_max) (mset vals)"
      using assms by (intro filter_mset_cong) (auto simp: not_less intro: antisym)
    also have "\<dots> = replicate_mset (count (mset vals) i128_max) i128_max"
      by (simp add: filter_eq_replicate_mset)
    finally have split: "mset vals = ?low + replicate_mset (count (mset vals) i128_max) i128_max"
      by (metis multiset_partition)
    then have "length vals = size ?low + count (mset vals) i128_max"
      by (metis size_mset size_replicate_mset size_union)
    with split len show ?thesis by simp
  qed
  have "sorted (?xs @ replicate ?n i128_max)"
    by (auto simp: sorted_append)
  moreover have "mset (?xs @ replicate ?n i128_max) = mset vals"
    using high by simp
  ultimately have "sort vals = ?xs @ replicate ?n i128_max"
    by (metis properties_for_sort)
  moreover have "take (length vals) (?xs @ replicate (length vals) i128_max) = ?xs @ replicate ?n i128_max"
    using short by (simp add: min_def)
  ultimately show ?thesis
    by (simp add: sort_loop_eq waiting_values_start)
qed

lemma median_eq: "\<forall>v \<in> set vals. v \<le> i128_max \<Longrightarrow> median vals = middle (sort vals)"
  by (simp add: median_def sort_loop_sorts)

section \<open>The middle of a sorted list\<close>

lemma sorted_nth_le:
  assumes "sorted xs" and "i < length xs" and "i < length (filter (\<lambda>x. x \<le> hi) xs)"
  shows "xs ! i \<le> (hi :: int)"
proof (rule ccontr)
  assume high: "\<not> xs ! i \<le> hi"
  have "hi < x" if "x \<in> set (drop i xs)" for x
  proof -
    from that obtain k where "k < length (drop i xs)" "drop i xs ! k = x" unfolding in_set_conv_nth by blast
    with sorted_nth_mono [OF assms(1), of i "i + k"] assms(2) high show ?thesis
      by (simp add: less_diff_conv add.commute)
  qed
  then have "filter (\<lambda>x. x \<le> hi) (drop i xs) = []" by (fastforce simp: filter_empty_conv)
  then have "filter (\<lambda>x. x \<le> hi) xs = filter (\<lambda>x. x \<le> hi) (take i xs)"
    by (metis append_Nil2 append_take_drop_id filter_append)
  with assms(2,3) length_filter_le [of "\<lambda>x. x \<le> hi" "take i xs"] show False by simp
qed

lemma sorted_nth_ge:
  assumes "sorted xs" and "i < length xs" and "length xs \<le> i + length (filter (\<lambda>x. lo \<le> x) xs)"
  shows "(lo :: int) \<le> xs ! i"
proof (rule ccontr)
  assume low: "\<not> lo \<le> xs ! i"
  have "x < lo" if "x \<in> set (take (Suc i) xs)" for x
  proof -
    from that obtain k where "k < length (take (Suc i) xs)" "take (Suc i) xs ! k = x" unfolding in_set_conv_nth by blast
    with sorted_nth_mono [OF assms(1), of k i] assms(2) low show ?thesis by simp
  qed
  then have "filter (\<lambda>x. lo \<le> x) (take (Suc i) xs) = []" by (fastforce simp: filter_empty_conv)
  then have "filter (\<lambda>x. lo \<le> x) xs = filter (\<lambda>x. lo \<le> x) (drop (Suc i) xs)"
    by (metis append_Nil append_take_drop_id filter_append)
  with assms(2,3) length_filter_le [of "\<lambda>x. lo \<le> x" "drop (Suc i) xs"] show False by simp
qed

lemma sdiv_two_within: "2 * lo \<le> t \<Longrightarrow> t \<le> 2 * hi \<Longrightarrow> lo \<le> t sdiv 2 \<and> t sdiv 2 \<le> (hi :: int)"
  by (auto simp: signed_divide_int_def sgn_if)

lemma length_filter_sort: "length (filter P (sort xs)) = length (filter P xs)"
  by (metis filter_sort length_sort)

lemma middle_within:
  assumes "sorted xs" and "middle xs = Inr m"
    and most: "length xs < 2 * length (filter (\<lambda>x. lo \<le> x \<and> x \<le> hi) xs)"
  shows "lo \<le> m \<and> m \<le> (hi :: int)"
proof -
  let ?n = "length xs"
  have "length (filter (\<lambda>x. lo \<le> x \<and> x \<le> hi) xs) \<le> length (filter (\<lambda>x. x \<le> hi) xs)"
    "length (filter (\<lambda>x. lo \<le> x \<and> x \<le> hi) xs) \<le> length (filter (\<lambda>x. lo \<le> x) xs)"
    by (induction xs) auto
  with most have le: "?n < 2 * length (filter (\<lambda>x. x \<le> hi) xs)" and ge: "?n < 2 * length (filter (\<lambda>x. lo \<le> x) xs)"
    by linarith+
  have at: "xs ! i \<le> hi" if "i < ?n" "2 * i \<le> ?n" for i
    using sorted_nth_le [OF assms(1) that(1), of hi] le that by linarith
  have at': "lo \<le> xs ! i" if "i < ?n" "?n \<le> 2 * i + 2" for i
    using sorted_nth_ge [OF assms(1) that(1), of lo] ge that by linarith
  show ?thesis
  proof (cases "?n mod 2 = 1")
    case True
    then have "?n div 2 < ?n" "2 * (?n div 2) \<le> ?n" "?n \<le> 2 * (?n div 2) + 2" by presburger+
    with True assms(2) at [of "?n div 2"] at' [of "?n div 2"] show ?thesis by (simp add: middle_def)
  next
    case False
    let ?k = "?n div 2"
    from False assms(2) have pos: "?k \<noteq> 0" and m: "m = (xs ! (?k - 1) + xs ! ?k) sdiv 2"
      by (auto simp: middle_def Let_def outcome_simps split: if_splits)
    from False pos have "?k - 1 < ?n" "?k < ?n" "2 * (?k - 1) \<le> ?n" "2 * ?k \<le> ?n" "?n \<le> 2 * (?k - 1) + 2"
      "?n \<le> 2 * ?k + 2" by presburger+
    with at at' have "lo \<le> xs ! (?k - 1)" "xs ! (?k - 1) \<le> hi" "lo \<le> xs ! ?k" "xs ! ?k \<le> hi" by blast+
    with sdiv_two_within [of lo _ hi] show ?thesis by (simp add: m)
  qed
qed

lemma median_within:
  assumes "\<forall>v \<in> set vals. v \<le> i128_max" and "median vals = Inr m"
    and "length vals < 2 * length (filter (\<lambda>x. lo \<le> x \<and> x \<le> hi) vals)"
  shows "lo \<le> m \<and> m \<le> hi"
  using middle_within [of "sort vals" m lo hi] assms by (simp add: median_eq length_filter_sort)

section \<open>What is stored\<close>

definition of_wf :: "'w of_state \<Rightarrow> bool" where
  "of_wf s \<longleftrightarrow>
     (\<forall>k d. of_source_data s k = Some d \<longrightarrow> i128_ok (sd_price d) \<and> 0 < sd_sequence d \<and> sd_sequence d < 2 ^ 64) \<and>
     (\<forall>p f. of_feeds s p = Some f \<longrightarrow> pf_pair f = p \<and> i128_ok (pf_price f) \<and> pf_decimals f = PRICE_DECIMALS \<and>
        of_sequences s p = Some (pf_sequence f)) \<and>
     (\<forall>p. distinct (get_sources p s)) \<and> of_observations s = Map.empty"

text \<open>Calls whose arguments have their machine types.\<close>

fun of_typed :: "env \<Rightarrow> of_call \<Rightarrow> bool" where
  "of_typed e (OF_Update c p v n) \<longleftrightarrow> i128_ok v \<and> n < 2 ^ 64"
| "of_typed e _ \<longleftrightarrow> True"

definition of_fresh :: "'w \<Rightarrow> 'w of_state" where
  "of_fresh w = \<lparr>events = [], world = w, of_admin = None, of_operator = None, of_staleness = None,
     of_max_deviation = None, of_feeds = Map.empty, of_sequences = Map.empty, of_sources = Map.empty,
     of_source_data = Map.empty, of_quorum = Map.empty, of_observations = Map.empty\<rparr>"

lemma update_price_Inr:
  assumes "update_price e c p v n s = Inr s'"
  shows "0 < n" and "of_source_data s (p, c) = Some d \<Longrightarrow> sd_sequence d < n"
    and "of_source_data s' = (of_source_data s)((p, c) \<mapsto>
      \<lparr>sd_price = v, sd_timestamp = timestamp e, sd_sequence = n\<rparr>)"
    and "of_sources s' = of_sources s" and "of_observations s' = of_observations s"
    and "get_sources p s \<noteq> [] \<Longrightarrow> of_feeds s' = of_feeds s \<and> of_sequences s' = of_sequences s"
    and "get_sources p s = [] \<Longrightarrow> of_feeds s' = (of_feeds s)(p \<mapsto> \<lparr>pf_pair = p, pf_price = v,
      pf_decimals = PRICE_DECIMALS, pf_updated_at = timestamp e, pf_sequence = n\<rparr>) \<and>
      of_sequences s' = (of_sequences s)(p \<mapsto> n)"
  using assms unfolding update_price_def Let_def
  by (auto simp: emit_price_updated_def outcome_simps host_simps fail_if_Inr_iff split: if_splits)

lemma without_loop_eq: "without_loop x ys acc = acc @ filter (\<lambda>y. y \<noteq> x) ys"
  by (induction ys arbitrary: acc) auto

lemma of_exec_keeps:
  assumes "of_exec e c s = Inr s'" and "\<forall>q p v n. c \<noteq> OF_Update q p v n"
  shows "of_source_data s' = of_source_data s" and "of_feeds s' = of_feeds s" and "of_sequences s' = of_sequences s"
    and "of_observations s' = of_observations s" and "\<forall>p. distinct (get_sources p s) \<Longrightarrow> distinct (get_sources p s')"
  using assms
  by (cases c; auto simp: of_init_def add_source_def remove_source_def set_quorum_def set_staleness_threshold_def
      set_max_deviation_bps_def get_price_def get_sources_def without_loop_eq outcome_simps host_simps
      fail_if_Inr_iff Let_def split: if_splits)+

interpretation of_types: invariant_machine of_exec of_typed no_others of_wf
proof
  fix s s' :: "'a of_state" and e c
  assume "of_wf s" and "of_typed e c" and run: "of_exec e c s = Inr s'"
  show "of_wf s'"
  proof (cases "\<forall>q p v n. c \<noteq> OF_Update q p v n")
    case True
    from of_exec_keeps [OF run True] \<open>of_wf s\<close> show ?thesis by (simp add: of_wf_def)
  next
    case False
    then obtain q p v n where c: "c = OF_Update q p v n" by blast
    with run have "update_price e q p v n s = Inr s'" by simp
    note written = update_price_Inr [OF this]
    from written(1,3,4,5,6,7) \<open>of_wf s\<close> \<open>of_typed e c\<close> c show ?thesis
      by (cases "get_sources p s = []") (simp_all add: of_wf_def get_sources_def)
  qed
qed (simp add: no_others_def)

lemma of_fresh_wf: "of_wf (of_fresh w)"
  by (simp add: of_wf_def of_fresh_def get_sources_def)

lemma fresh_loop_eq:
  "fresh_loop e p s srcs acc =
     acc @ [sd_price d. x \<leftarrow> srcs, d \<leftarrow> (case of_source_data s (p, x) of None \<Rightarrow> [] | Some d \<Rightarrow> [d]), is_fresh e s d]"
  by (induction srcs arbitrary: acc) (auto split: option.splits)

text \<open>The fresh reports of the registered sources, in the order of registration.\<close>

definition fresh_reports :: "env \<Rightarrow> string \<Rightarrow> 'w of_state \<Rightarrow> int list" where
  "fresh_reports e p s =
     [sd_price d. x \<leftarrow> get_sources p s, d \<leftarrow> (case of_source_data s (p, x) of None \<Rightarrow> [] | Some d \<Rightarrow> [d]),
      is_fresh e s d]"

lemma fresh_loop_reports: "fresh_loop e p s (get_sources p s) [] = fresh_reports e p s"
  by (simp add: fresh_loop_eq fresh_reports_def)

lemma fresh_reports_range: "of_wf s \<Longrightarrow> v \<in> set (fresh_reports e p s) \<Longrightarrow> v \<le> i128_max"
proof -
  assume wf: "of_wf s" and "v \<in> set (fresh_reports e p s)"
  then obtain k d where "of_source_data s k = Some d" "v = sd_price d"
    by (auto simp: fresh_reports_def split: option.splits if_splits) metis
  moreover from wf this(1) have "i128_ok (sd_price d)" by (cases k) (auto simp: of_wf_def)
  ultimately show ?thesis by (simp add: i128_ok_def i128_max_def)
qed

lemma get_price_sources:
  assumes "get_price e p s = Inr (f, s')" and "get_sources p s \<noteq> []"
  shows "unwrap_or (of_quorum s p) DEFAULT_QUORUM \<le> length (fresh_reports e p s)"
    and "median (fresh_reports e p s) = (Inr (pf_price f) :: of_error fault + int)"
    and "pf_pair f = p \<and> pf_decimals f = PRICE_DECIMALS \<and> pf_updated_at f = timestamp e"
  using assms by (auto simp: get_price_def fresh_loop_reports outcome_simps fail_if_Inr_iff Let_def)

lemma fresh_count_loop_eq:
  assumes "n + length srcs < 2 ^ 32"
  shows "fresh_count_loop e p s srcs n = Inr (n + length (fresh_loop e p s srcs []))"
  using assms
proof (induction srcs arbitrary: n)
  case (Cons x xs)
  then show ?case by (auto simp: fresh_loop_eq ck_u32_def split: option.splits)
qed simp

text \<open>
  The view \<open>is_stale\<close> agrees with \<open>get_price\<close>: it says stale exactly when the price is refused.  (A list of
  sources has at most \<open>2 ^ 32 - 1\<close> entries.)
\<close>

lemma is_stale_iff_refused:
  assumes "length (get_sources p s) < 2 ^ 32"
  shows "\<exists>b. is_stale e p s = Inr b \<and>
    (b \<longleftrightarrow> get_price e p s \<in> {Inl (Err OF_NoQuorum), Inl (Err OF_PriceTooStale), Inl (Err OF_UnknownPair)})"
proof (cases "get_sources p s = []")
  case True
  then show ?thesis
    by (cases "of_feeds s p") (auto simp: is_stale_def get_price_def get_price_unsafe_def)
next
  case False
  have "median vals \<noteq> Inl (Err x)" for vals and x :: of_error
    by (auto simp: median_def middle_def Let_def ck_i128_def div_i128_def bindE_Inl_iff split: if_splits)
  with False assms fresh_count_loop_eq [of 0 "get_sources p s" e p s] show ?thesis
    by (cases "median (fresh_reports e p s) :: of_error fault + int")
      (auto simp: is_stale_def get_price_def fresh_loop_reports Let_def)
qed

text \<open>
  The deviation limit is a limit on each reporter's own sequence of prices, not on the feed: the
  admin may repeat its last price, however far the operator has moved the feed since.
\<close>

lemma feed_jumps_to_own_price:
  assumes "get_sources p s = []" and "of_source_data s (p, a) = Some d" and "i128_ok (sd_price d)"
    and "of_admin s = Some a" and "of_operator s = Some b" and "authorized e a"
    and "sd_sequence d < n" and "\<forall>m. of_sequences s p = Some m \<longrightarrow> m < n" and "sd_price d \<noteq> - (2 ^ 127)"
  shows "\<exists>s'. update_price e a p (sd_price d) n s = Inr s' \<and>
    of_feeds s' p = Some \<lparr>pf_pair = p, pf_price = sd_price d, pf_decimals = PRICE_DECIMALS,
      pf_updated_at = timestamp e, pf_sequence = n\<rparr>"
proof -
  have "check_deviation (Some (sd_price d)) (sd_price d) (get_max_deviation_bps s) = Inr ()"
    using assms(3,9) by (auto simp: check_deviation_def ck_i128_def div_i128_def i128_ok_def)
  moreover have "\<not> n \<le> unwrap_or (of_sequences s p) 0"
    using assms(7,8) by (cases "of_sequences s p") auto
  ultimately show ?thesis
    using assms by (simp add: update_price_def require_reporter_def of_get_admin_def of_get_operator_def
      require_admin_or_operator_permission_def emit_price_updated_def host_simps Let_def)
qed

section \<open>Properties\<close>

text \<open>C27. What the oracle stores keeps its type in every history of well-typed calls: every reported price
  is an \<open>i128\<close> with a positive \<open>u64\<close> sequence number; every feed is filed under its own pair, with
  seven decimals and the sequence number recorded for the pair; and no pair lists a source
  twice.\<close>

theorem oracle_stores_typed:
  assumes "reach of_exec of_typed no_others (of_fresh w) s"
  shows "(\<forall>p a d. of_source_data s (p, a) = Some d \<longrightarrow> i128_ok (sd_price d) \<and> 0 < sd_sequence d \<and> sd_sequence d < 2 ^ 64)
    \<and> (\<forall>p f. of_feeds s p = Some f \<longrightarrow> pf_pair f = p \<and> i128_ok (pf_price f) \<and> pf_decimals f = 7 \<and>
         of_sequences s p = Some (pf_sequence f))
    \<and> (\<forall>p. distinct (get_sources p s))"
  using of_types.reach_inv [OF assms of_fresh_wf] by (simp add: of_wf_def PRICE_DECIMALS_def)

text \<open>C28. The aggregated price is the median of the fresh reports: in every history, when \<open>get_price\<close> answers
  for a pair with registered sources, at least the quorum of them has reported within the staleness
  limit, the price is the middle of the sorted fresh reports, and it lies in every interval that
  holds more than half of them, so that a minority of sources cannot move it out of the range
  of the others.\<close>

theorem aggregated_price_robust:
  assumes "reach of_exec of_typed no_others (of_fresh w) s" and "get_sources p s \<noteq> []"
    and "get_price e p s = Inr (f, s')"
  shows "unwrap_or (of_quorum s p) 1 \<le> length (fresh_reports e p s)
    \<and> middle (sort (fresh_reports e p s)) = (Inr (pf_price f) :: of_error fault + int)
    \<and> (length (fresh_reports e p s) < 2 * length (filter (\<lambda>v. lo \<le> v \<and> v \<le> hi) (fresh_reports e p s)) \<longrightarrow>
         lo \<le> pf_price f \<and> pf_price f \<le> hi)"
proof -
  have range: "\<forall>v \<in> set (fresh_reports e p s). v \<le> i128_max"
    using fresh_reports_range [OF of_types.reach_inv [OF assms(1) of_fresh_wf]] by blast
  note price = get_price_sources [OF assms(3,2)]
  from price(1,2) range median_within [OF range price(2), of lo hi] show ?thesis
    by (simp add: median_eq DEFAULT_QUORUM_def)
qed


section \<open>Witnesses\<close>

abbreviation of_at :: "nat \<Rightarrow> nat \<Rightarrow> env" where
  "of_at t who \<equiv> call_at t (Address 9) (Address who)"

definition of_sample_calls :: "(env \<times> of_call) list" where
  "of_sample_calls =
     [(of_at 1 1, OF_Init (Address 1) (Address 2) 0 0),
      (of_at 2 1, OF_AddSource (Address 1) ''XLM'' (Address 3)),
      (of_at 2 1, OF_AddSource (Address 1) ''XLM'' (Address 4)),
      (of_at 2 1, OF_AddSource (Address 1) ''XLM'' (Address 5)),
      (of_at 3 3, OF_Update (Address 3) ''XLM'' 104 1),
      (of_at 4 4, OF_Update (Address 4) ''XLM'' 9000 1),
      (of_at 5 5, OF_Update (Address 5) ''XLM'' 100 1)]"

definition of_sample :: "unit of_state" where
  "of_sample = run_calls of_exec of_sample_calls (of_fresh ())"

lemmas of_eval = of_fresh_def of_sample_calls_def apply_call_def of_init_def add_source_def update_price_def
  get_sources_def of_gate_defs require_admin_permission_def check_deviation_def host_simps Let_def

lemma of_sample_reach: "reach of_exec of_typed no_others (of_fresh ()) of_sample"
  unfolding of_sample_def
  by (rule run_calls_reach) (simp add: of_sample_calls_def i128_ok_def)

lemma of_sample_reports:
  "get_sources ''XLM'' of_sample = [Address 3, Address 4, Address 5] \<and>
   fresh_reports (of_at 10 6) ''XLM'' of_sample = [104, 9000, 100] \<and> of_quorum of_sample = Map.empty"
  by (simp add: of_sample_def of_eval fresh_reports_def is_fresh_def get_staleness_threshold_def
      DEFAULT_STALENESS_SECONDS_def)

lemma of_sample_price:
  "\<exists>f s'. get_price (of_at 10 6) ''XLM'' of_sample = Inr (f, s') \<and> pf_price f = 104"
  using of_sample_reports fresh_loop_reports [of "of_at 10 6" "''XLM''" of_sample]
  by (simp add: get_price_def median_def middle_def DEFAULT_QUORUM_def Let_def upt_rec i128_max_def)

lemma oracle_stores_typed_witness:
  "reach of_exec of_typed no_others (of_fresh ()) of_sample \<and> distinct (get_sources ''XLM'' of_sample)"
  using oracle_stores_typed [OF of_sample_reach] of_sample_reach by blast

lemma aggregated_price_robust_witness:
  "\<exists>f s'. get_price (of_at 10 6) ''XLM'' of_sample = Inr (f, s') \<and> 100 \<le> pf_price f \<and> pf_price f \<le> 104"
proof -
  from of_sample_price obtain f s' where run: "get_price (of_at 10 6) ''XLM'' of_sample = Inr (f, s')" by blast
  have "get_sources ''XLM'' of_sample \<noteq> []" using of_sample_reports by simp
  from aggregated_price_robust [OF of_sample_reach this run, of 100 104] run of_sample_reports show ?thesis
    by simp
qed


end
