(* ===== verification/RentPayments.thy ===== *)
theory RentPayments
  imports AccessControl Pausable "HOL-Library.List_Lexorder"
begin

text \<open>
  Payment receipts (\<open>rent_payments/src/lib.rs\<close>): receipts of rent payments per deal, idempotent by a
  payment reference, listed in pages with a cursor.  The byte arrays of the transaction identifier
  are lists of 8-bit words, compared lexicographically as Rust compares arrays; the loops over byte
  positions, receipts and pages are recursions over the positions the code's loops run through.
\<close>

section \<open>State and errors\<close>

record rp_cursor =
  cu_timestamp :: nat
  cu_tx_id :: bytes

record receipt =
  rc_id :: nat
  rc_deal_id :: nat
  rc_amount :: int
  rc_timestamp :: nat
  rc_tx_id :: bytes
  rc_payer :: address
  rc_reference :: bytes32

record receipt_page =
  rg_receipts :: "receipt list"
  rg_has_next :: bool
  rg_next_cursor :: rp_cursor

datatype rp_error =
    RP_AlreadyInitialized
  | RP_InvalidAmount
  | RP_InvalidLimit
  | RP_Paused
  | RP_DuplicateReference

record 'w rp_state = "'w host" +
  rp_version :: "nat option"
  rp_paused :: "bool option"
  rp_admin :: "address option"
  rp_receipts :: "nat \<rightharpoonup> receipt list"
  rp_counts :: "nat \<rightharpoonup> nat"
  rp_used :: "nat \<times> bytes32 \<rightharpoonup> bool"

definition rp_is_paused :: "'w rp_state \<Rightarrow> bool" where
  "rp_is_paused s = unwrap_or (rp_paused s) False"

definition rp_get_admin :: "'w rp_state \<Rightarrow> 'e fault + address" where
  "rp_get_admin s = expect (rp_admin s) ''admin not set''"

definition rp_require_admin :: "env \<Rightarrow> 'w rp_state \<Rightarrow> rp_error fault + unit" where
  "rp_require_admin e s = bindE (rp_get_admin s) (require_admin_auth e)"

definition rp_require_not_paused :: "'w rp_state \<Rightarrow> rp_error fault + unit" where
  "rp_require_not_paused s = (if rp_is_paused s then Inl (Err RP_Paused) else Inr ())"

definition get_receipts :: "nat \<Rightarrow> 'w rp_state \<Rightarrow> receipt list" where
  "get_receipts deal_id s = unwrap_or (rp_receipts s deal_id) []"

definition put_receipts :: "nat \<Rightarrow> receipt list \<Rightarrow> 'w rp_state \<Rightarrow> 'w rp_state" where
  "put_receipts deal_id receipts s = s\<lparr>rp_receipts := (rp_receipts s)(deal_id \<mapsto> receipts)\<rparr>"

definition get_receipt_count :: "nat \<Rightarrow> 'w rp_state \<Rightarrow> nat" where
  "get_receipt_count deal_id s = unwrap_or (rp_counts s deal_id) 0"

definition increment_receipt_count :: "nat \<Rightarrow> 'w rp_state \<Rightarrow> rp_error fault + nat \<times> 'w rp_state" where
  "increment_receipt_count deal_id s =
     bindE (ck_u64 (get_receipt_count deal_id s + 1)) (\<lambda>new_count.
     Inr (new_count, s\<lparr>rp_counts := (rp_counts s)(deal_id \<mapsto> new_count)\<rparr>))"

definition is_reference_used :: "nat \<Rightarrow> bytes32 \<Rightarrow> 'w rp_state \<Rightarrow> bool" where
  "is_reference_used deal_id reference s \<longleftrightarrow> rp_used s (deal_id, reference) \<noteq> None"

definition mark_reference_used :: "nat \<Rightarrow> bytes32 \<Rightarrow> 'w rp_state \<Rightarrow> 'w rp_state" where
  "mark_reference_used deal_id reference s = s\<lparr>rp_used := (rp_used s)((deal_id, reference) \<mapsto> True)\<rparr>"

section \<open>Transaction identifiers\<close>

text \<open>The key of the counter that all deals share: \<open>ReceiptCount(u64::MAX)\<close>.\<close>

definition global_counter_key :: nat where
  "global_counter_key = 2 ^ 64 - 1"

text \<open>
  The loops that write a number big-endian into the positions given, last position first, and the
  loop that fills the rest of the array.
\<close>

fun write_loop :: "nat list \<Rightarrow> nat \<Rightarrow> bytes \<Rightarrow> bytes" where
  "write_loop [] v bs = bs"
| "write_loop (i # is) v bs = write_loop is (v div 256) (bs[i := word_of_nat (v mod 256)])"

fun pattern_loop :: "nat list \<Rightarrow> nat \<Rightarrow> bytes \<Rightarrow> bytes" where
  "pattern_loop [] t bs = bs"
| "pattern_loop (i # is) t bs = pattern_loop is t (bs[i := word_of_nat t + word_of_nat i])"

definition get_tx_id :: "env \<Rightarrow> 'w rp_state \<Rightarrow> bytes \<times> 'w rp_state" where
  "get_tx_id e s =
     (let t = timestamp e;
          counter = unwrap_or (rp_counts s global_counter_key) 0;
          new_counter = (counter + 1) mod 2 ^ 64;
          s = s\<lparr>rp_counts := (rp_counts s)(global_counter_key \<mapsto> new_counter)\<rparr>;
          bs = replicate 32 0;
          bs = write_loop (rev [0..<8]) t bs;
          bs = write_loop (rev [8..<16]) new_counter bs;
          bs = pattern_loop [16..<32] t bs
      in (bs, s))"

section \<open>Recording receipts\<close>

definition rp_init :: "address \<Rightarrow> 'w rp_state \<Rightarrow> rp_error fault + 'w rp_state" where
  "rp_init admin s =
     (if rp_admin s \<noteq> None then Inl (Err RP_AlreadyInitialized)
      else Inr (publish [VSym ''init''] [VAddr admin, VNat 1]
             (s\<lparr>rp_admin := Some admin, rp_version := Some 1\<rparr>)))"

definition rp_contract_version :: "'w rp_state \<Rightarrow> nat" where
  "rp_contract_version s = unwrap_or (rp_version s) 0"

definition create_receipt ::
  "env \<Rightarrow> nat \<Rightarrow> int \<Rightarrow> address \<Rightarrow> bytes32 \<Rightarrow> 'w rp_state \<Rightarrow> rp_error fault + receipt \<times> 'w rp_state" where
  "create_receipt e deal_id amount payer reference s =
     bindE (rp_require_admin e s) (\<lambda>_.
     bindE (rp_require_not_paused s) (\<lambda>_.
     if amount \<le> 0 then Inl (Err RP_InvalidAmount)
     else if is_reference_used deal_id reference s then Inl (Err RP_DuplicateReference)
     else
     bindE (increment_receipt_count deal_id s) (\<lambda>(receipt_id, s).
     let t = timestamp e;
         (tx_id, s) = get_tx_id e s;
         receipt = \<lparr>rc_id = receipt_id, rc_deal_id = deal_id, rc_amount = amount, rc_timestamp = t,
           rc_tx_id = tx_id, rc_payer = payer, rc_reference = reference\<rparr>;
         receipts = get_receipts deal_id s @ [receipt];
         s = put_receipts deal_id receipts s;
         s = mark_reference_used deal_id reference s;
         s = publish [VSym ''receipt_created'', VNat deal_id]
               [VNat receipt_id, VInt amount, VAddr payer, VBytes reference, VNat 1] s
     in Inr (receipt, s))))"

definition receipt_count :: "nat \<Rightarrow> 'w rp_state \<Rightarrow> nat" where
  "receipt_count deal_id s = get_receipt_count deal_id s"

section \<open>Listing receipts\<close>

definition should_swap :: "receipt \<Rightarrow> receipt \<Rightarrow> bool" where
  "should_swap key prev =
     (if rc_timestamp key < rc_timestamp prev then True
      else if rc_timestamp key = rc_timestamp prev then rc_tx_id key < rc_tx_id prev
      else False)"

text \<open>The \<open>while j > 0\<close> loop of the insertion sort: the shifted list and the final \<open>j\<close>.\<close>

fun shift_loop :: "receipt \<Rightarrow> receipt list \<Rightarrow> nat \<Rightarrow> receipt list \<times> nat" where
  "shift_loop key xs 0 = (xs, 0)"
| "shift_loop key xs (Suc j) =
     (let prev = xs ! j in
      if should_swap key prev then shift_loop key (xs[Suc j := prev]) j else (xs, Suc j))"

fun insertion_loop :: "receipt list \<Rightarrow> nat list \<Rightarrow> receipt list" where
  "insertion_loop xs [] = xs"
| "insertion_loop xs (i # is) =
     (let key = xs ! i; (ys, j) = shift_loop key xs i in insertion_loop (ys[j := key]) is)"

definition sort_receipts :: "receipt list \<Rightarrow> receipt list" where
  "sort_receipts xs = (if 1 < length xs then insertion_loop xs [1..<length xs] else xs)"

definition after_cursor :: "receipt \<Rightarrow> rp_cursor \<Rightarrow> bool" where
  "after_cursor r c \<longleftrightarrow>
     cu_timestamp c < rc_timestamp r \<or> rc_timestamp r = cu_timestamp c \<and> cu_tx_id c < rc_tx_id r"

fun start_loop :: "rp_cursor \<Rightarrow> receipt list \<Rightarrow> nat list \<Rightarrow> nat" where
  "start_loop c xs [] = 0"
| "start_loop c xs (i # is) = (if after_cursor (xs ! i) c then i else start_loop c xs is)"

definition start_index :: "rp_cursor option \<Rightarrow> receipt list \<Rightarrow> nat" where
  "start_index cursor xs =
     (case cursor of
        None \<Rightarrow> 0
      | Some c \<Rightarrow>
          let start = start_loop c xs [0..<length xs] in
          if start = 0 \<and> xs \<noteq> [] then (if \<not> after_cursor (xs ! 0) c then length xs else start) else start)"

fun page_loop :: "receipt list \<Rightarrow> nat list \<Rightarrow> receipt list \<Rightarrow> receipt list" where
  "page_loop xs [] page = page"
| "page_loop xs (i # is) page = page_loop xs is (if i < length xs then page @ [xs ! i] else page)"

definition no_cursor :: rp_cursor where
  "no_cursor = \<lparr>cu_timestamp = 0, cu_tx_id = replicate 32 0\<rparr>"

definition list_receipts_by_deal ::
  "nat \<Rightarrow> nat \<Rightarrow> rp_cursor option \<Rightarrow> 'w rp_state \<Rightarrow> rp_error fault + receipt_page" where
  "list_receipts_by_deal deal_id limit cursor s =
     (if limit = 0 \<or> 100 < limit then Inl (Err RP_InvalidLimit)
      else
      let sorted_receipts = sort_receipts (get_receipts deal_id s);
          start = start_index cursor sorted_receipts;
          len = length sorted_receipts
      in
      bindE (ck_u32 (start + limit)) (\<lambda>limit_index.
      let end_index = (if limit_index < len then limit_index else len);
          page = page_loop sorted_receipts [start..<end_index] [];
          (has_next, next_cursor) =
            (if end_index < len \<and> page \<noteq> []
             then (True, \<lparr>cu_timestamp = rc_timestamp (page ! (length page - 1)),
                          cu_tx_id = rc_tx_id (page ! (length page - 1))\<rparr>)
             else (False, no_cursor))
      in Inr \<lparr>rg_receipts = page, rg_has_next = has_next, rg_next_cursor = next_cursor\<rparr>))"

section \<open>Pausing and all entry points\<close>

definition rp_pause :: "env \<Rightarrow> address \<Rightarrow> 'w rp_state \<Rightarrow> pausable_error fault + 'w rp_state" where
  "rp_pause e admin s =
     bindE (rp_get_admin s) (\<lambda>stored.
     bindE (require_admin_permission e stored admin ''pause'' PE_NotAuthorized s) (\<lambda>_.
     Inr (publish [VSym ''Pausable'', VSym ''pause''] [] (s\<lparr>rp_paused := Some True\<rparr>))))"

definition rp_unpause :: "env \<Rightarrow> address \<Rightarrow> 'w rp_state \<Rightarrow> pausable_error fault + 'w rp_state" where
  "rp_unpause e admin s =
     bindE (rp_get_admin s) (\<lambda>stored.
     bindE (require_admin_permission e stored admin ''unpause'' PE_NotAuthorized s) (\<lambda>_.
     Inr (publish [VSym ''Pausable'', VSym ''unpause''] [] (s\<lparr>rp_paused := Some False\<rparr>))))"

interpretation rp_pausable: pausable rp_pause rp_unpause rp_is_paused rp_admin
  by unfold_locales
    (auto simp: rp_pause_def rp_unpause_def rp_is_paused_def rp_get_admin_def outcome_simps host_simps)

datatype rp_call =
    RP_Init address
  | RP_Create nat int address bytes32
  | RP_Pause address
  | RP_Unpause address

datatype rp_any_error = RP_Contract rp_error | RP_Pausable pausable_error

fun rp_exec :: "env \<Rightarrow> rp_call \<Rightarrow> 'w rp_state \<Rightarrow> rp_any_error fault + 'w rp_state" where
  "rp_exec e (RP_Init a) s = map_err RP_Contract (rp_init a s)"
| "rp_exec e (RP_Create d n p r) s = map_err RP_Contract (drop_result (create_receipt e d n p r s))"
| "rp_exec e (RP_Pause a) s = map_err RP_Pausable (rp_pause e a s)"
| "rp_exec e (RP_Unpause a) s = map_err RP_Pausable (rp_unpause e a s)"

lemmas rp_gate_defs = rp_get_admin_def rp_require_admin_def rp_require_not_paused_def require_admin_auth_def

end
