(* ===== verification/RentPaymentsProps.thy ===== *)
theory RentPaymentsProps
  imports RentPayments "HOL-Library.Multiset"
begin

text \<open>
  Properties of the payment receipts: transaction identifiers tell receipts apart and order them, the
  insertion sort sorts, following the cursors from page to page lists every receipt once, and the
  receipts of a deal are numbered without a gap and paid for once per reference.
\<close>

section \<open>Transaction identifiers\<close>

fun be_bytes :: "nat \<Rightarrow> nat \<Rightarrow> bytes" where
  "be_bytes 0 v = []"
| "be_bytes (Suc k) v = be_bytes k (v div 256) @ [word_of_nat (v mod 256)]"

lemma length_be_bytes [simp]: "length (be_bytes k v) = k"
  by (induction k arbitrary: v) auto

definition be_value :: "bytes \<Rightarrow> nat" where
  "be_value = foldl (\<lambda>a b. 256 * a + unat b) 0"

lemma unat_byte: "unat (word_of_nat (v mod 256) :: 8 word) = v mod 256"
  by (simp add: unat_of_nat)

lemma be_value_bytes: "be_value (be_bytes k v) = v mod 256 ^ k"
proof (induction k arbitrary: v)
  case (Suc k)
  then show ?case by (simp add: be_value_def unat_byte mod_mult2_eq)
qed (simp add: be_value_def)

lemma less_append_same: "(p @ xs < p @ ys) \<longleftrightarrow> xs < (ys :: bytes)"
  by (induction p) auto

lemma be_bytes_less:
  assumes "v < w" and "w < 256 ^ k"
  shows "be_bytes k v @ xs < be_bytes k w @ ys"
  using assms
proof (induction k arbitrary: v w xs ys)
  case (Suc k)
  show ?case
  proof (cases "v div 256 = w div 256")
    case True
    with Suc.prems(1) have "v mod 256 < w mod 256"
      by (metis add_less_cancel_left mod_mult_div_eq add.commute)
    then have "(word_of_nat (v mod 256) :: 8 word) < word_of_nat (w mod 256)"
      by (simp add: word_less_nat_alt unat_byte)
    with True show ?thesis by (simp add: less_append_same)
  next
    case False
    with Suc.prems(1) have "v div 256 < w div 256" by (simp add: div_le_mono nat_less_le)
    moreover have "w div 256 < 256 ^ k" using Suc.prems(2) by (simp add: less_mult_imp_div_less mult.commute)
    ultimately have less: "v div 256 < w div 256" "w div 256 < 256 ^ k" by auto
    from Suc.IH [OF less] show ?thesis by simp
  qed
qed simp

lemma write_loop_eq:
  "a + k \<le> length bs \<Longrightarrow>
   write_loop (rev [a..<a + k]) v bs = take a bs @ be_bytes k v @ drop (a + k) bs"
proof (induction k arbitrary: v bs)
  case (Suc k)
  then show ?case by (simp add: drop_update_swap flip: Cons_nth_drop_Suc)
qed simp

lemma pattern_loop_append: "pattern_loop (is @ js) t bs = pattern_loop js t (pattern_loop is t bs)"
  by (induction "is" arbitrary: bs) auto

definition pattern :: "nat \<Rightarrow> bytes" where
  "pattern t = map (\<lambda>i. word_of_nat t + word_of_nat i) [16..<32]"

lemma pattern_loop_eq:
  "a + k \<le> length bs \<Longrightarrow> pattern_loop [a..<a + k] t bs =
     take a bs @ map (\<lambda>i. word_of_nat t + word_of_nat i) [a..<a + k] @ drop (a + k) bs"
proof (induction k arbitrary: bs)
  case (Suc k)
  then show ?case
    by (simp add: pattern_loop_append list_update_append drop_update_swap flip: Cons_nth_drop_Suc)
qed simp

text \<open>The identifier of the receipt with number \<open>n\<close>: time, number and filling, each big-endian.\<close>

definition tx_bytes :: "nat \<Rightarrow> nat \<Rightarrow> bytes" where
  "tx_bytes t n = be_bytes 8 t @ be_bytes 8 n @ pattern t"

lemma get_tx_id_eq:
  "get_tx_id e s =
     (let n = (get_receipt_count global_counter_key s + 1) mod 2 ^ 64 in
      (tx_bytes (timestamp e) n, s\<lparr>rp_counts := (rp_counts s)(global_counter_key \<mapsto> n)\<rparr>))"
proof -
  have "write_loop (rev [0..<8]) t (replicate 32 0) = be_bytes 8 t @ replicate 24 0" for t
    using write_loop_eq [of 0 8 "replicate 32 0" t] by simp
  moreover have "write_loop (rev [8..<16]) n (be_bytes 8 t @ replicate 24 0) =
      be_bytes 8 t @ be_bytes 8 n @ replicate 16 0" for t n
    using write_loop_eq [of 8 8 "be_bytes 8 t @ replicate 24 0" n] by simp
  moreover have "pattern_loop [16..<32] t (be_bytes 8 t @ be_bytes 8 n @ replicate 16 0) = tx_bytes t n" for t n
    using pattern_loop_eq [of 16 16 "be_bytes 8 t @ be_bytes 8 n @ replicate 16 0" t]
    by (simp add: tx_bytes_def pattern_def)
  ultimately show ?thesis by (simp add: get_tx_id_def get_receipt_count_def Let_def)
qed

text \<open>The number an identifier carries.\<close>

definition receipt_no :: "receipt \<Rightarrow> nat" where
  "receipt_no r = be_value (take 8 (drop 8 (rc_tx_id r)))"

lemma receipt_no_tx_bytes: "rc_tx_id r = tx_bytes t n \<Longrightarrow> receipt_no r = n mod 2 ^ 64"
  by (simp add: receipt_no_def tx_bytes_def be_value_bytes)

lemma tx_bytes_less: "m < n \<Longrightarrow> n < 2 ^ 64 \<Longrightarrow> tx_bytes t m < tx_bytes t n"
  by (simp add: tx_bytes_def less_append_same be_bytes_less)

section \<open>The insertion sort\<close>

text \<open>The order of the listing: \<open>key\<close> may stand before \<open>next\<close>.\<close>

definition no_later :: "receipt \<Rightarrow> receipt \<Rightarrow> bool" where
  "no_later a b \<longleftrightarrow> \<not> should_swap b a"

lemma should_swap_iff:
  "should_swap a b \<longleftrightarrow> rc_timestamp a < rc_timestamp b \<or> rc_timestamp a = rc_timestamp b \<and> rc_tx_id a < rc_tx_id b"
  by (simp add: should_swap_def)

lemma should_swap_trans: "should_swap a b \<Longrightarrow> should_swap b c \<Longrightarrow> should_swap a c"
  by (auto simp: should_swap_iff)

lemma should_swap_asym: "should_swap a b \<Longrightarrow> \<not> should_swap b a"
  by (auto simp: should_swap_iff)

lemma should_swap_no_later: "should_swap a b \<Longrightarrow> no_later a b"
  by (simp add: no_later_def should_swap_asym)

lemma no_later_trans: "no_later a b \<Longrightarrow> no_later b c \<Longrightarrow> no_later a c"
  by (auto simp: no_later_def should_swap_iff not_less)

lemma shift_loop_spec:
  assumes "shift_loop key xs j = (xs', j')" and "j < length xs" and "sorted_wrt no_later (take j xs)"
  shows "\<exists>ys. xs'[j' := key] = ys @ drop (Suc j) xs \<and> length ys = Suc j \<and>
    mset ys = add_mset key (mset (take j xs)) \<and> sorted_wrt no_later ys"
  using assms
proof (induction j arbitrary: xs)
  case 0
  then have "xs'[j' := key] = [key] @ drop (Suc 0) xs" by (cases xs) auto
  then show ?case by force
next
  case (Suc j)
  let ?prev = "xs ! j"
  from Suc.prems(2) have init: "take (Suc j) xs = take j xs @ [?prev]" by (simp add: take_Suc_conv_app_nth)
  with Suc.prems(3) have sorted: "sorted_wrt no_later (take j xs)" "\<forall>x \<in> set (take j xs). no_later x ?prev"
    by (simp_all add: sorted_wrt_append)
  show ?case
  proof (cases "should_swap key ?prev")
    case True
    with Suc.prems have "shift_loop key (xs[Suc j := ?prev]) j = (xs', j')" by simp
    from Suc.IH [OF this] Suc.prems(2) sorted(1) obtain ys
      where ys: "xs'[j' := key] = ys @ ?prev # drop (Suc (Suc j)) xs" "length ys = Suc j"
        "mset ys = add_mset key (mset (take j xs))" "sorted_wrt no_later ys"
      by (auto simp: Cons_nth_drop_Suc [symmetric] drop_update_swap)
    have "set ys = insert key (set (take j xs))" using ys(3) by (metis set_mset_add_mset_insert set_mset_mset)
    with ys sorted(2) True have "sorted_wrt no_later (ys @ [?prev])"
      by (auto simp: sorted_wrt_append should_swap_no_later)
    with ys init show ?thesis by (intro exI [of _ "ys @ [?prev]"]) simp
  next
    case False
    with Suc.prems have res: "xs'[j' := key] = take (Suc j) xs @ [key] @ drop (Suc (Suc j)) xs"
      by (auto simp: upd_conv_take_nth_drop)
    have "no_later x key" if "x \<in> set (take (Suc j) xs)" for x
      using that False sorted(2) no_later_trans [of x ?prev key] by (auto simp: init no_later_def)
    with Suc.prems(2,3) res show ?thesis
      by (intro exI [of _ "take (Suc j) xs @ [key]"]) (simp add: sorted_wrt_append)
  qed
qed

lemma insertion_loop_spec:
  assumes "i \<le> length xs" and "sorted_wrt no_later (take i xs)"
  shows "mset (insertion_loop xs [i..<length xs]) = mset xs \<and>
    sorted_wrt no_later (insertion_loop xs [i..<length xs])"
  using assms
proof (induction "length xs - i" arbitrary: i xs)
  case (Suc n)
  then have i: "i < length xs" by simp
  obtain xs' j' where shift: "shift_loop (xs ! i) xs i = (xs', j')" by fastforce
  from shift_loop_spec [OF this i Suc.prems(2)] obtain ys
    where ys: "xs'[j' := xs ! i] = ys @ drop (Suc i) xs" "length ys = Suc i"
      "mset ys = add_mset (xs ! i) (mset (take i xs))" "sorted_wrt no_later ys" by blast
  let ?zs = "ys @ drop (Suc i) xs"
  have len: "length ?zs = length xs" using ys(2) i by simp
  have "mset ?zs = mset xs"
    using ys(3) arg_cong [OF id_take_nth_drop [OF i], of mset] by simp
  moreover have "n = length ?zs - Suc i" using Suc.hyps(2) len by simp
  from Suc.hyps(1) [OF this] ys(2,4) i len have "mset (insertion_loop ?zs [Suc i..<length xs]) = mset ?zs"
    "sorted_wrt no_later (insertion_loop ?zs [Suc i..<length xs])" by (simp_all only: len) simp_all
  moreover have "insertion_loop xs [i..<length xs] = insertion_loop ?zs [Suc i..<length xs]"
    using i shift ys(1) by (simp add: upt_conv_Cons)
  ultimately show ?case by simp
qed simp

lemma sort_receipts_spec: "mset (sort_receipts xs) = mset xs \<and> sorted_wrt no_later (sort_receipts xs)"
proof (cases "1 < length xs")
  case True
  with insertion_loop_spec [of 1 xs] show ?thesis by (cases xs) (simp_all add: sort_receipts_def)
next
  case False
  then show ?thesis by (cases xs) (auto simp: sort_receipts_def)
qed

text \<open>Receipts that differ in time or number are sorted strictly, and a list in that order is left alone.\<close>

definition rc_key :: "receipt \<Rightarrow> nat \<times> bytes" where
  "rc_key r = (rc_timestamp r, rc_tx_id r)"

lemma no_later_strict: "no_later a b \<Longrightarrow> rc_key a \<noteq> rc_key b \<Longrightarrow> should_swap a b"
  by (auto simp: no_later_def should_swap_iff rc_key_def)

lemma sorted_strict:
  "sorted_wrt no_later xs \<Longrightarrow> distinct (map rc_key xs) \<Longrightarrow> sorted_wrt should_swap xs"
proof (induction xs)
  case (Cons x xs)
  then have "\<forall>y \<in> set xs. rc_key x \<noteq> rc_key y" by (metis distinct.simps(2) image_eqI list.simps(9) list.set_map)
  with Cons show ?case by (auto intro: no_later_strict)
qed simp

lemma sort_receipts_strict:
  assumes "distinct (map rc_key xs)"
  shows "sorted_wrt should_swap (sort_receipts xs)"
proof (rule sorted_strict)
  show "distinct (map rc_key (sort_receipts xs))"
    using assms sort_receipts_spec [of xs] by (metis mset_eq_imp_distinct_iff mset_map)
qed (use sort_receipts_spec in blast)

lemma sorted_unique:
  assumes "sorted_wrt should_swap xs" and "sorted_wrt should_swap ys" and "mset xs = mset ys"
  shows "xs = ys"
  using assms
proof (induction xs arbitrary: ys)
  case (Cons x xs)
  then obtain y ys' where ys: "ys = y # ys'" by (cases ys) auto
  have "x = y"
  proof (rule ccontr)
    assume "x \<noteq> y"
    with Cons.prems(3) ys have "x \<in> set ys'" "y \<in> set xs"
      by (metis list.set_intros(1) mset_eq_setD set_ConsD)+
    with Cons.prems(1,2) ys show False by (auto dest: should_swap_asym)
  qed
  with Cons ys show ?case by simp
qed simp

lemma sort_receipts_sorted:
  "sorted_wrt should_swap xs \<Longrightarrow> distinct (map rc_key xs) \<Longrightarrow> sort_receipts xs = xs"
  by (rule sorted_unique) (simp_all add: sort_receipts_strict sort_receipts_spec)

section \<open>Pages\<close>

definition cursor_of :: "receipt \<Rightarrow> rp_cursor" where
  "cursor_of r = \<lparr>cu_timestamp = rc_timestamp r, cu_tx_id = rc_tx_id r\<rparr>"

lemma after_cursor_of: "after_cursor r (cursor_of q) \<longleftrightarrow> should_swap q r"
  by (auto simp: after_cursor_def cursor_of_def should_swap_iff)

lemma start_loop_skip:
  "\<forall>i \<in> set is. \<not> after_cursor (xs ! i) c \<Longrightarrow> start_loop c xs (is @ js) = start_loop c xs js"
  by (induction "is") auto

text \<open>The listing from the cursor of an entry starts at the next one.\<close>

lemma start_index_cursor:
  assumes "sorted_wrt should_swap xs" and "k < length xs"
  shows "start_index (Some (cursor_of (xs ! k))) xs = Suc k"
proof -
  have after: "after_cursor (xs ! i) (cursor_of (xs ! k)) \<longleftrightarrow> k < i" if "i < length xs" for i
  proof (cases i k rule: linorder_cases)
    case less
    with assms sorted_wrt_nth_less [OF assms(1) less] show ?thesis
      by (simp add: after_cursor_of should_swap_asym)
  next
    case equal
    then show ?thesis by (simp add: after_cursor_of should_swap_iff)
  next
    case greater
    with assms that sorted_wrt_nth_less [OF assms(1) greater] show ?thesis by (simp add: after_cursor_of)
  qed
  from assms(2) obtain m where m: "length xs = Suc k + m" by (auto simp: less_iff_Suc_add)
  then have "[0..<length xs] = [0..<Suc k] @ [Suc k..<length xs]"
    using upt_add_eq_append [of 0 "Suc k" m] by (simp only: m)
  then have loop: "start_loop (cursor_of (xs ! k)) xs [0..<length xs] =
      start_loop (cursor_of (xs ! k)) xs [Suc k..<length xs]"
    using after assms(2) by (simp add: start_loop_skip del: upt_Suc)
  show ?thesis
  proof (cases "Suc k < length xs")
    case True
    with loop after [of "Suc k"] show ?thesis by (simp add: start_index_def upt_conv_Cons)
  next
    case False
    with loop after [of 0] assms(2) show ?thesis by (auto simp: start_index_def)
  qed
qed

lemma page_loop_eq: "b \<le> length xs \<Longrightarrow> page_loop xs [a..<b] page = page @ take (b - a) (drop a xs)"
proof (induction "b - a" arbitrary: a page)
  case (Suc n)
  then have "a < b" "a < length xs" "b - a = Suc (b - Suc a)" by simp_all
  with Suc.hyps(1) [of "Suc a"] Suc.hyps(2) Suc.prems show ?case
    by (simp add: upt_conv_Cons flip: Cons_nth_drop_Suc)
qed simp

lemma list_receipts_page:
  assumes "0 < limit" and "limit \<le> 100" and "start_index c xs = start" and "start \<le> length xs"
    and "length xs + 100 < 2 ^ 32" and xs: "xs = sort_receipts (get_receipts d s)"
  shows "\<exists>pg. list_receipts_by_deal d limit c s = Inr pg \<and> rg_receipts pg = take limit (drop start xs) \<and>
    (rg_has_next pg \<longleftrightarrow> start + limit < length xs) \<and>
    (rg_has_next pg \<longrightarrow> rg_next_cursor pg = cursor_of (xs ! (start + limit - 1)))"
proof (cases "start + limit < length xs")
  case True
  then have "page_loop xs [start..<start + limit] [] = take limit (drop start xs)"
    by (simp add: page_loop_eq)
  moreover have "take limit (drop start xs) ! (limit - 1) = xs ! (start + limit - 1)" using True assms(1) by simp
  ultimately show ?thesis using True assms
    by (simp add: list_receipts_by_deal_def ck_u32_def cursor_of_def Let_def min_def)
next
  case False
  then have "page_loop xs [start..<length xs] [] = take limit (drop start xs)" by (simp add: page_loop_eq)
  with False assms show ?thesis by (simp add: list_receipts_by_deal_def ck_u32_def Let_def)
qed

text \<open>A client that follows the cursors, for so many pages at most; \<open>None\<close> when it got no last page.\<close>

fun follow_pages :: "nat \<Rightarrow> nat \<Rightarrow> nat \<Rightarrow> rp_cursor option \<Rightarrow> 'w rp_state \<Rightarrow> receipt list option" where
  "follow_pages 0 d limit c s = None"
| "follow_pages (Suc pages) d limit c s =
     (case list_receipts_by_deal d limit c s of
        Inl _ \<Rightarrow> None
      | Inr pg \<Rightarrow>
          if rg_has_next pg
          then map_option ((@) (rg_receipts pg)) (follow_pages pages d limit (Some (rg_next_cursor pg)) s)
          else Some (rg_receipts pg))"

lemma follow_pages_rest:
  assumes "0 < limit" and "limit \<le> 100" and "start_index c xs = start" and "start \<le> length xs"
    and "length xs + 100 < 2 ^ 32" and xs: "xs = sort_receipts (get_receipts d s)"
    and sorted: "sorted_wrt should_swap xs" and "length xs - start < pages"
  shows "follow_pages pages d limit c s = Some (drop start xs)"
  using assms(3,4,8)
proof (induction pages arbitrary: start c)
  case (Suc pages)
  from list_receipts_page [OF assms(1,2) Suc.prems(1,2) assms(5) xs] obtain pg
    where pg: "list_receipts_by_deal d limit c s = Inr pg" "rg_receipts pg = take limit (drop start xs)"
      "rg_has_next pg \<longleftrightarrow> start + limit < length xs"
      "rg_has_next pg \<longrightarrow> rg_next_cursor pg = cursor_of (xs ! (start + limit - 1))" by blast
  show ?case
  proof (cases "start + limit < length xs")
    case True
    then have "start_index (Some (rg_next_cursor pg)) xs = start + limit"
      using start_index_cursor [OF sorted, of "start + limit - 1"] pg assms(1) by simp
    from Suc.IH [OF this] True Suc.prems(3) assms(1)
    have "follow_pages pages d limit (Some (rg_next_cursor pg)) s = Some (drop (start + limit) xs)" by simp
    with True pg show ?thesis by (simp add: add.commute flip: drop_drop)
  next
    case False
    with pg show ?thesis by simp
  qed
qed simp

section \<open>Histories\<close>

definition rp_fresh :: "'w \<Rightarrow> 'w rp_state" where
  "rp_fresh w = \<lparr>events = [], world = w, rp_version = None, rp_paused = None, rp_admin = None,
     rp_receipts = Map.empty, rp_counts = Map.empty, rp_used = Map.empty\<rparr>"

text \<open>The counter shared by all deals, and what holds of the receipts of one deal.\<close>

definition counter_of :: "'w rp_state \<Rightarrow> nat" where
  "counter_of s = get_receipt_count global_counter_key s"

definition receipts_ok :: "nat \<Rightarrow> 'w rp_state \<Rightarrow> bool" where
  "receipts_ok d s \<longleftrightarrow>
     sorted_wrt (<) (map receipt_no (get_receipts d s)) \<and>
     (\<forall>r \<in> set (get_receipts d s). rc_tx_id r = tx_bytes (rc_timestamp r) (receipt_no r) \<and>
        receipt_no r \<le> counter_of s \<and> rc_deal_id r = d \<and> 0 < rc_amount r \<and>
        is_reference_used d (rc_reference r) s) \<and>
     distinct (map rc_reference (get_receipts d s)) \<and>
     (d \<noteq> global_counter_key \<longrightarrow> map rc_id (get_receipts d s) = [1..<Suc (receipt_count d s)])"

definition rp_inv :: "nat \<Rightarrow> 'w rp_state \<Rightarrow> bool" where
  "rp_inv n s \<longleftrightarrow> counter_of s \<le> 2 * n \<and> (\<forall>d. length (get_receipts d s) \<le> n \<and> receipts_ok d s)"

lemma create_receipt_Inr:
  assumes "create_receipt e d n p rf s = Inr (r, s')" and "counter_of s + 2 < 2 ^ 64"
  shows "rc_deal_id r = d \<and> 0 < rc_amount r \<and> rc_timestamp r = timestamp e \<and> rc_reference r = rf \<and>
      rc_tx_id r = tx_bytes (timestamp e) (counter_of s') \<and> rc_id r = get_receipt_count d s + 1 \<and> rc_payer r = p"
    and "counter_of s < counter_of s' \<and> counter_of s' \<le> counter_of s + 2"
    and "get_receipts d' s' = (if d' = d then get_receipts d s @ [r] else get_receipts d' s)"
    and "d' \<noteq> global_counter_key \<Longrightarrow>
      receipt_count d' s' = (if d' = d then get_receipt_count d s + 1 else receipt_count d' s)"
    and "is_reference_used d' rf' s' \<longleftrightarrow> is_reference_used d' rf' s \<or> d' = d \<and> rf' = rf"
    and "\<not> is_reference_used d rf s"
  using assms
  by (auto simp: create_receipt_def increment_receipt_count_def get_tx_id_eq counter_of_def get_receipt_count_def
      get_receipts_def put_receipts_def mark_reference_used_def is_reference_used_def receipt_count_def
      Let_def outcome_simps host_simps fail_if_Inr_iff split: if_splits)

lemma rp_exec_keeps:
  assumes "rp_exec e c s = Inr s'" and "\<forall>d n p r. c \<noteq> RP_Create d n p r"
  shows "rp_receipts s' = rp_receipts s" and "rp_counts s' = rp_counts s" and "rp_used s' = rp_used s"
  using assms
  by (cases c; auto simp: rp_init_def rp_pause_def rp_unpause_def outcome_simps host_simps fail_if_Inr_iff)+

lemma receipts_ok_create:
  assumes run: "create_receipt e d n p rf s = Inr (r, s')" and room: "counter_of s + 2 < 2 ^ 64"
    and ok: "receipts_ok d' s"
  shows "receipts_ok d' s'"
proof -
  note post = create_receipt_Inr [OF run room]
  have no: "receipt_no r = counter_of s'"
    using post(1,2) room by (simp add: receipt_no_tx_bytes)
  show ?thesis
  proof (cases "d' = d")
    case False
    with post(2) post(3,4,5) [of d'] ok show ?thesis by (force simp: receipts_ok_def)
  next
    case True
    have fresh: "rc_reference q \<noteq> rf" if "q \<in> set (get_receipts d s)" for q
      using ok post(6) that True by (auto simp: receipts_ok_def)
    have nos: "\<forall>q \<in> set (get_receipts d s). receipt_no q < receipt_no r"
      using ok no post(2) True by (fastforce simp: receipts_ok_def)
    have ids: "map rc_id (get_receipts d s') = [1..<Suc (receipt_count d s')]" if "d \<noteq> global_counter_key"
      using ok post(1) post(3,4) [of d] that True by (simp add: receipts_ok_def receipt_count_def)
    show ?thesis
      unfolding receipts_ok_def
    proof (intro conjI impI ballI)
      show "sorted_wrt (<) (map receipt_no (get_receipts d' s'))"
        using ok nos post(3) [of d] True by (simp add: receipts_ok_def sorted_wrt_append)
      show "distinct (map rc_reference (get_receipts d' s'))"
        using ok fresh post(1) post(3) [of d] True by (force simp: receipts_ok_def)
      show "map rc_id (get_receipts d' s') = [1..<Suc (receipt_count d' s')]" if "d' \<noteq> global_counter_key"
        using ids that True by simp
    qed (use ok no post(1,2) post(3,5) [of d] True in \<open>auto simp: receipts_ok_def\<close>)
  qed
qed

lemma rp_inv_step:
  assumes "rp_exec e c s = Inr s'" and "rp_inv n s" and "n < 2 ^ 31"
  shows "rp_inv (Suc n) s'"
proof (cases "\<forall>d m p r. c \<noteq> RP_Create d m p r")
  case True
  with rp_exec_keeps [OF assms(1) True] assms(2) show ?thesis
    by (auto simp: rp_inv_def receipts_ok_def counter_of_def get_receipts_def get_receipt_count_def receipt_count_def
        is_reference_used_def le_SucI)
next
  case False
  then obtain d m p rf where "c = RP_Create d m p rf" by blast
  with assms(1) obtain r where run: "create_receipt e d m p rf s = Inr (r, s')" by (auto simp: outcome_simps)
  have room: "counter_of s + 2 < 2 ^ 64" using assms(2,3) by (simp add: rp_inv_def)
  from create_receipt_Inr(2) [OF run room] create_receipt_Inr(3) [OF run room] receipts_ok_create [OF run room] assms(2)
  show ?thesis by (auto simp: rp_inv_def le_SucI)
qed

lemma rp_inv_run:
  assumes "length cs < 2 ^ 31"
  shows "rp_inv (length cs) (run_calls rp_exec cs (rp_fresh w))"
  using assms
proof (induction cs rule: rev_induct)
  case Nil
  show ?case
    by (simp add: rp_inv_def receipts_ok_def rp_fresh_def counter_of_def get_receipts_def get_receipt_count_def
        receipt_count_def)
next
  case (snoc x cs)
  obtain e c where x: "x = (e, c)" by (cases x)
  let ?s = "run_calls rp_exec cs (rp_fresh w) :: 'a rp_state"
  from snoc have inv: "rp_inv (length cs) ?s" by simp
  show ?case
  proof (cases "rp_exec e c ?s")
    case (Inl f)
    with inv show ?thesis by (auto simp: run_calls_append apply_call_def x rp_inv_def le_SucI)
  next
    case (Inr s')
    with rp_inv_step [OF Inr inv] snoc.prems show ?thesis by (simp add: run_calls_append apply_call_def x)
  qed
qed

text \<open>When time does not go back from one invocation to the next, receipts are recorded in time order.\<close>

lemma receipts_in_time_order:
  assumes "sorted (map (\<lambda>(e, c). timestamp e) cs)" and "length cs < 2 ^ 31"
  shows "sorted (map rc_timestamp (get_receipts d (run_calls rp_exec cs (rp_fresh w)))) \<and>
    (\<forall>r \<in> set (get_receipts d (run_calls rp_exec cs (rp_fresh w))). \<exists>(e, c) \<in> set cs. rc_timestamp r = timestamp e)"
  using assms
proof (induction cs rule: rev_induct)
  case Nil
  show ?case by (simp add: rp_fresh_def get_receipts_def)
next
  case (snoc x cs)
  obtain e c where x: "x = (e, c)" by (cases x)
  let ?s = "run_calls rp_exec cs (rp_fresh w) :: 'a rp_state"
  from snoc have IH: "sorted (map rc_timestamp (get_receipts d ?s))"
    "\<forall>r \<in> set (get_receipts d ?s). \<exists>(e, c) \<in> set cs. rc_timestamp r = timestamp e"
    by (simp_all add: sorted_append)
  from snoc.prems(1) have late: "\<forall>(e', c') \<in> set cs. timestamp e' \<le> timestamp e" by (auto simp: x sorted_append)
  have inv: "rp_inv (length cs) ?s" using snoc.prems by (intro rp_inv_run) simp
  have unchanged: ?case if "get_receipts d (apply_call rp_exec x ?s) = get_receipts d ?s"
    using IH that by (auto simp: run_calls_append)
  show ?case
  proof (cases "rp_exec e c ?s")
    case (Inl f)
    then show ?thesis by (intro unchanged) (simp add: x apply_call_def)
  next
    case (Inr s')
    then have step: "apply_call rp_exec x ?s = s'" by (simp add: x apply_call_def)
    show ?thesis
    proof (cases "\<exists>m p rf. c = RP_Create d m p rf")
      case True
      with Inr obtain r m p rf where run: "create_receipt e d m p rf ?s = Inr (r, s')" by (auto simp: outcome_simps)
      have room: "counter_of ?s + 2 < 2 ^ 64" using inv snoc.prems(2) by (simp add: rp_inv_def)
      from create_receipt_Inr(1) [OF run room] create_receipt_Inr(3) [OF run room, of d] IH late step x show ?thesis
        by (fastforce simp: run_calls_append sorted_append)
    next
      case False
      have "get_receipts d s' = get_receipts d ?s"
      proof (cases "\<forall>q m p rf. c \<noteq> RP_Create q m p rf")
        case True
        with rp_exec_keeps [OF Inr True] show ?thesis by (simp add: get_receipts_def)
      next
        case other: False
        with Inr False obtain q m p rf r where run: "create_receipt e q m p rf ?s = Inr (r, s')" "q \<noteq> d"
          by (auto simp: outcome_simps)
        have room: "counter_of ?s + 2 < 2 ^ 64" using inv snoc.prems(2) by (simp add: rp_inv_def)
        from create_receipt_Inr(3) [OF run(1) room, of d] run(2) show ?thesis by simp
      qed
      then show ?thesis using step by (intro unchanged) simp
    qed
  qed
qed

lemma receipts_ok_keys: "receipts_ok d s \<Longrightarrow> distinct (map rc_key (get_receipts d s))"
proof -
  assume "receipts_ok d s"
  then have "distinct (map receipt_no (get_receipts d s))"
    by (auto simp: receipts_ok_def strict_sorted_iff)
  then show ?thesis
    by (auto simp: distinct_map inj_on_def rc_key_def receipt_no_def)
qed

lemma receipts_ok_time_order:
  assumes "receipts_ok d s" and "sorted (map rc_timestamp (get_receipts d s))" and "counter_of s < 2 ^ 64"
  shows "sorted_wrt should_swap (get_receipts d s)"
proof -
  let ?rs = "get_receipts d s"
  have "should_swap (?rs ! i) (?rs ! j)" if "i < j" "j < length ?rs" for i j
  proof -
    from assms(2) that have "rc_timestamp (?rs ! i) \<le> rc_timestamp (?rs ! j)"
      by (auto simp: sorted_iff_nth_mono)
    moreover have "receipt_no (?rs ! i) < receipt_no (?rs ! j)"
      using assms(1) that by (auto simp: receipts_ok_def sorted_wrt_iff_nth_less)
    moreover have "rc_tx_id (?rs ! k) = tx_bytes (rc_timestamp (?rs ! k)) (receipt_no (?rs ! k)) \<and>
        receipt_no (?rs ! k) < 2 ^ 64" if "k < length ?rs" for k
      using assms(1,3) nth_mem [OF that] unfolding receipts_ok_def by (meson le_less_trans)
    ultimately show ?thesis using that by (auto simp: should_swap_iff tx_bytes_less)
  qed
  then show ?thesis by (auto simp: sorted_wrt_iff_nth_less)
qed

text \<open>
  The counter shared by all deals is the receipt counter of the deal \<open>u64::MAX\<close>: a receipt of any
  other deal raises its \<open>receipt_count\<close> although it gets no receipt.
\<close>

lemma shared_counter_counts_others:
  assumes "create_receipt e d n p rf s = Inr (r, s')" and "counter_of s + 2 < 2 ^ 64" and "d \<noteq> global_counter_key"
  shows "receipt_count global_counter_key s < receipt_count global_counter_key s' \<and>
    get_receipts global_counter_key s' = get_receipts global_counter_key s"
  using create_receipt_Inr(2) [OF assms(1,2)] create_receipt_Inr(3) [OF assms(1,2), of global_counter_key] assms(3)
  by (simp add: counter_of_def receipt_count_def)

section \<open>Properties\<close>

text \<open>C30. Paging through the receipts of a deal lists each exactly once: in every history of fewer than
  \<open>2 ^ 31\<close> calls and for every page size the code accepts, a client that starts without a cursor and
  follows \<open>next_cursor\<close> while \<open>has_next\<close> reaches a last page after at most one page per receipt and
  one more; the pages together are the recorded receipts, strictly ordered by time and
  transaction identifier, and when time did not go back between the calls they are the
  receipts in the order they were recorded.\<close>

theorem pages_list_all_receipts:
  assumes "length cs < 2 ^ 31" and "0 < limit" and "limit \<le> 100"
    and s: "s = run_calls rp_exec cs (rp_fresh w)"
  shows "\<exists>rs. follow_pages (length (get_receipts d s) + 1) d limit None s = Some rs
    \<and> mset rs = mset (get_receipts d s) \<and> sorted_wrt should_swap rs
    \<and> (sorted (map (\<lambda>(e, c). timestamp e) cs) \<longrightarrow> rs = get_receipts d s)"
proof -
  let ?rs = "sort_receipts (get_receipts d s)"
  have inv: "receipts_ok d s" "length (get_receipts d s) < 2 ^ 31" "counter_of s < 2 ^ 64"
    using rp_inv_run [OF assms(1), of w] assms(1) s by (auto simp: rp_inv_def intro: le_less_trans)
  have sorted: "mset ?rs = mset (get_receipts d s)" "sorted_wrt should_swap ?rs"
    using sort_receipts_spec sort_receipts_strict [OF receipts_ok_keys [OF inv(1)]] by blast+
  have "length ?rs = length (get_receipts d s)" using sorted(1) by (metis size_mset)
  then have "follow_pages (length (get_receipts d s) + 1) d limit None s = Some (drop 0 ?rs)"
    using inv(2) by (intro follow_pages_rest [OF assms(2,3) _ _ _ refl sorted(2)]) (simp_all add: start_index_def)
  moreover have "?rs = get_receipts d s" if "sorted (map (\<lambda>(e, c). timestamp e) cs)"
    using receipts_in_time_order [OF that assms(1), of d w] receipts_ok_time_order [OF inv(1) _ inv(3)] s
    by (intro sort_receipts_sorted receipts_ok_keys [OF inv(1)]) simp
  ultimately show ?thesis using sorted by (intro exI [of _ ?rs]) simp
qed

text \<open>Receipts are numbered without a gap and idempotent by reference: in every history of fewer than
  \<open>2 ^ 31\<close> calls, the receipts of a deal other than \<open>u64::MAX\<close> carry the numbers 1 to
  \<open>receipt_count\<close> in the order of recording, no two of them the same payment reference, each
  a positive amount and the deal it is filed under.\<close>

theorem receipts_numbered:
  assumes "length cs < 2 ^ 31" and "d \<noteq> 2 ^ 64 - 1" and "s = run_calls rp_exec cs (rp_fresh w)"
  shows "map rc_id (get_receipts d s) = [1..<Suc (receipt_count d s)]
    \<and> distinct (map rc_reference (get_receipts d s))
    \<and> (\<forall>r \<in> set (get_receipts d s). 0 < rc_amount r \<and> rc_deal_id r = d)"
  using rp_inv_run [OF assms(1), of w] assms(2,3)
  by (simp add: rp_inv_def receipts_ok_def global_counter_key_def)

section \<open>Witnesses\<close>

abbreviation rp_at :: "nat \<Rightarrow> nat \<Rightarrow> env" where
  "rp_at t who \<equiv> call_at t (Address 9) (Address who)"

definition rp_sample_calls :: "(env \<times> rp_call) list" where
  "rp_sample_calls =
     [(rp_at 1 1, RP_Init (Address 1)), (rp_at 2 1, RP_Create 7 100 (Address 4) 11),
      (rp_at 2 1, RP_Create 8 300 (Address 4) 11), (rp_at 2 1, RP_Create 7 100 (Address 4) 12),
      (rp_at 3 1, RP_Create 7 100 (Address 4) 11), (rp_at 4 1, RP_Create 7 50 (Address 4) 13)]"

definition rp_sample :: "unit rp_state" where
  "rp_sample = run_calls rp_exec rp_sample_calls (rp_fresh ())"

lemmas rp_eval = rp_fresh_def rp_sample_calls_def apply_call_def rp_init_def create_receipt_def
  increment_receipt_count_def get_tx_id_eq get_receipt_count_def receipt_count_def get_receipts_def
  put_receipts_def mark_reference_used_def is_reference_used_def rp_gate_defs rp_is_paused_def
  global_counter_key_def ck_u64_def drop_result_def host_simps Let_def

lemma rp_sample_facts:
  "map rc_amount (get_receipts 7 rp_sample) = [100, 100, 50] \<and> receipt_count 7 rp_sample = 3 \<and>
   receipt_count (2 ^ 64 - 1) rp_sample = 4"
  by (simp add: rp_sample_def rp_eval)

lemma rp_sample_short: "length rp_sample_calls < 2 ^ 31" "sorted (map (\<lambda>(e, c). timestamp e) rp_sample_calls)"
  by (simp_all add: rp_sample_calls_def)

lemma pages_list_all_receipts_witness:
  "\<exists>rs. follow_pages 4 7 2 None rp_sample = Some rs \<and> map rc_amount rs = [100, 100, 50]"
proof -
  have "length (map rc_amount (get_receipts 7 rp_sample)) = 3" using rp_sample_facts by simp
  then have pages: "length (get_receipts 7 rp_sample) + 1 = 4" by simp
  from pages_list_all_receipts [OF rp_sample_short(1) _ _ rp_sample_def, of 2 7] rp_sample_short(2)
  have "\<exists>rs. follow_pages 4 7 2 None rp_sample = Some rs \<and> rs = get_receipts 7 rp_sample"
    unfolding pages by auto
  then show ?thesis using rp_sample_facts by simp
qed

lemma receipts_numbered_witness: "map rc_id (get_receipts 7 rp_sample) = [1, 2, 3]"
  using receipts_numbered [OF rp_sample_short(1) _ rp_sample_def, of 7] rp_sample_facts
  by (simp add: upt_rec)

end
