(* ===== verification/TransactionReceipt.thy ===== *)
theory TransactionReceipt
  imports AccessControl Pausable ReceiptHash
begin

text \<open>
  Transaction receipts (\<open>transaction-receipt-contract/src/lib.rs\<close>): the canonical external reference and
  its hash, the canonical metadata payload, the recording of receipts with their indices by deal
  and by user, and the paginated listings.  A Rust \<open>String\<close> is a string of its bytes; the host's
  XDR serialisation and SHA-256 are the parameters \<open>host_crypto\<close>, the text of an address is the
  parameter \<open>addr_text\<close>.
\<close>

section \<open>Constants, state and errors\<close>

definition ALLOWED_SOURCES :: "string list" where
  "ALLOWED_SOURCES =
     [''paystack'', ''flutterwave'', ''bank_transfer'', ''stellar'', ''onramp'', ''offramp'', ''manual'',
      ''manual_admin'']"

definition ALLOWED_TX_TYPES :: "string list" where
  "ALLOWED_TX_TYPES =
     [''TENANT_REPAYMENT'', ''LANDLORD_PAYOUT'', ''WHISTLEBLOWER_REWARD'', ''STAKE'', ''UNSTAKE'',
      ''STAKE_REWARD_CLAIM'', ''CONVERSION'']"

record tr_input =
  ti_external_ref_source :: string
  ti_external_ref :: string
  ti_tx_type :: string
  ti_amount_usdc :: int
  ti_token :: address
  ti_deal_id :: string
  ti_listing_id :: "string option"
  ti_from :: "address option"
  ti_to :: "address option"
  ti_amount_ngn :: "int option"
  ti_fx_rate :: "int option"
  ti_fx_provider :: "string option"
  ti_metadata_hash :: "bytes32 option"

record tx_receipt =
  tr_tx_id :: bytes32
  tr_tx_type :: string
  tr_amount_usdc :: int
  tr_token :: address
  tr_deal_id :: string
  tr_listing_id :: "string option"
  tr_from :: "address option"
  tr_to :: "address option"
  tr_external_ref :: bytes32
  tr_amount_ngn :: "int option"
  tr_fx_rate :: "int option"
  tr_fx_provider :: "string option"
  tr_metadata_hash :: "bytes32 option"
  tr_timestamp :: nat

datatype tr_error =
    TR_AlreadyInitialized
  | TR_NotAuthorized
  | TR_Paused
  | TR_InvalidAmount
  | TR_DuplicateTransaction
  | TR_InvalidExternalRefSource
  | TR_InvalidExternalRef
  | TR_InvalidTimestamp
  | TR_InvalidTxType
  | TR_InvalidMetadataHash

record 'w tr_state = "'w host" +
  tr_version :: "nat option"
  tr_admin :: "address option"
  tr_operator :: "address option"
  tr_paused :: "bool option"
  tr_receipts :: "bytes32 \<rightharpoonup> tx_receipt"
  tr_deal_index :: "string \<times> nat \<rightharpoonup> bytes32"
  tr_deal_count :: "string \<rightharpoonup> nat"
  tr_user_index :: "address \<times> nat \<rightharpoonup> bytes32"
  tr_user_count :: "address \<rightharpoonup> nat"

section \<open>Strings and bytes\<close>

definition string_bytes :: "string \<Rightarrow> bytes" where
  "string_bytes s = map (\<lambda>c. word_of_nat (of_char c)) s"

text \<open>The content of a \<open>String\<close>, sliced out of its XDR form.\<close>

definition string_raw_bytes :: "host_crypto \<Rightarrow> string \<Rightarrow> bytes" where
  "string_raw_bytes hc s = take (length s) (drop 8 (to_xdr hc (VStr s)))"

definition is_ascii_ws :: "8 word \<Rightarrow> bool" where
  "is_ascii_ws b \<longleftrightarrow> b \<in> {32, 9, 10, 13, 11, 12}"

function trim_start :: "bytes \<Rightarrow> nat \<Rightarrow> nat" where
  "trim_start content start =
     (if start < length content \<and> is_ascii_ws (content ! start) then trim_start content (start + 1) else start)"
  by auto
termination by (relation "measure (\<lambda>(content, start). length content - start)") auto

function trim_end :: "bytes \<Rightarrow> nat \<Rightarrow> nat \<Rightarrow> nat" where
  "trim_end content start end_pos =
     (if start < end_pos \<and> is_ascii_ws (content ! (end_pos - 1)) then trim_end content start (end_pos - 1)
      else end_pos)"
  by auto
termination by (relation "measure (\<lambda>(content, start, end_pos). end_pos)") auto

declare trim_start.simps [simp del] trim_end.simps [simp del]

definition trim_ascii_bytes :: "host_crypto \<Rightarrow> string \<Rightarrow> bytes" where
  "trim_ascii_bytes hc s =
     (let content = string_raw_bytes hc s;
          start = trim_start content 0;
          end_pos = trim_end content start (length content)
      in take (end_pos - start) (drop start content))"

text \<open>A \<open>Symbol\<close> has at most 32 characters.\<close>

definition symbol_ascii :: "string \<Rightarrow> bytes \<times> nat" where
  "symbol_ascii name = (string_bytes name @ replicate (32 - length name) 0, length name)"

definition to_ascii_lowercase :: "8 word \<Rightarrow> 8 word" where
  "to_ascii_lowercase b = (if 65 \<le> b \<and> b \<le> 90 then b + 32 else b)"

fun source_loop :: "bytes \<Rightarrow> string list \<Rightarrow> tr_error fault + string" where
  "source_loop lowered [] = Inl (Err TR_InvalidExternalRefSource)"
| "source_loop lowered (allowed # rest) =
     (if lowered = string_bytes allowed then Inr allowed else source_loop lowered rest)"

definition normalize_source :: "string \<Rightarrow> tr_error fault + string" where
  "normalize_source external_ref_source =
     (let (buf, len) = symbol_ascii external_ref_source;
          lowered = map to_ascii_lowercase (take len buf)
      in source_loop lowered ALLOWED_SOURCES)"

fun pipe_loop :: "bytes \<Rightarrow> tr_error fault + unit" where
  "pipe_loop [] = Inr ()"
| "pipe_loop (b # bs) = (if b = 124 then Inl (Err TR_InvalidExternalRef) else pipe_loop bs)"

definition validate_and_normalize_ref ::
  "host_crypto \<Rightarrow> string \<Rightarrow> string \<Rightarrow> tr_error fault + string \<times> bytes" where
  "validate_and_normalize_ref hc external_ref_source external_ref =
     bindE (normalize_source external_ref_source) (\<lambda>source_lower.
     let ref_trimmed = trim_ascii_bytes hc external_ref in
     if ref_trimmed = [] then Inl (Err TR_InvalidExternalRef)
     else if 256 < length ref_trimmed then Inl (Err TR_InvalidExternalRef)
     else
     bindE (pipe_loop ref_trimmed) (\<lambda>_.
     Inr (source_lower, ref_trimmed)))"

definition validate_external_ref :: "host_crypto \<Rightarrow> string \<Rightarrow> string \<Rightarrow> tr_error fault + unit" where
  "validate_external_ref hc external_ref_source external_ref =
     bindE (validate_and_normalize_ref hc external_ref_source external_ref) (\<lambda>_. Inr ())"

section \<open>The metadata payload\<close>

definition append_i128_decimal :: "bytes \<Rightarrow> int \<Rightarrow> tr_error fault + bytes" where
  "append_i128_decimal combined v =
     (if v = 0 then Inr (combined @ [48])
      else
      let combined = (if v < 0 then combined @ [45] else combined) in
      bindE (digit_loop 40 (nat \<bar>v\<bar>) []) (\<lambda>digits. Inr (combined @ rev digits)))"

definition append_opt :: "string \<Rightarrow> ('a \<Rightarrow> bytes) \<Rightarrow> 'a option \<Rightarrow> bytes \<Rightarrow> bytes" where
  "append_opt key text x combined =
     (case x of None \<Rightarrow> combined | Some v \<Rightarrow> combined @ string_bytes key @ text v)"

definition append_opt_i128 :: "string \<Rightarrow> int option \<Rightarrow> bytes \<Rightarrow> tr_error fault + bytes" where
  "append_opt_i128 key x combined =
     (case x of None \<Rightarrow> Inr combined | Some v \<Rightarrow> append_i128_decimal (combined @ string_bytes key) v)"

definition canonical_metadata_payload_v1 ::
  "host_crypto \<Rightarrow> (address \<Rightarrow> string) \<Rightarrow> tr_input \<Rightarrow> tr_error fault + bytes" where
  "canonical_metadata_payload_v1 hc addr_text input =
     (let combined = string_bytes ''v1|external_ref_source='';
          source_lower = (case normalize_source (ti_external_ref_source input) of Inr s \<Rightarrow> s | Inl _ \<Rightarrow> []);
          combined = combined @ string_bytes source_lower;
          combined = combined @ string_bytes ''|external_ref='';
          combined = combined @ trim_ascii_bytes hc (ti_external_ref input);
          combined = combined @ string_bytes ''|tx_type='';
          (tx_type_buf, tx_type_len) = symbol_ascii (ti_tx_type input);
          combined = combined @ take tx_type_len tx_type_buf;
          combined = combined @ string_bytes ''|amount_usdc=''
      in
      bindE (append_i128_decimal combined (ti_amount_usdc input)) (\<lambda>combined.
      let combined = combined @ string_bytes ''|token='';
          combined = combined @ string_raw_bytes hc (addr_text (ti_token input));
          combined = combined @ string_bytes ''|deal_id='';
          combined = combined @ string_raw_bytes hc (ti_deal_id input);
          combined = append_opt ''|listing_id='' (string_raw_bytes hc) (ti_listing_id input) combined;
          combined = append_opt ''|from='' (\<lambda>a. string_raw_bytes hc (addr_text a)) (ti_from input) combined;
          combined = append_opt ''|to='' (\<lambda>a. string_raw_bytes hc (addr_text a)) (ti_to input) combined
      in
      bindE (append_opt_i128 ''|amount_ngn='' (ti_amount_ngn input) combined) (\<lambda>combined.
      bindE (append_opt_i128 ''|fx_rate_ngn_per_usdc='' (ti_fx_rate input) combined) (\<lambda>combined.
      Inr (append_opt ''|fx_provider='' (string_raw_bytes hc) (ti_fx_provider input) combined)))))"

definition derive_metadata_hash ::
  "host_crypto \<Rightarrow> (address \<Rightarrow> string) \<Rightarrow> tr_input \<Rightarrow> tr_error fault + bytes32" where
  "derive_metadata_hash hc addr_text input =
     bindE (canonical_metadata_payload_v1 hc addr_text input) (\<lambda>payload. Inr (sha256 hc payload))"

definition tr_verify_metadata_hash ::
  "host_crypto \<Rightarrow> (address \<Rightarrow> string) \<Rightarrow> tr_input \<Rightarrow> bytes32 \<Rightarrow> tr_error fault + bool" where
  "tr_verify_metadata_hash hc addr_text input hash =
     bindE (derive_metadata_hash hc addr_text input) (\<lambda>h. Inr (h = hash))"

section \<open>Guards\<close>

text \<open>\<open>require_admin\<close> compares the caller with the stored admin; it does not ask for an authorisation.\<close>

definition tr_require_admin :: "address \<Rightarrow> 'w tr_state \<Rightarrow> tr_error fault + unit" where
  "tr_require_admin caller s =
     (case tr_admin s of
        None \<Rightarrow> Inl (Trap (PanicTrap ''Admin not initialized''))
      | Some admin \<Rightarrow> if caller \<noteq> admin then Inl (Err TR_NotAuthorized) else Inr ())"

definition tr_require_operator :: "address \<Rightarrow> 'w tr_state \<Rightarrow> tr_error fault + unit" where
  "tr_require_operator caller s =
     (case tr_operator s of
        None \<Rightarrow> Inl (Trap (PanicTrap ''Operator not initialized''))
      | Some operator \<Rightarrow> if caller \<noteq> operator then Inl (Err TR_NotAuthorized) else Inr ())"

definition tr_is_paused :: "'w tr_state \<Rightarrow> bool" where
  "tr_is_paused s = unwrap_or (tr_paused s) False"

definition tr_require_not_paused :: "'w tr_state \<Rightarrow> tr_error fault + unit" where
  "tr_require_not_paused s = (if tr_is_paused s then Inl (Err TR_Paused) else Inr ())"

fun tx_type_loop :: "host_crypto \<Rightarrow> bytes \<Rightarrow> string list \<Rightarrow> tr_error fault + unit" where
  "tx_type_loop hc tx_type_bytes [] = Inl (Err TR_InvalidTxType)"
| "tx_type_loop hc tx_type_bytes (allowed # rest) =
     (if tx_type_bytes = to_xdr hc (VSym allowed) then Inr () else tx_type_loop hc tx_type_bytes rest)"

definition validate_tx_type :: "host_crypto \<Rightarrow> string \<Rightarrow> tr_error fault + unit" where
  "validate_tx_type hc tx_type = tx_type_loop hc (to_xdr hc (VSym tx_type)) ALLOWED_TX_TYPES"

text \<open>The bytes that are hashed to the transaction identifier.\<close>

definition tx_id_payload :: "string \<Rightarrow> bytes \<Rightarrow> bytes" where
  "tx_id_payload source_lower ref_trimmed =
     string_bytes ''v1|source='' @ string_bytes source_lower @ string_bytes ''|ref='' @ ref_trimmed"

definition tr_generate_tx_id :: "host_crypto \<Rightarrow> string \<Rightarrow> string \<Rightarrow> tr_error fault + bytes32" where
  "tr_generate_tx_id hc external_ref_source external_ref =
     bindE (validate_and_normalize_ref hc external_ref_source external_ref) (\<lambda>(source_lower, ref_trimmed).
     Inr (sha256 hc (tx_id_payload source_lower ref_trimmed)))"

section \<open>Entry points\<close>

definition tr_init :: "address \<Rightarrow> address \<Rightarrow> 'w tr_state \<Rightarrow> tr_error fault + 'w tr_state" where
  "tr_init admin operator s =
     (if tr_admin s \<noteq> None then Inl (Err TR_AlreadyInitialized)
      else Inr (publish [VSym ''transaction_receipt'', VSym ''init''] [VAddr admin, VAddr operator, VNat 1]
             (s\<lparr>tr_admin := Some admin, tr_operator := Some operator, tr_version := Some 1,
                tr_paused := Some False\<rparr>)))"

definition tr_contract_version :: "'w tr_state \<Rightarrow> nat" where
  "tr_contract_version s = unwrap_or (tr_version s) 0"

definition tr_set_operator ::
  "env \<Rightarrow> address \<Rightarrow> address \<Rightarrow> 'w tr_state \<Rightarrow> tr_error fault + 'w tr_state" where
  "tr_set_operator e admin new_operator s =
     bindE (require_auth e admin) (\<lambda>_.
     bindE (tr_require_admin admin s) (\<lambda>_.
     case tr_operator s of
       None \<Rightarrow> Inl (Trap (PanicTrap ''Operator not initialized''))
     | Some old_operator \<Rightarrow>
         Inr (publish [VSym ''transaction_receipt'', VSym ''set_operator''] [VAddr old_operator, VAddr new_operator]
                (s\<lparr>tr_operator := Some new_operator\<rparr>))))"

text \<open>A struct as event data is the list of its fields.\<close>

definition receipt_val :: "tx_receipt \<Rightarrow> val" where
  "receipt_val r = VVec
     [VBytes (tr_tx_id r), VSym (tr_tx_type r), VInt (tr_amount_usdc r), VAddr (tr_token r), VStr (tr_deal_id r),
      opt_val VStr (tr_listing_id r), opt_val VAddr (tr_from r), opt_val VAddr (tr_to r), VBytes (tr_external_ref r),
      opt_val VInt (tr_amount_ngn r), opt_val VInt (tr_fx_rate r), opt_val VStr (tr_fx_provider r),
      opt_val VBytes (tr_metadata_hash r), VNat (tr_timestamp r)]"

definition index_deal :: "string \<Rightarrow> bytes32 \<Rightarrow> 'w tr_state \<Rightarrow> tr_error fault + 'w tr_state" where
  "index_deal deal_id tx_id s =
     (let current_count = unwrap_or (tr_deal_count s deal_id) 0;
          s = s\<lparr>tr_deal_index := (tr_deal_index s)((deal_id, current_count) \<mapsto> tx_id)\<rparr>
      in
      bindE (ck_u32 (current_count + 1)) (\<lambda>n.
      Inr (s\<lparr>tr_deal_count := (tr_deal_count s)(deal_id \<mapsto> n)\<rparr>)))"

definition index_user :: "address option \<Rightarrow> bytes32 \<Rightarrow> 'w tr_state \<Rightarrow> tr_error fault + 'w tr_state" where
  "index_user user tx_id s =
     (case user of
        None \<Rightarrow> Inr s
      | Some addr \<Rightarrow>
          let user_count = unwrap_or (tr_user_count s addr) 0;
              s = s\<lparr>tr_user_index := (tr_user_index s)((addr, user_count) \<mapsto> tx_id)\<rparr>
          in
          bindE (ck_u32 (user_count + 1)) (\<lambda>n.
          Inr (s\<lparr>tr_user_count := (tr_user_count s)(addr \<mapsto> n)\<rparr>)))"

definition make_receipt :: "env \<Rightarrow> bytes32 \<Rightarrow> tr_input \<Rightarrow> tx_receipt" where
  "make_receipt e tx_id input =
     \<lparr>tr_tx_id = tx_id, tr_tx_type = ti_tx_type input, tr_amount_usdc = ti_amount_usdc input,
      tr_token = ti_token input, tr_deal_id = ti_deal_id input, tr_listing_id = ti_listing_id input,
      tr_from = ti_from input, tr_to = ti_to input, tr_external_ref = tx_id,
      tr_amount_ngn = ti_amount_ngn input, tr_fx_rate = ti_fx_rate input,
      tr_fx_provider = ti_fx_provider input, tr_metadata_hash = ti_metadata_hash input,
      tr_timestamp = timestamp e\<rparr>"

definition check_metadata ::
  "host_crypto \<Rightarrow> (address \<Rightarrow> string) \<Rightarrow> tr_input \<Rightarrow> tr_error fault + unit" where
  "check_metadata hc addr_text input =
     (case ti_metadata_hash input of
        None \<Rightarrow> Inr ()
      | Some mh \<Rightarrow>
          bindE (tr_verify_metadata_hash hc addr_text input mh) (\<lambda>valid.
          if \<not> valid then Inl (Err TR_InvalidMetadataHash) else Inr ()))"

definition record_receipt ::
  "host_crypto \<Rightarrow> (address \<Rightarrow> string) \<Rightarrow> env \<Rightarrow> address \<Rightarrow> tr_input \<Rightarrow> 'w tr_state \<Rightarrow>
   tr_error fault + bytes32 \<times> 'w tr_state" where
  "record_receipt hc addr_text e operator input s =
     bindE (require_auth e operator) (\<lambda>_.
     bindE (tr_require_operator operator s) (\<lambda>_.
     bindE (tr_require_not_paused s) (\<lambda>_.
     if ti_amount_usdc input \<le> 0 then Inl (Err TR_InvalidAmount)
     else
     bindE (validate_tx_type hc (ti_tx_type input)) (\<lambda>_.
     bindE (validate_external_ref hc (ti_external_ref_source input) (ti_external_ref input)) (\<lambda>_.
     bindE (tr_generate_tx_id hc (ti_external_ref_source input) (ti_external_ref input)) (\<lambda>tx_id.
     bindE (check_metadata hc addr_text input) (\<lambda>_.
     if tr_receipts s tx_id \<noteq> None then Inl (Err TR_DuplicateTransaction)
     else
     let receipt = make_receipt e tx_id input;
         s = s\<lparr>tr_receipts := (tr_receipts s)(tx_id \<mapsto> receipt)\<rparr>
     in
     bindE (index_deal (ti_deal_id input) tx_id s) (\<lambda>s.
     bindE (index_user (tr_from receipt) tx_id s) (\<lambda>s.
     bindE (index_user (tr_to receipt) tx_id s) (\<lambda>s.
     Inr (tx_id, publish [VSym ''transaction_receipt'', VSym ''receipt_recorded'', VBytes tx_id]
            [receipt_val receipt] s)))))))))))"

definition get_receipt :: "bytes32 \<Rightarrow> 'w tr_state \<Rightarrow> tx_receipt option" where
  "get_receipt tx_id s = tr_receipts s tx_id"

fun index_loop ::
  "(nat \<Rightarrow> bytes32 option) \<Rightarrow> 'w tr_state \<Rightarrow> nat list \<Rightarrow> tx_receipt list \<Rightarrow> tx_receipt list" where
  "index_loop at s [] results = results"
| "index_loop at s (i # is) results =
     index_loop at s is
       (case at i of
          None \<Rightarrow> results
        | Some tx_id \<Rightarrow> (case tr_receipts s tx_id of None \<Rightarrow> results | Some r \<Rightarrow> results @ [r]))"

definition tr_list_receipts_by_deal ::
  "string \<Rightarrow> nat \<Rightarrow> nat option \<Rightarrow> 'w tr_state \<Rightarrow> tr_error fault + tx_receipt list" where
  "tr_list_receipts_by_deal deal_id limit cursor s =
     (let total_count = unwrap_or (tr_deal_count s deal_id) 0;
          start_index = unwrap_or cursor 0
      in
      bindE (ck_u32 (start_index + limit)) (\<lambda>end_limit.
      Inr (index_loop (\<lambda>i. tr_deal_index s (deal_id, i)) s [start_index..<min end_limit total_count] [])))"

definition list_receipts_by_user ::
  "address \<Rightarrow> nat \<Rightarrow> nat option \<Rightarrow> 'w tr_state \<Rightarrow> tr_error fault + tx_receipt list" where
  "list_receipts_by_user user limit cursor s =
     (let total_count = unwrap_or (tr_user_count s user) 0;
          start_index = unwrap_or cursor 0
      in
      bindE (ck_u32 (start_index + limit)) (\<lambda>end_limit.
      Inr (index_loop (\<lambda>i. tr_user_index s (user, i)) s [start_index..<min end_limit total_count] [])))"

definition tr_pause :: "address \<Rightarrow> 'w tr_state \<Rightarrow> pausable_error fault + 'w tr_state" where
  "tr_pause admin s =
     (case tr_require_admin admin s of
        Inl (Err _) \<Rightarrow> Inl (Err PE_NotAuthorized)
      | Inl (Trap t) \<Rightarrow> Inl (Trap t)
      | Inr _ \<Rightarrow> Inr (publish [VSym ''Pausable'', VSym ''pause''] [] (s\<lparr>tr_paused := Some True\<rparr>)))"

definition tr_unpause :: "address \<Rightarrow> 'w tr_state \<Rightarrow> pausable_error fault + 'w tr_state" where
  "tr_unpause admin s =
     (case tr_require_admin admin s of
        Inl (Err _) \<Rightarrow> Inl (Err PE_NotAuthorized)
      | Inl (Trap t) \<Rightarrow> Inl (Trap t)
      | Inr _ \<Rightarrow> Inr (publish [VSym ''Pausable'', VSym ''unpause''] [] (s\<lparr>tr_paused := Some False\<rparr>)))"

section \<open>All entry points\<close>

datatype tr_call =
    TR_Init address address
  | TR_SetOperator address address
  | TR_Record address tr_input
  | TR_Pause address
  | TR_Unpause address

datatype tr_any_error = TR_Contract tr_error | TR_Pausable pausable_error

fun tr_exec ::
  "host_crypto \<Rightarrow> (address \<Rightarrow> string) \<Rightarrow> env \<Rightarrow> tr_call \<Rightarrow> 'w tr_state \<Rightarrow> tr_any_error fault + 'w tr_state" where
  "tr_exec hc at e (TR_Init a p) s = map_err TR_Contract (tr_init a p s)"
| "tr_exec hc at e (TR_SetOperator a p) s = map_err TR_Contract (tr_set_operator e a p s)"
| "tr_exec hc at e (TR_Record p x) s = map_err TR_Contract (drop_result (record_receipt hc at e p x s))"
| "tr_exec hc at e (TR_Pause a) s = map_err TR_Pausable (tr_pause a s)"
| "tr_exec hc at e (TR_Unpause a) s = map_err TR_Pausable (tr_unpause a s)"

end
