(* ===== verification/TransactionReceiptProps.thy ===== *)
theory TransactionReceiptProps
  imports TransactionReceipt
begin

text \<open>
  Properties of the transaction receipts: a recorded receipt is never changed and its reference never
  recorded again, the indices by deal and by user are the ledger of the recorded receipts in
  order, the identifier determines the normalised reference, and the pause switch is open to
  everybody.
\<close>

section \<open>Indices\<close>

text \<open>
  An index files identifiers under a key and a position; \<open>entries\<close> are the receipts filed under a key.
\<close>

definition index_ok :: "('k \<times> nat \<rightharpoonup> bytes32) \<Rightarrow> ('k \<rightharpoonup> nat) \<Rightarrow> (bytes32 \<rightharpoonup> tx_receipt) \<Rightarrow> bool" where
  "index_ok idx cnt recs \<longleftrightarrow>
     (\<forall>k i. i < unwrap_or (cnt k) 0 \<longrightarrow> (\<exists>t. idx (k, i) = Some t \<and> recs t \<noteq> None))"

definition entries ::
  "('k \<times> nat \<rightharpoonup> bytes32) \<Rightarrow> ('k \<rightharpoonup> nat) \<Rightarrow> (bytes32 \<rightharpoonup> tx_receipt) \<Rightarrow> 'k \<Rightarrow> tx_receipt list" where
  "entries idx cnt recs k = map (\<lambda>i. the (recs (the (idx (k, i))))) [0..<unwrap_or (cnt k) 0]"

lemma index_okD:
  assumes "index_ok idx cnt recs" and "i < unwrap_or (cnt k) 0"
  obtains t r where "idx (k, i) = Some t" "recs t = Some r"
  using assms unfolding index_ok_def by blast

lemma entries_push:
  assumes "index_ok idx cnt recs" and "recs t = Some r"
  shows "index_ok (idx((k, unwrap_or (cnt k) 0) \<mapsto> t)) (cnt(k \<mapsto> unwrap_or (cnt k) 0 + 1)) recs"
    and "entries (idx((k, unwrap_or (cnt k) 0) \<mapsto> t)) (cnt(k \<mapsto> unwrap_or (cnt k) 0 + 1)) recs k' =
      entries idx cnt recs k' @ (if k' = k then [r] else [])"
  using assms by (auto simp: index_ok_def entries_def less_Suc_eq)

lemma entries_new_receipt:
  assumes "index_ok idx cnt recs" and "recs t = None"
  shows "index_ok idx cnt (recs(t \<mapsto> r))" and "entries idx cnt (recs(t \<mapsto> r)) = entries idx cnt recs"
proof -
  show "index_ok idx cnt (recs(t \<mapsto> r))" using assms by (force simp: index_ok_def)
  have "the ((recs(t \<mapsto> r)) (the (idx (k, i)))) = the (recs (the (idx (k, i))))"
    if i: "i < unwrap_or (cnt k) 0" for k i
    using index_okD [OF assms(1) i] assms(2) by (metis fun_upd_apply option.sel option.simps(3))
  then show "entries idx cnt (recs(t \<mapsto> r)) = entries idx cnt recs"
    by (auto simp: entries_def)
qed

lemma index_loop_entries:
  assumes "index_ok idx cnt (tr_receipts s)" and "\<forall>i \<in> set is. i < unwrap_or (cnt k) 0"
  shows "index_loop (\<lambda>i. idx (k, i)) s is results =
    results @ map (\<lambda>i. the (tr_receipts s (the (idx (k, i))))) is"
  using assms(2)
proof (induction "is" arbitrary: results)
  case (Cons i js)
  then have "i < unwrap_or (cnt k) 0" by simp
  with index_okD [OF assms(1)] obtain t r where "idx (k, i) = Some t" "tr_receipts s t = Some r" by blast
  with Cons show ?case by simp
qed simp

lemma page_of_entries:
  assumes "index_ok idx cnt (tr_receipts s)"
  shows "index_loop (\<lambda>i. idx (k, i)) s [start..<min (start + limit) (unwrap_or (cnt k) 0)] [] =
    take limit (drop start (entries idx cnt (tr_receipts s) k))"
proof -
  let ?n = "unwrap_or (cnt k) 0"
  have slice: "[start..<min (start + limit) ?n] = take limit (drop start [0..<?n])"
    by (simp add: drop_upt take_upt min_def)
  have "index_loop (\<lambda>i. idx (k, i)) s [start..<min (start + limit) ?n] [] =
      map (\<lambda>i. the (tr_receipts s (the (idx (k, i))))) [start..<min (start + limit) ?n]"
    by (simp add: index_loop_entries [OF assms, of _ k])
  also have "\<dots> = map (\<lambda>i. the (tr_receipts s (the (idx (k, i))))) (take limit (drop start [0..<?n]))"
    by (simp only: slice)
  finally show ?thesis by (simp add: entries_def take_map drop_map)
qed

section \<open>The ledger\<close>

text \<open>
  The abstract ledger: for every deal and for every user the receipts recorded, in order.  Recording
  appends to the ledger of the deal, of the sender and of the recipient.
\<close>

type_synonym tr_ledger = "(string \<Rightarrow> tx_receipt list) \<times> (address \<Rightarrow> tx_receipt list)"

definition ledger_append :: "tx_receipt \<Rightarrow> tr_ledger \<Rightarrow> tr_ledger" where
  "ledger_append r L =
     (\<lambda>d. fst L d @ (if d = tr_deal_id r then [r] else []),
      \<lambda>u. snd L u @ (if tr_from r = Some u then [r] else []) @ (if tr_to r = Some u then [r] else []))"

definition ledger_step :: "host_crypto \<Rightarrow> env \<Rightarrow> tr_call \<Rightarrow> tr_ledger \<Rightarrow> tr_ledger option" where
  "ledger_step hc e c L =
     (case c of
        TR_Record p x \<Rightarrow>
          (case tr_generate_tx_id hc (ti_external_ref_source x) (ti_external_ref x) of
             Inl _ \<Rightarrow> None
           | Inr t \<Rightarrow> Some (ledger_append (make_receipt e t x) L))
      | _ \<Rightarrow> Some L)"

definition tr_ledger_of :: "'w tr_state \<Rightarrow> tr_ledger" where
  "tr_ledger_of s = (entries (tr_deal_index s) (tr_deal_count s) (tr_receipts s),
                  entries (tr_user_index s) (tr_user_count s) (tr_receipts s))"

definition tr_inv :: "'w tr_state \<Rightarrow> bool" where
  "tr_inv s \<longleftrightarrow> index_ok (tr_deal_index s) (tr_deal_count s) (tr_receipts s) \<and>
     index_ok (tr_user_index s) (tr_user_count s) (tr_receipts s)"

lemma index_deal_ledger:
  assumes "index_deal d t s = Inr s'" and "tr_inv s" and "tr_receipts s t = Some r"
  shows "tr_inv s' \<and> tr_receipts s' = tr_receipts s \<and>
    tr_ledger_of s' = (\<lambda>d'. fst (tr_ledger_of s) d' @ (if d' = d then [r] else []), snd (tr_ledger_of s))"
proof -
  from assms(1) have s': "s' = s\<lparr>tr_deal_index := (tr_deal_index s)((d, unwrap_or (tr_deal_count s d) 0) \<mapsto> t),
      tr_deal_count := (tr_deal_count s)(d \<mapsto> unwrap_or (tr_deal_count s d) 0 + 1)\<rparr>"
    by (auto simp: index_deal_def outcome_simps Let_def)
  from assms(2) have ok: "index_ok (tr_deal_index s) (tr_deal_count s) (tr_receipts s)" by (simp add: tr_inv_def)
  from entries_push [OF ok assms(3), of d] assms(2) show ?thesis
    by (simp add: s' tr_inv_def tr_ledger_of_def fun_eq_iff)
qed

lemma index_user_ledger:
  assumes "index_user u t s = Inr s'" and "tr_inv s" and "tr_receipts s t = Some r"
  shows "tr_inv s' \<and> tr_receipts s' = tr_receipts s \<and>
    tr_ledger_of s' = (fst (tr_ledger_of s), \<lambda>v. snd (tr_ledger_of s) v @ (if u = Some v then [r] else []))"
proof (cases u)
  case None
  with assms show ?thesis by (simp add: index_user_def)
next
  case (Some a)
  with assms(1) have s': "s' = s\<lparr>tr_user_index := (tr_user_index s)((a, unwrap_or (tr_user_count s a) 0) \<mapsto> t),
      tr_user_count := (tr_user_count s)(a \<mapsto> unwrap_or (tr_user_count s a) 0 + 1)\<rparr>"
    by (auto simp: index_user_def outcome_simps Let_def)
  from assms(2) have ok: "index_ok (tr_user_index s) (tr_user_count s) (tr_receipts s)" by (simp add: tr_inv_def)
  from entries_push [OF ok assms(3), of a] assms(2) Some show ?thesis
    by (auto simp: s' tr_inv_def tr_ledger_of_def fun_eq_iff)
qed

lemma publish_ledger [simp]:
  "tr_inv (publish topics data s) = tr_inv s" "tr_ledger_of (publish topics data s) = tr_ledger_of s"
  "tr_receipts (publish topics data s) = tr_receipts s"
  by (simp_all add: host_simps tr_inv_def tr_ledger_of_def)

text \<open>What a successful recording does.\<close>

lemma record_receipt_Inr:
  assumes "record_receipt hc at e p x s = Inr (t, s')"
  shows "tr_generate_tx_id hc (ti_external_ref_source x) (ti_external_ref x) = (Inr t :: tr_error fault + bytes32) \<and>
    authorized e p \<and> tr_operator s = Some p \<and> \<not> tr_is_paused s \<and> 0 < ti_amount_usdc x \<and> tr_receipts s t = None"
    and "\<exists>s1 s2 s3. index_deal (ti_deal_id x) t (s\<lparr>tr_receipts := (tr_receipts s)(t \<mapsto> make_receipt e t x)\<rparr>) = Inr s1
      \<and> index_user (ti_from x) t s1 = Inr s2 \<and> index_user (ti_to x) t s2 = Inr s3
      \<and> s' = publish [VSym ''transaction_receipt'', VSym ''receipt_recorded'', VBytes t]
          [receipt_val (make_receipt e t x)] s3"
  using assms
  by (auto simp: record_receipt_def tr_require_operator_def tr_require_not_paused_def make_receipt_def Let_def
      outcome_simps fail_if_Inr_iff split: option.splits)

lemma record_receipt_ledger:
  assumes "record_receipt hc at e p x s = Inr (t, s')" and "tr_inv s"
  shows "tr_inv s' \<and> tr_receipts s' = (tr_receipts s)(t \<mapsto> make_receipt e t x) \<and>
    tr_ledger_of s' = ledger_append (make_receipt e t x) (tr_ledger_of s)"
proof -
  let ?r = "make_receipt e t x"
  let ?s0 = "s\<lparr>tr_receipts := (tr_receipts s)(t \<mapsto> ?r)\<rparr>"
  note facts = record_receipt_Inr [OF assms(1)]
  from facts(2) obtain s1 s2 s3 where steps: "index_deal (ti_deal_id x) t ?s0 = Inr s1"
    "index_user (ti_from x) t s1 = Inr s2" "index_user (ti_to x) t s2 = Inr s3"
    and s': "s' = publish [VSym ''transaction_receipt'', VSym ''receipt_recorded'', VBytes t] [receipt_val ?r] s3"
    by blast
  have start: "tr_inv ?s0" "tr_ledger_of ?s0 = tr_ledger_of s" "tr_receipts ?s0 t = Some ?r"
    using assms(2) facts(1) by (simp_all add: tr_inv_def tr_ledger_of_def entries_new_receipt)
  note one = index_deal_ledger [OF steps(1) start(1,3)]
  then have one': "tr_inv s1" "tr_receipts s1 t = Some ?r" using start(3) by simp_all
  note two = index_user_ledger [OF steps(2) one']
  then have two': "tr_inv s2" "tr_receipts s2 t = Some ?r" using one'(2) by simp_all
  note three = index_user_ledger [OF steps(3) two']
  from one two three start(2) have "tr_inv s3 \<and> tr_receipts s3 = (tr_receipts s)(t \<mapsto> ?r) \<and>
      tr_ledger_of s3 = ledger_append ?r (tr_ledger_of s)"
    by (simp add: ledger_append_def fun_eq_iff) (simp add: make_receipt_def)
  then show ?thesis by (simp add: s')
qed

lemma tr_exec_keeps:
  assumes "tr_exec hc at e c s = Inr s'" and "\<forall>p x. c \<noteq> TR_Record p x"
  shows "tr_receipts s' = tr_receipts s" and "tr_ledger_of s' = tr_ledger_of s" and "tr_inv s' = tr_inv s"
  using assms
  by (cases c; auto simp: tr_init_def tr_set_operator_def tr_pause_def tr_unpause_def tr_ledger_of_def tr_inv_def
      outcome_simps host_simps fail_if_Inr_iff split: option.splits sum.splits fault.splits)+

lemma tr_sim:
  assumes "tr_inv s" and run: "tr_exec hc at e c s = Inr s'"
  shows "ledger_step hc e c (tr_ledger_of s) = Some (tr_ledger_of s') \<and> tr_inv s'"
proof (cases "\<exists>p x. c = TR_Record p x")
  case True
  with run obtain p x t where c: "c = TR_Record p x" and rec: "record_receipt hc at e p x s = Inr (t, s')"
    by (auto simp: outcome_simps)
  from record_receipt_Inr(1) [OF rec] record_receipt_ledger [OF rec assms(1)] c show ?thesis
    by (simp add: ledger_step_def)
next
  case False
  with tr_exec_keeps [OF run] assms(1) show ?thesis by (cases c) (auto simp: ledger_step_def)
qed

interpretation tr_ledger: refinement "tr_exec hc at" "ledger_step hc" tr_ledger_of tr_inv
  for hc at
  by unfold_locales (use tr_sim in blast)+

definition tr_fresh :: "'w \<Rightarrow> 'w tr_state" where
  "tr_fresh w = \<lparr>events = [], world = w, tr_version = None, tr_admin = None, tr_operator = None,
     tr_paused = None, tr_receipts = Map.empty, tr_deal_index = Map.empty, tr_deal_count = Map.empty,
     tr_user_index = Map.empty, tr_user_count = Map.empty\<rparr>"

lemma tr_fresh_inv: "tr_inv (tr_fresh w)" "tr_ledger_of (tr_fresh w) = (\<lambda>_. [], \<lambda>_. [])"
  by (simp_all add: tr_inv_def index_ok_def tr_ledger_of_def entries_def tr_fresh_def fun_eq_iff)

lemma tr_run_inv: "tr_inv s \<Longrightarrow> tr_inv (run_calls (tr_exec hc at) cs s)"
proof (induction cs arbitrary: s)
  case (Cons x cs)
  then have "tr_inv (apply_call (tr_exec hc at) x s)"
    by (cases x; cases rule: apply_call_cases [of "tr_exec hc at" x s]) (use tr_sim in fastforce)+
  with Cons.IH show ?case by simp
qed simp

section \<open>Immutability\<close>

text \<open>Receipts only get added.\<close>

definition holds_receipt :: "bytes32 \<Rightarrow> tx_receipt \<Rightarrow> 'w tr_state \<Rightarrow> bool" where
  "holds_receipt t r s \<longleftrightarrow> tr_receipts s t = Some r"

lemma index_deal_receipts: "index_deal d t s = Inr s' \<Longrightarrow> tr_receipts s' = tr_receipts s"
  by (auto simp: index_deal_def outcome_simps Let_def)

lemma index_user_receipts: "index_user u t s = Inr s' \<Longrightarrow> tr_receipts s' = tr_receipts s"
  by (auto simp: index_user_def outcome_simps Let_def split: option.splits)

lemma record_receipt_receipts:
  assumes "record_receipt hc at e p x s = Inr (t, s')"
  shows "tr_receipts s' = (tr_receipts s)(t \<mapsto> make_receipt e t x)"
proof -
  from record_receipt_Inr(2) [OF assms] obtain s1 s2 s3
    where "index_deal (ti_deal_id x) t (s\<lparr>tr_receipts := (tr_receipts s)(t \<mapsto> make_receipt e t x)\<rparr>) = Inr s1"
      "index_user (ti_from x) t s1 = Inr s2" "index_user (ti_to x) t s2 = Inr s3"
      "tr_receipts s' = tr_receipts s3" by (metis publish_ledger(3))
  from index_deal_receipts [OF this(1)] index_user_receipts [OF this(2)] index_user_receipts [OF this(3)] this(4)
  show ?thesis by simp
qed

interpretation tr_kept: invariant_machine "tr_exec hc at" any_call no_others "holds_receipt t r"
  for hc at t r
proof
  fix s s' :: "'c tr_state" and e c
  assume held: "holds_receipt t r s" and run: "tr_exec hc at e c s = Inr s'"
  show "holds_receipt t r s'"
  proof (cases "\<exists>p x. c = TR_Record p x")
    case True
    with run obtain p x t' where rec: "record_receipt hc at e p x s = Inr (t', s')" by (auto simp: outcome_simps)
    with record_receipt_Inr(1) [OF rec] record_receipt_receipts [OF rec] held show ?thesis
      by (auto simp: holds_receipt_def)
  next
    case False
    with tr_exec_keeps(1) [OF run] held show ?thesis by (simp add: holds_receipt_def)
  qed
qed (simp add: no_others_def)

text \<open>The identifier's preimage determines the canonical source and the trimmed reference.\<close>

lemma source_loop_Inr: "source_loop b xs = Inr y \<Longrightarrow> y \<in> set xs"
  by (induction xs) (auto split: if_splits)

lemma pipe_loop_Inr: "pipe_loop bs = Inr u \<longleftrightarrow> 124 \<notin> set bs"
  by (induction bs) auto

lemma string_bytes_append: "string_bytes (a @ b) = string_bytes a @ string_bytes b"
  by (simp add: string_bytes_def)

lemma byte_of_char: "unat (word_of_nat (of_char c) :: 8 word) = of_char c"
  by (simp add: unat_of_nat)

lemma string_bytes_inj: "string_bytes s = string_bytes s' \<Longrightarrow> s = s'"
  unfolding string_bytes_def by (rule injD [OF inj_mapI]) (auto intro!: injI, metis byte_of_char of_char_eq_iff)

lemma pipe_free: "124 \<in> set (string_bytes s) \<longleftrightarrow> CHR ''|'' \<in> set s"
proof -
  have "(word_of_nat (of_char c) = (124 :: 8 word)) = (c = CHR ''|'')" for c
  proof
    assume "word_of_nat (of_char c) = (124 :: 8 word)"
    then have "unat (word_of_nat (of_char c) :: 8 word) = 124" by simp
    then have "of_char c = (124 :: nat)" by (simp only: byte_of_char)
    then have "of_char c = (of_char (CHR ''|'') :: nat)" by simp
    then show "c = CHR ''|''" by (simp only: of_char_eq_iff)
  qed simp
  then show ?thesis by (force simp: string_bytes_def)
qed

lemma sources_pipe_free: "s \<in> set ALLOWED_SOURCES \<Longrightarrow> CHR ''|'' \<notin> set s"
  by (auto simp: ALLOWED_SOURCES_def)

lemma split_at_pipe:
  assumes "xs @ 124 # ys = xs' @ (124 :: 8 word) # ys'" and "124 \<notin> set xs" and "124 \<notin> set xs'"
  shows "xs = xs' \<and> ys = ys'"
proof -
  have "takeWhile (\<lambda>b. b \<noteq> 124) (xs @ 124 # ys) = xs" "takeWhile (\<lambda>b. b \<noteq> 124) (xs' @ 124 # ys') = xs'"
    using assms(2,3) by (subst takeWhile_append2; force)+
  with assms(1) show ?thesis by auto
qed

lemma tx_id_payload_inj:
  assumes "s \<in> set ALLOWED_SOURCES" and "s' \<in> set ALLOWED_SOURCES"
    and "tx_id_payload s r = tx_id_payload s' r'"
  shows "s = s' \<and> r = r'"
proof -
  obtain tail where tail: "string_bytes ''|ref='' = 124 # tail" by (simp add: string_bytes_def)
  with assms(3) have "string_bytes s @ 124 # (tail @ r) = string_bytes s' @ 124 # (tail @ r')"
    by (simp add: tx_id_payload_def)
  from split_at_pipe [OF this] assms(1,2) have "string_bytes s = string_bytes s'" "tail @ r = tail @ r'"
    by (simp_all add: pipe_free sources_pipe_free)
  then show ?thesis by (auto dest: string_bytes_inj)
qed

lemma normalized_sources:
  "validate_and_normalize_ref hc src rf = Inr (s, r) \<Longrightarrow> s \<in> set ALLOWED_SOURCES"
  by (auto simp: validate_and_normalize_ref_def normalize_source_def symbol_ascii_def outcome_simps
      fail_if_Inr_iff Let_def dest: source_loop_Inr)

text \<open>
  Two references that share an identifier are the same after normalisation, or their two canonical
  strings are different strings with the same SHA-256 digest.
\<close>

lemma same_tx_id:
  assumes "validate_and_normalize_ref hc src rf = Inr (s, r)" and "validate_and_normalize_ref hc src' rf' = Inr (s', r')"
    and "sha256 hc (tx_id_payload s r) = sha256 hc (tx_id_payload s' r')"
  shows "s = s' \<and> r = r' \<or> tx_id_payload s r \<noteq> tx_id_payload s' r'"
  using tx_id_payload_inj [OF normalized_sources [OF assms(1)] normalized_sources [OF assms(2)]] by blast

text \<open>
  The metadata payload is ambiguous: values are not escaped, so a deal identifier that contains
  \<open>|listing_id=\<close> gives the payload, and so the hash, of another receipt with that listing.  The
  hypothesis is the XDR format of strings.
\<close>

definition xdr_strings :: "host_crypto \<Rightarrow> bool" where
  "xdr_strings hc \<longleftrightarrow> (\<forall>s. string_raw_bytes hc s = string_bytes s)"

lemma metadata_payload_ambiguous:
  assumes "xdr_strings hc" and l: "ti_listing_id x = Some l"
    and y: "y = x\<lparr>ti_deal_id := ti_deal_id x @ ''|listing_id='' @ l, ti_listing_id := None\<rparr>"
  shows "derive_metadata_hash hc at y = derive_metadata_hash hc at x"
proof -
  have deal: "ti_deal_id y = ti_deal_id x @ ''|listing_id='' @ l" and listing: "ti_listing_id y = None"
    and same: "ti_external_ref_source y = ti_external_ref_source x" "ti_external_ref y = ti_external_ref x"
      "ti_tx_type y = ti_tx_type x" "ti_amount_usdc y = ti_amount_usdc x" "ti_token y = ti_token x"
      "ti_from y = ti_from x" "ti_to y = ti_to x" "ti_amount_ngn y = ti_amount_ngn x" "ti_fx_rate y = ti_fx_rate x"
      "ti_fx_provider y = ti_fx_provider x" by (simp_all add: y)
  have "canonical_metadata_payload_v1 hc at y = canonical_metadata_payload_v1 hc at x"
    by (simp only: canonical_metadata_payload_v1_def same deal listing l append_opt_def option.case Let_def
        string_bytes_append append_assoc assms(1) [unfolded xdr_strings_def, rule_format])
  then show ?thesis by (simp add: derive_metadata_hash_def)
qed

section \<open>Properties\<close>

text \<open>C31. Receipts are write-once: when \<open>record_receipt\<close> has returned \<open>t\<close>, in every later state \<open>get_receipt\<close>
  of \<open>t\<close> returns the receipt with exactly the fields of the input and the time of recording, and no
  input whose reference normalises to the same source and reference is ever recorded again,
  whoever calls.\<close>

theorem receipts_write_once:
  assumes "record_receipt hc at e p x s = Inr (t, s1)" and "reach (tr_exec hc at) any_call no_others s1 s2"
    and "validate_and_normalize_ref hc (ti_external_ref_source y) (ti_external_ref y) =
      (validate_and_normalize_ref hc (ti_external_ref_source x) (ti_external_ref x) :: tr_error fault + string \<times> bytes)"
  shows "get_receipt t s2 = Some (make_receipt e t x) \<and> record_receipt hc at e' p' y s2 \<noteq> Inr z"
proof -
  have "holds_receipt t (make_receipt e t x) s1"
    using record_receipt_receipts [OF assms(1)] by (simp add: holds_receipt_def)
  from tr_kept.reach_inv [OF assms(2) this] have held: "tr_receipts s2 t = Some (make_receipt e t x)"
    by (simp add: holds_receipt_def)
  have "tr_generate_tx_id hc (ti_external_ref_source y) (ti_external_ref y) = (Inr t :: tr_error fault + bytes32)"
    using record_receipt_Inr(1) [OF assms(1)] assms(3) by (simp add: tr_generate_tx_id_def)
  with record_receipt_Inr(1) [of hc at e' p' y s2] held have "record_receipt hc at e' p' y s2 \<noteq> Inr (t', s')" for t' s'
    by fastforce
  with held show ?thesis by (cases z) (simp add: get_receipt_def)
qed

text \<open>C32. The contract refines a ledger: after every sequence of calls, the indices are those of a ledger to
  which each accepted recording has been appended, under its deal, its sender and its recipient,
  and a page of a listing is the slice of that ledger the cursor and the limit name (a receipt with
  the same sender and recipient stands twice in that user's list).\<close>

theorem listings_refine_ledger:
  assumes "s = run_calls (tr_exec hc at) cs (tr_fresh w)" and "start + limit < 2 ^ 32"
  shows "\<exists>L. spec_run (ledger_step hc) (accepted (tr_exec hc at) cs (tr_fresh w)) (\<lambda>_. [], \<lambda>_. []) = Some L
    \<and> tr_list_receipts_by_deal d limit (Some start) s = Inr (take limit (drop start (fst L d)))
    \<and> list_receipts_by_user u limit (Some start) s = Inr (take limit (drop start (snd L u)))"
proof (intro exI [of _ "tr_ledger_of s"] conjI)
  show "spec_run (ledger_step hc) (accepted (tr_exec hc at) cs (tr_fresh w)) (\<lambda>_. [], \<lambda>_. []) = Some (tr_ledger_of s)"
    using tr_ledger.run_refines [OF tr_fresh_inv(1) [of w], where hc = hc and at = at and cs = cs] assms(1)
    by (simp add: tr_fresh_inv(2))
  have "tr_inv s" unfolding assms(1) by (rule tr_run_inv [OF tr_fresh_inv(1)])
  then show "tr_list_receipts_by_deal d limit (Some start) s = Inr (take limit (drop start (fst (tr_ledger_of s) d)))"
    "list_receipts_by_user u limit (Some start) s = Inr (take limit (drop start (snd (tr_ledger_of s) u)))"
    using assms(2) by (simp_all add: tr_list_receipts_by_deal_def list_receipts_by_user_def ck_u32_def Let_def
        page_of_entries tr_inv_def tr_ledger_of_def)
qed

text \<open>The pause switch is open to everybody: an invocation that nobody has authorised, naming the stored
  admin, pauses an initialised contract, and from then on no operator can record a receipt.\<close>

theorem anybody_can_pause:
  assumes "tr_admin s = Some a" and "\<forall>b. \<not> authorized e b"
  shows "\<exists>s'. tr_exec hc at e (TR_Pause a) s = Inr s' \<and> tr_is_paused s' \<and>
    (\<forall>e' p x z. record_receipt hc at e' p x s' \<noteq> Inr z)"
proof (intro exI conjI allI)
  let ?s' = "publish [VSym ''Pausable'', VSym ''pause''] [] (s\<lparr>tr_paused := Some True\<rparr>)"
  show "tr_exec hc at e (TR_Pause a) s = Inr ?s'"
    using assms(1) by (simp add: tr_pause_def tr_require_admin_def)
  show paused: "tr_is_paused ?s'" by (simp add: tr_is_paused_def host_simps)
  show "record_receipt hc at e' p x ?s' \<noteq> Inr z" for e' p x z
    using record_receipt_Inr(1) [of hc at e' p x ?s' "fst z" "snd z"] paused by auto
qed

section \<open>Witnesses\<close>

abbreviation tr_at :: "nat \<Rightarrow> nat \<Rightarrow> env" where
  "tr_at t who \<equiv> call_at t (Address 9) (Address who)"

text \<open>A host whose XDR form of a string has eight leading bytes, and whose digest is the length.\<close>

definition tr_crypto :: host_crypto where
  "tr_crypto = \<lparr>to_xdr = (\<lambda>v. case v of VStr s \<Rightarrow> replicate 8 0 @ string_bytes s | _ \<Rightarrow> []),
     sha256 = (\<lambda>b. word_of_nat (length b))\<rparr>"

definition tr_text :: "address \<Rightarrow> string" where
  "tr_text a = ''A''"

definition tr_sample_input :: tr_input where
  "tr_sample_input =
     \<lparr>ti_external_ref_source = ''stellar'', ti_external_ref = ''ab'', ti_tx_type = ''STAKE'', ti_amount_usdc = 100,
      ti_token = Address 7, ti_deal_id = ''D'', ti_listing_id = None, ti_from = Some (Address 4), ti_to = None,
      ti_amount_ngn = None, ti_fx_rate = None, ti_fx_provider = None, ti_metadata_hash = None\<rparr>"

definition tr_sample_calls :: "(env \<times> tr_call) list" where
  "tr_sample_calls = [(tr_at 1 1, TR_Init (Address 1) (Address 2))]"

definition tr_sample :: "unit tr_state" where
  "tr_sample = run_calls (tr_exec tr_crypto tr_text) tr_sample_calls (tr_fresh ())"

lemma tr_sample_facts:
  "tr_operator tr_sample = Some (Address 2) \<and> \<not> tr_is_paused tr_sample \<and> tr_admin tr_sample = Some (Address 1) \<and>
   tr_receipts tr_sample = Map.empty \<and> tr_deal_count tr_sample = Map.empty \<and> tr_user_count tr_sample = Map.empty"
  by (simp add: tr_sample_def tr_sample_calls_def apply_call_def tr_init_def tr_fresh_def tr_is_paused_def host_simps)

lemma tr_sample_source: "normalize_source ''stellar'' = Inr ''stellar''"
proof -
  have "map to_ascii_lowercase (string_bytes ''stellar'') = string_bytes ''stellar''"
    by (simp add: string_bytes_def to_ascii_lowercase_def)
  moreover have "string_bytes a = string_bytes b \<longleftrightarrow> a = b" for a b by (auto dest: string_bytes_inj)
  moreover have "length (string_bytes ''stellar'') = 7" by (simp add: string_bytes_def)
  ultimately show ?thesis by (simp add: normalize_source_def symbol_ascii_def ALLOWED_SOURCES_def Let_def)
qed

lemma tr_sample_trimmed: "trim_ascii_bytes tr_crypto ''ab'' = [97, 98]"
proof -
  have "string_raw_bytes tr_crypto ''ab'' = [97, 98]"
    by (simp add: string_raw_bytes_def tr_crypto_def string_bytes_def)
  then show ?thesis
    by (simp add: trim_ascii_bytes_def trim_start.simps [of "[97, 98]" 0] trim_end.simps [of "[97, 98]" 0 "Suc (Suc 0)"]
        is_ascii_ws_def Let_def)
qed

lemma tr_sample_normalized:
  "validate_and_normalize_ref tr_crypto ''stellar'' ''ab'' = Inr (''stellar'', [97, 98])"
  by (simp add: validate_and_normalize_ref_def tr_sample_source tr_sample_trimmed)

lemma tr_sample_run:
  "\<exists>t s1. record_receipt tr_crypto tr_text (tr_at 2 2) (Address 2) tr_sample_input tr_sample = Inr (t, s1)"
proof -
  have "validate_tx_type tr_crypto ''STAKE'' = Inr ()"
    by (simp add: validate_tx_type_def ALLOWED_TX_TYPES_def tr_crypto_def)
  with tr_sample_facts tr_sample_normalized show ?thesis
    by (simp add: record_receipt_def tr_require_operator_def tr_require_not_paused_def validate_external_ref_def
        tr_generate_tx_id_def check_metadata_def tr_sample_input_def make_receipt_def index_deal_def index_user_def
        ck_u32_def Let_def)
qed

lemma receipts_write_once_witness:
  "\<exists>t s1. record_receipt tr_crypto tr_text (tr_at 2 2) (Address 2) tr_sample_input tr_sample = Inr (t, s1) \<and>
    get_receipt t s1 = Some (make_receipt (tr_at 2 2) t tr_sample_input)"
  using tr_sample_run receipts_write_once [OF _ reach_start refl] by blast

definition tr_recorded_calls :: "(env \<times> tr_call) list" where
  "tr_recorded_calls = tr_sample_calls @ [(tr_at 2 2, TR_Record (Address 2) tr_sample_input)]"

definition tr_recorded :: "unit tr_state" where
  "tr_recorded = run_calls (tr_exec tr_crypto tr_text) tr_recorded_calls (tr_fresh ())"

lemma listings_refine_ledger_witness:
  "\<exists>L. spec_run (ledger_step tr_crypto) (accepted (tr_exec tr_crypto tr_text) tr_recorded_calls (tr_fresh ()))
      (\<lambda>_. [], \<lambda>_. []) = Some L \<and> tr_list_receipts_by_deal ''D'' 10 (Some 0) tr_recorded = Inr (take 10 (fst L ''D''))"
proof -
  have "0 + 10 < (2 ^ 32 :: nat)" by simp
  from listings_refine_ledger [OF tr_recorded_def this, of "''D''" "Address 4"] show ?thesis
    by (simp only: drop_0) blast
qed

lemma anybody_can_pause_witness:
  "\<exists>s'. tr_exec tr_crypto tr_text (tr_at 5 5\<lparr>authorized := (\<lambda>_. False)\<rparr>) (TR_Pause (Address 1)) tr_sample = Inr s' \<and>
    tr_is_paused s'"
  using anybody_can_pause [of tr_sample "Address 1" "tr_at 5 5\<lparr>authorized := (\<lambda>_. False)\<rparr>"] tr_sample_facts by force

end
