(* ===== verification/ContractAccess.thy ===== *)
theory ContractAccess
  imports AccessControl "HOL-Library.AList"
begin

text \<open>
  Role-based access control (\<open>contract_access/src/lib.rs\<close>): a permission matrix by role, roles assigned
  and revoked by the admin's proposal and the second approver's confirmation, and delegation of
  single permissions.  A \<open>Map\<close> is an association list without duplicate keys; where the code
  iterates over one, the order is the list's (the host orders the keys).
\<close>

section \<open>Roles and permissions\<close>

datatype role = RoleAdmin | RoleOperator | RoleUser | RoleAuditor

datatype permission =
    Initialize
  | PauseContract
  | UpgradeContract
  | AssignRole
  | RevokeRole
  | TransferAdmin
  | CreditFunds
  | DebitFunds
  | TransferFunds
  | Stake
  | Unstake
  | SetLockPeriod
  | ReadBalance
  | ReadAuditLog
  | DelegatePermission

fun role_code :: "role \<Rightarrow> nat" where
  "role_code RoleAdmin = 0"
| "role_code RoleOperator = 1"
| "role_code RoleUser = 2"
| "role_code RoleAuditor = 3"

fun permission_code :: "permission \<Rightarrow> nat" where
  "permission_code Initialize = 0"
| "permission_code PauseContract = 1"
| "permission_code UpgradeContract = 2"
| "permission_code AssignRole = 3"
| "permission_code RevokeRole = 4"
| "permission_code TransferAdmin = 5"
| "permission_code CreditFunds = 6"
| "permission_code DebitFunds = 7"
| "permission_code TransferFunds = 8"
| "permission_code Stake = 9"
| "permission_code Unstake = 10"
| "permission_code SetLockPeriod = 11"
| "permission_code ReadBalance = 12"
| "permission_code ReadAuditLog = 13"
| "permission_code DelegatePermission = 14"

record delegation_info =
  di_delegator :: address
  di_permission :: permission

datatype ca_error =
    CA_Unauthorized
  | CA_AwaitingApproval
  | CA_AlreadyInitialized
  | CA_CannotRevokeLastAdmin
  | CA_NoSecondApprover
  | CA_NoDelegationFound

record 'w ca_state = "'w host" +
  ca_admin :: "address option"
  ca_second :: "address option"
  ca_roles :: "(address \<times> role) list option"
  ca_proposals :: "(address \<times> nat) list option"
  ca_delegations :: "(address \<times> delegation_info) list option"

definition ca_get_admin :: "'w ca_state \<Rightarrow> ca_error fault + address" where
  "ca_get_admin s = expect (ca_admin s) ''admin not set''"

definition roles_map :: "'w ca_state \<Rightarrow> (address \<times> role) list" where
  "roles_map s = unwrap_or (ca_roles s) []"

definition put_roles :: "(address \<times> role) list \<Rightarrow> 'w ca_state \<Rightarrow> 'w ca_state" where
  "put_roles roles s = s\<lparr>ca_roles := Some roles\<rparr>"

definition proposals_map :: "'w ca_state \<Rightarrow> (address \<times> nat) list" where
  "proposals_map s = unwrap_or (ca_proposals s) []"

definition put_proposals :: "(address \<times> nat) list \<Rightarrow> 'w ca_state \<Rightarrow> 'w ca_state" where
  "put_proposals p s = s\<lparr>ca_proposals := Some p\<rparr>"

definition delegations_map :: "'w ca_state \<Rightarrow> (address \<times> delegation_info) list" where
  "delegations_map s = unwrap_or (ca_delegations s) []"

fun permission_matrix :: "role \<Rightarrow> permission list" where
  "permission_matrix RoleAdmin =
     [Initialize, PauseContract, UpgradeContract, AssignRole, RevokeRole, TransferAdmin, CreditFunds, DebitFunds,
      TransferFunds, Stake, Unstake, SetLockPeriod, ReadBalance, ReadAuditLog, DelegatePermission]"
| "permission_matrix RoleOperator =
     [CreditFunds, DebitFunds, TransferFunds, Stake, Unstake, ReadBalance, ReadAuditLog]"
| "permission_matrix RoleUser = [Stake, Unstake, ReadBalance]"
| "permission_matrix RoleAuditor = [ReadBalance, ReadAuditLog]"

definition role_has_permission :: "role \<Rightarrow> permission \<Rightarrow> bool" where
  "role_has_permission r p \<longleftrightarrow> p \<in> set (permission_matrix r)"

definition has_permission_internal :: "'w ca_state \<Rightarrow> address \<Rightarrow> permission \<Rightarrow> bool" where
  "has_permission_internal s addr permission =
     (case map_of (roles_map s) addr of
        Some r \<Rightarrow> if role_has_permission r permission then True else False
      | None \<Rightarrow> False)"

definition has_delegation :: "'w ca_state \<Rightarrow> address \<Rightarrow> permission \<Rightarrow> bool" where
  "has_delegation s delegatee p =
     (case map_of (delegations_map s) delegatee of
        Some info \<Rightarrow> if di_permission info = p then has_permission_internal s (di_delegator info) p else False
      | None \<Rightarrow> False)"

definition has_permission :: "'w ca_state \<Rightarrow> address \<Rightarrow> permission \<Rightarrow> bool" where
  "has_permission s addr permission =
     (if has_permission_internal s addr permission then True else has_delegation s addr permission)"

definition emit_audit :: "string \<Rightarrow> address \<Rightarrow> nat \<Rightarrow> 'w ca_state \<Rightarrow> 'w ca_state" where
  "emit_audit action subject detail s =
     publish [VSym ''access_control'', VSym action, VAddr subject] [VNat detail] s"

section \<open>Roles by two persons\<close>

definition ca_init :: "env \<Rightarrow> address \<Rightarrow> address \<Rightarrow> 'w ca_state \<Rightarrow> ca_error fault + 'w ca_state" where
  "ca_init e admin second_approver s =
     (if ca_admin s \<noteq> None then Inl (Err CA_AlreadyInitialized)
      else
      bindE (require_auth e admin) (\<lambda>_.
      let s = s\<lparr>ca_admin := Some admin, ca_second := Some second_approver\<rparr>;
          s = put_roles [(admin, RoleAdmin)] s
      in Inr (emit_audit ''init'' admin (role_code RoleAdmin) s)))"

definition propose_assign_role ::
  "env \<Rightarrow> address \<Rightarrow> address \<Rightarrow> role \<Rightarrow> 'w ca_state \<Rightarrow> ca_error fault + 'w ca_state" where
  "propose_assign_role e admin subject r s =
     bindE (require_auth e admin) (\<lambda>_.
     bindE (ca_get_admin s) (\<lambda>current_admin.
     if admin \<noteq> current_admin then Inl (Err CA_Unauthorized)
     else Inr (emit_audit ''propose_assign'' subject (role_code r)
            (put_proposals (AList.update subject (role_code r) (proposals_map s)) s))))"

text \<open>The code read back as a role: every other number is an auditor.\<close>

definition role_of_code :: "nat \<Rightarrow> role" where
  "role_of_code n = (if n = 0 then RoleAdmin else if n = 1 then RoleOperator else if n = 2 then RoleUser else RoleAuditor)"

definition require_second :: "env \<Rightarrow> address \<Rightarrow> 'w ca_state \<Rightarrow> ca_error fault + unit" where
  "require_second e approver s =
     bindE (require_auth e approver) (\<lambda>_.
     bindE (ok_or (ca_second s) CA_NoSecondApprover) (\<lambda>second.
     if approver \<noteq> second then Inl (Err CA_Unauthorized) else Inr ()))"

definition confirm_assign_role ::
  "env \<Rightarrow> address \<Rightarrow> address \<Rightarrow> 'w ca_state \<Rightarrow> ca_error fault + 'w ca_state" where
  "confirm_assign_role e approver subject s =
     bindE (require_second e approver s) (\<lambda>_.
     bindE (ok_or (map_of (proposals_map s) subject) CA_AwaitingApproval) (\<lambda>role_u32.
     let r = role_of_code role_u32;
         s = put_proposals (AList.delete subject (proposals_map s)) s;
         s = put_roles (AList.update subject r (roles_map s)) s
     in Inr (emit_audit ''assign_role'' subject (role_code r) s)))"

definition revoke_sentinel :: nat where
  "revoke_sentinel = 2 ^ 32 - 1"

definition propose_revoke_role ::
  "env \<Rightarrow> address \<Rightarrow> address \<Rightarrow> 'w ca_state \<Rightarrow> ca_error fault + 'w ca_state" where
  "propose_revoke_role e admin subject s =
     bindE (require_auth e admin) (\<lambda>_.
     bindE (ca_get_admin s) (\<lambda>current_admin.
     if admin \<noteq> current_admin then Inl (Err CA_Unauthorized)
     else
     let roles = roles_map s;
         admin_count = length (filter (\<lambda>(_, r). r = RoleAdmin) roles)
     in
     if map_of roles subject = Some RoleAdmin \<and> admin_count \<le> 1 then Inl (Err CA_CannotRevokeLastAdmin)
     else Inr (emit_audit ''propose_revoke'' subject 0
            (put_proposals (AList.update subject revoke_sentinel (proposals_map s)) s))))"

definition confirm_revoke_role ::
  "env \<Rightarrow> address \<Rightarrow> address \<Rightarrow> 'w ca_state \<Rightarrow> ca_error fault + 'w ca_state" where
  "confirm_revoke_role e approver subject s =
     bindE (require_second e approver s) (\<lambda>_.
     bindE (ok_or (map_of (proposals_map s) subject) CA_AwaitingApproval) (\<lambda>sentinel.
     if sentinel \<noteq> revoke_sentinel then Inl (Err CA_AwaitingApproval)
     else
     let s = put_proposals (AList.delete subject (proposals_map s)) s;
         s = put_roles (AList.delete subject (roles_map s)) s
     in Inr (emit_audit ''revoke_role'' subject 0 s)))"

section \<open>Delegation and checks\<close>

definition delegate_permission ::
  "env \<Rightarrow> address \<Rightarrow> address \<Rightarrow> permission \<Rightarrow> 'w ca_state \<Rightarrow> ca_error fault + 'w ca_state" where
  "delegate_permission e delegator delegatee p s =
     bindE (require_auth e delegator) (\<lambda>_.
     if \<not> has_permission s delegator p then Inl (Err CA_Unauthorized)
     else
     let delegations = AList.update delegatee \<lparr>di_delegator = delegator, di_permission = p\<rparr> (delegations_map s)
     in Inr (emit_audit ''delegate_perm'' delegatee (permission_code p) (s\<lparr>ca_delegations := Some delegations\<rparr>)))"

definition revoke_delegation ::
  "env \<Rightarrow> address \<Rightarrow> address \<Rightarrow> 'w ca_state \<Rightarrow> ca_error fault + 'w ca_state" where
  "revoke_delegation e caller delegatee s =
     bindE (require_auth e caller) (\<lambda>_.
     bindE (ok_or (map_of (delegations_map s) delegatee) CA_NoDelegationFound) (\<lambda>info.
     bindE (ca_get_admin s) (\<lambda>current_admin.
     if caller \<noteq> current_admin \<and> caller \<noteq> di_delegator info then Inl (Err CA_Unauthorized)
     else Inr (emit_audit ''revoke_delegation'' delegatee 0
            (s\<lparr>ca_delegations := Some (AList.delete delegatee (delegations_map s))\<rparr>)))))"

definition require_permission :: "env \<Rightarrow> address \<Rightarrow> permission \<Rightarrow> 'w ca_state \<Rightarrow> ca_error fault + unit" where
  "require_permission e caller p s =
     bindE (require_auth e caller) (\<lambda>_.
     if has_permission s caller p then Inr () else Inl (Err CA_Unauthorized))"

definition get_role :: "'w ca_state \<Rightarrow> address \<Rightarrow> role option" where
  "get_role s addr = map_of (roles_map s) addr"

definition get_delegation :: "'w ca_state \<Rightarrow> address \<Rightarrow> permission option" where
  "get_delegation s addr = map_option di_permission (map_of (delegations_map s) addr)"

definition list_roles :: "'w ca_state \<Rightarrow> (address \<times> role) list" where
  "list_roles s = roles_map s"

section \<open>All entry points\<close>

datatype ca_call =
    CA_Init address address
  | CA_ProposeAssign address address role
  | CA_ConfirmAssign address address
  | CA_ProposeRevoke address address
  | CA_ConfirmRevoke address address
  | CA_Delegate address address permission
  | CA_RevokeDelegation address address

fun ca_exec :: "env \<Rightarrow> ca_call \<Rightarrow> 'w ca_state \<Rightarrow> ca_error fault + 'w ca_state" where
  "ca_exec e (CA_Init a b) s = ca_init e a b s"
| "ca_exec e (CA_ProposeAssign a u r) s = propose_assign_role e a u r s"
| "ca_exec e (CA_ConfirmAssign a u) s = confirm_assign_role e a u s"
| "ca_exec e (CA_ProposeRevoke a u) s = propose_revoke_role e a u s"
| "ca_exec e (CA_ConfirmRevoke a u) s = confirm_revoke_role e a u s"
| "ca_exec e (CA_Delegate a u p) s = delegate_permission e a u p s"
| "ca_exec e (CA_RevokeDelegation a u) s = revoke_delegation e a u s"

definition ca_fresh :: "'w \<Rightarrow> 'w ca_state" where
  "ca_fresh w = \<lparr>events = [], world = w, ca_admin = None, ca_second = None, ca_roles = None,
     ca_proposals = None, ca_delegations = None\<rparr>"

lemmas ca_defs = ca_init_def propose_assign_role_def confirm_assign_role_def propose_revoke_role_def
  confirm_revoke_role_def delegate_permission_def revoke_delegation_def require_second_def ca_get_admin_def
  put_roles_def put_proposals_def emit_audit_def roles_map_def proposals_map_def delegations_map_def

end
