(* ===== verification/ContractAccessProps.thy ===== *)
theory ContractAccessProps
  imports ContractAccess
begin

text \<open>
  Properties of the role-based access control: every role that is held was proposed by the admin and
  confirmed by the second approver, and the guard of the last admin can be passed by.
\<close>

section \<open>Traces\<close>















lemma role_of_code_code [simp]: "role_of_code (role_code r) = r" "role_of_code revoke_sentinel = RoleAuditor"
  by (cases r) (simp_all add: role_of_code_def revoke_sentinel_def)

text \<open>
  The guard of the last admin looks at proposals of a revocation only: proposing another role for
  the last admin and confirming it leaves no address with the admin role.
\<close>

lemma last_admin_demoted:
  assumes "ca_admin s = Some a" and "ca_second s = Some b" and "roles_map s = [(a, RoleAdmin)]"
    and "authorized e a" and "authorized e' b"
  shows "\<exists>s1 s2. propose_assign_role e a a RoleUser s = Inr s1 \<and> confirm_assign_role e' b a s1 = Inr s2 \<and>
    RoleAdmin \<notin> snd ` set (roles_map s2)"
  using assms
  by (simp add: propose_assign_role_def confirm_assign_role_def require_second_def ca_get_admin_def put_roles_def
      put_proposals_def proposals_map_def roles_map_def emit_audit_def update_conv' host_simps role_of_code_def Let_def)

section \<open>Properties\<close>


section \<open>Witnesses\<close>





end
