(* ===== verification/RentSchedule.thy ===== *)
theory RentSchedule
  imports AccessControl
begin

text \<open>
  Rent schedules (\<open>rent_schedule/src/lib.rs\<close>): the instalments of a deal, payments towards them,
  overdue marks and waivers.  The contract has no error type: every refusal is a \<open>panic!\<close> or a
  failed \<open>expect\<close>.
\<close>

section \<open>State\<close>

datatype instalment_status = InstPending | InstPaid | InstOverdue | InstWaived

datatype waiver_reason = Hardship | DisputeResolved | AdminAdjustment | Promotional

fun waiver_code :: "waiver_reason \<Rightarrow> nat" where
  "waiver_code Hardship = 1"
| "waiver_code DisputeResolved = 2"
| "waiver_code AdminAdjustment = 3"
| "waiver_code Promotional = 4"

record instalment =
  si_number :: nat
  si_due_timestamp :: nat
  si_amount_due :: int
  si_amount_paid :: int
  si_status :: instalment_status
  si_paid_at :: "nat option"
  si_last_tx_id :: "bytes32 option"

record waiver_audit =
  wa_actor :: address
  wa_reason :: waiver_reason
  wa_amount_waived :: int
  wa_waived_at :: nat

record rs_config =
  rs_cfg_admin :: address
  rs_cfg_operator :: address

record 'w rs_state = "'w host" +
  rs_config :: "rs_config option"
  rs_schedules :: "string \<rightharpoonup> instalment list"
  rs_waivers :: "string \<times> nat \<rightharpoonup> waiver_audit"
  rs_paused :: "bool option"

text \<open>Every refusal is a trap.\<close>

type_synonym 'a outcome = "unit fault + 'a"

definition rs_panic :: "string \<Rightarrow> 'a outcome" where
  "rs_panic msg = Inl (Trap (PanicTrap msg))"

lemma panic_if_Inr_iff [outcome_simps]: "(if c then rs_panic msg else r) = Inr x \<longleftrightarrow> \<not> c \<and> r = Inr x"
  by (simp add: rs_panic_def)

definition rs_is_paused :: "'w rs_state \<Rightarrow> bool" where
  "rs_is_paused s = unwrap_or (rs_paused s) False"

definition rs_require_not_paused :: "'w rs_state \<Rightarrow> unit outcome" where
  "rs_require_not_paused s = (if rs_is_paused s then rs_panic ''ContractPaused'' else Inr ())"

definition inst_remaining :: "instalment \<Rightarrow> int outcome" where
  "inst_remaining inst = ck_i128 (si_amount_due inst - si_amount_paid inst)"

definition assert_positive_payment :: "int \<Rightarrow> unit outcome" where
  "assert_positive_payment amount = (if amount \<le> 0 then rs_panic ''InvalidAmount'' else Inr ())"

text \<open>\<open>iter().position(..)\<close>: the first instalment with the number.\<close>

fun inst_position :: "nat \<Rightarrow> instalment list \<Rightarrow> nat option" where
  "inst_position n [] = None"
| "inst_position n (x # xs) = (if si_number x = n then Some 0 else map_option Suc (inst_position n xs))"

section \<open>Administration\<close>

definition rs_init :: "address \<Rightarrow> address \<Rightarrow> 'w rs_state \<Rightarrow> 'w rs_state outcome" where
  "rs_init admin operator s =
     (if rs_config s \<noteq> None then rs_panic ''AlreadyInitialized''
      else
      let cfg = \<lparr>rs_cfg_admin = admin, rs_cfg_operator = operator\<rparr>
      in Inr (publish [VSym ''rent_schedule'', VSym ''init''] []
             (s\<lparr>rs_config := Some cfg, rs_paused := Some False\<rparr>)))"

definition rs_set_paused :: "env \<Rightarrow> bool \<Rightarrow> string \<Rightarrow> address \<Rightarrow> 'w rs_state \<Rightarrow> 'w rs_state outcome" where
  "rs_set_paused e paused topic caller s =
     bindE (require_auth e caller) (\<lambda>_.
     bindE (expect (rs_config s) ''NotInitialized'') (\<lambda>cfg.
     if caller \<noteq> rs_cfg_admin cfg then rs_panic ''NotAuthorized''
     else Inr (publish [VSym ''rent_schedule'', VSym topic] [] (s\<lparr>rs_paused := Some paused\<rparr>))))"

definition rs_pause :: "env \<Rightarrow> address \<Rightarrow> 'w rs_state \<Rightarrow> 'w rs_state outcome" where
  "rs_pause e caller s = rs_set_paused e True ''paused'' caller s"

definition rs_unpause :: "env \<Rightarrow> address \<Rightarrow> 'w rs_state \<Rightarrow> 'w rs_state outcome" where
  "rs_unpause e caller s = rs_set_paused e False ''unpaused'' caller s"

definition require_manager :: "env \<Rightarrow> address \<Rightarrow> 'w rs_state \<Rightarrow> unit outcome" where
  "require_manager e caller s =
     bindE (expect (rs_config s) ''NotInitialized'') (\<lambda>cfg.
     if caller \<noteq> rs_cfg_admin cfg \<and> caller \<noteq> rs_cfg_operator cfg then rs_panic ''NotAuthorized''
     else require_auth e caller)"

text \<open>\<open>iter().sum()\<close>, which checks every partial sum.\<close>

fun sum_due :: "int \<Rightarrow> instalment list \<Rightarrow> int outcome" where
  "sum_due acc [] = Inr acc"
| "sum_due acc (i # is) = bindE (ck_i128 (acc + si_amount_due i)) (\<lambda>acc. sum_due acc is)"

definition create_schedule ::
  "env \<Rightarrow> address \<Rightarrow> string \<Rightarrow> instalment list \<Rightarrow> 'w rs_state \<Rightarrow> 'w rs_state outcome" where
  "create_schedule e caller deal_id instalments s =
     bindE (require_manager e caller s) (\<lambda>_.
     if rs_schedules s deal_id \<noteq> None then rs_panic ''ScheduleExists''
     else
     bindE (sum_due 0 instalments) (\<lambda>total_amount.
     Inr (publish [VSym ''rent_schedule'', VSym ''schedule_created'', VStr deal_id]
            [VNat (length instalments), VInt total_amount]
            (s\<lparr>rs_schedules := (rs_schedules s)(deal_id \<mapsto> instalments)\<rparr>))))"

section \<open>Instalments\<close>

text \<open>The instalment with a number and its position.\<close>

definition find_instalment :: "string \<Rightarrow> nat \<Rightarrow> 'w rs_state \<Rightarrow> (instalment list \<times> nat) outcome" where
  "find_instalment deal_id n s =
     bindE (expect (rs_schedules s deal_id) ''NoSchedule'') (\<lambda>schedule.
     bindE (expect (inst_position n schedule) ''NotFound'') (\<lambda>idx. Inr (schedule, idx)))"

definition put_schedule :: "string \<Rightarrow> instalment list \<Rightarrow> 'w rs_state \<Rightarrow> 'w rs_state" where
  "put_schedule deal_id schedule s = s\<lparr>rs_schedules := (rs_schedules s)(deal_id \<mapsto> schedule)\<rparr>"

definition rs_record_payment ::
  "env \<Rightarrow> address \<Rightarrow> string \<Rightarrow> nat \<Rightarrow> int \<Rightarrow> bytes32 \<Rightarrow> nat \<Rightarrow> 'w rs_state \<Rightarrow> 'w rs_state outcome" where
  "rs_record_payment e caller deal_id n amount tx_id paid_at s =
     bindE (rs_require_not_paused s) (\<lambda>_.
     bindE (expect (rs_config s) ''NotInitialized'') (\<lambda>cfg.
     bindE (require_auth e caller) (\<lambda>_.
     bindE (assert_positive_payment amount) (\<lambda>_.
     bindE (find_instalment deal_id n s) (\<lambda>(schedule, idx).
     let inst = schedule ! idx in
     if si_status inst = InstPaid \<or> si_status inst = InstWaived then rs_panic ''InvalidStatus''
     else
     bindE (inst_remaining inst) (\<lambda>remaining.
     if remaining < amount then rs_panic ''Overpayment''
     else
     bindE (ck_i128 (si_amount_paid inst + amount)) (\<lambda>paid.
     let inst = inst\<lparr>si_amount_paid := paid, si_last_tx_id := Some tx_id\<rparr> in
     if si_amount_paid inst = si_amount_due inst then
       let inst = inst\<lparr>si_status := InstPaid, si_paid_at := Some paid_at\<rparr> in
       Inr (publish [VSym ''rent_schedule'', VSym ''instalment_paid'', VStr deal_id]
              [VNat n, VInt (si_amount_due inst), VBytes tx_id] (put_schedule deal_id (schedule[idx := inst]) s))
     else
       bindE (inst_remaining inst) (\<lambda>rest.
       Inr (publish [VSym ''rent_schedule'', VSym ''partial_payment_recorded'', VStr deal_id]
              [VNat n, VInt amount, VInt (si_amount_paid inst), VInt rest, VBytes tx_id]
              (put_schedule deal_id (schedule[idx := inst]) s))))))))))"

definition mark_overdue ::
  "env \<Rightarrow> address \<Rightarrow> string \<Rightarrow> nat \<Rightarrow> 'w rs_state \<Rightarrow> 'w rs_state outcome" where
  "mark_overdue e caller deal_id n s =
     bindE (rs_require_not_paused s) (\<lambda>_.
     bindE (require_manager e caller s) (\<lambda>_.
     bindE (find_instalment deal_id n s) (\<lambda>(schedule, idx).
     let inst = schedule ! idx in
     if si_status inst = InstPaid \<or> si_status inst = InstWaived then rs_panic ''InvalidStatus''
     else
     bindE (inst_remaining inst) (\<lambda>remaining.
     if remaining \<le> 0 then rs_panic ''InvalidStatus''
     else
     Inr (publish [VSym ''rent_schedule'', VSym ''instalment_overdue'', VStr deal_id] [VNat n, VInt remaining]
            (put_schedule deal_id (schedule[idx := inst\<lparr>si_status := InstOverdue\<rparr>]) s))))))"

definition waive_instalment ::
  "env \<Rightarrow> address \<Rightarrow> string \<Rightarrow> nat \<Rightarrow> waiver_reason \<Rightarrow> 'w rs_state \<Rightarrow> 'w rs_state outcome" where
  "waive_instalment e caller deal_id n reason s =
     bindE (expect (rs_config s) ''NotInitialized'') (\<lambda>cfg.
     if caller \<noteq> rs_cfg_admin cfg then rs_panic ''NotAuthorized''
     else
     bindE (require_auth e caller) (\<lambda>_.
     bindE (find_instalment deal_id n s) (\<lambda>(schedule, idx).
     let inst = schedule ! idx in
     if si_status inst = InstWaived then rs_panic ''AlreadyWaived''
     else if si_status inst = InstPaid then rs_panic ''InvalidStatus''
     else
     bindE (inst_remaining inst) (\<lambda>amount_waived.
     let waived_at = timestamp e;
         s = put_schedule deal_id (schedule[idx := inst\<lparr>si_status := InstWaived\<rparr>]) s;
         audit = \<lparr>wa_actor = caller, wa_reason = reason, wa_amount_waived = amount_waived, wa_waived_at = waived_at\<rparr>;
         s = s\<lparr>rs_waivers := (rs_waivers s)((deal_id, n) \<mapsto> audit)\<rparr>
     in Inr (publish [VSym ''rent_schedule'', VSym ''instalment_waived'', VStr deal_id]
               [VNat n, VAddr caller, VNat (waiver_code reason), VInt amount_waived, VNat waived_at] s)))))"

definition get_waiver :: "string \<Rightarrow> nat \<Rightarrow> 'w rs_state \<Rightarrow> waiver_audit option" where
  "get_waiver deal_id n s = rs_waivers s (deal_id, n)"

definition get_instalment :: "string \<Rightarrow> nat \<Rightarrow> 'w rs_state \<Rightarrow> instalment outcome" where
  "get_instalment deal_id n s =
     bindE (expect (rs_schedules s deal_id) ''NoSchedule'') (\<lambda>schedule.
     expect (find (\<lambda>i. si_number i = n) schedule) ''unwrap on None'')"

definition instalment_remaining :: "string \<Rightarrow> nat \<Rightarrow> 'w rs_state \<Rightarrow> int outcome" where
  "instalment_remaining deal_id n s = bindE (get_instalment deal_id n s) inst_remaining"

text \<open>The inner loop of \<open>get_schedule\<close>: the entry at \<open>j\<close> sinks to its place.\<close>

fun sink_loop :: "instalment list \<Rightarrow> nat \<Rightarrow> instalment list" where
  "sink_loop xs 0 = xs"
| "sink_loop xs (Suc j) =
     (let a = xs ! j; b = xs ! Suc j in
      if si_number b < si_number a then sink_loop (xs[j := b, Suc j := a]) j else xs)"

fun sort_schedule :: "instalment list \<Rightarrow> nat list \<Rightarrow> instalment list" where
  "sort_schedule xs [] = xs"
| "sort_schedule xs (i # is) = sort_schedule (sink_loop xs i) is"

definition get_schedule :: "string \<Rightarrow> 'w rs_state \<Rightarrow> instalment list" where
  "get_schedule deal_id s =
     (let schedule = unwrap_or (rs_schedules s deal_id) [] in sort_schedule schedule [1..<length schedule])"

section \<open>All entry points\<close>

datatype rs_call =
    RS_Init address address
  | RS_Pause address
  | RS_Unpause address
  | RS_Create address string "instalment list"
  | RS_Record address string nat int bytes32 nat
  | RS_Overdue address string nat
  | RS_Waive address string nat waiver_reason

fun rs_exec :: "env \<Rightarrow> rs_call \<Rightarrow> 'w rs_state \<Rightarrow> 'w rs_state outcome" where
  "rs_exec e (RS_Init a p) s = rs_init a p s"
| "rs_exec e (RS_Pause a) s = rs_pause e a s"
| "rs_exec e (RS_Unpause a) s = rs_unpause e a s"
| "rs_exec e (RS_Create c d is) s = create_schedule e c d is s"
| "rs_exec e (RS_Record c d n x t p) s = rs_record_payment e c d n x t p s"
| "rs_exec e (RS_Overdue c d n) s = mark_overdue e c d n s"
| "rs_exec e (RS_Waive c d n r) s = waive_instalment e c d n r s"

definition rs_fresh :: "'w \<Rightarrow> 'w rs_state" where
  "rs_fresh w = \<lparr>events = [], world = w, rs_config = None, rs_schedules = Map.empty, rs_waivers = Map.empty,
     rs_paused = None\<rparr>"

lemmas rs_gate_defs = rs_panic_def rs_require_not_paused_def assert_positive_payment_def require_manager_def
  rs_set_paused_def inst_remaining_def

end
