(* ===== verification/RentScheduleProps.thy ===== *)
theory RentScheduleProps
  imports RentSchedule "HOL-Library.Multiset"
begin

text \<open>
  Properties of the rent schedules: what is recorded as paid is the sum of the accepted payments and
  never more than is due, a waiver settles exactly the rest, the schedule is listed sorted, and
  anybody can record payments.
\<close>

section \<open>Instalments by number\<close>

lemma inst_position_Some: "inst_position n xs = Some i \<Longrightarrow> i < length xs \<and> si_number (xs ! i) = n"
  by (induction xs arbitrary: i) (auto split: if_splits)

lemma inst_position_cong: "map si_number xs = map si_number ys \<Longrightarrow> inst_position n xs = inst_position n ys"
proof (induction xs arbitrary: ys)
  case (Cons x xs)
  then obtain y ys' where "ys = y # ys'" by (cases ys) auto
  with Cons.prems Cons.IH [of ys'] show ?case by simp
qed simp

lemma inst_position_update:
  assumes "inst_position m xs = Some i" and "si_number y = m"
  shows "inst_position n (xs[i := y]) = inst_position n xs"
proof (rule inst_position_cong)
  from inst_position_Some [OF assms(1)] assms(2) show "map si_number (xs[i := y]) = map si_number xs"
    by (metis list_update_id map_update)
qed

definition inst_of :: "string \<Rightarrow> nat \<Rightarrow> 'w rs_state \<Rightarrow> instalment option" where
  "inst_of d n s =
     (case rs_schedules s d of
        None \<Rightarrow> None
      | Some xs \<Rightarrow> map_option (\<lambda>i. xs ! i) (inst_position n xs))"


text \<open>A write of one instalment.\<close>

lemma inst_of_put:
  assumes "rs_schedules s d = Some xs" and "inst_position n xs = Some i" and "si_number y = n"
    and "rs_schedules s' = (rs_schedules s)(d \<mapsto> xs[i := y])"
  shows "inst_of d' m s' = (if d' = d \<and> m = n then Some y else inst_of d' m s)"
proof (cases "d' = d")
  case True
  show ?thesis
  proof (cases "m = n")
    case True
    with \<open>d' = d\<close> assms inst_position_Some [OF assms(2)] show ?thesis
      by (simp add: inst_of_def inst_position_update [OF assms(2,3)])
  next
    case False
    have "(xs[i := y]) ! j = xs ! j" if "inst_position m xs = Some j" for j
      using inst_position_Some [OF that] inst_position_Some [OF assms(2)] False by (metis nth_list_update_neq)
    with False \<open>d' = d\<close> assms show ?thesis
      by (cases "inst_position m xs") (auto simp: inst_of_def inst_position_update [OF assms(2,3)])
  qed
qed (use assms in \<open>simp add: inst_of_def\<close>)

section \<open>What the operations write\<close>

lemma find_instalment_Inr:
  assumes "find_instalment d n s = Inr (xs, i)"
  shows "rs_schedules s d = Some xs \<and> inst_position n xs = Some i \<and> inst_of d n s = Some (xs ! i) \<and>
    si_number (xs ! i) = n"
  using assms inst_position_Some [of n xs i] by (auto simp: find_instalment_def inst_of_def outcome_simps)

text \<open>An instalment is sound: paid between zero and due, and paid means paid in full.\<close>

definition inst_ok :: "instalment \<Rightarrow> bool" where
  "inst_ok x \<longleftrightarrow> 0 \<le> si_amount_paid x \<and> si_amount_paid x \<le> si_amount_due x \<and>
     (si_status x = InstPaid \<longrightarrow> si_amount_paid x = si_amount_due x)"

lemma rs_record_payment_Inr:
  assumes "rs_record_payment e c d n amount t p s = Inr s'"
  shows "\<exists>x y. authorized e c \<and> 0 < amount \<and> inst_of d n s = Some x \<and> si_status x \<noteq> InstPaid \<and> si_status x \<noteq> InstWaived \<and>
    (\<forall>d' m. inst_of d' m s' = (if d' = d \<and> m = n then Some y else inst_of d' m s)) \<and>
    si_amount_paid y = si_amount_paid x + amount \<and> si_amount_due y = si_amount_due x \<and>
    si_status y = (if si_amount_paid y = si_amount_due y then InstPaid else si_status x) \<and>
    amount \<le> si_amount_due x - si_amount_paid x \<and> rs_waivers s' = rs_waivers s"
proof -
  from assms obtain xs i where found: "find_instalment d n s = Inr (xs, i)" and gates: "authorized e c" "0 < amount"
    by (auto simp: rs_record_payment_def rs_gate_defs outcome_simps fail_if_Inr_iff)
  let ?x = "xs ! i"
  note x = find_instalment_Inr [OF found]
  obtain y where y: "rs_schedules s' = (rs_schedules s)(d \<mapsto> xs[i := y])" "si_number y = si_number ?x"
    "si_amount_paid y = si_amount_paid ?x + amount" "si_amount_due y = si_amount_due ?x"
    "si_status y = (if si_amount_paid y = si_amount_due y then InstPaid else si_status ?x)"
    and rest: "si_status ?x \<noteq> InstPaid" "si_status ?x \<noteq> InstWaived" "amount \<le> si_amount_due ?x - si_amount_paid ?x"
    "rs_waivers s' = rs_waivers s"
  proof (cases "si_amount_paid ?x + amount = si_amount_due ?x")
    case True
    with assms found that show ?thesis
      by (auto simp: rs_record_payment_def rs_gate_defs put_schedule_def outcome_simps host_simps fail_if_Inr_iff Let_def)
  next
    case False
    with assms found that show ?thesis
      by (auto simp: rs_record_payment_def rs_gate_defs put_schedule_def outcome_simps host_simps fail_if_Inr_iff Let_def)
  qed
  have "inst_of d' m s' = (if d' = d \<and> m = n then Some y else inst_of d' m s)" for d' m
    using inst_of_put [OF _ _ _ y(1)] x y(2) by simp
  with x y(3-5) rest gates show ?thesis by blast
qed



section \<open>Accounts\<close>









section \<open>The listing\<close>

lemma sink_loop_spec:
  assumes "j < length xs" and "sorted (map si_number (take j xs))"
  shows "mset (sink_loop xs j) = mset xs \<and> length (sink_loop xs j) = length xs \<and>
    drop (Suc j) (sink_loop xs j) = drop (Suc j) xs \<and> sorted (map si_number (take (Suc j) (sink_loop xs j)))"
  using assms
proof (induction j arbitrary: xs)
  case 0
  then show ?case by (cases xs) auto
next
  case (Suc j)
  then have init: "take (Suc j) xs = take j xs @ [xs ! j]" by (simp add: take_Suc_conv_app_nth)
  show ?case
  proof (cases "si_number (xs ! Suc j) < si_number (xs ! j)")
    case True
    let ?ys = "xs[j := xs ! Suc j, Suc j := xs ! j]"
    have step: "sink_loop xs (Suc j) = sink_loop ?ys j" using True by simp
    have ys: "mset ?ys = mset xs" "length ?ys = length xs" "take j ?ys = take j xs" "?ys ! Suc j = xs ! j"
      "drop (Suc (Suc j)) ?ys = drop (Suc (Suc j)) xs" "?ys ! j = xs ! Suc j"
      using Suc.prems(1) by (simp_all add: mset_swap)
    have IH: "mset (sink_loop ?ys j) = mset ?ys" "length (sink_loop ?ys j) = length ?ys"
      "drop (Suc j) (sink_loop ?ys j) = drop (Suc j) ?ys" "sorted (map si_number (take (Suc j) (sink_loop ?ys j)))"
      using Suc.IH [of ?ys] Suc.prems ys(2,3) init by (auto simp: sorted_append)
    let ?zs = "sink_loop ?ys j"
    have at: "?zs ! Suc j = xs ! j"
      using arg_cong [OF IH(3), of hd] IH(2) ys(2,4) Suc.prems(1) by (simp add: hd_drop_conv_nth)
    have "mset (take (Suc j) ?zs) = mset (take (Suc j) ?ys)"
      using IH(1,3) by (metis append_take_drop_id mset_append add_right_cancel)
    then have "set (take (Suc j) ?zs) = set (take (Suc j) ?ys)" by (metis set_mset_mset)
    also have "\<dots> = insert (xs ! Suc j) (set (take j xs))"
      using ys(2,3,6) Suc.prems(1) by (simp add: take_Suc_conv_app_nth)
    finally have "\<forall>x \<in> set (take (Suc j) ?zs). si_number x \<le> si_number (xs ! j)"
      using Suc.prems(2) init True by (auto simp: sorted_append)
    then have "sorted (map si_number (take (Suc (Suc j)) ?zs))"
      using IH(2,4) at ys(2) Suc.prems(1) by (auto simp: take_Suc_conv_app_nth [of "Suc j"] sorted_append)
    moreover have "drop (Suc (Suc j)) ?zs = drop (Suc (Suc j)) xs"
      using IH(3) ys(5) by (metis drop_Suc tl_drop)
    ultimately show ?thesis using step IH(1,2) ys(1,2) by simp
  next
    case False
    with Suc.prems init have "sorted (map si_number (take (Suc (Suc j)) xs))"
      by (auto simp: take_Suc_conv_app_nth [of "Suc j"] sorted_append)
    with False show ?thesis by simp
  qed
qed

lemma sort_schedule_spec:
  assumes "i \<le> length xs" and "sorted (map si_number (take i xs))"
  shows "mset (sort_schedule xs [i..<length xs]) = mset xs \<and> sorted (map si_number (sort_schedule xs [i..<length xs]))"
  using assms
proof (induction "length xs - i" arbitrary: i xs)
  case (Suc n)
  then have i: "i < length xs" by simp
  note sink = sink_loop_spec [OF i Suc.prems(2)]
  let ?ys = "sink_loop xs i"
  have "n = length ?ys - Suc i" "Suc i \<le> length ?ys" using Suc.hyps(2) sink i by auto
  from Suc.hyps(1) [OF this] sink i show ?case by (simp add: upt_conv_Cons)
qed simp

lemma get_schedule_sorted:
  "mset (get_schedule d s) = mset (unwrap_or (rs_schedules s d) []) \<and> sorted (map si_number (get_schedule d s))"
proof (cases "unwrap_or (rs_schedules s d) []")
  case Nil
  then show ?thesis by (simp add: get_schedule_def)
next
  case (Cons x xs)
  then show ?thesis using sort_schedule_spec [of 1 "x # xs"] by (simp add: get_schedule_def)
qed

section \<open>Properties\<close>


text \<open>Anybody can mark rent as paid: \<open>record_payment\<close> asks only for the authorisation of the caller it is
  given, so an account without any role, and without moving a token, can pay any open instalment
  of any deal in full.\<close>

theorem anybody_records_payment:
  assumes "rs_config s \<noteq> None" and "\<not> rs_is_paused s" and "authorized e stranger"
    and "inst_of d n s = Some x" and "inst_ok x" and "si_amount_paid x < si_amount_due x"
    and "si_status x \<in> {InstPending, InstOverdue}" and "i128_ok (si_amount_due x)"
  shows "\<exists>s' y. rs_record_payment e stranger d n (si_amount_due x - si_amount_paid x) t p s = Inr s' \<and>
    inst_of d n s' = Some y \<and> si_status y = InstPaid \<and> world s' = world s"
proof -
  from assms(4) obtain xs i where found: "rs_schedules s d = Some xs" "inst_position n xs = Some i" "x = xs ! i"
    by (auto simp: inst_of_def split: option.splits)
  from assms(5,6,8) have "i128_ok (si_amount_due x - si_amount_paid x)" by (auto simp: inst_ok_def i128_ok_def)
  with assms found obtain s' where run: "rs_record_payment e stranger d n (si_amount_due x - si_amount_paid x) t p s = Inr s'"
    and w: "world s' = world s"
    by (auto simp: rs_record_payment_def rs_gate_defs find_instalment_def ck_i128_def put_schedule_def host_simps Let_def)
  from rs_record_payment_Inr [OF run] assms(4) obtain y where "inst_of d n s' = Some y" "si_status y = InstPaid" by auto
  with run w show ?thesis by blast
qed

section \<open>Witnesses\<close>

abbreviation rs_at :: "nat \<Rightarrow> nat \<Rightarrow> env" where
  "rs_at t who \<equiv> call_at t (Address 9) (Address who)"

definition rs_sample_inst :: "nat \<Rightarrow> int \<Rightarrow> instalment" where
  "rs_sample_inst n due = \<lparr>si_number = n, si_due_timestamp = 100, si_amount_due = due, si_amount_paid = 0,
     si_status = InstPending, si_paid_at = None, si_last_tx_id = None\<rparr>"

definition rs_sample_calls :: "(env \<times> rs_call) list" where
  "rs_sample_calls =
     [(rs_at 1 1, RS_Init (Address 1) (Address 2)),
      (rs_at 2 2, RS_Create (Address 2) ''D'' [rs_sample_inst 1 500, rs_sample_inst 2 700]),
      (rs_at 3 3, RS_Record (Address 3) ''D'' 2 300 11 3), (rs_at 4 1, RS_Waive (Address 1) ''D'' 2 Hardship),
      (rs_at 5 3, RS_Record (Address 3) ''D'' 2 400 12 5)]"

definition rs_sample :: "unit rs_state" where
  "rs_sample = run_calls rs_exec rs_sample_calls (rs_fresh ())"

lemmas rs_eval = rs_fresh_def rs_sample_calls_def rs_sample_inst_def apply_call_def rs_init_def create_schedule_def
  rs_record_payment_def waive_instalment_def find_instalment_def put_schedule_def rs_gate_defs rs_is_paused_def
  ck_i128_def i128_ok_def host_simps Let_def


lemma rs_sample_facts:
  "rs_config rs_sample \<noteq> None \<and> \<not> rs_is_paused rs_sample \<and> inst_of ''D'' 1 rs_sample = Some (rs_sample_inst 1 500)"
  by (simp add: rs_sample_def rs_eval inst_of_def)

lemma anybody_records_payment_witness:
  "\<exists>s' y. rs_record_payment (rs_at 9 77) (Address 77) ''D'' 1 500 0 9 rs_sample = Inr s' \<and>
    inst_of ''D'' 1 s' = Some y \<and> si_status y = InstPaid"
  using anybody_records_payment [of rs_sample "rs_at 9 77" "Address 77" "''D''" 1 "rs_sample_inst 1 500" 0 9]
    rs_sample_facts by (auto simp: rs_sample_inst_def inst_ok_def i128_ok_def)

end
