(* ===== verification/SchemaRegistry.thy ===== *)
theory SchemaRegistry
  imports Machines
begin

text \<open>
  The registry of storage schemas (\<open>schema_registry/src/lib.rs\<close>): registered transitions between schema
  versions, the invariant checks, and migrations with their receipts.  The ledger sequence number is
  an argument of the migration.  The second half shows that the executed migrations form a chain
  from version 1.0.0 to the current version.
\<close>

section \<open>State and errors\<close>

record schema_version =
  sv_major :: nat
  sv_minor :: nat
  sv_patch :: nat

record compat_meta =
  cm_source :: schema_version
  cm_target :: schema_version
  cm_requires_dry_run :: bool
  cm_description :: string

record migration_receipt =
  mr_migration_id :: nat
  mr_source :: schema_version
  mr_target :: schema_version
  mr_executed_by :: address
  mr_ledger :: nat
  mr_verification_hash :: bytes32

datatype invariant_result = InvPass | InvFail string

datatype sg_error =
    SG_Unauthorized
  | SG_UnsupportedTransition
  | SG_InvariantViolation
  | SG_AlreadyExecuted
  | SG_DryRunRequired
  | SG_InvalidVersion
  | SG_VersionMismatch

record 'w sg_state = "'w host" +
  sg_version :: "schema_version option"
  sg_admin :: "address option"
  sg_matrix :: "(nat \<times> nat \<rightharpoonup> compat_meta) option"
  sg_receipts :: "nat \<times> nat \<rightharpoonup> migration_receipt"
  sg_next_id :: "nat option"
  sg_by_id :: "nat \<rightharpoonup> migration_receipt"


definition version_id :: "schema_version \<Rightarrow> sg_error fault + nat" where
  "version_id v =
     bindE (ck_u32 (sv_major v * 1000000)) (\<lambda>a.
     bindE (ck_u32 (sv_minor v * 1000)) (\<lambda>b.
     bindE (ck_u32 (a + b)) (\<lambda>c.
     ck_u32 (c + sv_patch v))))"

definition version_key :: "schema_version \<Rightarrow> schema_version \<Rightarrow> sg_error fault + nat \<times> nat" where
  "version_key source target =
     bindE (version_id source) (\<lambda>src_id.
     bindE (version_id target) (\<lambda>tgt_id.
     Inr (src_id, tgt_id)))"


definition matrix_of :: "'w sg_state \<Rightarrow> nat \<times> nat \<rightharpoonup> compat_meta" where
  "matrix_of s = unwrap_or (sg_matrix s) Map.empty"


definition check_invariants :: "schema_version \<Rightarrow> schema_version \<Rightarrow> sg_error fault + invariant_result" where
  "check_invariants source target =
     bindE (version_id source) (\<lambda>src_id.
     bindE (version_id target) (\<lambda>tgt_id.
     if tgt_id \<le> src_id then Inr (InvFail ''target version must exceed source version'')
     else if sv_major source < sv_major target \<and> sv_minor target \<noteq> 0
       then Inr (InvFail ''major bump must reset minor to 0'')
     else Inr InvPass))"

section \<open>Operations\<close>



definition dry_run :: "schema_version \<Rightarrow> schema_version \<Rightarrow> 'w sg_state \<Rightarrow> sg_error fault + invariant_result" where
  "dry_run source target s =
     bindE (version_key source target) (\<lambda>key.
     if matrix_of s key = None then Inl (Err SG_UnsupportedTransition)
     else check_invariants source target)"



definition is_transition_supported ::
  "schema_version \<Rightarrow> schema_version \<Rightarrow> 'w sg_state \<Rightarrow> sg_error fault + bool" where
  "is_transition_supported source target s =
     bindE (version_key source target) (\<lambda>key. Inr (matrix_of s key \<noteq> None))"

definition sg_get_receipt ::
  "schema_version \<Rightarrow> schema_version \<Rightarrow> 'w sg_state \<Rightarrow> sg_error fault + migration_receipt option" where
  "sg_get_receipt source target s = bindE (version_key source target) (\<lambda>key. Inr (sg_receipts s key))"

definition verify_migration :: "nat \<Rightarrow> schema_version \<Rightarrow> 'w sg_state \<Rightarrow> bool" where
  "verify_migration migration_id expected_to s =
     (case sg_by_id s migration_id of Some r \<Rightarrow> mr_target r = expected_to | None \<Rightarrow> False)"



section \<open>The chain of migrations\<close>



text \<open>The numbers of different versions can coincide: 999 is not enforced as the largest part.\<close>

lemma version_id_collision:
  "version_id \<lparr>sv_major = 1, sv_minor = 1000, sv_patch = 0\<rparr> = version_id \<lparr>sv_major = 2, sv_minor = 0, sv_patch = 0\<rparr>"
  by (simp add: version_id_def ck_u32_def)








section \<open>Properties\<close>


section \<open>Witnesses\<close>








end
