(* ===== verification/TenantReputation.thy ===== *)
theory TenantReputation
  imports AccessControl Pausable
begin

text \<open>
  Tenant reputation (\<open>tenant_reputation/src/lib.rs\<close>): reputation records with a composite score that is
  clamped on update and decays lazily when it is read.  The second half gives the reported score in
  closed form, the bounds it stays within, and a configuration under which decay raises it.
\<close>

section \<open>State and errors\<close>

record reputation_record =
  re_composite :: nat
  re_payment :: nat
  re_property_care :: nat
  re_communication :: nat
  re_total_ratings :: nat
  re_last_updated :: nat

datatype te_error = TE_AlreadyInitialized | TE_NotAuthorized | TE_Paused | TE_InvalidScore

record 'w te_state = "'w host" +
  te_admin :: "address option"
  te_operator :: "address option"
  te_paused :: "bool option"
  te_reputation :: "address \<rightharpoonup> reputation_record"
  te_decay_rate :: "nat option"
  te_decay_period :: "nat option"
  te_score_min :: "nat option"
  te_score_max :: "nat option"

definition te_get_admin :: "'w te_state \<Rightarrow> 'e fault + address" where
  "te_get_admin s = expect (te_admin s) ''admin not set''"

definition te_get_operator :: "'w te_state \<Rightarrow> 'e fault + address" where
  "te_get_operator s = expect (te_operator s) ''operator not set''"

definition te_is_paused :: "'w te_state \<Rightarrow> bool" where
  "te_is_paused s = unwrap_or (te_paused s) False"

definition te_require_not_paused :: "'w te_state \<Rightarrow> te_error fault + unit" where
  "te_require_not_paused s = (if te_is_paused s then Inl (Err TE_Paused) else Inr ())"

definition score_max :: "'w te_state \<Rightarrow> nat" where
  "score_max s = unwrap_or (te_score_max s) 1000"

definition score_min :: "'w te_state \<Rightarrow> nat" where
  "score_min s = unwrap_or (te_score_min s) 0"

definition clamp_score :: "'w te_state \<Rightarrow> nat \<Rightarrow> nat" where
  "clamp_score s score = min (max score (score_min s)) (score_max s)"

text \<open>\<open>(elapsed / period) as u32\<close> truncates; \<open>saturating_mul\<close> stops at \<open>u32::MAX\<close>.\<close>

definition saturating_mul_u32 :: "nat \<Rightarrow> nat \<Rightarrow> nat" where
  "saturating_mul_u32 a b = min (2 ^ 32 - 1) (a * b)"

definition compute_decayed_score :: "env \<Rightarrow> 'w te_state \<Rightarrow> reputation_record \<Rightarrow> nat \<times> bool" where
  "compute_decayed_score e s r =
     (let rate = unwrap_or (te_decay_rate s) 0;
          period = unwrap_or (te_decay_period s) 86400
      in
      if rate = 0 \<or> period = 0 then (re_composite r, False)
      else
      let now = timestamp e in
      if now \<le> re_last_updated r then (re_composite r, False)
      else
      let elapsed = now - re_last_updated r;
          periods = (elapsed div period) mod 2 ^ 32
      in
      if periods = 0 then (re_composite r, False)
      else
      let decay_amount = saturating_mul_u32 periods rate;
          lo = score_min s;
          new_score = max (re_composite r - decay_amount) lo
      in (new_score, new_score \<noteq> re_composite r))"

definition emit_updated :: "address \<Rightarrow> reputation_record \<Rightarrow> string \<Rightarrow> 'w te_state \<Rightarrow> 'w te_state" where
  "emit_updated tenant r reason s =
     publish [VSym ''tenant_reputation'', VSym ''reputation_updated'', VAddr tenant]
       [VNat (re_composite r), VNat (re_total_ratings r), VNat (re_last_updated r), VSym reason] s"

section \<open>Operations\<close>

definition te_init :: "address \<Rightarrow> address \<Rightarrow> 'w te_state \<Rightarrow> te_error fault + 'w te_state" where
  "te_init admin operator s =
     (if te_admin s \<noteq> None then Inl (Err TE_AlreadyInitialized)
      else Inr (s\<lparr>te_admin := Some admin, te_operator := Some operator, te_paused := Some False,
             te_decay_rate := Some 0, te_decay_period := Some 86400, te_score_min := Some 0,
             te_score_max := Some 1000\<rparr>))"

definition set_decay_config ::
  "env \<Rightarrow> address \<Rightarrow> nat \<Rightarrow> nat \<Rightarrow> 'w te_state \<Rightarrow> te_error fault + 'w te_state" where
  "set_decay_config e admin decay_rate_per_period period_secs s =
     bindE (te_get_admin s) (\<lambda>current.
     bindE (require_admin_permission e current admin ''set_decay_config'' TE_NotAuthorized s) (\<lambda>_.
     Inr (publish [VSym ''tenant_reputation'', VSym ''decay_config_updated'']
            [VNat decay_rate_per_period, VNat period_secs]
            (s\<lparr>te_decay_rate := Some decay_rate_per_period, te_decay_period := Some period_secs\<rparr>))))"

definition set_score_bounds ::
  "env \<Rightarrow> address \<Rightarrow> nat \<Rightarrow> nat \<Rightarrow> 'w te_state \<Rightarrow> te_error fault + 'w te_state" where
  "set_score_bounds e admin new_min new_max s =
     bindE (te_get_admin s) (\<lambda>current.
     bindE (require_admin_permission e current admin ''set_score_bounds'' TE_NotAuthorized s) (\<lambda>_.
     Inr (publish [VSym ''tenant_reputation'', VSym ''score_bounds_updated''] [VNat new_min, VNat new_max]
            (s\<lparr>te_score_min := Some new_min, te_score_max := Some new_max\<rparr>))))"

definition update_reputation ::
  "env \<Rightarrow> address \<Rightarrow> address \<Rightarrow> reputation_record \<Rightarrow> string \<Rightarrow> 'w te_state \<Rightarrow> te_error fault + 'w te_state" where
  "update_reputation e caller tenant r reason s =
     bindE (te_require_not_paused s) (\<lambda>_.
     bindE (te_get_admin s) (\<lambda>admin.
     bindE (te_get_operator s) (\<lambda>operator.
     bindE (require_admin_or_operator_permission e admin (Some operator) caller ''update_reputation''
              TE_NotAuthorized s) (\<lambda>_.
     let clamped_score = clamp_score s (re_composite r);
         updated = r\<lparr>re_composite := clamped_score, re_last_updated := timestamp e\<rparr>;
         s = s\<lparr>te_reputation := (te_reputation s)(tenant \<mapsto> updated)\<rparr>
     in Inr (emit_updated tenant updated reason s)))))"

definition get_reputation :: "env \<Rightarrow> address \<Rightarrow> 'w te_state \<Rightarrow> reputation_record option \<times> 'w te_state" where
  "get_reputation e tenant s =
     (case te_reputation s tenant of
        None \<Rightarrow> (None, s)
      | Some r \<Rightarrow>
          let (decayed_score, did_decay) = compute_decayed_score e s r in
          if did_decay then
            (Some (r\<lparr>re_composite := decayed_score\<rparr>),
             publish [VSym ''tenant_reputation'', VSym ''reputation_decayed'', VAddr tenant]
               [VNat (re_composite r), VNat decayed_score] s)
          else (Some r, s))"

definition has_reputation :: "address \<Rightarrow> 'w te_state \<Rightarrow> bool" where
  "has_reputation tenant s \<longleftrightarrow> te_reputation s tenant \<noteq> None"

definition revoke_reputation :: "env \<Rightarrow> address \<Rightarrow> address \<Rightarrow> 'w te_state \<Rightarrow> te_error fault + 'w te_state" where
  "revoke_reputation e caller tenant s =
     bindE (te_get_admin s) (\<lambda>admin.
     bindE (require_admin_permission e admin caller ''revoke_reputation'' TE_NotAuthorized s) (\<lambda>_.
     if te_reputation s tenant \<noteq> None then
       Inr (publish [VSym ''tenant_reputation'', VSym ''revoked'', VAddr tenant] []
              (s\<lparr>te_reputation := (te_reputation s)(tenant := None)\<rparr>))
     else Inr s))"

definition te_pause :: "env \<Rightarrow> address \<Rightarrow> 'w te_state \<Rightarrow> pausable_error fault + 'w te_state" where
  "te_pause e admin s =
     bindE (te_get_admin s) (\<lambda>current.
     bindE (map_err (\<lambda>_. PE_NotAuthorized)
        (require_admin_permission e current admin ''pause'' TE_NotAuthorized s)) (\<lambda>_.
     Inr (publish [VSym ''Pausable'', VSym ''pause''] [] (s\<lparr>te_paused := Some True\<rparr>))))"

definition te_unpause :: "env \<Rightarrow> address \<Rightarrow> 'w te_state \<Rightarrow> pausable_error fault + 'w te_state" where
  "te_unpause e admin s =
     bindE (te_get_admin s) (\<lambda>current.
     bindE (map_err (\<lambda>_. PE_NotAuthorized)
        (require_admin_permission e current admin ''unpause'' TE_NotAuthorized s)) (\<lambda>_.
     Inr (s\<lparr>te_paused := Some False\<rparr>)))"

interpretation te_pausable: pausable te_pause te_unpause te_is_paused te_admin
  by unfold_locales
    (auto simp: te_pause_def te_unpause_def te_is_paused_def te_get_admin_def outcome_simps host_simps)

datatype te_call =
    TE_Init address address
  | TE_SetDecay address nat nat
  | TE_SetBounds address nat nat
  | TE_Update address address reputation_record string
  | TE_Get address
  | TE_Revoke address address
  | TE_Pause address
  | TE_Unpause address

datatype te_any_error = TE_Contract te_error | TE_Pausable pausable_error

fun te_exec :: "env \<Rightarrow> te_call \<Rightarrow> 'w te_state \<Rightarrow> te_any_error fault + 'w te_state" where
  "te_exec e (TE_Init a p) s = map_err TE_Contract (te_init a p s)"
| "te_exec e (TE_SetDecay a r p) s = map_err TE_Contract (set_decay_config e a r p s)"
| "te_exec e (TE_SetBounds a l h) s = map_err TE_Contract (set_score_bounds e a l h s)"
| "te_exec e (TE_Update c u r m) s = map_err TE_Contract (update_reputation e c u r m s)"
| "te_exec e (TE_Get u) s = Inr (snd (get_reputation e u s))"
| "te_exec e (TE_Revoke c u) s = map_err TE_Contract (revoke_reputation e c u s)"
| "te_exec e (TE_Pause a) s = map_err TE_Pausable (te_pause e a s)"
| "te_exec e (TE_Unpause a) s = map_err TE_Pausable (te_unpause e a s)"

definition te_fresh :: "'w \<Rightarrow> 'w te_state" where
  "te_fresh w = \<lparr>events = [], world = w, te_admin = None, te_operator = None, te_paused = None,
     te_reputation = Map.empty, te_decay_rate = None, te_decay_period = None, te_score_min = None,
     te_score_max = None\<rparr>"

section \<open>The reported score\<close>

text \<open>The composite score after \<open>k\<close> elapsed periods, in closed form.\<close>

definition decayed :: "nat \<Rightarrow> nat \<Rightarrow> nat \<Rightarrow> nat \<Rightarrow> nat" where
  "decayed rate lo k score = (if rate = 0 \<or> k = 0 then score else max (score - k * rate) lo)"

lemma compute_decayed_score_eq:
  assumes "re_composite r < 2 ^ 32" and "te_decay_period s = Some period" and "0 < period"
    and "timestamp e - re_last_updated r < period * 2 ^ 32"
  shows "fst (compute_decayed_score e s r) =
    decayed (unwrap_or (te_decay_rate s) 0) (score_min s) ((timestamp e - re_last_updated r) div period) (re_composite r)"
proof -
  let ?k = "(timestamp e - re_last_updated r) div period"
  have "?k < 2 ^ 32" using assms(3,4) by (simp add: less_mult_imp_div_less mult.commute)
  moreover have "re_composite r - saturating_mul_u32 ?k rate = re_composite r - ?k * rate" for rate
    using assms(1) by (auto simp: saturating_mul_u32_def min_def)
  ultimately show ?thesis
    using assms(2,3) by (auto simp: compute_decayed_score_def decayed_def Let_def)
qed

lemma get_reputation_score:
  "te_reputation s u = Some r \<Longrightarrow>
   map_option re_composite (fst (get_reputation e u s)) = Some (fst (compute_decayed_score e s r))"
  by (auto simp: get_reputation_def compute_decayed_score_def Let_def)

text \<open>
  An accepted update is what is read back later, after the decay of the periods that have passed in
  between, whatever else the record held.
\<close>

lemma updated_score_decays:
  assumes "update_reputation e c u r m s = Inr s'" and "re_composite r < 2 ^ 32" and "score_max s < 2 ^ 32"
    and "te_decay_period s = Some period" and "0 < period" and "timestamp e' - timestamp e < period * 2 ^ 32"
  shows "map_option re_composite (fst (get_reputation e' u s')) =
    Some (decayed (unwrap_or (te_decay_rate s) 0) (score_min s) ((timestamp e' - timestamp e) div period)
      (clamp_score s (re_composite r)))"
proof -
  let ?r = "r\<lparr>re_composite := clamp_score s (re_composite r), re_last_updated := timestamp e\<rparr>"
  from assms(1) have s': "te_reputation s' u = Some ?r" "te_decay_rate s' = te_decay_rate s"
    "te_decay_period s' = te_decay_period s" "score_min s' = score_min s"
    by (auto simp: update_reputation_def emit_updated_def score_min_def outcome_simps host_simps Let_def)
  have "clamp_score s (re_composite r) < 2 ^ 32" using assms(3) by (simp add: clamp_score_def)
  with compute_decayed_score_eq [of ?r s' period e'] get_reputation_score [OF s'(1), of e'] s' assms(4-6)
  show ?thesis by simp
qed

text \<open>As long as the bounds are not changed, stored scores stay within the default bounds.\<close>

fun default_bounds :: "env \<Rightarrow> te_call \<Rightarrow> bool" where
  "default_bounds e (TE_SetBounds a l h) \<longleftrightarrow> False"
| "default_bounds e _ \<longleftrightarrow> True"

definition te_inv :: "'w te_state \<Rightarrow> bool" where
  "te_inv s \<longleftrightarrow> score_min s = 0 \<and> score_max s = 1000 \<and> (\<forall>u r. te_reputation s u = Some r \<longrightarrow> re_composite r \<le> 1000)"

interpretation te_bounds: invariant_machine te_exec default_bounds no_others te_inv
proof
  fix s s' :: "'a te_state" and e c
  assume inv: "te_inv s" and ok: "default_bounds e c" and run: "te_exec e c s = Inr s'"
  show "te_inv s'"
  proof (cases c)
    case (TE_Update a u r m)
    with run inv show ?thesis
      by (auto simp: te_inv_def update_reputation_def emit_updated_def clamp_score_def score_min_def score_max_def
          outcome_simps host_simps Let_def split: if_splits)
  next
    case (TE_Get u)
    with run inv show ?thesis
      by (auto simp: te_inv_def get_reputation_def score_min_def score_max_def host_simps Let_def
          split: option.splits prod.splits if_splits)
  qed (use run inv ok in \<open>auto simp: te_inv_def te_init_def set_decay_config_def revoke_reputation_def te_pause_def
      te_unpause_def score_min_def score_max_def outcome_simps host_simps fail_if_Inr_iff split: if_splits\<close>)
qed (simp add: no_others_def)

lemma scores_within_default_bounds:
  assumes "reach te_exec default_bounds no_others (te_fresh w) s" and "fst (get_reputation e u s) = Some r"
  shows "re_composite r \<le> 1000"
proof -
  have "te_inv (te_fresh w)" by (simp add: te_inv_def te_fresh_def score_min_def score_max_def)
  from te_bounds.reach_inv [OF assms(1) this] have inv: "te_inv s" .
  from assms(2) obtain q where q: "te_reputation s u = Some q" by (auto simp: get_reputation_def split: option.splits)
  with inv have "re_composite q \<le> 1000" "score_min s = 0" by (auto simp: te_inv_def)
  with q assms(2) show ?thesis
    by (auto simp: get_reputation_def compute_decayed_score_def Let_def split: if_splits)
qed

text \<open>
  Decay can raise a score: when the lower bound has been raised above a stored score, the first elapsed
  period lifts the reported score to the bound.
\<close>

lemma decay_raises_score:
  assumes "te_reputation s u = Some r" and "re_composite r < score_min s" and "te_decay_rate s = Some rate" and "0 < rate"
    and "te_decay_period s = Some period" and "0 < period" and "timestamp e = re_last_updated r + period"
  shows "map_option re_composite (fst (get_reputation e u s)) = Some (score_min s)"
  using assms by (simp add: get_reputation_score compute_decayed_score_def saturating_mul_u32_def Let_def)

end
