(* ===== verification/UpgradeableProxy.thy ===== *)
theory UpgradeableProxy
  imports Machines
begin

text \<open>
  The upgradeable proxy (\<open>upgradeable_proxy/src/lib.rs\<close>): upgrades of the contract's own code, proposed by
  the admin and confirmed by the second approver, and a key-value store.  The code the host runs is a
  field of the state.
\<close>

datatype up_error = UP_AlreadyInitialized | UP_NotAdmin | UP_NotApprover | UP_NoPendingUpgrade | UP_HashMismatch

record 'w up_state = "'w host" +
  up_version :: "nat option"
  up_admin :: "address option"
  up_approver :: "address option"
  up_pending :: "bytes32 option"
  up_store :: "(string \<rightharpoonup> string) option"
  up_wasm :: "bytes32 option"

definition up_get_admin :: "'w up_state \<Rightarrow> up_error fault + address" where
  "up_get_admin s = expect (up_admin s) ''admin not set''"

definition get_approver :: "'w up_state \<Rightarrow> up_error fault + address" where
  "get_approver s = expect (up_approver s) ''approver not set''"

definition up_get_version :: "'w up_state \<Rightarrow> nat" where
  "up_get_version s = unwrap_or (up_version s) 1"

definition store_map :: "'w up_state \<Rightarrow> string \<rightharpoonup> string" where
  "store_map s = unwrap_or (up_store s) Map.empty"

definition up_init :: "env \<Rightarrow> address \<Rightarrow> address \<Rightarrow> 'w up_state \<Rightarrow> up_error fault + 'w up_state" where
  "up_init e admin second_approver s =
     (if up_admin s \<noteq> None then Inl (Err UP_AlreadyInitialized)
      else
      bindE (require_auth e admin) (\<lambda>_.
      Inr (publish [VSym ''upgradeable_proxy'', VSym ''init''] [VAddr admin, VAddr second_approver, VNat 1]
             (s\<lparr>up_admin := Some admin, up_approver := Some second_approver, up_version := Some 1,
                up_store := Some Map.empty\<rparr>))))"

definition up_require_admin :: "env \<Rightarrow> address \<Rightarrow> 'w up_state \<Rightarrow> up_error fault + unit" where
  "up_require_admin e admin s =
     bindE (require_auth e admin) (\<lambda>_.
     bindE (up_get_admin s) (\<lambda>current.
     if admin \<noteq> current then Inl (Err UP_NotAdmin) else Inr ()))"

definition up_propose_upgrade :: "env \<Rightarrow> address \<Rightarrow> bytes32 \<Rightarrow> 'w up_state \<Rightarrow> up_error fault + 'w up_state" where
  "up_propose_upgrade e admin new_wasm_hash s =
     bindE (up_require_admin e admin s) (\<lambda>_.
     Inr (publish [VSym ''upgradeable_proxy'', VSym ''upgrade_proposed''] [VAddr admin, VBytes new_wasm_hash]
            (s\<lparr>up_pending := Some new_wasm_hash\<rparr>)))"

definition confirm_upgrade :: "env \<Rightarrow> address \<Rightarrow> bytes32 \<Rightarrow> 'w up_state \<Rightarrow> up_error fault + 'w up_state" where
  "confirm_upgrade e approver new_wasm_hash s =
     bindE (require_auth e approver) (\<lambda>_.
     bindE (get_approver s) (\<lambda>second.
     if approver \<noteq> second then Inl (Err UP_NotApprover)
     else
     bindE (ok_or (up_pending s) UP_NoPendingUpgrade) (\<lambda>pending.
     if pending \<noteq> new_wasm_hash then Inl (Err UP_HashMismatch)
     else
     let s = s\<lparr>up_pending := None\<rparr>; old_version = up_get_version s in
     bindE (ck_u32 (old_version + 1)) (\<lambda>new_version.
     let s = s\<lparr>up_version := Some new_version\<rparr>;
         s = s\<lparr>up_wasm := Some new_wasm_hash\<rparr>
     in Inr (publish [VSym ''upgradeable_proxy'', VSym ''upgraded'']
            [VAddr approver, VBytes new_wasm_hash, VNat new_version, VNat new_version] s)))))"

definition cancel_upgrade :: "env \<Rightarrow> address \<Rightarrow> 'w up_state \<Rightarrow> up_error fault + 'w up_state" where
  "cancel_upgrade e admin s =
     bindE (up_require_admin e admin s) (\<lambda>_.
     Inr (publish [VSym ''upgradeable_proxy'', VSym ''upgrade_cancelled''] [VAddr admin] (s\<lparr>up_pending := None\<rparr>)))"

definition transfer_admin :: "env \<Rightarrow> address \<Rightarrow> address \<Rightarrow> 'w up_state \<Rightarrow> up_error fault + 'w up_state" where
  "transfer_admin e admin new_admin s =
     bindE (up_require_admin e admin s) (\<lambda>_.
     Inr (publish [VSym ''upgradeable_proxy'', VSym ''admin_transferred''] [VAddr admin, VAddr new_admin]
            (s\<lparr>up_admin := Some new_admin\<rparr>)))"

text \<open>No authorisation is asked for.\<close>

definition set_value :: "string \<Rightarrow> string \<Rightarrow> 'w up_state \<Rightarrow> 'w up_state" where
  "set_value key v s = s\<lparr>up_store := Some ((store_map s)(key \<mapsto> v))\<rparr>"

definition get_value :: "string \<Rightarrow> 'w up_state \<Rightarrow> string option" where
  "get_value key s = store_map s key"

definition has_pending_upgrade :: "'w up_state \<Rightarrow> bool" where
  "has_pending_upgrade s \<longleftrightarrow> up_pending s \<noteq> None"

datatype up_call =
    UP_Init address address
  | UP_Propose address bytes32
  | UP_Confirm address bytes32
  | UP_Cancel address
  | UP_Transfer address address
  | UP_SetValue string string

fun up_exec :: "env \<Rightarrow> up_call \<Rightarrow> 'w up_state \<Rightarrow> up_error fault + 'w up_state" where
  "up_exec e (UP_Init a b) s = up_init e a b s"
| "up_exec e (UP_Propose a h) s = up_propose_upgrade e a h s"
| "up_exec e (UP_Confirm b h) s = confirm_upgrade e b h s"
| "up_exec e (UP_Cancel a) s = cancel_upgrade e a s"
| "up_exec e (UP_Transfer a b) s = transfer_admin e a b s"
| "up_exec e (UP_SetValue k v) s = Inr (set_value k v s)"

definition up_fresh :: "'w \<Rightarrow> 'w up_state" where
  "up_fresh w = \<lparr>events = [], world = w, up_version = None, up_admin = None, up_approver = None,
     up_pending = None, up_store = None, up_wasm = None\<rparr>"

lemmas up_defs = up_init_def up_propose_upgrade_def confirm_upgrade_def cancel_upgrade_def transfer_admin_def
  up_require_admin_def up_get_admin_def get_approver_def set_value_def

section \<open>Upgrades take two persons\<close>

text \<open>
  \<open>open_proposal h acc\<close>: the last of the accepted calls that concerns a proposal is a proposal of \<open>h\<close>,
  authorised by the address that made it.
\<close>

fun about_proposal :: "up_call \<Rightarrow> bool" where
  "about_proposal (UP_Propose a h) \<longleftrightarrow> True"
| "about_proposal (UP_Confirm b h) \<longleftrightarrow> True"
| "about_proposal (UP_Cancel a) \<longleftrightarrow> True"
| "about_proposal _ \<longleftrightarrow> False"

definition open_proposal :: "bytes32 \<Rightarrow> (env \<times> up_call) list \<Rightarrow> bool" where
  "open_proposal h acc \<longleftrightarrow>
     (\<exists>before e a after. acc = before @ (e, UP_Propose a h) # after \<and> authorized e a \<and>
        (\<forall>(e', c) \<in> set after. \<not> about_proposal c))"

definition upgraded_to :: "address \<Rightarrow> bytes32 \<Rightarrow> (env \<times> up_call) list \<Rightarrow> bool" where
  "upgraded_to b h acc \<longleftrightarrow>
     (\<exists>before e after. acc = before @ (e, UP_Confirm b h) # after \<and> authorized e b \<and> open_proposal h before)"

definition up_inv :: "(env \<times> up_call) list \<Rightarrow> 'w up_state \<Rightarrow> bool" where
  "up_inv acc s \<longleftrightarrow>
     (\<forall>h. up_pending s = Some h \<longrightarrow> open_proposal h acc) \<and>
     (\<forall>h. up_wasm s = Some h \<longrightarrow> (\<exists>b. up_approver s = Some b \<and> upgraded_to b h acc)) \<and>
     (up_admin s = None \<longrightarrow> up_approver s = None \<and> up_version s = None) \<and>
     up_get_version s = 1 + length (filter (\<lambda>(e, c). \<exists>b h. c = UP_Confirm b h) acc)"

lemma open_proposal_snoc: "open_proposal h acc \<Longrightarrow> \<not> about_proposal c \<Longrightarrow> open_proposal h (acc @ [(e, c)])"
proof -
  assume "open_proposal h acc" and quiet: "\<not> about_proposal c"
  then obtain before e1 a after where "acc = before @ (e1, UP_Propose a h) # after" "authorized e1 a"
    "\<forall>(e', c) \<in> set after. \<not> about_proposal c" by (auto simp: open_proposal_def)
  with quiet show ?thesis
    unfolding open_proposal_def
    by (intro exI [of _ before] exI [of _ e1] exI [of _ a] exI [of _ "after @ [(e, c)]"]) auto
qed

lemma open_proposal_new: "authorized e a \<Longrightarrow> open_proposal h (acc @ [(e, UP_Propose a h)])"
  unfolding open_proposal_def by (intro exI [of _ acc] exI [of _ e] exI [of _ a] exI [of _ "[]"]) simp

lemma upgraded_to_mono: "upgraded_to b h acc \<Longrightarrow> upgraded_to b h (acc @ xs)"
  unfolding upgraded_to_def by force

lemma upgraded_to_new:
  "open_proposal h acc \<Longrightarrow> authorized e b \<Longrightarrow> upgraded_to b h (acc @ [(e, UP_Confirm b h)])"
  unfolding upgraded_to_def by blast

lemma up_inv_step:
  assumes inv: "up_inv acc s" and run: "up_exec e c s = Inr s'"
  shows "up_inv (acc @ [(e, c)]) s'"
proof (cases c)
  case (UP_Init a b)
  with run have none: "up_admin s = None" and s': "up_pending s' = up_pending s" "up_wasm s' = up_wasm s"
    "up_admin s' = Some a" "up_get_version s' = 1"
    by (auto simp: up_init_def up_get_version_def outcome_simps host_simps fail_if_Inr_iff)
  from inv none have "up_wasm s = None" "length (filter (\<lambda>(e, c). \<exists>b h. c = UP_Confirm b h) acc) = 0"
    by (auto simp: up_inv_def up_get_version_def simp del: length_0_conv)
  with inv s' UP_Init show ?thesis by (simp add: up_inv_def open_proposal_snoc)
next
  case (UP_Propose a h)
  with run inv show ?thesis
    by (auto simp: up_inv_def up_defs up_get_version_def outcome_simps host_simps
        fail_if_Inr_iff open_proposal_new upgraded_to_mono)
next
  case (UP_Confirm b h)
  with run inv show ?thesis
    by (auto simp: up_inv_def up_defs up_get_version_def outcome_simps host_simps fail_if_Inr_iff Let_def upgraded_to_new)
next
  case (UP_Cancel a)
  with run inv show ?thesis
    by (auto simp: up_inv_def up_defs up_get_version_def outcome_simps host_simps fail_if_Inr_iff upgraded_to_mono)
next
  case (UP_Transfer a b)
  with run inv show ?thesis
    by (auto simp: up_inv_def up_defs up_get_version_def outcome_simps host_simps
        fail_if_Inr_iff open_proposal_snoc upgraded_to_mono)
next
  case (UP_SetValue k v)
  with run inv show ?thesis
    by (auto simp: up_inv_def up_defs up_get_version_def open_proposal_snoc upgraded_to_mono)
qed

lemma up_inv_run: "up_inv (accepted up_exec cs (up_fresh w)) (run_calls up_exec cs (up_fresh w))"
proof (induction cs rule: rev_induct)
  case Nil
  show ?case by (simp add: up_inv_def up_fresh_def up_get_version_def)
next
  case (snoc x cs)
  obtain e c where x: "x = (e, c)" by (cases x)
  show ?case
    using snoc up_inv_step [OF snoc]
    by (cases "up_exec e c (run_calls up_exec cs (up_fresh w))")
      (simp_all add: run_calls_append accepted_append apply_call_def x)
qed

text \<open>
  The proxy runs another code only when the second approver has confirmed exactly that code, with its
  authorisation, while the admin's proposal of it was the last word on the matter; and the version
  counts the confirmed upgrades.
\<close>

lemma proxy_upgrades_take_two:
  assumes "s = run_calls up_exec cs (up_fresh w)" and "acc = accepted up_exec cs (up_fresh w)"
  shows "up_get_version s = 1 + length (filter (\<lambda>(e, c). \<exists>b h. c = UP_Confirm b h) acc)
    \<and> (\<forall>h. up_wasm s = Some h \<longrightarrow> (\<exists>b. up_approver s = Some b \<and> upgraded_to b h acc))"
  using up_inv_run [of cs w] assms by (simp add: up_inv_def)

text \<open>Anybody can write the store: \<open>set_value\<close> does not look at the invocation.\<close>

lemma store_open_to_everybody: "\<exists>s'. up_exec e (UP_SetValue k v) s = Inr s' \<and> get_value k s' = Some v"
  by (simp add: set_value_def get_value_def store_map_def)

end
