(* ===== verification/GuardContract.thy ===== *)
theory GuardContract
  imports AccessControl
begin

text \<open>
  The deployable reentrancy guard (\<open>reentrancy_guard/src/lib.rs\<close>): a registry other contracts report
  their entries and exits to, with call depths per contract and entry point, a depth limit and
  exempted patterns.  The second half shows that depths stay within the limit of 20, that an exit
  undoes an entry, and that anybody can use up the depth of a guarded contract.
\<close>

section \<open>State and operations\<close>

datatype rg_error =
    RG_AlreadyInitialized
  | RG_NotAuthorized
  | RG_MaxDepthExceeded
  | RG_InvalidEntryPoint
  | RG_PatternAlreadyAllowed
  | RG_PatternNotAllowed
  | RG_GuardNotActive
  | RG_InvalidMaxDepth
  | RG_InvalidExit

record 'w rg_state = "'w host" +
  rg_admin :: "address option"
  rg_active :: "address \<rightharpoonup> bool"
  rg_depth :: "address \<times> bytes32 \<rightharpoonup> nat"
  rg_max_depth :: "nat option"
  rg_patterns :: "bytes32 \<rightharpoonup> bool"
  rg_version :: "nat option"

definition rg_get_admin :: "'w rg_state \<Rightarrow> rg_error fault + address" where
  "rg_get_admin s = expect (rg_admin s) ''admin not set''"

definition rg_get_contract_version :: "'w rg_state \<Rightarrow> nat" where
  "rg_get_contract_version s = unwrap_or (rg_version s) 1"

definition get_max_call_depth :: "'w rg_state \<Rightarrow> nat" where
  "get_max_call_depth s = unwrap_or (rg_max_depth s) 5"

definition is_guard_active :: "address \<Rightarrow> 'w rg_state \<Rightarrow> bool" where
  "is_guard_active c s = unwrap_or (rg_active s c) False"

definition is_pattern_allowed :: "bytes32 \<Rightarrow> 'w rg_state \<Rightarrow> bool" where
  "is_pattern_allowed h s = unwrap_or (rg_patterns s h) False"

definition get_call_depth :: "address \<Rightarrow> bytes32 \<Rightarrow> 'w rg_state \<Rightarrow> nat" where
  "get_call_depth c h s = unwrap_or (rg_depth s (c, h)) 0"

definition set_call_depth :: "address \<Rightarrow> bytes32 \<Rightarrow> nat \<Rightarrow> 'w rg_state \<Rightarrow> 'w rg_state" where
  "set_call_depth c h n s = s\<lparr>rg_depth := (rg_depth s)((c, h) \<mapsto> n)\<rparr>"

definition rg_init :: "env \<Rightarrow> address \<Rightarrow> 'w rg_state \<Rightarrow> rg_error fault + 'w rg_state" where
  "rg_init e admin s =
     (if rg_admin s \<noteq> None then Inl (Err RG_AlreadyInitialized)
      else
      bindE (require_auth e admin) (\<lambda>_.
      Inr (publish [VSym ''reentrancy_guard'', VSym ''init''] [VAddr admin]
             (s\<lparr>rg_admin := Some admin, rg_version := Some 1, rg_max_depth := Some 5\<rparr>))))"

definition rg_require_admin :: "env \<Rightarrow> address \<Rightarrow> string \<Rightarrow> 'w rg_state \<Rightarrow> rg_error fault + unit" where
  "rg_require_admin e admin operation s =
     bindE (rg_get_admin s) (\<lambda>current. require_admin_permission e current admin operation RG_NotAuthorized s)"

definition rg_set_admin :: "env \<Rightarrow> address \<Rightarrow> address \<Rightarrow> 'w rg_state \<Rightarrow> rg_error fault + 'w rg_state" where
  "rg_set_admin e admin new_admin s =
     bindE (rg_require_admin e admin ''set_admin'' s) (\<lambda>_.
     Inr (publish [VSym ''reentrancy_guard'', VSym ''set_admin''] [VAddr admin, VAddr new_admin]
            (s\<lparr>rg_admin := Some new_admin\<rparr>)))"

definition set_max_call_depth :: "env \<Rightarrow> address \<Rightarrow> nat \<Rightarrow> 'w rg_state \<Rightarrow> rg_error fault + 'w rg_state" where
  "set_max_call_depth e admin max_depth s =
     bindE (rg_require_admin e admin ''set_max_call_depth'' s) (\<lambda>_.
     if max_depth = 0 \<or> 20 < max_depth then Inl (Err RG_InvalidMaxDepth)
     else Inr (publish [VSym ''reentrancy_guard'', VSym ''set_max_call_depth''] [VNat max_depth]
            (s\<lparr>rg_max_depth := Some max_depth\<rparr>)))"

definition activate_guard :: "env \<Rightarrow> address \<Rightarrow> address \<Rightarrow> 'w rg_state \<Rightarrow> rg_error fault + 'w rg_state" where
  "activate_guard e admin c s =
     bindE (rg_require_admin e admin ''activate_guard'' s) (\<lambda>_.
     Inr (publish [VSym ''reentrancy_guard'', VSym ''guard_activated''] [VAddr c]
            (s\<lparr>rg_active := (rg_active s)(c \<mapsto> True)\<rparr>)))"

definition deactivate_guard :: "env \<Rightarrow> address \<Rightarrow> address \<Rightarrow> 'w rg_state \<Rightarrow> rg_error fault + 'w rg_state" where
  "deactivate_guard e admin c s =
     bindE (rg_require_admin e admin ''deactivate_guard'' s) (\<lambda>_.
     Inr (publish [VSym ''reentrancy_guard'', VSym ''guard_deactivated''] [VAddr c]
            (s\<lparr>rg_active := (rg_active s)(c \<mapsto> False)\<rparr>)))"

definition allow_pattern :: "env \<Rightarrow> address \<Rightarrow> bytes32 \<Rightarrow> 'w rg_state \<Rightarrow> rg_error fault + 'w rg_state" where
  "allow_pattern e admin h s =
     bindE (rg_require_admin e admin ''allow_pattern'' s) (\<lambda>_.
     if is_pattern_allowed h s then Inl (Err RG_PatternAlreadyAllowed)
     else Inr (publish [VSym ''reentrancy_guard'', VSym ''pattern_allowed''] [VBytes h]
            (s\<lparr>rg_patterns := (rg_patterns s)(h \<mapsto> True)\<rparr>)))"

definition disallow_pattern :: "env \<Rightarrow> address \<Rightarrow> bytes32 \<Rightarrow> 'w rg_state \<Rightarrow> rg_error fault + 'w rg_state" where
  "disallow_pattern e admin h s =
     bindE (rg_require_admin e admin ''disallow_pattern'' s) (\<lambda>_.
     Inr (publish [VSym ''reentrancy_guard'', VSym ''pattern_disallowed''] [VBytes h]
            (s\<lparr>rg_patterns := (rg_patterns s)(h \<mapsto> False)\<rparr>)))"

text \<open>Neither \<open>enter\<close> nor \<open>exit\<close> looks at who calls.\<close>

definition rg_enter :: "address \<Rightarrow> bytes32 \<Rightarrow> 'w rg_state \<Rightarrow> rg_error fault + 'w rg_state" where
  "rg_enter c h s =
     (if \<not> is_guard_active c s then Inl (Err RG_GuardNotActive)
      else if is_pattern_allowed h s then Inr s
      else
      let depth = get_call_depth c h s; max_depth = get_max_call_depth s in
      if max_depth \<le> depth then Inl (Err RG_MaxDepthExceeded)
      else
      bindE (ck_u32 (depth + 1)) (\<lambda>deeper.
      Inr (publish [VSym ''reentrancy_guard'', VSym ''entered'', VAddr c] [VBytes h, VNat deeper]
             (set_call_depth c h deeper s))))"

definition rg_exit :: "address \<Rightarrow> bytes32 \<Rightarrow> 'w rg_state \<Rightarrow> rg_error fault + 'w rg_state" where
  "rg_exit c h s =
     (if \<not> is_guard_active c s then Inl (Err RG_GuardNotActive)
      else if is_pattern_allowed h s then Inr s
      else
      let depth = get_call_depth c h s in
      if depth = 0 then Inl (Err RG_InvalidExit)
      else Inr (publish [VSym ''reentrancy_guard'', VSym ''exited'', VAddr c] [VBytes h, VNat (depth - 1)]
             (set_call_depth c h (depth - 1) s)))"

datatype rg_call =
    RG_Init address
  | RG_SetAdmin address address
  | RG_SetMax address nat
  | RG_Activate address address
  | RG_Deactivate address address
  | RG_Allow address bytes32
  | RG_Disallow address bytes32
  | RG_Enter address bytes32
  | RG_Exit address bytes32

fun rg_exec :: "env \<Rightarrow> rg_call \<Rightarrow> 'w rg_state \<Rightarrow> rg_error fault + 'w rg_state" where
  "rg_exec e (RG_Init a) s = rg_init e a s"
| "rg_exec e (RG_SetAdmin a b) s = rg_set_admin e a b s"
| "rg_exec e (RG_SetMax a n) s = set_max_call_depth e a n s"
| "rg_exec e (RG_Activate a c) s = activate_guard e a c s"
| "rg_exec e (RG_Deactivate a c) s = deactivate_guard e a c s"
| "rg_exec e (RG_Allow a h) s = allow_pattern e a h s"
| "rg_exec e (RG_Disallow a h) s = disallow_pattern e a h s"
| "rg_exec e (RG_Enter c h) s = rg_enter c h s"
| "rg_exec e (RG_Exit c h) s = rg_exit c h s"

definition rg_fresh :: "'w \<Rightarrow> 'w rg_state" where
  "rg_fresh w = \<lparr>events = [], world = w, rg_admin = None, rg_active = Map.empty, rg_depth = Map.empty,
     rg_max_depth = None, rg_patterns = Map.empty, rg_version = None\<rparr>"

section \<open>Depths\<close>

definition rg_inv :: "'w rg_state \<Rightarrow> bool" where
  "rg_inv s \<longleftrightarrow> get_max_call_depth s \<le> 20 \<and> (\<forall>c h. get_call_depth c h s \<le> 20)"

lemma less_than_bound:
  fixes m n k :: nat
  shows "m \<le> k \<Longrightarrow> m - n \<le> k"
  by simp

interpretation rg_bounded: invariant_machine rg_exec any_call no_others rg_inv
proof
  fix s s' :: "'a rg_state" and e c
  assume "rg_inv s" and "rg_exec e c s = Inr s'"
  then show "rg_inv s'"
    by (cases c) (auto simp: rg_inv_def rg_init_def rg_set_admin_def set_max_call_depth_def activate_guard_def
        deactivate_guard_def allow_pattern_def disallow_pattern_def rg_enter_def rg_exit_def get_max_call_depth_def
        get_call_depth_def set_call_depth_def outcome_simps host_simps fail_if_Inr_iff Let_def
        intro!: less_than_bound split: if_splits)
qed (simp add: no_others_def)

lemma depths_bounded: "reach rg_exec any_call no_others (rg_fresh w) s \<Longrightarrow> get_call_depth c h s \<le> 20"
  using rg_bounded.reach_inv [of "rg_fresh w" s]
  by (simp add: rg_inv_def rg_fresh_def get_max_call_depth_def get_call_depth_def)

lemma exit_undoes_enter:
  assumes "rg_enter c h s = Inr s1"
  shows "\<exists>s2. rg_exit c h s1 = Inr s2 \<and> (\<forall>c' h'. get_call_depth c' h' s2 = get_call_depth c' h' s)"
  using assms
  by (auto simp: rg_enter_def rg_exit_def is_guard_active_def is_pattern_allowed_def get_call_depth_def
      set_call_depth_def outcome_simps host_simps fail_if_Inr_iff Let_def split: if_splits)

text \<open>
  Anybody can exhaust a guard: so many entries as are left, from any caller, and every entry of the
  guarded contract fails.
\<close>

lemma rg_enter_step:
  assumes "is_guard_active c s" and "\<not> is_pattern_allowed h s" and "get_call_depth c h s < get_max_call_depth s"
    and "get_max_call_depth s \<le> 20"
  shows "\<exists>s'. rg_enter c h s = Inr s' \<and> is_guard_active c s' \<and> \<not> is_pattern_allowed h s' \<and>
    get_call_depth c h s' = get_call_depth c h s + 1 \<and> get_max_call_depth s' = get_max_call_depth s"
  using assms
  by (simp add: rg_enter_def ck_u32_def set_call_depth_def is_guard_active_def is_pattern_allowed_def
      get_call_depth_def get_max_call_depth_def host_simps Let_def)

lemma anybody_exhausts_guard:
  assumes "is_guard_active c s" and "\<not> is_pattern_allowed h s" and "get_call_depth c h s \<le> get_max_call_depth s"
    and "get_max_call_depth s \<le> 20"
    and "cs = replicate (get_max_call_depth s - get_call_depth c h s) (e, RG_Enter c h)"
  shows "rg_enter c h (run_calls rg_exec cs s) = Inl (Err RG_MaxDepthExceeded)"
  using assms
proof (induction "get_max_call_depth s - get_call_depth c h s" arbitrary: s cs)
  case 0
  then show ?case by (simp add: rg_enter_def)
next
  case (Suc n)
  then have "get_call_depth c h s < get_max_call_depth s" by simp
  from rg_enter_step [OF Suc.prems(1,2) this Suc.prems(4)] obtain s'
    where s': "rg_enter c h s = Inr s'" "is_guard_active c s'" "\<not> is_pattern_allowed h s'"
      "get_call_depth c h s' = get_call_depth c h s + 1" "get_max_call_depth s' = get_max_call_depth s" by blast
  have cs: "cs = (e, RG_Enter c h) # replicate n (e, RG_Enter c h)"
    using Suc.hyps(2) Suc.prems(5) by (metis replicate_Suc)
  have left: "n = get_max_call_depth s' - get_call_depth c h s'" using Suc.hyps(2) s' by simp
  from Suc.hyps(1) [OF left s'(2,3) _ _ refl] left s'(4,5) Suc.prems(4) Suc.hyps(2)
  have "rg_enter c h (run_calls rg_exec (replicate n (e, RG_Enter c h)) s') = Inl (Err RG_MaxDepthExceeded)" by simp
  with cs s'(1) show ?case by (simp add: apply_call_def)
qed

end
