(* ===== verification/AllowlistRegistry.thy ===== *)
theory AllowlistRegistry
  imports Machines "HOL-Library.AList"
begin

text \<open>
  The allowlist (\<open>allowlist_registry/src/lib.rs\<close>): addresses with a label and an expiry, added one by one or
  in bulk by the admin.  The registry is an association list; the ledger sequence number is an
  argument of the additions.  The second half shows membership as what the last accepted addition
  or removal of an address made of it.
\<close>

section \<open>State and operations\<close>

record al_entry =
  ale_label :: string
  ale_expires_at :: nat
  ale_added_at :: nat

datatype al_error =
    AL_NotInitialized
  | AL_AlreadyInitialized
  | AL_Unauthorized
  | AL_EntryNotFound
  | AL_AlreadyExists
  | AL_InvalidExpiry

record 'w al_state = "'w host" +
  al_admin :: "address option"
  al_registry :: "(address \<times> al_entry) list option"

definition al_get_admin :: "'w al_state \<Rightarrow> al_error fault + address" where
  "al_get_admin s = ok_or (al_admin s) AL_NotInitialized"

definition registry :: "'w al_state \<Rightarrow> (address \<times> al_entry) list" where
  "registry s = unwrap_or (al_registry s) []"

definition save_registry :: "(address \<times> al_entry) list \<Rightarrow> 'w al_state \<Rightarrow> 'w al_state" where
  "save_registry reg s = s\<lparr>al_registry := Some reg\<rparr>"

definition is_expired :: "al_entry \<Rightarrow> nat \<Rightarrow> bool" where
  "is_expired entry now \<longleftrightarrow> ale_expires_at entry \<noteq> 0 \<and> ale_expires_at entry \<le> now"

definition al_initialize :: "address \<Rightarrow> 'w al_state \<Rightarrow> al_error fault + 'w al_state" where
  "al_initialize admin s =
     (if al_admin s \<noteq> None then Inl (Err AL_AlreadyInitialized) else Inr (s\<lparr>al_admin := Some admin\<rparr>))"

definition al_require_admin :: "env \<Rightarrow> address \<Rightarrow> 'w al_state \<Rightarrow> al_error fault + unit" where
  "al_require_admin e caller s =
     bindE (require_auth e caller) (\<lambda>_.
     bindE (al_get_admin s) (\<lambda>adm.
     if caller \<noteq> adm then Inl (Err AL_Unauthorized) else Inr ()))"

definition al_add ::
  "env \<Rightarrow> nat \<Rightarrow> address \<Rightarrow> address \<Rightarrow> string \<Rightarrow> nat \<Rightarrow> 'w al_state \<Rightarrow> al_error fault + 'w al_state" where
  "al_add e ledger caller addr label expires_at s =
     bindE (al_require_admin e caller s) (\<lambda>_.
     if expires_at \<noteq> 0 \<and> expires_at \<le> timestamp e then Inl (Err AL_InvalidExpiry)
     else
     let entry = \<lparr>ale_label = label, ale_expires_at = expires_at, ale_added_at = ledger\<rparr>
     in Inr (publish [VSym ''add'', VAddr addr] [VStr label, VNat expires_at]
            (save_registry (AList.update addr entry (registry s)) s)))"

definition al_remove :: "env \<Rightarrow> address \<Rightarrow> address \<Rightarrow> 'w al_state \<Rightarrow> al_error fault + 'w al_state" where
  "al_remove e caller addr s =
     bindE (al_require_admin e caller s) (\<lambda>_.
     if map_of (registry s) addr = None then Inl (Err AL_EntryNotFound)
     else Inr (publish [VSym ''remove'', VAddr addr] [] (save_registry (AList.delete addr (registry s)) s)))"

fun bulk_loop ::
  "nat \<Rightarrow> nat \<Rightarrow> (address \<times> string \<times> nat) list \<Rightarrow> (address \<times> al_entry) list \<Rightarrow> nat \<Rightarrow>
   al_error fault + (address \<times> al_entry) list \<times> nat" where
  "bulk_loop now ledger [] reg count = Inr (reg, count)"
| "bulk_loop now ledger ((addr, label, expires_at) # es) reg count =
     (if expires_at \<noteq> 0 \<and> expires_at \<le> now then bulk_loop now ledger es reg count
      else
      let entry = \<lparr>ale_label = label, ale_expires_at = expires_at, ale_added_at = ledger\<rparr> in
      bindE (ck_u32 (count + 1)) (\<lambda>n. bulk_loop now ledger es (AList.update addr entry reg) n))"

definition bulk_add ::
  "env \<Rightarrow> nat \<Rightarrow> address \<Rightarrow> (address \<times> string \<times> nat) list \<Rightarrow> 'w al_state \<Rightarrow> al_error fault + nat \<times> 'w al_state" where
  "bulk_add e ledger caller es s =
     bindE (al_require_admin e caller s) (\<lambda>_.
     bindE (bulk_loop (timestamp e) ledger es (registry s) 0) (\<lambda>(reg, count).
     Inr (count, publish [VSym ''bulk_add''] [VNat count] (save_registry reg s))))"

definition is_member :: "env \<Rightarrow> address \<Rightarrow> 'w al_state \<Rightarrow> bool" where
  "is_member e addr s =
     (case map_of (registry s) addr of None \<Rightarrow> False | Some entry \<Rightarrow> \<not> is_expired entry (timestamp e))"

definition get_entry :: "env \<Rightarrow> address \<Rightarrow> 'w al_state \<Rightarrow> al_error fault + al_entry" where
  "get_entry e addr s =
     (case map_of (registry s) addr of
        None \<Rightarrow> Inl (Err AL_EntryNotFound)
      | Some entry \<Rightarrow> if is_expired entry (timestamp e) then Inl (Err AL_EntryNotFound) else Inr entry)"

definition member_count :: "env \<Rightarrow> 'w al_state \<Rightarrow> nat" where
  "member_count e s = length (filter (\<lambda>(_, entry). \<not> is_expired entry (timestamp e)) (registry s)) mod 2 ^ 32"

datatype al_call =
    AL_Initialize address
  | AL_Add nat address address string nat
  | AL_Remove address address
  | AL_BulkAdd nat address "(address \<times> string \<times> nat) list"

fun al_exec :: "env \<Rightarrow> al_call \<Rightarrow> 'w al_state \<Rightarrow> al_error fault + 'w al_state" where
  "al_exec e (AL_Initialize a) s = al_initialize a s"
| "al_exec e (AL_Add l c u m x) s = al_add e l c u m x s"
| "al_exec e (AL_Remove c u) s = al_remove e c u s"
| "al_exec e (AL_BulkAdd l c es) s = drop_result (bulk_add e l c es s)"

definition al_fresh :: "'w \<Rightarrow> 'w al_state" where
  "al_fresh w = \<lparr>events = [], world = w, al_admin = None, al_registry = None\<rparr>"

section \<open>Membership\<close>

text \<open>
  The abstract list: a map from addresses to entries.  A call of the admin changes it address by
  address; expired additions of a bulk are skipped.
\<close>

fun add_all ::
  "nat \<Rightarrow> nat \<Rightarrow> (address \<times> string \<times> nat) list \<Rightarrow> (address \<rightharpoonup> al_entry) \<Rightarrow> (address \<rightharpoonup> al_entry)" where
  "add_all now ledger [] m = m"
| "add_all now ledger ((u, l, x) # es) m =
     add_all now ledger es
       (if x \<noteq> 0 \<and> x \<le> now then m else m(u \<mapsto> \<lparr>ale_label = l, ale_expires_at = x, ale_added_at = ledger\<rparr>))"

fun al_step :: "env \<Rightarrow> al_call \<Rightarrow> (address \<rightharpoonup> al_entry) \<Rightarrow> (address \<rightharpoonup> al_entry) option" where
  "al_step e (AL_Initialize a) m = Some m"
| "al_step e (AL_Add l c u n x) m =
     Some (m(u \<mapsto> \<lparr>ale_label = n, ale_expires_at = x, ale_added_at = l\<rparr>))"
| "al_step e (AL_Remove c u) m = Some (m(u := None))"
| "al_step e (AL_BulkAdd l c es) m = Some (add_all (timestamp e) l es m)"

definition al_inv :: "'w al_state \<Rightarrow> bool" where
  "al_inv s \<longleftrightarrow> distinct (map fst (registry s))"

lemma bulk_loop_Inr:
  assumes "bulk_loop now l es reg n = Inr (reg', n')" and "distinct (map fst reg)"
  shows "map_of reg' = add_all now l es (map_of reg) \<and> distinct (map fst reg')"
  using assms
proof (induction es arbitrary: reg n)
  case (Cons x es)
  obtain u m t where x: "x = (u, m, t)" by (cases x) auto
  show ?case
  proof (cases "t \<noteq> 0 \<and> t \<le> now")
    case True
    with Cons x show ?thesis by simp
  next
    case False
    with Cons.prems x obtain k
      where "bulk_loop now l es (AList.update u \<lparr>ale_label = m, ale_expires_at = t, ale_added_at = l\<rparr> reg) k = Inr (reg', n')"
      by (auto simp: outcome_simps Let_def simp del: de_Morgan_conj)
    from Cons.IH [OF this] Cons.prems(2) False show ?thesis
      by (auto simp: x AList.update_conv AList.distinct_update fun_upd_def)
  qed
qed simp

interpretation al_list: refinement al_exec al_step "\<lambda>s. map_of (registry s)" al_inv
proof
  fix s s' :: "'a al_state" and e c
  assume inv: "al_inv s" and run: "al_exec e c s = Inr s'"
  have "al_step e c (map_of (registry s)) = Some (map_of (registry s')) \<and> al_inv s'"
  proof (cases c)
    case (AL_BulkAdd l a es)
    with run obtain reg n where "bulk_loop (timestamp e) l es (registry s) 0 = Inr (reg, n)"
      and s': "registry s' = reg"
      by (auto simp: bulk_add_def save_registry_def registry_def outcome_simps host_simps)
    with bulk_loop_Inr [OF this(1)] inv AL_BulkAdd show ?thesis by (simp add: al_inv_def)
  qed (use run inv in \<open>auto simp: al_initialize_def al_add_def al_remove_def al_inv_def registry_def save_registry_def
      update_conv' delete_conv' distinct_update distinct_delete outcome_simps host_simps fail_if_Inr_iff Let_def\<close>)
  then show "al_step e c (map_of (registry s)) = Some (map_of (registry s'))" and "al_inv s'" by simp_all
qed

text \<open>
  Membership in every history is that of the abstract list after the accepted calls, less what has
  expired, and the count is the number of members.
\<close>

lemma membership_refines:
  assumes "s = run_calls al_exec cs (al_fresh w)"
  shows "\<exists>m. spec_run al_step (accepted al_exec cs (al_fresh w)) Map.empty = Some m \<and>
    (\<forall>e u. is_member e u s \<longleftrightarrow> (\<exists>x. m u = Some x \<and> (ale_expires_at x = 0 \<or> timestamp e < ale_expires_at x)))"
proof -
  have "al_inv (al_fresh w)" "map_of (registry (al_fresh w)) = Map.empty"
    by (simp_all add: al_inv_def registry_def al_fresh_def)
  from al_list.run_refines [OF this(1), of cs] this(2) assms
  have "spec_run al_step (accepted al_exec cs (al_fresh w)) Map.empty = Some (map_of (registry s))" by simp
  then show ?thesis
    by (auto simp: is_member_def is_expired_def split: option.splits)
qed

end
