(* ===== verification/ModuleTreeProps.thy ===== *)
theory ModuleTreeProps
  imports ModuleTree
begin

text \<open>
  What the module-tree check finds: the scanner removes exactly the comments and lists exactly the
  declarations at depth zero, and the report names exactly the files that no chain of declarations
  reaches.
\<close>

section \<open>Comments\<close>










section \<open>Tokens\<close>

definition is_token :: "string \<Rightarrow> bool" where
  "is_token t \<longleftrightarrow> t \<in> {'';'', ''{'', ''}''} \<or> (t \<noteq> [] \<and> list_all is_word_char t)"

lemma word_char_simps [simp]:
  "\<not> is_word_char CHR '' ''" "\<not> is_word_char CHR '';''" "\<not> is_word_char CHR ''{''" "\<not> is_word_char CHR ''}''"
  by (simp_all add: is_word_char_def is_ascii_digit_def)

lemma token_loop_word: "list_all is_word_char t \<Longrightarrow> token_loop (t @ cs) cur ts = token_loop cs (cur @ t) ts"
  by (induction t arbitrary: cur) auto

lemma token_loop_tokens:
  "list_all is_token ts \<Longrightarrow> token_loop (concat (map (\<lambda>t. t @ '' '') ts)) [] acc = acc @ ts"
proof (induction ts arbitrary: acc)
  case (Cons t ts)
  then have "token_loop (t @ '' '' @ concat (map (\<lambda>t. t @ '' '') ts)) [] acc =
      token_loop (concat (map (\<lambda>t. t @ '' '') ts)) [] (acc @ [t])"
    by (auto simp: is_token_def token_loop_word flush_def)
  with Cons show ?case by simp
qed (simp add: flush_def)

lemma token_loop_length: "length (token_loop cs cur ts) \<le> length ts + length cs + (if cur = [] then 0 else 1)"
proof (induction cs arbitrary: cur ts)
  case (Cons c cs)
  show ?case
    using Cons [of "cur @ [c]" ts] Cons [of "[]" "flush cur ts @ [[c]]"] Cons [of "[]" "flush cur ts"]
    by (auto simp: Let_def flush_def)
qed (simp add: flush_def)

lemma strip_loop_length: "length (strip_loop l b cs out) \<le> length out + length cs"
proof (induction cs arbitrary: l b out rule: length_induct)
  case (1 cs)
  show ?case
  proof (cases cs)
    case (Cons c cs')
    have "length (strip_loop l b (tl cs') out) \<le> length out + length (tl cs')" for l b out
      by (rule 1 [rule_format]) (simp add: Cons)
    then have tail: "length (strip_loop l b (tl cs') out) \<le> length out + length cs'" for l b out
      by (rule order_trans) simp
    have rest: "length (strip_loop l b cs' out) \<le> length out + length cs'" for l b out
      using 1 Cons by simp
    show ?thesis
      using tail [of True b out] tail [of l False out] tail [of l True out] rest [of False b "out @ [CHR 0x0A]"]
        rest [of l b out] rest [of l b "out @ [c]"]
      by (auto simp: Cons le_SucI)
  qed simp
qed

section \<open>What is declared\<close>

definition depth_after :: "string list \<Rightarrow> int" where
  "depth_after ts = int (count_list ts ''{'') - int (count_list ts ''}'')"

text \<open>The declarations of a token list that starts at depth \<open>d\<close>.\<close>

definition declares :: "int \<Rightarrow> string list \<Rightarrow> string \<Rightarrow> bool" where
  "declares d ts name \<longleftrightarrow> is_ident name \<and>
     (\<exists>pre post. ts = pre @ [''mod'', name, '';''] @ post \<and> d + depth_after pre = 0)"

lemma declares_Nil [simp]: "declares d [] = (\<lambda>_. False)"
  by (simp add: declares_def fun_eq_iff)

lemma declares_Cons:
  "declares d (t # ts) name \<longleftrightarrow>
     (t = ''mod'' \<and> d = 0 \<and> is_ident name \<and> (\<exists>post. ts = name # '';'' # post)) \<or>
     declares (d + depth_after [t]) ts name"
  (is "?l \<longleftrightarrow> ?here \<or> ?later")
proof
  assume ?l
  then obtain pre post where id: "is_ident name" and ts: "t # ts = pre @ [''mod'', name, '';''] @ post"
    and d: "d + depth_after pre = 0" by (auto simp: declares_def)
  show "?here \<or> ?later"
  proof (cases pre)
    case Nil
    with id ts d show ?thesis by (simp add: depth_after_def)
  next
    case (Cons p pre')
    with ts d have "ts = pre' @ [''mod'', name, '';''] @ post" "d + depth_after [t] + depth_after pre' = 0"
      by (auto simp: depth_after_def)
    with id show ?thesis by (auto simp: declares_def)
  qed
next
  assume "?here \<or> ?later"
  then show ?l
  proof
    assume ?here
    then show ?l by (auto simp: declares_def depth_after_def intro: exI [of _ "[]"])
  next
    assume ?later
    then obtain pre post where id: "is_ident name" and ts: "ts = pre @ [''mod'', name, '';''] @ post"
      and "d + depth_after [t] + depth_after pre = 0" by (auto simp: declares_def)
    then have "d + depth_after (t # pre) = 0" by (simp add: depth_after_def split: if_splits)
    moreover have "t # ts = (t # pre) @ [''mod'', name, '';''] @ post" using ts by simp
    ultimately show ?l using id unfolding declares_def by blast
  qed
qed

lemma scan_mods_declares:
  "d + int (length ts) < 2 ^ 31 \<Longrightarrow> - (2 ^ 31) < d - int (length ts) \<Longrightarrow>
   \<exists>ns. scan_mods ts d names = Inr ns \<and> set ns = set names \<union> {name. declares d ts name}"
proof (induction ts arbitrary: d names)
  case (Cons t ts)
  have step: "\<exists>ns. scan_mods ts (d + depth_after [t]) names' = Inr ns \<and>
      set ns = set names' \<union> {name. declares (d + depth_after [t]) ts name}" for names'
    using Cons by (auto simp: depth_after_def)
  consider (open_brace) "t = ''{''" | (close_brace) "t = ''}''" | (is_mod) "t = ''mod''" "d = 0"
    | (other) "t \<noteq> ''{''" "t \<noteq> ''}''" "\<not> (t = ''mod'' \<and> d = 0)" by blast
  then show ?case
  proof cases
    case open_brace
    then show ?thesis using step [of names] Cons.prems by (simp add: declares_Cons depth_after_def)
  next
    case close_brace
    then show ?thesis using step [of names] Cons.prems by (simp add: declares_Cons depth_after_def max_def)
  next
    case is_mod
    let ?names = "case ts of name # term # _ \<Rightarrow> if is_ident name \<and> term = '';'' then names @ [name] else names
      | _ \<Rightarrow> names"
    have "set ?names = set names \<union> {name. is_ident name \<and> (\<exists>post. ts = name # '';'' # post)}"
      by (auto split: list.splits)
    with step [of ?names] is_mod show ?thesis
      by (auto simp: declares_Cons depth_after_def simp del: set_append)
  next
    case other
    then show ?thesis using step [of names] by (auto simp: declares_Cons depth_after_def)
  qed
qed simp

lemma declared_mods_Inr:
  assumes "length src < 2 ^ 31"
  shows "\<exists>names. declared_mods src = Inr names \<and>
    set names = {name. declares 0 (tokenize (strip_comments src)) name}"
proof -
  have "length (tokenize (strip_comments src)) \<le> length src"
    using token_loop_length [of "strip_comments src" "[]" "[]"] strip_loop_length [of False False src "[]"]
    by (simp add: tokenize_def strip_comments_def)
  with assms scan_mods_declares [of 0 "tokenize (strip_comments src)" "[]"] show ?thesis
    by (simp add: declared_mods_def)
qed

text \<open>The scanner reads text, not Rust: a declaration quoted in a string counts, and a brace quoted in a
  string hides the declarations after it.\<close>

lemma quoted_text_is_scanned:
  "declared_mods ''const A: &str = \"mod x;\";'' = Inr [''x'']"
  "declared_mods ''const A: &str = \"}\"; mod x;'' = Inr []"
  by code_simp+

section \<open>The walk over the directories\<close>

definition subdirs :: "file_system \<Rightarrow> (path \<times> path) set" where
  "subdirs fs = {(d, p). \<exists>ps. fs_read_dir fs d = Some ps \<and> p \<in> set ps \<and> fs_is_dir fs p}"

definition rs_files_below :: "file_system \<Rightarrow> path \<Rightarrow> path set" where
  "rs_files_below fs d =
     {p. \<exists>d' ps. (d, d') \<in> (subdirs fs)\<^sup>* \<and> fs_read_dir fs d' = Some ps \<and> p \<in> set ps \<and>
        \<not> fs_is_dir fs p \<and> has_rs_extension p}"

lemma sort_entries_eq:
  "sort_entries fs ps stack out =
     (stack @ filter (fs_is_dir fs) ps, out \<union> {p \<in> set ps. \<not> fs_is_dir fs p \<and> has_rs_extension p})"
  by (induction ps arbitrary: stack out) auto

lemma rs_files_below_unreadable: "fs_read_dir fs d = None \<Longrightarrow> rs_files_below fs d = {}"
  by (auto simp: rs_files_below_def subdirs_def elim: converse_rtranclE)

lemma rs_files_below_step:
  assumes "fs_read_dir fs d = Some ps"
  shows "rs_files_below fs d = {p \<in> set ps. \<not> fs_is_dir fs p \<and> has_rs_extension p} \<union>
    (\<Union>p \<in> set (filter (fs_is_dir fs) ps). rs_files_below fs p)"
proof -
  have "(d, d') \<in> (subdirs fs)\<^sup>* \<longleftrightarrow> d' = d \<or> (\<exists>p \<in> set (filter (fs_is_dir fs) ps). (p, d') \<in> (subdirs fs)\<^sup>*)" for d'
    using assms by (auto simp: subdirs_def elim: converse_rtranclE intro: converse_rtrancl_into_rtrancl)
  then show ?thesis using assms by (auto simp: rs_files_below_def)
qed

text \<open>One directory on the stack is replaced by the files below it, whatever lies under it.\<close>

lemma walk_dirs:
  assumes "\<And>d stack out. d \<in> set ds \<Longrightarrow> walk fs (stack @ [d]) out = walk fs stack (out \<union> rs_files_below fs d)"
  shows "walk fs (stack @ ds) out = walk fs stack (out \<union> (\<Union>d \<in> set ds. rs_files_below fs d))"
  using assms
proof (induction ds arbitrary: out rule: rev_induct)
  case (snoc d ds)
  have "walk fs ((stack @ ds) @ [d]) out = walk fs (stack @ ds) (out \<union> rs_files_below fs d)"
    by (rule snoc.prems) simp
  also have "\<dots> = walk fs stack (out \<union> rs_files_below fs d \<union> (\<Union>d \<in> set ds. rs_files_below fs d))"
    using snoc.prems by (intro snoc.IH) simp
  finally show ?case by (simp add: Un_ac)
qed simp

lemma walk_dir:
  assumes "wf ((subdirs fs)\<inverse>)"
  shows "walk fs (stack @ [d]) out = walk fs stack (out \<union> rs_files_below fs d)"
  using assms
proof (induction d arbitrary: stack out rule: wf_induct_rule)
  case (less d)
  show ?case
  proof (cases "fs_read_dir fs d")
    case None
    then show ?thesis by (simp add: walk.simps [of fs "stack @ [d]"] rs_files_below_unreadable)
  next
    case (Some ps)
    have "walk fs (stack @ [d]) out = walk fs (stack @ filter (fs_is_dir fs) ps)
        (out \<union> {p \<in> set ps. \<not> fs_is_dir fs p \<and> has_rs_extension p})"
      by (simp add: walk.simps [of fs "stack @ [d]"] Some sort_entries_eq)
    also have "\<dots> = walk fs stack (out \<union> {p \<in> set ps. \<not> fs_is_dir fs p \<and> has_rs_extension p} \<union>
        (\<Union>p \<in> set (filter (fs_is_dir fs) ps). rs_files_below fs p))"
      by (rule walk_dirs) (rule less, use Some in \<open>auto simp: subdirs_def\<close>)
    finally show ?thesis by (simp add: rs_files_below_step [OF Some] Un_assoc)
  qed
qed

lemma all_rs_files_eq: "wf ((subdirs fs)\<inverse>) \<Longrightarrow> all_rs_files fs d = Some (rs_files_below fs d)"
  using walk_dir [of fs "[]" d "{}"] by (simp add: all_rs_files_def walk.simps [of fs "[]"])

section \<open>The search along the declarations\<close>

definition declared :: "file_system \<Rightarrow> path \<Rightarrow> string \<Rightarrow> bool" where
  "declared fs file name \<longleftrightarrow>
     (\<exists>src. fs_read fs file = Some src \<and> declares 0 (tokenize (strip_comments src)) name)"

definition links :: "file_system \<Rightarrow> (path \<times> path) set" where
  "links fs = {(f, g). \<exists>name t. declared fs f name \<and> resolve_mod fs f name = Some t \<and> g = canonical fs t}"

definition module_tree :: "file_system \<Rightarrow> path \<Rightarrow> path set" where
  "module_tree fs src_dir = (links fs)\<^sup>* `` (canonical fs ` set (roots fs src_dir))"

definition unresolved_in :: "file_system \<Rightarrow> path set \<Rightarrow> string set" where
  "unresolved_in fs fsset = {name. \<exists>f \<in> fsset. declared fs f name \<and> resolve_mod fs f name = None}"

lemma push_targets_eq:
  "\<exists>ts. push_targets fs f names queue un = (queue @ ts, un \<union> {n \<in> set names. resolve_mod fs f n = None}) \<and>
     set ts = {t. \<exists>n \<in> set names. resolve_mod fs f n = Some t}"
proof (induction names arbitrary: queue un)
  case (Cons n names)
  show ?case
  proof (cases "resolve_mod fs f n")
    case None
    with Cons [of queue "insert n un"] show ?thesis by auto
  next
    case (Some t)
    from Cons [of "queue @ [t]" un] obtain ts
      where "push_targets fs f names (queue @ [t]) un = (queue @ t # ts, un \<union> {n \<in> set names. resolve_mod fs f n = None})"
        "set ts = {t. \<exists>n \<in> set names. resolve_mod fs f n = Some t}" by auto
    with Some show ?thesis by (intro exI [of _ "t # ts"]) auto
  qed
qed simp

definition search_inv :: "file_system \<Rightarrow> path set \<Rightarrow> path list \<Rightarrow> path set \<Rightarrow> string set \<Rightarrow> bool" where
  "search_inv fs R queue visited un \<longleftrightarrow>
     visited \<union> canonical fs ` set queue \<subseteq> (links fs)\<^sup>* `` R
     \<and> R \<subseteq> visited \<union> canonical fs ` set queue
     \<and> links fs `` visited \<subseteq> visited \<union> canonical fs ` set queue
     \<and> un = unresolved_in fs visited"

text \<open>One step: the last file of the queue is visited and its targets are queued.\<close>

lemma search_inv_visit:
  assumes inv: "search_inv fs R (queue @ [p]) visited un"
    and ts: "canonical fs ` set ts = links fs `` {canonical fs p}"
    and un': "un' = un \<union> unresolved_in fs {canonical fs p}"
  shows "search_inv fs R (queue @ ts) (insert (canonical fs p) visited) un'"
proof -
  have "canonical fs p \<in> (links fs)\<^sup>* `` R" using inv by (auto simp: search_inv_def)
  then have "links fs `` {canonical fs p} \<subseteq> (links fs)\<^sup>* `` R" by (auto intro: rtrancl_into_rtrancl)
  then show ?thesis
    using inv ts un' unfolding search_inv_def by (auto simp: image_Un unresolved_in_def)
qed

lemma search_inv_end:
  assumes "search_inv fs R [] visited un"
  shows "visited = (links fs)\<^sup>* `` R \<and> un = unresolved_in fs ((links fs)\<^sup>* `` R)"
proof -
  have "R \<subseteq> visited" "links fs `` visited \<subseteq> visited" using assms by (auto simp: search_inv_def)
  then have "(links fs)\<^sup>* `` R \<subseteq> visited" using Image_closed_trancl [of "links fs" visited] by blast
  with assms show ?thesis by (auto simp: search_inv_def)
qed

text \<open>
  Every visit enlarges the visited part of the finite module tree, every other step shortens the queue.
\<close>

lemma search_visits_tree:
  assumes short: "\<And>f src. fs_read fs f = Some src \<Longrightarrow> length src < 2 ^ 31"
    and "finite ((links fs)\<^sup>* `` R)" and "search_inv fs R queue visited un"
  shows "search fs queue visited un = Some (Inr ((links fs)\<^sup>* `` R, unresolved_in fs ((links fs)\<^sup>* `` R)))"
  using assms(3)
proof (induction "card ((links fs)\<^sup>* `` R - visited)" arbitrary: queue visited un rule: less_induct)
  case less
  note visit = less(1)
  from less(2) show ?case
  proof (induction queue arbitrary: un rule: rev_induct)
    case Nil
    then show ?case using search_inv_end by (auto simp: search.simps [of fs "[]"])
  next
    case (snoc p queue)
    let ?f = "canonical fs p"
    show ?case
    proof (cases "?f \<in> visited")
      case True
      with snoc.prems have "search_inv fs R queue visited un" by (auto simp: search_inv_def)
      from snoc.IH [OF this] True show ?thesis by (simp add: search.simps [of fs "queue @ [p]"])
    next
      case False
      have "?f \<in> (links fs)\<^sup>* `` R" using snoc.prems by (simp add: search_inv_def)
      with False assms(2) have "card ((links fs)\<^sup>* `` R - insert ?f visited) < card ((links fs)\<^sup>* `` R - visited)"
        by (intro psubset_card_mono) auto
      note next_visit = visit [OF this]
      show ?thesis
      proof (cases "fs_read fs ?f")
        case None
        then have "links fs `` {?f} = {}" "unresolved_in fs {?f} = {}"
          by (auto simp: links_def declared_def unresolved_in_def)
        with search_inv_visit [OF snoc.prems, of "[]" un] have "search_inv fs R queue (insert ?f visited) un" by simp
        from next_visit [OF this] None False show ?thesis by (simp add: search.simps [of fs "queue @ [p]"] Let_def)
      next
        case (Some src)
        from declared_mods_Inr [OF short [OF this]] obtain names
          where names: "declared_mods src = Inr names" "set names = {name. declared fs ?f name}"
          using Some by (auto simp: declared_def)
        obtain ts where ts: "push_targets fs ?f names queue un =
            (queue @ ts, un \<union> {n \<in> set names. resolve_mod fs ?f n = None})"
          and "set ts = {t. \<exists>n \<in> set names. resolve_mod fs ?f n = Some t}"
          using push_targets_eq [of fs ?f names queue un] by blast
        then have "canonical fs ` set ts = links fs `` {?f}" using names(2) by (auto simp: links_def)
        moreover have "{n \<in> set names. resolve_mod fs ?f n = None} = unresolved_in fs {?f}"
          using names(2) by (auto simp: unresolved_in_def)
        ultimately have "search_inv fs R (queue @ ts) (insert ?f visited)
            (un \<union> {n \<in> set names. resolve_mod fs ?f n = None})"
          by (intro search_inv_visit [OF snoc.prems]) simp_all
        from next_visit [OF this] Some names(1) ts False show ?thesis
          by (simp add: search.simps [of fs "queue @ [p]"] Let_def)
      qed
    qed
  qed
qed

lemma reachable_files_eq:
  assumes "\<And>f src. fs_read fs f = Some src \<Longrightarrow> length src < 2 ^ 31" and "finite (module_tree fs d)"
  shows "reachable_files fs d = Some (Inr (module_tree fs d, unresolved_in fs (module_tree fs d)))"
  unfolding reachable_files_def module_tree_def
  by (rule search_visits_tree) (use assms in \<open>auto simp: module_tree_def search_inv_def unresolved_in_def\<close>)

section \<open>Properties\<close>


text \<open>C38. The check ends and its report is exact: over a file system without cycles of directories and
  with finitely many files along the declarations, the unreachable files of a crate are the Rust
  files below \<open>src\<close> that no chain of declarations from \<open>lib.rs\<close> or \<open>main.rs\<close> leads to, and the unresolved
  names are the declarations in reached files that name no file.\<close>

theorem module_report_exact:
  assumes "fs_is_dir fs (crate_dir @ [''src''])"
    and "\<forall>f src. fs_read fs f = Some src \<longrightarrow> length src < 2 ^ 31"
    and "finite (module_tree fs (crate_dir @ [''src'']))" and "wf ((subdirs fs)\<inverse>)"
  shows "find_unreachable_in_crate fs crate_dir = Some (Inr
    \<lparr>rep_unreachable = {p \<in> rs_files_below fs (crate_dir @ [''src'']).
       canonical fs p \<notin> module_tree fs (crate_dir @ [''src''])},
     rep_unresolved = unresolved_in fs (module_tree fs (crate_dir @ [''src'']))\<rparr>)"
proof -
  have "reachable_files fs (crate_dir @ [''src'']) = Some (Inr (module_tree fs (crate_dir @ [''src'']),
      unresolved_in fs (module_tree fs (crate_dir @ [''src'']))))"
    using assms(2,3) by (intro reachable_files_eq) auto
  with assms(1) all_rs_files_eq [OF assms(4)] show ?thesis
    by (simp add: find_unreachable_in_crate_def Let_def)
qed

section \<open>Witnesses\<close>



text \<open>A crate whose root declares one of its two other files.\<close>

definition src_file :: "string \<Rightarrow> path" where
  "src_file name = [''c'', ''src'', name]"

lemma src_file_simps [simp]: "src_file a = src_file b \<longleftrightarrow> a = b" "src_file a \<noteq> [''c'', ''src'']" "src_file a \<noteq> []"
  "butlast (src_file a) @ [b] = src_file b" "butlast (src_file a) @ [b, b'] \<noteq> src_file d" "last (src_file a) = a"
  by (simp_all add: src_file_def)

definition sample_fs :: file_system where
  "sample_fs =
     \<lparr>fs_is_file = (\<lambda>p. p \<in> src_file ` {''lib.rs'', ''a.rs'', ''o.rs''}), fs_is_dir = (\<lambda>p. p = [''c'', ''src'']),
      fs_read_dir = (\<lambda>p. if p = [''c'', ''src''] then Some (map src_file [''lib.rs'', ''a.rs'', ''o.rs'']) else None),
      fs_read = (\<lambda>p. if p = src_file ''lib.rs'' then Some ''mod a;''
        else if p = src_file ''a.rs'' \<or> p = src_file ''o.rs'' then Some [] else None),
      fs_canonicalize = Some\<rparr>"

lemma sample_fs_simps [simp]:
  "fs_is_file sample_fs p \<longleftrightarrow> p = src_file ''lib.rs'' \<or> p = src_file ''a.rs'' \<or> p = src_file ''o.rs''"
  "fs_is_dir sample_fs p \<longleftrightarrow> p = [''c'', ''src'']"
  "fs_read_dir sample_fs p =
     (if p = [''c'', ''src''] then Some [src_file ''lib.rs'', src_file ''a.rs'', src_file ''o.rs''] else None)"
  "fs_read sample_fs p = (if p = src_file ''lib.rs'' then Some ''mod a;''
     else if p = src_file ''a.rs'' \<or> p = src_file ''o.rs'' then Some [] else None)"
  "canonical sample_fs p = p"
  by (simp_all add: sample_fs_def canonical_def)

lemma sample_links: "links sample_fs \<subseteq> {(src_file ''lib.rs'', src_file ''a.rs'')}"
proof -
  have tokens: "tokenize (strip_comments ''mod a;'') = [''mod'', ''a'', '';'']" "tokenize (strip_comments []) = []"
    by code_simp+
  have "name = ''a''" if "declares 0 [''mod'', ''a'', '';''] name" for name
    using that by (auto simp: declares_def Cons_eq_append_conv)
  then show ?thesis
    by (auto simp: links_def declared_def resolve_mod_def tokens Let_def split: if_splits)
qed

lemma sample_tree: "module_tree sample_fs [''c'', ''src''] \<subseteq> {src_file ''lib.rs'', src_file ''a.rs''}"
proof -
  have "(links sample_fs)\<^sup>* `` {src_file ''lib.rs'', src_file ''a.rs''} = {src_file ''lib.rs'', src_file ''a.rs''}"
    using sample_links by (intro Image_closed_trancl) auto
  moreover have "set (roots sample_fs [''c'', ''src'']) = {src_file ''lib.rs''}"
    by (auto simp: roots_def src_file_def)
  ultimately show ?thesis by (auto simp: module_tree_def)
qed

lemma module_report_exact_witness:
  "\<exists>r. find_unreachable_in_crate sample_fs [''c''] = Some (Inr r) \<and> src_file ''o.rs'' \<in> rep_unreachable r"
proof -
  have "finite (module_tree sample_fs ([''c''] @ [''src'']))"
    using finite_subset [OF sample_tree] by simp
  moreover have "subdirs sample_fs = {}" by (auto simp: subdirs_def split: if_splits)
  then have "wf ((subdirs sample_fs)\<inverse>)" by simp
  moreover have "src_file ''o.rs'' \<in> rs_files_below sample_fs [''c'', ''src'']"
    by (auto simp: rs_files_below_def has_rs_extension_def suffix_def intro: exI [of _ "[''c'', ''src'']"])
  moreover have "src_file ''o.rs'' \<notin> module_tree sample_fs [''c'', ''src'']" using sample_tree by auto
  ultimately show ?thesis
    using module_report_exact [of sample_fs "[''c'']"] by simp
qed

end
