(* ===== verification/PoolModel.thy ===== *)
theory PoolModel
  imports StakingPoolProps
begin

text \<open>
  The reference model of the staking pool that the repository keeps for its bounded model checker
  (\<open>staking_pool/src/formal_properties.rs\<close>): three stakers, one lock timestamp each, and a reward index
  the contract does not have.  An operation of the model changes it in place and can fail after part of
  the change, so it returns its outcome and the model it leaves.  The three-element arrays are lists of
  length three.
\<close>

section \<open>The model\<close>

datatype model_error =
    ME_InvalidAmount
  | ME_InsufficientBalance
  | ME_TokensLocked
  | ME_ReentrancyDetected
  | ME_UpgradeDelayNotMet
  | ME_Overflow

record pool_model =
  pm_balances :: "int list"
  pm_total_staked :: int
  pm_lock_period :: nat
  pm_stake_timestamps :: "nat list"
  pm_has_stake_timestamp :: "bool list"
  pm_reentrancy :: bool
  pm_pending_upgrade_at :: "nat option"
  pm_upgrade_delay :: nat
  pm_current_time :: nat
  pm_per_share_index :: int
  pm_user_index_snapshot :: "int list"
  pm_unclaimed_rewards :: "int list"
  pm_total_distributed :: int
  pm_total_claimed :: int
  pm_pool_balance :: int

definition pm_new :: pool_model where
  "pm_new = \<lparr>pm_balances = [0, 0, 0], pm_total_staked = 0, pm_lock_period = 0, pm_stake_timestamps = [0, 0, 0],
     pm_has_stake_timestamp = [False, False, False], pm_reentrancy = False, pm_pending_upgrade_at = None,
     pm_upgrade_delay = 0, pm_current_time = 0, pm_per_share_index = 0, pm_user_index_snapshot = [0, 0, 0],
     pm_unclaimed_rewards = [0, 0, 0], pm_total_distributed = 0, pm_total_claimed = 0, pm_pool_balance = 0\<rparr>"

text \<open>Indexing past the array panics.\<close>

definition out_of_bounds :: "model_error fault" where
  "out_of_bounds = Trap (PanicTrap ''index out of bounds'')"

definition pm_scale :: int where
  "pm_scale = 1000000000000000000"

definition saturating_u64_add :: "nat \<Rightarrow> nat \<Rightarrow> nat" where
  "saturating_u64_add a b = min (2 ^ 64 - 1) (a + b)"

definition saturating_i128 :: "int \<Rightarrow> int" where
  "saturating_i128 x = max (- (2 ^ 127)) (min (2 ^ 127 - 1) x)"

definition sum_balances :: "pool_model \<Rightarrow> model_error fault + int" where
  "sum_balances m =
     bindE (ck_i128 (pm_balances m ! 0 + pm_balances m ! 1)) (\<lambda>x. ck_i128 (x + pm_balances m ! 2))"

definition pm_enter :: "pool_model \<Rightarrow> (model_error fault + unit) \<times> pool_model" where
  "pm_enter m =
     (if pm_reentrancy m then (Inl (Err ME_ReentrancyDetected), m) else (Inr (), m\<lparr>pm_reentrancy := True\<rparr>))"

definition pm_exit :: "pool_model \<Rightarrow> pool_model" where
  "pm_exit m = m\<lparr>pm_reentrancy := False\<rparr>"

text \<open>\<open>checked_add(..).ok_or(Overflow)\<close> and \<open>checked_mul\<close>.\<close>

definition checked_i128 :: "int \<Rightarrow> model_error fault + int" where
  "checked_i128 x = (if i128_ok x then Inr x else Inl (Err ME_Overflow))"

definition model_amount :: "int \<Rightarrow> model_error fault + unit" where
  "model_amount amount = map_err (\<lambda>_. ME_InvalidAmount) (sp_require_valid_amount amount)"

definition apply_stake :: "nat \<Rightarrow> int \<Rightarrow> pool_model \<Rightarrow> (model_error fault + unit) \<times> pool_model" where
  "apply_stake u amount m =
     (case model_amount amount of Inl f \<Rightarrow> (Inl f, m)
      | Inr _ \<Rightarrow>
     if 3 \<le> u then (Inl out_of_bounds, m)
     else
     case checked_i128 (pm_balances m ! u + amount) of Inl f \<Rightarrow> (Inl f, m)
     | Inr new_balance \<Rightarrow>
     (case checked_i128 (pm_total_staked m + amount) of Inl f \<Rightarrow> (Inl f, m)
      | Inr new_total \<Rightarrow>
         (Inr (), m\<lparr>pm_balances := (pm_balances m)[u := new_balance], pm_total_staked := new_total,
            pm_stake_timestamps := (pm_stake_timestamps m)[u := pm_current_time m],
            pm_has_stake_timestamp := (pm_has_stake_timestamp m)[u := True]\<rparr>)))"

definition model_locked :: "nat \<Rightarrow> pool_model \<Rightarrow> bool" where
  "model_locked u m \<longleftrightarrow> 0 < pm_lock_period m \<and>
     (\<not> pm_has_stake_timestamp m ! u \<or>
      pm_current_time m < saturating_u64_add (pm_stake_timestamps m ! u) (pm_lock_period m))"

text \<open>The two subtractions at the end have no check of their own: they trap on overflow.\<close>

definition apply_unstake :: "nat \<Rightarrow> int \<Rightarrow> pool_model \<Rightarrow> (model_error fault + unit) \<times> pool_model" where
  "apply_unstake u amount m =
     (case model_amount amount of Inl f \<Rightarrow> (Inl f, m)
      | Inr _ \<Rightarrow>
     if 3 \<le> u then (Inl out_of_bounds, m)
     else if pm_balances m ! u < amount then (Inl (Err ME_InsufficientBalance), m)
     else if model_locked u m then (Inl (Err ME_TokensLocked), m)
     else if \<not> i128_ok (pm_balances m ! u - amount) then (Inl (Trap OverflowTrap), m)
     else
     let m = m\<lparr>pm_balances := (pm_balances m)[u := pm_balances m ! u - amount]\<rparr> in
     if \<not> i128_ok (pm_total_staked m - amount) then (Inl (Trap OverflowTrap), m)
     else
     let m = m\<lparr>pm_total_staked := pm_total_staked m - amount\<rparr> in
     (Inr (), if pm_balances m ! u = 0
        then m\<lparr>pm_has_stake_timestamp := (pm_has_stake_timestamp m)[u := False]\<rparr> else m))"

definition can_execute_upgrade :: "pool_model \<Rightarrow> model_error fault + unit" where
  "can_execute_upgrade m =
     bindE (ok_or (pm_pending_upgrade_at m) ME_UpgradeDelayNotMet) (\<lambda>proposed_at.
     if 0 < pm_upgrade_delay m \<and> pm_current_time m < saturating_u64_add proposed_at (pm_upgrade_delay m)
     then Inl (Err ME_UpgradeDelayNotMet) else Inr ())"

definition apply_distribute :: "int \<Rightarrow> pool_model \<Rightarrow> (model_error fault + unit) \<times> pool_model" where
  "apply_distribute reward_amount m =
     (if reward_amount < 0 then (Inl (Err ME_InvalidAmount), m)
      else
      case checked_i128 (pm_pool_balance m + reward_amount) of Inl f \<Rightarrow> (Inl f, m)
      | Inr new_pool_balance \<Rightarrow>
      (let m = m\<lparr>pm_pool_balance := new_pool_balance\<rparr> in
       case checked_i128 (pm_total_distributed m + reward_amount) of Inl f \<Rightarrow> (Inl f, m)
       | Inr new_total_distributed \<Rightarrow>
       (let m = m\<lparr>pm_total_distributed := new_total_distributed\<rparr> in
        if 0 < pm_total_staked m then
          case checked_i128 (reward_amount * pm_scale) of Inl f \<Rightarrow> (Inl f, m)
          | Inr scaled_reward \<Rightarrow>
            (case checked_i128 (pm_per_share_index m + scaled_reward sdiv pm_total_staked m) of Inl f \<Rightarrow> (Inl f, m)
             | Inr new_index \<Rightarrow> (Inr (), m\<lparr>pm_per_share_index := new_index\<rparr>))
        else (Inr (), m))))"

definition apply_claim :: "nat \<Rightarrow> pool_model \<Rightarrow> (model_error fault + int) \<times> pool_model" where
  "apply_claim u m =
     (if 3 \<le> u then (Inl out_of_bounds, m)
      else if pm_balances m ! u = 0 then (Inr 0, m)
      else
      let index_diff = saturating_sub (pm_per_share_index m) (pm_user_index_snapshot m ! u);
          accrued = saturating_i128 ((index_diff sdiv pm_scale) * pm_balances m ! u);
          total_claimable = saturating_i128 (pm_unclaimed_rewards m ! u + accrued)
      in
      if \<not> i128_ok (pm_pool_balance m - total_claimable) then (Inl (Err ME_InsufficientBalance), m)
      else
      let m = m\<lparr>pm_pool_balance := pm_pool_balance m - total_claimable\<rparr> in
      case checked_i128 (pm_total_claimed m + total_claimable) of Inl f \<Rightarrow> (Inl f, m)
      | Inr new_total_claimed \<Rightarrow>
         (Inr total_claimable,
          m\<lparr>pm_total_claimed := new_total_claimed,
            pm_user_index_snapshot := (pm_user_index_snapshot m)[u := pm_per_share_index m],
            pm_unclaimed_rewards := (pm_unclaimed_rewards m)[u := 0]\<rparr>))"

definition update_user_index_on_stake :: "nat \<Rightarrow> pool_model \<Rightarrow> (model_error fault + unit) \<times> pool_model" where
  "update_user_index_on_stake u m =
     (if 3 \<le> u then (Inl out_of_bounds, m)
      else (Inr (), m\<lparr>pm_user_index_snapshot := (pm_user_index_snapshot m)[u := pm_per_share_index m]\<rparr>))"

definition check_reward_conservation :: "pool_model \<Rightarrow> bool" where
  "check_reward_conservation m \<longleftrightarrow>
     (let sum_unclaimed = saturating_i128 (saturating_i128 (pm_unclaimed_rewards m ! 0 + pm_unclaimed_rewards m ! 1)
            + pm_unclaimed_rewards m ! 2)
      in saturating_i128 (pm_total_claimed m + sum_unclaimed) \<le> pm_total_distributed m)"

definition check_solvency :: "pool_model \<Rightarrow> model_error fault + bool" where
  "check_solvency m =
     (let claimable = saturating_sub (pm_total_distributed m) (pm_total_claimed m);
          required_balance = saturating_i128 (pm_total_staked m + claimable)
      in bindE (ck_i128 (pm_pool_balance m + pm_total_claimed m)) (\<lambda>available. Inr (required_balance \<le> available)))"

text \<open>
  Sequences of operations, a failed one leaving what it had changed.  A stake is followed by the
  update of the staker's snapshot, as the model's notes ask for and its harnesses do.
\<close>

datatype pm_op =
    PM_Stake nat int
  | PM_Unstake nat int
  | PM_Distribute int
  | PM_Claim nat
  | PM_Time nat

fun pm_step :: "pm_op \<Rightarrow> pool_model \<Rightarrow> pool_model" where
  "pm_step (PM_Stake u n) m = snd (update_user_index_on_stake u (snd (apply_stake u n m)))"
| "pm_step (PM_Unstake u n) m = snd (apply_unstake u n m)"
| "pm_step (PM_Distribute n) m = snd (apply_distribute n m)"
| "pm_step (PM_Claim u) m = snd (apply_claim u m)"
| "pm_step (PM_Time t) m = m\<lparr>pm_current_time := t\<rparr>"

definition pm_run :: "pm_op list \<Rightarrow> pool_model \<Rightarrow> pool_model" where
  "pm_run ops m = fold pm_step ops m"

end
