(* ===== verification/PoolModelProps.thy ===== *)
theory PoolModelProps
  imports PoolModel
begin

text \<open>
  The reference model of the staking pool: for sequences of operations of any length, rewards are conserved
  and a funded pool stays solvent; the contract refines the model's accounts while no lock period is
  set; and where the model's harnesses and notes do not fit the model or the contract.
\<close>

section \<open>The accounts of the model\<close>

text \<open>
  \<open>pm_inv k m\<close>: the arrays have their length, the totals add up, what the index still owes is covered by what
  was distributed and not claimed, and the pool holds \<open>k\<close> beyond that.
\<close>

definition index_owed :: "int \<Rightarrow> int list \<Rightarrow> int list \<Rightarrow> int" where
  "index_owed idx snaps bals = sum_list (map2 (\<lambda>s b. (idx - s) * b) snaps bals)"

definition pm_inv :: "int \<Rightarrow> pool_model \<Rightarrow> bool" where
  "pm_inv k m \<longleftrightarrow>
     length (pm_balances m) = 3 \<and> length (pm_user_index_snapshot m) = 3 \<and> pm_unclaimed_rewards m = [0, 0, 0]
     \<and> (\<forall>b \<in> set (pm_balances m). 0 \<le> b) \<and> (\<forall>x \<in> set (pm_user_index_snapshot m). 0 \<le> x \<and> x \<le> pm_per_share_index m)
     \<and> pm_total_staked m = sum_list (pm_balances m) \<and> i128_ok (pm_total_staked m)
     \<and> 0 \<le> pm_per_share_index m \<and> i128_ok (pm_per_share_index m)
     \<and> index_owed (pm_per_share_index m) (pm_user_index_snapshot m) (pm_balances m) \<le>
         pm_scale * (pm_total_distributed m - pm_total_claimed m)
     \<and> 0 \<le> pm_total_claimed m \<and> pm_total_claimed m \<le> pm_total_distributed m \<and> i128_ok (pm_total_distributed m)
     \<and> k + (pm_total_distributed m - pm_total_claimed m) \<le> pm_pool_balance m \<and> i128_ok (pm_pool_balance m)"

lemma three_cases: "\<not> 3 \<le> u \<Longrightarrow> (u = 0 \<Longrightarrow> P) \<Longrightarrow> (u = 1 \<Longrightarrow> P) \<Longrightarrow> (u = 2 \<Longrightarrow> P) \<Longrightarrow> (P :: bool)"
  for u :: nat
  by (cases "u = 0"; cases "u = 1"; cases "u = 2") auto

lemma length_three: "length xs = 3 \<longleftrightarrow> (\<exists>a b c. xs = [a, b, c])"
  by (auto simp: numeral_3_eq_3 length_Suc_conv)

text \<open>What one staker is owed, taken out of the sum.\<close>

lemma index_owed_split:
  assumes "length snaps = 3" and "length bals = 3" and "u < 3"
  shows "index_owed idx (snaps[u := s]) (bals[u := b]) =
    index_owed idx snaps bals - (idx - snaps ! u) * bals ! u + (idx - s) * b"
proof -
  have "\<not> 3 \<le> u" using assms(3) by simp
  then show ?thesis
    using assms(1,2) by (elim three_cases) (auto simp: length_three index_owed_def)
qed

lemma sum_list_three_upd:
  fixes bals :: "int list"
  assumes "length bals = 3" and "u < 3"
  shows "sum_list (bals[u := b]) = sum_list bals - bals ! u + b"
proof -
  have "\<not> 3 \<le> u" using assms(2) by simp
  then show ?thesis using assms(1) by (elim three_cases) (auto simp: length_three)
qed

lemma index_owed_rise:
  "length snaps = 3 \<Longrightarrow> length bals = 3 \<Longrightarrow>
   index_owed (idx + i) snaps bals = index_owed idx snaps bals + i * sum_list bals"
  by (auto simp: length_three index_owed_def algebra_simps)

lemma index_owed_term:
  assumes "length snaps = 3" and "length bals = 3" and "u < 3"
    and "\<forall>b \<in> set bals. 0 \<le> b" and "\<forall>x \<in> set snaps. x \<le> idx"
  shows "0 \<le> (idx - snaps ! u) * bals ! u \<and> (idx - snaps ! u) * bals ! u \<le> index_owed idx snaps bals"
proof -
  obtain a b c x y z where l: "snaps = [a, b, c]" "bals = [x, y, z]" using assms(1,2) by (auto simp: length_three)
  have "0 \<le> (idx - a) * x" "0 \<le> (idx - b) * y" "0 \<le> (idx - c) * z" using assms(4,5) by (simp_all add: l)
  moreover have "\<not> 3 \<le> u" using assms(3) by simp
  ultimately show ?thesis by (elim three_cases) (simp_all add: l index_owed_def)
qed

lemma sum_list_ge_member:
  fixes xs :: "int list"
  shows "x \<in> set xs \<Longrightarrow> \<forall>y \<in> set xs. 0 \<le> y \<Longrightarrow> x \<le> sum_list xs"
  by (induction xs) (auto simp: sum_list_nonneg intro: add_increasing add_increasing2)

lemma set_update_le: "\<forall>x \<in> set xs. P x \<Longrightarrow> P y \<Longrightarrow> \<forall>x \<in> set (xs[u := y]). P x"
  using set_update_subset_insert [of xs u y] by blast

section \<open>Every operation keeps them\<close>

lemma pm_inv_snapshot:
  assumes "pm_inv k m"
  shows "pm_inv k (snd (update_user_index_on_stake u m))"
proof (cases "3 \<le> u")
  case False
  then have u: "u < 3" by simp
  have "index_owed (pm_per_share_index m) ((pm_user_index_snapshot m)[u := pm_per_share_index m]) (pm_balances m) =
      index_owed (pm_per_share_index m) (pm_user_index_snapshot m) (pm_balances m)
      - (pm_per_share_index m - pm_user_index_snapshot m ! u) * pm_balances m ! u"
    using assms u index_owed_split [of "pm_user_index_snapshot m" "pm_balances m" u "pm_per_share_index m"
        "pm_per_share_index m" "pm_balances m ! u"] by (simp add: pm_inv_def list_update_id)
  also have "\<dots> \<le> index_owed (pm_per_share_index m) (pm_user_index_snapshot m) (pm_balances m)"
    using assms u index_owed_term [of "pm_user_index_snapshot m" "pm_balances m" u "pm_per_share_index m"]
    by (auto simp: pm_inv_def)
  finally show ?thesis
    using assms u by (auto simp: pm_inv_def update_user_index_on_stake_def
        dest!: set_update_subset_insert [THEN subsetD])
qed (use assms in \<open>simp add: update_user_index_on_stake_def\<close>)

text \<open>A stake followed by the new snapshot: the staker's part of the sum becomes zero.\<close>

lemma apply_stake_cases:
  obtains "snd (apply_stake u n m) = m"
  | "u < 3" and "0 < n" and "i128_ok (pm_total_staked m + n)" and "fst (apply_stake u n m) = Inr ()"
    and "snd (apply_stake u n m) = m\<lparr>pm_balances := (pm_balances m)[u := pm_balances m ! u + n],
      pm_total_staked := pm_total_staked m + n,
      pm_stake_timestamps := (pm_stake_timestamps m)[u := pm_current_time m],
      pm_has_stake_timestamp := (pm_has_stake_timestamp m)[u := True]\<rparr>"
  by (cases "0 < n \<and> u < 3 \<and> i128_ok (pm_balances m ! u + n) \<and> i128_ok (pm_total_staked m + n)")
    (auto simp: apply_stake_def model_amount_def sp_require_valid_amount_def checked_i128_def map_err_def
      split: if_splits)

lemma pm_inv_stake:
  assumes "pm_inv k m"
  shows "pm_inv k (pm_step (PM_Stake u n) m)"
proof (cases rule: apply_stake_cases [of u n m])
  case 1
  then show ?thesis using pm_inv_snapshot [OF assms] by simp
next
  case 2
  let ?i = "pm_per_share_index m" and ?b = "pm_balances m" and ?s = "pm_user_index_snapshot m"
  have "index_owed ?i (?s[u := ?i]) (?b[u := ?b ! u + n]) \<le> index_owed ?i ?s ?b"
    using assms 2(1) index_owed_split [of ?s ?b u ?i ?i "?b ! u + n"] index_owed_term [of ?s ?b u ?i]
    by (auto simp: pm_inv_def)
  moreover have "0 \<le> ?b ! u + n" using assms 2(1,2) by (auto simp: pm_inv_def intro!: add_nonneg_nonneg)
  moreover have "sum_list (?b[u := ?b ! u + n]) = pm_total_staked m + n"
    using assms 2(1) sum_list_three_upd [of ?b u] by (simp add: pm_inv_def)
  ultimately show ?thesis
    using assms 2 by (auto simp: pm_inv_def update_user_index_on_stake_def dest!: set_update_subset_insert [THEN subsetD])
qed

lemma apply_unstake_cases:
  obtains "snd (apply_unstake u n m) = m"
  | m' where "u < 3" and "0 < n" and "n \<le> pm_balances m ! u" and "\<not> model_locked u m"
    and "snd (apply_unstake u n m) = m'"
    and "pm_balances m' = (pm_balances m)[u := pm_balances m ! u - n]"
    and "pm_total_staked m' = pm_total_staked m - n \<or> \<not> i128_ok (pm_total_staked m - n)"
    and "m' = m\<lparr>pm_balances := pm_balances m', pm_total_staked := pm_total_staked m',
      pm_has_stake_timestamp := pm_has_stake_timestamp m'\<rparr>"
proof (cases "0 < n \<and> u < 3 \<and> n \<le> pm_balances m ! u \<and> \<not> model_locked u m \<and> i128_ok (pm_balances m ! u - n)")
  case True
  then show ?thesis
    by (intro that(2)) (auto simp: apply_unstake_def model_amount_def sp_require_valid_amount_def map_err_def Let_def
        split: if_splits)
next
  case False
  then show ?thesis
    by (intro that(1)) (auto simp: apply_unstake_def model_amount_def sp_require_valid_amount_def map_err_def Let_def)
qed

lemma pm_inv_unstake:
  assumes "pm_inv k m"
  shows "pm_inv k (snd (apply_unstake u n m))"
proof (cases rule: apply_unstake_cases [of u n m])
  case 1
  then show ?thesis using assms by simp
next
  case (2 m')
  let ?i = "pm_per_share_index m" and ?b = "pm_balances m" and ?s = "pm_user_index_snapshot m"
  have upd: "?s[u := ?s ! u] = ?s" by (rule list_update_id)
  have in_s: "0 \<le> ?s ! u \<and> ?s ! u \<le> ?i" and in_b: "?b ! u \<le> pm_total_staked m"
    using assms 2(1) sum_list_ge_member [of "?b ! u" ?b] by (auto simp: pm_inv_def)
  have "index_owed ?i ?s (?b[u := ?b ! u - n]) = index_owed ?i ?s ?b - (?i - ?s ! u) * n"
    using assms 2(1) index_owed_split [of ?s ?b u ?i "?s ! u" "?b ! u - n"]
    by (simp add: pm_inv_def upd algebra_simps)
  moreover have "0 \<le> (?i - ?s ! u) * n" using in_s 2(2) by simp
  moreover have ok: "i128_ok (pm_total_staked m - n)" and "0 \<le> pm_total_staked m - n"
    using assms 2(2,3) in_b by (auto simp: pm_inv_def i128_ok_def)
  moreover have "sum_list (?b[u := ?b ! u - n]) = pm_total_staked m - n"
    using assms 2(1) sum_list_three_upd [of ?b u] by (simp add: pm_inv_def)
  moreover have "\<forall>b \<in> set (?b[u := ?b ! u - n]). 0 \<le> b"
    using assms 2(3) by (intro set_update_le) (auto simp: pm_inv_def)
  moreover have "pm_total_staked m' = pm_total_staked m - n" using 2(7) ok by simp
  ultimately show ?thesis
    using assms by (subst 2(5), subst 2(8)) (auto simp: pm_inv_def 2(6))
qed

text \<open>A distribution raises the index by so much that the stakers together get at most what was distributed.\<close>

lemma index_increment:
  assumes "0 < t" and "0 \<le> (r :: int)"
  shows "0 \<le> r * pm_scale sdiv t \<and> (r * pm_scale sdiv t) * t \<le> pm_scale * r"
proof -
  have "r * pm_scale sdiv t = r * pm_scale div t"
    using assms by (simp add: sdiv_nonneg pm_scale_def)
  moreover have "(r * pm_scale div t) * t \<le> r * pm_scale"
    using assms(1) div_mult_mod_eq [of "r * pm_scale" t] pos_mod_sign [of t "r * pm_scale"] by linarith
  ultimately show ?thesis using assms by (simp add: pos_imp_zdiv_nonneg_iff pm_scale_def mult.commute)
qed

lemma pm_inv_funds:
  assumes "pm_inv k m" and "0 \<le> r" and "i128_ok (pm_pool_balance m + r)" and "d = 0 \<or> d = r"
    and "i128_ok (pm_total_distributed m + d)"
  shows "pm_inv k (m\<lparr>pm_pool_balance := pm_pool_balance m + r, pm_total_distributed := pm_total_distributed m + d\<rparr>)"
  using assms by (auto simp: pm_inv_def pm_scale_def)

lemma pm_inv_index:
  assumes "pm_inv k m" and "0 < pm_total_staked m" and "0 \<le> r"
    and "i128_ok (pm_per_share_index m + r * pm_scale sdiv pm_total_staked m)"
    and "i128_ok (pm_pool_balance m + r)" and "i128_ok (pm_total_distributed m + r)"
  shows "pm_inv k (m\<lparr>pm_pool_balance := pm_pool_balance m + r, pm_total_distributed := pm_total_distributed m + r,
    pm_per_share_index := pm_per_share_index m + r * pm_scale sdiv pm_total_staked m\<rparr>)"
proof -
  note inc = index_increment [OF assms(2,3)]
  have "index_owed (pm_per_share_index m + r * pm_scale sdiv pm_total_staked m) (pm_user_index_snapshot m) (pm_balances m)
      \<le> pm_scale * (pm_total_distributed m + r - pm_total_claimed m)"
    using assms(1) inc index_owed_rise [of "pm_user_index_snapshot m" "pm_balances m"]
    by (simp add: pm_inv_def algebra_simps)
  then show ?thesis using assms inc by (auto simp: pm_inv_def)
qed

lemma pm_inv_distribute:
  assumes "pm_inv k m"
  shows "pm_inv k (snd (apply_distribute r m))"
  using assms pm_inv_funds [OF assms, of r 0] pm_inv_funds [OF assms, of r r] pm_inv_index [OF assms, of r]
  by (auto simp: apply_distribute_def checked_i128_def Let_def pm_inv_def split: if_splits)

text \<open>A claim pays the staker's share rounded down, so at most what is left.\<close>

lemma claim_share:
  assumes "pm_inv k m" and "u < 3"
  defines "pay \<equiv> ((pm_per_share_index m - pm_user_index_snapshot m ! u) sdiv pm_scale) * pm_balances m ! u"
  shows "0 \<le> pay" and "pm_scale * pay \<le> (pm_per_share_index m - pm_user_index_snapshot m ! u) * pm_balances m ! u"
    and "pay \<le> pm_total_distributed m - pm_total_claimed m"
proof -
  let ?d = "pm_per_share_index m - pm_user_index_snapshot m ! u" and ?b = "pm_balances m ! u"
  have d: "0 \<le> ?d" and b: "0 \<le> ?b" using assms(1,2) by (auto simp: pm_inv_def)
  then have pay: "pay = (?d div pm_scale) * ?b" by (simp add: pay_def sdiv_nonneg pm_scale_def)
  then show nonneg: "0 \<le> pay" using d b by (simp add: pos_imp_zdiv_nonneg_iff pm_scale_def)
  have "pm_scale * (?d div pm_scale) \<le> ?d"
    using div_mult_mod_eq [of ?d pm_scale] pos_mod_sign [of pm_scale ?d] by (simp add: pm_scale_def mult.commute)
  then show le: "pm_scale * pay \<le> ?d * ?b" using b by (simp add: pay mult_right_mono mult.assoc [symmetric])
  have "?d * ?b \<le> index_owed (pm_per_share_index m) (pm_user_index_snapshot m) (pm_balances m)"
    using assms(1,2) index_owed_term [of "pm_user_index_snapshot m" "pm_balances m" u] by (auto simp: pm_inv_def)
  with le assms(1) have "pm_scale * pay \<le> pm_scale * (pm_total_distributed m - pm_total_claimed m)"
    by (simp add: pm_inv_def)
  then show "pay \<le> pm_total_distributed m - pm_total_claimed m" by (simp add: pm_scale_def)
qed

lemma apply_claim_eq:
  assumes "pm_inv k m" and "0 \<le> k" and "u < 3"
  defines "pay \<equiv> ((pm_per_share_index m - pm_user_index_snapshot m ! u) sdiv pm_scale) * pm_balances m ! u"
  shows "apply_claim u m = (if pm_balances m ! u = 0 then (Inr 0, m)
    else (Inr pay, m\<lparr>pm_pool_balance := pm_pool_balance m - pay, pm_total_claimed := pm_total_claimed m + pay,
      pm_user_index_snapshot := (pm_user_index_snapshot m)[u := pm_per_share_index m]\<rparr>))"
proof -
  note share = claim_share [OF assms(1,3), folded pay_def]
  have idx: "0 \<le> pm_user_index_snapshot m ! u" "pm_user_index_snapshot m ! u \<le> pm_per_share_index m"
    using assms(1,3) by (auto simp: pm_inv_def)
  then have diff: "saturating_sub (pm_per_share_index m) (pm_user_index_snapshot m ! u) =
      pm_per_share_index m - pm_user_index_snapshot m ! u"
    using assms(1) by (intro saturating_sub_exact) (auto simp: pm_inv_def i128_ok_def)
  have fits: "saturating_i128 pay = pay" "i128_ok (pm_pool_balance m - pay)" "i128_ok (pm_total_claimed m + pay)"
    using share assms(1,2) by (auto simp: pm_inv_def i128_ok_def saturating_i128_def)
  have "u = 0 \<or> u = 1 \<or> u = 2" using assms(3) by linarith
  then have "pm_unclaimed_rewards m ! u = 0" "(pm_unclaimed_rewards m)[u := 0] = pm_unclaimed_rewards m"
    using assms(1) by (auto simp: pm_inv_def)
  then show ?thesis
    using assms(3) fits by (simp add: apply_claim_def diff checked_i128_def Let_def flip: pay_def)
qed

lemma pm_inv_claim:
  assumes "pm_inv k m" and "0 \<le> k"
  shows "pm_inv k (snd (apply_claim u m))"
proof (cases "u < 3 \<and> pm_balances m ! u \<noteq> 0")
  case True
  let ?i = "pm_per_share_index m" and ?b = "pm_balances m" and ?s = "pm_user_index_snapshot m"
  have u: "u < 3" using True by simp
  note share = claim_share [OF assms(1) u]
  have "index_owed ?i (?s[u := ?i]) ?b = index_owed ?i ?s ?b - (?i - ?s ! u) * ?b ! u"
    using assms(1) u index_owed_split [of ?s ?b u ?i ?i "?b ! u"] by (simp add: pm_inv_def list_update_id)
  moreover have "\<forall>x \<in> set (?s[u := ?i]). 0 \<le> x \<and> x \<le> ?i"
    using assms(1) by (intro set_update_le) (auto simp: pm_inv_def)
  ultimately show ?thesis
    using True assms share unfolding apply_claim_eq [OF assms u]
    by (auto simp: pm_inv_def i128_ok_def algebra_simps)
next
  case False
  then show ?thesis using assms by (cases "u < 3") (simp_all add: apply_claim_def)
qed

lemma pm_inv_run:
  "pm_inv k m \<Longrightarrow> 0 \<le> k \<Longrightarrow> pm_inv k (pm_run ops m)"
proof (induction ops arbitrary: m)
  case (Cons op ops)
  have "pm_inv k (pm_step op m)"
  proof (cases op)
    case (PM_Time t)
    then show ?thesis using Cons.prems by (auto simp: pm_inv_def)
  qed (use Cons.prems pm_inv_stake pm_inv_unstake pm_inv_distribute pm_inv_claim in auto)
  with Cons show ?case by (simp add: pm_run_def)
qed (simp add: pm_run_def)

text \<open>Without stakes the total does not grow.\<close>

lemma pm_step_total:
  assumes "\<forall>u n. op \<noteq> PM_Stake u n"
  shows "pm_total_staked (pm_step op m) \<le> pm_total_staked m"
proof (cases op)
  case (PM_Unstake u n)
  then show ?thesis
    by (auto simp: apply_unstake_def model_amount_def sp_require_valid_amount_def Let_def
        split: sum.splits if_splits)
qed (use assms in \<open>auto simp: apply_distribute_def apply_claim_def Let_def split: sum.splits if_splits\<close>)

lemma pm_run_total:
  "\<forall>u n. PM_Stake u n \<notin> set ops \<Longrightarrow> pm_total_staked (pm_run ops m) \<le> pm_total_staked m"
proof (induction ops arbitrary: m)
  case (Cons op ops)
  then have "pm_total_staked (pm_step op m) \<le> pm_total_staked m" by (intro pm_step_total) auto
  with Cons.IH [of "pm_step op m"] Cons.prems show ?case by (auto simp: pm_run_def)
qed (simp add: pm_run_def)

section \<open>The contract and the model\<close>

text \<open>
  \<open>mirrors us s m\<close>: the model's three balances, total and lock period are those of the stakers \<open>us\<close> in the
  contract's state.
\<close>

definition mirrors :: "address list \<Rightarrow> 'w sp_state \<Rightarrow> pool_model \<Rightarrow> bool" where
  "mirrors us s m \<longleftrightarrow> length us = 3 \<and> distinct us \<and> length (pm_balances m) = 3
     \<and> (\<forall>i < 3. pm_balances m ! i = get_staked_balance (us ! i) s)
     \<and> pm_total_staked m = get_total_staked s \<and> pm_lock_period m = get_lock_period s"

definition succeeded :: "('f + 'a) \<times> 's \<Rightarrow> 's option" where
  "succeeded r = (case fst r of Inl _ \<Rightarrow> None | Inr _ \<Rightarrow> Some (snd r))"

definition model_slot :: "address list \<Rightarrow> address \<Rightarrow> nat" where
  "model_slot us u = length (takeWhile (\<lambda>a. a \<noteq> u) us)"

text \<open>The model's operation for a call of the contract.\<close>

fun model_call :: "address list \<Rightarrow> env \<Rightarrow> sp_call \<Rightarrow> pool_model \<Rightarrow> pool_model option" where
  "model_call us e (SP_Stake u n) m = succeeded (apply_stake (model_slot us u) n m)"
| "model_call us e (SP_Unstake u n) m = succeeded (apply_unstake (model_slot us u) n m)"
| "model_call us e _ m = None"

fun call_of :: "address list \<Rightarrow> sp_call \<Rightarrow> bool" where
  "call_of us (SP_Stake u n) \<longleftrightarrow> u \<in> set us"
| "call_of us (SP_Unstake u n) \<longleftrightarrow> u \<in> set us"
| "call_of us _ \<longleftrightarrow> False"

lemma model_slot_nth:
  assumes "u \<in> set us"
  shows "model_slot us u < length us" and "us ! model_slot us u = u"
  using assms by (induction us) (auto simp: model_slot_def)

lemma mirrors_update:
  assumes "mirrors us s m" and "u \<in> set us"
    and "sp_staked s' = (sp_staked s)(u \<mapsto> b)" and "sp_total s' = Some t" and "sp_lock_period s' = sp_lock_period s"
    and "pm_balances m' = (pm_balances m)[model_slot us u := b]" and "pm_total_staked m' = t"
    and "pm_lock_period m' = pm_lock_period m"
  shows "mirrors us s' m'"
proof -
  have "(us ! i = u) = (i = model_slot us u)" if "i < 3" for i
    using assms(1) that model_slot_nth [OF assms(2)] nth_eq_iff_index_eq [of us i "model_slot us u"]
    by (auto simp: mirrors_def)
  with assms show ?thesis
    by (auto simp: mirrors_def get_staked_balance_def get_total_staked_def get_lock_period_def nth_list_update)
qed

lemma sp_unstake_checked:
  "sp_unstake tk e u n s = Inr s' \<Longrightarrow> i128_ok (get_total_staked s') \<and> i128_ok (get_staked_balance u s - n)"
  by (auto simp: sp_unstake_def sp_helper_defs outcome_simps Let_def host_simps split: if_splits option.splits)

lemma mirrors_stake:
  assumes "mirrors us s m" and "u \<in> set us" and "sp_stake tk e u n s = Inr s'"
  shows "\<exists>m'. model_call us e (SP_Stake u n) m = Some m' \<and> mirrors us s' m'"
  using assms(3)
proof (cases rule: sp_stake_Inr)
  case (1 token w)
  have i: "model_slot us u < 3" "pm_balances m ! model_slot us u = get_staked_balance u s"
    "pm_total_staked m = get_total_staked s"
    using assms(1) model_slot_nth [OF assms(2)] by (auto simp: mirrors_def)
  let ?m' = "m\<lparr>pm_balances := (pm_balances m)[model_slot us u := get_staked_balance u s + n],
      pm_total_staked := get_total_staked s + n,
      pm_stake_timestamps := (pm_stake_timestamps m)[model_slot us u := pm_current_time m],
      pm_has_stake_timestamp := (pm_has_stake_timestamp m)[model_slot us u := True]\<rparr>"
  have "model_call us e (SP_Stake u n) m = Some ?m'"
    using i 1(2,8,9)
    by (simp add: apply_stake_def model_amount_def sp_require_valid_amount_def checked_i128_def succeeded_def)
  moreover have "mirrors us s' ?m'" by (rule mirrors_update [OF assms(1,2)]) (simp_all add: 1(7))
  ultimately show ?thesis by blast
qed

lemma mirrors_unstake:
  assumes "mirrors us s m" and "u \<in> set us" and "get_lock_period s = 0" and "sp_unstake tk e u n s = Inr s'"
  shows "\<exists>m'. model_call us e (SP_Unstake u n) m = Some m' \<and> mirrors us s' m'"
  using assms(4)
proof (cases rule: sp_unstake_Inr)
  case (1 token w unlocked s1)
  have i: "model_slot us u < 3" "pm_balances m ! model_slot us u = get_staked_balance u s"
    "pm_total_staked m = get_total_staked s" "pm_lock_period m = 0"
    using assms(1,3) model_slot_nth [OF assms(2)] by (auto simp: mirrors_def)
  have "get_total_staked s' = get_total_staked s - n" by (simp add: 1(11) get_total_staked_def)
  then have ok: "i128_ok (get_total_staked s - n)" "i128_ok (get_staked_balance u s - n)"
    using sp_unstake_checked [OF assms(4)] by auto
  let ?bals = "(pm_balances m)[model_slot us u := get_staked_balance u s - n]"
  let ?m = "m\<lparr>pm_balances := ?bals, pm_total_staked := get_total_staked s - n\<rparr>"
  let ?m' = "if get_staked_balance u s - n = 0
    then ?m\<lparr>pm_has_stake_timestamp := (pm_has_stake_timestamp m)[model_slot us u := False]\<rparr> else ?m"
  have "model_call us e (SP_Unstake u n) m = Some ?m'"
    using assms(1) i 1(2,3) ok
    by (cases "get_staked_balance u s = n") (simp_all add: apply_unstake_def model_amount_def
        sp_require_valid_amount_def model_locked_def succeeded_def mirrors_def Let_def)
  moreover have "mirrors us s' ?m'" by (rule mirrors_update [OF assms(1,2)]) (auto simp: 1(11))
  ultimately show ?thesis by blast
qed

lemma mirrors_call:
  assumes "mirrors us s m" and "get_lock_period s = 0" and "call_of us c" and "sp_exec tk e c s = Inr s'"
  shows "\<exists>m'. model_call us e c m = Some m' \<and> mirrors us s' m'"
proof (cases c)
  case (SP_Stake u n)
  with assms(3,4) have "u \<in> set us" "sp_stake tk e u n s = Inr s'" by (simp_all add: outcome_simps)
  from mirrors_stake [OF assms(1) this] show ?thesis unfolding SP_Stake .
next
  case (SP_Unstake u n)
  with assms(3,4) have "u \<in> set us" "sp_unstake tk e u n s = Inr s'" by (simp_all add: outcome_simps)
  from mirrors_unstake [OF assms(1) this(1) assms(2) this(2)] show ?thesis unfolding SP_Unstake .
qed (use assms(3) in simp_all)

lemma sp_stakes_keep_lock:
  "call_of us c \<Longrightarrow> sp_exec tk e c s = Inr s' \<Longrightarrow> get_lock_period s' = get_lock_period s"
  by (cases c) (auto simp: outcome_simps get_lock_period_def elim!: sp_stake_Inr sp_unstake_Inr)

lemma mirrors_run:
  assumes "mirrors us s m" and "get_lock_period s = 0" and "\<forall>(e, c) \<in> set cs. call_of us c"
  shows "\<exists>m'. spec_run (model_call us) (accepted (sp_exec tk) cs s) m = Some m' \<and>
    mirrors us (run_calls (sp_exec tk) cs s) m'"
  using assms
proof (induction cs arbitrary: s m)
  case (Cons x cs)
  obtain e c where x: "x = (e, c)" by (cases x)
  show ?case
  proof (cases "sp_exec tk e c s")
    case (Inl f)
    then show ?thesis using Cons by (simp add: x apply_call_def)
  next
    case (Inr s1)
    have c: "call_of us c" using Cons.prems(3) by (simp add: x)
    from mirrors_call [OF Cons.prems(1,2) this Inr]
    obtain m1 where "model_call us e c m = Some m1" "mirrors us s1 m1" by blast
    moreover have "get_lock_period s1 = 0" using sp_stakes_keep_lock [OF c Inr] Cons.prems(2) by simp
    ultimately show ?thesis using Cons.IH [of s1 m1] Cons.prems(3) Inr by (simp add: x apply_call_def)
  qed
qed simp

section \<open>Where the harnesses and notes are off\<close>

text \<open>
  The harness \<open>no_free_rewards\<close> asserts that the early and the late staker have the same snapshot; after any
  distribution it admits they differ, so the assertion fails in every run.
\<close>

lemma harness_assertion_fails:
  assumes "0 < early" and "early \<le> 1000000000000" and "0 < reward" and "reward \<le> 100000000000"
    and "0 < late" and "late \<le> 1000000000000"
    and "m = pm_run [PM_Stake 0 early, PM_Distribute reward, PM_Stake 1 late] pm_new"
  shows "pm_user_index_snapshot m ! 0 \<noteq> pm_user_index_snapshot m ! 1"
proof -
  have "reward * pm_scale sdiv early = reward * pm_scale div early"
    using assms(1,3) by (simp add: sdiv_nonneg pm_scale_def)
  moreover have "1 \<le> reward * pm_scale div early"
  proof -
    have "early \<le> reward * pm_scale" using assms(2,3) by (simp add: pm_scale_def)
    then show ?thesis using assms(1) zdiv_mono1 [of early "reward * pm_scale" early] by simp
  qed
  moreover have "reward * pm_scale div early \<le> reward * pm_scale"
    using assms(1,3) zdiv_mono2 [of "reward * pm_scale" 1 early] by (simp add: pm_scale_def)
  ultimately show ?thesis
    using assms(1-6) unfolding assms(7)
    by (simp add: pm_run_def pm_new_def apply_stake_def apply_distribute_def update_user_index_on_stake_def
        model_amount_def sp_require_valid_amount_def checked_i128_def i128_ok_def Let_def)
       (simp add: pm_scale_def)
qed

text \<open>
  The notes compute a claim as \<open>diff * balance / SCALE\<close>; the model divides first, so a sole staker loses a
  whole distribution that is smaller than its stake.
\<close>

lemma claim_loses_distribution:
  assumes "0 < t" and "t < 2 ^ 64" and "0 \<le> r" and "r < t"
  shows "fst (apply_claim 0 (pm_run [PM_Stake 0 t, PM_Distribute r] pm_new)) = Inr 0"
proof -
  have inc: "r * pm_scale sdiv t = r * pm_scale div t" "0 \<le> r * pm_scale div t"
    using assms by (simp_all add: sdiv_nonneg pos_imp_zdiv_nonneg_iff pm_scale_def)
  have "(r * pm_scale div t) * t \<le> pm_scale * r" using index_increment [OF assms(1,3)] inc(1) by simp
  also have "\<dots> < pm_scale * t" using assms(4) by (simp add: pm_scale_def)
  finally have "(r * pm_scale div t) * t < pm_scale * t" .
  then have small: "r * pm_scale div t < pm_scale" using assms(1) by simp
  define q where "q = r * pm_scale sdiv t"
  have q: "0 \<le> q" "q < pm_scale" "q sdiv pm_scale = 0"
    using inc small by (simp_all add: q_def sdiv_nonneg pm_scale_def)
  have ok: "i128_ok t" "i128_ok r" "i128_ok q" "i128_ok (r * pm_scale)"
    using assms q(1,2) by (simp_all add: i128_ok_def pm_scale_def)
  let ?m = "pm_run [PM_Stake 0 t, PM_Distribute r] pm_new"
  have "pm_balances ?m = [t, 0, 0] \<and> pm_per_share_index ?m = q \<and> pm_user_index_snapshot ?m = [0, 0, 0]"
    using assms(1,3) ok
    by (simp add: pm_run_def pm_new_def apply_stake_def apply_distribute_def update_user_index_on_stake_def
        model_amount_def sp_require_valid_amount_def checked_i128_def flip: q_def)
  moreover have "pm_inv 0 ?m"
    by (rule pm_inv_run) (simp_all add: pm_inv_def pm_new_def index_owed_def i128_ok_def)
  ultimately show ?thesis using apply_claim_eq [of 0 ?m 0] q(3) by simp
qed

text \<open>A stake does not enter the pool's balance, so the solvency check fails after the first one.\<close>

lemma stake_fails_solvency_check:
  "0 < n \<Longrightarrow> n < 2 ^ 127 \<Longrightarrow> check_solvency (pm_run [PM_Stake 0 n] pm_new) = Inr False"
  by (simp add: pm_run_def pm_new_def apply_stake_def update_user_index_on_stake_def model_amount_def
      sp_require_valid_amount_def checked_i128_def i128_ok_def check_solvency_def saturating_sub_def
      saturating_i128_def bindE_def ck_i128_def Let_def)

section \<open>Properties\<close>

text \<open>C37. The reference model conserves rewards without a bound on the number of operations: after any
  sequence of stakes, unstakes, distributions and claims, failed ones included, the conservation
  check of the model holds, the total is the sum of the balances and no balance is negative.\<close>

theorem model_conserves_rewards:
  assumes "m = pm_run ops pm_new"
  shows "check_reward_conservation m \<and> sum_balances m = Inr (pm_total_staked m) \<and>
    (\<forall>b \<in> set (pm_balances m). 0 \<le> b) \<and> pm_total_claimed m \<le> pm_total_distributed m \<and>
    pm_total_distributed m - pm_total_claimed m \<le> pm_pool_balance m"
proof -
  have "pm_inv 0 pm_new" by (simp add: pm_inv_def pm_new_def index_owed_def i128_ok_def)
  from pm_inv_run [OF this] have inv: "pm_inv 0 m" by (simp add: assms)
  then obtain a b c where bals: "pm_balances m = [a, b, c]" by (auto simp: pm_inv_def length_three)
  with inv have "sum_balances m = Inr (pm_total_staked m)"
    by (auto simp: pm_inv_def sum_balances_def i128_ok_def outcome_simps bindE_def ck_i128_def)
  moreover have "check_reward_conservation m"
    using inv by (auto simp: pm_inv_def check_reward_conservation_def saturating_i128_def i128_ok_def)
  ultimately show ?thesis using inv by (auto simp: pm_inv_def)
qed

text \<open>A funded pool stays solvent: when the model starts with stakes its balance covers, then after any
  sequence of unstakes, distributions and claims the balance covers the stakes and everything
  distributed and not yet claimed, and the solvency check holds unless its own addition overflows.\<close>

theorem model_stays_solvent:
  assumes "m0 = pm_new\<lparr>pm_balances := [a, b, c], pm_total_staked := a + b + c, pm_pool_balance := p\<rparr>"
    and "0 \<le> a" and "0 \<le> b" and "0 \<le> c" and "a + b + c \<le> p" and "p < 2 ^ 127"
    and "\<forall>u n. PM_Stake u n \<notin> set ops" and "m = pm_run ops m0"
  shows "pm_total_staked m + (pm_total_distributed m - pm_total_claimed m) \<le> pm_pool_balance m \<and>
    (i128_ok (pm_pool_balance m + pm_total_claimed m) \<longrightarrow> check_solvency m = Inr True)"
proof -
  have "pm_inv p m0"
    using assms(1-6) by (auto simp: pm_inv_def pm_new_def index_owed_def i128_ok_def)
  with assms(2-5,8) have inv: "pm_inv p m" using pm_inv_run [of p m0 ops] by simp
  have "pm_total_staked (pm_run ops m0) \<le> pm_total_staked m0"
    using assms(7) by (rule pm_run_total)
  with assms(1,5,8) have total: "pm_total_staked m \<le> p" by simp
  with inv have covered: "pm_total_staked m + (pm_total_distributed m - pm_total_claimed m) \<le> pm_pool_balance m"
    by (auto simp: pm_inv_def)
  moreover have "0 \<le> pm_total_staked m" using inv by (auto simp: pm_inv_def intro: sum_list_nonneg)
  ultimately show ?thesis
    using inv by (auto simp: pm_inv_def check_solvency_def saturating_sub_def saturating_i128_def i128_ok_def
        bindE_def ck_i128_def Let_def)
qed

text \<open>C36. The contract refines the model as long as no lock period is set: over any calls in which three users
  stake and unstake, each call the contract accepts succeeds in the model too, and balances and
  total agree afterwards.\<close>

theorem contract_refines_model:
  assumes "mirrors us s m" and "get_lock_period s = 0" and "\<forall>(e, c) \<in> set cs. call_of us c"
  shows "\<exists>m'. spec_run (model_call us) (accepted (sp_exec tk) cs s) m = Some m' \<and>
    (\<forall>i < 3. pm_balances m' ! i = get_staked_balance (us ! i) (run_calls (sp_exec tk) cs s)) \<and>
    pm_total_staked m' = get_total_staked (run_calls (sp_exec tk) cs s)"
  using mirrors_run [OF assms] by (auto simp: mirrors_def)

section \<open>Witnesses\<close>

lemma model_conserves_rewards_witness:
  "check_reward_conservation (pm_run [PM_Stake 0 4, PM_Distribute 12, PM_Claim 0, PM_Unstake 0 1] pm_new)"
  using model_conserves_rewards [OF refl] by blast

lemma model_stays_solvent_witness:
  "check_solvency (pm_run [PM_Distribute 12, PM_Claim 0] (pm_new\<lparr>pm_balances := [4, 0, 0], pm_total_staked := 4,
     pm_pool_balance := 9\<rparr>)) = Inr True"
proof -
  let ?start = "pm_new\<lparr>pm_balances := [4, 0, 0], pm_total_staked := 4 + 0 + 0, pm_pool_balance := 9\<rparr>"
  let ?m = "pm_run [PM_Distribute 12, PM_Claim 0] ?start"
  have "i128_ok (pm_pool_balance ?m + pm_total_claimed ?m)" by code_simp
  with model_stays_solvent [where ?m0.0 = ?start and a = 4 and b = 0 and c = 0 and p = 9
      and ops = "[PM_Distribute 12, PM_Claim 0]", OF refl _ _ _ _ _ _ refl] show ?thesis
    by simp
qed

definition demo_users :: "address list" where
  "demo_users = [Address 2, Address 3, Address 4]"

lemma contract_refines_model_witness:
  "\<exists>m'. spec_run (model_call demo_users) (accepted (sp_exec ledger_token) demo_calls demo_start) pm_new = Some m' \<and>
     pm_total_staked m' = 9"
proof -
  have "mirrors demo_users demo_start pm_new"
    by (simp add: mirrors_def demo_users_def demo_start_def sp_init_def sp_fresh_def pm_new_def host_simps
        get_staked_balance_def get_total_staked_def get_lock_period_def less_Suc_eq numeral_3_eq_3)
  moreover have "get_lock_period demo_start = 0"
    by (simp add: demo_start_def sp_init_def sp_fresh_def host_simps get_lock_period_def)
  moreover have "\<forall>(e, c) \<in> set demo_calls. call_of demo_users c"
    by (simp add: demo_calls_def demo_users_def)
  ultimately show ?thesis
    using contract_refines_model [of demo_users demo_start pm_new demo_calls ledger_token] demo_pool_eq(2)
    by (auto simp: demo_pool_def get_total_staked_def)
qed

end
