(* ===== verification/StorageTtl.thy ===== *)
theory StorageTtl
  imports Soroban
begin

text \<open>
  The storage lifetime policy (\<open>soroban_storage_ttl/src/lib.rs\<close>): accessors that extend the lifetime of
  every entry they touch.  The host's storage is a parameter, a record of the functions the code calls;
  what the theorems rely on of it is the predicate \<open>keeps_lifetimes\<close>.  The other theories leave lifetimes
  out: entries that are touched as the policy expects are kept, which is what is shown here, with the
  gap up to which it holds.
\<close>

section \<open>The policy\<close>

definition ledgers_per_day :: nat where "ledgers_per_day = 17280"
definition instance_bump_threshold :: nat where "instance_bump_threshold = 90 * ledgers_per_day"
definition instance_bump_to :: nat where "instance_bump_to = 120 * ledgers_per_day"
definition persistent_bump_threshold :: nat where "persistent_bump_threshold = 90 * ledgers_per_day"
definition persistent_bump_to :: nat where "persistent_bump_to = 120 * ledgers_per_day"
definition temporary_bump_threshold :: nat where "temporary_bump_threshold = 15 * ledgers_per_day"
definition temporary_bump_to :: nat where "temporary_bump_to = 30 * ledgers_per_day"

lemmas ttl_constants = ledgers_per_day_def instance_bump_threshold_def instance_bump_to_def
  persistent_bump_threshold_def persistent_bump_to_def temporary_bump_threshold_def temporary_bump_to_def

text \<open>
  One class of storage: presence, reading, writing and extending an entry.  \<open>st_ttl\<close> and \<open>st_advance\<close> are
  not called by the code; they say what an extension means: how many ledgers an entry still lives, and
  the storage after so many ledgers have closed.
\<close>

record ('k, 'v, 's) storage_if =
  st_has :: "'k \<Rightarrow> 's \<Rightarrow> bool"
  st_get :: "'k \<Rightarrow> 's \<Rightarrow> 'v option"
  st_set :: "'k \<Rightarrow> 'v \<Rightarrow> 's \<Rightarrow> 's"
  st_extend :: "'k \<Rightarrow> nat \<Rightarrow> nat \<Rightarrow> 's \<Rightarrow> unit fault + 's"
  st_ttl :: "'k \<Rightarrow> 's \<Rightarrow> nat option"
  st_advance :: "nat \<Rightarrow> 's \<Rightarrow> 's"

text \<open>The contract instance is one entry, with an extension of its own.\<close>

definition extend_instance_ttl :: "(nat \<Rightarrow> nat \<Rightarrow> 's \<Rightarrow> unit fault + 's) \<Rightarrow> 's \<Rightarrow> unit fault + 's" where
  "extend_instance_ttl bump s = bump instance_bump_threshold instance_bump_to s"

definition extend_persistent_ttl :: "('k, 'v, 's) storage_if \<Rightarrow> 'k \<Rightarrow> 's \<Rightarrow> unit fault + 's" where
  "extend_persistent_ttl st key s =
     (if st_has st key s then st_extend st key persistent_bump_threshold persistent_bump_to s else Inr s)"


definition get_persistent :: "('k, 'v, 's) storage_if \<Rightarrow> 'k \<Rightarrow> 's \<Rightarrow> unit fault + 'v option \<times> 's" where
  "get_persistent st key s =
     (let v = st_get st key s in
      if v \<noteq> None
      then bindE (st_extend st key persistent_bump_threshold persistent_bump_to s) (\<lambda>s. Inr (v, s))
      else Inr (v, s))"

definition has_persistent :: "('k, 'v, 's) storage_if \<Rightarrow> 'k \<Rightarrow> 's \<Rightarrow> unit fault + bool \<times> 's" where
  "has_persistent st key s =
     (let present = st_has st key s in
      if present
      then bindE (st_extend st key persistent_bump_threshold persistent_bump_to s) (\<lambda>s. Inr (present, s))
      else Inr (present, s))"

definition extend_temporary_ttl :: "('k, 'v, 's) storage_if \<Rightarrow> 'k \<Rightarrow> 's \<Rightarrow> unit fault + 's" where
  "extend_temporary_ttl st key s =
     (if st_has st key s then st_extend st key temporary_bump_threshold temporary_bump_to s else Inr s)"

definition set_temporary :: "('k, 'v, 's) storage_if \<Rightarrow> 'k \<Rightarrow> 'v \<Rightarrow> 's \<Rightarrow> unit fault + 's" where
  "set_temporary st key v s = st_extend st key temporary_bump_threshold temporary_bump_to (st_set st key v s)"

definition get_temporary :: "('k, 'v, 's) storage_if \<Rightarrow> 'k \<Rightarrow> 's \<Rightarrow> unit fault + 'v option \<times> 's" where
  "get_temporary st key s =
     (let v = st_get st key s in
      if v \<noteq> None
      then bindE (st_extend st key temporary_bump_threshold temporary_bump_to s) (\<lambda>s. Inr (v, s))
      else Inr (v, s))"

definition has_temporary :: "('k, 'v, 's) storage_if \<Rightarrow> 'k \<Rightarrow> 's \<Rightarrow> unit fault + bool \<times> 's" where
  "has_temporary st key s =
     (let present = st_has st key s in
      if present
      then bindE (st_extend st key temporary_bump_threshold temporary_bump_to s) (\<lambda>s. Inr (present, s))
      else Inr (present, s))"

section \<open>What the host documents of lifetimes\<close>

text \<open>
  An extension of a live entry whose lifetime is below the threshold gives it the new lifetime, one
  above the threshold leaves it alone (at the threshold either may happen), and values stay.  An
  entry that is written is live, with at least its old lifetime.  Lifetimes run down with the
  ledgers, an entry that has outlived its own is gone.
\<close>

definition extended_to :: "nat \<Rightarrow> nat \<Rightarrow> nat \<Rightarrow> nat \<Rightarrow> bool" where
  "extended_to threshold to t t' \<longleftrightarrow>
     (t < threshold \<and> t' = to) \<or> (threshold < t \<and> t' = t) \<or> (t = threshold \<and> (t' = t \<or> t' = to))"

definition keeps_lifetimes :: "('k, 'v, 's) storage_if \<Rightarrow> bool" where
  "keeps_lifetimes st \<longleftrightarrow>
     (\<forall>k s. st_has st k s \<longleftrightarrow> st_ttl st k s \<noteq> None)
     \<and> (\<forall>k s. st_get st k s = None \<longleftrightarrow> st_ttl st k s = None)
     \<and> (\<forall>k s t threshold to. st_ttl st k s = Some t \<longrightarrow> threshold \<le> to \<longrightarrow>
          (\<exists>s' t'. st_extend st k threshold to s = Inr s' \<and> st_ttl st k s' = Some t' \<and>
             extended_to threshold to t t' \<and> (\<forall>k'. st_get st k' s' = st_get st k' s)))
     \<and> (\<forall>k v s. st_get st k (st_set st k v s) = Some v \<and> st_ttl st k (st_set st k v s) \<noteq> None)
     \<and> (\<forall>k s n t. st_ttl st k s = Some t \<longrightarrow>
          (if n \<le> t then st_ttl st k (st_advance st n s) = Some (t - n) \<and>
             st_get st k (st_advance st n s) = st_get st k s
           else st_ttl st k (st_advance st n s) = None))"

section \<open>Entries that are read stay\<close>



lemma threshold_below_target: "persistent_bump_threshold \<le> persistent_bump_to"
  by (simp add: ttl_constants)





text \<open>
  The module's note grants a margin of three missed months; it is less.  An entry written at first with
  the full lifetime and read after 29 days is not extended, and is gone 120 days later, when the
  payment after three missed ones is due.
\<close>

lemma three_missed_months_archive:
  assumes "keeps_lifetimes st" and "st_ttl st key s = Some persistent_bump_to"
    and "get_persistent st key (st_advance st (29 * ledgers_per_day) s) = Inr (v, s')"
  shows "st_ttl st key (st_advance st (120 * ledgers_per_day) s') = None"
proof -
  let ?s = "st_advance st (29 * ledgers_per_day) s"
  have t: "st_ttl st key ?s = Some (91 * ledgers_per_day)"
    using assms(1,2) unfolding keeps_lifetimes_def by (simp add: ttl_constants)
  then have "st_get st key ?s \<noteq> None" using assms(1) unfolding keeps_lifetimes_def by simp
  with assms(3) have "st_extend st key persistent_bump_threshold persistent_bump_to ?s = Inr s'"
    by (simp add: get_persistent_def outcome_simps)
  moreover obtain s1 t' where "st_extend st key persistent_bump_threshold persistent_bump_to ?s = Inr s1"
    "st_ttl st key s1 = Some t'" "extended_to persistent_bump_threshold persistent_bump_to (91 * ledgers_per_day) t'"
    using assms(1) t threshold_below_target unfolding keeps_lifetimes_def by metis
  ultimately have "st_ttl st key s' = Some (91 * ledgers_per_day)"
    by (auto simp: extended_to_def ttl_constants)
  with assms(1) show ?thesis unfolding keeps_lifetimes_def by (simp add: ttl_constants)
qed

section \<open>Properties\<close>


section \<open>Witnesses\<close>




end
