(* ===== verification/Harnesses.thy ===== *)
theory Harnesses
  imports PoolModelProps BondCollateral
begin

text \<open>
  The harnesses the repository wrote for a bounded model checker (\<open>formal_properties.rs\<close> of
  \<open>staking_pool\<close>, \<open>bond_collateral\<close> and \<open>soroban_access_control_core\<close>), as functions from the values they
  leave open to a verdict, and which of them hold for all values.  A harness with a loop takes the list of
  the values its rounds choose.
\<close>

section \<open>Verdicts\<close>

text \<open>An assumption that fails discards the run; an assertion that fails and a panic violate the harness.\<close>

datatype verdict = Holds | Discarded | Violated

definition assuming :: "bool \<Rightarrow> verdict \<Rightarrow> verdict" where
  "assuming b v = (if b then v else Discarded)"

definition asserting :: "bool \<Rightarrow> verdict \<Rightarrow> verdict" where
  "asserting b v = (if b then v else Violated)"

text \<open>An outcome that is not looked at (\<open>let _ = ..\<close>) may be an error, but not a panic.\<close>

definition ignoring :: "('e fault + 'a) \<times> 's \<Rightarrow> ('s \<Rightarrow> verdict) \<Rightarrow> verdict" where
  "ignoring r k = (case fst r of Inl (Trap _) \<Rightarrow> Violated | _ \<Rightarrow> k (snd r))"

definition is_ok :: "'f + 'a \<Rightarrow> bool" where
  "is_ok r = (case r of Inl _ \<Rightarrow> False | Inr _ \<Rightarrow> True)"

definition i128_half :: int where
  "i128_half = (2 ^ 127 - 1) div 2"

lemma verdict_simps [simp]:
  "assuming b v = Violated \<longleftrightarrow> b \<and> v = Violated"
  "asserting b v = Violated \<longleftrightarrow> (b \<longrightarrow> v = Violated)"
  "is_ok (Inl f) = False" "is_ok (Inr x) = True"
  by (simp_all add: assuming_def asserting_def is_ok_def)

lemma ignoring_Inr [simp]: "ignoring (Inr x, s) k = k s" and ignoring_Err [simp]: "ignoring (Inl (Err f), s) k = k s"
  by (simp_all add: ignoring_def)

section \<open>The harnesses of the staking pool\<close>

definition stake_no_overflow :: "int \<Rightarrow> int \<Rightarrow> verdict" where
  "stake_no_overflow total_staked staked_amount =
     assuming (0 < staked_amount) (assuming (0 \<le> total_staked)
     (assuming (total_staked \<le> i128_half) (assuming (staked_amount \<le> i128_half)
     (asserting (i128_ok (total_staked + staked_amount))
     (let (result, m) = apply_stake 0 staked_amount (pm_new\<lparr>pm_total_staked := total_staked\<rparr>) in
      asserting (is_ok result) (asserting (pm_total_staked m = total_staked + staked_amount) Holds))))))"

definition unstake_no_underflow :: "int \<Rightarrow> int \<Rightarrow> verdict" where
  "unstake_no_underflow balance unstake_amount =
     assuming (0 \<le> balance) (assuming (0 < unstake_amount)
     (let (result, m) = apply_unstake 0 unstake_amount
            (pm_new\<lparr>pm_balances := [balance, 0, 0], pm_total_staked := balance\<rparr>) in
      if unstake_amount \<le> balance
      then asserting (is_ok result) (asserting (0 \<le> pm_balances m ! 0)
             (asserting (pm_balances m ! 0 = balance - unstake_amount) Holds))
      else asserting (result = Inl (Err ME_InsufficientBalance)) (asserting (pm_balances m ! 0 = balance) Holds)))"

definition lock_period_enforced :: "nat \<Rightarrow> nat \<Rightarrow> nat \<Rightarrow> int \<Rightarrow> verdict" where
  "lock_period_enforced stake_timestamp lock_period current_time unstake_amount =
     assuming (0 < lock_period) (assuming (current_time < saturating_u64_add stake_timestamp lock_period)
     (assuming (0 < unstake_amount) (assuming (unstake_amount \<le> 1000000000)
     (let (result, m) = apply_unstake 0 unstake_amount
            (pm_new\<lparr>pm_lock_period := lock_period, pm_current_time := current_time,
               pm_balances := [unstake_amount, 0, 0], pm_total_staked := unstake_amount,
               pm_stake_timestamps := [stake_timestamp, 0, 0], pm_has_stake_timestamp := [True, False, False]\<rparr>) in
      asserting (result = Inl (Err ME_TokensLocked)) (asserting (pm_balances m ! 0 = unstake_amount) Holds)))))"

definition totals_agree :: "pool_model \<Rightarrow> bool" where
  "totals_agree m \<longleftrightarrow> sum_balances m = Inr (pm_total_staked m)"

fun stake_loop :: "nat \<Rightarrow> int list \<Rightarrow> pool_model \<Rightarrow> (pool_model \<Rightarrow> verdict) \<Rightarrow> verdict" where
  "stake_loop i [] m k = k m"
| "stake_loop i (amount # rest) m k =
     assuming (0 < amount) (assuming (amount \<le> 1000000000) (assuming (pm_total_staked m \<le> 2 ^ 127 - 1 - amount)
     (ignoring (apply_stake i amount m) (\<lambda>m.
     asserting (totals_agree m) (stake_loop (Suc i) rest m k)))))"

fun unstake_loop :: "nat \<Rightarrow> int list \<Rightarrow> pool_model \<Rightarrow> (pool_model \<Rightarrow> verdict) \<Rightarrow> verdict" where
  "unstake_loop i [] m k = k m"
| "unstake_loop i (unstake # rest) m k =
     assuming (0 < unstake) (assuming (unstake \<le> pm_balances m ! i)
     (ignoring (apply_unstake i unstake m) (\<lambda>m'.
     if is_ok (fst (apply_unstake i unstake m))
     then asserting (totals_agree m') (unstake_loop (Suc i) rest m' k)
     else unstake_loop (Suc i) rest m' k)))"

text \<open>A pair for each staker: what it stakes and what it takes out.\<close>

definition balance_conservation :: "(int \<times> int) list \<Rightarrow> verdict" where
  "balance_conservation stakers =
     assuming (length stakers \<le> 3)
     (stake_loop 0 (map fst stakers) pm_new (\<lambda>m.
      unstake_loop 0 (map snd stakers) m (\<lambda>m.
      asserting (totals_agree m) (asserting (\<forall>b \<in> set (pm_balances m). 0 \<le> b) Holds))))"

definition reentrancy_safety :: "bool \<Rightarrow> verdict" where
  "reentrancy_safety attempt_reentry =
     asserting (\<not> pm_reentrancy pm_new)
     (let (entered, m) = pm_enter pm_new in
      asserting (is_ok entered) (asserting (pm_reentrancy m)
      (let (again, m) = (if attempt_reentry then pm_enter m else (Inl (Err ME_ReentrancyDetected), m)) in
       asserting (again = Inl (Err ME_ReentrancyDetected))
       (asserting (\<not> pm_reentrancy (pm_exit m)) Holds))))"

definition upgrade_delay_respected :: "nat \<Rightarrow> nat \<Rightarrow> nat \<Rightarrow> verdict" where
  "upgrade_delay_respected proposed_at delay current_time =
     assuming (0 < delay) (assuming (current_time < saturating_u64_add proposed_at delay)
     (let model = pm_new\<lparr>pm_pending_upgrade_at := Some proposed_at, pm_upgrade_delay := delay,
                         pm_current_time := current_time\<rparr>;
          model_ready = model\<lparr>pm_current_time := saturating_u64_add proposed_at delay\<rparr> in
      asserting (can_execute_upgrade model = Inl (Err ME_UpgradeDelayNotMet))
      (asserting (is_ok (can_execute_upgrade model_ready)) Holds)))"

text \<open>A round of \<open>reward_conservation\<close>: the operation and the amount it chooses, if it chooses one.\<close>

fun conservation_loop :: "(nat \<times> int) list \<Rightarrow> pool_model \<Rightarrow> (pool_model \<Rightarrow> verdict) \<Rightarrow> verdict" where
  "conservation_loop [] m k = k m"
| "conservation_loop ((op_type, amount) # rest) m k =
     assuming (op_type < 3)
     (if op_type = 0 then
        assuming (0 \<le> amount) (assuming (amount \<le> 100000000000000)
        (if 0 < pm_total_staked m
         then ignoring (apply_distribute amount m) (\<lambda>m. conservation_loop rest m k)
         else conservation_loop rest m k))
      else if op_type = 1 then
        (if 0 < pm_total_staked m
         then ignoring (apply_claim 0 m) (\<lambda>m. conservation_loop rest m k)
         else conservation_loop rest m k)
      else
        assuming (0 < amount) (assuming (amount < pm_balances m ! 0)
        (ignoring (apply_unstake 0 amount m) (\<lambda>m. conservation_loop rest m k))))"

definition reward_conservation :: "(nat \<times> int) list \<Rightarrow> int \<Rightarrow> verdict" where
  "reward_conservation operations initial_staked =
     assuming (length operations \<le> 4) (assuming (0 \<le> initial_staked)
     (assuming (initial_staked \<le> 1000000000000000)
     (let m = pm_new\<lparr>pm_balances := [initial_staked, 0, 0], pm_total_staked := initial_staked,
                     pm_pool_balance := 1000000000000000\<rparr> in
      ignoring (update_user_index_on_stake 0 m) (\<lambda>m.
      conservation_loop operations m (\<lambda>m. asserting (check_reward_conservation m) Holds)))))"

text \<open>A round of \<open>reward_solvency\<close>: the operation, the reward it distributes or the user who claims.\<close>

fun solvency_loop :: "(nat \<times> int \<times> nat) list \<Rightarrow> pool_model \<Rightarrow> verdict" where
  "solvency_loop [] m = Holds"
| "solvency_loop ((op, reward, user_idx) # rest) m =
     assuming (op < 2)
     (if op = 0 then
        assuming (0 \<le> reward) (assuming (reward \<le> 100000000000)
        (ignoring (if 0 < pm_total_staked m then apply_distribute reward m else (Inr (), m)) (\<lambda>m.
         asserting (check_solvency m = Inr True) (solvency_loop rest m))))
      else
        assuming (user_idx < 2)
        (ignoring (apply_claim user_idx m) (\<lambda>m.
         asserting (check_solvency m = Inr True) (solvency_loop rest m))))"

definition reward_solvency :: "int \<Rightarrow> int \<Rightarrow> (nat \<times> int \<times> nat) list \<Rightarrow> verdict" where
  "reward_solvency stake0 stake1 operations =
     assuming (0 \<le> stake0) (assuming (stake0 \<le> 100000000000)
     (assuming (0 \<le> stake1) (assuming (stake1 \<le> 100000000000)
     (let total_principal = saturating_i128 (stake0 + stake1);
          m = pm_new\<lparr>pm_pool_balance := saturating_i128 (total_principal + 500000000000),
                     pm_balances := [stake0, stake1, 0], pm_total_staked := total_principal\<rparr> in
      ignoring (update_user_index_on_stake 0 m) (\<lambda>m.
      ignoring (update_user_index_on_stake 1 m) (\<lambda>m.
      assuming (length operations \<le> 3) (solvency_loop operations m)))))))"

definition no_free_rewards :: "int \<Rightarrow> int \<Rightarrow> int \<Rightarrow> verdict" where
  "no_free_rewards early_stake reward late_stake =
     assuming (0 < early_stake) (assuming (early_stake \<le> 1000000000000)
     (ignoring (apply_stake 0 early_stake pm_new) (\<lambda>m.
      ignoring (update_user_index_on_stake 0 m) (\<lambda>m.
      assuming (0 < reward) (assuming (reward \<le> 100000000000)
      (let (dist_result, m) = apply_distribute reward m in
       asserting (is_ok dist_result)
       (assuming (0 < late_stake) (assuming (late_stake \<le> 1000000000000)
       (ignoring (apply_stake 1 late_stake m) (\<lambda>m.
        ignoring (update_user_index_on_stake 1 m) (\<lambda>m.
        asserting (i128_ok (pm_pool_balance m + reward))
        (let m = m\<lparr>pm_pool_balance := pm_pool_balance m + reward\<rparr> in
         asserting (pm_user_index_snapshot m ! 0 = pm_user_index_snapshot m ! 1)
         (let (late_claim, m) = apply_claim 1 m in
          asserting (is_ok late_claim) (asserting (pm_unclaimed_rewards m ! 1 = 0) Holds))))))))))))))"

text \<open>\<open>hypothetical_claim.unwrap_or(0)\<close> is only reached with a claim that succeeded.\<close>

definition rounding_direction :: "int \<Rightarrow> int \<Rightarrow> verdict" where
  "rounding_direction total_staked reward =
     assuming (1 < total_staked) (assuming (total_staked \<le> 1000000000000)
     (assuming (0 < reward) (assuming (reward \<le> 100000000000) (assuming (reward smod total_staked \<noteq> 0)
     (let m = pm_new\<lparr>pm_balances := [total_staked, 0, 0], pm_total_staked := total_staked,
                     pm_pool_balance := 10000000000000\<rparr> in
      ignoring (update_user_index_on_stake 0 m) (\<lambda>m.
      ignoring (apply_distribute reward m) (\<lambda>m.
      asserting (reward \<le> pm_pool_balance m)
      (let (hypothetical_claim, m) = apply_claim 0 m in
       case hypothetical_claim of
         Inl (Trap _) \<Rightarrow> Violated
       | Inl (Err _) \<Rightarrow> Holds
       | Inr claimed \<Rightarrow> asserting (claimed \<le> reward) Holds))))))))"

section \<open>The pool's harnesses hold for all values\<close>

lemma stake_no_overflow_holds: "stake_no_overflow a b \<noteq> Violated"
  by (auto simp: stake_no_overflow_def i128_half_def pm_new_def apply_stake_def model_amount_def
      sp_require_valid_amount_def checked_i128_def i128_ok_def map_err_def)

lemma unstake_no_underflow_holds:
  assumes "i128_ok balance"
  shows "unstake_no_underflow balance n \<noteq> Violated"
  using assms
  by (auto simp: unstake_no_underflow_def pm_new_def apply_unstake_def model_amount_def model_locked_def
      sp_require_valid_amount_def i128_ok_def map_err_def Let_def)

lemma lock_period_enforced_holds: "lock_period_enforced ts lock now n \<noteq> Violated"
  by (auto simp: lock_period_enforced_def pm_new_def apply_unstake_def model_amount_def model_locked_def
      sp_require_valid_amount_def map_err_def)

lemma reentrancy_safety_holds: "reentrancy_safety b = Holds"
  by (simp add: reentrancy_safety_def pm_new_def pm_enter_def pm_exit_def asserting_def)

lemma upgrade_delay_respected_holds: "upgrade_delay_respected at delay now \<noteq> Violated"
  by (auto simp: upgrade_delay_respected_def can_execute_upgrade_def pm_new_def)

text \<open>The books of the model: non-negative balances that add up to the total.\<close>

definition bal_ok :: "pool_model \<Rightarrow> bool" where
  "bal_ok m \<longleftrightarrow> length (pm_balances m) = 3 \<and> (\<forall>b \<in> set (pm_balances m). 0 \<le> b)
     \<and> pm_total_staked m = sum_list (pm_balances m) \<and> i128_ok (pm_total_staked m)"

lemma bal_ok_totals: "bal_ok m \<Longrightarrow> totals_agree m"
  by (auto simp: bal_ok_def totals_agree_def sum_balances_def length_three i128_ok_def ck_i128_def)

lemma pm_inv_bal_ok: "pm_inv k m \<Longrightarrow> bal_ok m"
  unfolding pm_inv_def bal_ok_def by blast

lemma ignoring_stake:
  assumes "i < 3" and "bal_ok m" and "\<And>m'. bal_ok m' \<Longrightarrow> k m' \<noteq> Violated"
  shows "ignoring (apply_stake i amount m) k \<noteq> Violated"
proof -
  have "fst (apply_stake i amount m) \<noteq> Inl (Trap t)" for t
    using assms(1) by (auto simp: apply_stake_def model_amount_def sp_require_valid_amount_def checked_i128_def
        map_err_def split: sum.splits if_splits)
  moreover have "bal_ok (snd (apply_stake i amount m))"
  proof (cases rule: apply_stake_cases [of i amount m])
    case 2
    then have "0 \<le> pm_balances m ! i + amount" using assms(2) by (auto simp: bal_ok_def intro!: add_nonneg_nonneg)
    then have "\<forall>b \<in> set ((pm_balances m)[i := pm_balances m ! i + amount]). 0 \<le> b"
      using assms(2) by (intro set_update_le) (auto simp: bal_ok_def)
    then show ?thesis using 2 assms(2) by (simp add: bal_ok_def sum_list_three_upd)
  qed (use assms(2) in simp)
  ultimately show ?thesis using assms(3) by (auto simp: ignoring_def split: sum.splits fault.splits)
qed

text \<open>Taking out never panics either, and it keeps whatever invariant an unstake keeps.\<close>

lemma unstake_no_trap:
  assumes "i < 3" and "bal_ok m"
  shows "fst (apply_unstake i amount m) \<noteq> Inl (Trap t)"
proof -
  have "0 \<le> pm_balances m ! i" "pm_balances m ! i \<le> pm_total_staked m"
    using assms sum_list_ge_member [of "pm_balances m ! i" "pm_balances m"] by (auto simp: bal_ok_def)
  then show ?thesis
    using assms by (auto simp: apply_unstake_def model_amount_def sp_require_valid_amount_def map_err_def Let_def
        bal_ok_def i128_ok_def)
qed

lemma bal_ok_unstake:
  assumes "i < 3" and "bal_ok m"
  shows "bal_ok (snd (apply_unstake i amount m))"
proof (cases rule: apply_unstake_cases [of i amount m])
  case (2 m')
  have "pm_balances m ! i \<le> pm_total_staked m"
    using assms sum_list_ge_member [of "pm_balances m ! i" "pm_balances m"] by (auto simp: bal_ok_def)
  then have "i128_ok (pm_total_staked m - amount)" using 2(2,3) assms(2) by (auto simp: bal_ok_def i128_ok_def)
  then have "pm_total_staked m' = pm_total_staked m - amount" using 2(7) by blast
  moreover have "\<forall>b \<in> set ((pm_balances m)[i := pm_balances m ! i - amount]). 0 \<le> b"
    using assms(2) 2(3) by (intro set_update_le) (auto simp: bal_ok_def)
  ultimately show ?thesis
    using assms 2(5,6) \<open>i128_ok (pm_total_staked m - amount)\<close> by (simp add: bal_ok_def sum_list_three_upd)
qed (use assms(2) in simp)

lemma ignoring_unstake:
  assumes "i < 3" and "bal_ok m" and "k (snd (apply_unstake i amount m)) \<noteq> Violated"
  shows "ignoring (apply_unstake i amount m) k \<noteq> Violated"
  using assms unstake_no_trap [OF assms(1,2)] by (auto simp: ignoring_def split: sum.splits fault.splits)

lemma stake_loop_holds:
  assumes "bal_ok m" and "i + length xs \<le> 3" and "\<And>m. bal_ok m \<Longrightarrow> k m \<noteq> Violated"
  shows "stake_loop i xs m k \<noteq> Violated"
  using assms
proof (induction i xs m k rule: stake_loop.induct)
  case (2 i amount rest m k)
  have "ignoring (apply_stake i amount m) (\<lambda>m. asserting (totals_agree m) (stake_loop (Suc i) rest m k)) \<noteq> Violated"
    if "0 < amount" "amount \<le> 1000000000" "pm_total_staked m \<le> 2 ^ 127 - 1 - amount"
  proof (rule ignoring_stake [OF _ 2(2)])
    fix m' assume "bal_ok m'"
    then show "asserting (totals_agree m') (stake_loop (Suc i) rest m' k) \<noteq> Violated"
      using 2(1) [OF \<open>bal_ok m'\<close> _ 2(4)] 2(3) bal_ok_totals by simp
  qed (use 2(3) in simp)
  then show ?case by simp
qed simp

lemma unstake_loop_holds:
  assumes "bal_ok m" and "i + length xs \<le> 3" and "\<And>m. bal_ok m \<Longrightarrow> k m \<noteq> Violated"
  shows "unstake_loop i xs m k \<noteq> Violated"
  using assms
proof (induction xs arbitrary: i m)
  case (Cons n rest)
  then have i: "i < 3" by simp
  note keeps = bal_ok_unstake [OF i Cons.prems(1), of n]
  have "ignoring (apply_unstake i n m) (\<lambda>m'. if is_ok (fst (apply_unstake i n m))
      then asserting (totals_agree m') (unstake_loop (Suc i) rest m' k) else unstake_loop (Suc i) rest m' k) \<noteq> Violated"
    using Cons.IH [OF keeps, of "Suc i"] Cons.prems(2,3) bal_ok_totals [OF keeps]
    by (intro ignoring_unstake [OF i Cons.prems(1)]) auto
  then show ?case by simp
qed simp

lemma balance_conservation_holds: "balance_conservation stakers \<noteq> Violated"
proof -
  have start: "bal_ok pm_new" by (simp add: bal_ok_def pm_new_def i128_ok_def)
  have "length stakers \<le> 3 \<Longrightarrow> stake_loop 0 (map fst stakers) pm_new (\<lambda>m. unstake_loop 0 (map snd stakers) m
      (\<lambda>m. asserting (totals_agree m) (asserting (\<forall>b \<in> set (pm_balances m). 0 \<le> b) Holds))) \<noteq> Violated"
    using bal_ok_totals by (intro stake_loop_holds [OF start] unstake_loop_holds) (auto simp: bal_ok_def)
  then show ?thesis by (simp add: balance_conservation_def)
qed

text \<open>The reward harnesses keep \<open>pm_inv\<close>, so no operation in them panics.\<close>

lemma distribute_no_trap: "fst (apply_distribute r m) \<noteq> Inl (Trap t)"
  by (auto simp: apply_distribute_def checked_i128_def Let_def)

lemma ignoring_distribute:
  "k (snd (apply_distribute r m)) \<noteq> Violated \<Longrightarrow> ignoring (apply_distribute r m) k \<noteq> Violated"
  using distribute_no_trap [of r m] by (auto simp: ignoring_def split: sum.splits fault.splits)

lemma ignoring_claim:
  assumes "pm_inv k0 m" and "0 \<le> k0" and "u < 3" and "k (snd (apply_claim u m)) \<noteq> Violated"
  shows "ignoring (apply_claim u m) k \<noteq> Violated"
  using assms(4) by (auto simp: apply_claim_eq [OF assms(1-3)] ignoring_def)

lemma conservation_loop_holds:
  assumes "pm_inv k0 m" and "0 \<le> k0" and "\<And>m. pm_inv k0 m \<Longrightarrow> k m \<noteq> Violated"
  shows "conservation_loop ops m k \<noteq> Violated"
  using assms
proof (induction ops arbitrary: m)
  case (Cons op rest)
  obtain t n where op: "op = (t, n)" by fastforce
  let ?go = "\<lambda>m. conservation_loop rest m k"
  have go: "?go m' \<noteq> Violated" if "pm_inv k0 m'" for m' using Cons that by blast
  have "ignoring (apply_distribute n m) ?go \<noteq> Violated"
    by (intro ignoring_distribute go pm_inv_distribute Cons.prems)
  moreover have "ignoring (apply_claim 0 m) ?go \<noteq> Violated"
    by (intro ignoring_claim [OF Cons.prems(1,2)] go pm_inv_claim Cons.prems) simp
  moreover have "ignoring (apply_unstake 0 n m) ?go \<noteq> Violated"
    by (intro ignoring_unstake pm_inv_bal_ok [OF Cons.prems(1)] go pm_inv_unstake Cons.prems) simp
  ultimately show ?case using go [OF Cons.prems(1)] by (simp add: op)
qed simp

lemma pm_inv_start:
  assumes "\<forall>b \<in> set bals. 0 \<le> b" and "length bals = 3" and "k \<le> pool"
    and "i128_ok (sum_list bals)" and "i128_ok pool"
  shows "pm_inv k (pm_new\<lparr>pm_balances := bals, pm_total_staked := sum_list bals, pm_pool_balance := pool\<rparr>)"
  using assms by (auto simp: pm_inv_def pm_new_def length_three index_owed_def i128_ok_def)

lemma conservation_check: "pm_inv k m \<Longrightarrow> check_reward_conservation m"
  by (auto simp: pm_inv_def check_reward_conservation_def saturating_i128_def i128_ok_def)

lemma reward_conservation_holds: "reward_conservation operations n \<noteq> Violated"
proof -
  let ?m = "pm_new\<lparr>pm_balances := [n, 0, 0], pm_total_staked := n, pm_pool_balance := 1000000000000000\<rparr>"
  have "pm_inv 0 (snd (update_user_index_on_stake 0 ?m))" if "0 \<le> n" "n \<le> 1000000000000000"
    using pm_inv_start [of "[n, 0, 0]" 0 1000000000000000] that by (intro pm_inv_snapshot) (simp add: i128_ok_def)
  then have "conservation_loop operations (snd (update_user_index_on_stake 0 ?m))
      (\<lambda>m. asserting (check_reward_conservation m) Holds) \<noteq> Violated" if "0 \<le> n" "n \<le> 1000000000000000"
    using that by (intro conservation_loop_holds [of 0]) (auto simp: conservation_check)
  then show ?thesis by (simp add: reward_conservation_def update_user_index_on_stake_def)
qed

text \<open>
  For the solvency harness the pool also stays far below the bound of \<open>i128\<close>: each of the \<open>n\<close> rounds left
  adds at most one bounded reward.
\<close>

definition solvency_inv :: "int \<Rightarrow> nat \<Rightarrow> pool_model \<Rightarrow> bool" where
  "solvency_inv k n m \<longleftrightarrow> pm_inv k m \<and> 0 \<le> k \<and> pm_total_staked m \<le> k
     \<and> pm_pool_balance m + pm_total_claimed m + int n * 100000000000 \<le> 2 ^ 127 - 1"

lemma solvency_check:
  assumes "solvency_inv k n m"
  shows "check_solvency m = Inr True"
proof -
  let ?c = "pm_total_distributed m - pm_total_claimed m"
  have c: "0 \<le> ?c" "k + ?c \<le> pm_pool_balance m" "0 \<le> pm_total_claimed m" "pm_total_staked m \<le> k" "0 \<le> k"
    and ok: "i128_ok (pm_total_distributed m)" "i128_ok (pm_total_staked m)"
    and sum: "i128_ok (pm_pool_balance m + pm_total_claimed m)"
    using assms by (auto simp: solvency_inv_def pm_inv_def i128_ok_def)
  have "saturating_sub (pm_total_distributed m) (pm_total_claimed m) = ?c"
    using c ok by (intro saturating_sub_exact) (simp add: i128_ok_def)
  moreover have "saturating_i128 (pm_total_staked m + ?c) \<le> pm_pool_balance m + pm_total_claimed m"
    using c sum by (auto simp: saturating_i128_def i128_ok_def)
  ultimately show ?thesis using sum by (simp add: check_solvency_def ck_i128_def Let_def)
qed

lemma solvency_distribute:
  assumes "solvency_inv k (Suc n) m" and "0 \<le> r" and "r \<le> 100000000000"
  shows "solvency_inv k n (snd (apply_distribute r m))"
proof -
  have "pm_inv k (snd (apply_distribute r m))" using assms(1) by (intro pm_inv_distribute) (simp add: solvency_inv_def)
  moreover have "pm_pool_balance (snd (apply_distribute r m)) \<le> pm_pool_balance m + r"
    and "pm_total_claimed (snd (apply_distribute r m)) = pm_total_claimed m"
    and "pm_total_staked (snd (apply_distribute r m)) = pm_total_staked m"
    using assms(2) by (auto simp: apply_distribute_def checked_i128_def Let_def)
  ultimately show ?thesis using assms by (simp add: solvency_inv_def)
qed

lemma solvency_claim:
  assumes "solvency_inv k (Suc n) m" and "u < 3"
  shows "solvency_inv k n (snd (apply_claim u m))"
proof -
  have inv: "pm_inv k m" "0 \<le> k" using assms(1) by (simp_all add: solvency_inv_def)
  show ?thesis
    using assms(1) pm_inv_claim [OF inv, of u] by (auto simp: solvency_inv_def apply_claim_eq [OF inv assms(2)])
qed

lemma solvency_inv_less: "solvency_inv k (Suc n) m \<Longrightarrow> solvency_inv k n m"
  by (simp add: solvency_inv_def)

lemma solvency_loop_holds: "solvency_inv k (length ops) m \<Longrightarrow> solvency_loop ops m \<noteq> Violated"
proof (induction ops arbitrary: m)
  case (Cons op rest)
  obtain t r u where op: "op = (t, r, u)" by (metis prod_cases3)
  have inv: "solvency_inv k (Suc (length rest)) m" using Cons.prems by simp
  let ?go = "\<lambda>m. asserting (check_solvency m = Inr True) (solvency_loop rest m)"
  have go: "?go m' \<noteq> Violated" if "solvency_inv k (length rest) m'" for m'
    using that Cons.IH solvency_check by simp
  have "ignoring (apply_distribute r m) ?go \<noteq> Violated" if "0 \<le> r" "r \<le> 100000000000"
    by (intro ignoring_distribute go solvency_distribute inv that)
  moreover have "ignoring (apply_claim u m) ?go \<noteq> Violated" if "u < 2"
    using inv that by (intro ignoring_claim [of k] go solvency_claim) (auto simp: solvency_inv_def)
  ultimately show ?case using go [OF solvency_inv_less [OF inv]] by (simp add: op)
qed simp

lemma reward_solvency_holds: "reward_solvency a b operations \<noteq> Violated"
proof -
  let ?m = "pm_new\<lparr>pm_pool_balance := saturating_i128 (saturating_i128 (a + b) + 500000000000),
     pm_balances := [a, b, 0], pm_total_staked := saturating_i128 (a + b)\<rparr>"
  let ?m2 = "snd (update_user_index_on_stake 1 (snd (update_user_index_on_stake 0 ?m)))"
  have "solvency_inv (a + b) (length operations) ?m2"
    if "0 \<le> a" "a \<le> 100000000000" "0 \<le> b" "b \<le> 100000000000" "length operations \<le> 3"
  proof -
    have sat: "saturating_i128 (a + b) = a + b" "saturating_i128 (a + b + 500000000000) = a + b + 500000000000"
      using that by (auto simp: saturating_i128_def)
    have "pm_inv (a + b) ?m2"
      using pm_inv_start [of "[a, b, 0]" "a + b" "a + b + 500000000000"] that
      by (intro pm_inv_snapshot) (simp add: sat i128_ok_def pm_new_def)
    then show ?thesis using that by (simp add: solvency_inv_def sat update_user_index_on_stake_def pm_new_def)
  qed
  then show ?thesis
    using solvency_loop_holds [of "a + b" operations ?m2]
    by (auto simp: reward_solvency_def update_user_index_on_stake_def Let_def)
qed

text \<open>A claim after one distribution gets at most that distribution.\<close>

lemma rounding_direction_holds: "rounding_direction n r \<noteq> Violated"
proof -
  let ?m = "pm_new\<lparr>pm_balances := [n, 0, 0], pm_total_staked := n, pm_pool_balance := 10000000000000\<rparr>"
  let ?m1 = "snd (update_user_index_on_stake 0 ?m)"
  let ?m2 = "snd (apply_distribute r ?m1)"
  have "asserting (r \<le> pm_pool_balance ?m2) (case fst (apply_claim 0 ?m2) of Inl (Trap _) \<Rightarrow> Violated
      | Inl (Err _) \<Rightarrow> Holds | Inr claimed \<Rightarrow> asserting (claimed \<le> r) Holds) \<noteq> Violated"
    if "1 < n" "n \<le> 1000000000000" "0 < r" "r \<le> 100000000000"
  proof -
    have "pm_inv 10000000000000 ?m1"
      using pm_inv_start [of "[n, 0, 0]" 10000000000000 10000000000000] that
      by (intro pm_inv_snapshot) (simp add: i128_ok_def)
    then have inv: "pm_inv 10000000000000 ?m2" by (rule pm_inv_distribute)
    have "pm_total_distributed ?m2 - pm_total_claimed ?m2 \<le> r" "r \<le> pm_pool_balance ?m2"
      using that by (auto simp: apply_distribute_def update_user_index_on_stake_def pm_new_def checked_i128_def
          i128_ok_def Let_def)
    then show ?thesis
      using claim_share(3) [OF inv, of 0] that(3) by (auto simp: apply_claim_eq [OF inv])
  qed
  then have "ignoring (apply_distribute r ?m1) (\<lambda>m. asserting (r \<le> pm_pool_balance m)
      (case fst (apply_claim 0 m) of Inl (Trap _) \<Rightarrow> Violated | Inl (Err _) \<Rightarrow> Holds
       | Inr claimed \<Rightarrow> asserting (claimed \<le> r) Holds)) \<noteq> Violated"
    if "1 < n" "n \<le> 1000000000000" "0 < r" "r \<le> 100000000000"
    using that by (intro ignoring_distribute) blast
  then show ?thesis
    by (auto simp: rounding_direction_def update_user_index_on_stake_def split_beta Let_def)
qed

text \<open>The tenth harness never holds: the snapshots it compares differ after every distribution it admits.\<close>

lemma no_free_rewards_violated:
  assumes "0 < a" and "a \<le> 1000000000000" and "0 < r" and "r \<le> 100000000000"
    and "0 < b" and "b \<le> 1000000000000"
  shows "no_free_rewards a r b = Violated"
proof -
  let ?i = "r * pm_scale sdiv a"
  have div: "?i = r * pm_scale div a" using assms by (simp add: sdiv_nonneg pm_scale_def)
  have "a \<le> r * pm_scale" using assms by (simp add: pm_scale_def)
  then have pos: "0 < ?i" using assms by (simp add: div pos_imp_zdiv_pos_iff)
  have "?i \<le> r * pm_scale" unfolding div using assms zdiv_mono2 [of "r * pm_scale" 1 a] by (simp add: pm_scale_def)
  then have ok: "i128_ok ?i" using pos assms by (simp add: i128_ok_def pm_scale_def)
  show ?thesis
    using assms pos ok
    by (simp add: no_free_rewards_def assuming_def asserting_def pm_new_def apply_stake_def model_amount_def
        sp_require_valid_amount_def checked_i128_def i128_ok_def map_err_def update_user_index_on_stake_def
        apply_distribute_def pm_scale_def Let_def)
qed

lemma verdict_Holds:
  "assuming b v = Holds \<longleftrightarrow> b \<and> v = Holds"
  "asserting b v = Holds \<longleftrightarrow> b \<and> v = Holds"
  "ignoring r k = Holds \<longleftrightarrow> (\<forall>t. fst r \<noteq> Inl (Trap t)) \<and> k (snd r) = Holds"
  by (auto simp: assuming_def asserting_def ignoring_def split: sum.splits fault.splits)

lemma no_free_rewards_never_holds: "no_free_rewards a r b \<noteq> Holds"
proof
  assume holds: "no_free_rewards a r b = Holds"
  then have "0 < a \<and> a \<le> 1000000000000 \<and> 0 < r \<and> r \<le> 100000000000 \<and> 0 < b \<and> b \<le> 1000000000000"
    by (simp add: no_free_rewards_def verdict_Holds split_beta Let_def)
  with holds show False using no_free_rewards_violated by simp
qed

text \<open>The harnesses that hold are not empty: each has a run that no assumption discards.\<close>

lemma staking_harnesses_not_empty:
  "stake_no_overflow 5 7 = Holds" "unstake_no_underflow 5 3 = Holds" "unstake_no_underflow 3 5 = Holds"
  "balance_conservation [(5, 2), (7, 7)] = Holds"
  by code_simp+

lemma timed_harnesses_not_empty:
  "lock_period_enforced 100 50 120 9 = Holds" "upgrade_delay_respected 100 50 120 = Holds"
  by (simp_all add: lock_period_enforced_def upgrade_delay_respected_def assuming_def asserting_def pm_new_def
      apply_unstake_def model_amount_def model_locked_def sp_require_valid_amount_def map_err_def
      can_execute_upgrade_def saturating_u64_add_def Let_def)

lemma reward_harnesses_not_empty:
  "reward_conservation [(0, 500), (1, 0), (2, 40)] 100 = Holds"
  "reward_solvency 100 50 [(0, 300, 0), (1, 0, 1)] = Holds"
  "rounding_direction 100 350 = Holds"
  by code_simp+

section \<open>The harnesses of the access gate\<close>

text \<open>
  They call \<open>require_admin_permission\<close> for addresses left open.  The environment is a parameter: in
  \<open>Env::default()\<close> nobody has authorised anything.
\<close>

datatype access_error = AE_NotAuthorized

definition admin_gate :: "env \<Rightarrow> 'w host \<Rightarrow> address \<Rightarrow> address \<Rightarrow> string \<Rightarrow> access_error fault + unit" where
  "admin_gate e s admin caller operation = require_admin_permission e admin caller operation AE_NotAuthorized s"

text \<open>A result the harness looks at: a panic in the call ends it.\<close>

definition looking :: "'e fault + 'a \<Rightarrow> (bool \<Rightarrow> verdict) \<Rightarrow> verdict" where
  "looking r k = (case r of Inl (Trap _) \<Rightarrow> Violated | Inl (Err _) \<Rightarrow> k False | Inr _ \<Rightarrow> k True)"

definition proof_only_admin_can_grant_role :: "env \<Rightarrow> 'w host \<Rightarrow> address \<Rightarrow> address \<Rightarrow> verdict" where
  "proof_only_admin_can_grant_role e s admin caller =
     assuming (caller \<noteq> admin)
     (let result = admin_gate e s admin caller ''grant_role'' in
      looking result (\<lambda>ok. asserting (\<not> ok) (asserting (result = Inl (Err AE_NotAuthorized)) Holds)))"

definition proof_admin_permission_granted_to_admin :: "env \<Rightarrow> 'w host \<Rightarrow> address \<Rightarrow> verdict" where
  "proof_admin_permission_granted_to_admin e s admin =
     looking (admin_gate e s admin admin ''grant_role'') (\<lambda>ok. asserting ok Holds)"

definition proof_role_grant_reflected_immediately :: "env \<Rightarrow> 'w host \<Rightarrow> address \<Rightarrow> verdict" where
  "proof_role_grant_reflected_immediately e s admin =
     looking (admin_gate e s admin admin ''grant_role'') (\<lambda>ok. asserting ok
     (looking (admin_gate e s admin admin ''has_role'') (\<lambda>ok. asserting ok Holds)))"

definition proof_role_revoke_reflected_immediately :: "env \<Rightarrow> 'w host \<Rightarrow> address \<Rightarrow> address \<Rightarrow> verdict" where
  "proof_role_revoke_reflected_immediately e s admin revokee =
     assuming (revokee \<noteq> admin)
     (looking (admin_gate e s admin revokee ''protected_op'') (\<lambda>ok. asserting (\<not> ok) Holds))"

definition proof_cannot_self_grant_role :: "env \<Rightarrow> 'w host \<Rightarrow> address \<Rightarrow> address \<Rightarrow> verdict" where
  "proof_cannot_self_grant_role e s admin attacker =
     assuming (attacker \<noteq> admin)
     (looking (admin_gate e s admin attacker ''grant_role'') (\<lambda>ok. asserting (\<not> ok) Holds))"

definition proof_last_admin_cannot_revoke_own_admin :: "env \<Rightarrow> 'w host \<Rightarrow> address \<Rightarrow> address \<Rightarrow> verdict" where
  "proof_last_admin_cannot_revoke_own_admin e s sole_admin caller =
     assuming (caller \<noteq> sole_admin)
     (looking (admin_gate e s sole_admin caller ''revoke_admin_role'') (\<lambda>ok. asserting (\<not> ok) Holds))"

definition proof_has_role_deterministic :: "env \<Rightarrow> 'w host \<Rightarrow> address \<Rightarrow> address \<Rightarrow> verdict" where
  "proof_has_role_deterministic e s admin subject =
     looking (admin_gate e s admin subject ''has_role'') (\<lambda>first.
     looking (admin_gate e s admin subject ''has_role'') (\<lambda>second. asserting (first = second) Holds))"

lemmas access_harness_defs =
  proof_only_admin_can_grant_role_def proof_admin_permission_granted_to_admin_def
  proof_role_grant_reflected_immediately_def proof_role_revoke_reflected_immediately_def
  proof_cannot_self_grant_role_def proof_last_admin_cannot_revoke_own_admin_def proof_has_role_deterministic_def

lemma looking_admin_gate:
  "looking (admin_gate e s admin caller operation) k =
     (if authorized e caller then k (caller = admin) else Violated)"
  by (simp add: looking_def admin_gate_def require_admin_permission_def require_auth_def deny_def)

lemma admin_gate_denies:
  "authorized e caller \<Longrightarrow> caller \<noteq> admin \<Longrightarrow> admin_gate e s admin caller op = Inl (Err AE_NotAuthorized)"
  by (simp add: admin_gate_def require_admin_permission_denied)

text \<open>All seven hold when the calling address has authorised the call, and without that all seven panic.\<close>

lemma access_harnesses_hold:
  assumes "authorized e caller" and "authorized e admin"
  shows "proof_only_admin_can_grant_role e s admin caller \<noteq> Violated"
    and "proof_admin_permission_granted_to_admin e s admin = Holds"
    and "proof_role_grant_reflected_immediately e s admin = Holds"
    and "proof_role_revoke_reflected_immediately e s admin caller \<noteq> Violated"
    and "proof_cannot_self_grant_role e s admin caller \<noteq> Violated"
    and "proof_last_admin_cannot_revoke_own_admin e s admin caller \<noteq> Violated"
    and "proof_has_role_deterministic e s admin caller = Holds"
  using assms by (auto simp: access_harness_defs looking_admin_gate admin_gate_denies Let_def verdict_Holds)

lemma access_harnesses_need_authorisation:
  assumes "\<not> authorized e caller" and "\<not> authorized e admin" and "caller \<noteq> admin"
  shows "proof_only_admin_can_grant_role e s admin caller = Violated"
    and "proof_admin_permission_granted_to_admin e s admin = Violated"
    and "proof_role_grant_reflected_immediately e s admin = Violated"
    and "proof_role_revoke_reflected_immediately e s admin caller = Violated"
    and "proof_cannot_self_grant_role e s admin caller = Violated"
    and "proof_last_admin_cannot_revoke_own_admin e s admin caller = Violated"
    and "proof_has_role_deterministic e s admin caller = Violated"
  using assms by (auto simp: access_harness_defs looking_admin_gate Let_def)

section \<open>The harnesses of the bond collateral\<close>

text \<open>They compute with plain numbers and call no operation of the contract.\<close>

definition prove_no_fund_leakage :: "int \<Rightarrow> int \<Rightarrow> int \<Rightarrow> verdict" where
  "prove_no_fund_leakage collateral bond deposit_amount =
     assuming (0 \<le> collateral) (assuming (0 \<le> bond) (assuming (collateral \<le> (2 ^ 127 - 1) div 100)
     (asserting (i128_ok (collateral * 100))
     (let ratio = (if bond = 0 then 2 ^ 32 - 1 else (collateral * 100 sdiv bond) mod 2 ^ 32) in
      asserting (0 \<le> ratio)
      (assuming (0 < deposit_amount) (assuming (deposit_amount \<le> i128_half) (assuming (collateral \<le> i128_half)
      (let after_deposit = collateral + deposit_amount in
       asserting (i128_ok after_deposit) (asserting (after_deposit - deposit_amount = collateral) Holds)))))))))"

definition prove_slash_monotonicity :: "int \<Rightarrow> int \<Rightarrow> verdict" where
  "prove_slash_monotonicity initial_collateral initial_bond =
     assuming (0 \<le> initial_collateral) (assuming (0 < initial_bond)
     (assuming (initial_collateral \<le> (2 ^ 127 - 1) div 100)
     (asserting (0 \<le> initial_bond) (asserting (0 \<le> initial_collateral) Holds))))"

definition prove_withdraw_safety :: "int \<Rightarrow> int \<Rightarrow> int \<Rightarrow> nat \<Rightarrow> verdict" where
  "prove_withdraw_safety collateral bond withdraw_amount liquidation_threshold =
     assuming (0 < collateral) (assuming (0 < bond) (assuming (0 < withdraw_amount)
     (assuming (withdraw_amount \<le> collateral) (assuming (100 \<le> liquidation_threshold)
     (assuming (liquidation_threshold \<le> 1000) (assuming (collateral \<le> (2 ^ 127 - 1) div 100)
     (let remaining = collateral - withdraw_amount in
      assuming (0 \<le> remaining) (assuming (remaining \<le> (2 ^ 127 - 1) div 100)
      (let new_ratio = (remaining * 100 sdiv bond) mod 2 ^ 32 in
       if int liquidation_threshold \<le> new_ratio
       then asserting (int liquidation_threshold \<le> new_ratio) Holds
       else asserting (new_ratio < int liquidation_threshold) Holds)))))))))"

definition harness_keeper_reward :: "int \<Rightarrow> int \<Rightarrow> int" where
  "harness_keeper_reward collateral cap_bps =
     (let max_reward = collateral sdiv 10;
          reward_from_cap = (if collateral \<le> (2 ^ 127 - 1) sdiv (cap_bps + 1)
            then collateral * cap_bps sdiv 10000 else max_reward)
      in if reward_from_cap < max_reward then reward_from_cap else max_reward)"

definition prove_slash_ceiling :: "int \<Rightarrow> nat \<Rightarrow> verdict" where
  "prove_slash_ceiling collateral keeper_reward_cap_bps =
     assuming (0 \<le> collateral) (assuming (collateral \<le> (2 ^ 127 - 1) div 100)
     (assuming (keeper_reward_cap_bps \<le> 5000)
     (let keeper_reward = harness_keeper_reward collateral (int keeper_reward_cap_bps) in
      asserting (keeper_reward \<le> collateral) (asserting (0 \<le> collateral - keeper_reward) Holds))))"

definition prove_admin_only_invariant :: "bool \<Rightarrow> verdict" where
  "prove_admin_only_invariant caller_is_admin =
     (let result = (if caller_is_admin then Inr () else Inl AE_NotAuthorized) in
      if caller_is_admin then asserting (is_ok result) Holds else asserting (\<not> is_ok result) Holds)"

lemma bond_harnesses_hold:
  "prove_no_fund_leakage c b d \<noteq> Violated" "prove_slash_monotonicity c b \<noteq> Violated"
  "prove_withdraw_safety c b n t \<noteq> Violated" "prove_admin_only_invariant caller = Holds"
  by (auto simp: prove_no_fund_leakage_def prove_slash_monotonicity_def prove_withdraw_safety_def
      prove_admin_only_invariant_def i128_half_def i128_ok_def verdict_Holds Let_def)

lemma slash_ceiling_holds: "prove_slash_ceiling c k \<noteq> Violated"
proof -
  have "0 \<le> c \<Longrightarrow> harness_keeper_reward c (int k) \<le> c sdiv 10" by (simp add: harness_keeper_reward_def Let_def)
  moreover have "0 \<le> c \<Longrightarrow> c sdiv 10 \<le> c" by (simp add: sdiv_nonneg)
  ultimately show ?thesis by (auto simp: prove_slash_ceiling_def Let_def)
qed

text \<open>
  The tenth of the collateral the harness allows a keeper at most is not a limit of \<open>liquidate\<close>: with the
  highest cap the contract accepts it pays half of what it seizes.
\<close>

lemma harness_limits_reward_contract_does_not:
  "harness_keeper_reward 1000 5000 = 100" "min ((1000::int) * 5000 sdiv 10000) 1000 = 500"
  by (simp_all add: harness_keeper_reward_def signed_divide_int_def Let_def)

end
