(* ===== verification/Spec2Isabelle.thy ===== *)
theory Spec2Isabelle
  imports ReceiptHash StakingPoolProps DealEscrowProps MvpStakingPoolProps StakingRewardsProps
    Vesting MultisigAdmin Timelock Governance RentWallet StakeDelegation SlashingModule
    BondCollateralProps BondSlashing WhistleblowerRewardsProps RentToOwnProps EpochRewardsProps InspectorBondProps OracleFeedsProps RentPaymentsProps TransactionReceiptProps ContractAccessProps RentScheduleProps SchemaRegistry TenantReputation UpgradeableProxy GuardContract AllowlistRegistry ModuleTreeProps PoolModelProps StorageTtl Harnesses
begin

text \<open>
  A verification library for the Shelterflex contracts: Soroban smart contracts in Rust that finance rent
  (escrow, receipts, schedules, rent to own), pool and reward stakes, secure bonds with slashing, and
  govern themselves (roles, multi-signature, votes, timelocks, upgrades).

  \<^bold>\<open>How the contracts are modelled.\<close>  \<open>Soroban\<close> is the prelude: addresses, host values, events, and
  computations that end in a contract error or a trap (\<open>'e fault + 'a\<close>, sequenced by \<open>bindE\<close>, the code's
  question mark).  An entry point is a function from the invocation (\<open>env\<close>: who authorised it, the
  contract's address, the time), its arguments and the contract's state to a fault or to the new state and
  its result; the host rolls a failed invocation back, so a fault carries no state.  A contract's state is a
  record with one field per storage key, an absent entry is \<open>None\<close>; the events of the accepted calls are
  kept in order.  Integers are mathematical ones with the width of the source checked at each operation
  (\<open>ck_i128\<close>, \<open>ck_u64\<close>, \<open>ck_u32\<close>): the workspace is built with overflow checks, so an overflow is a trap.
  What is not in the repository is a parameter: the token (\<open>token_if\<close>, with the predicate \<open>sep41\<close> for
  what the token standard says of a transfer), the XDR form and SHA-256 (\<open>host_crypto\<close>), an invoked
  contract, a price feed, the storage of the host, a file system.  Each theorem that assumes something of
  one of them has a witness at a concrete instance.

  \<open>Machines\<close> turns a contract into a machine: a datatype of calls, an \<open>exec\<close> function over every entry
  point that changes state, histories (\<open>run_calls\<close>, failed calls leave the state alone), reachability with
  other activity on the ledger between the calls (\<open>reach\<close>), the accepted calls (\<open>accepted\<close>) and the
  amounts they pay out (\<open>tally\<close>).  Its locales are the interfaces of the library: \<open>invariant_machine\<close> (an
  invariant every call keeps holds in every reachable state), \<open>refinement\<close> (the accepted calls are steps of
  an abstract specification), \<open>custodian\<close> (a contract that never pays out more than it books stays
  covered by its token balance).  \<open>Pausable.pausable\<close> is the contract of a pause switch,
  \<open>ReentrancyGuard.lock_cell\<close> that of a lock entry.  Each locale is interpreted on the contracts' own
  definitions in the theory that provides them, and the properties rest on those interpretations.

  \<^bold>\<open>Shared libraries of the workspace.\<close>
  \<^item> \<open>AccessControl\<close>: \<open>soroban_access_control_core\<close>, \<open>soroban_access_control\<close>; the admin and operator gates.
  \<^item> \<open>Pausable\<close>: \<open>soroban_pausable_core\<close>, \<open>soroban_pausable\<close>.
  \<^item> \<open>ReentrancyGuard\<close>: \<open>soroban_reentrancy_guard\<close>, with the guard that is released on every way out.
  \<^item> \<open>UpgradeGovernance\<close>: \<open>soroban_upgrade_governance_core\<close>; its entries are part of the state of every
    contract that uses it.  An execution follows a proposal of the same code by the delay in force.
  \<^item> \<open>StorageTtl\<close>: \<open>soroban_storage_ttl\<close>, which every contract uses to keep entries alive.  The other
    theories leave lifetimes out; here it is shown for how long a gap between accesses that is right.
  \<^item> \<open>ModuleTree\<close>, \<open>ModuleTreeProps\<close>: \<open>module_tree_check\<close>, the scanner and the search that look for source
    files no module declaration reaches.  Both searches are partial functions whose value \<open>None\<close> is a run
    that does not end; that they end, and with exactly what, is proved for file systems without cycles.

  \<^bold>\<open>Stakes, rewards and escrow.\<close>
  \<^item> \<open>StakingPool\<close>, \<open>StakingPoolProps\<close>: \<open>staking_pool\<close>; deposits with locks, first in first out.  Solvency in
    every history, what an unstaking consumes, and that the unlocked amount can always be had.
  \<^item> \<open>ReceiptHash\<close>: the receipt payload of \<open>staking_pool\<close>; its decimal loops stay in their arrays.
  \<^item> \<open>PoolModel\<close>, \<open>PoolModelProps\<close>: \<open>staking_pool/src/formal_properties.rs\<close>, the repository's own model for
    a bounded checker.  Its rewards are conserved for any number of operations, and the contract refines
    it while no lock period is set.
  \<^item> \<open>Harnesses\<close>: the harnesses for that checker, here and in \<open>bond_collateral\<close> and the access libraries, as
    functions from the values they leave open to a verdict; all but one hold for all values of their types,
    that one can never hold, and those of the access gate need an authorisation their environment lacks.
  \<^item> \<open>MvpStakingPool\<close>, \<open>MvpStakingPoolProps\<close>: \<open>mvp_staking_pool\<close>; an index shares the rewards, the token
    balance covers stakes and rewards in every history.
  \<^item> \<open>StakingRewards\<close>, \<open>StakingRewardsProps\<close>: \<open>staking_rewards\<close>; how far rewards can exceed the funding.
  \<^item> \<open>EpochRewards\<close>, \<open>EpochRewardsProps\<close>: \<open>epoch_rewards\<close>; nothing is claimed beyond what was funded.
  \<^item> \<open>DealEscrow\<close>, \<open>DealEscrowProps\<close>: \<open>deal_escrow\<close>; books and custody of every deal, who is paid when a
    release settles, the breaker, the lifecycle, the storage migration.
  \<^item> \<open>WhistleblowerRewards\<close>, \<open>WhistleblowerRewardsProps\<close>: \<open>whistleblower_rewards\<close>; a claim equals the
    first-in first-out reference and whatever the view shows can be claimed.
  \<^item> \<open>Vesting\<close>: \<open>vesting_schedule\<close>; claims never exceed what has vested, and exactly when one succeeds.

  \<^bold>\<open>Bonds and slashing.\<close>
  \<^item> \<open>StakeDelegation\<close>: \<open>stake_delegation\<close>; the accounts of stakers and delegations agree in every history.
  \<^item> \<open>SlashingModule\<close>: \<open>slashing_module\<close>; what is finalised was due, and revealed where that is required.
  \<^item> \<open>Float64\<close>, \<open>BondCollateral\<close>, \<open>BondCollateralProps\<close>: \<open>bond_collateral\<close>; binary64 arithmetic as far as
    the code uses it, custody of the collateral, liquidation.
  \<^item> \<open>BondSlashing\<close>: \<open>bond_collateral\<close> calling \<open>slashing_module\<close>, the two models composed: both agree on what
    every inspector lost.
  \<^item> \<open>InspectorBond\<close>, \<open>InspectorBondProps\<close>: \<open>inspector_bond\<close>; bonds slashed at once or after a window.

  \<^bold>\<open>Rent.\<close>
  \<^item> \<open>RentWallet\<close>: \<open>rent_wallet\<close>; refines a ledger of credits and debits, with monthly caps.
  \<^item> \<open>RentPayments\<close>, \<open>RentPaymentsProps\<close>: \<open>rent_payments\<close>; the insertion sort and the cursors of the listing,
    and that the pages list every receipt once.
  \<^item> \<open>TransactionReceipt\<close>, \<open>TransactionReceiptProps\<close>: \<open>transaction-receipt-contract\<close>; receipts are written
    once, the listings are slices of an append-only ledger.
  \<^item> \<open>RentSchedule\<close>, \<open>RentScheduleProps\<close>: \<open>rent_schedule\<close>; every instalment is accounted for.
  \<^item> \<open>RentToOwn\<close>, \<open>RentToOwnProps\<close>: \<open>rent_to_own\<close>; equity is the payments made, a default is settled once.
  \<^item> \<open>TenantReputation\<close>: \<open>tenant_reputation\<close>; the decay of a score in closed form.

  \<^bold>\<open>Governance and infrastructure.\<close>
  \<^item> \<open>MultisigAdmin\<close>: \<open>multisig_admin\<close>; \<open>Timelock\<close>: \<open>timelock\<close>; \<open>Governance\<close>: \<open>governance\<close>: what an executed
    proposal, call or vote had to pass.
  \<^item> \<open>ContractAccess\<close>, \<open>ContractAccessProps\<close>: \<open>contract_access\<close>; roles take two persons.
  \<^item> \<open>UpgradeableProxy\<close>: \<open>upgradeable_proxy\<close>; \<open>GuardContract\<close>: \<open>reentrancy_guard\<close>; \<open>AllowlistRegistry\<close>:
    \<open>allowlist_registry\<close>; \<open>SchemaRegistry\<close>: \<open>schema_registry\<close>, whose migrations form a chain.
  \<^item> \<open>OracleFeeds\<close>, \<open>OracleFeedsProps\<close>: \<open>oracle_price_feeds\<close>; the price is a median no minority of sources
    can move.

  \<^bold>\<open>Loops and bounds.\<close>  Loops over indices and vectors are structural recursions over the positions the code
  runs through, loops on a counter are functions with the measure \<open>bound - counter\<close>, so no fuel is used
  but for a client that follows the pages of a listing: one page more than there are receipts is enough,
  which is part of the theorem.  Hypotheses such as fewer than \<open>2 ^ 31\<close> calls keep counters of 32 or 64
  bits from overflowing.

  \<^bold>\<open>Not modelled.\<close>  Read-only entry points that return a stored value are modelled where a property uses
  them.  The lifetime of storage entries is left out of the contracts' models (see \<open>StorageTtl\<close>), except
  in \<open>Timelock\<close>, whose temporary entries can vanish.  The cost limits of the host, the order in which it
  iterates over a map, the tests, the deployment scripts and the migration framework in TypeScript and shell
  are not modelled, nor are the harnesses of \<open>reentrancy_guard\<close>, which do not compile.
\<close>

end
